(* ===== verification/Prelude.thy ===== *)
theory Prelude
  imports Main "HOL-Library.AList" "HOL-Library.Multiset" "HOL-Library.Sublist"
begin

text \<open>
  What the components share: JavaScript sorting with a comparator function, insertion-ordered
  maps, sets and string operations, each as an executable HOL function.

  \<^item> A comparator is a function into \<open>int\<close> whose sign orders its arguments, as in
    \<open>Array.prototype.sort\<close>. \<open>js_sort\<close> is the stable sort that the ECMAScript standard asks for;
    the locale \<open>comparator\<close> states what the standard calls a consistent comparator, and
    \<open>strict_comparator\<close> adds that only equal elements compare as 0.
  \<^item> A \<open>Map\<close> or a string-keyed object is an association list in insertion order:
    \<open>map_of\<close> is \<open>get\<close>, \<open>AList.update\<close> is \<open>set\<close> (in place when the key is there, appended
    otherwise), \<open>map fst\<close> is \<open>keys\<close>.
  \<^item> Strings are character lists.
\<close>

named_theorems js_defs \<open>definitions of small helpers that proofs unfold together\<close>
named_theorems js_set_simps \<open>set, mset and key facts of the JavaScript containers\<close>

section \<open>Sorting with a comparator\<close>

type_synonym 'a cmp = "'a \<Rightarrow> 'a \<Rightarrow> int"

fun js_insert :: "'a cmp \<Rightarrow> 'a \<Rightarrow> 'a list \<Rightarrow> 'a list" where
  "js_insert cmp x [] = [x]"
| "js_insert cmp x (y # ys) =
     (if cmp x y \<le> 0 then x # y # ys else y # js_insert cmp x ys)"

fun js_sort :: "'a cmp \<Rightarrow> 'a list \<Rightarrow> 'a list" where
  "js_sort cmp [] = []"
| "js_sort cmp (x # xs) = js_insert cmp x (js_sort cmp xs)"

lemma mset_js_insert [simp]: "mset (js_insert cmp x xs) = add_mset x (mset xs)"
  by (induction xs) auto

lemma mset_js_sort [simp]: "mset (js_sort cmp xs) = mset xs"
  by (induction xs) auto

lemma set_js_sort [simp]: "set (js_sort cmp xs) = set xs"
  by (metis mset_js_sort set_mset_mset)

lemma length_js_sort [simp]: "length (js_sort cmp xs) = length xs"
  by (metis mset_js_sort size_mset)

lemma distinct_js_sort [simp]: "distinct (js_sort cmp xs) = distinct xs"
  by (metis mset_js_sort mset_eq_imp_distinct_iff)

lemma js_sort_Nil_iff [simp]: "js_sort cmp xs = [] \<longleftrightarrow> xs = []"
  by (metis length_js_sort length_0_conv)

lemma mset_map_js_sort [simp]: "mset (map f (js_sort cmp xs)) = mset (map f xs)"
  by (simp only: mset_map mset_js_sort)

lemma distinct_map_js_sort [simp]: "distinct (map f (js_sort cmp xs)) = distinct (map f xs)"
  by (metis mset_map_js_sort mset_eq_imp_distinct_iff)

locale comparator =
  fixes cmp :: "'a cmp"
  assumes cmp_total: "cmp x y \<le> 0 \<or> cmp y x \<le> 0"
    and cmp_trans: "cmp x y \<le> 0 \<Longrightarrow> cmp y z \<le> 0 \<Longrightarrow> cmp x z \<le> 0"
begin

lemma cmp_self: "cmp x x \<le> 0"
  using cmp_total by blast

lemma sorted_js_insert:
  "sorted_wrt (\<lambda>a b. cmp a b \<le> 0) xs \<Longrightarrow> sorted_wrt (\<lambda>a b. cmp a b \<le> 0) (js_insert cmp x xs)"
proof (induction xs)
  case Nil
  then show ?case by simp
next
  case (Cons y ys)
  have set_ins: "set (js_insert cmp x ys) = insert x (set ys)"
    by (metis mset_js_insert set_mset_add_mset_insert set_mset_mset)
  show ?case
  proof (cases "cmp x y \<le> 0")
    case True
    with Cons.prems show ?thesis by (auto intro: cmp_trans)
  next
    case False
    then have "cmp y x \<le> 0" using cmp_total by blast
    with False Cons show ?thesis by (simp add: set_ins)
  qed
qed

lemma sorted_js_sort: "sorted_wrt (\<lambda>a b. cmp a b \<le> 0) (js_sort cmp xs)"
  by (induction xs) (auto intro: sorted_js_insert)

lemma js_sort_sorted: "sorted_wrt (\<lambda>a b. cmp a b \<le> 0) xs \<Longrightarrow> js_sort cmp xs = xs"
proof (induction xs)
  case Nil
  then show ?case by simp
next
  case (Cons x xs)
  then show ?case by (cases xs) auto
qed

lemma js_sort_idem: "js_sort cmp (js_sort cmp xs) = js_sort cmp xs"
  by (rule js_sort_sorted[OF sorted_js_sort])

end

locale strict_comparator = comparator +
  assumes cmp_antisym: "cmp x y \<le> 0 \<Longrightarrow> cmp y x \<le> 0 \<Longrightarrow> x = y"
begin

lemma sorted_wrt_unique:
  assumes "sorted_wrt (\<lambda>a b. cmp a b \<le> 0) xs" and "sorted_wrt (\<lambda>a b. cmp a b \<le> 0) ys"
    and "mset xs = mset ys"
  shows "xs = ys"
  using assms
proof (induction xs arbitrary: ys)
  case Nil
  then show ?case by simp
next
  case (Cons x xs)
  then obtain y ys' where ys: "ys = y # ys'" by (cases ys) auto
  have "x \<in> set ys" and "y \<in> set (x # xs)"
    using Cons.prems(3) ys by (metis list.set_intros(1) set_mset_mset)+
  with Cons.prems ys have "x = y"
    by (auto intro: cmp_antisym)
  with Cons ys show ?case by auto
qed

lemma js_sort_cong: "mset xs = mset ys \<Longrightarrow> js_sort cmp xs = js_sort cmp ys"
  by (rule sorted_wrt_unique) (simp_all add: sorted_js_sort)

end

text \<open>Entries of a map sorted by their keys.\<close>

definition key_cmp :: "'k cmp \<Rightarrow> ('k \<times> 'v) cmp" where
  "key_cmp cmp p q = cmp (fst p) (fst q)"

abbreviation key_sort :: "'k cmp \<Rightarrow> ('k \<times> 'v) list \<Rightarrow> ('k \<times> 'v) list" where
  "key_sort cmp \<equiv> js_sort (key_cmp cmp)"

lemma map_fst_js_insert: "map fst (js_insert (key_cmp cmp) x xs) = js_insert cmp (fst x) (map fst xs)"
  by (induction xs) (auto simp: key_cmp_def)

lemma map_fst_key_sort: "map fst (key_sort cmp xs) = js_sort cmp (map fst xs)"
  by (induction xs) (auto simp: map_fst_js_insert)

lemma map_of_key_sort [simp]: "distinct (map fst xs) \<Longrightarrow> map_of (key_sort cmp xs) = map_of xs"
  by (rule map_of_inject_set[THEN iffD2]) auto

lemma js_insert_map_values:
  "map (\<lambda>(k, v). (k, g k v)) (js_insert (key_cmp cmp) p xs) =
   js_insert (key_cmp cmp) (fst p, g (fst p) (snd p)) (map (\<lambda>(k, v). (k, g k v)) xs)"
  by (induction xs) (auto simp: key_cmp_def split: prod.splits)

lemma key_sort_map_values:
  "map (\<lambda>(k, v). (k, g k v)) (key_sort cmp xs) = key_sort cmp (map (\<lambda>(k, v). (k, g k v)) xs)"
  by (induction xs) (auto simp: js_insert_map_values split: prod.splits)

context comparator begin

lemma key_comparator: "comparator (key_cmp cmp :: ('a \<times> 'v) cmp)"
  by unfold_locales (auto simp: key_cmp_def cmp_total intro: cmp_trans)

lemma sorted_keys: "sorted_wrt (\<lambda>a b. cmp a b \<le> 0) (map fst (key_sort cmp xs))"
  unfolding map_fst_key_sort by (rule sorted_js_sort)

end

context strict_comparator begin

lemma sorted_entries_unique:
  fixes xs ys :: "('a \<times> 'v) list"
  assumes sx: "sorted_wrt (\<lambda>a b. cmp a b \<le> 0) (map fst xs)"
    and sy: "sorted_wrt (\<lambda>a b. cmp a b \<le> 0) (map fst ys)"
    and dx: "distinct (map fst xs)" and dy: "distinct (map fst ys)" and eq: "set xs = set ys"
  shows "xs = ys"
proof -
  have "mset (map fst xs) = mset (map fst ys)"
    using dx dy eq by (metis set_map set_eq_iff_mset_eq_distinct)
  then have k: "map fst xs = map fst ys" by (rule sorted_wrt_unique[OF sx sy])
  have rebuild: "zs = map (\<lambda>k. (k, the (map_of zs k))) (map fst zs)" if "distinct (map fst zs)"
    for zs :: "('a \<times> 'v) list"
    unfolding map_map by (rule map_idI[symmetric]) (auto dest!: map_of_is_SomeI[OF that])
  have "map_of xs = map_of ys"
    using map_of_inject_set[OF dx dy] eq by simp
  then show ?thesis
    using rebuild[OF dx] rebuild[OF dy] k by metis
qed

end

section \<open>Insertion-ordered sets and maps\<close>

text \<open>\<open>[...new Set(xs)]\<close>: first occurrences, in order.\<close>

definition js_set :: "'a list \<Rightarrow> 'a list" where
  "js_set xs = rev (remdups (rev xs))"

lemma set_js_set [simp]: "set (js_set xs) = set xs"
  by (simp add: js_set_def)

lemma distinct_js_set [simp]: "distinct (js_set xs)"
  by (simp add: js_set_def)

text \<open>\<open>new Map(entries)\<close> and \<open>Object.fromEntries(entries)\<close>.\<close>

definition map_from :: "('k \<times> 'v) list \<Rightarrow> ('k \<times> 'v) list" where
  "map_from es = fold (\<lambda>(k, v). AList.update k v) es []"

lemma map_of_fold_update:
  "map_of (fold (\<lambda>(k, v). AList.update k v) es m) = map_of m ++ map_of (rev es)"
proof (induction es arbitrary: m)
  case Nil
  then show ?case by simp
next
  case (Cons e es)
  then show ?case by (cases e) (simp add: update_conv' map_add_assoc fun_upd_def map_add_def fun_eq_iff split: option.splits)
qed

lemma map_of_map_from: "map_of (map_from es) = map_of (rev es)"
  by (simp add: map_from_def map_of_fold_update)

lemma distinct_fold_update:
  "distinct (map fst m) \<Longrightarrow> distinct (map fst (fold (\<lambda>(k, v). AList.update k v) es m))"
  by (induction es arbitrary: m) (auto simp: distinct_update)

lemma distinct_map_from [simp]: "distinct (map fst (map_from es))"
  by (simp add: map_from_def distinct_fold_update)

lemma update_new_key: "k \<notin> fst ` set m \<Longrightarrow> AList.update k v m = m @ [(k, v)]"
  by (induction m) auto

lemma fold_update_append:
  "distinct (map fst (m @ es)) \<Longrightarrow> fold (\<lambda>(k, v). AList.update k v) es m = m @ es"
proof (induction es arbitrary: m)
  case Nil
  then show ?case by simp
next
  case (Cons e es)
  obtain k v where e: "e = (k, v)" by (cases e)
  with Cons.prems have "AList.update k v m = m @ [e]"
    by (intro update_new_key[THEN trans]) auto
  with Cons.IH[of "m @ [e]"] Cons.prems e show ?case by simp
qed

lemma map_from_distinct [simp]: "distinct (map fst es) \<Longrightarrow> map_from es = es"
  using fold_update_append[of "[]" es] by (simp add: map_from_def)

lemma set_map_from: "set (map_from es) \<subseteq> set es"
proof
  fix p assume "p \<in> set (map_from es)"
  then have "map_of (map_from es) (fst p) = Some (snd p)"
    by (intro map_of_is_SomeI) auto
  then show "p \<in> set es"
    by (auto simp: map_of_map_from dest!: map_of_SomeD)
qed

lemma map_of_filter_key: "map_of (filter (\<lambda>p. P (fst p)) m) k = (if P k then map_of m k else None)"
  by (induction m) auto

lemma map_of_filter_distinct:
  "distinct (map fst m) \<Longrightarrow>
   map_of (filter P m) k = (case map_of m k of None \<Rightarrow> None | Some v \<Rightarrow> if P (k, v) then Some v else None)"
proof (induction m)
  case Nil
  then show ?case by simp
next
  case (Cons p m)
  obtain a b where p: "p = (a, b)" by (cases p)
  have "map_of m a = None" using Cons.prems p by (simp add: map_of_eq_None_iff)
  moreover have "map_of (filter P m) a = None"
    using Cons.prems p by (auto simp: map_of_eq_None_iff)
  ultimately show ?case using Cons p by auto
qed

lemma distinct_map_filter: "distinct (map f xs) \<Longrightarrow> distinct (map f (filter P xs))"
  by (induction xs) auto

lemma map_of_map_values: "map_of (map (\<lambda>(k, v). (k, f k v)) m) k = map_option (f k) (map_of m k)"
  by (induction m) auto

lemma map_fst_values [simp]: "map fst (map (\<lambda>(k, v). (k, f k v)) m) = map fst m"
  by (induction m) auto

lemma map_from_values:
  "distinct (map fst m) \<Longrightarrow> map_from (map (\<lambda>(k, v). (k, f k v)) m) = map (\<lambda>(k, v). (k, f k v)) m"
  by (rule map_from_distinct) (simp only: map_fst_values)

lemma map_of_SomeI_distinct: "distinct (map fst m) \<Longrightarrow> (k, v) \<in> set m \<longleftrightarrow> map_of m k = Some v"
  by auto

lemma map_of_None_keys: "map_of m k = None \<longleftrightarrow> k \<notin> set (map fst m)"
  by (auto simp: map_of_eq_None_iff)

lemma map_of_Some_key: "map_of m k = Some v \<Longrightarrow> k \<in> set (map fst m)"
  by (auto dest: map_of_SomeD simp: rev_image_eqI)

declare set_js_set [js_set_simps] map_of_map_from [js_set_simps]

text \<open>A predicate on an optional field.\<close>

definition opt_all :: "('a \<Rightarrow> bool) \<Rightarrow> 'a option \<Rightarrow> bool" where
  "opt_all P v = (case v of None \<Rightarrow> True | Some x \<Rightarrow> P x)"

lemma opt_all_simps [simp]: "opt_all P None" "opt_all P (Some x) = P x"
  by (simp_all add: opt_all_def)

text \<open>Values grouped by key, in the order in which they come: \<open>(map.get(k) ?? []).concat(v)\<close>.\<close>

definition keyed_step :: "'k \<times> 'v \<Rightarrow> ('k \<times> 'v list) list \<Rightarrow> ('k \<times> 'v list) list" where
  "keyed_step e m = AList.update (fst e) ((case map_of m (fst e) of None \<Rightarrow> [] | Some vs \<Rightarrow> vs) @ [snd e]) m"

definition group_by_key :: "('k \<times> 'v) list \<Rightarrow> ('k \<times> 'v list) list" where
  "group_by_key es = fold keyed_step es []"

lemma group_fold:
  "map_of (fold keyed_step es m) k =
     (let vs = map snd (filter (\<lambda>e. fst e = k) es)
      in case map_of m k of None \<Rightarrow> if vs = [] then None else Some vs | Some ws \<Rightarrow> Some (ws @ vs))"
proof (induction es arbitrary: m)
  case (Cons e es)
  then show ?case by (auto simp: keyed_step_def Let_def update_conv' split: option.splits)
qed (simp split: option.splits)

lemma map_of_group_by_key:
  "map_of (group_by_key es) k =
     (if map snd (filter (\<lambda>e. fst e = k) es) = [] then None else Some (map snd (filter (\<lambda>e. fst e = k) es)))"
  by (simp add: group_by_key_def group_fold Let_def)

lemma distinct_group_by_key: "distinct (map fst (group_by_key es))"
proof -
  have "distinct (map fst m) \<Longrightarrow> distinct (map fst (fold keyed_step es m))" for m :: "('a \<times> 'b list) list"
    by (induction es arbitrary: m) (simp_all add: keyed_step_def distinct_update)
  then show ?thesis by (simp add: group_by_key_def)
qed

section \<open>Strings\<close>

definition is_js_space :: "char \<Rightarrow> bool" where
  "is_js_space c \<longleftrightarrow> (let n = of_char c :: nat in (9 \<le> n \<and> n \<le> 13) \<or> n = 32 \<or> n = 160)"

definition js_trim :: "string \<Rightarrow> string" where
  "js_trim s = rev (dropWhile is_js_space (rev (dropWhile is_js_space s)))"

text \<open>\<open>toLowerCase\<close> on the ASCII letters, the only ones the callers test for.\<close>

definition to_lower :: "char \<Rightarrow> char" where
  "to_lower c = (let n = of_char c :: nat in if 65 \<le> n \<and> n \<le> 90 then char_of (n + 32) else c)"

definition js_lower :: "string \<Rightarrow> string" where
  "js_lower s = map to_lower s"

definition is_digit :: "char \<Rightarrow> bool" where
  "is_digit c \<longleftrightarrow> (let n = of_char c :: nat in 48 \<le> n \<and> n \<le> 57)"

definition is_lower_alnum :: "char \<Rightarrow> bool" where
  "is_lower_alnum c \<longleftrightarrow> is_digit c \<or> (let n = of_char c :: nat in 97 \<le> n \<and> n \<le> 122)"

lemma js_trim_idem: "js_trim (js_trim s) = js_trim s"
proof -
  have dw: "dropWhile is_js_space (rev (dropWhile is_js_space (rev t))) = rev (dropWhile is_js_space (rev t))"
    if "dropWhile is_js_space t = t" for t
  proof (cases t)
    case Nil
    then show ?thesis by simp
  next
    case (Cons c cs)
    with that have c: "\<not> is_js_space c"
      by (metis dropWhile_eq_Cons_conv)
    show ?thesis
      using c unfolding Cons by (simp add: dropWhile_append)
  qed
  have "dropWhile is_js_space (dropWhile is_js_space s) = dropWhile is_js_space s"
    by simp
  from dw[OF this] show ?thesis
    by (simp add: js_trim_def)
qed

text \<open>\<open>String.prototype.split\<close> on one character.\<close>

fun js_split :: "char \<Rightarrow> string \<Rightarrow> string list" where
  "js_split d [] = [[]]"
| "js_split d (c # cs) =
     (if c = d then [] # js_split d cs
      else case js_split d cs of [] \<Rightarrow> [[c]] | w # ws \<Rightarrow> (c # w) # ws)"

fun js_join :: "string \<Rightarrow> string list \<Rightarrow> string" where
  "js_join sep [] = []"
| "js_join sep [w] = w"
| "js_join sep (w # ws) = w @ sep @ js_join sep ws"

lemma js_split_not_Nil [simp]: "js_split d s \<noteq> []"
  by (induction s) (auto split: list.splits)

lemma js_join_split: "js_join [d] (js_split d s) = s"
proof (induction s)
  case Nil
  then show ?case by simp
next
  case (Cons c cs)
  obtain w ws where "js_split d cs = w # ws" by (cases "js_split d cs") auto
  with Cons show ?case by (cases ws) auto
qed

lemma split_append: "js_split d (s @ d # t) = js_split d s @ js_split d t"
  by (induction s) (auto split: list.splits)

lemma split_plain: "d \<notin> set s \<Longrightarrow> js_split d s = [s]"
  by (induction s) auto

lemma split_joined:
  "xs \<noteq> [] \<Longrightarrow> list_all (\<lambda>x. d \<notin> set x) xs \<Longrightarrow> js_split d (js_join [d] xs) = xs"
  by (induction xs rule: induct_list012) (auto simp: split_append split_plain)

lemma join_inject:
  "xs \<noteq> [] \<Longrightarrow> ys \<noteq> [] \<Longrightarrow> list_all (\<lambda>x. d \<notin> set x) xs \<Longrightarrow> list_all (\<lambda>x. d \<notin> set x) ys \<Longrightarrow>
     js_join [d] xs = js_join [d] ys \<Longrightarrow> xs = ys"
  by (metis split_joined)

text \<open>Two characters of the messages outside ASCII, as their UTF-8 bytes.\<close>

definition em_dash :: string where
  "em_dash = [CHR 0xE2, CHR 0x80, CHR 0x94]"

definition right_arrow :: string where
  "right_arrow = [CHR 0xE2, CHR 0x86, CHR 0x92]"

text \<open>Substring search: \<open>String.prototype.replace\<close> with a string pattern, the first occurrence only.\<close>

fun js_replace :: "string \<Rightarrow> string \<Rightarrow> string \<Rightarrow> string" where
  "js_replace pat by [] = (if pat = [] then by else [])"
| "js_replace pat by (c # cs) =
     (if take (length pat) (c # cs) = pat then by @ drop (length pat) (c # cs)
      else c # js_replace pat by cs)"

text \<open>\<open>replaceAll\<close> with a nonempty pattern: the occurrences from the left that do not overlap.\<close>

function js_replace_all :: "string \<Rightarrow> string \<Rightarrow> string \<Rightarrow> string" where
  "js_replace_all pat by [] = []"
| "js_replace_all pat by (c # cs) =
     (if pat \<noteq> [] \<and> take (length pat) (c # cs) = pat
      then by @ js_replace_all pat by (drop (length pat) (c # cs))
      else c # js_replace_all pat by cs)"
  by pat_completeness auto
termination by (relation "measure (\<lambda>(_, _, s). length s)") (auto simp: not_less)

end
