(* ===== verification/Codepoint.thy ===== *)
theory Codepoint
  imports Prelude "HOL-Library.Word"
begin

text \<open>
  \<open>kernel/codepoint-compare.ts\<close>: the order of every committed list, key and hash input.

  A JavaScript string is a list of UTF-16 code units (\<open>16 word\<close>). The comparator walks two
  strings with one index each, reading whole code points, so a surrogate pair counts as one
  scalar value. Names, paths and ids elsewhere in the development are character lists; their
  code units are the characters' codes (\<open>js_units\<close>).

  Shown: the loop terminates; it decides the lexicographic order of the decoded code points;
  it is a strict comparator (0 only for equal strings), so sorting by it is canonical; it
  differs from the code unit order of the relational operators on supplementary characters.
\<close>

type_synonym units = "16 word list"

definition js_units :: "string \<Rightarrow> units" where
  "js_units s = map of_char s"

definition code_unit_width :: "nat \<Rightarrow> nat" where
  "code_unit_width cp = (if cp > 0xffff then 2 else 1)"

definition compare_scalars :: "nat \<Rightarrow> nat \<Rightarrow> int" where
  "compare_scalars l r = (if l < r then -1 else if l > r then 1 else 0)"

definition compare_exhausted :: "nat \<Rightarrow> nat \<Rightarrow> nat \<Rightarrow> nat \<Rightarrow> int" where
  "compare_exhausted ai alen bi blen =
     (if ai \<ge> alen \<and> bi \<ge> blen then 0 else if ai \<ge> alen then -1 else 1)"

text \<open>\<open>String.prototype.codePointAt\<close>; \<open>None\<close> past the end.\<close>

definition is_high :: "16 word \<Rightarrow> bool" where
  "is_high u \<longleftrightarrow> 0xD800 \<le> unat u \<and> unat u \<le> 0xDBFF"

definition is_low :: "16 word \<Rightarrow> bool" where
  "is_low u \<longleftrightarrow> 0xDC00 \<le> unat u \<and> unat u \<le> 0xDFFF"

definition pair_value :: "16 word \<Rightarrow> 16 word \<Rightarrow> nat" where
  "pair_value h l = (unat h - 0xD800) * 0x400 + (unat l - 0xDC00) + 0x10000"

definition code_point_at :: "units \<Rightarrow> nat \<Rightarrow> nat option" where
  "code_point_at s i =
     (if i \<ge> length s then None
      else if is_high (s ! i) \<and> Suc i < length s \<and> is_low (s ! Suc i)
        then Some (pair_value (s ! i) (s ! Suc i))
      else Some (unat (s ! i)))"

lemma code_unit_width_pos [simp]: "0 < code_unit_width cp"
  by (simp add: code_unit_width_def)

function compare_loop :: "units \<Rightarrow> units \<Rightarrow> nat \<Rightarrow> nat \<Rightarrow> int" where
  "compare_loop a b i j =
     (if i < length a \<and> j < length b then
        (let aCp = (case code_point_at a i of None \<Rightarrow> 0 | Some c \<Rightarrow> c);
             bCp = (case code_point_at b j of None \<Rightarrow> 0 | Some c \<Rightarrow> c);
             order = compare_scalars aCp bCp
         in if order \<noteq> 0 then order
            else compare_loop a b (i + code_unit_width aCp) (j + code_unit_width bCp))
      else compare_exhausted i (length a) j (length b))"
  by pat_completeness auto
termination
  by (relation "measure (\<lambda>(a, b, i, j). length a - i)") (auto simp: code_unit_width_def)

declare compare_loop.simps [simp del]

definition compareByCodepointUnits :: "units \<Rightarrow> units \<Rightarrow> int" where
  "compareByCodepointUnits a b = compare_loop a b 0 0"

definition compareByCodepoint :: "string \<Rightarrow> string \<Rightarrow> int" where
  "compareByCodepoint a b = compareByCodepointUnits (js_units a) (js_units b)"

text \<open>The reference: decode to code points, compare lexicographically.\<close>

fun decode :: "units \<Rightarrow> nat list" where
  "decode [] = []"
| "decode [u] = [unat u]"
| "decode (u # v # us) =
     (if is_high u \<and> is_low v then pair_value u v # decode us else unat u # decode (v # us))"

fun lex_cmp :: "nat list \<Rightarrow> nat list \<Rightarrow> int" where
  "lex_cmp [] [] = 0"
| "lex_cmp [] (y # ys) = -1"
| "lex_cmp (x # xs) [] = 1"
| "lex_cmp (x # xs) (y # ys) = (if x < y then -1 else if x > y then 1 else lex_cmp xs ys)"

section \<open>The loop decides the order of the decoded strings\<close>

lemma unat16: "unat (u :: 16 word) < 65536"
  using unsigned_less[of u] by simp

lemma decode_drop:
  assumes "i < length s"
  shows "\<exists>cp. code_point_at s i = Some cp \<and>
           decode (drop i s) = cp # decode (drop (i + code_unit_width cp) s)"
proof -
  let ?u = "s ! i"
  show ?thesis
  proof (cases "Suc i < length s")
    case False
    with assms have d: "drop i s = [?u]" and e: "drop (Suc i) s = []"
      by (auto simp: Cons_nth_drop_Suc[symmetric])
    have w: "code_unit_width (unat ?u) = 1"
      using unat16[of ?u] by (simp add: code_unit_width_def)
    from False assms d e w show ?thesis by (auto simp: code_point_at_def)
  next
    case True
    let ?v = "s ! Suc i"
    from True have d: "drop i s = ?u # ?v # drop (Suc (Suc i)) s"
      by (metis Cons_nth_drop_Suc Suc_lessD)
    from True have e: "drop (Suc i) s = ?v # drop (Suc (Suc i)) s"
      by (metis Cons_nth_drop_Suc)
    show ?thesis
    proof (cases "is_high ?u \<and> is_low ?v")
      case pair: True
      have "code_unit_width (pair_value ?u ?v) = 2"
        by (simp add: code_unit_width_def pair_value_def)
      with pair True d assms show ?thesis by (auto simp: code_point_at_def)
    next
      case single: False
      have "code_unit_width (unat ?u) = 1"
        using unat16[of ?u] by (simp add: code_unit_width_def)
      with single True d e assms show ?thesis by (auto simp: code_point_at_def)
    qed
  qed
qed

lemma decode_eq_Nil [simp]: "decode s = [] \<longleftrightarrow> s = []"
  by (induction s rule: decode.induct) auto

lemma Nil_eq_decode [simp]: "[] = decode s \<longleftrightarrow> s = []"
  by (metis decode_eq_Nil)

lemma unat16_eq [simp]: "unat u = unat v \<longleftrightarrow> u = (v :: 16 word)"
  by (metis word_unat_eq_iff)

lemma compare_loop_decode:
  "compare_loop a b i j = lex_cmp (decode (drop i a)) (decode (drop j b))"
proof (induction a b i j rule: compare_loop.induct)
  case (1 a b i j)
  show ?case
  proof (cases "i < length a \<and> j < length b")
    case False
    then show ?thesis
      by (cases "i < length a"; cases "j < length b";
          auto simp: compare_loop.simps[of a b i j] compare_exhausted_def
               dest!: decode_drop)
  next
    case True
    obtain ac where a: "code_point_at a i = Some ac"
        "decode (drop i a) = ac # decode (drop (i + code_unit_width ac) a)"
      using decode_drop True by blast
    obtain bc where b: "code_point_at b j = Some bc"
        "decode (drop j b) = bc # decode (drop (j + code_unit_width bc) b)"
      using decode_drop True by blast
    show ?thesis
    proof (cases "ac = bc")
      case False
      with True a b show ?thesis
        by (auto simp: compare_loop.simps[of a b i j] compare_scalars_def)
    next
      case eq: True
      from True a b eq have "compare_loop a b i j =
          compare_loop a b (i + code_unit_width ac) (j + code_unit_width bc)"
        by (simp add: compare_loop.simps[of a b i j] compare_scalars_def)
      moreover have "\<dots> = lex_cmp (decode (drop (i + code_unit_width ac) a))
          (decode (drop (j + code_unit_width bc) b))"
        using "1.IH"[OF True refl refl refl] True a b eq by (simp add: compare_scalars_def)
      ultimately show ?thesis using a b eq by simp
    qed
  qed
qed

section \<open>The order laws\<close>

lemma lex_cmp_self [simp]: "lex_cmp xs xs = 0"
  by (induction xs) auto

lemma lex_cmp_eq_0: "lex_cmp xs ys = 0 \<longleftrightarrow> xs = ys"
  by (induction xs ys rule: lex_cmp.induct) auto

lemma lex_cmp_neg: "lex_cmp ys xs = - lex_cmp xs ys"
  by (induction xs ys rule: lex_cmp.induct) auto

lemma lex_cmp_Nil: "lex_cmp [] zs \<le> 0"
  by (cases zs) auto

lemma lex_cmp_trans: "lex_cmp xs ys \<le> 0 \<Longrightarrow> lex_cmp ys zs \<le> 0 \<Longrightarrow> lex_cmp xs zs \<le> 0"
proof (induction xs arbitrary: ys zs)
  case Nil
  then show ?case by (simp add: lex_cmp_Nil)
next
  case (Cons x xs)
  then obtain y ys' where ys: "ys = y # ys'" by (cases ys) auto
  with Cons.prems obtain z zs' where "zs = z # zs'" by (cases zs) auto
  with ys Cons show ?case by (force split: if_splits)
qed

lemma lex_cmp_cases: "lex_cmp xs ys = -1 \<or> lex_cmp xs ys = 0 \<or> lex_cmp xs ys = 1"
  by (induction xs ys rule: lex_cmp.induct) auto

text \<open>Decoding is injective: no two strings have the same code points.\<close>

lemma pair_value_ge: "0x10000 \<le> pair_value h l"
  by (simp add: pair_value_def)

lemma pair_value_inj:
  assumes "is_high h" "is_low l" "is_high h'" "is_low l'" "pair_value h l = pair_value h' l'"
  shows "h = h' \<and> l = l'"
proof -
  let ?a = "unat h - 0xD800" let ?b = "unat l - 0xDC00"
  let ?c = "unat h' - 0xD800" let ?d = "unat l' - 0xDC00"
  have eq: "?a * 0x400 + ?b = ?c * 0x400 + ?d"
    using assms(5) by (simp add: pair_value_def)
  have b: "?b < 0x400" and d: "?d < 0x400"
    using assms(2,4) by (auto simp: is_low_def)
  have "(?a * 0x400 + ?b) div 0x400 = ?a" and "(?c * 0x400 + ?d) div 0x400 = ?c"
    using b d by (simp_all add: div_mult_self3)
  with eq have "?a = ?c" by simp
  with eq have "?b = ?d" by simp
  with \<open>?a = ?c\<close> assms(1-4) have "unat h = unat h'" "unat l = unat l'"
    unfolding is_high_def is_low_def by linarith+
  then show ?thesis by simp
qed

lemma pair_value_not_unit: "pair_value h l \<noteq> unat (u :: 16 word)"
  using pair_value_ge[of h l] unat16[of u] by linarith

lemma decode_head_unit:
  "decode (v # us) = unat u # ds \<Longrightarrow> v = u"
  by (cases us) (auto split: if_splits simp: pair_value_not_unit)

lemma decode_inj: "decode a = decode b \<Longrightarrow> a = b"
proof (induction a arbitrary: b rule: decode.induct)
  case 1
  then show ?case by (metis decode_eq_Nil)
next
  case (2 u)
  then show ?case
    by (cases b rule: decode.cases) (auto split: if_splits simp: pair_value_not_unit[symmetric] pair_value_not_unit)
next
  case (3 u v us)
  show ?case
  proof (cases b rule: decode.cases)
    case 1
    with "3.prems" show ?thesis by (auto split: if_splits)
  next
    case (2 w)
    with "3.prems" show ?thesis
      by (auto split: if_splits simp: pair_value_not_unit)
  next
    case (3 w x ws)
    show ?thesis
    proof (cases "is_high u \<and> is_low v")
      case True
      with "3.prems" 3 have "is_high w \<and> is_low x"
        by (auto split: if_splits simp: pair_value_not_unit)
      with True "3.prems" "3.IH"(1) 3 show ?thesis
        using pair_value_inj[of u v w x] by auto
    next
      case False
      with "3.prems" 3 have "\<not> (is_high w \<and> is_low x)"
        by (auto split: if_splits simp: pair_value_not_unit[symmetric])
      with False "3.prems" "3.IH"(2)[OF False, of "x # ws"] 3 show ?thesis by auto
    qed
  qed
qed

lemma compare_units_lex: "compareByCodepointUnits a b = lex_cmp (decode a) (decode b)"
  by (simp add: compareByCodepointUnits_def compare_loop_decode)

interpretation cpu: strict_comparator compareByCodepointUnits
proof unfold_locales
  fix x y z :: units
  show "compareByCodepointUnits x y \<le> 0 \<or> compareByCodepointUnits y x \<le> 0"
    using lex_cmp_neg[of "decode x" "decode y"] by (simp add: compare_units_lex) arith
  show "compareByCodepointUnits x y \<le> 0 \<Longrightarrow> compareByCodepointUnits y z \<le> 0 \<Longrightarrow>
      compareByCodepointUnits x z \<le> 0"
    by (simp add: compare_units_lex lex_cmp_trans[of "decode x" "decode y" "decode z"])
  show "compareByCodepointUnits x y \<le> 0 \<Longrightarrow> compareByCodepointUnits y x \<le> 0 \<Longrightarrow> x = y"
    using lex_cmp_neg[of "decode x" "decode y"]
    by (auto simp: compare_units_lex intro!: decode_inj simp flip: lex_cmp_eq_0)
qed

lemma js_units_inj: "js_units a = js_units b \<Longrightarrow> a = b"
proof -
  have i: "c = d" if "(of_char c :: 16 word) = of_char d" for c d
  proof -
    have u: "unat (of_char e :: 16 word) = (of_char e :: nat)" for e
    proof -
      have w: "of_char e = (word_of_nat (of_char e) :: 16 word)"
        by (metis of_nat_of_char)
      have "(of_char e :: nat) < 256"
        by (metis of_char_mod_256 mod_less_divisor zero_less_numeral)
      then have "(of_char e :: nat) < 2 ^ LENGTH(16)" by (rule less_le_trans) simp
      then have "unat (word_of_nat (of_char e) :: 16 word) = of_char e"
        by (simp only: unat_of_nat mod_less)
      with w show ?thesis by metis
    qed
    from that have "(of_char c :: nat) = of_char d" by (metis u)
    then show ?thesis by simp
  qed
  show "js_units a = js_units b \<Longrightarrow> a = b"
    unfolding js_units_def by (rule map_injective) (auto intro: injI i)
qed

interpretation cp: strict_comparator compareByCodepoint
proof unfold_locales
  fix x y z :: string
  show "compareByCodepoint x y \<le> 0 \<or> compareByCodepoint y x \<le> 0"
    unfolding compareByCodepoint_def by (rule cpu.cmp_total)
  show "compareByCodepoint x y \<le> 0 \<Longrightarrow> compareByCodepoint y z \<le> 0 \<Longrightarrow> compareByCodepoint x z \<le> 0"
    unfolding compareByCodepoint_def by (rule cpu.cmp_trans)
  show "compareByCodepoint x y \<le> 0 \<Longrightarrow> compareByCodepoint y x \<le> 0 \<Longrightarrow> x = y"
    unfolding compareByCodepoint_def by (rule js_units_inj, rule cpu.cmp_antisym)
qed

section \<open>Code unit order\<close>

text \<open>
  The relational operators and \<open>sort()\<close> without a comparator order strings by code unit.
\<close>

definition codeUnitCompareUnits :: "units \<Rightarrow> units \<Rightarrow> int" where
  "codeUnitCompareUnits a b = lex_cmp (map unat a) (map unat b)"

definition codeUnitCompare :: "string \<Rightarrow> string \<Rightarrow> int" where
  "codeUnitCompare a b = codeUnitCompareUnits (js_units a) (js_units b)"

lemma decode_no_high: "(\<forall>u \<in> set a. \<not> is_high u) \<Longrightarrow> decode a = map unat a"
  by (induction a rule: decode.induct) auto

lemma unit_of_char_not_high: "\<not> is_high (of_char c)"
proof -
  have w: "of_char c = (word_of_nat (of_char c) :: 16 word)"
    by (metis of_nat_of_char)
  have "(of_char c :: nat) < 256"
    by (metis of_char_mod_256 mod_less_divisor zero_less_numeral)
  moreover have "unat (word_of_nat (of_char c) :: 16 word) \<le> of_char c"
    by (simp only: unat_of_nat mod_less_eq_dividend)
  ultimately have "unat (of_char c :: 16 word) < 256"
    using w by (metis le_less_trans)
  then show ?thesis by (simp add: is_high_def)
qed

lemma codeUnitCompare_eq: "codeUnitCompare a b = compareByCodepoint a b"
  by (simp add: codeUnitCompare_def codeUnitCompareUnits_def compareByCodepoint_def
      compare_units_lex decode_no_high js_units_def unit_of_char_not_high)

interpretation cu: strict_comparator codeUnitCompare
  unfolding codeUnitCompare_eq[abs_def] by (rule cp.strict_comparator_axioms)

text \<open>
  Evaluation: on character strings both orders are the lexicographic order of the characters.
\<close>

fun char_cmp :: "string \<Rightarrow> string \<Rightarrow> int" where
  "char_cmp [] [] = 0"
| "char_cmp [] (d # ds) = -1"
| "char_cmp (c # cs) [] = 1"
| "char_cmp (c # cs) (d # ds) =
     (if c = d then char_cmp cs ds else if (of_char c :: int) < of_char d then -1 else 1)"

lemma unat_of_char: "unat (of_char c :: 16 word) = (of_char c :: nat)"
proof -
  have w: "of_char c = (word_of_nat (of_char c) :: 16 word)"
    by (metis of_nat_of_char)
  have "(of_char c :: nat) < 256"
    by (metis of_char_mod_256 mod_less_divisor zero_less_numeral)
  then have "(of_char c :: nat) < 2 ^ LENGTH(16)" by (rule less_le_trans) simp
  then have "unat (word_of_nat (of_char c) :: 16 word) = of_char c"
    by (simp only: unat_of_nat mod_less)
  with w show ?thesis by metis
qed

lemma of_char_int_less: "(of_char c :: int) < of_char d \<longleftrightarrow> (of_char c :: nat) < of_char d"
proof -
  have "(of_char e :: int) = int (of_char e)" for e by (rule of_nat_of_char[symmetric])
  then show ?thesis by simp
qed

lemma char_cmp_eq: "char_cmp a b = lex_cmp (map of_char a) (map of_char b)"
  by (induction a b rule: char_cmp.induct) (auto simp: of_char_int_less)

lemma codeUnitCompare_code [code]: "codeUnitCompare a b = char_cmp a b"
  by (simp add: codeUnitCompare_def codeUnitCompareUnits_def js_units_def comp_def unat_of_char char_cmp_eq)

lemma compareByCodepoint_code [code]: "compareByCodepoint a b = char_cmp a b"
  unfolding codeUnitCompare_eq[symmetric] by (rule codeUnitCompare_code)

end
