(* ===== verification/ItemMerge.thy ===== *)
theory ItemMerge
  imports Codepoint
begin

text \<open>
  \<open>kernel/item-merge.ts\<close>: the walk over the union of two changed sides' keys that every
  three-way baseline merge shares. The policy that decides a key is a record of functions, as in
  the source; the locale \<open>merge_policy\<close> states what a policy must promise for the walk to keep
  the floor, and its lemmas follow for every policy that is an instance.
\<close>

record 'i outcome =
  oc_item :: "'i option"
  oc_failure :: "string option"
  oc_truthUp :: bool

definition keep :: "'i \<Rightarrow> 'i outcome" where
  "keep i = \<lparr>oc_item = Some i, oc_failure = None, oc_truthUp = False\<rparr>"

definition drop_key :: "bool \<Rightarrow> 'i outcome" where
  "drop_key t = \<lparr>oc_item = None, oc_failure = None, oc_truthUp = t\<rparr>"

definition merge_fail :: "string \<Rightarrow> 'i outcome" where
  "merge_fail m = \<lparr>oc_item = None, oc_failure = Some m, oc_truthUp = False\<rparr>"

record 'i policy =
  po_count :: "'i \<Rightarrow> int"
  po_mergeShared :: "string \<Rightarrow> 'i \<Rightarrow> 'i \<Rightarrow> 'i outcome"
  po_mergeOneSided :: "string \<Rightarrow> 'i \<Rightarrow> 'i option \<Rightarrow> 'i outcome"

record 'i merge_input =
  mi_base :: "(string \<times> 'i) list"
  mi_current :: "(string \<times> 'i) list"
  mi_other :: "(string \<times> 'i) list"
  mi_compareKeys :: "string cmp"

record 'i merge_result =
  mr_merged :: "(string \<times> 'i) list"
  mr_failures :: "string list"
  mr_truthUpRequired :: bool

definition resolveKey :: "'i policy \<Rightarrow> 'i merge_input \<Rightarrow> string \<Rightarrow> 'i outcome" where
  "resolveKey p inp key =
     (case (map_of (mi_current inp) key, map_of (mi_other inp) key) of
        (Some c, Some ot) \<Rightarrow> po_mergeShared p key c ot
      | (Some c, None) \<Rightarrow> po_mergeOneSided p key c (map_of (mi_base inp) key)
      | (None, Some ot) \<Rightarrow> po_mergeOneSided p key ot (map_of (mi_base inp) key)
      | (None, None) \<Rightarrow> drop_key False)"

definition unionKeys :: "'i merge_input \<Rightarrow> string list" where
  "unionKeys inp = js_sort (mi_compareKeys inp)
     (js_set (map fst (mi_current inp) @ map fst (mi_other inp)))"

definition merge_step :: "'i policy \<Rightarrow> 'i merge_input \<Rightarrow> string \<Rightarrow> 'i merge_result \<Rightarrow> 'i merge_result" where
  "merge_step p inp key r =
     (let oc = resolveKey p inp key
      in case oc_failure oc of
           Some f \<Rightarrow> r\<lparr>mr_failures := mr_failures r @ [f]\<rparr>
         | None \<Rightarrow>
             (let r1 = (if oc_truthUp oc then r\<lparr>mr_truthUpRequired := True\<rparr> else r)
              in case oc_item oc of
                   Some i \<Rightarrow> if po_count p i > 0 then r1\<lparr>mr_merged := mr_merged r1 @ [(key, i)]\<rparr> else r1
                 | None \<Rightarrow> r1))"

definition mergeItemMaps :: "'i policy \<Rightarrow> 'i merge_input \<Rightarrow> 'i merge_result" where
  "mergeItemMaps p inp = fold (merge_step p inp) (unionKeys inp)
     \<lparr>mr_merged = [], mr_failures = [], mr_truthUpRequired = False\<rparr>"

section \<open>What the walk computes\<close>

definition kept :: "'i policy \<Rightarrow> 'i merge_input \<Rightarrow> string \<Rightarrow> 'i option" where
  "kept p inp key = (let oc = resolveKey p inp key in
     if oc_failure oc \<noteq> None then None
     else case oc_item oc of Some i \<Rightarrow> if po_count p i > 0 then Some i else None | None \<Rightarrow> None)"

definition flagged :: "'i policy \<Rightarrow> 'i merge_input \<Rightarrow> string \<Rightarrow> bool" where
  "flagged p inp key = (let oc = resolveKey p inp key in oc_failure oc = None \<and> oc_truthUp oc)"

definition option_list :: "'a option \<Rightarrow> 'a list" where
  "option_list a = (case a of None \<Rightarrow> [] | Some x \<Rightarrow> [x])"

lemma fold_merge_step:
  "fold (merge_step p inp) ks r =
     \<lparr>mr_merged = mr_merged r @ concat (map (\<lambda>k. map (\<lambda>i. (k, i)) (option_list (kept p inp k))) ks),
      mr_failures = mr_failures r @ concat (map (\<lambda>k. option_list (oc_failure (resolveKey p inp k))) ks),
      mr_truthUpRequired = (mr_truthUpRequired r \<or> list_ex (flagged p inp) ks)\<rparr>"
proof (induction ks arbitrary: r)
  case Nil
  then show ?case by simp
next
  case (Cons k ks)
  have "merge_step p inp k r =
     \<lparr>mr_merged = mr_merged r @ map (\<lambda>i. (k, i)) (option_list (kept p inp k)),
      mr_failures = mr_failures r @ option_list (oc_failure (resolveKey p inp k)),
      mr_truthUpRequired = (mr_truthUpRequired r \<or> flagged p inp k)\<rparr>"
    by (auto simp: merge_step_def kept_def flagged_def option_list_def Let_def split: option.splits)
  then show ?case by (simp add: Cons.IH)
qed

lemma mergeItemMaps_eq:
  "mergeItemMaps p inp =
     \<lparr>mr_merged = concat (map (\<lambda>k. map (\<lambda>i. (k, i)) (option_list (kept p inp k))) (unionKeys inp)),
      mr_failures = concat (map (\<lambda>k. option_list (oc_failure (resolveKey p inp k))) (unionKeys inp)),
      mr_truthUpRequired = list_ex (flagged p inp) (unionKeys inp)\<rparr>"
  by (simp add: mergeItemMaps_def fold_merge_step)

lemma set_unionKeys [simp]: "set (unionKeys inp) = fst ` set (mi_current inp) \<union> fst ` set (mi_other inp)"
  by (simp add: unionKeys_def)

lemma distinct_unionKeys [simp]: "distinct (unionKeys inp)"
  by (simp add: unionKeys_def)

lemma keyed_concat_keys:
  "map fst (concat (map (\<lambda>k. map (\<lambda>i. (k, i)) (option_list (f k))) ks)) = filter (\<lambda>k. f k \<noteq> None) ks"
  by (induction ks) (auto simp: option_list_def split: option.splits)

lemma map_of_keyed_concat:
  "map_of (concat (map (\<lambda>k. map (\<lambda>i. (k, i)) (option_list (f k))) ks)) k =
     (if k \<in> set ks then f k else None)"
proof (induction ks)
  case Nil
  then show ?case by simp
next
  case (Cons a ks)
  then show ?case by (cases "f a") (auto simp: option_list_def)
qed

lemma distinct_merged [simp]: "distinct (map fst (mr_merged (mergeItemMaps p inp)))"
  by (simp add: mergeItemMaps_eq keyed_concat_keys)

lemma kept_outside: "key \<notin> set (unionKeys inp) \<Longrightarrow> kept p inp key = None"
  by (auto simp: kept_def resolveKey_def drop_key_def map_of_eq_None_iff split: option.splits
      dest!: map_of_SomeD intro: rev_image_eqI)

lemma lookup_merged: "map_of (mr_merged (mergeItemMaps p inp)) key = kept p inp key"
  by (auto simp: mergeItemMaps_eq map_of_keyed_concat kept_outside[simplified])

lemma merged_failures_Nil:
  "mr_failures (mergeItemMaps p inp) = [] \<longleftrightarrow> (\<forall>k \<in> set (unionKeys inp). oc_failure (resolveKey p inp k) = None)"
  by (auto simp: mergeItemMaps_eq option_list_def split: option.splits)

text \<open>
  Exchanging the sides: what a policy must satisfy, and what the merge then keeps. Keys come
  out in the same order when the key comparator is strict.
\<close>

definition swap_sides :: "'i merge_input \<Rightarrow> 'i merge_input" where
  "swap_sides inp = inp\<lparr>mi_current := mi_other inp, mi_other := mi_current inp\<rparr>"

locale merge_policy =
  fixes p :: "'i policy" and below :: "'i \<Rightarrow> 'i \<Rightarrow> bool" and valid :: "'i \<Rightarrow> bool"
  assumes below_count: "below i j \<Longrightarrow> po_count p i \<le> po_count p j"
    and shared_below: "valid c \<Longrightarrow> valid ot \<Longrightarrow> oc_failure (po_mergeShared p k c ot) = None \<Longrightarrow>
        oc_item (po_mergeShared p k c ot) = Some i \<Longrightarrow> below i c \<and> below i ot"
    and shared_keeps: "oc_failure (po_mergeShared p k c ot) = None \<Longrightarrow> oc_item (po_mergeShared p k c ot) \<noteq> None"
    and one_sided: "oc_item (po_mergeOneSided p k c b) = Some i \<Longrightarrow> i = c \<and> b = None"
    and one_sided_ok: "oc_failure (po_mergeOneSided p k c b) = None"
begin

text \<open>The floor: a merged item is below every side that has the key.\<close>

lemma merged_floor:
  assumes m: "map_of (mr_merged (mergeItemMaps p inp)) key = Some i"
    and v: "\<And>j. map_of (mi_current inp) key = Some j \<Longrightarrow> valid j"
           "\<And>j. map_of (mi_other inp) key = Some j \<Longrightarrow> valid j"
    and refl: "below i i"
  shows "(\<forall>c. map_of (mi_current inp) key = Some c \<longrightarrow> below i c) \<and>
         (\<forall>ot. map_of (mi_other inp) key = Some ot \<longrightarrow> below i ot) \<and> po_count p i > 0"
  using m v refl
  by (auto simp: lookup_merged kept_def Let_def resolveKey_def drop_key_def
      split: option.splits if_splits dest: shared_below one_sided)

text \<open>A merged key is on both sides, or is new on one side; nothing comes back from the base.\<close>

lemma merged_key_source:
  assumes "map_of (mr_merged (mergeItemMaps p inp)) key = Some i"
  shows "(map_of (mi_current inp) key \<noteq> None \<and> map_of (mi_other inp) key \<noteq> None) \<or>
    (map_of (mi_base inp) key = None \<and>
      (map_of (mi_current inp) key = Some i \<or> map_of (mi_other inp) key = Some i))"
  using assms
  by (auto simp: lookup_merged kept_def Let_def resolveKey_def drop_key_def
      split: option.splits if_splits dest: one_sided)

text \<open>A path that one side drained and the other side changed stays drained.\<close>

lemma drained_stays_drained:
  assumes "map_of (mi_base inp) key \<noteq> None"
    and "map_of (mi_current inp) key = None \<or> map_of (mi_other inp) key = None"
  shows "map_of (mr_merged (mergeItemMaps p inp)) key = None"
  using merged_key_source[of inp key] assms by (cases "map_of (mr_merged (mergeItemMaps p inp)) key") auto

end

locale symmetric_policy =
  fixes p :: "'i policy"
  assumes shared_sym: "po_mergeShared p k c ot = po_mergeShared p k ot c"
begin

lemma resolveKey_swap: "resolveKey p (swap_sides inp) key = resolveKey p inp key"
  by (auto simp: resolveKey_def swap_sides_def shared_sym split: option.splits)

lemma unionKeys_swap:
  "strict_comparator (mi_compareKeys inp) \<Longrightarrow> unionKeys (swap_sides inp) = unionKeys inp"
  unfolding unionKeys_def swap_sides_def
  by (simp, intro strict_comparator.js_sort_cong) (auto simp: set_eq_iff_mset_eq_distinct[symmetric])

lemma merge_swap:
  "strict_comparator (mi_compareKeys inp) \<Longrightarrow> mergeItemMaps p (swap_sides inp) = mergeItemMaps p inp"
  by (simp add: mergeItemMaps_eq unionKeys_swap resolveKey_swap kept_def flagged_def[abs_def])

end

end
