(* ===== verification/Json.thy ===== *)
theory Json
  imports Codepoint
begin

text \<open>
  JSON values, \<open>JSON.stringify\<close> and the canonical forms of \<open>kernel/baseline-merge-values.ts\<close>
  and \<open>kernel/baseline-hash.ts\<close>.

  The program compares documents by comparing their \<open>JSON.stringify\<close> texts. \<open>js_print\<close> is the
  standard's serialisation with its \<open>gap\<close> argument (empty, or two spaces for files);
  \<open>js_print_inject\<close> shows that equal texts mean equal values, so those comparisons are exact.

  A number is an integer (\<open>JInt\<close>), another finite number kept as its decimal text
  (\<open>JDec\<close>, the program never computes with one), or not finite (\<open>JInf\<close>). Object keys are in
  insertion order; keys that look like array indices, which JavaScript enumerates first, are not
  treated separately.
\<close>

datatype jsval =
    JNull | JBool bool | JInt int | JDec string | JInf | JStr string
  | JArr "jsval list" | JObj "(string \<times> jsval) list"

section \<open>JSON.stringify\<close>

fun show_nat :: "nat \<Rightarrow> string" where
  "show_nat n = (if n < 10 then [char_of (48 + n)] else show_nat (n div 10) @ [char_of (48 + n mod 10)])"

declare show_nat.simps [simp del]

definition show_int :: "int \<Rightarrow> string" where
  "show_int i = (if i < 0 then CHR ''-'' # show_nat (nat (- i)) else show_nat (nat i))"

definition hex_digit :: "nat \<Rightarrow> char" where
  "hex_digit n = (if n < 10 then char_of (48 + n) else char_of (87 + n))"

definition short_escape :: "char \<Rightarrow> char option" where
  "short_escape c = map_of
     [(CHR 0x08, CHR ''b''), (CHR 0x09, CHR ''t''), (CHR 0x0A, CHR ''n''), (CHR 0x0C, CHR ''f''),
      (CHR 0x0D, CHR ''r''), (CHR 0x22, CHR 0x22), (CHR 0x5C, CHR 0x5C)] c"

definition esc_char :: "char \<Rightarrow> string" where
  "esc_char c = (case short_escape c of
       Some e \<Rightarrow> [CHR 0x5C, e]
     | None \<Rightarrow>
         (let n = of_char c :: nat
          in if n < 32 then [CHR 0x5C, CHR ''u'', CHR ''0'', CHR ''0'', hex_digit (n div 16), hex_digit (n mod 16)]
             else [c]))"

definition quote_body :: "string \<Rightarrow> string" where
  "quote_body s = concat (map esc_char s)"

definition js_quote :: "string \<Rightarrow> string" where
  "js_quote s = CHR 0x22 # quote_body s @ [CHR 0x22]"

definition seq_sep :: "string \<Rightarrow> string \<Rightarrow> string" where
  "seq_sep gap ind = (if gap = [] then '','' else '','' @ [CHR 0x0A] @ ind @ gap)"

definition seq_open :: "string \<Rightarrow> string \<Rightarrow> string" where
  "seq_open gap ind = (if gap = [] then [] else CHR 0x0A # ind @ gap)"

definition seq_close :: "string \<Rightarrow> string \<Rightarrow> string" where
  "seq_close gap ind = (if gap = [] then [] else CHR 0x0A # ind)"

definition key_colon :: "string \<Rightarrow> string" where
  "key_colon gap = (if gap = [] then '':'' else '': '')"

fun js_print :: "string \<Rightarrow> string \<Rightarrow> jsval \<Rightarrow> string" where
  "js_print gap ind JNull = ''null''"
| "js_print gap ind (JBool b) = (if b then ''true'' else ''false'')"
| "js_print gap ind (JInt i) = show_int i"
| "js_print gap ind (JDec d) = d"
| "js_print gap ind JInf = ''null''"
| "js_print gap ind (JStr s) = js_quote s"
| "js_print gap ind (JArr vs) =
     (if vs = [] then ''[]''
      else ''['' @ seq_open gap ind
             @ js_join (seq_sep gap ind) (map (js_print gap (ind @ gap)) vs)
             @ seq_close gap ind @ '']'')"
| "js_print gap ind (JObj kvs) =
     (if kvs = [] then ''{}''
      else ''{'' @ seq_open gap ind
             @ js_join (seq_sep gap ind)
                 (map (\<lambda>(k, v). js_quote k @ key_colon gap @ js_print gap (ind @ gap) v) kvs)
             @ seq_close gap ind @ ''}'')"

definition stringify :: "jsval \<Rightarrow> string" where
  "stringify v = js_print [] [] v"

definition stringify2 :: "jsval \<Rightarrow> string" where
  "stringify2 v = js_print ''  '' [] v"

section \<open>Canonical forms\<close>

fun canonicalValue :: "jsval \<Rightarrow> jsval" where
  "canonicalValue (JArr vs) = JArr (map canonicalValue vs)"
| "canonicalValue (JObj kvs) =
     JObj (key_sort codeUnitCompare (map (\<lambda>(k, v). (k, canonicalValue v)) kvs))"
| "canonicalValue v = v"

definition sameCanonicalValue :: "jsval \<Rightarrow> jsval \<Rightarrow> bool" where
  "sameCanonicalValue l r \<longleftrightarrow> stringify (canonicalValue l) = stringify (canonicalValue r)"

fun isJsonValue :: "jsval \<Rightarrow> bool" where
  "isJsonValue JInf = False"
| "isJsonValue (JArr vs) = list_all isJsonValue vs"
| "isJsonValue (JObj kvs) = list_all (\<lambda>(k, v). isJsonValue v) kvs"
| "isJsonValue v = True"

fun normalizeJsonValue :: "jsval \<Rightarrow> jsval" where
  "normalizeJsonValue (JArr vs) = JArr (map normalizeJsonValue vs)"
| "normalizeJsonValue (JObj kvs) =
     JObj (key_sort codeUnitCompare (map (\<lambda>(k, v). (k, normalizeJsonValue v)) kvs))"
| "normalizeJsonValue v = v"

definition normalizeStringList :: "string list \<Rightarrow> string list" where
  "normalizeStringList values = js_sort compareByCodepoint values"

definition normalizeRuleOptions :: "jsval list \<Rightarrow> jsval list" where
  "normalizeRuleOptions values = map normalizeJsonValue values"

definition stableJson :: "jsval \<Rightarrow> string" where
  "stableJson v = stringify (normalizeJsonValue v)"

section \<open>Equal texts mean equal values\<close>

definition is_num_char :: "char \<Rightarrow> bool" where
  "is_num_char c \<longleftrightarrow> is_digit c \<or> c \<in> set ''-+.eE''"

definition dec_text :: "string \<Rightarrow> bool" where
  "dec_text d \<longleftrightarrow> d \<noteq> [] \<and> (is_digit (hd d) \<or> hd d = CHR ''-'') \<and> list_all is_num_char d
     \<and> list_ex (\<lambda>c. c \<in> set ''.eE'') d"

text \<open>The values that a JSON text can hold.\<close>

fun printable :: "jsval \<Rightarrow> bool" where
  "printable JInf = False"
| "printable (JDec d) = dec_text d"
| "printable (JArr vs) = list_all printable vs"
| "printable (JObj kvs) = list_all (\<lambda>(k, v). printable v) kvs"
| "printable v = True"

definition delim :: "string \<Rightarrow> bool" where
  "delim r \<longleftrightarrow> r = [] \<or> hd r \<in> {CHR '','', CHR '']'', CHR ''}'', CHR 0x0A}"

lemma of_char_digit: "n < (10::nat) \<Longrightarrow> of_char (char_of (48 + n) :: char) = (48 + n)"
  by (simp only: of_char_of) simp

lemma is_digit_show: "n < (10::nat) \<Longrightarrow> is_digit (char_of (48 + n))"
  by (simp add: is_digit_def of_char_digit)

lemma show_nat_digits: "list_all is_digit (show_nat n)"
proof (induction n rule: show_nat.induct)
  case (1 n)
  then show ?case
    by (cases "n < 10") (simp_all add: show_nat.simps[of n] is_digit_show)
qed

lemma show_nat_not_Nil [simp]: "show_nat n \<noteq> []"
  by (subst show_nat.simps) simp

definition read_nat :: "string \<Rightarrow> nat" where
  "read_nat s = foldl (\<lambda>a c. 10 * a + (of_char c - 48)) 0 s"

lemma read_show_nat: "read_nat (show_nat n) = n"
proof (induction n rule: show_nat.induct)
  case (1 n)
  then show ?case
    by (cases "n < 10") (simp_all add: show_nat.simps[of n] read_nat_def of_char_digit)
qed

lemma show_nat_inj [simp]: "show_nat m = show_nat n \<longleftrightarrow> m = n"
  by (metis read_show_nat)

lemma hd_show_nat: "hd (show_nat n) \<noteq> CHR ''-''"
proof -
  have "is_digit (hd (show_nat n))"
    using show_nat_digits[of n] show_nat_not_Nil[of n] by (cases "show_nat n") auto
  then show ?thesis by (auto simp: is_digit_def)
qed

lemma show_int_inj [simp]: "show_int i = show_int j \<longleftrightarrow> i = j"
proof -
  have "CHR ''-'' # xs \<noteq> show_nat n" for xs n
    using hd_show_nat[of n] by (metis list.sel(1))
  then show ?thesis
    by (auto simp: show_int_def dest: sym)
qed

lemma num_char_digit: "is_digit c \<Longrightarrow> is_num_char c"
  by (simp add: is_num_char_def)

lemma show_int_num: "list_all is_num_char (show_int i)"
  using show_nat_digits by (auto simp: show_int_def list_all_iff is_num_char_def)

lemma digit_not_dec: "is_digit c \<Longrightarrow> c \<notin> set ''-.eE''"
  by (auto simp: is_digit_def)

lemma show_int_no_dec: "\<not> list_ex (\<lambda>c. c \<in> set ''.eE'') (show_int i)"
proof -
  have d: "c \<notin> set ''-.eE''" if "c \<in> set (show_nat n)" for c n
    using that show_nat_digits[of n] digit_not_dec[of c] by (auto simp: list_all_iff)
  have "c \<notin> set ''.eE''" if "c \<in> set (show_int i)" for c
    using that d[of c] by (cases "c = CHR ''-''") (auto simp: show_int_def split: if_splits)
  then show ?thesis by (auto simp: list_ex_iff)
qed

text \<open>The first character of a text tells the kind of value.\<close>

definition num_start :: "char \<Rightarrow> bool" where
  "num_start c \<longleftrightarrow> is_digit c \<or> c = CHR ''-''"

lemma show_int_start: "\<exists>c cs. show_int i = c # cs \<and> num_start c"
proof -
  have "\<exists>c cs. show_nat n = c # cs \<and> is_digit c" for n
    using show_nat_digits[of n] show_nat_not_Nil[of n] by (cases "show_nat n") auto
  then show ?thesis by (fastforce simp: show_int_def num_start_def)
qed

lemma dec_text_start: "dec_text d \<Longrightarrow> \<exists>c cs. d = c # cs \<and> num_start c"
  by (cases d) (auto simp: dec_text_def num_start_def)

lemma num_start_not: "num_start c \<Longrightarrow> c \<notin> {CHR ''n'', CHR ''t'', CHR ''f'', CHR 0x22, CHR ''['', CHR ''{'', CHR '']'', CHR ''}''}"
  by (auto simp: num_start_def is_digit_def)

lemma delim_not_num: "delim r \<Longrightarrow> takeWhile is_num_char r = []"
  by (cases r) (auto simp: delim_def is_num_char_def is_digit_def)

lemma number_prefix:
  assumes "list_all is_num_char a" "list_all is_num_char b" "delim r" "delim s" "a @ r = b @ s"
  shows "a = b \<and> r = s"
proof -
  have "takeWhile is_num_char (a @ r) = a" "takeWhile is_num_char (b @ s) = b"
    using assms(1-4) by (auto simp: takeWhile_append2 list_all_iff delim_not_num)
  with assms(5) show ?thesis by (metis append_eq_append_conv)
qed

section \<open>Strings\<close>

lemma hex_digit_inj: "m < 16 \<Longrightarrow> n < 16 \<Longrightarrow> hex_digit m = hex_digit n \<Longrightarrow> m = n"
proof -
  assume mn: "m < 16" "n < 16" and eq: "hex_digit m = hex_digit n"
  have h: "of_char (hex_digit k) = (if k < 10 then 48 + k else 87 + k)" if "k < 16" for k
    using that by (simp add: hex_digit_def of_char_of)
  from arg_cong[OF eq, of "of_char :: char \<Rightarrow> nat"] mn show "m = n"
    by (simp only: h) (auto split: if_splits)
qed

lemma short_escape_not_u: "short_escape c = Some e \<Longrightarrow> e \<noteq> CHR ''u'' \<and> short_escape d = Some e \<Longrightarrow> c = d"
  by (auto simp: short_escape_def split: if_splits)

lemma short_escape_u: "short_escape c \<noteq> Some CHR ''u''"
  by (auto simp: short_escape_def split: if_splits)

lemma esc_char_cases:
  obtains (short) e where "short_escape c = Some e" "esc_char c = [CHR 0x5C, e]"
  | (ctrl) "short_escape c = None" "of_char c < (32::nat)"
      "esc_char c = [CHR 0x5C, CHR ''u'', CHR ''0'', CHR ''0'', hex_digit (of_char c div 16), hex_digit (of_char c mod 16)]"
  | (plain) "short_escape c = None" "esc_char c = [c]" "c \<noteq> CHR 0x5C" "c \<noteq> CHR 0x22"
  by (cases "short_escape c"; cases "of_char c < (32::nat)")
     (auto simp: esc_char_def short_escape_def Let_def split: if_splits)

lemma esc_char_inj:
  assumes "esc_char c @ x = esc_char d @ y"
  shows "c = d \<and> x = y"
proof (cases c rule: esc_char_cases)
  case short
  with assms show ?thesis
    by (cases d rule: esc_char_cases) (auto dest: short_escape_not_u simp: short_escape_u)
next
  case ctrl
  show ?thesis
  proof (cases d rule: esc_char_cases)
    case ctrl': ctrl
    from assms ctrl ctrl' have "hex_digit (of_char c div 16) = hex_digit (of_char d div 16)"
      "hex_digit (of_char c mod 16) = hex_digit (of_char d mod 16)" "x = y" by auto
    with ctrl ctrl' have "(of_char c :: nat) div 16 = of_char d div 16"
      "(of_char c :: nat) mod 16 = of_char d mod 16" by (auto intro!: hex_digit_inj)
    then have "(of_char c :: nat) = of_char d" by (metis div_mult_mod_eq)
    with \<open>x = y\<close> show ?thesis by simp
  qed (use assms ctrl in \<open>auto simp: short_escape_u\<close>)
next
  case plain
  with assms show ?thesis by (cases d rule: esc_char_cases) auto
qed

lemma esc_char_not_quote: "esc_char c @ x \<noteq> CHR 0x22 # y"
  by (cases c rule: esc_char_cases) auto

lemma quote_body_prefix:
  "quote_body s @ CHR 0x22 # x = quote_body t @ CHR 0x22 # y \<Longrightarrow> s = t \<and> x = y"
proof (induction s arbitrary: t)
  case Nil
  then show ?case
    by (cases t) (auto simp: quote_body_def esc_char_not_quote[symmetric])
next
  case (Cons c cs)
  show ?case
  proof (cases t)
    case Nil
    with Cons.prems show ?thesis by (auto simp: quote_body_def esc_char_not_quote)
  next
    case (Cons d ds)
    with Cons.prems have "esc_char c @ (quote_body cs @ CHR 0x22 # x) = esc_char d @ (quote_body ds @ CHR 0x22 # y)"
      by (simp add: quote_body_def)
    from esc_char_inj[OF this] Cons.IH[of ds] Cons show ?thesis by auto
  qed
qed

lemma js_quote_prefix: "js_quote s @ x = js_quote t @ y \<Longrightarrow> s = t \<and> x = y"
  by (auto simp: js_quote_def dest: quote_body_prefix)

section \<open>Sequences and values\<close>

lemma join_prefix:
  assumes elem: "\<And>v w x y. v \<in> set vs \<Longrightarrow> w \<in> set ws \<Longrightarrow> delim x \<Longrightarrow> delim y \<Longrightarrow>
      p v @ x = p w @ y \<Longrightarrow> v = w \<and> x = y"
    and ne: "vs \<noteq> []" "ws \<noteq> []"
    and sep: "\<exists>t. sep = CHR '','' # t"
    and cl: "\<exists>c t. cl = c # t \<and> c \<in> {CHR '']'', CHR ''}'', CHR 0x0A}"
    and eq: "js_join sep (map p vs) @ cl @ r = js_join sep (map p ws) @ cl @ s"
  shows "vs = ws \<and> r = s"
  using elem ne eq
proof (induction vs arbitrary: ws)
  case Nil
  then show ?case by simp
next
  case (Cons v vs)
  obtain w ws' where ws: "ws = w # ws'" using Cons.prems(3) by (cases ws) auto
  obtain st where st: "sep = CHR '','' # st" using sep by blast
  obtain cc ct where ct: "cl = cc # ct" "cc \<in> {CHR '']'', CHR ''}'', CHR 0x0A}" using cl by blast
  let ?rest = "\<lambda>us q. (if us = [] then cl @ q else sep @ js_join sep (map p us) @ cl @ q)"
  have j: "js_join sep (map p (u # us)) @ cl @ q = p u @ ?rest us q" for u us q
    by (cases us) auto
  have d: "delim (?rest us q)" for us q
    using st ct by (auto simp: delim_def)
  from Cons.prems(4) have "p v @ ?rest vs r = p w @ ?rest ws' s"
    unfolding ws j .
  with Cons.prems(1)[of v w "?rest vs r" "?rest ws' s"] d ws
  have vw: "v = w" and rest: "?rest vs r = ?rest ws' s" by auto
  show ?case
  proof (cases "vs = [] \<or> ws' = []")
    case True
    with rest st ct ws vw show ?thesis by (auto split: if_splits)
  next
    case False
    with rest have "js_join sep (map p vs) @ cl @ r = js_join sep (map p ws') @ cl @ s" by simp
    with Cons.IH[of ws'] Cons.prems(1) False ws vw show ?thesis by auto
  qed
qed

definition text_class :: "char \<Rightarrow> nat" where
  "text_class c = (if c = CHR ''n'' then 0 else if c = CHR ''t'' then 1 else if c = CHR ''f'' then 2
     else if c = CHR 0x22 then 3 else if c = CHR ''['' then 4 else if c = CHR ''{'' then 5
     else if c = CHR '']'' \<or> c = CHR ''}'' then 7 else 6)"

fun val_class :: "jsval \<Rightarrow> nat" where
  "val_class JNull = 0" | "val_class JInf = 0"
| "val_class (JBool b) = (if b then 1 else 2)"
| "val_class (JStr s) = 3" | "val_class (JArr vs) = 4" | "val_class (JObj kvs) = 5"
| "val_class (JInt i) = 6" | "val_class (JDec d) = 6"

lemma val_class_le: "val_class v \<le> 6"
  by (cases v) auto

lemma print_class:
  "printable v \<Longrightarrow> \<exists>c cs. js_print gap ind v = c # cs \<and> text_class c = val_class v"
proof (cases v)
  case (JInt i)
  obtain c cs where "show_int i = c # cs" "num_start c" using show_int_start by blast
  with JInt num_start_not[of c] show ?thesis by (auto simp: text_class_def)
next
  case (JDec d)
  moreover assume "printable v"
  ultimately obtain c cs where "d = c # cs" "num_start c" using dec_text_start[of d] by auto
  with JDec num_start_not[of c] show ?thesis by (auto simp: text_class_def)
qed (auto simp: text_class_def js_quote_def)

lemma print_same_class:
  assumes "printable a" "printable b" "js_print gap ind a @ r = js_print gap ind b @ s"
  shows "val_class a = val_class b"
  using print_class[OF assms(1), of gap ind] print_class[OF assms(2), of gap ind] assms(3) by auto

lemma number_text: "printable v \<Longrightarrow> val_class v = 6 \<Longrightarrow> list_all is_num_char (js_print gap ind v)"
  by (cases v) (auto simp: show_int_num dec_text_def split: if_splits)

lemma number_text_inj:
  "printable a \<Longrightarrow> printable b \<Longrightarrow> val_class a = 6 \<Longrightarrow> val_class b = 6 \<Longrightarrow>
   js_print gap ind a = js_print gap ind b \<Longrightarrow> a = b"
  using show_int_no_dec by (cases a; cases b; auto simp: dec_text_def split: if_splits)

lemma print_number_prefix:
  assumes "printable a" "printable b" "val_class a = 6" "val_class b = 6" "delim r" "delim s"
    and "js_print gap ind a @ r = js_print gap ind b @ s"
  shows "a = b \<and> r = s"
  using number_prefix[OF number_text number_text assms(5-7)] assms number_text_inj by blast

lemma seq_sep_shape: "\<exists>t. seq_sep gap ind = CHR '','' # t"
  by (simp add: seq_sep_def)

lemma seq_close_shape: "c \<in> {CHR '']'', CHR ''}''} \<Longrightarrow>
    \<exists>d t. seq_close gap ind @ [c] = d # t \<and> d \<in> {CHR '']'', CHR ''}'', CHR 0x0A}"
  by (auto simp: seq_close_def)

lemma seq_open_not_close: "c \<in> {CHR '']'', CHR ''}''} \<Longrightarrow> printable v \<Longrightarrow>
    seq_open gap ind @ js_print gap i2 v @ x \<noteq> c # y"
proof -
  assume c: "c \<in> {CHR '']'', CHR ''}''}" and "printable v"
  then obtain d cs where d: "js_print gap i2 v = d # cs" "text_class d = val_class v"
    using print_class by blast
  have "text_class c = 7" using c by (auto simp: text_class_def)
  with d(2) val_class_le[of v] have "d \<noteq> c" by auto
  with c d(1) show ?thesis by (auto simp del: js_print.simps simp: seq_open_def)
qed

text \<open>The bracketed part of an array or an object after its opening bracket.\<close>

definition seq_body :: "string \<Rightarrow> string \<Rightarrow> char \<Rightarrow> ('a \<Rightarrow> string) \<Rightarrow> 'a list \<Rightarrow> string" where
  "seq_body gap ind c p us =
     (if us = [] then [c]
      else seq_open gap ind @ js_join (seq_sep gap ind) (map p us) @ seq_close gap ind @ [c])"

lemma seq_prefix:
  assumes elem: "\<And>v w x y. v \<in> set vs \<Longrightarrow> w \<in> set ws \<Longrightarrow> delim x \<Longrightarrow> delim y \<Longrightarrow>
      p v @ x = p w @ y \<Longrightarrow> v = w \<and> x = y"
    and c: "c \<in> {CHR '']'', CHR ''}''}"
    and start: "\<And>v x y. v \<in> set vs \<union> set ws \<Longrightarrow> seq_open gap ind @ p v @ x \<noteq> c # y"
    and eq: "seq_body gap ind c p vs @ r = seq_body gap ind c p ws @ s"
  shows "vs = ws \<and> r = s"
proof -
  have head: "seq_open gap ind @ js_join (seq_sep gap ind) (map p us) @ q \<noteq> c # y"
    if "us \<noteq> []" "set us \<subseteq> set vs \<union> set ws" for us q y
  proof -
    from that(1) obtain u us' where us: "us = u # us'" by (auto simp: neq_Nil_conv)
    have "\<exists>z. js_join (seq_sep gap ind) (map p us) = p u @ z" using us by (cases us') auto
    then obtain z where "js_join (seq_sep gap ind) (map p us) = p u @ z" by blast
    with start[of u "z @ q" y] that us show ?thesis by auto
  qed
  show ?thesis
  proof (cases "vs = [] \<or> ws = []")
    case True
    with eq head[of vs] head[of ws, symmetric] show ?thesis
      by (auto simp: seq_body_def split: if_splits)
  next
    case False
    with eq have "js_join (seq_sep gap ind) (map p vs) @ (seq_close gap ind @ [c]) @ r =
        js_join (seq_sep gap ind) (map p ws) @ (seq_close gap ind @ [c]) @ s"
      by (simp add: seq_body_def)
    with False show ?thesis
      by (intro join_prefix[of vs ws p "seq_sep gap ind" "seq_close gap ind @ [c]"] elem
          seq_sep_shape seq_close_shape[OF c]) auto
  qed
qed

lemma print_arr: "js_print gap ind (JArr vs) = CHR ''['' # seq_body gap ind (CHR '']'') (js_print gap (ind @ gap)) vs"
  by (simp add: seq_body_def)

definition print_member :: "string \<Rightarrow> string \<Rightarrow> string \<times> jsval \<Rightarrow> string" where
  "print_member gap ind = (\<lambda>(k, v). js_quote k @ key_colon gap @ js_print gap ind v)"

lemma print_obj: "js_print gap ind (JObj kvs) = CHR ''{'' # seq_body gap ind (CHR ''}'') (print_member gap (ind @ gap)) kvs"
  by (simp add: seq_body_def print_member_def)

lemma print_prefix:
  "printable a \<Longrightarrow> printable b \<Longrightarrow> delim r \<Longrightarrow> delim s \<Longrightarrow>
   js_print gap ind a @ r = js_print gap ind b @ s \<Longrightarrow> a = b \<and> r = s"
proof (induction gap ind a arbitrary: b r s rule: js_print.induct)
  case (1 gap ind)
  with print_same_class[OF "1.prems"(1,2,5)] show ?case by (cases b) (auto split: if_splits)
next
  case (2 gap ind t)
  with print_same_class[OF "2.prems"(1,2,5)] show ?case by (cases b) (auto split: if_splits)
next
  case (3 gap ind i)
  with print_same_class[OF "3.prems"(1,2,5)] show ?case by (intro print_number_prefix) auto
next
  case (4 gap ind d)
  with print_same_class[OF "4.prems"(1,2,5)] show ?case by (intro print_number_prefix) auto
next
  case (5 gap ind)
  then show ?case by simp
next
  case (6 gap ind t)
  with print_same_class[OF "6.prems"(1,2,5)] show ?case
    by (cases b) (auto split: if_splits dest: js_quote_prefix)
next
  case (7 gap ind vs)
  obtain ws where b: "b = JArr ws"
    using print_same_class[OF "7.prems"(1,2,5)] "7.prems"(2) by (cases b) (auto split: if_splits)
  have ok: "printable v" if "v \<in> set vs \<union> set ws" for v
    using that "7.prems"(1,2) b by (auto simp: list_all_iff)
  have "vs = ws \<and> r = s"
  proof (rule seq_prefix[of vs ws "js_print gap (ind @ gap)" "CHR '']''" gap ind])
    show "seq_body gap ind CHR '']'' (js_print gap (ind @ gap)) vs @ r =
        seq_body gap ind CHR '']'' (js_print gap (ind @ gap)) ws @ s"
      using "7.prems"(5) unfolding b print_arr by simp
    show "v = w \<and> x = y" if "v \<in> set vs" "w \<in> set ws" "delim x" "delim y"
        "js_print gap (ind @ gap) v @ x = js_print gap (ind @ gap) w @ y" for v w x y
    proof -
      have "vs \<noteq> []" using that(1) by auto
      from "7.IH"[OF this that(1) ok ok that(3,4,5)] that(1,2) show ?thesis by blast
    qed
  qed (use ok seq_open_not_close in auto)
  with b show ?case by simp
next
  case (8 gap ind kvs)
  obtain kws where b: "b = JObj kws"
    using print_same_class[OF "8.prems"(1,2,5)] "8.prems"(2) by (cases b) (auto split: if_splits)
  have ok: "printable (snd m)" if "m \<in> set kvs \<union> set kws" for m
    using that "8.prems"(1,2) b by (auto simp: list_all_iff)
  have "kvs = kws \<and> r = s"
  proof (rule seq_prefix[of kvs kws "print_member gap (ind @ gap)" "CHR ''}''" gap ind])
    show "seq_body gap ind CHR ''}'' (print_member gap (ind @ gap)) kvs @ r =
        seq_body gap ind CHR ''}'' (print_member gap (ind @ gap)) kws @ s"
      using "8.prems"(5) unfolding b print_obj by simp
    show "v = w \<and> x = y" if "v \<in> set kvs" "w \<in> set kws" "delim x" "delim y"
        "print_member gap (ind @ gap) v @ x = print_member gap (ind @ gap) w @ y" for v w x y
    proof -
      obtain k1 v1 k2 v2 where kv: "v = (k1, v1)" "w = (k2, v2)" by (cases v, cases w)
      from that(5) have "js_quote k1 @ key_colon gap @ js_print gap (ind @ gap) v1 @ x =
          js_quote k2 @ key_colon gap @ js_print gap (ind @ gap) v2 @ y"
        by (simp add: print_member_def kv)
      from js_quote_prefix[OF this] have "k1 = k2"
        and "js_print gap (ind @ gap) v1 @ x = js_print gap (ind @ gap) v2 @ y" by auto
      moreover have "kvs \<noteq> []" using that(1) by auto
      moreover have "printable v1" "printable v2" using ok[of v] ok[of w] that kv by auto
      ultimately show ?thesis using "8.IH"[of v k1 v1 v2 x y] that kv by blast
    qed
  qed (auto simp: print_member_def js_quote_def seq_open_def)
  with b show ?case by simp
qed

theorem js_print_inject:
  "printable a \<Longrightarrow> printable b \<Longrightarrow> js_print gap ind a = js_print gap ind b \<longleftrightarrow> a = b"
  using print_prefix[of a b "[]" "[]" gap ind] by (auto simp: delim_def)

lemma stringify_inject: "printable a \<Longrightarrow> printable b \<Longrightarrow> stringify a = stringify b \<longleftrightarrow> a = b"
  by (simp add: stringify_def js_print_inject del: js_print.simps)

lemma stringify2_inject: "printable a \<Longrightarrow> printable b \<Longrightarrow> stringify2 a = stringify2 b \<longleftrightarrow> a = b"
  by (simp add: stringify2_def js_print_inject del: js_print.simps)

declare js_print.simps [simp del]

section \<open>Canonical forms are canonical\<close>

lemma normalize_eq_canonical: "normalizeJsonValue v = canonicalValue v"
  by (induction v rule: canonicalValue.induct) (auto intro!: arg_cong[where f = "js_sort _"])

lemma printable_canonical: "printable (canonicalValue v) = printable v"
  by (induction v rule: canonicalValue.induct)
     (auto simp: list_all_iff)

lemma canonical_idem: "canonicalValue (canonicalValue v) = canonicalValue v"
proof (induction v rule: canonicalValue.induct)
  case (2 kvs)
  let ?f = "\<lambda>(k :: string, v). (k, canonicalValue v)"
  have ff: "map ?f (map ?f kvs) = map ?f kvs"
    using "2.IH" by (auto simp: split_beta)
  have "map ?f (key_sort codeUnitCompare (map ?f kvs)) = key_sort codeUnitCompare (map ?f kvs)"
    unfolding key_sort_map_values ff ..
  then show ?case
    using comparator.js_sort_idem[OF cu.key_comparator] by simp
qed auto

lemma sameCanonicalValue_iff:
  "printable l \<Longrightarrow> printable r \<Longrightarrow> sameCanonicalValue l r \<longleftrightarrow> canonicalValue l = canonicalValue r"
  by (simp add: sameCanonicalValue_def stringify_inject printable_canonical)

lemma sameCanonicalValue_refl [simp]: "sameCanonicalValue v v"
  by (simp add: sameCanonicalValue_def)

lemma sameCanonicalValue_sym: "sameCanonicalValue l r = sameCanonicalValue r l"
  unfolding sameCanonicalValue_def by (rule eq_commute)

lemma sameCanonicalValue_trans: "sameCanonicalValue a b \<Longrightarrow> sameCanonicalValue b c \<Longrightarrow> sameCanonicalValue a c"
  by (simp add: sameCanonicalValue_def)

lemma normalizeStringList_idem: "normalizeStringList (normalizeStringList xs) = normalizeStringList xs"
  by (simp add: normalizeStringList_def cp.js_sort_idem)

lemma normalizeStringList_cong: "mset xs = mset ys \<Longrightarrow> normalizeStringList xs = normalizeStringList ys"
  unfolding normalizeStringList_def by (rule cp.js_sort_cong)

text \<open>Objects with the same canonical form have canonically the same members.\<close>

lemma canonical_member:
  assumes "canonicalValue (JObj a) = canonicalValue (JObj b)"
    and "distinct (map fst a)" and "distinct (map fst b)"
  shows "map_option canonicalValue (map_of a k) = map_option canonicalValue (map_of b k)"
proof -
  let ?f = "map (\<lambda>(k, v). (k, canonicalValue v))"
  have d: "distinct (map fst (?f a))" "distinct (map fst (?f b))"
    using assms(2,3) by (simp_all add: split_beta comp_def)
  have "map_of (key_sort codeUnitCompare (?f a)) k = map_of (key_sort codeUnitCompare (?f b)) k"
    using assms(1) by simp
  then show ?thesis
    using d by (simp add: map_of_map_values)
qed

lemma canonical_strings [simp]:
  "map canonicalValue (map JStr ss) = map JStr ss"
  by simp

lemma canonical_JStr [simp]: "canonicalValue v = JStr s \<longleftrightarrow> v = JStr s"
  by (cases v) auto

lemma canonical_JInt [simp]: "canonicalValue v = JInt i \<longleftrightarrow> v = JInt i"
  by (cases v) auto

lemma map_JStr_inj [simp]: "map JStr a = map JStr b \<longleftrightarrow> a = b"
  by (simp add: inj_map_eq_map inj_def)

text \<open>Evaluation: texts of printable values are compared as values.\<close>

definition same_text :: "jsval \<Rightarrow> jsval \<Rightarrow> bool" where
  "same_text a b \<longleftrightarrow> stringify a = stringify b"

lemma same_text_code [code]:
  "same_text a b = (if printable a \<and> printable b then a = b else stringify a = stringify b)"
  by (simp add: same_text_def stringify_inject)

lemma sameCanonicalValue_code [code]:
  "sameCanonicalValue l r = same_text (canonicalValue l) (canonicalValue r)"
  by (simp add: sameCanonicalValue_def same_text_def)

end
