(* ===== verification/GroupBaseline.thy ===== *)
theory GroupBaseline
  imports ItemMerge Json
begin

text \<open>
  \<open>kernel/group-baseline.ts\<close>, \<open>kernel/group-baseline-format.ts\<close>,
  \<open>kernel/group-baseline-operations.ts\<close> and \<open>kernel/group-baseline-compare.ts\<close>: a baseline
  document as groups of keyed items, its formatter, three-way merge and comparison. The spec that
  a document family supplies is a record of functions. A thrown \<open>Error\<close> is \<open>Inl\<close>.
\<close>

datatype root_key = TestsRoot | EntriesRoot

record remediation =
  rm_baselineFile :: string
  rm_installerCommand :: string
  rm_restoreOursCommand :: string
  rm_updateCommand :: string
  rm_reconcileEntries :: bool

record ('m, 'i) group =
  grp_meta :: 'm
  grp_items :: "(string \<times> 'i) list"

record ('m, 'i) grouped_baseline =
  gb_version :: int
  gb_regenerate :: "jsval option"
  gb_groups :: "(string \<times> ('m, 'i) group) list"

text \<open>A parse result carries its failures (never empty) or its value with warnings.\<close>

datatype 'a parsed = ParseOk (po_value: 'a) (po_warnings: "string list") | ParseErr (po_errors: "string list")

record ('m, 'i) group_spec =
  gs_writeVersion :: int
  gs_acceptedReadVersions :: "int list"
  gs_rootKey :: root_key
  gs_regenerate :: "string option"
  gs_preserveRegenerateOnFormat :: bool
  gs_remediation :: "remediation option"
  gs_singleGroupId :: "string option"
  gs_requireSortedKeysOnParse :: bool
  gs_compareGroupKeys :: "string cmp"
  gs_compareItemKeys :: "string cmp"
  gs_parseGroupMeta :: "string \<Rightarrow> (string \<times> jsval) list \<Rightarrow> (string \<times> 'i) list \<Rightarrow> 'm parsed"
  gs_formatGroupMeta :: "string \<Rightarrow> 'm \<Rightarrow> (string \<times> 'i) list \<Rightarrow> string option \<Rightarrow> (string \<times> jsval) list"
  gs_sameGroupMeta :: "'m \<Rightarrow> 'm \<Rightarrow> bool"
  gs_parseItem :: "string \<Rightarrow> string option \<Rightarrow> jsval \<Rightarrow> (string \<times> 'i) parsed"
  gs_formatItem :: "string \<Rightarrow> string \<Rightarrow> 'i \<Rightarrow> 'm \<Rightarrow> jsval"
  gs_itemCount :: "'i \<Rightarrow> int"
  gs_mergeShared :: "string \<Rightarrow> 'm \<Rightarrow> string \<Rightarrow> 'i \<Rightarrow> 'i \<Rightarrow> 'i outcome"
  gs_mergeOneSided :: "string \<Rightarrow> 'm \<Rightarrow> string \<Rightarrow> 'i \<Rightarrow> 'i option \<Rightarrow> 'i outcome"

section \<open>Formatting\<close>

definition sortedGroupedItems :: "('m, 'i) group_spec \<Rightarrow> ('m, 'i) group \<Rightarrow> (string \<times> 'i) list" where
  "sortedGroupedItems spec g = key_sort (gs_compareItemKeys spec) (grp_items g)"

definition formattedGroupedTest :: "('m, 'i) group_spec \<Rightarrow> string \<Rightarrow> ('m, 'i) group \<Rightarrow> jsval" where
  "formattedGroupedTest spec groupId g =
     (let items = sortedGroupedItems spec g
      in JObj (AList.update ''items''
                 (JObj (map_from (map (\<lambda>(key, item). (key, gs_formatItem spec groupId key item (grp_meta g))) items)))
                 (gs_formatGroupMeta spec groupId (grp_meta g) items None)))"

definition formatTestsDocument :: "('m, 'i) group_spec \<Rightarrow> ('m, 'i) grouped_baseline \<Rightarrow> jsval" where
  "formatTestsDocument spec b =
     (let groups = key_sort (gs_compareGroupKeys spec) (gb_groups b);
          regenerate = (if gs_preserveRegenerateOnFormat spec then gb_regenerate b
                        else map_option JStr (gs_regenerate spec))
      in JObj ([(''version'', JInt (gb_version b))]
           @ (case regenerate of None \<Rightarrow> [] | Some r \<Rightarrow> [(''regenerate'', r)])
           @ [(''tests'', JObj (map_from (map (\<lambda>(groupId, g). (groupId, formattedGroupedTest spec groupId g)) groups)))]))"

datatype format_error = RequiresSingleGroupId | RequiresGroup string

definition formatEntriesDocument :: "('m, 'i) group_spec \<Rightarrow> ('m, 'i) grouped_baseline \<Rightarrow> format_error + jsval" where
  "formatEntriesDocument spec b =
     (case gs_singleGroupId spec of
        None \<Rightarrow> Inl RequiresSingleGroupId
      | Some groupId \<Rightarrow>
          (case map_of (gb_groups b) groupId of
             None \<Rightarrow> Inl (RequiresGroup groupId)
           | Some g \<Rightarrow>
               (let items = sortedGroupedItems spec g
                in Inr (JObj (AList.update ''entries''
                     (JArr (map (\<lambda>(key, item). gs_formatItem spec groupId key item (grp_meta g)) items))
                     (map_from ((''version'', JInt (gb_version b))
                        # gs_formatGroupMeta spec groupId (grp_meta g) items (gs_regenerate spec))))))))"

definition formatGroupedBaseline :: "('m, 'i) group_spec \<Rightarrow> ('m, 'i) grouped_baseline \<Rightarrow> format_error + string" where
  "formatGroupedBaseline spec b =
     (case (case gs_rootKey spec of
              TestsRoot \<Rightarrow> Inr (formatTestsDocument spec b)
            | EntriesRoot \<Rightarrow> formatEntriesDocument spec b) of
        Inl e \<Rightarrow> Inl e
      | Inr doc \<Rightarrow> Inr (stringify2 doc @ [CHR 0x0A]))"

section \<open>Three-way merge\<close>

record ('m, 'i) group_versions =
  gv_base :: "('m, 'i) group option"
  gv_current :: "('m, 'i) group option"
  gv_other :: "('m, 'i) group option"

text \<open>\<open>Some\<close> of the chosen group (possibly none) when the decision is resolved.\<close>

type_synonym ('m, 'i) decision = "('m, 'i) group option option"

definition sameCanonicalGroup ::
    "('m, 'i) group_spec \<Rightarrow> string \<Rightarrow> ('m, 'i) group \<Rightarrow> ('m, 'i) group \<Rightarrow> bool" where
  "sameCanonicalGroup spec groupId l r \<longleftrightarrow>
     stringify (formattedGroupedTest spec groupId l) = stringify (formattedGroupedTest spec groupId r)"

lemma sameCanonicalGroup_code [code]:
  "sameCanonicalGroup spec groupId l r =
     same_text (formattedGroupedTest spec groupId l) (formattedGroupedTest spec groupId r)"
  by (simp add: sameCanonicalGroup_def same_text_def)

definition same_opt :: "('m, 'i) group_spec \<Rightarrow> string \<Rightarrow> ('m, 'i) group option \<Rightarrow> ('m, 'i) group option \<Rightarrow> bool" where
  "same_opt spec groupId a b = (case (a, b) of
     (Some x, Some y) \<Rightarrow> sameCanonicalGroup spec groupId x y | _ \<Rightarrow> False)"

definition chooseWithoutBase :: "('m, 'i) group_versions \<Rightarrow> ('m, 'i) decision" where
  "chooseWithoutBase v =
     (if gv_current v = None then Some (gv_other v)
      else if gv_other v = None then Some (gv_current v)
      else None)"

definition chooseAgainstBase ::
    "('m, 'i) group_spec \<Rightarrow> string \<Rightarrow> ('m, 'i) group_versions \<Rightarrow> ('m, 'i) decision" where
  "chooseAgainstBase spec groupId v =
     (if gv_base v = None then chooseWithoutBase v
      else if same_opt spec groupId (gv_current v) (gv_base v) then Some (gv_other v)
      else if same_opt spec groupId (gv_other v) (gv_base v) then Some (gv_current v)
      else None)"

definition chooseSimpleGroupMerge ::
    "('m, 'i) group_spec \<Rightarrow> string \<Rightarrow> ('m, 'i) group_versions \<Rightarrow> ('m, 'i) decision" where
  "chooseSimpleGroupMerge spec groupId v =
     (if gv_current v = None \<and> gv_other v = None then Some None
      else if same_opt spec groupId (gv_current v) (gv_other v) then Some (gv_current v)
      else chooseAgainstBase spec groupId v)"

record ('m, 'i) changed_result =
  cg_group :: "('m, 'i) group option"
  cg_failures :: "string list"
  cg_truthUpRequired :: bool

definition group_policy :: "('m, 'i) group_spec \<Rightarrow> string \<Rightarrow> 'm \<Rightarrow> 'i policy" where
  "group_policy spec groupId m =
     \<lparr>po_count = gs_itemCount spec, po_mergeShared = gs_mergeShared spec groupId m,
      po_mergeOneSided = gs_mergeOneSided spec groupId m\<rparr>"

definition group_input ::
    "('m, 'i) group_spec \<Rightarrow> ('m, 'i) group option \<Rightarrow> ('m, 'i) group \<Rightarrow> ('m, 'i) group \<Rightarrow> 'i merge_input" where
  "group_input spec base cur oth =
     \<lparr>mi_base = (case base of None \<Rightarrow> [] | Some g \<Rightarrow> grp_items g),
      mi_current = grp_items cur, mi_other = grp_items oth,
      mi_compareKeys = gs_compareItemKeys spec\<rparr>"

definition meta_differs_text :: string where
  "meta_differs_text = '': baseline group metadata differs between sides; regenerate the baseline after resolving other conflicts''"

definition removed_changed_text :: string where
  "removed_changed_text = '': one side removed the baseline group while the other changed it; regenerate the baseline after resolving other conflicts''"

definition mergeChangedGroup ::
    "('m, 'i) group_spec \<Rightarrow> string \<Rightarrow> ('m, 'i) group option \<Rightarrow> ('m, 'i) group \<Rightarrow> ('m, 'i) group \<Rightarrow> ('m, 'i) changed_result" where
  "mergeChangedGroup spec groupId base cur oth =
     (if \<not> gs_sameGroupMeta spec (grp_meta cur) (grp_meta oth)
      then \<lparr>cg_group = None, cg_failures = [groupId @ meta_differs_text], cg_truthUpRequired = False\<rparr>
      else let merged = mergeItemMaps (group_policy spec groupId (grp_meta cur)) (group_input spec base cur oth)
           in \<lparr>cg_group = Some \<lparr>grp_meta = grp_meta cur, grp_items = map_from (mr_merged merged)\<rparr>,
               cg_failures = mr_failures merged,
               cg_truthUpRequired = (mr_failures merged = [] \<and> mr_truthUpRequired merged)\<rparr>)"

record ('m, 'i) merge_docs =
  md_base :: "('m, 'i) grouped_baseline"
  md_current :: "('m, 'i) grouped_baseline"
  md_other :: "('m, 'i) grouped_baseline"

definition groupVersions :: "('m, 'i) merge_docs \<Rightarrow> string \<Rightarrow> ('m, 'i) group_versions" where
  "groupVersions inp groupId =
     \<lparr>gv_base = map_of (gb_groups (md_base inp)) groupId,
      gv_current = map_of (gb_groups (md_current inp)) groupId,
      gv_other = map_of (gb_groups (md_other inp)) groupId\<rparr>"

definition allGroupIds :: "('m, 'i) group_spec \<Rightarrow> ('m, 'i) merge_docs \<Rightarrow> string list" where
  "allGroupIds spec inp = js_sort (gs_compareGroupKeys spec)
     (js_set (map fst (gb_groups (md_base inp)) @ map fst (gb_groups (md_current inp))
              @ map fst (gb_groups (md_other inp))))"

definition groupedMergeOutput ::
    "('m, 'i) group_spec \<Rightarrow> (string \<times> ('m, 'i) group) list \<Rightarrow> ('m, 'i) grouped_baseline" where
  "groupedMergeOutput spec groups =
     \<lparr>gb_version = gs_writeVersion spec, gb_regenerate = map_option JStr (gs_regenerate spec),
      gb_groups = groups\<rparr>"

record ('m, 'i) merge_state =
  ms_groups :: "(string \<times> ('m, 'i) group) list"
  ms_failures :: "string list"
  ms_truthUp :: bool

definition group_step ::
    "('m, 'i) group_spec \<Rightarrow> ('m, 'i) merge_docs \<Rightarrow> string \<Rightarrow> ('m, 'i) merge_state \<Rightarrow> ('m, 'i) merge_state" where
  "group_step spec inp groupId st =
     (let versions = groupVersions inp groupId
      in case chooseSimpleGroupMerge spec groupId versions of
           Some None \<Rightarrow> st
         | Some (Some g) \<Rightarrow> st\<lparr>ms_groups := AList.update groupId g (ms_groups st)\<rparr>
         | None \<Rightarrow>
             (case (gv_current versions, gv_other versions) of
                (Some cur, Some oth) \<Rightarrow>
                  (let merged = mergeChangedGroup spec groupId (gv_base versions) cur oth
                   in \<lparr>ms_groups = (case cg_group merged of
                           None \<Rightarrow> ms_groups st
                         | Some g \<Rightarrow> AList.update groupId g (ms_groups st)),
                       ms_failures = ms_failures st @ cg_failures merged,
                       ms_truthUp = (ms_truthUp st \<or> cg_truthUpRequired merged)\<rparr>)
              | _ \<Rightarrow> st\<lparr>ms_failures := ms_failures st @ [groupId @ removed_changed_text]\<rparr>))"

record ('m, 'i) merge_docs_result =
  mx_baseline :: "('m, 'i) grouped_baseline option"
  mx_partialBaseline :: "('m, 'i) grouped_baseline option"
  mx_failures :: "string list"
  mx_postMergeTruthUpRequired :: bool

definition mergeGroupedBaseline ::
    "('m, 'i) group_spec \<Rightarrow> ('m, 'i) merge_docs \<Rightarrow> ('m, 'i) merge_docs_result" where
  "mergeGroupedBaseline spec inp =
     (let st = fold (group_step spec inp) (allGroupIds spec inp)
                 \<lparr>ms_groups = [], ms_failures = [], ms_truthUp = False\<rparr>
      in if ms_failures st \<noteq> []
         then \<lparr>mx_baseline = None, mx_partialBaseline = Some (groupedMergeOutput spec (ms_groups st)),
               mx_failures = ms_failures st, mx_postMergeTruthUpRequired = False\<rparr>
         else \<lparr>mx_baseline = Some (groupedMergeOutput spec (ms_groups st)), mx_partialBaseline = None,
               mx_failures = [], mx_postMergeTruthUpRequired = ms_truthUp st\<rparr>)"

section \<open>Comparison\<close>

type_synonym location = "string \<times> string"

record 'i compared_item =
  ct_groupId :: string
  ct_itemKey :: string
  ct_baselineItem :: "'i option"
  ct_currentItem :: "'i option"

record 'i changes =
  ch_metadataChanged :: "string list"
  ch_added :: "location list"
  ch_removed :: "location list"
  ch_increased :: "location list"
  ch_decreased :: "location list"
  ch_comparedItems :: "'i compared_item list"

datatype compare_status = StatusOk | StatusRegressed | StatusImproved

record 'i compare_result =
  cr_status :: compare_status
  cr_addedGroups :: "string list"
  cr_removedGroups :: "string list"
  cr_changes :: "'i changes"

definition itemLocation :: "'i compared_item \<Rightarrow> location" where
  "itemLocation m = (ct_groupId m, ct_itemKey m)"

definition recordItemMovement ::
    "('m, 'i) group_spec \<Rightarrow> 'i compared_item \<Rightarrow> 'i changes \<Rightarrow> 'i changes" where
  "recordItemMovement spec m ch0 =
     (let ch = ch0\<lparr>ch_comparedItems := ch_comparedItems ch0 @ [m]\<rparr>
      in case (ct_baselineItem m, ct_currentItem m) of
           (None, Some _) \<Rightarrow> ch\<lparr>ch_added := ch_added ch @ [itemLocation m]\<rparr>
         | (Some _, None) \<Rightarrow> ch\<lparr>ch_removed := ch_removed ch @ [itemLocation m]\<rparr>
         | (Some b, Some c) \<Rightarrow>
             (let countMovement = gs_itemCount spec c - gs_itemCount spec b
              in if countMovement > 0 then ch\<lparr>ch_increased := ch_increased ch @ [itemLocation m]\<rparr>
                 else if countMovement < 0 then ch\<lparr>ch_decreased := ch_decreased ch @ [itemLocation m]\<rparr>
                 else ch)
         | (None, None) \<Rightarrow> ch)"

definition recordMetadataChange ::
    "('m, 'i) group_spec \<Rightarrow> string \<Rightarrow> ('m, 'i) group option \<Rightarrow> ('m, 'i) group option \<Rightarrow> 'i changes \<Rightarrow> 'i changes" where
  "recordMetadataChange spec groupId b c ch =
     (case (b, c) of
        (Some bg, Some cg) \<Rightarrow>
          if gs_sameGroupMeta spec (grp_meta bg) (grp_meta cg) then ch
          else ch\<lparr>ch_metadataChanged := ch_metadataChanged ch @ [groupId]\<rparr>
      | _ \<Rightarrow> ch)"

definition opt_items :: "('m, 'i) group option \<Rightarrow> (string \<times> 'i) list" where
  "opt_items g = (case g of None \<Rightarrow> [] | Some x \<Rightarrow> grp_items x)"

definition group_item_keys ::
    "('m, 'i) group_spec \<Rightarrow> ('m, 'i) group option \<Rightarrow> ('m, 'i) group option \<Rightarrow> string list" where
  "group_item_keys spec b c =
     js_sort (gs_compareItemKeys spec) (js_set (map fst (opt_items b) @ map fst (opt_items c)))"

definition movement ::
    "string \<Rightarrow> ('m, 'i) group option \<Rightarrow> ('m, 'i) group option \<Rightarrow> string \<Rightarrow> 'i compared_item" where
  "movement groupId b c itemKey =
     \<lparr>ct_groupId = groupId, ct_itemKey = itemKey, ct_baselineItem = map_of (opt_items b) itemKey,
      ct_currentItem = map_of (opt_items c) itemKey\<rparr>"

definition compareGroupItems ::
    "('m, 'i) group_spec \<Rightarrow> string \<Rightarrow> ('m, 'i) group option \<Rightarrow> ('m, 'i) group option \<Rightarrow> 'i changes \<Rightarrow> 'i changes" where
  "compareGroupItems spec groupId b c ch =
     fold (\<lambda>itemKey. recordItemMovement spec (movement groupId b c itemKey)) (group_item_keys spec b c)
       (recordMetadataChange spec groupId b c ch)"

definition location_cmp :: "('m, 'i) group_spec \<Rightarrow> location cmp" where
  "location_cmp spec l r =
     (let groupOrder = gs_compareGroupKeys spec (fst l) (fst r)
      in if groupOrder = 0 then gs_compareItemKeys spec (snd l) (snd r) else groupOrder)"

definition sortedLocations :: "('m, 'i) group_spec \<Rightarrow> location list \<Rightarrow> location list" where
  "sortedLocations spec ls = js_sort (location_cmp spec) ls"

definition comparisonStatus :: "string list \<Rightarrow> string list \<Rightarrow> 'i changes \<Rightarrow> compare_status" where
  "comparisonStatus addedGroups removedGroups ch =
     (if addedGroups \<noteq> [] \<or> ch_metadataChanged ch \<noteq> [] \<or> ch_added ch \<noteq> [] \<or> ch_increased ch \<noteq> []
      then StatusRegressed
      else if removedGroups \<noteq> [] \<or> ch_removed ch \<noteq> [] \<or> ch_decreased ch \<noteq> [] then StatusImproved
      else StatusOk)"

definition no_changes :: "'i changes" where
  "no_changes = \<lparr>ch_metadataChanged = [], ch_added = [], ch_removed = [], ch_increased = [],
     ch_decreased = [], ch_comparedItems = []\<rparr>"

definition compared_ids :: "('m, 'i) group_spec \<Rightarrow> ('m, 'i) grouped_baseline \<Rightarrow> ('m, 'i) grouped_baseline \<Rightarrow> string list" where
  "compared_ids spec b c =
     js_sort (gs_compareGroupKeys spec) (js_set (map fst (gb_groups b) @ map fst (gb_groups c)))"

definition compareGroupedBaseline ::
    "('m, 'i) group_spec \<Rightarrow> ('m, 'i) grouped_baseline \<Rightarrow> ('m, 'i) grouped_baseline \<Rightarrow> 'i compare_result" where
  "compareGroupedBaseline spec b c =
     (let ch = fold (\<lambda>groupId. compareGroupItems spec groupId (map_of (gb_groups b) groupId)
                       (map_of (gb_groups c) groupId)) (compared_ids spec b c) no_changes;
          addedGroups = js_sort (gs_compareGroupKeys spec)
            (filter (\<lambda>k. map_of (gb_groups b) k = None) (map fst (gb_groups c)));
          removedGroups = js_sort (gs_compareGroupKeys spec)
            (filter (\<lambda>k. map_of (gb_groups c) k = None) (map fst (gb_groups b)));
          sorted = ch\<lparr>ch_metadataChanged := js_sort (gs_compareGroupKeys spec) (ch_metadataChanged ch),
                      ch_added := sortedLocations spec (ch_added ch),
                      ch_removed := sortedLocations spec (ch_removed ch),
                      ch_increased := sortedLocations spec (ch_increased ch),
                      ch_decreased := sortedLocations spec (ch_decreased ch)\<rparr>
      in \<lparr>cr_status = comparisonStatus addedGroups removedGroups sorted,
          cr_addedGroups = addedGroups, cr_removedGroups = removedGroups, cr_changes = sorted\<rparr>)"

end
