(* ===== verification/GroupParse.thy ===== *)
theory GroupParse
  imports GroupBaseline
begin

text \<open>
  \<open>kernel/group-baseline-parse.ts\<close> and \<open>kernel/baseline-conflict-marker.ts\<close>: from the text of a
  committed document to its groups, with every failure the code reports.

  \<open>jp\<close> is \<open>JSON.parse\<close>: the value, or the message of the \<open>SyntaxError\<close>. The zod schemas are the
  tests they make: a plain object, an array, an integer in the safe range. Warnings and failures
  that the code pushes on arrays are returned in order.
\<close>

type_synonym json_parser = "string \<Rightarrow> string + jsval"

section \<open>Conflict markers\<close>

definition is_line_end :: "char \<Rightarrow> bool" where
  "is_line_end c \<longleftrightarrow> c = CHR 0x0A \<or> c = CHR 0x0D"

text \<open>\<open>/^<{7} /m\<close>: seven \<open><\<close> and a space at the start of a line.\<close>

fun has_conflict_marker :: "bool \<Rightarrow> string \<Rightarrow> bool" where
  "has_conflict_marker at_start [] = False"
| "has_conflict_marker at_start (c # cs) =
     ((at_start \<and> take 8 (c # cs) = ''<<<<<<< '') \<or> has_conflict_marker (is_line_end c) cs)"

definition conflict_resolution :: "remediation \<Rightarrow> string" where
  "conflict_resolution r =
     (if rm_reconcileEntries r
      then ''then reconcile entries from both sides and normalize with `'' @ rm_updateCommand r
           @ ''`; never hand-merge conflict markers in this file.''
      else ''then resolve by regenerating with `'' @ rm_updateCommand r @ ''`; never hand-merge this file.'')"

definition baselineConflictMarkerTripwire :: "string \<Rightarrow> remediation option \<Rightarrow> string option" where
  "baselineConflictMarkerTripwire txt rem =
     (case rem of
        None \<Rightarrow> None
      | Some r \<Rightarrow>
          if \<not> has_conflict_marker True txt then None
          else Some (rm_baselineFile r
            @ '' is generated; Git conflict markers mean its semantic merge driver was not installed. Run `''
            @ rm_installerCommand r @ ''`, restore a parseable side with `'' @ rm_restoreOursCommand r
            @ ''` (always use stage 2/`--ours`; during rebase stage 2 is the upstream base, not the branch being rebased; if the markers were already committed, restore that side from a parent commit first), ''
            @ conflict_resolution r
            @ '' Inspect the resulting baseline against both sides before staging; preserve any lower floor from the other side or explicitly accept the regression.''))"

section \<open>The envelope\<close>

definition quoted :: "string \<Rightarrow> string" where
  "quoted s = CHR 0x27 # s @ [CHR 0x27]"

definition parseJson :: "json_parser \<Rightarrow> string \<Rightarrow> remediation option \<Rightarrow> string + jsval" where
  "parseJson jp txt rem = (case jp txt of
       Inr v \<Rightarrow> Inr v
     | Inl message \<Rightarrow>
         Inl (case baselineConflictMarkerTripwire txt rem of
                Some t \<Rightarrow> t
              | None \<Rightarrow> ''baseline is not valid JSON: '' @ message))"

definition safe_int :: "int \<Rightarrow> bool" where
  "safe_int i \<longleftrightarrow> \<bar>i\<bar> \<le> 9007199254740991"

fun as_object :: "jsval \<Rightarrow> (string \<times> jsval) list option" where
  "as_object (JObj kvs) = Some kvs"
| "as_object _ = None"

definition invalidEnvelopeError :: "root_key \<Rightarrow> (string \<times> jsval) list \<Rightarrow> string" where
  "invalidEnvelopeError root envelope =
     (case map_of envelope ''version'' of
        Some (JInt i) \<Rightarrow>
          (case root of TestsRoot \<Rightarrow> ''baseline tests must be an object''
           | EntriesRoot \<Rightarrow> ''baseline entries must be an array'')
      | _ \<Rightarrow> ''baseline version must be an integer'')"

fun root_name :: "root_key \<Rightarrow> string" where
  "root_name TestsRoot = ''tests''"
| "root_name EntriesRoot = ''entries''"

fun other_root :: "root_key \<Rightarrow> root_key" where
  "other_root TestsRoot = EntriesRoot"
| "other_root EntriesRoot = TestsRoot"

definition root_shape :: "root_key \<Rightarrow> jsval option \<Rightarrow> bool" where
  "root_shape root v = (case (root, v) of
       (TestsRoot, Some (JObj _)) \<Rightarrow> True
     | (EntriesRoot, Some (JArr _)) \<Rightarrow> True
     | _ \<Rightarrow> False)"

definition version_text :: "int list \<Rightarrow> string" where
  "version_text accepted =
     (case accepted of
        [v] \<Rightarrow> ''baseline version must be '' @ show_int v
      | _ \<Rightarrow> ''baseline version must be one of '' @ js_join '', '' (map show_int accepted))"

definition checkedEnvelope :: "('m, 'i) group_spec \<Rightarrow> jsval \<Rightarrow> string + int \<times> (string \<times> jsval) list" where
  "checkedEnvelope spec raw =
     (case as_object raw of
        None \<Rightarrow> Inl ''baseline must be a JSON object''
      | Some envelope \<Rightarrow>
          (let root = gs_rootKey spec; other = other_root root
           in if map_of envelope (root_name root) = None \<and> map_of envelope (root_name other) \<noteq> None
              then Inl (''baseline has wrong document family: expected '' @ quoted (root_name root)
                        @ '', found '' @ quoted (root_name other))
              else case map_of envelope ''version'' of
                     Some (JInt v) \<Rightarrow>
                       if \<not> safe_int v \<or> \<not> root_shape root (map_of envelope (root_name root))
                       then Inl (invalidEnvelopeError root envelope)
                       else if v \<notin> set (gs_acceptedReadVersions spec)
                       then Inl (version_text (gs_acceptedReadVersions spec))
                       else Inr (v, envelope)
                   | _ \<Rightarrow> Inl (invalidEnvelopeError root envelope)))"

section \<open>Items and groups\<close>

definition unsorted :: "('m, 'i) group_spec \<Rightarrow> string cmp \<Rightarrow> string option \<Rightarrow> string \<Rightarrow> bool" where
  "unsorted spec cmp previousKey key =
     (gs_requireSortedKeysOnParse spec \<and>
      (case previousKey of None \<Rightarrow> False | Some p \<Rightarrow> cmp p key > 0))"

definition previous_text :: "string option \<Rightarrow> string" where
  "previous_text p = quoted (case p of None \<Rightarrow> [] | Some k \<Rightarrow> k)"

fun parseArrayItems ::
    "('m, 'i) group_spec \<Rightarrow> string \<Rightarrow> nat \<Rightarrow> string list \<Rightarrow> string option \<Rightarrow> jsval list \<Rightarrow> (string \<times> 'i) list parsed" where
  "parseArrayItems spec groupId index seen previousKey [] = ParseOk [] []"
| "parseArrayItems spec groupId index seen previousKey (raw # rest) =
     (case gs_parseItem spec groupId None raw of
        ParseErr es \<Rightarrow> ParseErr [''baseline entries['' @ show_nat index @ '']: '' @ hd es]
      | ParseOk (key, item) ws \<Rightarrow>
          if key \<in> set seen then ParseErr [''baseline has duplicate entry key '' @ quoted key]
          else if unsorted spec (gs_compareItemKeys spec) previousKey key
          then ParseErr [''baseline entries must be sorted by key; '' @ quoted key @ '' follows '' @ previous_text previousKey]
          else (case parseArrayItems spec groupId (Suc index) (key # seen) (Some key) rest of
                  ParseErr es \<Rightarrow> ParseErr es
                | ParseOk items ws' \<Rightarrow> ParseOk ((key, item) # items) (ws @ ws')))"

record 'i object_items =
  oi_items :: "(string \<times> 'i) list"
  oi_warnings :: "string list"
  oi_failures :: "string list"

fun parseObjectItems ::
    "('m, 'i) group_spec \<Rightarrow> string \<Rightarrow> string option \<Rightarrow> (string \<times> jsval) list \<Rightarrow> 'i object_items" where
  "parseObjectItems spec groupId previousKey [] = \<lparr>oi_items = [], oi_warnings = [], oi_failures = []\<rparr>"
| "parseObjectItems spec groupId previousKey ((itemKey, rawItem) # rest) =
     (let order = (if unsorted spec (gs_compareItemKeys spec) previousKey itemKey
            then [groupId @ ''.items must be sorted by key; '' @ quoted itemKey @ '' follows '' @ previous_text previousKey]
            else []);
          tail = parseObjectItems spec groupId (Some itemKey) rest
      in case gs_parseItem spec groupId (Some itemKey) rawItem of
           ParseErr es \<Rightarrow> tail\<lparr>oi_failures :=
             order @ map (\<lambda>f. groupId @ ''.items.'' @ itemKey @ '': '' @ f) es @ oi_failures tail\<rparr>
         | ParseOk (key, item) ws \<Rightarrow>
             if key \<noteq> itemKey
             then tail\<lparr>oi_failures := order @ [groupId @ ''.items.'' @ itemKey @ '': parsed item key differs''] @ oi_failures tail\<rparr>
             else \<lparr>oi_items = (key, item) # oi_items tail, oi_warnings = ws @ oi_warnings tail,
                   oi_failures = order @ oi_failures tail\<rparr>)"

definition parseEntriesFamily ::
    "('m, 'i) group_spec \<Rightarrow> (string \<times> jsval) list \<Rightarrow> (string \<times> ('m, 'i) group) list parsed" where
  "parseEntriesFamily spec envelope =
     (case gs_singleGroupId spec of
        None \<Rightarrow> ParseErr [''entries-family codec requires a singleGroupId'']
      | Some groupId \<Rightarrow>
          (case map_of envelope ''entries'' of
             Some (JArr rawEntries) \<Rightarrow>
               (case parseArrayItems spec groupId 0 [] None rawEntries of
                  ParseErr es \<Rightarrow> ParseErr es
                | ParseOk items ws \<Rightarrow>
                    (case gs_parseGroupMeta spec groupId envelope items of
                       ParseErr es \<Rightarrow> ParseErr es
                     | ParseOk meta ws' \<Rightarrow>
                         ParseOk [(groupId, \<lparr>grp_meta = meta, grp_items = map_from items\<rparr>)] (ws @ ws')))
           | _ \<Rightarrow> ParseErr [''baseline entries must be an array'']))"

definition collectBrokenGroupMetaFailures ::
    "('m, 'i) group_spec \<Rightarrow> string \<Rightarrow> jsval \<Rightarrow> string list" where
  "collectBrokenGroupMetaFailures spec groupId rawGroup =
     (case as_object rawGroup of
        None \<Rightarrow> []
      | Some members \<Rightarrow>
          (case gs_parseGroupMeta spec groupId members [] of
             ParseErr es \<Rightarrow> map (\<lambda>f. groupId @ '': '' @ f) es
           | ParseOk _ _ \<Rightarrow> []))"

text \<open>\<open>testGroupEnvelopeSchema\<close>: an object with an \<open>items\<close> object.\<close>

definition group_envelope :: "jsval \<Rightarrow> ((string \<times> jsval) list \<times> (string \<times> jsval) list) option" where
  "group_envelope raw =
     Option.bind (as_object raw) (\<lambda>members.
     Option.bind (map_of members ''items'') (\<lambda>v.
     Option.bind (as_object v) (\<lambda>items. Some (members, items))))"

record ('m, 'i) tests_state =
  ts_groups :: "(string \<times> ('m, 'i) group) list"
  ts_warnings :: "string list"
  ts_failures :: "string list"

fun parseTestsLoop ::
    "('m, 'i) group_spec \<Rightarrow> string option \<Rightarrow> (string \<times> jsval) list \<Rightarrow> ('m, 'i) tests_state \<Rightarrow> ('m, 'i) tests_state" where
  "parseTestsLoop spec previousGroupId [] st = st"
| "parseTestsLoop spec previousGroupId ((groupId, rawGroup) # rest) st =
     (let order = (if unsorted spec (gs_compareGroupKeys spec) previousGroupId groupId
            then [''baseline tests must be sorted by key; '' @ quoted groupId @ '' follows '' @ previous_text previousGroupId]
            else []);
          st1 = st\<lparr>ts_failures := ts_failures st @ order\<rparr>
      in parseTestsLoop spec (Some groupId) rest
           (case group_envelope rawGroup of
              None \<Rightarrow> st1\<lparr>ts_failures := ts_failures st1
                 @ [groupId @ '': baseline group must contain an items object'']
                 @ collectBrokenGroupMetaFailures spec groupId rawGroup\<rparr>
            | Some (members, rawItems) \<Rightarrow>
                (let parsedItems = parseObjectItems spec groupId None rawItems;
                     st2 = st1\<lparr>ts_failures := ts_failures st1 @ oi_failures parsedItems,
                               ts_warnings := ts_warnings st1 @ oi_warnings parsedItems\<rparr>
                 in case gs_parseGroupMeta spec groupId members (oi_items parsedItems) of
                      ParseErr es \<Rightarrow> st2\<lparr>ts_failures := ts_failures st2 @ map (\<lambda>f. groupId @ '': '' @ f) es\<rparr>
                    | ParseOk meta ws \<Rightarrow>
                        st2\<lparr>ts_warnings := ts_warnings st2 @ ws,
                            ts_groups := AList.update groupId
                              \<lparr>grp_meta = meta, grp_items = map_from (oi_items parsedItems)\<rparr> (ts_groups st2)\<rparr>)))"

definition parseTestsFamily ::
    "('m, 'i) group_spec \<Rightarrow> (string \<times> jsval) list \<Rightarrow> (string \<times> ('m, 'i) group) list parsed" where
  "parseTestsFamily spec envelope =
     (case Option.bind (map_of envelope ''tests'') as_object of
        None \<Rightarrow> ParseErr [''baseline tests must be an object'']
      | Some rawTests \<Rightarrow>
          (let st = parseTestsLoop spec None rawTests \<lparr>ts_groups = [], ts_warnings = [], ts_failures = []\<rparr>
           in if ts_failures st \<noteq> [] then ParseErr (ts_failures st)
              else ParseOk (ts_groups st) (ts_warnings st)))"

definition collectRegenerateWarning :: "('m, 'i) group_spec \<Rightarrow> (string \<times> jsval) list \<Rightarrow> string list" where
  "collectRegenerateWarning spec envelope =
     (case (map_of envelope ''regenerate'', gs_regenerate spec) of
        (Some committed, Some regenerate) \<Rightarrow>
          if committed = JStr regenerate then []
          else [''baseline regenerate annotation is stale; regenerate with `'' @ regenerate
                @ ''` (committed '' @ stringify committed @ '')'']
      | _ \<Rightarrow> [])"

definition parseGroupedValue ::
    "('m, 'i) group_spec \<Rightarrow> jsval \<Rightarrow> ('m, 'i) grouped_baseline parsed" where
  "parseGroupedValue spec raw =
     (case checkedEnvelope spec raw of
        Inl e \<Rightarrow> ParseErr [e]
      | Inr (version, envelope) \<Rightarrow>
          (case (case gs_rootKey spec of
                   TestsRoot \<Rightarrow> parseTestsFamily spec envelope
                 | EntriesRoot \<Rightarrow> parseEntriesFamily spec envelope) of
             ParseErr es \<Rightarrow> ParseErr es
           | ParseOk groups ws \<Rightarrow>
               ParseOk \<lparr>gb_version = version, gb_regenerate = map_of envelope ''regenerate'', gb_groups = groups\<rparr>
                 (collectRegenerateWarning spec envelope @ ws)))"

definition parseGroupedBaseline ::
    "json_parser \<Rightarrow> ('m, 'i) group_spec \<Rightarrow> string \<Rightarrow> ('m, 'i) grouped_baseline parsed" where
  "parseGroupedBaseline jp spec txt =
     (case parseJson jp txt (gs_remediation spec) of
        Inl e \<Rightarrow> ParseErr [e]
      | Inr raw \<Rightarrow> parseGroupedValue spec raw)"

end
