(* ===== verification/Config.thy ===== *)
theory Config
  imports Json
begin

text \<open>
  The data of \<open>kernel/config-types.ts\<close>, \<open>kernel/metrics-types.ts\<close>,
  \<open>kernel/zero-baseline-types.ts\<close>, \<open>kernel/baseline.ts\<close> and \<open>kernel/eslint-json.ts\<close>: the
  registry entry, metric items, baselines, comparison results and ESLint messages. An optional
  field is an \<open>option\<close>; a field that the code reads as \<open>undefined\<close> is \<open>None\<close>. Counts, lines and
  complexities are integers (they stay far below the exact range of JavaScript numbers).
\<close>

section \<open>Registry\<close>

datatype ratchet_mode = NoNew
datatype metric = ComplexitySeverity | EffectiveLineCount | MessageCount
datatype parser_profile = MinimalTs | TypeAwareTs
datatype rule_source = LocalSource | ThirdPartySource (pluginModule: string) | CoreSource

datatype disposition_kind =
  IntentionalRatchetOnly | NarrowFloor | PromoteToNormalLint | TemporaryRatchetOnly

record zero_disposition =
  zd_kind :: disposition_kind
  zd_reason :: string
  zd_exitPath :: "string option"

record ratchet_config =
  rc_id :: string
  rc_ruleId :: string
  rc_files :: "string list"
  rc_ignores :: "string list"
  rc_ruleOptions :: "jsval list"
  rc_mode :: ratchet_mode
  rc_metric :: metric
  rc_principle :: string
  rc_allowEmpty :: "bool option"
  rc_zeroBaselineDisposition :: "zero_disposition option"
  rc_source :: "rule_source option"
  rc_parserProfile :: "parser_profile option"
  rc_typeAwareProject :: "string option"

fun metric_name :: "metric \<Rightarrow> string" where
  "metric_name ComplexitySeverity = ''complexity-severity''"
| "metric_name EffectiveLineCount = ''effective-line-count''"
| "metric_name MessageCount = ''message-count''"

fun mode_name :: "ratchet_mode \<Rightarrow> string" where
  "mode_name NoNew = ''no-new''"

lemma metric_name_inj [simp]: "metric_name a = metric_name b \<longleftrightarrow> a = b"
  by (cases a; cases b) simp_all

lemma mode_name_all [simp]: "mode_name m = ''no-new''"
  by (cases m) simp

lemma mode_all [simp]: "(a :: ratchet_mode) = b"
  by (cases a; cases b) simp

definition ratchetSource :: "ratchet_config \<Rightarrow> rule_source" where
  "ratchetSource r = (case rc_source r of None \<Rightarrow> LocalSource | Some s \<Rightarrow> s)"

definition ratchetParserProfile :: "ratchet_config \<Rightarrow> parser_profile" where
  "ratchetParserProfile r = (case rc_parserProfile r of None \<Rightarrow> MinimalTs | Some p \<Rightarrow> p)"

section \<open>Metric items\<close>

record complexity_function =
  cf_line :: int
  cf_label :: string
  cf_complexity :: int

record metric_item =
  mi_count :: int
  mi_lines :: "int option"
  mi_maxComplexity :: "int option"
  mi_perFunction :: "complexity_function list option"
  mi_messagesFingerprint :: "string option"

record current_item = metric_item +
  ci_firstLine :: "int option"
  ci_firstMessage :: "string option"
  ci_firstMessageId :: "string option"

definition count_item :: "int \<Rightarrow> metric_item" where
  "count_item n = \<lparr>mi_count = n, mi_lines = None, mi_maxComplexity = None, mi_perFunction = None,
     mi_messagesFingerprint = None\<rparr>"

record complexity_delta =
  cd_baselineComplexity :: int
  cd_currentComplexity :: int
  cd_line :: "int option"
  cd_regression :: bool

section \<open>Baselines\<close>

record group_meta =
  gm_ruleId :: string
  gm_mode :: ratchet_mode
  gm_metric :: metric
  gm_files :: "string list"
  gm_ignores :: "string list"
  gm_ruleOptions :: "jsval list"
  gm_configHash :: string
  gm_ruleSourceHash :: string

text \<open>A committed test is its metadata with its items, keyed by path.\<close>

record baseline_test = group_meta +
  bt_items :: "(string \<times> metric_item) list"

record ratchet_baseline =
  bl_version :: int
  bl_regenerate :: "jsval option"
  bl_tests :: "(string \<times> baseline_test) list"

type_synonym current_by_id = "(string \<times> (string \<times> current_item) list) list"

section \<open>Comparison results\<close>

datatype regression_reason = NewPath | IncreasedCount | IncreasedLines | IncreasedComplexity
datatype improvement_reason = RemovedPath | LowerCount | LowerLines | LowerComplexity
datatype info_reason = EqualCountMessageSwap

record 'reason delta =
  dl_testId :: string
  dl_ruleId :: string
  dl_path :: string
  dl_baselineCount :: int
  dl_currentCount :: int
  dl_baselineLines :: "int option"
  dl_currentLines :: "int option"
  dl_baselineComplexity :: "int option"
  dl_currentComplexity :: "int option"
  dl_line :: "int option"
  dl_firstMessage :: "string option"
  dl_firstMessageId :: "string option"
  dl_reason :: 'reason

type_synonym regression = "regression_reason delta"
type_synonym improvement = "improvement_reason delta"
type_synonym info = "info_reason delta"

record comparison =
  cmp_regressions :: "regression list"
  cmp_improvements :: "improvement list"
  cmp_infos :: "info list option"

section \<open>ESLint output\<close>

record eslint_message =
  em_ruleId :: "string option"
  em_severity :: int
  em_message :: string
  em_messageId :: "string option"
  em_line :: "int option"
  em_column :: "int option"
  em_fatal :: bool

record eslint_file_result =
  ef_filePath :: string
  ef_messages :: "eslint_message list"

text \<open>\<open>ConfigError\<close>, thrown while reading ESLint's output; the payload is what the message quotes.\<close>

datatype config_error =
    RequiresRule (ce_ratchet: string) (ce_metric: string) (ce_rule: string)
  | CannotParseLines string string string
  | UnexpectedMessageId string string string
  | CannotParseComplexity string string string
  | MissingLine string string
  | EslintCannotParse string string
  | MissingRuleSourceHash string

section \<open>Concrete data for the witnesses\<close>

definition sample_ratchet :: "string \<Rightarrow> string \<Rightarrow> metric \<Rightarrow> rule_source \<Rightarrow> ratchet_config" where
  "sample_ratchet i ruleId m source =
     \<lparr>rc_id = i, rc_ruleId = ruleId, rc_files = [''src/a.ts''], rc_ignores = [], rc_ruleOptions = [],
      rc_mode = NoNew, rc_metric = m, rc_principle = ''p'', rc_allowEmpty = None,
      rc_zeroBaselineDisposition = None, rc_source = Some source, rc_parserProfile = None,
      rc_typeAwareProject = None\<rparr>"

definition sample_current :: "metric_item \<Rightarrow> current_item" where
  "sample_current i = metric_item.extend i (current_item.fields None None None)"

end
