(* ===== verification/Metrics.thy ===== *)
theory Metrics
  imports Config
begin

text \<open>
  \<open>kernel/metrics-complexity.ts\<close>, \<open>kernel/message-swap-info.ts\<close>, \<open>kernel/metric-comparison.ts\<close>
  and \<open>kernel/metric-strategies.ts\<close>: how one path's findings are reduced, stored, compared with
  the committed item and merged, for each of the three metrics.

  \<open>lc\<close> is \<open>String.prototype.localeCompare\<close>, whose order depends on the runtime's locale data.
  \<open>METRIC_STRATEGIES\<close> is a case distinction on the metric. A thrown \<open>ConfigError\<close> is \<open>Inl\<close>.
\<close>

section \<open>Complexity vectors\<close>

definition compareComplexityFunction ::
    "string cmp \<Rightarrow> complexity_function \<Rightarrow> complexity_function \<Rightarrow> int" where
  "compareComplexityFunction lc l r =
     (let byComplexity = cf_complexity r - cf_complexity l;
          byLine = cf_line l - cf_line r
      in if byComplexity \<noteq> 0 then byComplexity
         else if byLine \<noteq> 0 then byLine
         else lc (cf_label l) (cf_label r))"

definition maxComplexityFor :: "complexity_function list option \<Rightarrow> int option" where
  "maxComplexityFor perFunction = (case perFunction of
       None \<Rightarrow> None
     | Some [] \<Rightarrow> None
     | Some (f # fs) \<Rightarrow> Some (foldl max (cf_complexity f) (map cf_complexity fs)))"

definition complexityIdentity :: "complexity_function \<Rightarrow> string" where
  "complexityIdentity entry = show_int (cf_line entry) @ [CHR 0x00] @ cf_label entry"

definition unique_step ::
    "complexity_function \<Rightarrow> (string \<times> complexity_function) list \<Rightarrow> (string \<times> complexity_function) list" where
  "unique_step entry m =
     (let key = complexityIdentity entry
      in case map_of m key of
           None \<Rightarrow> AList.update key entry m
         | Some previous \<Rightarrow>
             if cf_complexity entry > cf_complexity previous then AList.update key entry m else m)"

definition uniqueComplexityMap :: "complexity_function list \<Rightarrow> (string \<times> complexity_function) list" where
  "uniqueComplexityMap values = fold unique_step values []"

definition moved :: "bool \<Rightarrow> complexity_function \<Rightarrow> complexity_function \<Rightarrow> bool" where
  "moved regr entry previous =
     (if regr then cf_complexity entry > cf_complexity previous
      else cf_complexity entry < cf_complexity previous)"

definition delta_of :: "bool \<Rightarrow> complexity_function \<Rightarrow> complexity_function \<Rightarrow> complexity_delta" where
  "delta_of regr entry previous =
     \<lparr>cd_baselineComplexity = cf_complexity previous, cd_currentComplexity = cf_complexity entry,
      cd_line = Some (cf_line entry), cd_regression = regr\<rparr>"

fun exact_loop ::
    "(string \<times> complexity_function) list \<Rightarrow> complexity_function list \<Rightarrow> bool \<Rightarrow> complexity_delta option" where
  "exact_loop base [] regr = None"
| "exact_loop base (entry # rest) regr =
     (case map_of base (complexityIdentity entry) of
        None \<Rightarrow> exact_loop base rest regr
      | Some previous \<Rightarrow>
          if moved regr entry previous then Some (delta_of regr entry previous)
          else exact_loop base rest regr)"

definition exactComplexityDelta ::
    "complexity_function list \<Rightarrow> complexity_function list \<Rightarrow> bool \<Rightarrow> complexity_delta option" where
  "exactComplexityDelta baseline current regr = exact_loop (uniqueComplexityMap baseline) current regr"

fun vector_loop ::
    "complexity_function list \<Rightarrow> complexity_function list \<Rightarrow> bool \<Rightarrow> complexity_delta option" where
  "vector_loop (previous # ps) (entry # es) regr =
     (if moved regr entry previous then Some (delta_of regr entry previous) else vector_loop ps es regr)"
| "vector_loop _ _ regr = None"

definition vectorComplexityDelta ::
    "string cmp \<Rightarrow> complexity_function list \<Rightarrow> complexity_function list \<Rightarrow> bool \<Rightarrow> complexity_delta option" where
  "vectorComplexityDelta lc baseline current regr =
     vector_loop (js_sort (compareComplexityFunction lc) baseline)
       (js_sort (compareComplexityFunction lc) current) regr"

definition or_else :: "'a option \<Rightarrow> 'a option \<Rightarrow> 'a option" where
  "or_else a b = (case a of None \<Rightarrow> b | Some _ \<Rightarrow> a)"

definition complexityDelta ::
    "string cmp \<Rightarrow> 'a metric_item_scheme option \<Rightarrow> 'b metric_item_scheme \<Rightarrow> complexity_delta option" where
  "complexityDelta lc baseline current =
     (case (Option.bind baseline mi_perFunction, mi_perFunction current) of
        (Some bs, Some cs) \<Rightarrow>
          or_else (exactComplexityDelta bs cs True)
            (or_else (vectorComplexityDelta lc bs cs True)
              (or_else (exactComplexityDelta bs cs False) (vectorComplexityDelta lc bs cs False)))
      | _ \<Rightarrow> None)"

section \<open>Reading ESLint messages\<close>

text \<open>One or more digits at the front, and what follows them.\<close>

definition take_digits :: "string \<Rightarrow> (nat \<times> string) option" where
  "take_digits s = (let ds = takeWhile is_digit s
     in if ds = [] then None else Some (read_nat ds, dropWhile is_digit s))"

definition strip_prefix :: "string \<Rightarrow> string \<Rightarrow> string option" where
  "strip_prefix p s = (if take (length p) s = p then Some (drop (length p) s) else None)"

text \<open>
  \<open>MAX_LINES_MESSAGE_PATTERN\<close>, unanchored: the leftmost occurrence decides.
\<close>

definition max_lines_here :: "string \<Rightarrow> int option" where
  "max_lines_here s =
     Option.bind (strip_prefix ''This file has '' s) (\<lambda>s1.
     Option.bind (take_digits s1) (\<lambda>(n, s2).
     Option.bind (strip_prefix '' effective lines, above the '' s2) (\<lambda>s3.
     Option.bind (take_digits s3) (\<lambda>(_, s4).
     Option.bind (strip_prefix '' line limit'' s4) (\<lambda>_. Some (int n))))))"

fun max_lines_search :: "string \<Rightarrow> int option" where
  "max_lines_search s = (case max_lines_here s of
       Some n \<Rightarrow> Some n
     | None \<Rightarrow> (case s of [] \<Rightarrow> None | _ # cs \<Rightarrow> max_lines_search cs))"

declare max_lines_search.simps [simp del]

text \<open>
  \<open>COMPLEXITY_MESSAGE_PATTERN\<close>: the label is greedy, so the last split that fits is taken; it has
  no line terminator.
\<close>

definition complexity_tail :: "string \<Rightarrow> int option" where
  "complexity_tail s =
     Option.bind (strip_prefix '' has a complexity of '' s) (\<lambda>s1.
     Option.bind (take_digits s1) (\<lambda>(n, s2).
     Option.bind (strip_prefix ''. Maximum allowed is '' s2) (\<lambda>s3.
     Option.bind (take_digits s3) (\<lambda>(_, s4). if s4 = ''.'' then Some (int n) else None))))"

fun complexity_split :: "nat \<Rightarrow> string \<Rightarrow> (string \<times> int) option" where
  "complexity_split 0 s = None"
| "complexity_split (Suc n) s =
     (if list_all (\<lambda>c. c \<noteq> CHR 0x0A \<and> c \<noteq> CHR 0x0D) (take (Suc n) s)
      then case complexity_tail (drop (Suc n) s) of
             Some k \<Rightarrow> Some (take (Suc n) s, k)
           | None \<Rightarrow> complexity_split n s
      else complexity_split n s)"

definition assertComplexityMessageId :: "string \<Rightarrow> string \<Rightarrow> eslint_message \<Rightarrow> config_error option" where
  "assertComplexityMessageId ratchetId path msg = (case em_messageId msg of
       None \<Rightarrow> None
     | Some i \<Rightarrow> if i = ''complex'' then None else Some (UnexpectedMessageId ratchetId path i))"

definition assertComplexityMessageLine :: "string \<Rightarrow> string \<Rightarrow> eslint_message \<Rightarrow> config_error + int" where
  "assertComplexityMessageLine ratchetId path msg = (case em_line msg of
       None \<Rightarrow> Inl (MissingLine ratchetId path)
     | Some l \<Rightarrow> if l < 0 then Inl (MissingLine ratchetId path) else Inr l)"

definition parseComplexitySeverityMessage ::
    "string \<Rightarrow> string \<Rightarrow> eslint_message \<Rightarrow> config_error + complexity_function" where
  "parseComplexitySeverityMessage ratchetId path msg =
     (case assertComplexityMessageId ratchetId path msg of
        Some e \<Rightarrow> Inl e
      | None \<Rightarrow>
          (case complexity_split (length (em_message msg)) (em_message msg) of
             None \<Rightarrow> Inl (CannotParseComplexity ratchetId path (em_message msg))
           | Some (label, complexity) \<Rightarrow>
               (case assertComplexityMessageLine ratchetId path msg of
                  Inl e \<Rightarrow> Inl e
                | Inr line \<Rightarrow> Inr \<lparr>cf_line = line, cf_label = label, cf_complexity = complexity\<rparr>)))"

record metric_finding =
  mf_lines :: "int option"
  mf_complexity :: "complexity_function option"
  mf_message :: "string option"
  mf_messageId :: "string option"

definition effectiveLineCountFor :: "ratchet_config \<Rightarrow> string \<Rightarrow> eslint_message \<Rightarrow> config_error + int" where
  "effectiveLineCountFor ratchet path msg = (case max_lines_search (em_message msg) of
       None \<Rightarrow> Inl (CannotParseLines (rc_id ratchet) path (em_message msg))
     | Some n \<Rightarrow> Inr n)"

definition requireRuleId :: "ratchet_config \<Rightarrow> metric \<Rightarrow> string \<Rightarrow> config_error option" where
  "requireRuleId ratchet m ruleId =
     (if rc_ruleId ratchet \<noteq> ruleId then Some (RequiresRule (rc_id ratchet) (metric_name m) ruleId) else None)"

fun requiredRuleId :: "metric \<Rightarrow> string option" where
  "requiredRuleId MessageCount = None"
| "requiredRuleId EffectiveLineCount = Some ''local/max-lines''"
| "requiredRuleId ComplexitySeverity = Some ''complexity''"

fun recordsMessageIdentity :: "metric \<Rightarrow> bool" where
  "recordsMessageIdentity MessageCount = True"
| "recordsMessageIdentity EffectiveLineCount = False"
| "recordsMessageIdentity ComplexitySeverity = False"

fun reduceMessage :: "metric \<Rightarrow> ratchet_config \<Rightarrow> string \<Rightarrow> eslint_message \<Rightarrow> config_error + metric_finding" where
  "reduceMessage MessageCount ratchet path msg =
     Inr \<lparr>mf_lines = None, mf_complexity = None, mf_message = Some (em_message msg), mf_messageId = em_messageId msg\<rparr>"
| "reduceMessage EffectiveLineCount ratchet path msg =
     (case requireRuleId ratchet EffectiveLineCount ''local/max-lines'' of
        Some e \<Rightarrow> Inl e
      | None \<Rightarrow>
          (case effectiveLineCountFor ratchet path msg of
             Inl e \<Rightarrow> Inl e
           | Inr n \<Rightarrow> Inr \<lparr>mf_lines = Some n, mf_complexity = None, mf_message = None, mf_messageId = None\<rparr>))"
| "reduceMessage ComplexitySeverity ratchet path msg =
     (case requireRuleId ratchet ComplexitySeverity ''complexity'' of
        Some e \<Rightarrow> Inl e
      | None \<Rightarrow>
          (case parseComplexitySeverityMessage (rc_id ratchet) path msg of
             Inl e \<Rightarrow> Inl e
           | Inr f \<Rightarrow> Inr \<lparr>mf_lines = None, mf_complexity = Some f, mf_message = None, mf_messageId = None\<rparr>))"

section \<open>The item codec of each metric\<close>

definition sortedComplexityFunctions :: "string cmp \<Rightarrow> 'a metric_item_scheme \<Rightarrow> complexity_function list option" where
  "sortedComplexityFunctions lc item = map_option (js_sort (compareComplexityFunction lc)) (mi_perFunction item)"

fun formatItem :: "string cmp \<Rightarrow> metric \<Rightarrow> 'a metric_item_scheme \<Rightarrow> metric_item" where
  "formatItem lc MessageCount item =
     (case mi_messagesFingerprint item of
        None \<Rightarrow> count_item (mi_count item)
      | Some f \<Rightarrow> (count_item (mi_count item))\<lparr>mi_messagesFingerprint := Some f\<rparr>)"
| "formatItem lc EffectiveLineCount item =
     (case mi_lines item of
        None \<Rightarrow> count_item (mi_count item)
      | Some n \<Rightarrow> (count_item (mi_count item))\<lparr>mi_lines := Some n\<rparr>)"
| "formatItem lc ComplexitySeverity item =
     (let perFunction = sortedComplexityFunctions lc item;
          maxComplexity = maxComplexityFor perFunction
      in case (perFunction, maxComplexity) of
           (Some fs, Some m) \<Rightarrow>
             (count_item (mi_count item))\<lparr>mi_maxComplexity := Some m, mi_perFunction := Some fs\<rparr>
         | _ \<Rightarrow> count_item (mi_count item))"

datatype item_failure =
    OnlyValidFor (if_path: string) (if_field: string) (if_metric: metric)
  | RequiredFor (if_path: string) (if_field: string) (if_metric: metric)
  | PerFunctionLength (if_path: string)
  | MaxComplexityMismatch (if_path: string)

definition fail_if :: "bool \<Rightarrow> 'f \<Rightarrow> 'f list" where
  "fail_if b f = (if b then [f] else [])"

lemma fail_if_Nil [simp]: "fail_if b f = [] \<longleftrightarrow> \<not> b"
  by (simp add: fail_if_def)

lemma set_fail_if [simp]: "set (fail_if b f) = (if b then {f} else {})"
  by (simp add: fail_if_def)

text \<open>The failures pushed, in the order of the tests.\<close>

fun validateItem :: "string \<Rightarrow> metric \<Rightarrow> 'a metric_item_scheme \<Rightarrow> item_failure list" where
  "validateItem path MessageCount item =
     fail_if (mi_lines item \<noteq> None) (OnlyValidFor path ''lines'' EffectiveLineCount)
     @ fail_if (mi_maxComplexity item \<noteq> None) (OnlyValidFor path ''maxComplexity'' ComplexitySeverity)
     @ fail_if (mi_perFunction item \<noteq> None) (OnlyValidFor path ''perFunction'' ComplexitySeverity)"
| "validateItem path EffectiveLineCount item =
     fail_if (mi_lines item = None) (RequiredFor path ''lines'' EffectiveLineCount)
     @ fail_if (mi_maxComplexity item \<noteq> None) (OnlyValidFor path ''maxComplexity'' ComplexitySeverity)
     @ fail_if (mi_perFunction item \<noteq> None) (OnlyValidFor path ''perFunction'' ComplexitySeverity)
     @ fail_if (mi_messagesFingerprint item \<noteq> None) (OnlyValidFor path ''messagesFingerprint'' MessageCount)"
| "validateItem path ComplexitySeverity item =
     fail_if (mi_maxComplexity item = None) (RequiredFor path ''maxComplexity'' ComplexitySeverity)
     @ fail_if (mi_perFunction item = None) (RequiredFor path ''perFunction'' ComplexitySeverity)
     @ fail_if (mi_lines item \<noteq> None) (OnlyValidFor path ''lines'' EffectiveLineCount)
     @ fail_if (mi_messagesFingerprint item \<noteq> None) (OnlyValidFor path ''messagesFingerprint'' MessageCount)
     @ (case mi_perFunction item of
          None \<Rightarrow> []
        | Some fs \<Rightarrow> fail_if (int (length fs) \<noteq> mi_count item) (PerFunctionLength path))
     @ (case maxComplexityFor (mi_perFunction item) of
          None \<Rightarrow> []
        | Some m \<Rightarrow> fail_if (mi_maxComplexity item \<noteq> Some m) (MaxComplexityMismatch path))"

text \<open>An item as the JSON object that the formatter writes.\<close>

definition opt_field :: "string \<Rightarrow> ('a \<Rightarrow> jsval) \<Rightarrow> 'a option \<Rightarrow> (string \<times> jsval) list" where
  "opt_field k f v = (case v of None \<Rightarrow> [] | Some x \<Rightarrow> [(k, f x)])"

definition function_json :: "complexity_function \<Rightarrow> jsval" where
  "function_json f = JObj [(''line'', JInt (cf_line f)), (''label'', JStr (cf_label f)), (''complexity'', JInt (cf_complexity f))]"

definition item_json :: "metric_item \<Rightarrow> jsval" where
  "item_json item = JObj
     ([(''count'', JInt (mi_count item))]
      @ opt_field ''lines'' JInt (mi_lines item)
      @ opt_field ''maxComplexity'' JInt (mi_maxComplexity item)
      @ opt_field ''perFunction'' (\<lambda>fs. JArr (map function_json fs)) (mi_perFunction item)
      @ opt_field ''messagesFingerprint'' JStr (mi_messagesFingerprint item))"

section \<open>Merging two items of equal count\<close>

datatype meet_failure =
    LinesNeededOnBothSides string
  | ComplexityPayloadsDiffer string

text \<open>The lower fingerprint wins; \<open><\<close> on strings is the code unit order.\<close>

definition deterministicMessagesFingerprint :: "string option \<Rightarrow> string option \<Rightarrow> string option" where
  "deterministicMessagesFingerprint l r =
     (if l = r then l
      else case (l, r) of
             (None, _) \<Rightarrow> r
           | (_, None) \<Rightarrow> l
           | (Some a, Some b) \<Rightarrow> if codeUnitCompare a b < 0 then Some a else Some b)"

fun meetSameCountItem ::
    "string cmp \<Rightarrow> metric \<Rightarrow> string \<Rightarrow> metric_item \<Rightarrow> metric_item \<Rightarrow> meet_failure + metric_item \<times> bool" where
  "meetSameCountItem lc MessageCount path left right =
     (let fingerprint = deterministicMessagesFingerprint (mi_messagesFingerprint left) (mi_messagesFingerprint right)
      in Inr (case fingerprint of
                None \<Rightarrow> count_item (mi_count left)
              | Some f \<Rightarrow> (count_item (mi_count left))\<lparr>mi_messagesFingerprint := Some f\<rparr>,
              mi_messagesFingerprint left \<noteq> mi_messagesFingerprint right))"
| "meetSameCountItem lc EffectiveLineCount path left right =
     (case (mi_lines left, mi_lines right) of
        (Some l, Some r) \<Rightarrow> Inr ((count_item (mi_count left))\<lparr>mi_lines := Some (min l r)\<rparr>, l \<noteq> r)
      | _ \<Rightarrow> Inl (LinesNeededOnBothSides path))"
| "meetSameCountItem lc ComplexitySeverity path left right =
     (let formattedLeft = formatItem lc ComplexitySeverity left
      in if sameCanonicalValue (item_json formattedLeft) (item_json (formatItem lc ComplexitySeverity right))
         then Inr (formattedLeft, False)
         else Inl (ComplexityPayloadsDiffer path))"

section \<open>Comparing a collected item with its committed counterpart\<close>

record item_context =
  ic_ratchet :: ratchet_config
  ic_path :: string
  ic_baselineItem :: "metric_item option"
  ic_current :: current_item

record item_comparison =
  co_regression :: "regression option"
  co_improvement :: "improvement option"
  co_info :: "info option"

definition no_change :: item_comparison where
  "no_change = \<lparr>co_regression = None, co_improvement = None, co_info = None\<rparr>"

definition baseline_count :: "item_context \<Rightarrow> int" where
  "baseline_count c = (case ic_baselineItem c of None \<Rightarrow> 0 | Some b \<Rightarrow> mi_count b)"

text \<open>The fields that every delta starts from.\<close>

definition base_delta :: "item_context \<Rightarrow> 'r \<Rightarrow> 'r delta" where
  "base_delta c reason =
     \<lparr>dl_testId = rc_id (ic_ratchet c), dl_ruleId = rc_ruleId (ic_ratchet c), dl_path = ic_path c,
      dl_baselineCount = baseline_count c, dl_currentCount = mi_count (ic_current c),
      dl_baselineLines = None, dl_currentLines = None, dl_baselineComplexity = None,
      dl_currentComplexity = None, dl_line = None, dl_firstMessage = None, dl_firstMessageId = None,
      dl_reason = reason\<rparr>"

record path_payload =
  pp_currentComplexity :: "int option"
  pp_currentLines :: "int option"
  pp_firstMessage :: "string option"
  pp_firstMessageId :: "string option"
  pp_line :: "int option"

definition linePayload :: "int option \<Rightarrow> path_payload" where
  "linePayload line = \<lparr>pp_currentComplexity = None, pp_currentLines = None, pp_firstMessage = None,
     pp_firstMessageId = None, pp_line = line\<rparr>"

definition messageContextPayload :: "item_context \<Rightarrow> path_payload" where
  "messageContextPayload c =
     (if ci_firstMessage (ic_current c) = None then linePayload None
      else (linePayload None)\<lparr>pp_firstMessage := ci_firstMessage (ic_current c),
             pp_firstMessageId := ci_firstMessageId (ic_current c)\<rparr>)"

definition with_payload :: "regression \<Rightarrow> path_payload \<Rightarrow> regression" where
  "with_payload d p = d\<lparr>dl_currentComplexity := pp_currentComplexity p, dl_currentLines := pp_currentLines p,
     dl_firstMessage := pp_firstMessage p, dl_firstMessageId := pp_firstMessageId p, dl_line := pp_line p\<rparr>"

definition highestComplexityFunction :: "current_item \<Rightarrow> complexity_function option" where
  "highestComplexityFunction current = (case mi_perFunction current of
       None \<Rightarrow> None
     | Some fs \<Rightarrow> foldl (\<lambda>best entry. case best of
           None \<Rightarrow> Some entry
         | Some b \<Rightarrow> if cf_complexity entry > cf_complexity b then Some entry else best) None fs)"

definition countIncreaseRegression ::
    "item_context \<Rightarrow> path_payload \<Rightarrow> path_payload \<Rightarrow> regression option" where
  "countIncreaseRegression c newPathPayload existingPathPayload =
     (if mi_count (ic_current c) \<le> baseline_count c then None
      else if baseline_count c = 0 then Some (with_payload (base_delta c NewPath) newPathPayload)
      else Some (with_payload (base_delta c IncreasedCount) existingPathPayload))"

definition countDecreaseImprovement :: "item_context \<Rightarrow> improvement option" where
  "countDecreaseImprovement c =
     (if mi_count (ic_current c) \<ge> baseline_count c then None else Some (base_delta c LowerCount))"

definition countComparison ::
    "item_context \<Rightarrow> path_payload \<Rightarrow> path_payload \<Rightarrow> item_comparison option" where
  "countComparison c newPathPayload existingPathPayload =
     (case countIncreaseRegression c newPathPayload existingPathPayload of
        Some r \<Rightarrow> Some (no_change\<lparr>co_regression := Some r\<rparr>)
      | None \<Rightarrow>
          (case countDecreaseImprovement c of
             None \<Rightarrow> None
           | Some i \<Rightarrow> Some (no_change\<lparr>co_improvement := Some i\<rparr>)))"

definition equalCountMessageSwapInfo :: "item_context \<Rightarrow> info option" where
  "equalCountMessageSwapInfo c =
     (if rc_metric (ic_ratchet c) \<noteq> MessageCount then None
      else if mi_count (ic_current c) \<noteq> baseline_count c then None
      else case (Option.bind (ic_baselineItem c) mi_messagesFingerprint, mi_messagesFingerprint (ic_current c)) of
             (Some b, Some f) \<Rightarrow> if f = b then None else Some (base_delta c EqualCountMessageSwap)
           | _ \<Rightarrow> None)"

definition compareMessageCountItem :: "item_context \<Rightarrow> item_comparison" where
  "compareMessageCountItem c =
     (let messagePayload = (messageContextPayload c)\<lparr>pp_line := ci_firstLine (ic_current c)\<rparr>
      in case countComparison c messagePayload messagePayload of
           Some result \<Rightarrow> result
         | None \<Rightarrow> no_change\<lparr>co_info := equalCountMessageSwapInfo c\<rparr>)"

definition increasedLinesComparison :: "item_context \<Rightarrow> int option \<Rightarrow> int option \<Rightarrow> item_comparison option" where
  "increasedLinesComparison c baselineLines currentLines =
     (case (baselineLines, currentLines) of
        (Some b, Some n) \<Rightarrow>
          if n \<le> b then None
          else Some (no_change\<lparr>co_regression := Some ((base_delta c IncreasedLines)
                 \<lparr>dl_baselineLines := Some b, dl_currentLines := Some n,
                  dl_line := ci_firstLine (ic_current c)\<rparr>)\<rparr>)
      | _ \<Rightarrow> None)"

definition lowerLinesComparison :: "item_context \<Rightarrow> int option \<Rightarrow> int option \<Rightarrow> item_comparison" where
  "lowerLinesComparison c baselineLines currentLines =
     (case (baselineLines, currentLines) of
        (Some b, Some n) \<Rightarrow>
          if n \<ge> b then no_change
          else no_change\<lparr>co_improvement := Some ((base_delta c LowerLines)
                 \<lparr>dl_baselineLines := Some b, dl_currentLines := Some n\<rparr>)\<rparr>
      | _ \<Rightarrow> no_change)"

definition compareEffectiveLineCountItem :: "item_context \<Rightarrow> item_comparison" where
  "compareEffectiveLineCountItem c =
     (let baselineLines = Option.bind (ic_baselineItem c) mi_lines;
          currentLines = mi_lines (ic_current c)
      in case increasedLinesComparison c baselineLines currentLines of
           Some r \<Rightarrow> r
         | None \<Rightarrow>
             (case countComparison c
                ((linePayload (ci_firstLine (ic_current c)))\<lparr>pp_currentLines := currentLines\<rparr>)
                (linePayload (ci_firstLine (ic_current c))) of
                Some r \<Rightarrow> r
              | None \<Rightarrow> lowerLinesComparison c baselineLines currentLines))"

definition increasedComplexityComparison :: "item_context \<Rightarrow> complexity_delta option \<Rightarrow> item_comparison option" where
  "increasedComplexityComparison c change =
     (case change of
        None \<Rightarrow> None
      | Some d \<Rightarrow>
          if \<not> cd_regression d then None
          else Some (no_change\<lparr>co_regression := Some ((base_delta c IncreasedComplexity)
                 \<lparr>dl_baselineComplexity := Some (cd_baselineComplexity d),
                  dl_currentComplexity := Some (cd_currentComplexity d), dl_line := cd_line d\<rparr>)\<rparr>))"

definition lowerComplexityComparison :: "item_context \<Rightarrow> complexity_delta option \<Rightarrow> item_comparison" where
  "lowerComplexityComparison c change =
     (case change of
        None \<Rightarrow> no_change
      | Some d \<Rightarrow> no_change\<lparr>co_improvement := Some ((base_delta c LowerComplexity)
            \<lparr>dl_baselineComplexity := Some (cd_baselineComplexity d),
             dl_currentComplexity := Some (cd_currentComplexity d)\<rparr>)\<rparr>)"

definition compareComplexitySeverityItem :: "string cmp \<Rightarrow> item_context \<Rightarrow> item_comparison" where
  "compareComplexitySeverityItem lc c =
     (let change = complexityDelta lc (ic_baselineItem c) (ic_current c)
      in case increasedComplexityComparison c change of
           Some r \<Rightarrow> r
         | None \<Rightarrow>
             (let maxEntry = highestComplexityFunction (ic_current c);
                  currentComplexity = or_else (map_option cf_complexity maxEntry) (mi_maxComplexity (ic_current c));
                  line = or_else (map_option cf_line maxEntry) (ci_firstLine (ic_current c))
              in case countComparison c
                   ((linePayload line)\<lparr>pp_currentComplexity := currentComplexity\<rparr>)
                   (linePayload (ci_firstLine (ic_current c))) of
                   Some r \<Rightarrow> r
                 | None \<Rightarrow> lowerComplexityComparison c change))"

fun compareItem :: "string cmp \<Rightarrow> metric \<Rightarrow> item_context \<Rightarrow> item_comparison" where
  "compareItem lc MessageCount c = compareMessageCountItem c"
| "compareItem lc EffectiveLineCount c = compareEffectiveLineCountItem c"
| "compareItem lc ComplexitySeverity c = compareComplexitySeverityItem lc c"

end
