(* ===== verification/BaselineSpec.thy ===== *)
theory BaselineSpec
  imports GroupParse Metrics
begin

text \<open>
  The ratchet baseline as a document family: \<open>kernel/metrics-parse.ts\<close>,
  \<open>kernel/baseline-item-parse.ts\<close>, \<open>kernel/baseline-spec-parse.ts\<close>, \<open>kernel/baseline-constants.ts\<close>,
  \<open>kernel/baseline-hash.ts\<close> and \<open>kernel/baseline-spec.ts\<close>.

  A parser that pushes on a \<open>failures\<close> array returns its result with the failures it pushed.
  \<open>sha\<close> is the hexadecimal SHA-256 digest of \<open>node:crypto\<close>. Regular expressions are predicates
  on the split string.
\<close>

section \<open>Patterns\<close>

definition kebab :: "string \<Rightarrow> bool" where
  "kebab s \<longleftrightarrow> list_all (\<lambda>w. w \<noteq> [] \<and> list_all is_lower_alnum w) (js_split (CHR ''-'') s)"

definition rule_segment :: "string \<Rightarrow> bool" where
  "rule_segment s \<longleftrightarrow> s \<noteq> [] \<and> is_lower_alnum (hd s) \<and> list_all (\<lambda>c. is_lower_alnum c \<or> c = CHR ''-'') s"

definition bare_rule :: "string \<Rightarrow> bool" where
  "bare_rule s \<longleftrightarrow> rule_segment s \<and> \<not> is_digit (hd s)"

definition namespaced_rule :: "string \<Rightarrow> bool" where
  "namespaced_rule s =
     (let parts = js_split (CHR ''/'') (if s \<noteq> [] \<and> hd s = CHR ''@'' then tl s else s)
      in length parts \<ge> 2 \<and> list_all rule_segment parts)"

definition is_ratchet_id :: "string \<Rightarrow> bool" where
  "is_ratchet_id s \<longleftrightarrow> (case strip_prefix ''ratchet/'' s of None \<Rightarrow> False | Some r \<Rightarrow> kebab r)"

definition is_baseline_rule_id :: "string \<Rightarrow> bool" where
  "is_baseline_rule_id s \<longleftrightarrow> bare_rule s \<or> namespaced_rule s"

definition is_hex :: "char \<Rightarrow> bool" where
  "is_hex c \<longleftrightarrow> is_digit c \<or> c \<in> set ''abcdef''"

definition is_sha256 :: "string \<Rightarrow> bool" where
  "is_sha256 s \<longleftrightarrow> (case strip_prefix ''sha256:'' s of
     None \<Rightarrow> False | Some h \<Rightarrow> length h = 64 \<and> list_all is_hex h)"

section \<open>Parsing metric items\<close>

fun isNonNegativeInteger :: "jsval \<Rightarrow> bool" where
  "isNonNegativeInteger (JInt i) = (0 \<le> i)"
| "isNonNegativeInteger _ = False"

fun the_int :: "jsval \<Rightarrow> int" where
  "the_int (JInt i) = i"
| "the_int _ = 0"

definition non_negative_field :: "jsval option \<Rightarrow> int option" where
  "non_negative_field v = (case v of
     Some x \<Rightarrow> if isNonNegativeInteger x then Some (the_int x) else None | None \<Rightarrow> None)"

definition sha_field :: "jsval option \<Rightarrow> string option" where
  "sha_field v = (case v of Some (JStr s) \<Rightarrow> if is_sha256 s then Some s else None | _ \<Rightarrow> None)"

definition parseMessagesFingerprint :: "jsval option \<Rightarrow> string \<Rightarrow> string option \<times> string list" where
  "parseMessagesFingerprint value path =
     (if value = None then (None, [])
      else case sha_field value of
             Some s \<Rightarrow> (Some s, [])
           | None \<Rightarrow> (None, [path @ ''.messagesFingerprint must be a sha256 hash'']))"

definition parseComplexityFunctionLine :: "jsval option \<Rightarrow> string \<Rightarrow> int option \<times> string list" where
  "parseComplexityFunctionLine value path = (case non_negative_field value of
       Some i \<Rightarrow> (Some i, [])
     | None \<Rightarrow> (None, [path @ ''.line must be a non-negative integer'']))"

definition parseComplexityFunctionLabel :: "jsval option \<Rightarrow> string \<Rightarrow> string option \<times> string list" where
  "parseComplexityFunctionLabel value path = (case value of
       Some (JStr s) \<Rightarrow> if s = [] then (None, [path @ ''.label must be a non-empty string'']) else (Some s, [])
     | _ \<Rightarrow> (None, [path @ ''.label must be a non-empty string'']))"

definition parseComplexityFunctionComplexity :: "jsval option \<Rightarrow> string \<Rightarrow> int option \<times> string list" where
  "parseComplexityFunctionComplexity value path = (case non_negative_field value of
       Some i \<Rightarrow> (Some i, [])
     | None \<Rightarrow> (None, [path @ ''.complexity must be a non-negative integer'']))"

definition parseComplexityFunction :: "jsval \<Rightarrow> string \<Rightarrow> complexity_function option \<times> string list" where
  "parseComplexityFunction value path =
     (case as_object value of
        None \<Rightarrow> (None, [path @ '' must be an object''])
      | Some r \<Rightarrow>
          (let (line, f1) = parseComplexityFunctionLine (map_of r ''line'') path;
               (label, f2) = parseComplexityFunctionLabel (map_of r ''label'') path;
               (complexity, f3) = parseComplexityFunctionComplexity (map_of r ''complexity'') path
           in (case (line, label, complexity) of
                 (Some l, Some s, Some c) \<Rightarrow> Some \<lparr>cf_line = l, cf_label = s, cf_complexity = c\<rparr>
               | _ \<Rightarrow> None, f1 @ f2 @ f3)))"

fun complexity_functions_loop :: "nat \<Rightarrow> string \<Rightarrow> jsval list \<Rightarrow> complexity_function list \<times> string list" where
  "complexity_functions_loop index path [] = ([], [])"
| "complexity_functions_loop index path (entry # rest) =
     (let (item, f1) = parseComplexityFunction entry (path @ ''['' @ show_nat index @ '']'');
          (items, f2) = complexity_functions_loop (Suc index) path rest
      in (case item of None \<Rightarrow> items | Some i \<Rightarrow> i # items, f1 @ f2))"

definition parseComplexityFunctions :: "jsval \<Rightarrow> string \<Rightarrow> complexity_function list option \<times> string list" where
  "parseComplexityFunctions value path = (case value of
       JArr es \<Rightarrow> (let (items, fs) = complexity_functions_loop 0 path es in (Some items, fs))
     | _ \<Rightarrow> (None, [path @ '' must be an array'']))"

text \<open>The metric fields as an item whose count is still 0.\<close>

definition parseMetricFields :: "(string \<times> jsval) list \<Rightarrow> string \<Rightarrow> metric_item option \<times> string list" where
  "parseMetricFields raw path =
     (let lines = map_of raw ''lines''; maxComplexity = map_of raw ''maxComplexity''
      in if lines \<noteq> None \<and> non_negative_field lines = None
         then (None, [path @ ''.lines must be a non-negative integer''])
         else if maxComplexity \<noteq> None \<and> non_negative_field maxComplexity = None
         then (None, [path @ ''.maxComplexity must be a non-negative integer''])
         else (let (fingerprint, f1) = parseMessagesFingerprint (map_of raw ''messagesFingerprint'') path;
                   (perFunction, f2) = (case map_of raw ''perFunction'' of
                       None \<Rightarrow> (None, [])
                     | Some v \<Rightarrow> parseComplexityFunctions v (path @ ''.perFunction''))
               in (Some \<lparr>mi_count = 0, mi_lines = non_negative_field lines,
                         mi_maxComplexity = non_negative_field maxComplexity,
                         mi_perFunction = perFunction, mi_messagesFingerprint = fingerprint\<rparr>, f1 @ f2)))"

definition isNormalizedLintRatchetPath :: "string \<Rightarrow> bool" where
  "isNormalizedLintRatchetPath v \<longleftrightarrow> v \<noteq> [] \<and> CHR 0x5C \<notin> set v \<and> take 2 v \<noteq> ''./''"

definition parseLintRatchetBaselineItem :: "string \<Rightarrow> jsval \<Rightarrow> string \<Rightarrow> metric_item option \<times> string list" where
  "parseLintRatchetBaselineItem itemPath rawItem path =
     (if \<not> isNormalizedLintRatchetPath itemPath then (None, [path @ '': path must be normalized''])
      else case as_object rawItem of
             None \<Rightarrow> (None, [path @ '' must be an object''])
           | Some raw \<Rightarrow>
               (case non_negative_field (map_of raw ''count'') of
                  None \<Rightarrow> (None, [path @ ''.count must be a non-negative integer''])
                | Some n \<Rightarrow>
                    (let (metricFields, fs) = parseMetricFields raw path
                     in (map_option (\<lambda>m. m\<lparr>mi_count := n\<rparr>) metricFields, fs))))"

definition relativeLintRatchetItemFailure :: "string \<Rightarrow> string \<Rightarrow> string" where
  "relativeLintRatchetItemFailure location failure =
     (case strip_prefix (location @ ''.'') failure of
        Some r \<Rightarrow> r
      | None \<Rightarrow> (case strip_prefix (location @ '': '') failure of Some r \<Rightarrow> r | None \<Rightarrow> failure))"

section \<open>Parsing group metadata\<close>

fun string_array_loop :: "string \<Rightarrow> jsval list \<Rightarrow> string list option \<times> string list" where
  "string_array_loop field [] = (Some [], [])"
| "string_array_loop field (JStr s # rest) =
     (let (r, fs) = string_array_loop field rest in (map_option ((#) s) r, fs))"
| "string_array_loop field (_ # rest) = (None, [field @ '' must contain only strings''])"

definition parseStringArray :: "jsval option \<Rightarrow> string \<Rightarrow> string list option \<times> string list" where
  "parseStringArray value field = (case value of
       Some (JArr es) \<Rightarrow> string_array_loop field es
     | _ \<Rightarrow> (None, [field @ '' must be an array'']))"

fun rule_options_loop :: "jsval list \<Rightarrow> jsval list option \<times> string list" where
  "rule_options_loop [] = (Some [], [])"
| "rule_options_loop (entry # rest) =
     (if \<not> isJsonValue entry then (None, [''ruleOptions must contain only JSON values''])
      else let (r, fs) = rule_options_loop rest in (map_option ((#) (normalizeJsonValue entry)) r, fs))"

definition parseRuleOptions :: "jsval option \<Rightarrow> jsval list option \<times> string list" where
  "parseRuleOptions value = (case value of
       Some (JArr es) \<Rightarrow> rule_options_loop es
     | _ \<Rightarrow> (None, [''ruleOptions must be an array'']))"

definition parseRuleId :: "(string \<times> jsval) list \<Rightarrow> string option \<times> string list" where
  "parseRuleId value = (case map_of value ''ruleId'' of
       Some (JStr s) \<Rightarrow> if is_baseline_rule_id s then (Some s, [])
                       else (None, [''ruleId must be a bare or namespaced ESLint rule id''])
     | _ \<Rightarrow> (None, [''ruleId must be a bare or namespaced ESLint rule id'']))"

definition parseMode :: "(string \<times> jsval) list \<Rightarrow> ratchet_mode option \<times> string list" where
  "parseMode value =
     (if map_of value ''mode'' = Some (JStr ''no-new'') then (Some NoNew, []) else (None, [''mode is unknown'']))"

definition metric_of_json :: "jsval option \<Rightarrow> metric option" where
  "metric_of_json v =
     (if v = Some (JStr ''complexity-severity'') then Some ComplexitySeverity
      else if v = Some (JStr ''effective-line-count'') then Some EffectiveLineCount
      else if v = Some (JStr ''message-count'') then Some MessageCount
      else None)"

definition parseMetric :: "(string \<times> jsval) list \<Rightarrow> metric option \<times> string list" where
  "parseMetric value = (case metric_of_json (map_of value ''metric'') of
       Some m \<Rightarrow> (Some m, []) | None \<Rightarrow> (None, [''metric is unknown'']))"

definition parseConfigHash :: "(string \<times> jsval) list \<Rightarrow> string option \<times> string list" where
  "parseConfigHash value = (case sha_field (map_of value ''configHash'') of
       Some s \<Rightarrow> (Some s, []) | None \<Rightarrow> (None, [''configHash must be a sha256 hash'']))"

definition parseRuleSourceHash :: "(string \<times> jsval) list \<Rightarrow> string option \<times> string list" where
  "parseRuleSourceHash value =
     (let parsed = sha_field (map_of value ''ruleSourceHash'')
      in (parsed, fail_if (map_of value ''ruleSourceHash'' \<noteq> None \<and> parsed = None)
                    ''ruleSourceHash must be a sha256 hash''))"

record meta_parts =
  pm_ruleId :: "string option"
  pm_mode :: "ratchet_mode option"
  pm_metric :: "metric option"
  pm_configHash :: "string option"
  pm_ruleSourceHash :: "string option"
  pm_files :: "string list option"
  pm_ignores :: "string list option"
  pm_ruleOptions :: "jsval list option"

definition parseGroupMetaParts :: "(string \<times> jsval) list \<Rightarrow> meta_parts \<times> string list" where
  "parseGroupMetaParts value =
     (let (ruleId, f1) = parseRuleId value;
          (mode, f2) = parseMode value;
          (metric, f3) = parseMetric value;
          (configHash, f4) = parseConfigHash value;
          (ruleSourceHash, f5) = parseRuleSourceHash value;
          (files, f6) = parseStringArray (map_of value ''files'') ''files'';
          (ignores, f7) = parseStringArray (map_of value ''ignores'') ''ignores'';
          (ruleOptions, f8) = parseRuleOptions (map_of value ''ruleOptions'')
      in (\<lparr>pm_ruleId = ruleId, pm_mode = mode, pm_metric = metric, pm_configHash = configHash,
           pm_ruleSourceHash = ruleSourceHash, pm_files = files, pm_ignores = ignores,
           pm_ruleOptions = ruleOptions\<rparr>,
          fail_if (map_of value ''files'' = None) ''files is required''
          @ fail_if (map_of value ''ruleOptions'' = None) ''ruleOptions is required''
          @ f1 @ f2 @ f3 @ f4 @ f5 @ f6 @ f7 @ f8))"

definition completeGroupMeta :: "meta_parts \<Rightarrow> group_meta option" where
  "completeGroupMeta p =
     Option.bind (pm_ruleId p) (\<lambda>ruleId.
     Option.bind (pm_mode p) (\<lambda>mode.
     Option.bind (pm_metric p) (\<lambda>metric.
     Option.bind (pm_configHash p) (\<lambda>configHash.
     Option.bind (pm_files p) (\<lambda>files.
     Option.bind (pm_ignores p) (\<lambda>ignores.
     Option.bind (pm_ruleOptions p) (\<lambda>ruleOptions.
       Some \<lparr>gm_ruleId = ruleId, gm_mode = mode, gm_metric = metric, gm_files = files,
             gm_ignores = ignores, gm_ruleOptions = ruleOptions, gm_configHash = configHash,
             gm_ruleSourceHash = (case pm_ruleSourceHash p of None \<Rightarrow> [] | Some h \<Rightarrow> h)\<rparr>)))))))"

definition parseLintRatchetGroupMeta :: "string \<Rightarrow> (string \<times> jsval) list \<Rightarrow> group_meta parsed" where
  "parseLintRatchetGroupMeta testId raw =
     (let (parts, fs) = parseGroupMetaParts raw;
          failures = fail_if (\<not> is_ratchet_id testId) ''id must match ratchet/<name>'' @ fs
      in case (completeGroupMeta parts, failures) of
           (Some meta, []) \<Rightarrow> ParseOk meta []
         | (_, []) \<Rightarrow> ParseErr [''metadata is invalid'']
         | _ \<Rightarrow> ParseErr failures)"

section \<open>The spec\<close>

record version_policy =
  vp_writeVersion :: int
  vp_acceptedVersions :: "int list"

definition createLintRatchetBaselineVersionPolicy :: "int \<Rightarrow> version_policy" where
  "createLintRatchetBaselineVersionPolicy w = \<lparr>vp_writeVersion = w, vp_acceptedVersions = [1, 2]\<rparr>"

definition default_version_policy :: version_policy where
  "default_version_policy = createLintRatchetBaselineVersionPolicy 2"

definition lintRatchetBaselineRegenerateForVersion :: "int \<Rightarrow> string \<Rightarrow> string option" where
  "lintRatchetBaselineRegenerateForVersion version updateCommand =
     (if version = 2 then Some updateCommand else None)"

record workflow_vocabulary =
  wv_updateCommand :: string
  wv_regressionUpdateCommand :: string
  wv_debtAcceptanceCommand :: string
  wv_installMergeDriverCommand :: string
  wv_restoreBaselineOursCommand :: "string \<Rightarrow> string"
  wv_trendAllCommand :: string

definition DEFAULT_BASELINE_FILENAME :: string where
  "DEFAULT_BASELINE_FILENAME = ''lint-ratchet.baseline.json''"

definition lowerCountItem :: "metric_item \<Rightarrow> metric_item \<Rightarrow> metric_item option" where
  "lowerCountItem left right =
     (if mi_count left < mi_count right then Some left
      else if mi_count right < mi_count left then Some right
      else None)"

definition meet_failure_text :: "meet_failure \<Rightarrow> string" where
  "meet_failure_text f = (case f of
       LinesNeededOnBothSides path \<Rightarrow> path @ '': effective-line-count items need lines on both sides''
     | ComplexityPayloadsDiffer path \<Rightarrow> path @ '': equal-count complexity-severity payloads differ'')"

definition mergeSharedItem ::
    "string cmp \<Rightarrow> string \<Rightarrow> group_meta \<Rightarrow> string \<Rightarrow> metric_item \<Rightarrow> metric_item \<Rightarrow> metric_item outcome" where
  "mergeSharedItem lc testId m path cur oth =
     (case lowerCountItem cur oth of
        Some lower \<Rightarrow> \<lparr>oc_item = Some lower, oc_failure = None, oc_truthUp = True\<rparr>
      | None \<Rightarrow>
          (case meetSameCountItem lc (gm_metric m) (testId @ ''.items.'' @ path) cur oth of
             Inl f \<Rightarrow> merge_fail (meet_failure_text f)
           | Inr (item, truthUp) \<Rightarrow> \<lparr>oc_item = Some item, oc_failure = None, oc_truthUp = truthUp\<rparr>))"

definition mergeOneSidedItem ::
    "string \<Rightarrow> group_meta \<Rightarrow> string \<Rightarrow> metric_item \<Rightarrow> metric_item option \<Rightarrow> metric_item outcome" where
  "mergeOneSidedItem testId m path present base = (if base = None then keep present else drop_key True)"

definition parseItem :: "string \<Rightarrow> string option \<Rightarrow> jsval \<Rightarrow> (string \<times> metric_item) parsed" where
  "parseItem testId path raw =
     (case path of
        None \<Rightarrow> ParseErr [testId @ ''.items path is required'']
      | Some p \<Rightarrow>
          (let location = testId @ ''.items.'' @ p;
               (item, failures) = parseLintRatchetBaselineItem p raw location
           in case (item, failures) of
                (Some i, []) \<Rightarrow> ParseOk (p, i) []
              | _ \<Rightarrow> ParseErr (map (relativeLintRatchetItemFailure location)
                       (if failures = [] then [''item is invalid''] else failures))))"

definition strings_json :: "string list \<Rightarrow> jsval" where
  "strings_json ss = JArr (map JStr ss)"

text \<open>The metadata object itself, and as the formatter writes it.\<close>

definition meta_members :: "'a group_meta_scheme \<Rightarrow> (string \<times> jsval) list" where
  "meta_members m =
     [(''ruleId'', JStr (gm_ruleId m)), (''mode'', JStr (mode_name (gm_mode m))),
      (''metric'', JStr (metric_name (gm_metric m))), (''files'', strings_json (gm_files m)),
      (''ignores'', strings_json (gm_ignores m)), (''ruleOptions'', JArr (gm_ruleOptions m)),
      (''configHash'', JStr (gm_configHash m)), (''ruleSourceHash'', JStr (gm_ruleSourceHash m))]"

definition formatGroupMeta :: "group_meta \<Rightarrow> (string \<times> jsval) list" where
  "formatGroupMeta m = meta_members
     (m\<lparr>gm_files := normalizeStringList (gm_files m), gm_ignores := normalizeStringList (gm_ignores m),
        gm_ruleOptions := normalizeRuleOptions (gm_ruleOptions m)\<rparr>)"

definition baseline_remediation :: "workflow_vocabulary \<Rightarrow> string \<Rightarrow> remediation" where
  "baseline_remediation vocab baselineFile =
     \<lparr>rm_baselineFile = baselineFile, rm_installerCommand = wv_installMergeDriverCommand vocab,
      rm_restoreOursCommand = wv_restoreBaselineOursCommand vocab baselineFile,
      rm_updateCommand = wv_updateCommand vocab, rm_reconcileEntries = False\<rparr>"

definition lintRatchetBaselineSpec ::
    "string cmp \<Rightarrow> version_policy \<Rightarrow> workflow_vocabulary \<Rightarrow> string \<Rightarrow> (group_meta, metric_item) group_spec" where
  "lintRatchetBaselineSpec lc policy vocab baselineFile =
     \<lparr>gs_writeVersion = vp_writeVersion policy,
      gs_acceptedReadVersions = vp_acceptedVersions policy,
      gs_rootKey = TestsRoot,
      gs_regenerate = lintRatchetBaselineRegenerateForVersion (vp_writeVersion policy) (wv_updateCommand vocab),
      gs_preserveRegenerateOnFormat = True,
      gs_remediation = Some (baseline_remediation vocab baselineFile),
      gs_singleGroupId = None,
      gs_requireSortedKeysOnParse = False,
      gs_compareGroupKeys = compareByCodepoint,
      gs_compareItemKeys = compareByCodepoint,
      gs_parseGroupMeta = (\<lambda>testId raw _. parseLintRatchetGroupMeta testId raw),
      gs_formatGroupMeta = (\<lambda>_ m _ _. formatGroupMeta m),
      gs_sameGroupMeta = (\<lambda>l r. sameCanonicalValue (JObj (meta_members l)) (JObj (meta_members r))),
      gs_parseItem = parseItem,
      gs_formatItem = (\<lambda>_ _ item m. item_json (formatItem lc (gm_metric m) item)),
      gs_itemCount = mi_count,
      gs_mergeShared = mergeSharedItem lc,
      gs_mergeOneSided = mergeOneSidedItem\<rparr>"

section \<open>Baselines and grouped documents\<close>

definition positiveItemMap :: "(string \<times> metric_item) list \<Rightarrow> (string \<times> metric_item) list" where
  "positiveItemMap items = filter (\<lambda>(_, item). mi_count item > 0) items"

definition test_meta :: "baseline_test \<Rightarrow> group_meta" where
  "test_meta t = group_meta.truncate t"

definition lintRatchetBaselineToGrouped :: "ratchet_baseline \<Rightarrow> (group_meta, metric_item) grouped_baseline" where
  "lintRatchetBaselineToGrouped b =
     \<lparr>gb_version = bl_version b, gb_regenerate = bl_regenerate b,
      gb_groups = map (\<lambda>(testId, t). (testId, \<lparr>grp_meta = test_meta t, grp_items = positiveItemMap (bt_items t)\<rparr>))
                      (bl_tests b)\<rparr>"

definition baselineTestFromGroup :: "group_meta \<Rightarrow> (string \<times> metric_item) list \<Rightarrow> baseline_test" where
  "baselineTestFromGroup m items = group_meta.extend m (baseline_test.fields (positiveItemMap items))"

datatype baseline_error = UnsupportedVersion int | MissingHashFor string

definition lintRatchetBaselineFromGrouped ::
    "(group_meta, metric_item) grouped_baseline \<Rightarrow> version_policy \<Rightarrow> baseline_error + ratchet_baseline" where
  "lintRatchetBaselineFromGrouped b policy =
     (if gb_version b \<notin> set (vp_acceptedVersions policy) then Inl (UnsupportedVersion (gb_version b))
      else Inr \<lparr>bl_version = gb_version b, bl_regenerate = gb_regenerate b,
                bl_tests = map_from (map (\<lambda>(testId, g). (testId, baselineTestFromGroup (grp_meta g) (grp_items g)))
                                         (gb_groups b))\<rparr>)"

section \<open>Config hash\<close>

type_synonym hasher = "string \<Rightarrow> string"

definition ruleNamespace :: "string \<Rightarrow> string option" where
  "ruleNamespace ruleId =
     (if \<not> namespaced_rule ruleId then None
      else let parts = js_split (CHR ''/'') ruleId
           in if length parts \<ge> 3 \<and> hd parts \<noteq> [] \<and> hd (hd parts) = CHR ''@''
              then Some (hd parts @ ''/'' @ parts ! 1)
              else Some (hd parts))"

definition parser_profile_name :: "parser_profile \<Rightarrow> string" where
  "parser_profile_name p = (case p of MinimalTs \<Rightarrow> ''minimal-ts'' | TypeAwareTs \<Rightarrow> ''type-aware-ts'')"

definition ruleSourceHashInput :: "ratchet_config \<Rightarrow> (string \<times> jsval) list" where
  "ruleSourceHashInput config =
     (let profile = ratchetParserProfile config;
          field = (''parserProfile'', JStr (parser_profile_name profile))
      in case ratchetSource config of
           LocalSource \<Rightarrow>
             if profile = MinimalTs then []
             else [field, (''source'', JObj [(''kind'', JStr ''local'')])]
         | ThirdPartySource m \<Rightarrow>
             [field, (''source'', JObj [(''kind'', JStr ''third-party''), (''pluginModule'', JStr m)])]
         | CoreSource \<Rightarrow> [field, (''source'', JObj [(''kind'', JStr ''core'')])])"

definition configHashInput :: "ratchet_config \<Rightarrow> jsval" where
  "configHashInput config = JObj
     ([(''files'', strings_json (normalizeStringList (rc_files config))),
       (''ignores'', strings_json (normalizeStringList (rc_ignores config))),
       (''metric'', JStr (metric_name (rc_metric config))),
       (''mode'', JStr (mode_name (rc_mode config))),
       (''ruleId'', JStr (rc_ruleId config)),
       (''ruleOptions'', JArr (normalizeRuleOptions (rc_ruleOptions config)))]
      @ opt_field ''typeAwareProject'' JStr (rc_typeAwareProject config)
      @ ruleSourceHashInput config)"

definition duplicateScopeKey :: "ratchet_config \<Rightarrow> string" where
  "duplicateScopeKey config = stringify (JObj
     ([(''files'', strings_json (normalizeStringList (rc_files config))),
       (''ignores'', strings_json (normalizeStringList (rc_ignores config))),
       (''mode'', JStr (mode_name (rc_mode config))),
       (''ruleId'', JStr (rc_ruleId config)),
       (''ruleOptions'', JArr (normalizeRuleOptions (rc_ruleOptions config)))]
      @ ruleSourceHashInput config))"

definition computeLintRatchetConfigHash :: "hasher \<Rightarrow> ratchet_config \<Rightarrow> string" where
  "computeLintRatchetConfigHash sha config = ''sha256:'' @ sha (stringify (configHashInput config))"

definition computeCoreLintRatchetRuleSourceHash ::
    "hasher \<Rightarrow> ratchet_config \<Rightarrow> string \<Rightarrow> string \<Rightarrow> string option" where
  "computeCoreLintRatchetRuleSourceHash sha config eslintVersion typescriptEslintVersion =
     (if ratchetSource config \<noteq> CoreSource then None
      else Some (''sha256:'' @ sha (stringify (JObj
        [(''kind'', JStr ''core''), (''ruleId'', JStr (rc_ruleId config)),
         (''ruleOptions'', JArr (normalizeRuleOptions (rc_ruleOptions config))),
         (''eslintVersion'', JStr eslintVersion),
         (''typescriptEslintVersion'', JStr typescriptEslintVersion)]))))"

section \<open>Building a baseline\<close>

definition positiveMetricItems ::
    "string cmp \<Rightarrow> metric \<Rightarrow> (string \<times> current_item) list option \<Rightarrow> (string \<times> metric_item) list" where
  "positiveMetricItems lc m currentItems =
     map (\<lambda>(path, item). (path, formatItem lc m item))
       (filter (\<lambda>(_, item). mi_count item > 0)
         (key_sort compareByCodepoint (case currentItems of None \<Rightarrow> [] | Some is \<Rightarrow> is)))"

definition baselineTestFromConfig ::
    "string cmp \<Rightarrow> hasher \<Rightarrow> ratchet_config \<Rightarrow> (string \<times> current_item) list option \<Rightarrow> string \<Rightarrow> baseline_test" where
  "baselineTestFromConfig lc sha config currentItems ruleSourceHash =
     \<lparr>gm_ruleId = rc_ruleId config, gm_mode = rc_mode config, gm_metric = rc_metric config,
      gm_files = normalizeStringList (rc_files config), gm_ignores = normalizeStringList (rc_ignores config),
      gm_ruleOptions = normalizeRuleOptions (rc_ruleOptions config),
      gm_configHash = computeLintRatchetConfigHash sha config, gm_ruleSourceHash = ruleSourceHash,
      bt_items = positiveMetricItems lc (rc_metric config) currentItems\<rparr>"

fun build_tests ::
    "string cmp \<Rightarrow> hasher \<Rightarrow> ratchet_config list \<Rightarrow> current_by_id \<Rightarrow> (string \<times> string) list \<Rightarrow>
     (string \<times> baseline_test) list \<Rightarrow> baseline_error + (string \<times> baseline_test) list" where
  "build_tests lc sha [] currentById hashes tests = Inr tests"
| "build_tests lc sha (r # rs) currentById hashes tests =
     (case map_of hashes (rc_id r) of
        None \<Rightarrow> Inl (MissingHashFor (rc_id r))
      | Some h \<Rightarrow> build_tests lc sha rs currentById hashes
          (AList.update (rc_id r) (baselineTestFromConfig lc sha r (map_of currentById (rc_id r)) h) tests))"

definition buildLintRatchetBaseline ::
    "string cmp \<Rightarrow> hasher \<Rightarrow> ratchet_config list \<Rightarrow> current_by_id \<Rightarrow> (string \<times> string) list \<Rightarrow>
     workflow_vocabulary \<Rightarrow> version_policy \<Rightarrow> baseline_error + ratchet_baseline" where
  "buildLintRatchetBaseline lc sha ratchets currentById hashes vocab policy =
     (case build_tests lc sha ratchets currentById hashes [] of
        Inl e \<Rightarrow> Inl e
      | Inr tests \<Rightarrow> Inr \<lparr>bl_version = vp_writeVersion policy,
          bl_regenerate = map_option JStr
            (lintRatchetBaselineRegenerateForVersion (vp_writeVersion policy) (wv_updateCommand vocab)),
          bl_tests = tests\<rparr>)"

definition current_of_item :: "metric_item \<Rightarrow> current_item" where
  "current_of_item i = metric_item.extend i (current_item.fields None None None)"

definition currentByIdFromBaseline :: "ratchet_baseline \<Rightarrow> current_by_id" where
  "currentByIdFromBaseline b =
     map (\<lambda>(testId, t). (testId, map (\<lambda>(path, item). (path, current_of_item item)) (bt_items t))) (bl_tests b)"

definition formatLintRatchetBaseline ::
    "string cmp \<Rightarrow> ratchet_baseline \<Rightarrow> workflow_vocabulary \<Rightarrow> format_error + string" where
  "formatLintRatchetBaseline lc b vocab =
     formatGroupedBaseline (lintRatchetBaselineSpec lc default_version_policy vocab DEFAULT_BASELINE_FILENAME)
       (lintRatchetBaselineToGrouped b)"

section \<open>Concrete data for the witnesses\<close>

definition sample_meta :: "string \<Rightarrow> metric \<Rightarrow> group_meta" where
  "sample_meta ruleId m = \<lparr>gm_ruleId = ruleId, gm_mode = NoNew, gm_metric = m, gm_files = [''src/a.ts''],
     gm_ignores = [], gm_ruleOptions = [], gm_configHash = ''sha256:c'', gm_ruleSourceHash = ''sha256:r''\<rparr>"

definition sample_test :: "(string \<times> int) list \<Rightarrow> baseline_test" where
  "sample_test items = group_meta.extend (sample_meta ''no-console'' MessageCount)
     (baseline_test.fields (map (\<lambda>(p, n). (p, count_item n)) items))"

definition sample_baseline :: "(string \<times> int) list \<Rightarrow> ratchet_baseline" where
  "sample_baseline items = \<lparr>bl_version = 2, bl_regenerate = None, bl_tests = [(''ratchet/a'', sample_test items)]\<rparr>"

definition sample_vocab :: workflow_vocabulary where
  "sample_vocab = \<lparr>wv_updateCommand = ''u'', wv_regressionUpdateCommand = ''r'', wv_debtAcceptanceCommand = ''d'',
     wv_installMergeDriverCommand = ''i'', wv_restoreBaselineOursCommand = id, wv_trendAllCommand = ''t''\<rparr>"

end
