(* ===== verification/BaselineValidation.thy ===== *)
theory BaselineValidation
  imports BaselineSpec
begin

text \<open>
  \<open>kernel/baseline-validation.ts\<close> and \<open>kernel/rule-source-drift.ts\<close>: reading a committed
  baseline, checking it against the registry, and telling a baseline that is only stale in its
  rule-source hashes from one that is wrong.

  A thrown \<open>Error\<close> is \<open>Inl\<close>. The lists of failures are in the order in which the code pushes
  them.
\<close>

section \<open>Errors as values\<close>

datatype kernel_error = BaselineFailure baseline_error | FormatFailure format_error

definition lift_error :: "('e \<Rightarrow> 'f) \<Rightarrow> 'e + 'a \<Rightarrow> 'f + 'a" where
  "lift_error f r = (case r of Inl e \<Rightarrow> Inl (f e) | Inr v \<Rightarrow> Inr v)"

definition and_then :: "'e + 'a \<Rightarrow> ('a \<Rightarrow> 'e + 'b) \<Rightarrow> 'e + 'b" where
  "and_then r k = (case r of Inl e \<Rightarrow> Inl e | Inr v \<Rightarrow> k v)"

lemma and_then_simps [simp]: "and_then (Inl e) k = Inl e" "and_then (Inr v) k = k v"
  by (simp_all add: and_then_def)

lemma lift_error_simps [simp]: "lift_error f (Inl e) = Inl (f e)" "lift_error f (Inr v) = Inr v"
  by (simp_all add: lift_error_def)

lemma and_then_Inr: "and_then r k = Inr v \<longleftrightarrow> (\<exists>w. r = Inr w \<and> k w = Inr v)"
  by (cases r) auto

lemma lift_error_Inr: "lift_error f r = Inr v \<longleftrightarrow> r = Inr v"
  by (cases r) auto

section \<open>Structure\<close>

record structural_baseline =
  sb_baseline :: "ratchet_baseline option"
  sb_failures :: "string list"

definition parseLintRatchetBaselineStructure ::
    "json_parser \<Rightarrow> string cmp \<Rightarrow> string \<Rightarrow> workflow_vocabulary \<Rightarrow> version_policy \<Rightarrow> string \<Rightarrow>
     baseline_error + structural_baseline" where
  "parseLintRatchetBaselineStructure jp lc txt vocab policy baselineFile =
     (case parseGroupedBaseline jp (lintRatchetBaselineSpec lc policy vocab baselineFile) txt of
        ParseErr es \<Rightarrow> Inr \<lparr>sb_baseline = None, sb_failures = es\<rparr>
      | ParseOk v _ \<Rightarrow>
          (case lintRatchetBaselineFromGrouped v policy of
             Inl e \<Rightarrow> Inl e
           | Inr b \<Rightarrow> Inr \<lparr>sb_baseline = Some b, sb_failures = []\<rparr>))"

section \<open>Validation against the registry\<close>

datatype validation_code =
    ConfigHashMismatch | FilesMismatch | IgnoresMismatch | MetricItemInvalid | MetricMismatch
  | MissingRatchet | NondeterministicJson | OrphanRatchet | RuleIdMismatch | RuleOptionsMismatch
  | RuleSourceDrift | RuleSourceHashRequired | StructureFailure

record validation_failure =
  vf_code :: validation_code
  vf_message :: string

definition pushFailure :: "validation_code \<Rightarrow> string \<Rightarrow> validation_failure" where
  "pushFailure code msg = \<lparr>vf_code = code, vf_message = msg\<rparr>"

definition item_failure_text :: "item_failure \<Rightarrow> string" where
  "item_failure_text f = (case f of
       OnlyValidFor path field m \<Rightarrow> path @ ''.'' @ field @ '' is only valid for '' @ metric_name m
     | RequiredFor path field m \<Rightarrow> path @ ''.'' @ field @ '' is required for '' @ metric_name m
     | PerFunctionLength path \<Rightarrow> path @ ''.perFunction length must equal count''
     | MaxComplexityMismatch path \<Rightarrow> path @ ''.maxComplexity must match perFunction maximum'')"

definition validateBaselineTestMetadata ::
    "string \<Rightarrow> baseline_test \<Rightarrow> baseline_test \<Rightarrow> validation_failure list" where
  "validateBaselineTestMetadata testId test expected =
     fail_if (gm_ruleId test \<noteq> gm_ruleId expected) (pushFailure RuleIdMismatch (testId @ ''.ruleId is stale''))
     @ fail_if (gm_metric test \<noteq> gm_metric expected) (pushFailure MetricMismatch (testId @ ''.metric is stale''))
     @ fail_if (stableJson (strings_json (gm_files test)) \<noteq> stableJson (strings_json (gm_files expected)))
         (pushFailure FilesMismatch (testId @ ''.files is stale''))
     @ fail_if (stableJson (strings_json (gm_ignores test)) \<noteq> stableJson (strings_json (gm_ignores expected)))
         (pushFailure IgnoresMismatch (testId @ ''.ignores is stale''))
     @ fail_if (stableJson (JArr (gm_ruleOptions test)) \<noteq> stableJson (JArr (gm_ruleOptions expected)))
         (pushFailure RuleOptionsMismatch (testId @ ''.ruleOptions is stale''))
     @ fail_if (gm_configHash test \<noteq> gm_configHash expected)
         (pushFailure ConfigHashMismatch (testId @ ''.configHash is stale''))"

definition validateBaselineRuleSourceHash ::
    "string \<Rightarrow> baseline_test \<Rightarrow> string \<Rightarrow> workflow_vocabulary \<Rightarrow> validation_failure list" where
  "validateBaselineRuleSourceHash testId test expectedRuleSourceHash vocab =
     (if gm_ruleSourceHash test = []
      then [pushFailure RuleSourceHashRequired (testId @ ''.ruleSourceHash is required'')]
      else fail_if (gm_ruleSourceHash test \<noteq> expectedRuleSourceHash)
             (pushFailure RuleSourceDrift
               (testId @ ''.ruleSourceHash is stale (run \"'' @ wv_updateCommand vocab @ ''\" to regenerate)'')))"

definition validateBaselineMetricItems :: "string \<Rightarrow> baseline_test \<Rightarrow> validation_failure list" where
  "validateBaselineMetricItems testId test =
     concat (map (\<lambda>(itemPath, item).
       map (\<lambda>f. pushFailure MetricItemInvalid (item_failure_text f))
         (validateItem (testId @ ''.items.'' @ itemPath) (gm_metric test) item)) (bt_items test))"

definition validateBaselineTestAgainstRatchet ::
    "string cmp \<Rightarrow> hasher \<Rightarrow> string \<Rightarrow> baseline_test \<Rightarrow> ratchet_config \<Rightarrow> string \<Rightarrow> workflow_vocabulary \<Rightarrow>
     validation_failure list" where
  "validateBaselineTestAgainstRatchet lc sha testId test ratchet expectedRuleSourceHash vocab =
     validateBaselineTestMetadata testId test (baselineTestFromConfig lc sha ratchet None expectedRuleSourceHash)
     @ validateBaselineRuleSourceHash testId test expectedRuleSourceHash vocab
     @ validateBaselineMetricItems testId test"

definition validateBaselineTestForRatchet ::
    "string cmp \<Rightarrow> hasher \<Rightarrow> string \<Rightarrow> baseline_test \<Rightarrow> ratchet_config \<Rightarrow> string \<Rightarrow> workflow_vocabulary \<Rightarrow>
     string list" where
  "validateBaselineTestForRatchet lc sha testId test ratchet expectedRuleSourceHash vocab =
     map vf_message (validateBaselineTestAgainstRatchet lc sha testId test ratchet expectedRuleSourceHash vocab)"

text \<open>\<open>new Map(ratchets.map(...))\<close>: the last entry of an id wins.\<close>

definition registry_map :: "ratchet_config list \<Rightarrow> (string \<times> ratchet_config) list" where
  "registry_map ratchets = map_from (map (\<lambda>r. (rc_id r, r)) ratchets)"

definition validateBaselineAgainstRegistry ::
    "string cmp \<Rightarrow> hasher \<Rightarrow> ratchet_baseline \<Rightarrow> ratchet_config list \<Rightarrow> (string \<times> string) list \<Rightarrow>
     workflow_vocabulary \<Rightarrow> validation_failure list" where
  "validateBaselineAgainstRegistry lc sha b ratchets hashes vocab =
     concat (map (\<lambda>(testId, test).
       case map_of (registry_map ratchets) testId of
         None \<Rightarrow> [pushFailure OrphanRatchet (testId @ '': baseline has no matching ratchet registry entry'')]
       | Some ratchet \<Rightarrow> validateBaselineTestAgainstRatchet lc sha testId test ratchet
           (case map_of hashes testId of None \<Rightarrow> [] | Some h \<Rightarrow> h) vocab) (bl_tests b))
     @ concat (map (\<lambda>ratchet. fail_if (map_of (bl_tests b) (rc_id ratchet) = None)
         (pushFailure MissingRatchet (rc_id ratchet @ '': baseline is missing registry ratchet''))) ratchets)"

definition regenerateWarning :: "ratchet_baseline \<Rightarrow> workflow_vocabulary \<Rightarrow> string option" where
  "regenerateWarning b vocab = (case bl_regenerate b of
       None \<Rightarrow> None
     | Some committed \<Rightarrow>
         if committed = JStr (wv_updateCommand vocab) then None
         else Some (''baseline regenerate annotation is stale; regenerate with `'' @ wv_updateCommand vocab
                @ ''` (committed '' @ stringify committed @ '')''))"

record parsed_baseline =
  pb_baseline :: "ratchet_baseline option"
  pb_failures :: "string list"
  pb_validationFailures :: "validation_failure list"
  pb_warnings :: "string list"

definition parseLintRatchetBaseline ::
    "json_parser \<Rightarrow> string cmp \<Rightarrow> hasher \<Rightarrow> string \<Rightarrow> ratchet_config list \<Rightarrow> (string \<times> string) list \<Rightarrow>
     workflow_vocabulary \<Rightarrow> version_policy \<Rightarrow> string \<Rightarrow> kernel_error + parsed_baseline" where
  "parseLintRatchetBaseline jp lc sha txt ratchets hashes vocab policy baselineFile =
     and_then (lift_error BaselineFailure (parseLintRatchetBaselineStructure jp lc txt vocab policy baselineFile))
       (\<lambda>structural. case sb_baseline structural of
          None \<Rightarrow> Inr \<lparr>pb_baseline = None, pb_failures = sb_failures structural,
              pb_validationFailures = map (pushFailure StructureFailure) (sb_failures structural), pb_warnings = []\<rparr>
        | Some b \<Rightarrow>
            (let registryFailures = map (pushFailure StructureFailure) (sb_failures structural)
                   @ validateBaselineAgainstRegistry lc sha b ratchets hashes vocab
             in and_then
                  (if registryFailures \<noteq> [] then Inr registryFailures
                   else and_then (lift_error FormatFailure (formatLintRatchetBaseline lc b vocab)) (\<lambda>formatted.
                     Inr (fail_if (formatted \<noteq> txt) (pushFailure NondeterministicJson
                       (''baseline JSON is not deterministic; run '' @ wv_updateCommand vocab)))))
                  (\<lambda>failures.
                    let warnings = (case regenerateWarning b vocab of None \<Rightarrow> [] | Some w \<Rightarrow> [w])
                    in if failures \<noteq> []
                       then Inr \<lparr>pb_baseline = None, pb_failures = map vf_message failures,
                               pb_validationFailures = failures, pb_warnings = warnings\<rparr>
                       else Inr \<lparr>pb_baseline = Some b, pb_failures = [], pb_validationFailures = [],
                               pb_warnings = warnings\<rparr>)))"

section \<open>Rule source drift\<close>

definition isOnlyRuleSourceStaleFailure :: "validation_failure list \<Rightarrow> bool" where
  "isOnlyRuleSourceStaleFailure failures \<longleftrightarrow>
     failures \<noteq> [] \<and> list_all (\<lambda>f. vf_code f = RuleSourceDrift) failures"

record drift_baseline =
  db_baseline :: "ratchet_baseline option"
  db_failures :: "string list"
  db_ruleSourceIdentityDrift :: bool

definition parseBaselineWithRuleSourceDrift ::
    "json_parser \<Rightarrow> string cmp \<Rightarrow> hasher \<Rightarrow> string \<Rightarrow> ratchet_config list \<Rightarrow> (string \<times> string) list \<Rightarrow>
     workflow_vocabulary \<Rightarrow> string \<Rightarrow> kernel_error + drift_baseline" where
  "parseBaselineWithRuleSourceDrift jp lc sha txt ratchets hashes vocab baselineFile =
     and_then (parseLintRatchetBaseline jp lc sha txt ratchets hashes vocab default_version_policy baselineFile)
       (\<lambda>strict. case pb_baseline strict of
          Some b \<Rightarrow> Inr \<lparr>db_baseline = Some b, db_failures = [], db_ruleSourceIdentityDrift = False\<rparr>
        | None \<Rightarrow>
            if \<not> isOnlyRuleSourceStaleFailure (pb_validationFailures strict)
            then Inr \<lparr>db_baseline = None, db_failures = pb_failures strict, db_ruleSourceIdentityDrift = False\<rparr>
            else and_then (lift_error BaselineFailure
                   (parseLintRatchetBaselineStructure jp lc txt vocab default_version_policy baselineFile))
                 (\<lambda>structural. case sb_baseline structural of
                    None \<Rightarrow> Inr \<lparr>db_baseline = None, db_failures = pb_failures strict @ sb_failures structural,
                              db_ruleSourceIdentityDrift = False\<rparr>
                  | Some b \<Rightarrow> Inr \<lparr>db_baseline = Some b, db_failures = pb_failures strict,
                              db_ruleSourceIdentityDrift = True\<rparr>))"

definition equalCountSwapsProvable :: "ratchet_baseline \<Rightarrow> ratchet_config list \<Rightarrow> bool" where
  "equalCountSwapsProvable b ratchets =
     list_all (\<lambda>ratchet. rc_metric ratchet \<noteq> MessageCount \<or>
       (case map_of (bl_tests b) (rc_id ratchet) of
          None \<Rightarrow> True
        | Some test \<Rightarrow> list_all (\<lambda>(_, item). mi_messagesFingerprint item \<noteq> None) (bt_items test))) ratchets"

datatype drift_class = DriftCountsOnlyUnproven | DriftFindingsUnchanged | DriftInfoOnly | DriftChanged

definition classifyRuleSourceDrift :: "int \<Rightarrow> int option \<Rightarrow> bool option \<Rightarrow> drift_class" where
  "classifyRuleSourceDrift changedCount infoCount swapsProvable =
     (if changedCount = 0 \<and> (case infoCount of None \<Rightarrow> 0 | Some n \<Rightarrow> n) = 0
      then if (case swapsProvable of None \<Rightarrow> True | Some b \<Rightarrow> b) then DriftFindingsUnchanged
           else DriftCountsOnlyUnproven
      else if changedCount = 0 then DriftInfoOnly
      else DriftChanged)"

definition formatRuleSourceDriftClassification ::
    "int \<Rightarrow> string \<Rightarrow> workflow_vocabulary \<Rightarrow> int option \<Rightarrow> bool option \<Rightarrow> string" where
  "formatRuleSourceDriftClassification changedCount baselineDisplayName vocab infoCount swapsProvable =
     (case classifyRuleSourceDrift changedCount infoCount swapsProvable of
        DriftCountsOnlyUnproven \<Rightarrow>
          ''lint:ratchet rule source identity drift only '' @ em_dash @ '' finding counts unchanged from ''
            @ baselineDisplayName @ '' (equal-count message swaps not provable without messagesFingerprint); run ''
            @ wv_updateCommand vocab @ '' to refresh ruleSourceHash metadata''
      | DriftFindingsUnchanged \<Rightarrow>
          ''lint:ratchet rule source identity drift only '' @ em_dash @ '' findings unchanged from ''
            @ baselineDisplayName @ ''; run '' @ wv_updateCommand vocab @ '' to refresh ruleSourceHash metadata''
      | DriftInfoOnly \<Rightarrow>
          ''lint:ratchet rule source identity drift '' @ em_dash
            @ '' finding set changed (informational finding changes only); counts match '' @ baselineDisplayName
            @ '', but '' @ show_int (case infoCount of None \<Rightarrow> 0 | Some n \<Rightarrow> n)
            @ '' informational equal-count swap(s) were reported; run '' @ wv_updateCommand vocab
            @ '' after reviewing the info findings''
      | DriftChanged \<Rightarrow>
          ''lint:ratchet rule source identity drift '' @ em_dash
            @ '' finding set changed; inspect diagnostics, then run '' @ wv_updateCommand vocab
            @ '' after fixing or accepting the finding changes'')"

end
