(* ===== verification/MetricLaws.thy ===== *)
theory MetricLaws
  imports Metrics
begin

text \<open>
  Properties of the metric strategies: what the comparison of one item guarantees on each metric,
  that its verdicts exclude each other, that the stored form is a normal form, and that merging two
  items of equal count is symmetric and never above either side.
\<close>

section \<open>The comparison of two counts\<close>

lemma co_no_change [simp]:
  "co_regression no_change = None" "co_improvement no_change = None" "co_info no_change = None"
  by (simp_all add: no_change_def)

lemma countComparison_None: "countComparison c p q = None \<longleftrightarrow> mi_count (ic_current c) = baseline_count c"
  by (auto simp: countComparison_def countIncreaseRegression_def countDecreaseImprovement_def)

lemma countComparison_Some:
  "countComparison c p q = Some r \<Longrightarrow>
     co_info r = None \<and>
     (mi_count (ic_current c) > baseline_count c \<and> co_improvement r = None \<and>
        (\<exists>d. co_regression r = Some d \<and>
             dl_reason d = (if baseline_count c = 0 then NewPath else IncreasedCount) \<and>
             dl_baselineCount d = baseline_count c \<and> dl_currentCount d = mi_count (ic_current c) \<and>
             dl_path d = ic_path c \<and> dl_testId d = rc_id (ic_ratchet c))
      \<or> mi_count (ic_current c) < baseline_count c \<and> co_regression r = None \<and>
        (\<exists>d. co_improvement r = Some d \<and> dl_reason d = LowerCount))"
  by (auto simp: countComparison_def countIncreaseRegression_def countDecreaseImprovement_def
      with_payload_def base_delta_def split: if_splits)

section \<open>Complexity deltas\<close>

lemma exact_loop_Some: "exact_loop base es regr = Some d \<Longrightarrow> cd_regression d = regr"
  by (induction base es regr rule: exact_loop.induct) (auto simp: delta_of_def split: option.splits if_splits)

lemma vector_loop_Some: "vector_loop ps es regr = Some d \<Longrightarrow> cd_regression d = regr"
  by (induction ps es regr rule: vector_loop.induct) (auto simp: delta_of_def split: if_splits)

lemma exact_loop_None:
  "exact_loop base es regr = None \<longleftrightarrow>
     (\<forall>e \<in> set es. \<forall>p. map_of base (complexityIdentity e) = Some p \<longrightarrow> \<not> moved regr e p)"
  by (induction base es regr rule: exact_loop.induct) (auto split: option.splits)

lemma vector_loop_None:
  "vector_loop ps es regr = None \<longleftrightarrow> (\<forall>i < min (length ps) (length es). \<not> moved regr (es ! i) (ps ! i))"
  by (induction ps es regr rule: vector_loop.induct) (auto simp: All_less_Suc2)

lemma complexityDelta_regression:
  "(\<exists>d. complexityDelta lc b c = Some d \<and> cd_regression d) \<longleftrightarrow>
     (\<exists>bs cs. Option.bind b mi_perFunction = Some bs \<and> mi_perFunction c = Some cs \<and>
        (exactComplexityDelta bs cs True \<noteq> None \<or> vectorComplexityDelta lc bs cs True \<noteq> None))"
  by (cases "Option.bind b mi_perFunction"; cases "mi_perFunction c")
     (auto simp: complexityDelta_def or_else_def exactComplexityDelta_def vectorComplexityDelta_def
        dest: exact_loop_Some vector_loop_Some split: option.splits)

text \<open>The functions of an item in the stored order.\<close>

definition sorted_functions :: "string cmp \<Rightarrow> 'a metric_item_scheme \<Rightarrow> complexity_function list" where
  "sorted_functions lc i = (case mi_perFunction i of None \<Rightarrow> [] | Some fs \<Rightarrow> js_sort (compareComplexityFunction lc) fs)"

definition complexity_not_worse :: "string cmp \<Rightarrow> 'a metric_item_scheme \<Rightarrow> 'b metric_item_scheme \<Rightarrow> bool" where
  "complexity_not_worse lc c b \<longleftrightarrow>
     (\<forall>i < min (length (sorted_functions lc b)) (length (sorted_functions lc c)).
        cf_complexity (sorted_functions lc c ! i) \<le> cf_complexity (sorted_functions lc b ! i))"

lemma complexity_regression_free:
  assumes "\<nexists>d. complexityDelta lc (Some b) c = Some d \<and> cd_regression d"
  shows "complexity_not_worse lc c b"
  using assms unfolding complexityDelta_regression
  by (auto simp: complexity_not_worse_def sorted_functions_def vectorComplexityDelta_def vector_loop_None
      moved_def not_less split: option.splits) (meson leD)

section \<open>Verdicts\<close>

definition lines_worse :: "item_context \<Rightarrow> bool" where
  "lines_worse c = (case (Option.bind (ic_baselineItem c) mi_lines, mi_lines (ic_current c)) of
     (Some b, Some n) \<Rightarrow> n > b | _ \<Rightarrow> False)"

definition complexity_worse :: "string cmp \<Rightarrow> item_context \<Rightarrow> bool" where
  "complexity_worse lc c \<longleftrightarrow> (\<exists>d. complexityDelta lc (ic_baselineItem c) (ic_current c) = Some d \<and> cd_regression d)"

definition worse :: "string cmp \<Rightarrow> metric \<Rightarrow> item_context \<Rightarrow> bool" where
  "worse lc m c \<longleftrightarrow> mi_count (ic_current c) > baseline_count c
     \<or> (m = EffectiveLineCount \<and> lines_worse c) \<or> (m = ComplexitySeverity \<and> complexity_worse lc c)"

lemma compareItem_cases:
  assumes "r = compareItem lc m c"
  shows "(worse lc m c \<and> co_regression r \<noteq> None \<and> co_improvement r = None \<and> co_info r = None)
       \<or> (\<not> worse lc m c \<and> co_regression r = None \<and> (co_improvement r = None \<or> co_info r = None))"
proof (cases m)
  case MessageCount
  then show ?thesis
    by (auto simp: assms worse_def compareMessageCountItem_def Let_def countComparison_None
        dest!: countComparison_Some split: option.splits)
next
  case EffectiveLineCount
  then show ?thesis
    by (auto simp: assms worse_def compareEffectiveLineCountItem_def Let_def countComparison_None
        lines_worse_def increasedLinesComparison_def lowerLinesComparison_def no_change_def
        dest!: countComparison_Some split: option.splits)
next
  case ComplexitySeverity
  then show ?thesis
    by (auto simp: assms worse_def compareComplexitySeverityItem_def Let_def countComparison_None
        complexity_worse_def increasedComplexityComparison_def lowerComplexityComparison_def no_change_def
        dest!: countComparison_Some split: option.splits)
qed

lemma compareItem_regression_iff: "co_regression (compareItem lc m c) \<noteq> None \<longleftrightarrow> worse lc m c"
  using compareItem_cases[OF refl, of lc m c] by auto

section \<open>The stored order\<close>

lemma complexity_comparator:
  assumes "comparator lc"
  shows "comparator (compareComplexityFunction lc)"
  by unfold_locales (auto simp: compareComplexityFunction_def Let_def comparator.cmp_total[OF assms]
      split: if_splits intro: comparator.cmp_trans[OF assms])

lemma foldl_max: "foldl max a xs = Max (insert a (set xs))" for a :: int
proof (induction xs arbitrary: a)
  case Nil
  then show ?case by simp
next
  case (Cons x xs)
  show ?case
    by (cases "xs = []") (simp_all add: Cons.IH max.assoc)
qed

lemma maxComplexityFor_Max:
  "maxComplexityFor (Some fs) = (if fs = [] then None else Some (Max (cf_complexity ` set fs)))"
  by (cases fs) (simp_all add: maxComplexityFor_def foldl_max)

lemma maxComplexityFor_Some:
  "maxComplexityFor p = Some m \<longleftrightarrow> (\<exists>fs. p = Some fs \<and> fs \<noteq> [] \<and> m = Max (cf_complexity ` set fs))"
  by (cases p) (auto simp: maxComplexityFor_Max, simp add: maxComplexityFor_def)

lemma maxComplexityFor_sorted [simp]:
  "maxComplexityFor (map_option (js_sort cmp) p) = maxComplexityFor p"
  by (cases p) (simp_all add: maxComplexityFor_Max maxComplexityFor_def[of None])

lemma sorted_head_max:
  assumes "comparator lc" and "fs \<noteq> []"
  shows "cf_complexity (js_sort (compareComplexityFunction lc) fs ! 0) = Max (cf_complexity ` set fs)"
proof -
  note sorted = comparator.sorted_js_sort[OF complexity_comparator[OF assms(1)]]
  obtain x xs where s: "js_sort (compareComplexityFunction lc) fs = x # xs"
    using assms(2) by (cases "js_sort (compareComplexityFunction lc) fs") auto
  have "\<forall>y \<in> set xs. compareComplexityFunction lc x y \<le> 0"
    using sorted[of fs] by (simp add: s)
  then have "\<forall>y \<in> set xs. cf_complexity y \<le> cf_complexity x"
    by (force simp: compareComplexityFunction_def Let_def split: if_splits)
  moreover have "set fs = insert x (set xs)"
    using set_js_sort[of "compareComplexityFunction lc" fs] by (simp add: s)
  ultimately show ?thesis
    by (auto simp: s intro!: Max_eqI[symmetric])
qed

lemma complexity_not_worse_max:
  assumes "comparator lc" and "complexity_not_worse lc c b"
    and x: "maxComplexityFor (mi_perFunction c) = Some x" and y: "maxComplexityFor (mi_perFunction b) = Some y"
  shows "x \<le> y"
proof -
  obtain cs where cs: "mi_perFunction c = Some cs" "cs \<noteq> []" "x = Max (cf_complexity ` set cs)"
    using x by (auto simp: maxComplexityFor_Some)
  obtain bs where bs: "mi_perFunction b = Some bs" "bs \<noteq> []" "y = Max (cf_complexity ` set bs)"
    using y by (auto simp: maxComplexityFor_Some)
  from assms(2) have "cf_complexity (sorted_functions lc c ! 0) \<le> cf_complexity (sorted_functions lc b ! 0)"
    using cs bs by (auto simp: complexity_not_worse_def sorted_functions_def)
  then show ?thesis
    using cs bs sorted_head_max[OF assms(1)] by (simp add: sorted_functions_def)
qed

section \<open>Properties\<close>

text \<open>
  C1: an item that the comparison does not report as a regression is on no axis of its metric above
  the committed item: not in count, not in effective lines, not in any position of the sorted
  complexity vector, and not in maximum complexity.
\<close>

theorem no_regression_keeps_floor:
  assumes "comparator lc" and "ic_baselineItem c = Some b" and "co_regression (compareItem lc m c) = None"
  shows "mi_count (ic_current c) \<le> mi_count b \<and>
    (m = EffectiveLineCount \<longrightarrow>
       (\<forall>l n. mi_lines b = Some l \<longrightarrow> mi_lines (ic_current c) = Some n \<longrightarrow> n \<le> l)) \<and>
    (m = ComplexitySeverity \<longrightarrow> complexity_not_worse lc (ic_current c) b \<and>
       (\<forall>x y. maxComplexityFor (mi_perFunction (ic_current c)) = Some x \<longrightarrow>
              maxComplexityFor (mi_perFunction b) = Some y \<longrightarrow> x \<le> y))"
proof -
  have w: "\<not> worse lc m c"
    using assms(3) compareItem_regression_iff by blast
  then have "mi_count (ic_current c) \<le> mi_count b"
    using assms(2) by (auto simp: worse_def baseline_count_def)
  moreover have "m = EffectiveLineCount \<Longrightarrow> mi_lines b = Some l \<Longrightarrow> mi_lines (ic_current c) = Some n \<Longrightarrow> n \<le> l" for l n
    using w assms(2) by (auto simp: worse_def lines_worse_def)
  moreover have cn: "complexity_not_worse lc (ic_current c) b" if "m = ComplexitySeverity"
    using w that assms(2) by (intro complexity_regression_free) (auto simp: worse_def complexity_worse_def)
  ultimately show ?thesis
    using complexity_not_worse_max[OF assms(1)] by blast
qed

theorem no_regression_keeps_floor_witness:
  "complexity_not_worse codeUnitCompare
     (sample_current (count_item 1\<lparr>mi_perFunction := Some [\<lparr>cf_line = 4, cf_label = ''f'', cf_complexity = 9\<rparr>]\<rparr>))
     (count_item 1\<lparr>mi_perFunction := Some [\<lparr>cf_line = 3, cf_label = ''f'', cf_complexity = 11\<rparr>]\<rparr>)"
proof -
  let ?c = "\<lparr>ic_ratchet = sample_ratchet ''ratchet/c'' ''complexity'' ComplexitySeverity CoreSource,
     ic_path = ''src/a.ts'',
     ic_baselineItem = Some (count_item 1\<lparr>mi_perFunction := Some [\<lparr>cf_line = 3, cf_label = ''f'', cf_complexity = 11\<rparr>]\<rparr>),
     ic_current = sample_current (count_item 1\<lparr>mi_perFunction := Some [\<lparr>cf_line = 4, cf_label = ''f'', cf_complexity = 9\<rparr>]\<rparr>)\<rparr>"
  have "co_regression (compareItem codeUnitCompare ComplexitySeverity ?c) = None"
    by code_simp
  from no_regression_keeps_floor[OF cu.comparator_axioms _ this] show ?thesis
    by simp
qed

text \<open>
  The comparison of an item reports a regression exactly when one axis of the metric is worse,
  and a regression comes alone; otherwise it reports an improvement, an info or nothing, never both.
\<close>

theorem compare_verdict:
  "(co_regression (compareItem lc m c) \<noteq> None \<longleftrightarrow> worse lc m c) \<and>
   (co_regression (compareItem lc m c) = None \<or>
      co_improvement (compareItem lc m c) = None \<and> co_info (compareItem lc m c) = None) \<and>
   (co_improvement (compareItem lc m c) = None \<or> co_info (compareItem lc m c) = None)"
  using compareItem_cases[OF refl, of lc m c] by auto

section \<open>Unchanged items\<close>

definition distinct_functions :: "'a metric_item_scheme \<Rightarrow> bool" where
  "distinct_functions i = (case mi_perFunction i of None \<Rightarrow> True | Some fs \<Rightarrow> distinct (map complexityIdentity fs))"

lemma unique_step_fold:
  "distinct (map complexityIdentity es) \<Longrightarrow>
   (\<And>e. e \<in> set es \<Longrightarrow> map_of m (complexityIdentity e) = None) \<Longrightarrow> e \<in> set es \<Longrightarrow>
   map_of (fold unique_step es m) (complexityIdentity e) = Some e"
proof (induction es arbitrary: m)
  case Nil
  then show ?case by simp
next
  case (Cons x es)
  have x: "unique_step x m = AList.update (complexityIdentity x) x m"
    using Cons.prems(2)[of x] by (simp add: unique_step_def)
  have keep: "map_of (fold unique_step es m') k = map_of m' k" if "k \<notin> complexityIdentity ` set es" for k m'
    using that by (induction es arbitrary: m') (auto simp: unique_step_def Let_def update_conv' split: option.splits)
  show ?case
  proof (cases "e = x")
    case True
    with Cons.prems(1) show ?thesis by (simp add: x keep update_conv')
  next
    case False
    with Cons.prems(3) have "e \<in> set es" by simp
    moreover have "map_of (AList.update (complexityIdentity x) x m) (complexityIdentity e') = None"
      if "e' \<in> set es" for e'
    proof -
      from that Cons.prems(1) have "complexityIdentity e' \<noteq> complexityIdentity x"
        by (metis distinct.simps(2) imageI list.set_map list.simps(9))
      with that Cons.prems(2) show ?thesis by (simp add: update_conv')
    qed
    ultimately show ?thesis
      using Cons.IH[of "AList.update (complexityIdentity x) x m"] Cons.prems(1) by (simp add: x)
  qed
qed

lemma unique_lookup:
  "distinct (map complexityIdentity es) \<Longrightarrow> e \<in> set es \<Longrightarrow>
   map_of (uniqueComplexityMap es) (complexityIdentity e) = Some e"
  by (simp add: uniqueComplexityMap_def unique_step_fold)

lemma complexityDelta_same:
  assumes "distinct_functions b" and "mi_perFunction c = mi_perFunction b"
  shows "complexityDelta lc (Some b) c = None"
proof (cases "mi_perFunction b")
  case None
  then show ?thesis by (simp add: complexityDelta_def)
next
  case (Some fs)
  then have "exactComplexityDelta fs fs r = None" for r
    using assms(1) by (auto simp: exactComplexityDelta_def exact_loop_None distinct_functions_def unique_lookup moved_def)
  moreover have "vectorComplexityDelta lc fs fs r = None" for r
    by (simp add: vectorComplexityDelta_def vector_loop_None moved_def)
  ultimately show ?thesis
    using Some assms(2) by (simp add: complexityDelta_def or_else_def)
qed

text \<open>
  An item that was collected exactly as it was committed gives no verdict at all, on every
  metric, when no two functions of the item share a line and a label.
\<close>

theorem unchanged_item_is_silent:
  assumes "ic_baselineItem c = Some b" and "metric_item.truncate (ic_current c) = b" and "distinct_functions b"
  shows "compareItem lc m c = no_change"
proof -
  have eqs: "mi_count (ic_current c) = mi_count b" "mi_lines (ic_current c) = mi_lines b"
    "mi_perFunction (ic_current c) = mi_perFunction b"
    "mi_messagesFingerprint (ic_current c) = mi_messagesFingerprint b"
    using assms(2) by (auto simp: metric_item.truncate_def)
  have n: "countComparison c p q = None" for p q
    using assms(1) eqs by (simp add: countComparison_None baseline_count_def)
  have i: "equalCountMessageSwapInfo c = None"
    using assms(1) eqs by (auto simp: equalCountMessageSwapInfo_def split: option.splits)
  show ?thesis
    using assms(1) eqs complexityDelta_same[OF assms(3), of "ic_current c" lc]
    by (cases m) (auto simp: compareMessageCountItem_def compareEffectiveLineCountItem_def
        compareComplexitySeverityItem_def increasedLinesComparison_def lowerLinesComparison_def
        increasedComplexityComparison_def lowerComplexityComparison_def n i Let_def no_change_def
        split: option.splits)
qed

section \<open>Functions that share a line and a label\<close>

lemma show_int_sep: "show_int m @ CHR 0x00 # a = show_int n @ CHR 0x00 # b \<longleftrightarrow> m = n \<and> a = b"
proof
  assume eq: "show_int m @ CHR 0x00 # a = show_int n @ CHR 0x00 # b"
  have stop: "\<not> is_num_char (CHR 0x00)" by (simp add: is_num_char_def is_digit_def)
  have "takeWhile is_num_char (show_int k @ CHR 0x00 # r) = show_int k" for k r
    using show_int_num[of k] stop by (simp add: takeWhile_append list_all_iff)
  with eq have "show_int m = show_int n" by metis
  with eq show "m = n \<and> a = b" by simp
qed simp

lemma identity_eq:
  "complexityIdentity f = complexityIdentity g \<longleftrightarrow> cf_line f = cf_line g \<and> cf_label f = cf_label g"
  by (simp add: complexityIdentity_def show_int_sep)

text \<open>The map keeps, for each identity, a function of the highest complexity.\<close>

lemma unique_step_up: "map_of (unique_step x m) k = Some p \<Longrightarrow> p = x \<and> k = complexityIdentity x \<or> map_of m k = Some p"
  by (auto simp: unique_step_def Let_def update_conv' split: option.splits if_splits)

lemma unique_step_mono:
  "map_of m k = Some y \<Longrightarrow> \<exists>z. map_of (unique_step x m) k = Some z \<and> cf_complexity y \<le> cf_complexity z"
  by (auto simp: unique_step_def Let_def update_conv' split: option.splits)

lemma unique_step_own: "\<exists>z. map_of (unique_step x m) (complexityIdentity x) = Some z \<and> cf_complexity x \<le> cf_complexity z"
  by (auto simp: unique_step_def Let_def update_conv' split: option.splits)

lemma unique_fold_up:
  "map_of (fold unique_step es m) k = Some p \<Longrightarrow> p \<in> set es \<and> k = complexityIdentity p \<or> map_of m k = Some p"
proof (induction es arbitrary: m)
  case (Cons x es)
  then show ?case using unique_step_up[of x m k p] by auto
qed simp

lemma unique_fold_mono:
  "map_of m k = Some y \<Longrightarrow> \<exists>z. map_of (fold unique_step es m) k = Some z \<and> cf_complexity y \<le> cf_complexity z"
proof (induction es arbitrary: m y)
  case (Cons x es)
  obtain z where z: "map_of (unique_step x m) k = Some z" "cf_complexity y \<le> cf_complexity z"
    using unique_step_mono[OF Cons.prems] by blast
  with Cons.IH[OF z(1)] show ?case by fastforce
qed auto

lemma unique_fold_own:
  "e \<in> set es \<Longrightarrow> \<exists>z. map_of (fold unique_step es m) (complexityIdentity e) = Some z \<and> cf_complexity e \<le> cf_complexity z"
proof (induction es arbitrary: m)
  case (Cons x es)
  show ?case
  proof (cases "e \<in> set es")
    case False
    with Cons.prems have "e = x" by simp
    with unique_step_own[of x m] obtain z where z: "map_of (unique_step x m) (complexityIdentity e) = Some z" "cf_complexity e \<le> cf_complexity z"
      by blast
    with unique_fold_mono[OF z(1), of es] show ?thesis by fastforce
  qed (simp add: Cons.IH)
qed simp

lemma unique_max:
  assumes "e \<in> set es"
  obtains p where "map_of (uniqueComplexityMap es) (complexityIdentity e) = Some p" "p \<in> set es"
    "complexityIdentity p = complexityIdentity e" "cf_complexity e \<le> cf_complexity p"
proof -
  obtain p where p: "map_of (uniqueComplexityMap es) (complexityIdentity e) = Some p" "cf_complexity e \<le> cf_complexity p"
    using unique_fold_own[OF assms, of "[]"] unfolding uniqueComplexityMap_def by blast
  have "p \<in> set es" "complexityIdentity e = complexityIdentity p"
    using unique_fold_up[of es "[]" "complexityIdentity e" p] p(1) unfolding uniqueComplexityMap_def by simp_all
  with p show thesis using that by simp
qed

lemma exact_loop_witness:
  "exact_loop base es regr = Some d \<Longrightarrow>
     \<exists>e \<in> set es. \<exists>p. map_of base (complexityIdentity e) = Some p \<and> moved regr e p \<and> d = delta_of regr e p"
  by (induction base es regr rule: exact_loop.induct) (auto split: option.splits if_splits)

definition shadowed :: "complexity_function \<Rightarrow> complexity_function \<Rightarrow> bool" where
  "shadowed f g \<longleftrightarrow> cf_line f = cf_line g \<and> cf_label f = cf_label g \<and> cf_complexity f < cf_complexity g"

text \<open>
  C2: the exact effect of identifying functions by line and label. Let the complexity item of a file be
  unchanged. When two of its functions share a line and a label (two anonymous arrow functions, say) and
  differ in complexity, the comparison reports a lowered complexity, from the higher to the lower one of
  such a pair, although nothing changed; in every other case it reports nothing.
\<close>

theorem unchanged_complexity_verdict:
  assumes "ic_baselineItem c = Some b" and "metric_item.truncate (ic_current c) = b" and "mi_perFunction b = Some fs"
  shows "if \<exists>f \<in> set fs. \<exists>g \<in> set fs. shadowed f g
    then \<exists>f \<in> set fs. \<exists>g \<in> set fs. shadowed f g \<and>
      compareItem lc ComplexitySeverity c = no_change\<lparr>co_improvement := Some ((base_delta c LowerComplexity)
        \<lparr>dl_baselineComplexity := Some (cf_complexity g), dl_currentComplexity := Some (cf_complexity f)\<rparr>)\<rparr>
    else compareItem lc ComplexitySeverity c = no_change"
proof -
  have eqs: "mi_count (ic_current c) = mi_count b" "mi_perFunction (ic_current c) = Some fs"
    using assms(2,3) by (auto simp: metric_item.truncate_def)
  have n: "countComparison c p q = None" for p q
    using assms(1) eqs by (simp add: countComparison_None baseline_count_def)
  have up: "exactComplexityDelta fs fs True = None"
    unfolding exactComplexityDelta_def exact_loop_None by (metis moved_def not_less option.inject unique_max)
  have vec: "vectorComplexityDelta lc fs fs r = None" for r
    by (simp add: vectorComplexityDelta_def vector_loop_None moved_def)
  have delta: "complexityDelta lc (ic_baselineItem c) (ic_current c) = exactComplexityDelta fs fs False"
    using assms(1,3) eqs(2) up vec by (auto simp: complexityDelta_def or_else_def split: option.split)
  have verdict: "compareItem lc ComplexitySeverity c = lowerComplexityComparison c (exactComplexityDelta fs fs False)"
    by (auto simp: compareComplexitySeverityItem_def delta n increasedComplexityComparison_def Let_def exactComplexityDelta_def
        dest: exact_loop_Some split: option.split)
  show ?thesis
  proof (cases "exactComplexityDelta fs fs False")
    case None
    have "\<not> shadowed f g" if "f \<in> set fs" "g \<in> set fs" for f g
    proof
      assume s: "shadowed f g"
      obtain p where p: "map_of (uniqueComplexityMap fs) (complexityIdentity g) = Some p" "cf_complexity g \<le> cf_complexity p"
        using unique_max[OF \<open>g \<in> set fs\<close>] by blast
      have "complexityIdentity f = complexityIdentity g" using s by (simp add: shadowed_def complexityIdentity_def)
      then have "\<not> moved False f p" using None that(1) p(1) by (auto simp: exactComplexityDelta_def exact_loop_None)
      then show False using s p(2) by (simp add: moved_def shadowed_def)
    qed
    then show ?thesis by (auto simp: verdict None lowerComplexityComparison_def simp del: compareItem.simps)
  next
    case (Some d)
    then obtain f p where f: "f \<in> set fs" "map_of (uniqueComplexityMap fs) (complexityIdentity f) = Some p" "moved False f p"
      "d = delta_of False f p"
      using exact_loop_witness unfolding exactComplexityDelta_def by blast
    obtain g where g: "p = g" "g \<in> set fs" "complexityIdentity g = complexityIdentity f"
      using unique_max[OF f(1)] f(2) by (metis option.inject)
    have s: "shadowed f g" using f(3) g identity_eq[of g f] by (simp add: shadowed_def moved_def)
    have "compareItem lc ComplexitySeverity c = no_change\<lparr>co_improvement := Some ((base_delta c LowerComplexity)
        \<lparr>dl_baselineComplexity := Some (cf_complexity g), dl_currentComplexity := Some (cf_complexity f)\<rparr>)\<rparr>"
      by (simp add: verdict Some lowerComplexityComparison_def f(4) g(1) delta_of_def del: compareItem.simps)
    then show ?thesis using s f(1) g(2) by (auto simp del: compareItem.simps)
  qed
qed

definition collided_item :: metric_item where
  "collided_item = count_item 2\<lparr>mi_maxComplexity := Some 15, mi_perFunction := Some
     [\<lparr>cf_line = 7, cf_label = ''Arrow function'', cf_complexity = 15\<rparr>,
      \<lparr>cf_line = 7, cf_label = ''Arrow function'', cf_complexity = 12\<rparr>]\<rparr>"

theorem unchanged_complexity_verdict_witness:
  "validateItem ''src/a.ts'' ComplexitySeverity collided_item = [] \<and>
   co_improvement (compareItem codeUnitCompare ComplexitySeverity
     \<lparr>ic_ratchet = sample_ratchet ''ratchet/c'' ''complexity'' ComplexitySeverity CoreSource, ic_path = ''src/a.ts'',
      ic_baselineItem = Some collided_item, ic_current = sample_current collided_item\<rparr>) \<noteq> None"
proof -
  let ?c = "\<lparr>ic_ratchet = sample_ratchet ''ratchet/c'' ''complexity'' ComplexitySeverity CoreSource, ic_path = ''src/a.ts'',
      ic_baselineItem = Some collided_item, ic_current = sample_current collided_item\<rparr>"
  have valid: "validateItem ''src/a.ts'' ComplexitySeverity collided_item = []" by code_simp
  have "metric_item.truncate (ic_current ?c) = collided_item"
    by (simp add: collided_item_def sample_current_def metric_item.defs count_item_def)
  from unchanged_complexity_verdict[OF _ this, of _ codeUnitCompare] valid show ?thesis
    by (auto simp: collided_item_def shadowed_def split: if_splits)
qed

end
