(* ===== verification/GroupMerge.thy ===== *)
theory GroupMerge
  imports GroupBaseline
begin

text \<open>
  What the grouped three-way merge computes: the result of each group as a function of its three
  versions, the laws a document family must satisfy (locale \<open>mergeable_spec\<close>), and, for every
  such family, that the merge does not depend on which side is called current and that a
  one-sided change is taken over whole.
\<close>

section \<open>The merge, group by group\<close>

definition group_result ::
    "('m, 'i) group_spec \<Rightarrow> ('m, 'i) merge_docs \<Rightarrow> string \<Rightarrow> ('m, 'i) changed_result" where
  "group_result spec inp groupId =
     (let v = groupVersions inp groupId
      in case chooseSimpleGroupMerge spec groupId v of
           Some g \<Rightarrow> \<lparr>cg_group = g, cg_failures = [], cg_truthUpRequired = False\<rparr>
         | None \<Rightarrow>
             (case (gv_current v, gv_other v) of
                (Some cur, Some oth) \<Rightarrow> mergeChangedGroup spec groupId (gv_base v) cur oth
              | _ \<Rightarrow> \<lparr>cg_group = None, cg_failures = [groupId @ removed_changed_text], cg_truthUpRequired = False\<rparr>))"

definition merged_groups ::
    "('m, 'i) group_spec \<Rightarrow> ('m, 'i) merge_docs \<Rightarrow> string list \<Rightarrow> (string \<times> ('m, 'i) group) list" where
  "merged_groups spec inp ks =
     concat (map (\<lambda>k. map (\<lambda>g. (k, g)) (option_list (cg_group (group_result spec inp k)))) ks)"

lemma group_step_result:
  assumes "groupId \<notin> fst ` set (ms_groups st)"
  shows "group_step spec inp groupId st =
    \<lparr>ms_groups = ms_groups st @ map (\<lambda>g. (groupId, g)) (option_list (cg_group (group_result spec inp groupId))),
     ms_failures = ms_failures st @ cg_failures (group_result spec inp groupId),
     ms_truthUp = (ms_truthUp st \<or> cg_truthUpRequired (group_result spec inp groupId))\<rparr>"
  using assms
  by (auto simp: group_step_def group_result_def Let_def option_list_def update_new_key split: option.splits)

lemma fold_group_step:
  assumes "distinct ks" and "set ks \<inter> fst ` set (ms_groups st) = {}"
  shows "fold (group_step spec inp) ks st =
    \<lparr>ms_groups = ms_groups st @ merged_groups spec inp ks,
     ms_failures = ms_failures st @ concat (map (\<lambda>k. cg_failures (group_result spec inp k)) ks),
     ms_truthUp = (ms_truthUp st \<or> list_ex (\<lambda>k. cg_truthUpRequired (group_result spec inp k)) ks)\<rparr>"
  using assms
proof (induction ks arbitrary: st)
  case Nil
  then show ?case by (simp add: merged_groups_def)
next
  case (Cons k ks)
  let ?st = "group_step spec inp k st"
  have step: "?st = \<lparr>ms_groups = ms_groups st @ map (\<lambda>g. (k, g)) (option_list (cg_group (group_result spec inp k))),
     ms_failures = ms_failures st @ cg_failures (group_result spec inp k),
     ms_truthUp = (ms_truthUp st \<or> cg_truthUpRequired (group_result spec inp k))\<rparr>"
    using Cons.prems by (intro group_step_result) auto
  have "set ks \<inter> fst ` set (ms_groups ?st) = {}"
    using Cons.prems by (auto simp: step option_list_def split: option.splits)
  with Cons show ?case by (simp add: step merged_groups_def)
qed

lemma distinct_allGroupIds [simp]: "distinct (allGroupIds spec inp)"
  by (simp add: allGroupIds_def)

lemma set_allGroupIds: "set (allGroupIds spec inp) =
    fst ` set (gb_groups (md_base inp)) \<union> fst ` set (gb_groups (md_current inp)) \<union> fst ` set (gb_groups (md_other inp))"
  by (auto simp: allGroupIds_def)

definition merge_failures :: "('m, 'i) group_spec \<Rightarrow> ('m, 'i) merge_docs \<Rightarrow> string list" where
  "merge_failures spec inp = concat (map (\<lambda>k. cg_failures (group_result spec inp k)) (allGroupIds spec inp))"

lemma mergeGroupedBaseline_eq:
  "mergeGroupedBaseline spec inp =
     (let out = groupedMergeOutput spec (merged_groups spec inp (allGroupIds spec inp));
          fs = merge_failures spec inp
      in if fs \<noteq> [] then \<lparr>mx_baseline = None, mx_partialBaseline = Some out, mx_failures = fs,
                          mx_postMergeTruthUpRequired = False\<rparr>
         else \<lparr>mx_baseline = Some out, mx_partialBaseline = None, mx_failures = [],
               mx_postMergeTruthUpRequired =
                 list_ex (\<lambda>k. cg_truthUpRequired (group_result spec inp k)) (allGroupIds spec inp)\<rparr>)"
  by (simp add: mergeGroupedBaseline_def fold_group_step Let_def merge_failures_def)

lemma group_result_outside:
  assumes "k \<notin> set (allGroupIds spec inp)"
  shows "group_result spec inp k = \<lparr>cg_group = None, cg_failures = [], cg_truthUpRequired = False\<rparr>"
proof -
  have "map_of (gb_groups (md_current inp)) k = None" "map_of (gb_groups (md_other inp)) k = None"
    using assms by (auto simp: set_allGroupIds map_of_eq_None_iff)
  then show ?thesis
    by (simp add: group_result_def groupVersions_def chooseSimpleGroupMerge_def Let_def)
qed

lemma lookup_merged_groups:
  "map_of (merged_groups spec inp (allGroupIds spec inp)) k = cg_group (group_result spec inp k)"
  by (simp add: merged_groups_def map_of_keyed_concat group_result_outside)

lemma distinct_merged_groups [simp]: "distinct (map fst (merged_groups spec inp (allGroupIds spec inp)))"
  by (simp add: merged_groups_def keyed_concat_keys)

lemma merge_ok_iff: "mx_failures (mergeGroupedBaseline spec inp) = [] \<longleftrightarrow>
    (\<forall>k. cg_failures (group_result spec inp k) = [])"
  by (auto simp: mergeGroupedBaseline_eq Let_def merge_failures_def group_result_outside)

lemma merge_ok_baseline:
  assumes "mx_failures (mergeGroupedBaseline spec inp) = []"
  shows "mx_baseline (mergeGroupedBaseline spec inp) =
      Some (groupedMergeOutput spec (merged_groups spec inp (allGroupIds spec inp)))"
  using assms by (auto simp: mergeGroupedBaseline_eq Let_def split: if_splits)

section \<open>One-sided changes\<close>

lemma sameCanonicalGroup_refl [simp]: "sameCanonicalGroup spec k g g"
  by (simp add: sameCanonicalGroup_def)

lemma sameCanonicalGroup_sym: "sameCanonicalGroup spec k g h = sameCanonicalGroup spec k h g"
  unfolding sameCanonicalGroup_def by (rule eq_commute)

lemma sameCanonicalGroup_trans:
  "sameCanonicalGroup spec k g h \<Longrightarrow> sameCanonicalGroup spec k h l \<Longrightarrow> sameCanonicalGroup spec k g l"
  by (simp add: sameCanonicalGroup_def)

definition same_version :: "('m, 'i) group_spec \<Rightarrow> string \<Rightarrow> ('m, 'i) group option \<Rightarrow> ('m, 'i) group option \<Rightarrow> bool" where
  "same_version spec k a b \<longleftrightarrow> (a = None \<and> b = None) \<or> same_opt spec k a b"

lemma choose_one_sided:
  assumes "same_version spec k (gv_current v) (gv_base v)"
  shows "\<exists>g. chooseSimpleGroupMerge spec k v = Some g \<and> (g = gv_other v \<or> (same_version spec k g (gv_other v)))"
  using assms
  by (auto simp: same_version_def chooseSimpleGroupMerge_def chooseAgainstBase_def chooseWithoutBase_def
      same_opt_def split: option.splits)

lemma choose_one_sided':
  assumes "same_version spec k (gv_other v) (gv_base v)"
  shows "\<exists>g. chooseSimpleGroupMerge spec k v = Some g \<and> (g = gv_current v \<or> same_version spec k g (gv_current v))"
  using assms
  by (auto simp: same_version_def chooseSimpleGroupMerge_def chooseAgainstBase_def chooseWithoutBase_def
      same_opt_def sameCanonicalGroup_def split: option.splits)

lemma one_sided_result:
  assumes "same_version spec k (map_of (gb_groups (md_current inp)) k) (map_of (gb_groups (md_base inp)) k)"
  shows "cg_failures (group_result spec inp k) = [] \<and> \<not> cg_truthUpRequired (group_result spec inp k) \<and>
    same_version spec k (cg_group (group_result spec inp k)) (map_of (gb_groups (md_other inp)) k)"
proof -
  from choose_one_sided[of spec k "groupVersions inp k"] assms obtain g where
    g: "chooseSimpleGroupMerge spec k (groupVersions inp k) = Some g"
       "g = map_of (gb_groups (md_other inp)) k \<or> same_version spec k g (map_of (gb_groups (md_other inp)) k)"
    by (auto simp: groupVersions_def)
  then show ?thesis
    by (cases "map_of (gb_groups (md_other inp)) k")
       (auto simp: group_result_def same_version_def same_opt_def)
qed

section \<open>Exchanging the sides\<close>

definition swap_docs :: "('m, 'i) merge_docs \<Rightarrow> ('m, 'i) merge_docs" where
  "swap_docs inp = inp\<lparr>md_current := md_other inp, md_other := md_current inp\<rparr>"

definition swap_versions :: "('m, 'i) group_versions \<Rightarrow> ('m, 'i) group_versions" where
  "swap_versions v = v\<lparr>gv_current := gv_other v, gv_other := gv_current v\<rparr>"

lemma groupVersions_swap: "groupVersions (swap_docs inp) k = swap_versions (groupVersions inp k)"
  by (simp add: groupVersions_def swap_docs_def swap_versions_def)

lemma choose_swap:
  "(case chooseSimpleGroupMerge spec k v of
      None \<Rightarrow> chooseSimpleGroupMerge spec k (swap_versions v) = None
    | Some g \<Rightarrow> \<exists>h. chooseSimpleGroupMerge spec k (swap_versions v) = Some h \<and> same_version spec k g h)"
  by (cases "gv_base v"; cases "gv_current v"; cases "gv_other v")
     (auto simp: chooseSimpleGroupMerge_def chooseAgainstBase_def chooseWithoutBase_def swap_versions_def
        same_version_def same_opt_def sameCanonicalGroup_def)

text \<open>
  The laws a document family promises the merge: metadata that counts as the same formats the
  same and selects the same item policy, the policy does not look at which side is which, and
  keys are ordered strictly.
\<close>

locale mergeable_spec =
  fixes spec :: "('m, 'i) group_spec" and meta_ok :: "'m \<Rightarrow> bool"
  assumes meta_sym: "gs_sameGroupMeta spec m n = gs_sameGroupMeta spec n m"
    and meta_format: "meta_ok m \<Longrightarrow> meta_ok n \<Longrightarrow> gs_sameGroupMeta spec m n \<Longrightarrow>
        gs_formatGroupMeta spec k m its r = gs_formatGroupMeta spec k n its r"
    and meta_item: "meta_ok m \<Longrightarrow> meta_ok n \<Longrightarrow> gs_sameGroupMeta spec m n \<Longrightarrow>
        gs_formatItem spec k key item m = gs_formatItem spec k key item n"
    and meta_policy: "meta_ok m \<Longrightarrow> meta_ok n \<Longrightarrow> gs_sameGroupMeta spec m n \<Longrightarrow>
        group_policy spec k m = group_policy spec k n"
    and policy_sym: "symmetric_policy (group_policy spec k m)"
    and item_keys: "strict_comparator (gs_compareItemKeys spec)"
    and group_keys: "strict_comparator (gs_compareGroupKeys spec)"
begin

lemma changed_swap:
  assumes "meta_ok (grp_meta c)" "meta_ok (grp_meta t)"
  shows "cg_failures (mergeChangedGroup spec k b t c) = cg_failures (mergeChangedGroup spec k b c t) \<and>
    cg_truthUpRequired (mergeChangedGroup spec k b t c) = cg_truthUpRequired (mergeChangedGroup spec k b c t) \<and>
    same_version spec k (cg_group (mergeChangedGroup spec k b t c)) (cg_group (mergeChangedGroup spec k b c t))"
proof (cases "gs_sameGroupMeta spec (grp_meta c) (grp_meta t)")
  case False
  then show ?thesis
    by (simp add: mergeChangedGroup_def meta_sym[of "grp_meta t"] same_version_def)
next
  case True
  let ?p = "group_policy spec k (grp_meta c)"
  have sw: "group_input spec b t c = swap_sides (group_input spec b c t)"
    by (simp add: group_input_def swap_sides_def)
  have "mergeItemMaps ?p (swap_sides (group_input spec b c t)) = mergeItemMaps ?p (group_input spec b c t)"
    using policy_sym by (rule symmetric_policy.merge_swap) (simp add: group_input_def item_keys)
  moreover have "group_policy spec k (grp_meta t) = ?p"
    using meta_policy[OF assms True] by simp
  ultimately have m: "mergeItemMaps (group_policy spec k (grp_meta t)) (group_input spec b t c) =
      mergeItemMaps ?p (group_input spec b c t)"
    by (simp add: sw)
  have f: "gs_formatItem spec k key item (grp_meta t) = gs_formatItem spec k key item (grp_meta c)"
     and g: "gs_formatGroupMeta spec k (grp_meta t) its r = gs_formatGroupMeta spec k (grp_meta c) its r"
     for key item its r
    using meta_item[OF assms True] meta_format[OF assms True] by simp_all
  show ?thesis using True
    by (simp add: mergeChangedGroup_def m Let_def meta_sym[of "grp_meta t"] same_version_def same_opt_def
        sameCanonicalGroup_def formattedGroupedTest_def sortedGroupedItems_def f g)
qed

definition docs_ok :: "('m, 'i) merge_docs \<Rightarrow> bool" where
  "docs_ok inp \<longleftrightarrow> (\<forall>d \<in> {md_base inp, md_current inp, md_other inp}.
     \<forall>(k, g) \<in> set (gb_groups d). meta_ok (grp_meta g))"

lemma result_swap:
  assumes "docs_ok inp"
  shows "cg_failures (group_result spec (swap_docs inp) k) = cg_failures (group_result spec inp k) \<and>
    cg_truthUpRequired (group_result spec (swap_docs inp) k) = cg_truthUpRequired (group_result spec inp k) \<and>
    same_version spec k (cg_group (group_result spec (swap_docs inp) k)) (cg_group (group_result spec inp k))"
proof (cases "chooseSimpleGroupMerge spec k (groupVersions inp k)")
  case (Some g)
  with choose_swap[of spec k "groupVersions inp k"] show ?thesis
    by (auto simp: group_result_def groupVersions_swap same_version_def same_opt_def
        sameCanonicalGroup_sym split: option.splits)
next
  case None
  with choose_swap[of spec k "groupVersions inp k"]
  have n: "chooseSimpleGroupMerge spec k (swap_versions (groupVersions inp k)) = None" by simp
  show ?thesis
  proof (cases "gv_current (groupVersions inp k) = None \<or> gv_other (groupVersions inp k) = None")
    case True
    with None n show ?thesis
      by (cases "gv_current (groupVersions inp k)"; cases "gv_other (groupVersions inp k)")
         (simp_all add: group_result_def groupVersions_swap swap_versions_def same_version_def Let_def)
  next
    case False
    then obtain c t where ct: "map_of (gb_groups (md_current inp)) k = Some c"
        "map_of (gb_groups (md_other inp)) k = Some t"
      by (auto simp: groupVersions_def)
    then have "meta_ok (grp_meta c)" "meta_ok (grp_meta t)"
      using assms by (auto simp: docs_ok_def dest!: map_of_SomeD)
    from changed_swap[OF this] ct None n show ?thesis
      by (simp add: group_result_def swap_docs_def swap_versions_def groupVersions_def Let_def)
  qed
qed

lemma ids_swap: "allGroupIds spec (swap_docs inp) = allGroupIds spec inp"
  unfolding allGroupIds_def swap_docs_def
  by (simp, rule strict_comparator.js_sort_cong[OF group_keys])
     (auto simp: set_eq_iff_mset_eq_distinct[symmetric])

text \<open>The text written by a merge is the same whichever side is current.\<close>

lemma failures_swap: "docs_ok inp \<Longrightarrow> merge_failures spec (swap_docs inp) = merge_failures spec inp"
  by (simp add: merge_failures_def ids_swap result_swap)

lemma formatted_groups_swap:
  assumes ok: "docs_ok inp"
    and pr: "\<And>k g. cg_group (group_result spec inp k) = Some g \<Longrightarrow> printable (formattedGroupedTest spec k g)"
    and pr': "\<And>k g. cg_group (group_result spec (swap_docs inp) k) = Some g \<Longrightarrow> printable (formattedGroupedTest spec k g)"
  shows "map (\<lambda>(k, g). (k, formattedGroupedTest spec k g)) (merged_groups spec (swap_docs inp) ks) =
         map (\<lambda>(k, g). (k, formattedGroupedTest spec k g)) (merged_groups spec inp ks)"
proof (induction ks)
  case Nil
  then show ?case by (simp add: merged_groups_def)
next
  case (Cons k ks)
  have "map (\<lambda>(k, g). (k, formattedGroupedTest spec k g)) (map (\<lambda>g. (k, g)) (option_list (cg_group (group_result spec (swap_docs inp) k))))
      = map (\<lambda>(k, g). (k, formattedGroupedTest spec k g)) (map (\<lambda>g. (k, g)) (option_list (cg_group (group_result spec inp k))))"
    using result_swap[OF ok, of k] pr[of k] pr'[of k]
    by (cases "cg_group (group_result spec (swap_docs inp) k)"; cases "cg_group (group_result spec inp k)")
       (auto simp: same_version_def same_opt_def option_list_def sameCanonicalGroup_def stringify_inject)
  with Cons.IH show ?case by (simp add: merged_groups_def)
qed

lemma merge_text_swap:
  assumes ok: "docs_ok inp" and root: "gs_rootKey spec = TestsRoot"
    and pr: "\<And>k g. cg_group (group_result spec inp k) = Some g \<Longrightarrow> printable (formattedGroupedTest spec k g)"
    and pr': "\<And>k g. cg_group (group_result spec (swap_docs inp) k) = Some g \<Longrightarrow> printable (formattedGroupedTest spec k g)"
  shows "mx_failures (mergeGroupedBaseline spec (swap_docs inp)) = mx_failures (mergeGroupedBaseline spec inp)"
    and "mx_postMergeTruthUpRequired (mergeGroupedBaseline spec (swap_docs inp)) =
         mx_postMergeTruthUpRequired (mergeGroupedBaseline spec inp)"
    and "map_option (formatGroupedBaseline spec) (mx_baseline (mergeGroupedBaseline spec (swap_docs inp))) =
         map_option (formatGroupedBaseline spec) (mx_baseline (mergeGroupedBaseline spec inp))"
proof -
  note fs = failures_swap[OF ok]
  show "mx_failures (mergeGroupedBaseline spec (swap_docs inp)) = mx_failures (mergeGroupedBaseline spec inp)"
    by (simp add: mergeGroupedBaseline_eq Let_def fs)
  have "(\<lambda>k. cg_truthUpRequired (group_result spec (swap_docs inp) k)) = (\<lambda>k. cg_truthUpRequired (group_result spec inp k))"
    using result_swap[OF ok] by auto
  then show "mx_postMergeTruthUpRequired (mergeGroupedBaseline spec (swap_docs inp)) =
         mx_postMergeTruthUpRequired (mergeGroupedBaseline spec inp)"
    by (simp add: mergeGroupedBaseline_eq Let_def fs ids_swap)
  let ?m = "merged_groups spec inp (allGroupIds spec inp)"
  let ?n = "merged_groups spec (swap_docs inp) (allGroupIds spec inp)"
  have "map (\<lambda>(k, g). (k, formattedGroupedTest spec k g)) (key_sort (gs_compareGroupKeys spec) ?n) =
        map (\<lambda>(k, g). (k, formattedGroupedTest spec k g)) (key_sort (gs_compareGroupKeys spec) ?m)"
    unfolding key_sort_map_values formatted_groups_swap[OF ok pr pr', simplified] ..
  then have "formatTestsDocument spec (groupedMergeOutput spec ?n) = formatTestsDocument spec (groupedMergeOutput spec ?m)"
    by (simp add: formatTestsDocument_def groupedMergeOutput_def)
  then show "map_option (formatGroupedBaseline spec) (mx_baseline (mergeGroupedBaseline spec (swap_docs inp))) =
         map_option (formatGroupedBaseline spec) (mx_baseline (mergeGroupedBaseline spec inp))"
    by (simp add: mergeGroupedBaseline_eq Let_def fs ids_swap formatGroupedBaseline_def root)
qed

text \<open>If every group comes out as a target document has it, the merge writes the target's text.\<close>

lemma merge_text_target:
  assumes res: "\<And>k. cg_failures (group_result spec inp k) = [] \<and> \<not> cg_truthUpRequired (group_result spec inp k) \<and>
      same_version spec k (cg_group (group_result spec inp k)) (map_of (gb_groups target) k)"
    and pr: "\<And>k g. cg_group (group_result spec inp k) = Some g \<Longrightarrow> printable (formattedGroupedTest spec k g)"
    and pt: "\<And>k g. map_of (gb_groups target) k = Some g \<Longrightarrow> printable (formattedGroupedTest spec k g)"
    and dist: "distinct (map fst (gb_groups target))"
  shows "\<exists>out. mergeGroupedBaseline spec inp = \<lparr>mx_baseline = Some out, mx_partialBaseline = None, mx_failures = [],
            mx_postMergeTruthUpRequired = False\<rparr> \<and>
          formatTestsDocument spec out = formatTestsDocument spec (groupedMergeOutput spec (gb_groups target))"
proof -
  let ?m = "merged_groups spec inp (allGroupIds spec inp)"
  let ?F = "map (\<lambda>(k, g). (k, formattedGroupedTest spec k g))"
  have fs: "merge_failures spec inp = []"
    by (simp add: merge_failures_def res)
  have "map_option (formattedGroupedTest spec k) (cg_group (group_result spec inp k)) =
        map_option (formattedGroupedTest spec k) (map_of (gb_groups target) k)" for k
    using res[of k] pr[of k] pt[of k]
    by (auto simp: same_version_def same_opt_def sameCanonicalGroup_def stringify_inject split: option.splits)
  then have m: "map_of (?F ?m) = map_of (?F (gb_groups target))"
    by (auto simp: fun_eq_iff map_of_map_values lookup_merged_groups)
  have d: "distinct (map fst (?F ?m))" "distinct (map fst (?F (gb_groups target)))"
    using dist distinct_merged_groups[of spec inp] by (simp_all add: split_beta comp_def)
  note uniq = strict_comparator.sorted_entries_unique[OF group_keys]
    and sorted = comparator.sorted_keys[OF strict_comparator.axioms(1)[OF group_keys]]
  have "key_sort (gs_compareGroupKeys spec) (?F ?m) = key_sort (gs_compareGroupKeys spec) (?F (gb_groups target))"
    by (rule uniq[OF sorted sorted])
       (use d m map_of_inject_set[OF d] in \<open>simp_all\<close>)
  then have "?F (key_sort (gs_compareGroupKeys spec) ?m) = ?F (key_sort (gs_compareGroupKeys spec) (gb_groups target))"
    unfolding key_sort_map_values .
  then have "formatTestsDocument spec (groupedMergeOutput spec ?m) =
      formatTestsDocument spec (groupedMergeOutput spec (gb_groups target))"
    by (simp add: formatTestsDocument_def groupedMergeOutput_def)
  then show ?thesis
    by (intro exI[of _ "groupedMergeOutput spec ?m"])
       (simp add: mergeGroupedBaseline_eq fs Let_def list_ex_iff res)
qed

end

end
