(* ===== verification/BaselineLaws.thy ===== *)
theory BaselineLaws
  imports MetricLaws BaselineSpec GroupMerge
begin

text \<open>
  The laws that the ratchet baseline family promises the generic merge: its item policy keeps the
  floor and does not look at the sides, and metadata that counts as the same formats the same. The
  interpretations instantiate the locales of the item walk and of the grouped merge with
  \<open>lintRatchetBaselineSpec\<close>.
\<close>

section \<open>Items as JSON\<close>

lemma distinct_item_members:
  "distinct (map fst ([(''count'', a)] @ opt_field ''lines'' f b @ opt_field ''maxComplexity'' g c
      @ opt_field ''perFunction'' h d @ opt_field ''messagesFingerprint'' k e))"
  by (simp add: opt_field_def split: option.splits)

lemma item_members:
  "map_of ([(''count'', a)] @ opt_field ''lines'' f b @ opt_field ''maxComplexity'' g c
      @ opt_field ''perFunction'' h d @ opt_field ''messagesFingerprint'' k e) =
   (\<lambda>key. if key = ''count'' then Some a else if key = ''lines'' then map_option f b
      else if key = ''maxComplexity'' then map_option g c else if key = ''perFunction'' then map_option h d
      else if key = ''messagesFingerprint'' then map_option k e else None)"
  by (cases b; cases c; cases d; cases e) (auto simp: opt_field_def fun_eq_iff)

lemma canonical_functions_inj:
  "map canonicalValue (map function_json fs) = map canonicalValue (map function_json gs) \<longleftrightarrow> fs = gs"
proof -
  have "f = g" if eq: "canonicalValue (function_json f) = canonicalValue (function_json g)" for f g
  proof -
    let ?m = "\<lambda>f. [(''line'', JInt (cf_line f)), (''label'', JStr (cf_label f)), (''complexity'', JInt (cf_complexity f))]"
    note m = canonical_member[of "?m f" "?m g", OF eq[unfolded function_json_def], simplified]
    have "cf_line f = cf_line g" using m[of "''line''"] by simp
    moreover have "cf_label f = cf_label g" using m[of "''label''"] by simp
    moreover have "cf_complexity f = cf_complexity g" using m[of "''complexity''"] by simp
    ultimately show ?thesis by simp
  qed
  then have "inj (canonicalValue \<circ> function_json)" by (auto simp: inj_def)
  then show ?thesis by (metis inj_map_eq_map map_map)
qed

lemma printable_item [simp]: "printable (item_json i)"
  by (auto simp: item_json_def opt_field_def function_json_def list_all_iff split: option.splits)

lemma item_json_canonical_inj:
  assumes "canonicalValue (item_json i) = canonicalValue (item_json j)"
  shows "i = j"
proof -
  note m = canonical_member[OF assms[unfolded item_json_def] distinct_item_members distinct_item_members, unfolded item_members]
  have "mi_count i = mi_count j" using m[of "''count''"] by simp
  moreover have "mi_lines i = mi_lines j"
    using m[of "''lines''"] by (cases "mi_lines i"; cases "mi_lines j") auto
  moreover have "mi_maxComplexity i = mi_maxComplexity j"
    using m[of "''maxComplexity''"] by (cases "mi_maxComplexity i"; cases "mi_maxComplexity j") auto
  moreover have "mi_perFunction i = mi_perFunction j"
    using m[of "''perFunction''"] canonical_functions_inj
    by (cases "mi_perFunction i"; cases "mi_perFunction j") auto
  moreover have "mi_messagesFingerprint i = mi_messagesFingerprint j"
    using m[of "''messagesFingerprint''"] by (cases "mi_messagesFingerprint i"; cases "mi_messagesFingerprint j") auto
  ultimately show ?thesis by simp
qed

lemma same_item_iff [simp]: "sameCanonicalValue (item_json i) (item_json j) \<longleftrightarrow> i = j"
  using item_json_canonical_inj by (auto simp: sameCanonicalValue_iff)

section \<open>Merging items\<close>

declare formatItem.simps [simp del]

lemma deterministic_sym: "deterministicMessagesFingerprint l r = deterministicMessagesFingerprint r l"
proof (cases "\<exists>a b. l = Some a \<and> r = Some b \<and> a \<noteq> b")
  case True
  then obtain a b where l: "l = Some a" and r: "r = Some b" and ne: "a \<noteq> b" by blast
  have neg: "codeUnitCompare b a = - codeUnitCompare a b"
    unfolding codeUnitCompare_eq compareByCodepoint_def compare_units_lex by (rule lex_cmp_neg)
  have "codeUnitCompare a b \<noteq> 0"
    using ne cu.cmp_antisym[of a b] neg by fastforce
  with ne show ?thesis
    by (simp add: deterministicMessagesFingerprint_def l r neg)
next
  case False
  then show ?thesis
    by (cases l; cases r) (auto simp: deterministicMessagesFingerprint_def)
qed

lemma formatItem_count [simp]: "mi_count (formatItem lc m i) = mi_count i"
  by (cases m) (auto simp: formatItem.simps count_item_def Let_def split: option.splits)

lemma meet_sym:
  assumes "mi_count l = mi_count r"
  shows "meetSameCountItem lc m path l r = meetSameCountItem lc m path r l"
  using assms
proof (cases m)
  case MessageCount
  then show ?thesis
    by (simp add: assms Let_def deterministic_sym[of "mi_messagesFingerprint l" "mi_messagesFingerprint r"]
        eq_commute[of "mi_messagesFingerprint l"] split: option.split)
next
  case EffectiveLineCount
  then show ?thesis using assms
    by (auto simp: min.commute split: option.splits)
next
  case ComplexitySeverity
  then show ?thesis by (auto simp: Let_def)
qed

lemma mergeSharedItem_sym: "mergeSharedItem lc k m path a b = mergeSharedItem lc k m path b a"
  by (auto simp: mergeSharedItem_def lowerCountItem_def meet_sym split: option.splits)

definition lines_below :: "int option \<Rightarrow> int option \<Rightarrow> bool" where
  "lines_below a b = (case (a, b) of (Some l, Some r) \<Rightarrow> l \<le> r | _ \<Rightarrow> a = b)"

text \<open>The floor of a merge: fewer findings, or as many and a payload that is not above.\<close>

definition item_below :: "string cmp \<Rightarrow> metric \<Rightarrow> metric_item \<Rightarrow> metric_item \<Rightarrow> bool" where
  "item_below lc m i j \<longleftrightarrow> mi_count i < mi_count j \<or> (mi_count i = mi_count j \<and>
     (m = EffectiveLineCount \<longrightarrow> lines_below (mi_lines i) (mi_lines j)) \<and>
     (m = ComplexitySeverity \<longrightarrow> i = j \<or> i = formatItem lc ComplexitySeverity j))"

lemma item_below_refl [simp]: "item_below lc m i i"
  by (auto simp: item_below_def lines_below_def split: option.splits)

lemma meet_below:
  assumes "meetSameCountItem lc m path l r = Inr (i, t)" and "mi_count l = mi_count r"
  shows "item_below lc m i l \<and> item_below lc m i r"
  using assms
  by (cases m) (auto simp: item_below_def lines_below_def Let_def count_item_def split: option.splits if_splits)

lemma mergeShared_below:
  assumes "oc_failure (mergeSharedItem lc k m path c t) = None" "oc_item (mergeSharedItem lc k m path c t) = Some i"
  shows "item_below lc (gm_metric m) i c \<and> item_below lc (gm_metric m) i t"
  using assms
  by (auto simp: mergeSharedItem_def lowerCountItem_def merge_fail_def item_below_def lines_below_def
      split: if_splits sum.splits option.splits dest!: meet_below)

section \<open>Metadata\<close>

definition meta_printable :: "group_meta \<Rightarrow> bool" where
  "meta_printable m \<longleftrightarrow> list_all printable (gm_ruleOptions m)"

lemma distinct_meta_members [simp]: "distinct (map fst (meta_members m))"
  by (simp add: meta_members_def)

lemma printable_strings [simp]: "printable (strings_json ss)"
  by (simp add: strings_json_def list_all_iff)

lemma printable_meta: "meta_printable m \<Longrightarrow> printable (JObj (meta_members m))"
  by (simp add: meta_printable_def meta_members_def)

definition same_meta :: "group_meta \<Rightarrow> group_meta \<Rightarrow> bool" where
  "same_meta m n \<longleftrightarrow> sameCanonicalValue (JObj (meta_members m)) (JObj (meta_members n))"

lemma same_meta_fields:
  assumes "meta_printable m" "meta_printable n" "same_meta m n"
  shows "gm_ruleId m = gm_ruleId n \<and> gm_mode m = gm_mode n \<and> gm_metric m = gm_metric n \<and>
    gm_files m = gm_files n \<and> gm_ignores m = gm_ignores n \<and>
    normalizeRuleOptions (gm_ruleOptions m) = normalizeRuleOptions (gm_ruleOptions n) \<and>
    gm_configHash m = gm_configHash n \<and> gm_ruleSourceHash m = gm_ruleSourceHash n"
proof -
  have "canonicalValue (JObj (meta_members m)) = canonicalValue (JObj (meta_members n))"
    using assms by (simp add: same_meta_def sameCanonicalValue_iff printable_meta del: printable.simps)
  note c = canonical_member[OF this distinct_meta_members distinct_meta_members]
  have "gm_ruleId m = gm_ruleId n" using c[of "''ruleId''"] by (simp add: meta_members_def)
  moreover have "gm_metric m = gm_metric n" using c[of "''metric''"] by (simp add: meta_members_def)
  moreover have "gm_files m = gm_files n"
    using c[of "''files''"] by (simp add: meta_members_def strings_json_def del: map_map)
  moreover have "gm_ignores m = gm_ignores n"
    using c[of "''ignores''"] by (simp add: meta_members_def strings_json_def del: map_map)
  moreover have "normalizeRuleOptions (gm_ruleOptions m) = normalizeRuleOptions (gm_ruleOptions n)"
    using c[of "''ruleOptions''"]
    by (simp add: meta_members_def normalizeRuleOptions_def normalize_eq_canonical[abs_def])
  moreover have "gm_configHash m = gm_configHash n" using c[of "''configHash''"] by (simp add: meta_members_def)
  moreover have "gm_ruleSourceHash m = gm_ruleSourceHash n" using c[of "''ruleSourceHash''"] by (simp add: meta_members_def)
  ultimately show ?thesis by simp
qed

lemma same_meta_format:
  assumes "meta_printable m" "meta_printable n" "same_meta m n"
  shows "formatGroupMeta m = formatGroupMeta n"
  using same_meta_fields[OF assms] by (simp add: formatGroupMeta_def meta_members_def)

section \<open>Interpretations\<close>

lemmas spec_defs = lintRatchetBaselineSpec_def group_policy_def

interpretation ratchet_items:
  merge_policy "group_policy (lintRatchetBaselineSpec lc policy vocab bf) k m" "item_below lc (gm_metric m)" "\<lambda>_. True"
  for lc policy vocab bf k m
proof unfold_locales
  fix i j :: metric_item
  show "item_below lc (gm_metric m) i j \<Longrightarrow>
      po_count (group_policy (lintRatchetBaselineSpec lc policy vocab bf) k m) i
      \<le> po_count (group_policy (lintRatchetBaselineSpec lc policy vocab bf) k m) j"
    by (auto simp: item_below_def spec_defs)
next
  fix p and c t i :: metric_item
  assume "oc_failure (po_mergeShared (group_policy (lintRatchetBaselineSpec lc policy vocab bf) k m) p c t) = None"
    and "oc_item (po_mergeShared (group_policy (lintRatchetBaselineSpec lc policy vocab bf) k m) p c t) = Some i"
  then show "item_below lc (gm_metric m) i c \<and> item_below lc (gm_metric m) i t"
    using mergeShared_below[of lc k m p c t i] by (simp add: spec_defs)
next
  fix p and c t :: metric_item
  assume "oc_failure (po_mergeShared (group_policy (lintRatchetBaselineSpec lc policy vocab bf) k m) p c t) = None"
  then show "oc_item (po_mergeShared (group_policy (lintRatchetBaselineSpec lc policy vocab bf) k m) p c t) \<noteq> None"
    by (auto simp: spec_defs mergeSharedItem_def merge_fail_def split: option.splits sum.splits)
qed (auto simp: spec_defs mergeOneSidedItem_def keep_def drop_key_def split: if_splits)

interpretation ratchet_sides:
  symmetric_policy "group_policy (lintRatchetBaselineSpec lc policy vocab bf) k m"
  for lc policy vocab bf k m
  by unfold_locales (simp add: spec_defs, rule mergeSharedItem_sym)

interpretation ratchet_spec:
  mergeable_spec "lintRatchetBaselineSpec lc policy vocab bf" meta_printable
  for lc policy vocab bf
proof (rule mergeable_spec.intro)
  show "strict_comparator (gs_compareItemKeys (lintRatchetBaselineSpec lc policy vocab bf))"
    "strict_comparator (gs_compareGroupKeys (lintRatchetBaselineSpec lc policy vocab bf))"
    by (simp_all add: lintRatchetBaselineSpec_def cp.strict_comparator_axioms)
next
  fix m n k and its :: "(string \<times> metric_item) list" and r
  assume p: "meta_printable m" "meta_printable n" and "gs_sameGroupMeta (lintRatchetBaselineSpec lc policy vocab bf) m n"
  then have s: "same_meta m n" by (simp add: lintRatchetBaselineSpec_def same_meta_def)
  show "gs_formatGroupMeta (lintRatchetBaselineSpec lc policy vocab bf) k m its r =
        gs_formatGroupMeta (lintRatchetBaselineSpec lc policy vocab bf) k n its r"
    using same_meta_format[OF p s] by (simp add: lintRatchetBaselineSpec_def)
next
  fix m n k key and item :: metric_item
  assume p: "meta_printable m" "meta_printable n" and "gs_sameGroupMeta (lintRatchetBaselineSpec lc policy vocab bf) m n"
  then have s: "same_meta m n" by (simp add: lintRatchetBaselineSpec_def same_meta_def)
  show "gs_formatItem (lintRatchetBaselineSpec lc policy vocab bf) k key item m =
        gs_formatItem (lintRatchetBaselineSpec lc policy vocab bf) k key item n"
    using same_meta_fields[OF p s] by (simp add: lintRatchetBaselineSpec_def)
next
  fix m n k
  assume p: "meta_printable m" "meta_printable n" and "gs_sameGroupMeta (lintRatchetBaselineSpec lc policy vocab bf) m n"
  then have s: "same_meta m n" by (simp add: lintRatchetBaselineSpec_def same_meta_def)
  show "group_policy (lintRatchetBaselineSpec lc policy vocab bf) k m =
        group_policy (lintRatchetBaselineSpec lc policy vocab bf) k n"
    using conjunct1[OF conjunct2[OF conjunct2[OF same_meta_fields[OF p s]]]]
    by (simp add: spec_defs mergeSharedItem_def[abs_def] mergeOneSidedItem_def[abs_def] cong: option.case_cong)
next
  fix m n
  show "gs_sameGroupMeta (lintRatchetBaselineSpec lc policy vocab bf) m n =
        gs_sameGroupMeta (lintRatchetBaselineSpec lc policy vocab bf) n m"
    by (simp add: lintRatchetBaselineSpec_def) (rule sameCanonicalValue_sym)
qed (rule ratchet_sides.symmetric_policy_axioms)

end
