(* ===== verification/BaselineMerge.thy ===== *)
theory BaselineMerge
  imports BaselineValidation BaselineLaws
begin

text \<open>
  \<open>kernel/baseline-merge.ts\<close>: the semantic merge driver for the committed ratchet baseline, and
  its properties. The grouped merge runs with \<open>lintRatchetBaselineSpec\<close>; the interpretations
  below discharge the laws of the item walk and of the grouped merge for it.
\<close>

definition ratchetMergeFailure :: "string \<Rightarrow> string" where
  "ratchetMergeFailure failure =
     js_replace '': one side removed the baseline group while the other changed it;''
                '': one side removed the ratchet while the other changed it;''
       (js_replace '': baseline group metadata differs between sides;''
                   '': ratchet metadata differs between sides;'' failure)"

definition mergedBaseline ::
    "(group_meta, metric_item) merge_docs_result \<Rightarrow> version_policy \<Rightarrow> baseline_error + ratchet_baseline option" where
  "mergedBaseline result policy =
     (case or_else (mx_baseline result) (mx_partialBaseline result) of
        None \<Rightarrow> Inr None
      | Some b \<Rightarrow> and_then (lintRatchetBaselineFromGrouped b policy) (\<lambda>r. Inr (Some r)))"

text \<open>The parsed side, or \<open>None\<close>, with the failures it pushes.\<close>

definition parseMergeBaseline ::
    "json_parser \<Rightarrow> string cmp \<Rightarrow> string \<Rightarrow> string \<Rightarrow> version_policy \<Rightarrow> workflow_vocabulary \<Rightarrow> string \<Rightarrow>
     baseline_error + (ratchet_baseline option \<times> string list)" where
  "parseMergeBaseline jp lc label txt policy vocab baselineFile =
     (if label = ''base'' \<and> js_trim txt = []
      then Inr (Some \<lparr>bl_version = vp_writeVersion policy,
                      bl_regenerate = map_option JStr
                        (lintRatchetBaselineRegenerateForVersion (vp_writeVersion policy) (wv_updateCommand vocab)),
                      bl_tests = []\<rparr>, [])
      else and_then (parseLintRatchetBaselineStructure jp lc txt vocab policy baselineFile)
             (\<lambda>result. case sb_baseline result of
                Some b \<Rightarrow> Inr (Some b, [])
              | None \<Rightarrow> Inr (None, map (\<lambda>failure. label @ '' '' @ failure) (sb_failures result))))"

definition validateMergedBaseline :: "ratchet_baseline \<Rightarrow> string list" where
  "validateMergedBaseline b =
     concat (map (\<lambda>(testId, test).
       fail_if (gm_ruleSourceHash test = []) (testId @ ''.ruleSourceHash is required'')
       @ concat (map (\<lambda>(path, item). map item_failure_text
           (validateItem (testId @ ''.items.'' @ path) (gm_metric test) item)) (bt_items test))) (bl_tests b))"

record merge_text_result =
  mt_mergedText :: "string option"
  mt_failures :: "string list"
  mt_postMergeTruthUpRequired :: bool

datatype merge_error = MergeKernelError kernel_error | MergeReturnedNothing

text \<open>The part after the three texts are parsed.\<close>

definition mergeParsedBaselines ::
    "string cmp \<Rightarrow> version_policy \<Rightarrow> workflow_vocabulary \<Rightarrow> string \<Rightarrow>
     ratchet_baseline \<Rightarrow> ratchet_baseline \<Rightarrow> ratchet_baseline \<Rightarrow> merge_error + merge_text_result" where
  "mergeParsedBaselines lc policy vocab baselineFile base current other =
     (let grouped = mergeGroupedBaseline (lintRatchetBaselineSpec lc policy vocab baselineFile)
            \<lparr>md_base = lintRatchetBaselineToGrouped base, md_current = lintRatchetBaselineToGrouped current,
             md_other = lintRatchetBaselineToGrouped other\<rparr>
      in and_then (lift_error (\<lambda>e. MergeKernelError (BaselineFailure e)) (mergedBaseline grouped policy))
           (\<lambda>b. case b of
              None \<Rightarrow> Inl MergeReturnedNothing
            | Some baseline \<Rightarrow>
                (let failures = map ratchetMergeFailure (mx_failures grouped) @ validateMergedBaseline baseline
                 in if failures \<noteq> []
                    then Inr \<lparr>mt_mergedText = None, mt_failures = failures, mt_postMergeTruthUpRequired = False\<rparr>
                    else and_then (lift_error (\<lambda>e. MergeKernelError (FormatFailure e))
                                    (formatLintRatchetBaseline lc baseline vocab))
                           (\<lambda>txt. Inr \<lparr>mt_mergedText = Some txt, mt_failures = [],
                                       mt_postMergeTruthUpRequired = mx_postMergeTruthUpRequired grouped\<rparr>))))"

record merge_options =
  mo_baseText :: string
  mo_currentText :: string
  mo_otherText :: string
  mo_versionPolicy :: "version_policy option"
  mo_workflowVocabulary :: workflow_vocabulary
  mo_baselineFile :: "string option"

definition mergeLintRatchetBaselines ::
    "json_parser \<Rightarrow> string cmp \<Rightarrow> merge_options \<Rightarrow> merge_error + merge_text_result" where
  "mergeLintRatchetBaselines jp lc opts =
     (let policy = (case mo_versionPolicy opts of None \<Rightarrow> default_version_policy | Some p \<Rightarrow> p);
          baselineFile = (case mo_baselineFile opts of None \<Rightarrow> DEFAULT_BASELINE_FILENAME | Some f \<Rightarrow> f);
          vocab = mo_workflowVocabulary opts;
          side = (\<lambda>label txt. lift_error (\<lambda>e. MergeKernelError (BaselineFailure e))
                                (parseMergeBaseline jp lc label txt policy vocab baselineFile))
      in and_then (side ''base'' (mo_baseText opts)) (\<lambda>(base, f1).
         and_then (side ''current'' (mo_currentText opts)) (\<lambda>(current, f2).
         and_then (side ''other'' (mo_otherText opts)) (\<lambda>(other, f3).
           case (base, current, other) of
             (Some b, Some c, Some t) \<Rightarrow> mergeParsedBaselines lc policy vocab baselineFile b c t
           | _ \<Rightarrow> Inr \<lparr>mt_mergedText = None, mt_failures = f1 @ f2 @ f3,
                       mt_postMergeTruthUpRequired = False\<rparr>))))"

section \<open>Well-formed sides\<close>

text \<open>
  Every key of a JavaScript object occurs once, and rule options are JSON values: what any parsed
  baseline satisfies. \<open>side_ok\<close> adds that the side passes the validation of a merge result.
\<close>

definition test_wf :: "baseline_test \<Rightarrow> bool" where
  "test_wf t \<longleftrightarrow> distinct (map fst (bt_items t)) \<and> meta_printable (test_meta t)"

definition baseline_wf :: "ratchet_baseline \<Rightarrow> bool" where
  "baseline_wf b \<longleftrightarrow> distinct (map fst (bl_tests b)) \<and> list_all (\<lambda>(_, t). test_wf t) (bl_tests b)"

definition side_ok :: "ratchet_baseline \<Rightarrow> bool" where
  "side_ok b \<longleftrightarrow> baseline_wf b \<and> validateMergedBaseline b = []"

definition item_valid :: "metric \<Rightarrow> metric_item \<Rightarrow> bool" where
  "item_valid m i \<longleftrightarrow> validateItem [] m i = []"

lemma validateItem_path: "validateItem p m i = [] \<longleftrightarrow> item_valid m i"
  by (cases m) (auto simp: item_valid_def split: option.splits)

definition group_ok :: "(group_meta, metric_item) group \<Rightarrow> bool" where
  "group_ok g \<longleftrightarrow> meta_printable (grp_meta g) \<and> gm_ruleSourceHash (grp_meta g) \<noteq> [] \<and>
     distinct (map fst (grp_items g)) \<and>
     list_all (\<lambda>(_, i). mi_count i > 0 \<and> item_valid (gm_metric (grp_meta g)) i) (grp_items g)"

lemma validateMergedBaseline_Nil:
  "validateMergedBaseline b = [] \<longleftrightarrow>
     list_all (\<lambda>(_, t). gm_ruleSourceHash t \<noteq> [] \<and> list_all (\<lambda>(_, i). item_valid (gm_metric t) i) (bt_items t)) (bl_tests b)"
  by (auto simp: validateMergedBaseline_def list_all_iff validateItem_path split: prod.splits)

lemma test_meta_fields [simp]:
  "gm_metric (test_meta t) = gm_metric t" "gm_ruleSourceHash (test_meta t) = gm_ruleSourceHash t"
  "gm_ruleOptions (test_meta t) = gm_ruleOptions t"
  by (simp_all add: test_meta_def group_meta.defs)

lemma side_group_ok:
  assumes "side_ok b" and "map_of (gb_groups (lintRatchetBaselineToGrouped b)) k = Some g"
  shows "group_ok g"
proof -
  from assms(2) obtain t where t: "(k, t) \<in> set (bl_tests b)"
    and g: "g = \<lparr>grp_meta = test_meta t, grp_items = positiveItemMap (bt_items t)\<rparr>"
    by (auto simp: lintRatchetBaselineToGrouped_def dest!: map_of_SomeD)
  from assms(1) t show ?thesis
    by (auto simp: side_ok_def baseline_wf_def test_wf_def validateMergedBaseline_Nil list_all_iff g
        group_ok_def positiveItemMap_def intro!: distinct_map_filter)
qed

lemma grouped_wf_meta:
  assumes "baseline_wf b" and "(k, g) \<in> set (gb_groups (lintRatchetBaselineToGrouped b))"
  shows "meta_printable (grp_meta g)"
  using assms by (auto simp: baseline_wf_def test_wf_def list_all_iff lintRatchetBaselineToGrouped_def)

section \<open>What the groups of the result are\<close>

lemma choose_source:
  "chooseSimpleGroupMerge spec k v = Some (Some g) \<Longrightarrow> gv_current v = Some g \<or> gv_other v = Some g"
  by (auto simp: chooseSimpleGroupMerge_def chooseAgainstBase_def chooseWithoutBase_def split: if_splits)

lemma formatItem_valid:
  assumes "item_valid m i" "mi_count i > 0"
  shows "item_valid m (formatItem lc m i)"
proof (cases m)
  case ComplexitySeverity
  then obtain fs x where f: "mi_perFunction i = Some fs" "mi_count i = int (length fs)" "mi_maxComplexity i = Some x"
    using assms by (auto simp: item_valid_def split: option.splits)
  with assms(2) have "fs \<noteq> []" by auto
  then show ?thesis using ComplexitySeverity f
    by (auto simp: item_valid_def formatItem.simps sortedComplexityFunctions_def maxComplexityFor_Max count_item_def Let_def)
qed (use assms in \<open>auto simp: item_valid_def formatItem.simps count_item_def split: option.splits\<close>)

lemma meet_valid:
  assumes "meetSameCountItem lc m path l r = Inr (i, t)" "item_valid m l" "mi_count l > 0"
  shows "item_valid m i"
  using assms formatItem_valid[of m l lc]
  by (cases m) (auto simp: item_valid_def count_item_def Let_def split: option.splits if_splits)

lemma mergeShared_valid:
  assumes "oc_item (mergeSharedItem lc k m path c t) = Some i" "item_valid (gm_metric m) c" "item_valid (gm_metric m) t"
    "mi_count c > 0"
  shows "item_valid (gm_metric m) i"
  using assms
  by (auto simp: mergeSharedItem_def lowerCountItem_def merge_fail_def
      split: if_splits sum.splits option.splits dest: meet_valid)

lemma kept_ok:
  assumes "kept (group_policy (lintRatchetBaselineSpec lc policy vocab bf) k m)
      (group_input (lintRatchetBaselineSpec lc policy vocab bf) b c t) path = Some i"
    and "grp_meta c = m" "gm_metric (grp_meta t) = gm_metric m" "group_ok c" "group_ok t"
  shows "mi_count i > 0 \<and> item_valid (gm_metric m) i"
  using assms
  by (auto simp: kept_def resolveKey_def Let_def spec_defs group_input_def drop_key_def mergeOneSidedItem_def
      keep_def group_ok_def list_all_iff split: option.splits if_splits
      dest!: map_of_SomeD intro: mergeShared_valid)

lemma result_group_ok:
  assumes r: "cg_group (group_result (lintRatchetBaselineSpec lc policy vocab bf) docs k) = Some g"
    and c: "\<And>g. map_of (gb_groups (md_current docs)) k = Some g \<Longrightarrow> group_ok g"
    and t: "\<And>g. map_of (gb_groups (md_other docs)) k = Some g \<Longrightarrow> group_ok g"
  shows "group_ok g"
proof (cases "chooseSimpleGroupMerge (lintRatchetBaselineSpec lc policy vocab bf) k (groupVersions docs k)")
  case (Some d)
  with r have "d = Some g" by (simp add: group_result_def Let_def)
  with Some choose_source c t show ?thesis by (fastforce simp: groupVersions_def)
next
  case None
  with r obtain gc gt where sides: "map_of (gb_groups (md_current docs)) k = Some gc"
      "map_of (gb_groups (md_other docs)) k = Some gt"
    and m: "cg_group (mergeChangedGroup (lintRatchetBaselineSpec lc policy vocab bf) k (gv_base (groupVersions docs k)) gc gt) = Some g"
    by (auto simp: group_result_def groupVersions_def Let_def split: option.splits)
  let ?s = "lintRatchetBaselineSpec lc policy vocab bf"
  let ?r = "mergeItemMaps (group_policy ?s k (grp_meta gc)) (group_input ?s (gv_base (groupVersions docs k)) gc gt)"
  have ok: "group_ok gc" "group_ok gt" using sides c t by auto
  from m have sm: "gs_sameGroupMeta ?s (grp_meta gc) (grp_meta gt)"
    and g: "g = \<lparr>grp_meta = grp_meta gc, grp_items = mr_merged ?r\<rparr>"
    by (auto simp: mergeChangedGroup_def Let_def split: if_splits)
  have "gm_metric (grp_meta gt) = gm_metric (grp_meta gc)"
    using same_meta_fields[of "grp_meta gc" "grp_meta gt"] ok sm
    by (simp add: group_ok_def same_meta_def lintRatchetBaselineSpec_def)
  then have "mi_count i > 0 \<and> item_valid (gm_metric (grp_meta gc)) i" if "(p, i) \<in> set (mr_merged ?r)" for p i
    using kept_ok[OF _ refl, of lc policy vocab bf k gc _ gt p i] ok map_of_is_SomeI[OF distinct_merged that]
    by (simp add: lookup_merged)
  then show ?thesis
    using ok by (auto simp: group_ok_def g list_all_iff)
qed

section \<open>From the grouped result to the text\<close>

lemma positive_all: "list_all (\<lambda>(_, i). mi_count i > 0) items \<Longrightarrow> positiveItemMap items = items"
  by (simp add: positiveItemMap_def list_all_iff filter_id_conv split_beta)

lemma to_from_grouped:
  assumes "gb_version out \<in> set (vp_acceptedVersions policy)" and "distinct (map fst (gb_groups out))"
    and "\<And>k g. (k, g) \<in> set (gb_groups out) \<Longrightarrow> list_all (\<lambda>(_, i). mi_count i > 0) (grp_items g)"
  shows "\<exists>b. lintRatchetBaselineFromGrouped out policy = Inr b \<and> lintRatchetBaselineToGrouped b = out \<and>
    bl_tests b = map (\<lambda>(k, g). (k, baselineTestFromGroup (grp_meta g) (grp_items g))) (gb_groups out)"
proof -
  let ?ts = "map (\<lambda>(k, g). (k, baselineTestFromGroup (grp_meta g) (grp_items g))) (gb_groups out)"
  have d: "distinct (map fst ?ts)" using assms(2) by (simp add: split_beta comp_def)
  have rev: "map (\<lambda>(k, t). (k, \<lparr>grp_meta = test_meta t, grp_items = positiveItemMap (bt_items t)\<rparr>)) ?ts = gb_groups out"
    unfolding map_map
    by (rule map_idI) (use assms(3) in \<open>auto simp: baselineTestFromGroup_def test_meta_def group_meta.defs
        baseline_test.defs positive_all\<close>)
  show ?thesis
    using assms(1) d rev
    by (simp add: lintRatchetBaselineFromGrouped_def lintRatchetBaselineToGrouped_def)
qed

text \<open>The tests document does not depend on the version policy, the vocabulary or the file name.\<close>

lemma format_policy_free:
  "formatGroupedBaseline (lintRatchetBaselineSpec lc p1 v1 f1) out =
   formatGroupedBaseline (lintRatchetBaselineSpec lc p2 v2 f2) out"
  by (simp add: formatGroupedBaseline_def formatTestsDocument_def formattedGroupedTest_def
      sortedGroupedItems_def lintRatchetBaselineSpec_def)

definition tests_text :: "string cmp \<Rightarrow> (group_meta, metric_item) grouped_baseline \<Rightarrow> string" where
  "tests_text lc out = stringify2 (formatTestsDocument
     (lintRatchetBaselineSpec lc default_version_policy \<lparr>wv_updateCommand = [], wv_regressionUpdateCommand = [],
        wv_debtAcceptanceCommand = [], wv_installMergeDriverCommand = [], wv_restoreBaselineOursCommand = id,
        wv_trendAllCommand = []\<rparr> []) out) @ [CHR 0x0A]"

lemma format_tests_text: "formatGroupedBaseline (lintRatchetBaselineSpec lc p v f) out = Inr (tests_text lc out)"
  unfolding tests_text_def
  by (simp add: formatGroupedBaseline_def formatTestsDocument_def formattedGroupedTest_def
      sortedGroupedItems_def lintRatchetBaselineSpec_def)

definition merge_docs_of :: "ratchet_baseline \<Rightarrow> ratchet_baseline \<Rightarrow> ratchet_baseline \<Rightarrow> (group_meta, metric_item) merge_docs" where
  "merge_docs_of base cur oth = \<lparr>md_base = lintRatchetBaselineToGrouped base,
     md_current = lintRatchetBaselineToGrouped cur, md_other = lintRatchetBaselineToGrouped oth\<rparr>"

text \<open>With both sides valid, the driver returns the text of the grouped merge or its failures.\<close>

lemma mergeParsedBaselines_eq:
  fixes policy vocab bf lc base cur oth
  defines "grouped \<equiv> mergeGroupedBaseline (lintRatchetBaselineSpec lc policy vocab bf) (merge_docs_of base cur oth)"
  assumes "side_ok cur" "side_ok oth" "vp_writeVersion policy \<in> set (vp_acceptedVersions policy)"
  shows "mergeParsedBaselines lc policy vocab bf base cur oth = Inr (case mx_baseline grouped of
      None \<Rightarrow> \<lparr>mt_mergedText = None, mt_failures = map ratchetMergeFailure (mx_failures grouped),
               mt_postMergeTruthUpRequired = False\<rparr>
    | Some out \<Rightarrow> \<lparr>mt_mergedText = Some (tests_text lc out), mt_failures = [],
               mt_postMergeTruthUpRequired = mx_postMergeTruthUpRequired grouped\<rparr>)"
proof -
  let ?s = "lintRatchetBaselineSpec lc policy vocab bf"
  let ?d = "merge_docs_of base cur oth"
  let ?out = "groupedMergeOutput ?s (merged_groups ?s ?d (allGroupIds ?s ?d))"
  have ok: "group_ok g" if "(k, g) \<in> set (gb_groups ?out)" for k g
  proof -
    from that have "map_of (merged_groups ?s ?d (allGroupIds ?s ?d)) k = Some g"
      by (simp add: groupedMergeOutput_def)
    then have "cg_group (group_result ?s ?d k) = Some g" by (simp add: lookup_merged_groups)
    then show ?thesis
      by (rule result_group_ok) (use assms(2,3) in \<open>auto simp: merge_docs_of_def intro: side_group_ok\<close>)
  qed
  have "gb_version ?out \<in> set (vp_acceptedVersions policy)"
    using assms(4) by (simp add: groupedMergeOutput_def lintRatchetBaselineSpec_def)
  moreover have "distinct (map fst (gb_groups ?out))"
    by (simp add: groupedMergeOutput_def)
  moreover have "list_all (\<lambda>(_, i). mi_count i > 0) (grp_items g)" if "(k, g) \<in> set (gb_groups ?out)" for k g
    using ok[OF that] by (auto simp: group_ok_def list_all_iff)
  ultimately obtain b where b: "lintRatchetBaselineFromGrouped ?out policy = Inr b"
      "lintRatchetBaselineToGrouped b = ?out"
      "bl_tests b = map (\<lambda>(k, g). (k, baselineTestFromGroup (grp_meta g) (grp_items g))) (gb_groups ?out)"
    using to_from_grouped[of ?out policy] by blast
  have v: "validateMergedBaseline b = []"
    using ok by (fastforce simp: validateMergedBaseline_Nil b(3) list_all_iff group_ok_def
        baselineTestFromGroup_def group_meta.defs baseline_test.defs positiveItemMap_def)
  have f: "formatLintRatchetBaseline lc b vocab = Inr (tests_text lc ?out)"
    by (simp add: formatLintRatchetBaseline_def b(2) format_tests_text)
  have nz: "map ratchetMergeFailure fs = [] \<longleftrightarrow> fs = []" for fs by simp
  show ?thesis
    using b(1) v f
    by (cases "merge_failures ?s ?d = []")
       (simp_all add: mergeParsedBaselines_def Let_def grouped_def mergeGroupedBaseline_eq merge_docs_of_def
          mergedBaseline_def or_else_def)
qed

section \<open>Properties\<close>

lemma printable_group: "meta_printable (grp_meta g) \<Longrightarrow>
    printable (formattedGroupedTest (lintRatchetBaselineSpec lc policy vocab bf) k g)"
  using set_map_from[of "map (\<lambda>(key, item). (key, item_json (formatItem lc (gm_metric (grp_meta g)) item)))
      (key_sort compareByCodepoint (grp_items g))"]
  by (auto simp: formattedGroupedTest_def sortedGroupedItems_def lintRatchetBaselineSpec_def Let_def list_all_iff
      formatGroupMeta_def meta_members_def meta_printable_def normalizeRuleOptions_def
      normalize_eq_canonical printable_canonical)

lemma docs_ok_of:
  assumes "baseline_wf base" "side_ok cur" "side_ok oth"
  shows "mergeable_spec.docs_ok meta_printable (merge_docs_of base cur oth)"
  unfolding ratchet_spec.docs_ok_def
  using assms grouped_wf_meta by (fastforce simp: merge_docs_of_def side_ok_def)

lemma merge_parsed_swap:
  assumes "baseline_wf base" and "side_ok cur" and "side_ok oth"
    and "vp_writeVersion policy \<in> set (vp_acceptedVersions policy)"
  shows "mergeParsedBaselines lc policy vocab bf base oth cur = mergeParsedBaselines lc policy vocab bf base cur oth"
proof -
  let ?s = "lintRatchetBaselineSpec lc policy vocab bf"
  let ?d = "merge_docs_of base cur oth"
  have sw: "merge_docs_of base oth cur = swap_docs ?d"
    by (simp add: merge_docs_of_def swap_docs_def)
  have gok: "group_ok g" if "cg_group (group_result ?s d k) = Some g" "d = ?d \<or> d = swap_docs ?d" for k g d
    using that(1) by (rule result_group_ok)
      (use that(2) assms(2,3) in \<open>auto simp: merge_docs_of_def swap_docs_def intro: side_group_ok\<close>)
  have pr: "printable (formattedGroupedTest ?s k g)" if "cg_group (group_result ?s d k) = Some g" "d = ?d \<or> d = swap_docs ?d" for k g d
    using gok[OF that] by (simp add: group_ok_def printable_group)
  have root: "gs_rootKey ?s = TestsRoot" by (simp add: lintRatchetBaselineSpec_def)
  note pr1 = pr[OF _ disjI1[OF refl]] and pr2 = pr[OF _ disjI2[OF refl]]
  note docs = docs_ok_of[OF assms(1-3)]
  have f1: "mx_failures (mergeGroupedBaseline ?s (swap_docs ?d)) = mx_failures (mergeGroupedBaseline ?s ?d)"
    by (rule ratchet_spec.merge_text_swap(1)[OF docs root pr1 pr2])
  have f2: "mx_postMergeTruthUpRequired (mergeGroupedBaseline ?s (swap_docs ?d)) =
      mx_postMergeTruthUpRequired (mergeGroupedBaseline ?s ?d)"
    by (rule ratchet_spec.merge_text_swap(2)[OF docs root pr1 pr2])
  have "map_option (formatGroupedBaseline ?s) (mx_baseline (mergeGroupedBaseline ?s (swap_docs ?d))) =
      map_option (formatGroupedBaseline ?s) (mx_baseline (mergeGroupedBaseline ?s ?d))"
    by (rule ratchet_spec.merge_text_swap(3)[OF docs root pr1 pr2])
  then have f3: "map_option (tests_text lc) (mx_baseline (mergeGroupedBaseline ?s (swap_docs ?d))) =
      map_option (tests_text lc) (mx_baseline (mergeGroupedBaseline ?s ?d))"
    by (cases "mx_baseline (mergeGroupedBaseline ?s (swap_docs ?d))"; cases "mx_baseline (mergeGroupedBaseline ?s ?d)")
       (simp_all add: format_tests_text)
  show ?thesis
    unfolding mergeParsedBaselines_eq[OF assms(2,3,4)] mergeParsedBaselines_eq[OF assms(3,2,4)] sw f1 f2
    using f3 by (cases "mx_baseline (mergeGroupedBaseline ?s (swap_docs ?d))"; cases "mx_baseline (mergeGroupedBaseline ?s ?d)") simp_all
qed

lemma parsed_side:
  assumes "label \<noteq> ''base''"
    and "parseLintRatchetBaselineStructure jp lc txt vocab policy bf = Inr \<lparr>sb_baseline = Some b, sb_failures = fs\<rparr>"
  shows "parseMergeBaseline jp lc label txt policy vocab bf = Inr (Some b, [])"
  using assms by (simp add: parseMergeBaseline_def)

text \<open>
  C3: when the two sides parse and pass the validation of a merge result, the merge driver's answer does
  not depend on which side git calls current: exchanging the texts gives the same text, the same failures
  and the same truth-up flag. The conditions are needed: a side that does not parse is named by its label,
  and a side that holds an item that is invalid for its metric may fail in one order only. The keys of a
  parsed object are distinct (\<open>baseline_wf\<close>), and the version written is one that is accepted.
\<close>

theorem merge_side_independent:
  assumes "parseMergeBaseline jp lc ''base'' baseText policy vocab file = Inr (Some base, failures)"
    and "parseLintRatchetBaselineStructure jp lc currentText vocab policy file = Inr \<lparr>sb_baseline = Some cur, sb_failures = fc\<rparr>"
    and "parseLintRatchetBaselineStructure jp lc otherText vocab policy file = Inr \<lparr>sb_baseline = Some oth, sb_failures = fo\<rparr>"
    and "baseline_wf base" and "side_ok cur" and "side_ok oth"
    and "vp_writeVersion policy \<in> set (vp_acceptedVersions policy)"
  shows "mergeLintRatchetBaselines jp lc \<lparr>mo_baseText = baseText, mo_currentText = otherText, mo_otherText = currentText,
       mo_versionPolicy = Some policy, mo_workflowVocabulary = vocab, mo_baselineFile = Some file\<rparr> =
     mergeLintRatchetBaselines jp lc \<lparr>mo_baseText = baseText, mo_currentText = currentText, mo_otherText = otherText,
       mo_versionPolicy = Some policy, mo_workflowVocabulary = vocab, mo_baselineFile = Some file\<rparr>"
  using merge_parsed_swap[OF assms(4-7)]
  by (simp add: mergeLintRatchetBaselines_def assms(1) parsed_side[OF _ assms(2)] parsed_side[OF _ assms(3)] Let_def)

definition merge_sample :: "(string \<times> int) list \<Rightarrow> ratchet_baseline" where
  "merge_sample items = (let h = ''sha256:'' @ replicate 64 (CHR ''a'') in
     (sample_baseline [])\<lparr>bl_tests := [(''ratchet/a'', (sample_test items)\<lparr>gm_configHash := h, gm_ruleSourceHash := h\<rparr>)]\<rparr>)"

definition merge_documents :: json_parser where
  "merge_documents txt = Inr (formatTestsDocument
     (lintRatchetBaselineSpec codeUnitCompare default_version_policy sample_vocab ''baseline.json'')
     (lintRatchetBaselineToGrouped (merge_sample
       (if txt = ''base'' then [(''p.ts'', 5)] else if txt = ''one'' then [(''p.ts'', 4), (''q.ts'', 1)] else [(''p.ts'', 3)]))))"

theorem merge_side_independent_witness:
  "mergeLintRatchetBaselines merge_documents codeUnitCompare \<lparr>mo_baseText = ''base'', mo_currentText = ''two'', mo_otherText = ''one'',
       mo_versionPolicy = Some default_version_policy, mo_workflowVocabulary = sample_vocab, mo_baselineFile = Some ''baseline.json''\<rparr> =
   mergeLintRatchetBaselines merge_documents codeUnitCompare \<lparr>mo_baseText = ''base'', mo_currentText = ''one'', mo_otherText = ''two'',
       mo_versionPolicy = Some default_version_policy, mo_workflowVocabulary = sample_vocab, mo_baselineFile = Some ''baseline.json''\<rparr>"
proof -
  let ?parse = "\<lambda>txt. parseLintRatchetBaselineStructure merge_documents codeUnitCompare txt sample_vocab default_version_policy ''baseline.json''"
  have "list_all (\<lambda>txt. case ?parse txt of Inl _ \<Rightarrow> False
      | Inr s \<Rightarrow> (case sb_baseline s of None \<Rightarrow> False | Some b \<Rightarrow> side_ok b)) [''base'', ''one'', ''two'']"
    by code_simp
  then obtain b c d where p: "?parse ''base'' = Inr b" "?parse ''one'' = Inr c" "?parse ''two'' = Inr d"
      "case sb_baseline b of None \<Rightarrow> False | Some b \<Rightarrow> side_ok b" "case sb_baseline c of None \<Rightarrow> False | Some b \<Rightarrow> side_ok b"
      "case sb_baseline d of None \<Rightarrow> False | Some b \<Rightarrow> side_ok b"
    by (auto split: sum.splits)
  then obtain b' c' d' where v: "sb_baseline b = Some b'" "sb_baseline c = Some c'" "sb_baseline d = Some d'"
      "side_ok b'" "side_ok c'" "side_ok d'"
    by (auto split: option.splits)
  have base: "parseMergeBaseline merge_documents codeUnitCompare ''base'' ''base'' default_version_policy sample_vocab ''baseline.json'' =
      Inr (Some b', [])"
    using p(1) v(1) by (simp add: parseMergeBaseline_def js_trim_def is_js_space_def)
  have "?parse ''one'' = Inr \<lparr>sb_baseline = Some c', sb_failures = sb_failures c\<rparr>"
      "?parse ''two'' = Inr \<lparr>sb_baseline = Some d', sb_failures = sb_failures d\<rparr>"
    using p(2,3) v(2,3) by (cases c; cases d; simp)+
  from merge_side_independent[OF base this] v show ?thesis
    by (simp add: side_ok_def default_version_policy_def createLintRatchetBaselineVersionPolicy_def)
qed

text \<open>
  When one side is the base, or both sides are the same, the driver adopts the changed side as
  it is: it writes that side's text, under the version and annotation it writes, and asks for no
  truth-up.
\<close>

theorem merge_adopts_changed_side:
  assumes "baseline_wf base" and "side_ok cur" and "side_ok oth"
    and "vp_writeVersion policy \<in> set (vp_acceptedVersions policy)" and "cur = base \<or> cur = oth"
  shows "mergeParsedBaselines lc policy vocab bf base cur oth = Inr
    \<lparr>mt_mergedText = Some (tests_text lc ((lintRatchetBaselineToGrouped oth)
        \<lparr>gb_version := vp_writeVersion policy,
         gb_regenerate := map_option JStr (lintRatchetBaselineRegenerateForVersion (vp_writeVersion policy) (wv_updateCommand vocab))\<rparr>)),
     mt_failures = [], mt_postMergeTruthUpRequired = False\<rparr>"
proof -
  let ?s = "lintRatchetBaselineSpec lc policy vocab bf"
  let ?d = "merge_docs_of base cur oth"
  let ?t = "lintRatchetBaselineToGrouped oth"
  have res: "cg_failures (group_result ?s ?d k) = [] \<and> \<not> cg_truthUpRequired (group_result ?s ?d k) \<and>
      same_version ?s k (cg_group (group_result ?s ?d k)) (map_of (gb_groups ?t) k)" for k
  proof (cases "cur = base")
    case True
    have "same_version ?s k (map_of (gb_groups (md_current ?d)) k) (map_of (gb_groups (md_base ?d)) k)"
      by (cases "map_of (gb_groups (md_base ?d)) k")
        (use True in \<open>auto simp: merge_docs_of_def same_version_def same_opt_def\<close>)
    from one_sided_result[OF this] show ?thesis by (simp add: merge_docs_of_def)
  next
    case False
    with assms(5) have "cur = oth" by simp
    then show ?thesis
      by (auto simp: group_result_def groupVersions_def merge_docs_of_def chooseSimpleGroupMerge_def same_version_def
          same_opt_def Let_def split: option.splits)
  qed
  have ok: "group_ok g" if "cg_group (group_result ?s ?d k) = Some g" for k g
    using that by (rule result_group_ok) (use assms(2,3) in \<open>auto simp: merge_docs_of_def intro: side_group_ok\<close>)
  have dist: "distinct (map fst (gb_groups ?t))"
    using assms(3) by (simp add: lintRatchetBaselineToGrouped_def side_ok_def baseline_wf_def split_beta comp_def)
  obtain out where out: "mergeGroupedBaseline ?s ?d = \<lparr>mx_baseline = Some out, mx_partialBaseline = None, mx_failures = [],
        mx_postMergeTruthUpRequired = False\<rparr>"
      "formatTestsDocument ?s out = formatTestsDocument ?s (groupedMergeOutput ?s (gb_groups ?t))"
    using ratchet_spec.merge_text_target[OF res _ _ dist] ok side_group_ok[OF assms(3)]
    by (auto simp: group_ok_def printable_group)
  have g: "groupedMergeOutput ?s (gb_groups ?t) = ?t\<lparr>gb_version := vp_writeVersion policy,
      gb_regenerate := map_option JStr (lintRatchetBaselineRegenerateForVersion (vp_writeVersion policy) (wv_updateCommand vocab))\<rparr>"
    by (simp add: groupedMergeOutput_def lintRatchetBaselineSpec_def lintRatchetBaselineToGrouped_def)
  have "Inr (tests_text lc out) = (Inr (tests_text lc (groupedMergeOutput ?s (gb_groups ?t))) :: format_error + string)"
    unfolding format_tests_text[of lc policy vocab bf, symmetric]
    using out(2) by (simp add: formatGroupedBaseline_def split: root_key.split)
       (simp add: lintRatchetBaselineSpec_def)
  then have t: "tests_text lc out = tests_text lc (groupedMergeOutput ?s (gb_groups ?t))" by simp
  show ?thesis
    unfolding mergeParsedBaselines_eq[OF assms(2,3,4)] out(1) merge_docs_result.select_convs option.case t g ..
qed

text \<open>
  C4: where both sides changed a group, the merge is a floor of the two: a path it keeps has no more
  findings than either side that has it (and on equal counts a payload that is not above), has at
  least one finding, and is on both sides unless it is new; a path that one side drained stays
  drained.
\<close>

theorem merge_keeps_floor:
  fixes policy vocab bf lc
  defines "spec \<equiv> lintRatchetBaselineSpec lc policy vocab bf"
  assumes "mx_baseline (mergeGroupedBaseline spec docs) = Some out"
    and "map_of (gb_groups (md_current docs)) k = Some c" and "map_of (gb_groups (md_other docs)) k = Some t"
    and "chooseSimpleGroupMerge spec k (groupVersions docs k) = None"
    and "map_of (gb_groups out) k = Some g" and "map_of (grp_items g) path = Some i"
  shows "(\<forall>j. map_of (grp_items c) path = Some j \<longrightarrow> item_below lc (gm_metric (grp_meta c)) i j) \<and>
         (\<forall>j. map_of (grp_items t) path = Some j \<longrightarrow> item_below lc (gm_metric (grp_meta c)) i j) \<and>
         mi_count i > 0 \<and>
         (map_of (opt_items (map_of (gb_groups (md_base docs)) k)) path \<noteq> None \<longrightarrow>
            map_of (grp_items c) path \<noteq> None \<and> map_of (grp_items t) path \<noteq> None)"
proof -
  have out: "out = groupedMergeOutput spec (merged_groups spec docs (allGroupIds spec docs))"
    using assms(2) by (auto simp: mergeGroupedBaseline_eq Let_def split: if_splits)
  then have "cg_group (group_result spec docs k) = Some g"
    using assms(6) by (simp add: groupedMergeOutput_def lookup_merged_groups)
  then have "cg_group (mergeChangedGroup spec k (map_of (gb_groups (md_base docs)) k) c t) = Some g"
    using assms(3-5) by (simp add: group_result_def groupVersions_def Let_def)
  then have items: "grp_items g = mr_merged (mergeItemMaps (group_policy spec k (grp_meta c))
      (group_input spec (map_of (gb_groups (md_base docs)) k) c t))"
    by (auto simp: mergeChangedGroup_def Let_def split: if_splits)
  let ?inp = "group_input spec (map_of (gb_groups (md_base docs)) k) c t"
  have inp: "mi_current ?inp = grp_items c" "mi_other ?inp = grp_items t"
    "mi_base ?inp = opt_items (map_of (gb_groups (md_base docs)) k)"
    by (auto simp: group_input_def opt_items_def split: option.splits)
  have m: "map_of (mr_merged (mergeItemMaps (group_policy spec k (grp_meta c)) ?inp)) path = Some i"
    using assms(7) items by simp
  have "po_count (group_policy spec k (grp_meta c)) i = mi_count i"
    by (simp add: group_policy_def spec_def lintRatchetBaselineSpec_def)
  then show ?thesis
    using ratchet_items.merged_floor[OF m[unfolded spec_def] TrueI TrueI item_below_refl]
      ratchet_items.merged_key_source[OF m[unfolded spec_def]]
    by (auto simp: inp[unfolded spec_def] spec_def)
qed

theorem merge_keeps_floor_witness:
  "\<exists>out g i. mx_baseline (mergeGroupedBaseline (lintRatchetBaselineSpec codeUnitCompare default_version_policy sample_vocab ''b'')
       (merge_docs_of (sample_baseline [(''p'', 5)]) (sample_baseline [(''p'', 4), (''q'', 1)]) (sample_baseline [(''p'', 3)]))) = Some out \<and>
     map_of (gb_groups out) ''ratchet/a'' = Some g \<and> map_of (grp_items g) ''p'' = Some i \<and>
     item_below codeUnitCompare MessageCount i (count_item 4) \<and> item_below codeUnitCompare MessageCount i (count_item 3)"
proof -
  let ?s = "lintRatchetBaselineSpec codeUnitCompare default_version_policy sample_vocab ''b''"
  let ?d = "merge_docs_of (sample_baseline [(''p'', 5)]) (sample_baseline [(''p'', 4), (''q'', 1)]) (sample_baseline [(''p'', 3)])"
  let ?grp = "\<lambda>is. \<lparr>grp_meta = sample_meta ''no-console'' MessageCount, grp_items = is\<rparr>"
  have r: "map_option gb_groups (mx_baseline (mergeGroupedBaseline ?s ?d)) =
      Some [(''ratchet/a'', ?grp [(''p'', count_item 3), (''q'', count_item 1)])]"
    by code_simp
  then obtain out where out: "mx_baseline (mergeGroupedBaseline ?s ?d) = Some out"
      "map_of (gb_groups out) ''ratchet/a'' = Some (?grp [(''p'', count_item 3), (''q'', count_item 1)])" by auto
  have c: "map_of (gb_groups (md_current ?d)) ''ratchet/a'' = Some (?grp [(''p'', count_item 4), (''q'', count_item 1)])"
    and t: "map_of (gb_groups (md_other ?d)) ''ratchet/a'' = Some (?grp [(''p'', count_item 3)])"
    and n: "chooseSimpleGroupMerge ?s ''ratchet/a'' (groupVersions ?d ''ratchet/a'') = None"
    by code_simp+
  have i: "map_of (grp_items (?grp [(''p'', count_item 3), (''q'', count_item 1)])) ''p'' = Some (count_item 3)" by simp
  show ?thesis
    using merge_keeps_floor[OF out(1) c t n out(2) i] out i by (auto simp: sample_meta_def)
qed

end
