(* ===== verification/Collector.thy ===== *)
theory Collector
  imports BaselineSpec
begin

text \<open>
  \<open>kernel/current-collector.ts\<close> and \<open>kernel/message-identity.ts\<close>: ESLint's output reduced to one
  item per path. \<open>node:path\<close> is modelled for POSIX and an absolute repository root. The nested
  loops are a fold over the messages of all results that stops at the first error (\<open>Inl\<close>).
\<close>

section \<open>Paths\<close>

definition slashes :: "string \<Rightarrow> string" where
  "slashes s = map (\<lambda>c. if c = CHR 0x5C then CHR ''/'' else c) s"

definition is_absolute :: "string \<Rightarrow> bool" where
  "is_absolute s \<longleftrightarrow> take 1 s = ''/''"

definition resolve_segment :: "string \<Rightarrow> string list \<Rightarrow> string list" where
  "resolve_segment seg acc =
     (if seg = [] \<or> seg = ''.'' then acc else if seg = ''..'' then butlast acc else acc @ [seg])"

definition path_segments :: "string \<Rightarrow> string list" where
  "path_segments s = fold resolve_segment (js_split (CHR ''/'') s) []"

fun strip_common :: "string list \<Rightarrow> string list \<Rightarrow> string list \<times> string list" where
  "strip_common (a # as) (b # bs) = (if a = b then strip_common as bs else (a # as, b # bs))"
| "strip_common as bs = (as, bs)"

definition posix_relative :: "string \<Rightarrow> string \<Rightarrow> string" where
  "posix_relative from_path to_path =
     (let (up, down) = strip_common (path_segments from_path) (path_segments to_path)
      in js_join ''/'' (replicate (length up) ''..'' @ down))"

definition relativePathForRoot :: "string \<Rightarrow> string \<Rightarrow> string" where
  "relativePathForRoot filePath repoRootPath =
     (if \<not> is_absolute filePath then slashes filePath
      else let rel = posix_relative repoRootPath filePath
           in if rel = [] then filePath else slashes rel)"

section \<open>Message identity\<close>

definition REPO_ROOT_TOKEN :: string where
  "REPO_ROOT_TOKEN = ''<repo-root>''"

definition normalizeRepoRoot :: "string \<Rightarrow> string \<Rightarrow> string" where
  "normalizeRepoRoot v repoRootPath =
     (if repoRootPath = [] then v else js_replace_all repoRootPath REPO_ROOT_TOKEN v)"

text \<open>One or more characters of a class, then the rest of the pattern.\<close>

definition some_of :: "(char \<Rightarrow> bool) \<Rightarrow> string \<Rightarrow> string option" where
  "some_of P s = (if takeWhile P s = [] then None else Some (dropWhile P s))"

definition starts :: "char \<Rightarrow> string \<Rightarrow> bool" where
  "starts c s \<longleftrightarrow> s \<noteq> [] \<and> hd s = c"

definition numbered_bar :: "string \<Rightarrow> bool" where
  "numbered_bar s =
     (case Option.bind (some_of is_js_space s) (\<lambda>a. Option.bind (some_of is_digit a) (some_of is_js_space)) of
        None \<Rightarrow> False | Some r \<Rightarrow> starts (CHR ''|'') r)"

definition is_source_line :: "string \<Rightarrow> bool" where
  "is_source_line = numbered_bar"

definition is_target_line :: "string \<Rightarrow> bool" where
  "is_target_line s \<longleftrightarrow> starts (CHR ''>'') s \<and> numbered_bar (tl s)"

definition is_pointer_line :: "string \<Rightarrow> bool" where
  "is_pointer_line s =
     (case some_of is_js_space s of
        None \<Rightarrow> False
      | Some a \<Rightarrow> starts (CHR ''|'') a \<and>
          (case some_of is_js_space (tl a) of None \<Rightarrow> False | Some b \<Rightarrow> starts (CHR ''^'') b))"

fun code_frame_loop :: "bool \<Rightarrow> bool \<Rightarrow> bool \<Rightarrow> string list \<Rightarrow> bool" where
  "code_frame_loop src tgt ptr [] = (src \<and> tgt \<and> ptr)"
| "code_frame_loop src tgt ptr (l # ls) =
     (if is_source_line l then code_frame_loop True tgt ptr ls
      else if is_target_line l then code_frame_loop src True ptr ls
      else if is_pointer_line l then code_frame_loop src tgt True ls
      else False)"

definition isCodeFrame :: "string list \<Rightarrow> bool" where
  "isCodeFrame ls = (if ls = [] then False else code_frame_loop False False False ls)"

fun last_index_of :: "string \<Rightarrow> string list \<Rightarrow> nat option" where
  "last_index_of x [] = None"
| "last_index_of x (l # ls) =
     (case last_index_of x ls of Some i \<Rightarrow> Some (Suc i) | None \<Rightarrow> if l = x then Some 0 else None)"

record identity_location =
  il_filePath :: string
  il_line :: "int option"
  il_column :: "int option"

definition normalizedMessageForIdentity :: "string \<Rightarrow> identity_location \<Rightarrow> string \<Rightarrow> string" where
  "normalizedMessageForIdentity msg location repoRootPath =
     (let normalizedMessage = normalizeRepoRoot msg repoRootPath
      in case (il_line location, il_column location) of
           (Some line, Some column) \<Rightarrow>
             (let locationLine = normalizeRepoRoot (il_filePath location) repoRootPath @ '':'' @ show_int line
                    @ '':'' @ show_int column;
                  ls = js_split (CHR 0x0A) normalizedMessage
              in case last_index_of locationLine ls of
                   None \<Rightarrow> normalizedMessage
                 | Some i \<Rightarrow>
                     if \<not> isCodeFrame (drop (Suc i) ls) then normalizedMessage
                     else let semanticLines = take i ls
                          in js_join [CHR 0x0A]
                               (if semanticLines \<noteq> [] \<and> last semanticLines = [] then butlast semanticLines
                                else semanticLines))
         | _ \<Rightarrow> normalizedMessage)"

definition messageIdentityForFinding ::
    "string option \<Rightarrow> string option \<Rightarrow> identity_location \<Rightarrow> string \<Rightarrow> string option" where
  "messageIdentityForFinding msg messageId location repoRootPath =
     (case messageId of
        Some i \<Rightarrow> Some (stringify (JObj [(''messageId'', JStr i)]))
      | None \<Rightarrow>
          (case msg of
             None \<Rightarrow> None
           | Some m \<Rightarrow> Some (stringify (JObj [(''message'',
               JStr (normalizedMessageForIdentity m location repoRootPath))]))))"

section \<open>Collecting the items of one ratchet\<close>

definition ESLINT_SEVERITY_ERROR :: int where "ESLINT_SEVERITY_ERROR = 2"
definition DEFAULT_COLLECT_CONCURRENCY :: int where "DEFAULT_COLLECT_CONCURRENCY = 3"

definition minDefined :: "int option \<Rightarrow> int option \<Rightarrow> int option" where
  "minDefined left right = (case (left, right) of
     (None, _) \<Rightarrow> right | (_, None) \<Rightarrow> left | (Some l, Some r) \<Rightarrow> Some (min l r))"

definition messageFingerprintFor :: "hasher \<Rightarrow> string list \<Rightarrow> string" where
  "messageFingerprintFor sha identities =
     ''sha256:'' @ sha (stringify (strings_json (js_sort codeUnitCompare identities)))"

definition mergeLines :: "current_item option \<Rightarrow> metric_finding \<Rightarrow> int option" where
  "mergeLines previous finding =
     (case mf_lines finding of
        None \<Rightarrow> Option.bind previous mi_lines
      | Some n \<Rightarrow> (case Option.bind previous mi_lines of None \<Rightarrow> Some n | Some p \<Rightarrow> Some (max p n)))"

definition mergePerFunction :: "current_item option \<Rightarrow> metric_finding \<Rightarrow> complexity_function list option" where
  "mergePerFunction previous finding =
     (case mf_complexity finding of
        None \<Rightarrow> Option.bind previous mi_perFunction
      | Some f \<Rightarrow> Some ((case Option.bind previous mi_perFunction of None \<Rightarrow> [] | Some fs \<Rightarrow> fs) @ [f]))"

definition mergeFirstMessageContext ::
    "current_item option \<Rightarrow> metric_finding \<Rightarrow> string option \<times> string option" where
  "mergeFirstMessageContext previous finding =
     (case previous of
        Some p \<Rightarrow> if ci_firstMessage p \<noteq> None then (ci_firstMessage p, ci_firstMessageId p)
                   else (mf_message finding, mf_messageId finding)
      | None \<Rightarrow> (mf_message finding, mf_messageId finding))"

type_synonym items_map = "(string \<times> current_item) list"

definition addFinding :: "string \<Rightarrow> int option \<Rightarrow> metric_finding \<Rightarrow> items_map \<Rightarrow> items_map" where
  "addFinding path line finding items =
     (let previous = map_of items path;
          messageContext = mergeFirstMessageContext previous finding
      in AList.update path
           \<lparr>mi_count = (case previous of None \<Rightarrow> 0 | Some p \<Rightarrow> mi_count p) + 1,
            mi_lines = mergeLines previous finding, mi_maxComplexity = None,
            mi_perFunction = mergePerFunction previous finding, mi_messagesFingerprint = None,
            ci_firstLine = minDefined (Option.bind previous ci_firstLine) line,
            ci_firstMessage = fst messageContext, ci_firstMessageId = snd messageContext\<rparr> items)"

type_synonym identities_map = "(string \<times> string list) list"

definition recordMessageIdentity ::
    "ratchet_config \<Rightarrow> string \<Rightarrow> metric_finding \<Rightarrow> identity_location \<Rightarrow> string \<Rightarrow> identities_map \<Rightarrow> identities_map" where
  "recordMessageIdentity ratchet path finding location repoRootPath ids =
     (if \<not> recordsMessageIdentity (rc_metric ratchet) then ids
      else case messageIdentityForFinding (mf_message finding) (mf_messageId finding) location repoRootPath of
             None \<Rightarrow> ids
           | Some identity \<Rightarrow>
               AList.update path ((case map_of ids path of None \<Rightarrow> [] | Some is \<Rightarrow> is) @ [identity]) ids)"

definition fingerprint_step :: "hasher \<Rightarrow> string \<times> string list \<Rightarrow> items_map \<Rightarrow> items_map" where
  "fingerprint_step sha p items =
     (case map_of items (fst p) of
        None \<Rightarrow> items
      | Some item \<Rightarrow>
          if snd p = [] then items
          else AList.update (fst p) (item\<lparr>mi_messagesFingerprint := Some (messageFingerprintFor sha (snd p))\<rparr>) items)"

definition addMessageFingerprints :: "hasher \<Rightarrow> items_map \<Rightarrow> identities_map \<Rightarrow> items_map" where
  "addMessageFingerprints sha items ids = fold (fingerprint_step sha) ids items"

record collector_state =
  co_items :: items_map
  co_identities :: identities_map

definition is_parse_failure :: "eslint_message \<Rightarrow> bool" where
  "is_parse_failure msg \<longleftrightarrow> em_ruleId msg = None \<and> (em_fatal msg \<or> em_severity msg = ESLINT_SEVERITY_ERROR)"

definition message_step ::
    "ratchet_config \<Rightarrow> string \<Rightarrow> string \<Rightarrow> eslint_message \<Rightarrow> collector_state \<Rightarrow> config_error + collector_state" where
  "message_step ratchet repoRootPath filePath msg st =
     (let path = relativePathForRoot filePath repoRootPath
      in if is_parse_failure msg then Inl (EslintCannotParse path (em_message msg))
         else if em_ruleId msg \<noteq> Some (rc_ruleId ratchet) then Inr st
         else case reduceMessage (rc_metric ratchet) ratchet path msg of
                Inl e \<Rightarrow> Inl e
              | Inr finding \<Rightarrow> Inr
                  \<lparr>co_items = addFinding path (em_line msg) finding (co_items st),
                   co_identities = recordMessageIdentity ratchet path finding
                     \<lparr>il_filePath = filePath, il_line = em_line msg, il_column = em_column msg\<rparr>
                     repoRootPath (co_identities st)\<rparr>)"

fun messages_loop ::
    "ratchet_config \<Rightarrow> string \<Rightarrow> string \<Rightarrow> eslint_message list \<Rightarrow> collector_state \<Rightarrow> config_error + collector_state" where
  "messages_loop ratchet root filePath [] st = Inr st"
| "messages_loop ratchet root filePath (m # ms) st =
     (case message_step ratchet root filePath m st of
        Inl e \<Rightarrow> Inl e | Inr st' \<Rightarrow> messages_loop ratchet root filePath ms st')"

fun results_loop ::
    "ratchet_config \<Rightarrow> string \<Rightarrow> eslint_file_result list \<Rightarrow> collector_state \<Rightarrow> config_error + collector_state" where
  "results_loop ratchet root [] st = Inr st"
| "results_loop ratchet root (r # rs) st =
     (case messages_loop ratchet root (ef_filePath r) (ef_messages r) st of
        Inl e \<Rightarrow> Inl e | Inr st' \<Rightarrow> results_loop ratchet root rs st')"

definition itemsFromResults ::
    "hasher \<Rightarrow> ratchet_config \<Rightarrow> eslint_file_result list \<Rightarrow> string \<Rightarrow> config_error + items_map" where
  "itemsFromResults sha ratchet results root =
     (case results_loop ratchet root results \<lparr>co_items = [], co_identities = []\<rparr> of
        Inl e \<Rightarrow> Inl e
      | Inr st \<Rightarrow> Inr (addMessageFingerprints sha (co_items st) (co_identities st)))"

text \<open>The result of one ratchet's collection, as the scheduler delivers it.\<close>

record collection_result =
  cl_id :: string
  cl_ratchet :: ratchet_config
  cl_results :: "eslint_file_result list"

fun current_by_id_loop ::
    "hasher \<Rightarrow> string \<Rightarrow> collection_result option list \<Rightarrow> current_by_id \<Rightarrow> config_error + current_by_id" where
  "current_by_id_loop sha root [] acc = Inr acc"
| "current_by_id_loop sha root (None # rs) acc = current_by_id_loop sha root rs acc"
| "current_by_id_loop sha root (Some r # rs) acc =
     (case itemsFromResults sha (cl_ratchet r) (cl_results r) root of
        Inl e \<Rightarrow> Inl e
      | Inr items \<Rightarrow> current_by_id_loop sha root rs (AList.update (cl_id r) items acc))"

definition collect_limit :: "int option \<Rightarrow> nat \<Rightarrow> int" where
  "collect_limit concurrency n =
     max 1 (min (case concurrency of None \<Rightarrow> DEFAULT_COLLECT_CONCURRENCY | Some c \<Rightarrow> c) (int n))"

definition totalCurrentCount :: "current_by_id \<Rightarrow> int" where
  "totalCurrentCount currentById =
     foldl (\<lambda>total (_, items). foldl (\<lambda>t (_, item). t + mi_count item) total items) 0 currentById"

end
