(* ===== verification/BaselineCompare.thy ===== *)
theory BaselineCompare
  imports BaselineSpec
begin

text \<open>
  \<open>kernel/baseline-compare.ts\<close> and \<open>kernel/removed-path-improvements.ts\<close>: the committed baseline
  against freshly collected items. The grouped comparison decides which items to visit, the
  metric strategy what each visit means. The two \<open>throw\<close>s are \<open>Inl\<close>.
\<close>

datatype compare_error = VisitedUnregistered string | LostCurrentItem string string

definition testId_path_cmp :: "string cmp \<Rightarrow> 'r delta cmp" where
  "testId_path_cmp lc l r =
     (let testCompare = lc (dl_testId l) (dl_testId r)
      in if testCompare \<noteq> 0 then testCompare else lc (dl_path l) (dl_path r))"

definition registered :: "ratchet_config list \<Rightarrow> (string \<times> ratchet_config) list" where
  "registered ratchets = map_from (map (\<lambda>r. (rc_id r, r)) ratchets)"

definition registeredGroups ::
    "('m, 'i) grouped_baseline \<Rightarrow> (string \<times> ratchet_config) list \<Rightarrow> (string \<times> ('m, 'i) group) list" where
  "registeredGroups b byId = filter (\<lambda>(testId, _). map_of byId testId \<noteq> None) (gb_groups b)"

definition item_of_current :: "current_item \<Rightarrow> metric_item" where
  "item_of_current i = metric_item.truncate i"

definition currentGroups ::
    "(string \<times> ('m, metric_item) group) list \<Rightarrow> current_by_id \<Rightarrow> (string \<times> ('m, metric_item) group) list" where
  "currentGroups groups currentById =
     map (\<lambda>(testId, g). (testId, \<lparr>grp_meta = grp_meta g,
       grp_items = (case map_of currentById testId of
          None \<Rightarrow> [] | Some items \<Rightarrow> map (\<lambda>(path, i). (path, item_of_current i)) items)\<rparr>)) groups"

record compare_input =
  ki_baseline :: "(group_meta, metric_item) grouped_baseline"
  ki_current :: "(group_meta, metric_item) grouped_baseline"
  ki_ratchetsById :: "(string \<times> ratchet_config) list"

definition comparisonInput :: "ratchet_baseline \<Rightarrow> ratchet_config list \<Rightarrow> current_by_id \<Rightarrow> compare_input" where
  "comparisonInput b ratchets currentById =
     (let grouped = lintRatchetBaselineToGrouped b;
          byId = registered ratchets;
          groups = registeredGroups grouped byId
      in \<lparr>ki_baseline = grouped\<lparr>gb_groups := groups\<rparr>,
          ki_current = grouped\<lparr>gb_groups := currentGroups groups currentById\<rparr>,
          ki_ratchetsById = byId\<rparr>)"

definition removedPathImprovement :: "ratchet_config \<Rightarrow> string \<Rightarrow> metric_item \<Rightarrow> improvement" where
  "removedPathImprovement ratchet path item =
     \<lparr>dl_testId = rc_id ratchet, dl_ruleId = rc_ruleId ratchet, dl_path = path,
      dl_baselineCount = mi_count item, dl_currentCount = 0, dl_baselineLines = None,
      dl_currentLines = None, dl_baselineComplexity = None, dl_currentComplexity = None,
      dl_line = None, dl_firstMessage = None, dl_firstMessageId = None, dl_reason = RemovedPath\<rparr>"

text \<open>What one visited item contributes.\<close>

definition visit_item ::
    "string cmp \<Rightarrow> (string \<times> ratchet_config) list \<Rightarrow> current_by_id \<Rightarrow> metric_item compared_item \<Rightarrow>
     compare_error + item_comparison" where
  "visit_item lc byId currentById compared =
     (case map_of byId (ct_groupId compared) of
        None \<Rightarrow> Inl (VisitedUnregistered (ct_groupId compared))
      | Some ratchet \<Rightarrow>
          (case ct_currentItem compared of
             None \<Rightarrow> Inr (case ct_baselineItem compared of
                 None \<Rightarrow> no_change
               | Some b \<Rightarrow> no_change\<lparr>co_improvement := Some (removedPathImprovement ratchet (ct_itemKey compared) b)\<rparr>)
           | Some _ \<Rightarrow>
               (case Option.bind (map_of currentById (ct_groupId compared)) (\<lambda>is. map_of is (ct_itemKey compared)) of
                  None \<Rightarrow> Inl (LostCurrentItem (ct_groupId compared) (ct_itemKey compared))
                | Some current \<Rightarrow> Inr (compareItem lc (rc_metric ratchet)
                    \<lparr>ic_ratchet = ratchet, ic_path = ct_itemKey compared,
                     ic_baselineItem = ct_baselineItem compared, ic_current = current\<rparr>))))"

definition recordComparedItem :: "item_comparison \<Rightarrow> comparison \<Rightarrow> comparison" where
  "recordComparedItem r d =
     \<lparr>cmp_regressions = cmp_regressions d @ (case co_regression r of None \<Rightarrow> [] | Some x \<Rightarrow> [x]),
      cmp_improvements = cmp_improvements d @ (case co_improvement r of None \<Rightarrow> [] | Some x \<Rightarrow> [x]),
      cmp_infos = Some ((case cmp_infos d of None \<Rightarrow> [] | Some is \<Rightarrow> is)
                        @ (case co_info r of None \<Rightarrow> [] | Some x \<Rightarrow> [x]))\<rparr>"

fun visit_all ::
    "string cmp \<Rightarrow> (string \<times> ratchet_config) list \<Rightarrow> current_by_id \<Rightarrow> metric_item compared_item list \<Rightarrow>
     comparison \<Rightarrow> compare_error + comparison" where
  "visit_all lc byId currentById [] d = Inr d"
| "visit_all lc byId currentById (c # cs) d =
     (case visit_item lc byId currentById c of
        Inl e \<Rightarrow> Inl e
      | Inr r \<Rightarrow> visit_all lc byId currentById cs (recordComparedItem r d))"

definition no_deltas :: comparison where
  "no_deltas = \<lparr>cmp_regressions = [], cmp_improvements = [], cmp_infos = Some []\<rparr>"

definition sort_deltas :: "string cmp \<Rightarrow> comparison \<Rightarrow> comparison" where
  "sort_deltas lc d =
     \<lparr>cmp_regressions = js_sort (testId_path_cmp lc) (cmp_regressions d),
      cmp_improvements = js_sort (testId_path_cmp lc) (cmp_improvements d),
      cmp_infos = map_option (js_sort (testId_path_cmp lc)) (cmp_infos d)\<rparr>"

definition compareCurrentToBaseline ::
    "string cmp \<Rightarrow> ratchet_baseline \<Rightarrow> ratchet_config list \<Rightarrow> current_by_id \<Rightarrow> workflow_vocabulary \<Rightarrow>
     compare_error + comparison" where
  "compareCurrentToBaseline lc b ratchets currentById vocab =
     (let inp = comparisonInput b ratchets currentById;
          grouped = compareGroupedBaseline
            (lintRatchetBaselineSpec lc default_version_policy vocab DEFAULT_BASELINE_FILENAME)
            (ki_baseline inp) (ki_current inp)
      in case visit_all lc (ki_ratchetsById inp) currentById (ch_comparedItems (cr_changes grouped)) no_deltas of
           Inl e \<Rightarrow> Inl e
         | Inr d \<Rightarrow> Inr (sort_deltas lc d))"

end
