(* ===== verification/BaselineUpdate.thy ===== *)
theory BaselineUpdate
  imports BaselineCompare
begin

text \<open>
  \<open>kernel/baseline-update.ts\<close>, \<open>kernel/baseline-update-lifecycle.ts\<close>, \<open>kernel/lifecycle-diff.ts\<close>,
  \<open>kernel/recovery-command.ts\<close> and \<open>kernel/ratchet-globs.ts\<close>: the gate that decides whether a
  regenerated baseline may replace the committed one.

  \<open>glob\<close> is minimatch with \<open>dot: true\<close>: pattern, path, whether they match. \<open>Object.keys(..).sort()\<close>
  without a comparator is the code unit order.
\<close>

type_synonym globber = "string \<Rightarrow> string \<Rightarrow> bool"

section \<open>Globs\<close>

definition matchesAny :: "globber \<Rightarrow> string \<Rightarrow> string list \<Rightarrow> bool" where
  "matchesAny glob path patterns \<longleftrightarrow> list_ex (\<lambda>p. glob p path) patterns"

definition matchesRatchet :: "globber \<Rightarrow> string list \<Rightarrow> string list \<Rightarrow> string \<Rightarrow> bool" where
  "matchesRatchet glob files ignores tracked \<longleftrightarrow>
     matchesAny glob tracked files \<and> \<not> matchesAny glob tracked ignores"

definition matchingTrackedFiles :: "globber \<Rightarrow> string list \<Rightarrow> string list \<Rightarrow> string list \<Rightarrow> string list" where
  "matchingTrackedFiles glob files ignores trackedFiles = filter (matchesRatchet glob files ignores) trackedFiles"

section \<open>The reason of an accepted regression\<close>

definition RATCHET_REGRESSION_REASON_PLACEHOLDER :: string where
  "RATCHET_REGRESSION_REASON_PLACEHOLDER =
     ''<why accepting this baseline increase is better than forcing a low-quality fix now>''"

definition regressionRecoveryFooter :: "workflow_vocabulary \<Rightarrow> string" where
  "regressionRecoveryFooter vocab =
     ''Recovery: fix the regressions above; if the new findings are intentional, run `''
     @ wv_regressionUpdateCommand vocab @ ''`.''"

definition isRatchetRegressionReasonPlaceholder :: "string \<Rightarrow> bool" where
  "isRatchetRegressionReasonPlaceholder reason =
     (let trimmed = js_trim reason
      in trimmed = RATCHET_REGRESSION_REASON_PLACEHOLDER \<or> take 4 (js_lower trimmed) = ''<why'')"

definition trimmed_or_empty :: "string option \<Rightarrow> string" where
  "trimmed_or_empty r = (case r of None \<Rightarrow> [] | Some s \<Rightarrow> js_trim s)"

definition ratchetRegressionReasonFailure :: "string option \<Rightarrow> string option" where
  "ratchetRegressionReasonFailure reason =
     (let trimmed = trimmed_or_empty reason
      in if trimmed = [] then Some ''--allow-worse requires a non-empty --reason''
         else if isRatchetRegressionReasonPlaceholder trimmed
         then Some ''--allow-worse requires a real --reason, not the placeholder''
         else None)"

definition real_reason :: "string option \<Rightarrow> bool" where
  "real_reason r \<longleftrightarrow> trimmed_or_empty r \<noteq> [] \<and> \<not> isRatchetRegressionReasonPlaceholder (trimmed_or_empty r)"

lemma trimmed_idem [simp]: "trimmed_or_empty (Some (trimmed_or_empty r)) = trimmed_or_empty r"
  by (cases r) (simp add: trimmed_or_empty_def js_trim_def, simp add: trimmed_or_empty_def js_trim_idem)

lemma ratchetRegressionReasonFailure_None: "ratchetRegressionReasonFailure r = None \<longleftrightarrow> real_reason r"
  by (simp add: ratchetRegressionReasonFailure_def real_reason_def Let_def)

section \<open>Lifecycle differences\<close>

record coverage_shrink =
  cs_ratchetId :: string
  cs_ruleId :: string
  cs_previousFiles :: "string list"
  cs_currentFiles :: "string list"
  cs_previousIgnores :: "string list"
  cs_currentIgnores :: "string list"
  cs_removedPaths :: "string list"

record metric_migration =
  mm_ratchetId :: string
  mm_ruleId :: string
  mm_fromMetric :: metric
  mm_toMetric :: metric

definition removed_from_coverage :: "globber \<Rightarrow> baseline_test \<Rightarrow> baseline_test \<Rightarrow> string list" where
  "removed_from_coverage glob previous current =
     js_sort codeUnitCompare
       (filter (\<lambda>path. map_of (bt_items current) path = None \<and>
                       \<not> matchesRatchet glob (gm_files current) (gm_ignores current) path)
               (map fst (bt_items previous)))"

definition shrink_of :: "globber \<Rightarrow> string \<Rightarrow> baseline_test option \<Rightarrow> baseline_test \<Rightarrow> coverage_shrink list" where
  "shrink_of glob testId previous current =
     (case previous of
        None \<Rightarrow> []
      | Some prev \<Rightarrow>
          if gm_files prev = gm_files current \<and> gm_ignores prev = gm_ignores current then []
          else (let removedPaths = removed_from_coverage glob prev current
                in if removedPaths = [] then []
                   else [\<lparr>cs_ratchetId = testId, cs_ruleId = gm_ruleId current,
                          cs_previousFiles = gm_files prev, cs_currentFiles = gm_files current,
                          cs_previousIgnores = gm_ignores prev, cs_currentIgnores = gm_ignores current,
                          cs_removedPaths = removedPaths\<rparr>]))"

definition collectCoverageShrinks :: "globber \<Rightarrow> ratchet_baseline \<Rightarrow> ratchet_baseline \<Rightarrow> coverage_shrink list" where
  "collectCoverageShrinks glob committed generated =
     concat (map (\<lambda>(testId, current). shrink_of glob testId (map_of (bl_tests committed) testId) current)
       (bl_tests generated))"

definition collectMetricMigrations :: "ratchet_baseline \<Rightarrow> ratchet_baseline \<Rightarrow> metric_migration list" where
  "collectMetricMigrations committed generated =
     concat (map (\<lambda>(testId, current).
       case map_of (bl_tests committed) testId of
         None \<Rightarrow> []
       | Some previous \<Rightarrow>
           if gm_metric previous = gm_metric current then []
           else [\<lparr>mm_ratchetId = testId, mm_ruleId = gm_ruleId current,
                  mm_fromMetric = gm_metric previous, mm_toMetric = gm_metric current\<rparr>]) (bl_tests generated))"

fun count_comparable_regression :: "regression_reason \<Rightarrow> bool" where
  "count_comparable_regression NewPath = True"
| "count_comparable_regression IncreasedCount = True"
| "count_comparable_regression IncreasedLines = False"
| "count_comparable_regression IncreasedComplexity = False"

fun count_comparable_improvement :: "improvement_reason \<Rightarrow> bool" where
  "count_comparable_improvement RemovedPath = True"
| "count_comparable_improvement LowerCount = True"
| "count_comparable_improvement LowerLines = False"
| "count_comparable_improvement LowerComplexity = False"

definition excludeIncomparableMigratedDeltas :: "comparison \<Rightarrow> string list \<Rightarrow> comparison" where
  "excludeIncomparableMigratedDeltas c migratedIds =
     (if migratedIds = [] then c
      else \<lparr>cmp_regressions = filter (\<lambda>e. dl_testId e \<notin> set migratedIds \<or> count_comparable_regression (dl_reason e))
              (cmp_regressions c),
            cmp_improvements = filter (\<lambda>e. dl_testId e \<notin> set migratedIds \<or> count_comparable_improvement (dl_reason e))
              (cmp_improvements c),
            cmp_infos = map_option (filter (\<lambda>e. dl_testId e \<notin> set migratedIds)) (cmp_infos c)\<rparr>)"

section \<open>The update gate\<close>

record attestation =
  at_reason :: string
  at_ratchetOptions :: "jsval list"
  at_normalLintOptions :: "jsval list list"

record retire_request =
  rr_id :: string
  rr_normalErrorProven :: bool
  rr_optionsAttestation :: "attestation option"

record update_options =
  uo_allowWorse :: bool
  uo_workflowVocabulary :: workflow_vocabulary
  uo_reason :: "string option"
  uo_migrationReason :: "string option"
  uo_retire :: "retire_request option"

definition metricMigrationFailure :: "metric_migration list \<Rightarrow> update_options \<Rightarrow> string option" where
  "metricMigrationFailure migrations opts =
     (if migrations = [] then None
      else if real_reason (or_else (uo_migrationReason opts) (uo_reason opts)) then None
      else (let flag = (if uo_migrationReason opts = None then ''--reason'' else ''--migration-reason'')
            in Some (''changing a ratchet metric for ''
              @ js_join '', '' (map (\<lambda>m. mm_ratchetId m @ '' ('' @ metric_name (mm_fromMetric m) @ '' '' @ right_arrow
                    @ '' '' @ metric_name (mm_toMetric m) @ '')'') migrations)
              @ '' needs '' @ flag @ '' \"<why the new metric is the right measure>\" so the migration is recorded in the ''
              @ ''debt log; per-path values are not comparable across metrics'')))"

record zero_transition =
  zt_testId :: string
  zt_ruleId :: string
  zt_newPaths :: "(string \<times> int) list"

definition detectZeroToNonzeroTransitions ::
    "string cmp \<Rightarrow> ratchet_baseline \<Rightarrow> ratchet_baseline \<Rightarrow> zero_transition list" where
  "detectZeroToNonzeroTransitions lc committed generated =
     concat (map (\<lambda>(testId, genTest).
       case map_of (bl_tests committed) testId of
         None \<Rightarrow> []
       | Some committedTest \<Rightarrow>
           (let generatedPaths = key_sort lc (map (\<lambda>(path, item). (path, mi_count item)) (bt_items genTest))
            in if bt_items committedTest = [] \<and> generatedPaths \<noteq> []
               then [\<lparr>zt_testId = testId, zt_ruleId = gm_ruleId genTest, zt_newPaths = generatedPaths\<rparr>]
               else [])) (bl_tests generated))"

definition formatZeroToNonzeroWarnings :: "zero_transition list \<Rightarrow> string list" where
  "formatZeroToNonzeroWarnings transitions =
     map (\<lambda>t. ''lint:ratchet:update accepted new findings for a previously clean ratchet ''
       @ zt_testId t @ '' (rule: '' @ zt_ruleId t @ ''): '' @ show_nat (length (zt_newPaths t)) @ '' path(s) '' @ em_dash @ '' ''
       @ js_join '', '' (map (\<lambda>(path, n). path @ '': '' @ show_int n) (zt_newPaths t)) @ ''. ''
       @ ''Inspect these paths before committing; fix accidental findings instead of baselining them.'') transitions"

record orphan_removal =
  or_testId :: string
  or_ruleId :: string
  or_metric :: metric
  or_baselineItems :: "(string \<times> metric_item) list"

definition orphanBaselineItems :: "baseline_test \<Rightarrow> (string \<times> metric_item) list" where
  "orphanBaselineItems test = key_sort compareByCodepoint (bt_items test)"

definition allowWorseReasonSuffix :: "string \<Rightarrow> string" where
  "allowWorseReasonSuffix leadIn =
     leadIn @ '' --allow-worse --reason \"'' @ RATCHET_REGRESSION_REASON_PLACEHOLDER @ ''\"''"

definition collectOrphanRemovals :: "ratchet_baseline \<Rightarrow> ratchet_config list \<Rightarrow> orphan_removal list" where
  "collectOrphanRemovals committed ratchets =
     concat (map (\<lambda>testId.
       if testId \<in> set (map rc_id ratchets) then []
       else case map_of (bl_tests committed) testId of
              None \<Rightarrow> []
            | Some test \<Rightarrow> [\<lparr>or_testId = testId, or_ruleId = gm_ruleId test, or_metric = gm_metric test,
                             or_baselineItems = orphanBaselineItems test\<rparr>])
       (js_sort codeUnitCompare (map fst (bl_tests committed))))"

definition formatOrphanFailure :: "orphan_removal list \<Rightarrow> string option" where
  "formatOrphanFailure removals =
     (if removals = [] then None
      else Some (''committed baseline carries '' @ show_nat (length removals) @ '' entr''
        @ (if length removals = 1 then ''y'' else ''ies'') @ '' with no matching registry id (''
        @ js_join '', '' (map or_testId removals) @ ''); this looks like a rename or removal '' @ em_dash @ '' ''
        @ allowWorseReasonSuffix ''pass'' @ '' so count protection is not bypassed silently''))"

definition orphanFindingTotal :: "orphan_removal \<Rightarrow> int" where
  "orphanFindingTotal orphan = foldl (\<lambda>total (_, item). total + mi_count item) 0 (or_baselineItems orphan)"

record retire_resolution =
  rs_retiredRatchetId :: "string option"
  rs_optionsAttestation :: "attestation option"
  rs_failure :: "string option"

definition resolveRetire :: "retire_request \<Rightarrow> orphan_removal list \<Rightarrow> retire_resolution" where
  "resolveRetire retire removals =
     (case List.find (\<lambda>r. or_testId r = rr_id retire) removals of
        None \<Rightarrow> \<lparr>rs_retiredRatchetId = None, rs_optionsAttestation = None, rs_failure =
          Some (''--retire-ratchet '' @ rr_id retire @ '' requires '' @ rr_id retire
            @ '' to be an orphaned committed baseline entry (an id removed from the registry); no such entry was found'')\<rparr>
      | Some orphan \<Rightarrow>
          if orphanFindingTotal orphan > 0
          then \<lparr>rs_retiredRatchetId = None, rs_optionsAttestation = None, rs_failure =
            Some (''--retire-ratchet '' @ rr_id retire @ '' only retires a zero-finding orphan; '' @ rr_id retire
              @ '' still carries '' @ show_int (orphanFindingTotal orphan) @ '' finding(s) '' @ em_dash @ '' drain or ''
              @ allowWorseReasonSuffix ''accept them with'' @ '' instead'')\<rparr>
          else if \<not> rr_normalErrorProven retire
          then \<lparr>rs_retiredRatchetId = None, rs_optionsAttestation = None, rs_failure =
            Some (''--retire-ratchet '' @ rr_id retire @ '' requires proof the rule was promoted: normal lint must ''
              @ ''error on the retired scope. It does not, so the guard may have been dropped without a replacement ''
              @ em_dash @ '' '' @ allowWorseReasonSuffix ''accept the removal with'' @ '' instead'')\<rparr>
          else \<lparr>rs_retiredRatchetId = Some (rr_id retire), rs_optionsAttestation = rr_optionsAttestation retire,
                rs_failure = None\<rparr>)"

definition coverageShrinkFailure :: "coverage_shrink list \<Rightarrow> update_options \<Rightarrow> string option" where
  "coverageShrinkFailure shrinks opts =
     (if uo_allowWorse opts \<or> shrinks = [] then None
      else Some (''registry glob changes cause a coverage shrink for '' @ show_nat (length shrinks) @ '' ratchet(s): ''
        @ js_join ''; '' (map (\<lambda>s. cs_ratchetId s @ '' ('' @ js_join '', '' (cs_removedPaths s) @ '')'') shrinks)
        @ ''; '' @ allowWorseReasonSuffix ''pass'' @ '' to accept and record the removed coverage''))"

definition regressionFailure :: "comparison \<Rightarrow> update_options \<Rightarrow> string option" where
  "regressionFailure c opts =
     (if uo_allowWorse opts \<or> cmp_regressions c = [] then None
      else Some (''generated baseline is worse for '' @ show_nat (length (cmp_regressions c)) @ '' path(s); ''
        @ allowWorseReasonSuffix ''pass'' @ '' to accept intentional new debt''))"

definition reasonFailure :: "update_options \<Rightarrow> string option" where
  "reasonFailure opts =
     (if \<not> uo_allowWorse opts then None
      else ratchetRegressionReasonFailure (Some (trimmed_or_empty (uo_reason opts))))"

definition accountableOrphans :: "orphan_removal list \<Rightarrow> string option \<Rightarrow> orphan_removal list" where
  "accountableOrphans removals retiredRatchetId =
     (case retiredRatchetId of None \<Rightarrow> removals | Some i \<Rightarrow> filter (\<lambda>r. or_testId r \<noteq> i) removals)"

record update_gate =
  ug_failures :: "string list"
  ug_orphanRemovals :: "orphan_removal list"
  ug_coverageShrinks :: "coverage_shrink list"
  ug_retiredRatchetId :: "string option"
  ug_retirementOptionsAttestation :: "attestation option"

definition collectUpdateGate ::
    "globber \<Rightarrow> ratchet_baseline \<Rightarrow> ratchet_baseline \<Rightarrow> ratchet_config list \<Rightarrow> comparison \<Rightarrow>
     metric_migration list \<Rightarrow> update_options \<Rightarrow> update_gate" where
  "collectUpdateGate glob committed generated ratchets cmp migrations opts =
     (let allOrphanRemovals = collectOrphanRemovals committed ratchets;
          coverageShrinks = collectCoverageShrinks glob committed generated;
          retire = map_option (\<lambda>r. resolveRetire r allOrphanRemovals) (uo_retire opts);
          retiredId = Option.bind retire rs_retiredRatchetId;
          orphanRemovals = accountableOrphans allOrphanRemovals retiredId
      in \<lparr>ug_failures = List.map_filter id
            [regressionFailure cmp opts, coverageShrinkFailure coverageShrinks opts,
             metricMigrationFailure migrations opts, Option.bind retire rs_failure,
             if uo_allowWorse opts then None else formatOrphanFailure orphanRemovals,
             reasonFailure opts],
          ug_orphanRemovals = orphanRemovals, ug_coverageShrinks = coverageShrinks,
          ug_retiredRatchetId = retiredId,
          ug_retirementOptionsAttestation =
            (if retiredId = None then None else Option.bind retire rs_optionsAttestation)\<rparr>)"

record update_decision = comparison +
  ud_allowed :: bool
  ud_failures :: "string list"
  ud_warnings :: "string list"
  ud_orphanRemovals :: "orphan_removal list"
  ud_coverageShrinks :: "coverage_shrink list"
  ud_metricMigrations :: "metric_migration list"
  ud_retiredRatchetId :: "string option"
  ud_retirementOptionsAttestation :: "attestation option"

definition decideLintRatchetUpdateWithComparator ::
    "string cmp \<Rightarrow> globber \<Rightarrow> ratchet_baseline \<Rightarrow> ratchet_baseline \<Rightarrow> ratchet_config list \<Rightarrow> update_options \<Rightarrow>
     (ratchet_baseline \<Rightarrow> ratchet_config list \<Rightarrow> current_by_id \<Rightarrow> compare_error + comparison) \<Rightarrow>
     compare_error + update_decision" where
  "decideLintRatchetUpdateWithComparator lc glob committed generated ratchets opts cmpf =
     (let migrations = collectMetricMigrations committed generated
      in case cmpf committed ratchets (currentByIdFromBaseline generated) of
           Inl e \<Rightarrow> Inl e
         | Inr raw \<Rightarrow>
             (let cmp = excludeIncomparableMigratedDeltas raw (map mm_ratchetId migrations);
                  gate = collectUpdateGate glob committed generated ratchets cmp migrations opts;
                  warnings = formatZeroToNonzeroWarnings (detectZeroToNonzeroTransitions lc committed generated);
                  allowed = (ug_failures gate = [])
              in Inr \<lparr>cmp_regressions = cmp_regressions cmp, cmp_improvements = cmp_improvements cmp,
                      cmp_infos = cmp_infos cmp, ud_allowed = allowed, ud_failures = ug_failures gate,
                      ud_warnings = warnings, ud_orphanRemovals = ug_orphanRemovals gate,
                      ud_coverageShrinks = ug_coverageShrinks gate, ud_metricMigrations = migrations,
                      ud_retiredRatchetId = (if allowed then ug_retiredRatchetId gate else None),
                      ud_retirementOptionsAttestation =
                        (if allowed then ug_retirementOptionsAttestation gate else None)\<rparr>))"

definition decideLintRatchetUpdate ::
    "string cmp \<Rightarrow> globber \<Rightarrow> ratchet_baseline \<Rightarrow> ratchet_baseline \<Rightarrow> ratchet_config list \<Rightarrow> update_options \<Rightarrow>
     compare_error + update_decision" where
  "decideLintRatchetUpdate lc glob committed generated ratchets opts =
     decideLintRatchetUpdateWithComparator lc glob committed generated ratchets opts
       (\<lambda>b registry currentById. compareCurrentToBaseline lc b registry currentById (uo_workflowVocabulary opts))"

end
