(* ===== verification/Scheduler.thy ===== *)
theory Scheduler
  imports Collector BaselineUpdate
begin

text \<open>
  \<open>kernel/current-collection-scheduler.ts\<close> as a state machine. The state holds the closure's
  variables and the collections that are in flight; \<open>pump\<close> starts what may run; the events are
  the settlements of the collections, in any order. At most one type-aware ratchet runs at a
  time, and at most \<open>limit\<close> ratchets run at all.

  What a collection computes (an ESLint process) is the payload of the event. A rejected
  collection or a missing hash settles the outer promise; later settlements still update the
  counters, as in the code.
\<close>

datatype settlement = Pending | Resolved "collection_result option list" | RejectedMissingHash string | RejectedBy string

record sched =
  sc_results :: "(nat \<times> collection_result) list"
  sc_started :: "nat list"
  sc_active :: int
  sc_completed :: nat
  sc_typeAwareInFlight :: int
  sc_rejected :: bool
  sc_outcome :: settlement
  sc_inflight :: "nat list"

definition isTypeAwareRatchet :: "ratchet_config \<Rightarrow> bool" where
  "isTypeAwareRatchet r \<longleftrightarrow> ratchetParserProfile r = TypeAwareTs"

fun next_runnable_from :: "nat \<Rightarrow> ratchet_config list \<Rightarrow> nat list \<Rightarrow> int \<Rightarrow> nat option" where
  "next_runnable_from i [] started typeAware = None"
| "next_runnable_from i (r # rs) started typeAware =
     (if i \<in> set started then next_runnable_from (Suc i) rs started typeAware
      else if typeAware > 0 \<and> isTypeAwareRatchet r then next_runnable_from (Suc i) rs started typeAware
      else Some i)"

definition nextRunnableRatchetIndex :: "ratchet_config list \<Rightarrow> nat list \<Rightarrow> int \<Rightarrow> nat option" where
  "nextRunnableRatchetIndex ratchets started typeAware = next_runnable_from 0 ratchets started typeAware"

text \<open>The results array: holes are \<open>undefined\<close>.\<close>

definition results_array :: "(nat \<times> collection_result) list \<Rightarrow> collection_result option list" where
  "results_array rs = map (map_of rs) [0..<(if rs = [] then 0 else Suc (Max (set (map fst rs))))]"

definition start :: "ratchet_config \<Rightarrow> nat \<Rightarrow> sched \<Rightarrow> sched" where
  "start r i st = st\<lparr>sc_started := i # sc_started st, sc_active := sc_active st + 1,
     sc_typeAwareInFlight := (if isTypeAwareRatchet r then sc_typeAwareInFlight st + 1 else sc_typeAwareInFlight st),
     sc_inflight := i # sc_inflight st\<rparr>"

lemma next_runnable_from_Some:
  "next_runnable_from i rs started ta = Some j \<Longrightarrow>
     i \<le> j \<and> j < i + length rs \<and> j \<notin> set started \<and> \<not> (ta > 0 \<and> isTypeAwareRatchet (rs ! (j - i)))"
proof (induction rs arbitrary: i)
  case Nil
  then show ?case by simp
next
  case (Cons r rs)
  show ?case
  proof (cases "i \<in> set started \<or> (ta > 0 \<and> isTypeAwareRatchet r)")
    case True
    with Cons.prems have "next_runnable_from (Suc i) rs started ta = Some j" by (auto split: if_splits)
    note ih = Cons.IH[OF this]
    then have "j - i = Suc (j - Suc i)" by auto
    with ih show ?thesis by auto
  next
    case False
    with Cons.prems show ?thesis by (auto split: if_splits)
  qed
qed

lemma next_runnable_Some:
  "nextRunnableRatchetIndex rs started ta = Some j \<Longrightarrow>
     j < length rs \<and> j \<notin> set started \<and> \<not> (ta > 0 \<and> isTypeAwareRatchet (rs ! j))"
  using next_runnable_from_Some[of 0 rs started ta j] by (simp add: nextRunnableRatchetIndex_def)

lemma next_runnable_from_None:
  "next_runnable_from i rs started ta = None \<Longrightarrow> j < length rs \<Longrightarrow> i + j \<in> set started \<or> (ta > 0 \<and> isTypeAwareRatchet (rs ! j))"
proof (induction rs arbitrary: i j)
  case Nil
  then show ?case by simp
next
  case (Cons r rs)
  show ?case
  proof (cases j)
    case 0
    with Cons.prems show ?thesis by (auto split: if_splits)
  next
    case (Suc n)
    with Cons.prems have "next_runnable_from (Suc i) rs started ta = None" and "n < length rs"
      by (auto split: if_splits)
    from Cons.IH[OF this] Suc show ?thesis by simp
  qed
qed

lemma next_runnable_None:
  "nextRunnableRatchetIndex rs started ta = None \<Longrightarrow> j < length rs \<Longrightarrow> j \<in> set started \<or> (ta > 0 \<and> isTypeAwareRatchet (rs ! j))"
  using next_runnable_from_None[of 0 rs started ta j] by (simp add: nextRunnableRatchetIndex_def)

text \<open>Settling a promise a second time does nothing.\<close>

definition settle :: "settlement \<Rightarrow> sched \<Rightarrow> sched" where
  "settle s st = (if sc_outcome st = Pending then st\<lparr>sc_outcome := s\<rparr> else st)"

text \<open>The \<open>while (active < limit)\<close> loop; every iteration starts an index that was not started.\<close>

function pump_loop :: "ratchet_config list \<Rightarrow> (string \<times> string) list \<Rightarrow> int \<Rightarrow> sched \<Rightarrow> sched" where
  "pump_loop ratchets hashes limit st =
     (if \<not> sc_active st < limit then st
      else case nextRunnableRatchetIndex ratchets (sc_started st) (sc_typeAwareInFlight st) of
             None \<Rightarrow> st
           | Some i \<Rightarrow>
               (let r = ratchets ! i
                in case map_of hashes (rc_id r) of
                     None \<Rightarrow> settle (RejectedMissingHash (rc_id r)) (st\<lparr>sc_rejected := True\<rparr>)
                   | Some _ \<Rightarrow> pump_loop ratchets hashes limit (start r i st)))"
  by pat_completeness auto
termination
proof (relation "measure (\<lambda>(rs, _, _, st). card ({..<length rs} - set (sc_started st)))")
  fix ratchets :: "ratchet_config list" and hashes :: "(string \<times> string) list" and limit and st :: sched and i r h
  assume "nextRunnableRatchetIndex ratchets (sc_started st) (sc_typeAwareInFlight st) = Some i"
  from next_runnable_Some[OF this]
  have "i \<in> {..<length ratchets} - set (sc_started st)" by auto
  then have "card ({..<length ratchets} - set (sc_started (start r i st))) < card ({..<length ratchets} - set (sc_started st))"
    by (intro psubset_card_mono) (auto simp: start_def)
  then show "((ratchets, hashes, limit, start r i st), ratchets, hashes, limit, st) \<in>
      measure (\<lambda>(rs, _, _, st). card ({..<length rs} - set (sc_started st)))" by simp
qed simp

declare pump_loop.simps [simp del]

definition pump :: "ratchet_config list \<Rightarrow> (string \<times> string) list \<Rightarrow> int \<Rightarrow> sched \<Rightarrow> sched" where
  "pump ratchets hashes limit st =
     (if sc_rejected st then st
      else if sc_completed st = length ratchets
      then settle (Resolved (results_array (sc_results st))) st
      else pump_loop ratchets hashes limit st)"

definition initial_sched :: sched where
  "initial_sched = \<lparr>sc_results = [], sc_started = [], sc_active = 0, sc_completed = 0,
     sc_typeAwareInFlight = 0, sc_rejected = False, sc_outcome = Pending, sc_inflight = []\<rparr>"

datatype sched_event = Fulfilled nat collection_result | Failed nat string

fun event_index :: "sched_event \<Rightarrow> nat" where
  "event_index (Fulfilled i _) = i"
| "event_index (Failed i _) = i"

definition fulfil :: "ratchet_config list \<Rightarrow> nat \<Rightarrow> collection_result \<Rightarrow> sched \<Rightarrow> sched" where
  "fulfil ratchets i res st =
     st\<lparr>sc_results := AList.update i res (sc_results st), sc_active := sc_active st - 1,
        sc_completed := sc_completed st + 1,
        sc_typeAwareInFlight := (if isTypeAwareRatchet (ratchets ! i) then sc_typeAwareInFlight st - 1
                                 else sc_typeAwareInFlight st),
        sc_inflight := remove1 i (sc_inflight st)\<rparr>"

fun on_event :: "ratchet_config list \<Rightarrow> (string \<times> string) list \<Rightarrow> int \<Rightarrow> sched_event \<Rightarrow> sched \<Rightarrow> sched" where
  "on_event ratchets hashes limit (Fulfilled i res) st = pump ratchets hashes limit (fulfil ratchets i res st)"
| "on_event ratchets hashes limit (Failed i err) st =
     settle (RejectedBy err) (st\<lparr>sc_rejected := True, sc_inflight := remove1 i (sc_inflight st)\<rparr>)"

definition collect_start :: "ratchet_config list \<Rightarrow> (string \<times> string) list \<Rightarrow> int \<Rightarrow> sched" where
  "collect_start ratchets hashes limit = pump ratchets hashes limit initial_sched"

text \<open>One step: a collection that is in flight settles.\<close>

inductive sched_step ::
    "ratchet_config list \<Rightarrow> (string \<times> string) list \<Rightarrow> int \<Rightarrow> sched \<Rightarrow> sched_event \<Rightarrow> sched \<Rightarrow> bool"
  for ratchets hashes limit where
  settles: "event_index e \<in> set (sc_inflight st) \<Longrightarrow>
    sched_step ratchets hashes limit st e (on_event ratchets hashes limit e st)"

inductive sched_run ::
    "ratchet_config list \<Rightarrow> (string \<times> string) list \<Rightarrow> int \<Rightarrow> sched_event list \<Rightarrow> sched \<Rightarrow> bool"
  for ratchets hashes limit where
  begin_run: "sched_run ratchets hashes limit [] (collect_start ratchets hashes limit)"
| next_event: "sched_run ratchets hashes limit es st \<Longrightarrow> sched_step ratchets hashes limit st e st' \<Longrightarrow>
    sched_run ratchets hashes limit (es @ [e]) st'"

inductive_cases sched_stepE [elim]: "sched_step ratchets hashes limit st e st'"
inductive_simps sched_step_iff: "sched_step ratchets hashes limit st e st'"

code_pred (modes: i \<Rightarrow> i \<Rightarrow> i \<Rightarrow> i \<Rightarrow> i \<Rightarrow> o \<Rightarrow> bool as step) sched_step .

end
