(* ===== verification/SchedulerLaws.thy ===== *)
theory SchedulerLaws
  imports Scheduler
begin

text \<open>
  Properties of the collection scheduler on every order of settlements: the bounds it keeps, that it
  never waits for nothing, and that it resolves with the result of every ratchet.
\<close>

section \<open>The invariant\<close>

fun is_fulfilled :: "sched_event \<Rightarrow> bool" where
  "is_fulfilled (Fulfilled _ _) = True"
| "is_fulfilled (Failed _ _) = False"

definition type_aware_at :: "ratchet_config list \<Rightarrow> nat \<Rightarrow> bool" where
  "type_aware_at ratchets i \<longleftrightarrow> isTypeAwareRatchet (ratchets ! i)"

text \<open>The indexes that still count as active: in flight, or failed.\<close>

definition held :: "sched_event list \<Rightarrow> sched \<Rightarrow> nat list" where
  "held es st = sc_inflight st @ map event_index (filter (\<lambda>e. \<not> is_fulfilled e) es)"

definition counters_ok :: "ratchet_config list \<Rightarrow> int \<Rightarrow> sched_event list \<Rightarrow> sched \<Rightarrow> bool" where
  "counters_ok ratchets limit es st \<longleftrightarrow>
     mset (sc_started st) = mset (sc_inflight st) + mset (map event_index es) \<and>
     distinct (sc_started st) \<and> set (sc_started st) \<subseteq> {..<length ratchets} \<and>
     sc_active st = int (length (held es st)) \<and> sc_active st \<le> max 0 limit \<and>
     sc_typeAwareInFlight st = int (length (filter (type_aware_at ratchets) (held es st))) \<and>
     sc_typeAwareInFlight st \<le> 1 \<and>
     sc_completed st = length (filter is_fulfilled es)"

definition results_ok :: "sched_event list \<Rightarrow> sched \<Rightarrow> bool" where
  "results_ok es st \<longleftrightarrow> (\<forall>i r. map_of (sc_results st) i = Some r \<longleftrightarrow> Fulfilled i r \<in> set es)
     \<and> fst ` set (sc_results st) = event_index ` set (filter is_fulfilled es)"

definition outcome_ok :: "ratchet_config list \<Rightarrow> sched_event list \<Rightarrow> sched \<Rightarrow> bool" where
  "outcome_ok ratchets es st \<longleftrightarrow>
     (sc_rejected st \<longleftrightarrow> sc_outcome st \<noteq> Pending \<and> (\<forall>rs. sc_outcome st \<noteq> Resolved rs)) \<and>
     (list_ex (\<lambda>e. \<not> is_fulfilled e) es \<longrightarrow> sc_rejected st) \<and>
     (\<forall>rs. sc_outcome st = Resolved rs \<longrightarrow> sc_completed st = length ratchets \<and> rs = results_array (sc_results st))"

definition sched_inv :: "ratchet_config list \<Rightarrow> int \<Rightarrow> sched_event list \<Rightarrow> sched \<Rightarrow> bool" where
  "sched_inv ratchets limit es st \<longleftrightarrow> counters_ok ratchets limit es st \<and> results_ok es st \<and> outcome_ok ratchets es st"

lemma start_counters:
  assumes "counters_ok ratchets limit es st" and "sc_active st < limit"
    and "nextRunnableRatchetIndex ratchets (sc_started st) (sc_typeAwareInFlight st) = Some i"
  shows "counters_ok ratchets limit es (start (ratchets ! i) i st)"
proof -
  from next_runnable_Some[OF assms(3)] have "i < length ratchets" "i \<notin> set (sc_started st)"
    "sc_typeAwareInFlight st > 0 \<longrightarrow> \<not> type_aware_at ratchets i" by (auto simp: type_aware_at_def)
  with assms(1,2) show ?thesis
    by (auto simp: counters_ok_def start_def held_def type_aware_at_def)
qed

lemma start_other:
  "results_ok es (start r i st) = results_ok es st" "outcome_ok ratchets es (start r i st) = outcome_ok ratchets es st"
  "sc_rejected (start r i st) = sc_rejected st" "sc_outcome (start r i st) = sc_outcome st"
  "sc_completed (start r i st) = sc_completed st"
  by (simp_all add: results_ok_def outcome_ok_def start_def)

lemma settle_other [simp]:
  "sc_started (settle s st) = sc_started st" "sc_inflight (settle s st) = sc_inflight st"
  "sc_active (settle s st) = sc_active st" "sc_typeAwareInFlight (settle s st) = sc_typeAwareInFlight st"
  "sc_completed (settle s st) = sc_completed st" "sc_results (settle s st) = sc_results st"
  "sc_rejected (settle s st) = sc_rejected st"
  "sc_outcome (settle s st) = (if sc_outcome st = Pending then s else sc_outcome st)"
  by (simp_all add: settle_def)

lemma counters_settle [simp]:
  "counters_ok ratchets limit es (settle s st) = counters_ok ratchets limit es st"
  "counters_ok ratchets limit es (st\<lparr>sc_rejected := b\<rparr>) = counters_ok ratchets limit es st"
  "results_ok es (settle s st) = results_ok es st"
  "results_ok es (st\<lparr>sc_rejected := b\<rparr>) = results_ok es st"
  by (simp_all add: counters_ok_def held_def results_ok_def)

lemma pump_loop_inv:
  assumes "sched_inv ratchets limit es st" and "\<not> sc_rejected st" and "sc_outcome st = Pending"
  shows "sched_inv ratchets limit es (pump_loop ratchets hashes limit st)"
  using assms
proof (induction ratchets hashes limit st rule: pump_loop.induct)
  case (1 ratchets hashes limit st)
  show ?case
  proof (cases "sc_active st < limit \<and> (\<exists>i. nextRunnableRatchetIndex ratchets (sc_started st) (sc_typeAwareInFlight st) = Some i)")
    case False
    then show ?thesis
      using "1.prems"(1) by (subst pump_loop.simps) (auto split: option.splits)
  next
    case True
    then obtain i where i: "sc_active st < limit"
        "nextRunnableRatchetIndex ratchets (sc_started st) (sc_typeAwareInFlight st) = Some i" by blast
    show ?thesis
    proof (cases "map_of hashes (rc_id (ratchets ! i))")
      case None
      then show ?thesis
        using "1.prems" i by (subst pump_loop.simps) (auto simp: sched_inv_def outcome_ok_def)
    next
      case (Some h)
      have "sched_inv ratchets limit es (start (ratchets ! i) i st)"
        using "1.prems"(1) start_counters[OF _ i] by (simp add: sched_inv_def start_other)
      then show ?thesis
        using "1.IH"[of i "ratchets ! i" h] "1.prems" i Some by (subst pump_loop.simps) (simp add: start_other)
    qed
  qed
qed

lemma pump_inv:
  assumes "sched_inv ratchets limit es st"
  shows "sched_inv ratchets limit es (pump ratchets hashes limit st)"
proof (cases "sc_rejected st \<or> sc_completed st = length ratchets")
  case True
  then show ?thesis
    using assms by (auto simp: pump_def sched_inv_def outcome_ok_def)
next
  case False
  then have "sc_outcome st = Pending"
    using assms by (auto simp: sched_inv_def outcome_ok_def)
  with False assms show ?thesis
    by (simp add: pump_def pump_loop_inv)
qed

lemma in_flight_fresh:
  assumes "sched_inv ratchets limit es st" and "i \<in> set (sc_inflight st)"
  shows "i \<notin> event_index ` set es" and "distinct (sc_inflight st)" and "i < length ratchets"
proof -
  have m: "mset (sc_started st) = mset (sc_inflight st @ map event_index es)" and d: "distinct (sc_started st)"
    and s: "set (sc_started st) \<subseteq> {..<length ratchets}"
    using assms(1) by (auto simp: sched_inv_def counters_ok_def)
  from mset_eq_imp_distinct_iff[OF m] d have "distinct (sc_inflight st @ map event_index es)" by simp
  with assms(2) show "i \<notin> event_index ` set es" "distinct (sc_inflight st)" by auto
  from mset_eq_setD[OF m] s assms(2) show "i < length ratchets" by auto
qed

lemma started_le:
  assumes "sched_inv ratchets limit es st"
  shows "length (sc_inflight st) + length es \<le> length ratchets"
proof -
  have m: "mset (sc_started st) = mset (sc_inflight st @ map event_index es)" and d: "distinct (sc_started st)"
    and s: "set (sc_started st) \<subseteq> {..<length ratchets}"
    using assms by (auto simp: sched_inv_def counters_ok_def)
  have "length (sc_started st) = length (sc_inflight st) + length es"
    using mset_eq_length[OF m] by simp
  moreover have "length (sc_started st) \<le> length ratchets"
    using card_mono[OF _ s] distinct_card[OF d] by simp
  ultimately show ?thesis by simp
qed

lemma resolved_idle:
  assumes "sched_inv ratchets limit es st" and "sc_completed st = length ratchets"
  shows "sc_inflight st = []"
proof -
  have "length (filter is_fulfilled es) = length ratchets"
    using assms by (simp add: sched_inv_def counters_ok_def)
  then have "length (sc_inflight st) = 0"
    using started_le[OF assms(1)] length_filter_le[of is_fulfilled es] by linarith
  then show ?thesis by simp
qed

lemma fulfil_inv:
  assumes inv: "sched_inv ratchets limit es st" and i: "i \<in> set (sc_inflight st)"
  shows "sched_inv ratchets limit (es @ [Fulfilled i r]) (fulfil ratchets i r st)"
proof -
  note fresh = in_flight_fresh[OF inv i]
  have aware: "int (length (filter P (remove1 i (sc_inflight st)))) = int (length (filter P (sc_inflight st))) - (if P i then 1 else 0)" for P
  proof -
    have "mset (sc_inflight st) = add_mset i (mset (remove1 i (sc_inflight st)))" using i by simp
    then have "size (filter_mset P (mset (sc_inflight st))) = size (filter_mset P (add_mset i (mset (remove1 i (sc_inflight st)))))" by simp
    then show ?thesis by (simp del: mset_remove1 flip: mset_filter size_mset split: if_splits)
  qed
  have c: "counters_ok ratchets limit (es @ [Fulfilled i r]) (fulfil ratchets i r st)"
    using inv i aware[of "type_aware_at ratchets"] aware[of "\<lambda>_. True"]
    by (auto simp: sched_inv_def counters_ok_def fulfil_def held_def type_aware_at_def simp del: length_remove1)
  have "map_of (sc_results st) i = None"
    using inv fresh(1) unfolding sched_inv_def results_ok_def map_of_eq_None_iff by auto
  then have r: "results_ok (es @ [Fulfilled i r]) (fulfil ratchets i r st)"
    using inv fresh(1) by (auto simp: sched_inv_def results_ok_def fulfil_def update_conv' dom_update image_iff)
  have "outcome_ok ratchets (es @ [Fulfilled i r]) (fulfil ratchets i r st)"
    using inv resolved_idle[OF inv] i by (auto simp: sched_inv_def outcome_ok_def fulfil_def)
  with c r show ?thesis by (simp add: sched_inv_def)
qed

lemma failed_inv:
  assumes inv: "sched_inv ratchets limit es st" and i: "i \<in> set (sc_inflight st)"
  shows "sched_inv ratchets limit (es @ [Failed i err]) (on_event ratchets hashes limit (Failed i err) st)"
proof -
  have ms: "mset (sc_inflight st) = add_mset i (mset (remove1 i (sc_inflight st)))" using i by simp
  have aware: "length (filter P (sc_inflight st)) = length (filter P (remove1 i (sc_inflight st))) + (if P i then 1 else 0)" for P
    using arg_cong[OF ms, of "\<lambda>M. size (filter_mset P M)"] by (simp del: mset_remove1 flip: mset_filter size_mset split: if_splits)
  have "counters_ok ratchets limit (es @ [Failed i err]) (on_event ratchets hashes limit (Failed i err) st)"
    using inv i aware[of "type_aware_at ratchets"] aware[of "\<lambda>_. True"]
    by (auto simp: sched_inv_def counters_ok_def held_def simp del: length_remove1)
  moreover have "results_ok (es @ [Failed i err]) (on_event ratchets hashes limit (Failed i err) st)"
    using inv by (auto simp: sched_inv_def results_ok_def)
  moreover have "outcome_ok ratchets (es @ [Failed i err]) (on_event ratchets hashes limit (Failed i err) st)"
    using inv resolved_idle[OF inv] i by (auto simp: sched_inv_def outcome_ok_def)
  ultimately show ?thesis by (simp add: sched_inv_def)
qed

lemma initial_inv: "sched_inv ratchets limit [] initial_sched"
  by (simp add: sched_inv_def counters_ok_def results_ok_def outcome_ok_def held_def initial_sched_def)

lemma run_inv: "sched_run ratchets hashes limit es st \<Longrightarrow> sched_inv ratchets limit es st"
proof (induction rule: sched_run.induct)
  case begin_run
  show ?case by (simp add: collect_start_def pump_inv initial_inv)
next
  case (next_event es st e st')
  from next_event(2) have e: "event_index e \<in> set (sc_inflight st)" and st': "st' = on_event ratchets hashes limit e st"
    by auto
  show ?case
  proof (cases e)
    case (Fulfilled i r)
    with next_event.IH e st' show ?thesis by (simp add: pump_inv fulfil_inv)
  next
    case (Failed i err)
    with next_event.IH e st' show ?thesis using failed_inv by simp
  qed
qed

section \<open>Progress\<close>

lemma pump_loop_progress:
  "sc_rejected (pump_loop ratchets hashes limit st) \<or> \<not> sc_active (pump_loop ratchets hashes limit st) < limit \<or>
   nextRunnableRatchetIndex ratchets (sc_started (pump_loop ratchets hashes limit st))
     (sc_typeAwareInFlight (pump_loop ratchets hashes limit st)) = None"
proof (induction ratchets hashes limit st rule: pump_loop.induct)
  case (1 ratchets hashes limit st)
  show ?case
    using 1 by (subst (1 2 3 4) pump_loop.simps) (auto simp: Let_def split: option.splits)
qed

lemma pump_loop_completed [simp]: "sc_completed (pump_loop ratchets hashes limit st) = sc_completed st"
  by (induction ratchets hashes limit st rule: pump_loop.induct; subst pump_loop.simps; auto simp: start_other Let_def split: option.splits)

definition waiting :: "ratchet_config list \<Rightarrow> int \<Rightarrow> sched \<Rightarrow> bool" where
  "waiting ratchets limit st \<longleftrightarrow> sc_completed st \<noteq> length ratchets \<and>
     (\<not> sc_active st < limit \<or> nextRunnableRatchetIndex ratchets (sc_started st) (sc_typeAwareInFlight st) = None)"

lemma pump_waiting:
  "sc_rejected (pump ratchets hashes limit st) \<or> sc_outcome (pump ratchets hashes limit st) \<noteq> Pending \<or>
   waiting ratchets limit (pump ratchets hashes limit st)"
  using pump_loop_progress[of ratchets hashes limit st] by (auto simp: pump_def waiting_def)

lemma run_waiting:
  "sched_run ratchets hashes limit es st \<Longrightarrow> sc_rejected st \<or> sc_outcome st \<noteq> Pending \<or> waiting ratchets limit st"
proof (induction rule: sched_run.induct)
  case begin_run
  show ?case by (simp only: collect_start_def pump_waiting)
next
  case (next_event es st e st')
  then have "st' = on_event ratchets hashes limit e st" by auto
  then show ?case by (cases e) (simp_all only: on_event.simps pump_waiting, simp)
qed

lemma unsettled_no_failures:
  assumes "sched_inv ratchets limit es st" and "sc_outcome st = Pending"
  shows "held es st = sc_inflight st" "filter is_fulfilled es = es" "\<not> sc_rejected st"
proof -
  have r: "\<not> sc_rejected st" and "\<not> list_ex (\<lambda>e. \<not> is_fulfilled e) es"
    using assms by (auto simp: sched_inv_def outcome_ok_def)
  then have f: "\<forall>e \<in> set es. is_fulfilled e" by (auto simp: list_ex_iff)
  then show "held es st = sc_inflight st" "filter is_fulfilled es = es" "\<not> sc_rejected st"
    using r by (simp_all add: held_def filter_empty_conv)
qed

lemma waiting_in_flight:
  assumes inv: "sched_inv ratchets limit es st" and "sc_outcome st = Pending" and "waiting ratchets limit st" and "0 < limit"
  shows "sc_inflight st \<noteq> []"
proof
  assume idle: "sc_inflight st = []"
  note clean = unsettled_no_failures[OF inv assms(2)]
  have c: "sc_active st = 0" "sc_typeAwareInFlight st = 0" "mset (sc_started st) = mset (map event_index es)"
    "distinct (sc_started st)" "set (sc_started st) \<subseteq> {..<length ratchets}" "sc_completed st = length es"
    using inv clean idle by (auto simp: sched_inv_def counters_ok_def)
  then have "nextRunnableRatchetIndex ratchets (sc_started st) 0 = None"
    using assms(3,4) by (simp add: waiting_def)
  from next_runnable_None[OF this] have "{..<length ratchets} \<subseteq> set (sc_started st)"
    by auto
  then have "length (sc_started st) = length ratchets"
    using c(4,5) distinct_card[OF c(4)] by (metis card_lessThan subset_antisym)
  moreover have "length (sc_started st) = length es"
    using mset_eq_length[OF c(3)] by simp
  ultimately show False
    using c(6) assms(3) by (simp add: waiting_def)
qed

section \<open>Properties\<close>

text \<open>Two type-aware ratchets and one that is not, and the state after the first settlement.\<close>

definition three_ratchets :: "ratchet_config list" where
  "three_ratchets = [(sample_ratchet ''a'' ''r'' MessageCount CoreSource)\<lparr>rc_parserProfile := Some TypeAwareTs\<rparr>,
     (sample_ratchet ''b'' ''r'' MessageCount CoreSource)\<lparr>rc_parserProfile := Some TypeAwareTs\<rparr>,
     sample_ratchet ''c'' ''r'' MessageCount CoreSource]"

definition three_hashes :: "(string \<times> string) list" where
  "three_hashes = [(''a'', ''h''), (''b'', ''h''), (''c'', ''h'')]"

definition sample_result :: "string \<Rightarrow> collection_result" where
  "sample_result i = \<lparr>cl_id = i, cl_ratchet = sample_ratchet i ''r'' MessageCount CoreSource, cl_results = []\<rparr>"

definition three_events :: "sched_event list" where
  "three_events = [Fulfilled 2 (sample_result ''c''), Fulfilled 0 (sample_result ''a''), Fulfilled 1 (sample_result ''b'')]"

definition after_events :: "sched_event list \<Rightarrow> sched" where
  "after_events es = fold (on_event three_ratchets three_hashes 2) es (collect_start three_ratchets three_hashes 2)"

lemma after_step:
  assumes "sched_run three_ratchets three_hashes 2 es (after_events es)" and "event_index e \<in> set (sc_inflight (after_events es))"
  shows "sched_run three_ratchets three_hashes 2 (es @ [e]) (after_events (es @ [e]))"
  using next_event[OF assms(1) settles[OF assms(2)]] by (simp add: after_events_def)

lemma sample_run_1: "sched_run three_ratchets three_hashes 2 (take 1 three_events) (after_events (take 1 three_events))"
proof -
  have "sched_run three_ratchets three_hashes 2 [] (after_events [])"
    using begin_run by (simp add: after_events_def)
  moreover have "event_index (three_events ! 0) \<in> set (sc_inflight (after_events []))" by code_simp
  ultimately show ?thesis
    using after_step[of "[]" "three_events ! 0"] by (simp add: three_events_def)
qed

lemma sample_run_3: "sched_run three_ratchets three_hashes 2 three_events (after_events three_events)"
proof -
  have "event_index (three_events ! 1) \<in> set (sc_inflight (after_events (take 1 three_events)))"
    "event_index (three_events ! 2) \<in> set (sc_inflight (after_events (take 2 three_events)))"
    by code_simp+
  then show ?thesis
    using after_step[OF after_step[OF sample_run_1], of "three_events ! 1" "three_events ! 2"]
    by (simp add: three_events_def)
qed

text \<open>
  C12: whatever order the collections settle in, at most \<open>limit\<close> of them and at most one type-aware
  one are in flight, and no ratchet is started twice.
\<close>

theorem scheduler_bounds:
  assumes "sched_run ratchets hashes limit es st"
  shows "int (length (sc_inflight st)) \<le> max 0 limit \<and>
    length (filter (\<lambda>i. isTypeAwareRatchet (ratchets ! i)) (sc_inflight st)) \<le> 1 \<and>
    distinct (sc_started st) \<and> set (sc_inflight st) \<subseteq> set (sc_started st) \<and> set (sc_started st) \<subseteq> {..<length ratchets}"
proof -
  note inv = run_inv[OF assms]
  then have m: "mset (sc_started st) = mset (sc_inflight st @ map event_index es)"
    by (simp add: sched_inv_def counters_ok_def)
  have "int (length (filter (type_aware_at ratchets) (held es st))) \<le> 1"
    using inv by (simp add: sched_inv_def counters_ok_def)
  then have "length (filter (type_aware_at ratchets) (sc_inflight st)) \<le> 1"
    by (simp add: held_def)
  then have "length (filter (\<lambda>i. isTypeAwareRatchet (ratchets ! i)) (sc_inflight st)) \<le> 1"
    unfolding type_aware_at_def .
  then show ?thesis
    using inv mset_eq_setD[OF m] by (auto simp: sched_inv_def counters_ok_def held_def)
qed

theorem scheduler_bounds_witness:
  "length (filter (\<lambda>i. isTypeAwareRatchet (three_ratchets ! i)) (sc_inflight (after_events (take 1 three_events)))) \<le> 1 \<and>
   length (sc_inflight (after_events (take 1 three_events))) \<le> 2"
  using scheduler_bounds[OF sample_run_1] by simp

text \<open>
  C13: the scheduler never waits for nothing: with a positive limit, as long as its promise is not
  settled a collection is in flight, and a run has at most as many settlements as there are
  ratchets, so every schedule in which collections settle ends with a settled promise.
\<close>

theorem scheduler_progress:
  assumes "sched_run ratchets hashes limit es st" and "0 < limit"
  shows "(sc_outcome st = Pending \<longrightarrow> sc_inflight st \<noteq> []) \<and> length (sc_inflight st) + length es \<le> length ratchets"
  using waiting_in_flight[OF run_inv[OF assms(1)] _ _ assms(2)] run_waiting[OF assms(1)]
    unsettled_no_failures(3)[OF run_inv[OF assms(1)]] started_le[OF run_inv[OF assms(1)]] by blast

theorem scheduler_progress_witness:
  "sc_outcome (after_events (take 1 three_events)) = Pending \<and> sc_inflight (after_events (take 1 three_events)) \<noteq> []"
proof -
  have "sc_outcome (after_events (take 1 three_events)) = Pending" by code_simp
  then show ?thesis
    using scheduler_progress[OF sample_run_1] by simp
qed

lemma resolved_results:
  assumes "sched_run ratchets hashes limit es st" and "sc_outcome st = Resolved rs"
  shows "length rs = length ratchets \<and> (\<forall>i < length ratchets. \<exists>r. rs ! i = Some r \<and> Fulfilled i r \<in> set es) \<and>
    (\<forall>e \<in> set es. is_fulfilled e)"
proof -
  note inv = run_inv[OF assms(1)]
  have fin: "sc_completed st = length ratchets" "rs = results_array (sc_results st)" "\<not> sc_rejected st"
    using inv assms(2) by (auto simp: sched_inv_def outcome_ok_def)
  have f: "\<forall>e \<in> set es. is_fulfilled e"
    using inv fin(3) by (auto simp: sched_inv_def outcome_ok_def list_ex_iff)
  then have es: "filter is_fulfilled es = es" by simp
  have idle: "sc_inflight st = []" by (rule resolved_idle[OF inv fin(1)])
  have c: "mset (sc_started st) = mset (map event_index es)" "distinct (sc_started st)"
      "set (sc_started st) \<subseteq> {..<length ratchets}" "length es = length ratchets"
    using inv fin(1) es idle by (auto simp: sched_inv_def counters_ok_def)
  have "card (set (sc_started st)) = length ratchets"
    using distinct_card[OF c(2)] mset_eq_length[OF c(1)] c(4) by simp
  then have all: "set (sc_started st) = {..<length ratchets}"
    using card_subset_eq[OF _ c(3)] by simp
  then have keys: "fst ` set (sc_results st) = {..<length ratchets}"
    using inv es mset_eq_setD[OF c(1)] by (simp add: sched_inv_def results_ok_def)
  have len: "length rs = length ratchets"
  proof (cases "ratchets = []")
    case False
    then have "Max {..<length ratchets} = length ratchets - 1"
      by (intro Max_eqI) auto
    with False keys show ?thesis
      by (auto simp: fin(2) results_array_def)
  qed (use keys in \<open>simp add: fin(2) results_array_def\<close>)
  have "\<exists>r. rs ! i = Some r \<and> Fulfilled i r \<in> set es" if "i < length ratchets" for i
  proof -
    have "map_of (sc_results st) i \<noteq> None" using keys that by (auto simp: map_of_eq_None_iff)
    then obtain r where r: "map_of (sc_results st) i = Some r" by blast
    have "rs ! i = map_of (sc_results st) i"
      using len that by (simp add: fin(2) results_array_def)
    with r inv show ?thesis by (auto simp: sched_inv_def results_ok_def)
  qed
  with len f show ?thesis by blast
qed

text \<open>
  C14: when the promise resolves, it resolves with one result per ratchet, each the one that its own
  collection delivered, in registry order whatever the order of completion; and nothing failed.
\<close>

theorem scheduler_resolves_all:
  assumes "sched_run ratchets hashes limit es st" and "sc_outcome st = Resolved rs"
  shows "length rs = length ratchets \<and> (\<forall>i < length ratchets. \<exists>r. rs ! i = Some r \<and> Fulfilled i r \<in> set es) \<and>
    (\<forall>e \<in> set es. is_fulfilled e)"
  by (rule resolved_results[OF assms])

theorem scheduler_resolves_all_witness:
  "\<exists>rs. sc_outcome (after_events three_events) = Resolved rs \<and> length rs = 3 \<and>
     (\<forall>i < 3. \<exists>r. rs ! i = Some r \<and> Fulfilled i r \<in> set three_events)"
proof -
  have "sc_outcome (after_events three_events) =
      Resolved [Some (sample_result ''a''), Some (sample_result ''b''), Some (sample_result ''c'')]"
    by code_simp
  from this scheduler_resolves_all[OF sample_run_3 this] show ?thesis
    by (simp add: three_ratchets_def)
qed

end
