(* ===== verification/EntryBaseline.thy ===== *)
theory EntryBaseline
  imports GroupMerge GroupParse Metrics
begin

text \<open>
  The flat, entry-keyed baselines: \<open>kernel/single-group-spec.ts\<close>, \<open>kernel/entry-baseline.ts\<close>,
  \<open>kernel/gate.ts\<close> and \<open>kernel/merge.ts\<close>. A document is adapted to one group of the grouped
  kernel. An entry type is a record that extends \<open>entry\<close> with the payload of its family; the
  functions its family supplies are the fields of \<open>metric_spec\<close>. \<open>lc\<close> is \<open>localeCompare\<close>.
\<close>

definition SINGLE_GROUP_ID :: string where "SINGLE_GROUP_ID = ''baseline''"
definition SINGLE_GROUP_SCHEMA_VERSION :: int where "SINGLE_GROUP_SCHEMA_VERSION = 2"

record 'p entry =
  en_key :: string
  en_count :: "int option"
  en_payload :: 'p

definition entryCount :: "'p entry \<Rightarrow> int" where
  "entryCount e = (case en_count e of None \<Rightarrow> 1 | Some n \<Rightarrow> n)"

record single_meta =
  sm_tool :: string
  sm_metric :: string
  sm_meta :: "(string \<times> string) list"

record 'p metric_spec =
  ms_tool :: string
  ms_metric :: string
  ms_meta :: "(string \<times> string) list"
  ms_regenerate :: "string option"
  ms_remediation :: "remediation option"
  ms_parseEntry :: "jsval \<Rightarrow> 'p entry parsed"
  ms_formatEntry :: "'p entry \<Rightarrow> jsval"
  ms_summarize :: "'p entry list \<Rightarrow> jsval"

datatype one_sided_strategy = Intersection | BaseAware

record 'p merge_policy_options =
  po_oneSidedEntryStrategy :: "one_sided_strategy option"
  po_preserveOneSidedAddition :: "('p entry \<Rightarrow> bool) option"

section \<open>The single-group spec\<close>

definition fixedMeta :: "'p metric_spec \<Rightarrow> single_meta" where
  "fixedMeta spec = \<lparr>sm_tool = ms_tool spec, sm_metric = ms_metric spec, sm_meta = ms_meta spec\<rparr>"

fun meta_mismatch :: "(string \<times> string) list \<Rightarrow> (string \<times> jsval) list \<Rightarrow> string option" where
  "meta_mismatch [] raw = None"
| "meta_mismatch ((key, expected) # rest) raw =
     (if map_of raw key \<noteq> Some (JStr expected) then Some (''baseline '' @ key @ '' must be '' @ quoted expected)
      else meta_mismatch rest raw)"

definition checkHeader :: "'p metric_spec \<Rightarrow> (string \<times> jsval) list \<Rightarrow> string option" where
  "checkHeader spec raw =
     (if map_of raw ''tool'' \<noteq> Some (JStr (ms_tool spec)) then Some (''baseline tool must be '' @ quoted (ms_tool spec))
      else if map_of raw ''metric'' \<noteq> Some (JStr (ms_metric spec))
      then Some (''baseline metric must be '' @ quoted (ms_metric spec))
      else meta_mismatch (ms_meta spec) raw)"

definition summaryWarning ::
    "'p metric_spec \<Rightarrow> (string \<times> jsval) list \<Rightarrow> (string \<times> 'p entry) list \<Rightarrow> string option" where
  "summaryWarning spec raw items =
     (let derivedSummary = stringify (ms_summarize spec (map snd items));
          committedSummary = stringify (case map_of raw ''summary'' of None \<Rightarrow> JNull | Some v \<Rightarrow> v)
      in if derivedSummary = committedSummary then None
         else Some (''baseline summary does not match the entries; entries govern enforcement (derived ''
                @ derivedSummary @ '', committed '' @ committedSummary @ '')''))"

definition parseGroupMeta ::
    "'p metric_spec \<Rightarrow> (string \<times> jsval) list \<Rightarrow> (string \<times> 'p entry) list \<Rightarrow> single_meta parsed" where
  "parseGroupMeta spec raw items =
     (case checkHeader spec raw of
        Some e \<Rightarrow> ParseErr [e]
      | None \<Rightarrow> ParseOk (fixedMeta spec) (case summaryWarning spec raw items of None \<Rightarrow> [] | Some w \<Rightarrow> [w]))"

definition nonCountPayloadDiffers :: "'p metric_spec \<Rightarrow> 'p entry \<Rightarrow> 'p entry \<Rightarrow> bool" where
  "nonCountPayloadDiffers spec cur oth \<longleftrightarrow>
     stringify (ms_formatEntry spec (cur\<lparr>en_count := Some 0\<rparr>)) \<noteq>
     stringify (ms_formatEntry spec (oth\<lparr>en_count := Some 0\<rparr>))"

definition mergeSharedEntry :: "'p metric_spec \<Rightarrow> string \<Rightarrow> 'p entry \<Rightarrow> 'p entry \<Rightarrow> 'p entry outcome" where
  "mergeSharedEntry spec key cur oth =
     (if entryCount cur \<noteq> entryCount oth
      then if nonCountPayloadDiffers spec cur oth
           then merge_fail (key @ '': conflicting counts also disagree on non-count fields; reconcile the baseline by hand'')
           else \<lparr>oc_item = Some (if entryCount cur < entryCount oth then cur else oth), oc_failure = None, oc_truthUp = True\<rparr>
      else if stringify (ms_formatEntry spec cur) \<noteq> stringify (ms_formatEntry spec oth)
      then merge_fail (key @ '': equal-count entries disagree; regenerate the baseline'')
      else keep cur)"

definition mergeOneSidedEntry ::
    "'p metric_spec \<Rightarrow> 'p merge_policy_options \<Rightarrow> 'p entry \<Rightarrow> 'p entry option \<Rightarrow> 'p entry outcome" where
  "mergeOneSidedEntry spec opts presentEntry baseEntry =
     (if po_oneSidedEntryStrategy opts \<noteq> Some BaseAware
      then if baseEntry = None \<and> (case po_preserveOneSidedAddition opts of None \<Rightarrow> False | Some f \<Rightarrow> f presentEntry)
           then keep presentEntry
           else drop_key True
      else case baseEntry of
             None \<Rightarrow> keep presentEntry
           | Some b \<Rightarrow> drop_key (stringify (ms_formatEntry spec b) \<noteq> stringify (ms_formatEntry spec presentEntry)))"

definition string_members :: "(string \<times> string) list \<Rightarrow> (string \<times> jsval) list" where
  "string_members kvs = map (\<lambda>(k, v). (k, JStr v)) kvs"

definition single_meta_json :: "single_meta \<Rightarrow> jsval" where
  "single_meta_json m = JObj [(''tool'', JStr (sm_tool m)), (''metric'', JStr (sm_metric m)),
     (''meta'', JObj (string_members (sm_meta m)))]"

definition singleGroupSpec ::
    "string cmp \<Rightarrow> 'p metric_spec \<Rightarrow> 'p merge_policy_options \<Rightarrow> (single_meta, 'p entry) group_spec" where
  "singleGroupSpec lc spec opts =
     \<lparr>gs_writeVersion = SINGLE_GROUP_SCHEMA_VERSION,
      gs_acceptedReadVersions = [SINGLE_GROUP_SCHEMA_VERSION],
      gs_rootKey = EntriesRoot,
      gs_regenerate = ms_regenerate spec,
      gs_preserveRegenerateOnFormat = False,
      gs_remediation = ms_remediation spec,
      gs_singleGroupId = Some SINGLE_GROUP_ID,
      gs_requireSortedKeysOnParse = True,
      gs_compareGroupKeys = lc,
      gs_compareItemKeys = lc,
      gs_parseGroupMeta = (\<lambda>_ raw items. parseGroupMeta spec raw items),
      gs_formatGroupMeta = (\<lambda>_ m items regenerate. map_from
        ([(''tool'', JStr (sm_tool m)), (''metric'', JStr (sm_metric m))] @ string_members (sm_meta m)
         @ opt_field ''regenerate'' JStr regenerate
         @ [(''summary'', ms_summarize spec (map snd items))])),
      gs_sameGroupMeta = (\<lambda>l r. stringify (single_meta_json l) = stringify (single_meta_json r)),
      gs_parseItem = (\<lambda>_ _ raw. case ms_parseEntry spec raw of
          ParseErr es \<Rightarrow> ParseErr es
        | ParseOk e _ \<Rightarrow> ParseOk (en_key e, e) []),
      gs_formatItem = (\<lambda>_ _ e _. ms_formatEntry spec e),
      gs_itemCount = entryCount,
      gs_mergeShared = (\<lambda>_ _. mergeSharedEntry spec),
      gs_mergeOneSided = (\<lambda>_ _ _. mergeOneSidedEntry spec opts)\<rparr>"

definition singleGroupBaseline ::
    "'p metric_spec \<Rightarrow> 'p entry list \<Rightarrow> int \<Rightarrow> (single_meta, 'p entry) grouped_baseline" where
  "singleGroupBaseline spec entries version =
     \<lparr>gb_version = version, gb_regenerate = None,
      gb_groups = [(SINGLE_GROUP_ID, \<lparr>grp_meta = fixedMeta spec,
        grp_items = map_from (map (\<lambda>e. (en_key e, e)) entries)\<rparr>)]\<rparr>"

definition singleGroupEntries :: "(single_meta, 'p entry) grouped_baseline \<Rightarrow> 'p entry list" where
  "singleGroupEntries b =
     (case map_of (gb_groups b) SINGLE_GROUP_ID of None \<Rightarrow> [] | Some g \<Rightarrow> map snd (grp_items g))"

definition no_options :: "'p merge_policy_options" where
  "no_options = \<lparr>po_oneSidedEntryStrategy = None, po_preserveOneSidedAddition = None\<rparr>"

definition formatBaseline :: "string cmp \<Rightarrow> 'p metric_spec \<Rightarrow> 'p entry list \<Rightarrow> format_error + string" where
  "formatBaseline lc spec entries =
     formatGroupedBaseline (singleGroupSpec lc spec no_options)
       (singleGroupBaseline spec entries SINGLE_GROUP_SCHEMA_VERSION)"

definition parseBaseline :: "json_parser \<Rightarrow> string cmp \<Rightarrow> 'p metric_spec \<Rightarrow> string \<Rightarrow> 'p entry list parsed" where
  "parseBaseline jp lc spec txt =
     (case parseGroupedBaseline jp (singleGroupSpec lc spec no_options) txt of
        ParseErr es \<Rightarrow> ParseErr es
      | ParseOk b ws \<Rightarrow> ParseOk (singleGroupEntries b) ws)"

section \<open>The symmetric gate\<close>

record gate_result =
  gr_status :: compare_status
  gr_added :: "string list"
  gr_removed :: "string list"
  gr_increased :: "string list"
  gr_decreased :: "string list"

definition countByKey :: "'p entry list \<Rightarrow> (string \<times> int) list" where
  "countByKey entries = map_from (map (\<lambda>e. (en_key e, entryCount e)) entries)"

definition gateEntries :: "string cmp \<Rightarrow> 'p entry list \<Rightarrow> 'p entry list \<Rightarrow> gate_result" where
  "gateEntries lc baseline current =
     (let baselineCounts = countByKey baseline;
          currentCounts = countByKey current;
          added = filter (\<lambda>(key, n). map_of baselineCounts key = None) currentCounts;
          increased = filter (\<lambda>(key, n). case map_of baselineCounts key of None \<Rightarrow> False | Some b \<Rightarrow> n > b) currentCounts;
          decreased = filter (\<lambda>(key, n). case map_of baselineCounts key of None \<Rightarrow> False | Some b \<Rightarrow> n < b) currentCounts;
          removed = filter (\<lambda>(key, n). map_of currentCounts key = None) baselineCounts;
          sorted = (\<lambda>kvs. js_sort lc (map fst kvs))
      in \<lparr>gr_status =
            (if sorted added \<noteq> [] \<or> sorted increased \<noteq> [] then StatusRegressed
             else if sorted removed \<noteq> [] \<or> sorted decreased \<noteq> [] then StatusImproved
             else StatusOk),
          gr_added = sorted added, gr_removed = sorted removed,
          gr_increased = sorted increased, gr_decreased = sorted decreased\<rparr>)"

section \<open>The flat merge\<close>

record 'p flat_merge_options = "'p merge_policy_options" +
  fm_baseText :: string
  fm_currentText :: string
  fm_otherText :: string
  fm_truthUpOnOneSidedFastPath :: "bool option"

record flat_merge_result =
  fr_mergedText :: "string option"
  fr_failures :: "string list"
  fr_postMergeTruthUpRequired :: bool

definition parseSide ::
    "json_parser \<Rightarrow> string cmp \<Rightarrow> 'p metric_spec \<Rightarrow> 'p merge_policy_options \<Rightarrow> string \<Rightarrow> string \<Rightarrow>
     (single_meta, 'p entry) grouped_baseline option \<times> string list" where
  "parseSide jp lc spec opts label txt =
     (if js_trim txt = [] then (Some (singleGroupBaseline spec [] SINGLE_GROUP_SCHEMA_VERSION), [])
      else case parseGroupedBaseline jp (singleGroupSpec lc spec opts) txt of
             ParseOk b _ \<Rightarrow> (Some b, [])
           | ParseErr es \<Rightarrow> (None, [label @ '' '' @ hd es]))"

definition flat_ok :: "string \<Rightarrow> bool \<Rightarrow> flat_merge_result" where
  "flat_ok txt truthUp = \<lparr>fr_mergedText = Some txt, fr_failures = [], fr_postMergeTruthUpRequired = truthUp\<rparr>"

definition mergeParsedFlat ::
    "string cmp \<Rightarrow> 'p metric_spec \<Rightarrow> 'p merge_policy_options \<Rightarrow> bool \<Rightarrow>
     (single_meta, 'p entry) grouped_baseline \<Rightarrow> (single_meta, 'p entry) grouped_baseline \<Rightarrow>
     (single_meta, 'p entry) grouped_baseline \<Rightarrow> format_error + flat_merge_result" where
  "mergeParsedFlat lc spec opts fastTruthUp base cur oth =
     (let gs = singleGroupSpec lc spec opts
      in case (formatGroupedBaseline gs base, formatGroupedBaseline gs cur, formatGroupedBaseline gs oth) of
           (Inr baseText, Inr currentText, Inr otherText) \<Rightarrow>
             if currentText = otherText then Inr (flat_ok currentText False)
             else if currentText = baseText then Inr (flat_ok otherText fastTruthUp)
             else if otherText = baseText then Inr (flat_ok currentText fastTruthUp)
             else (let merged = mergeGroupedBaseline gs \<lparr>md_base = base, md_current = cur, md_other = oth\<rparr>
                   in case mx_baseline merged of
                        None \<Rightarrow> Inr \<lparr>fr_mergedText = None, fr_failures = mx_failures merged,
                                   fr_postMergeTruthUpRequired = False\<rparr>
                      | Some b \<Rightarrow>
                          if mx_failures merged \<noteq> []
                          then Inr \<lparr>fr_mergedText = None, fr_failures = mx_failures merged,
                                   fr_postMergeTruthUpRequired = False\<rparr>
                          else (case formatGroupedBaseline gs b of
                                  Inl e \<Rightarrow> Inl e
                                | Inr txt \<Rightarrow> Inr (flat_ok txt (mx_postMergeTruthUpRequired merged))))
         | (Inl e, _, _) \<Rightarrow> Inl e
         | (_, Inl e, _) \<Rightarrow> Inl e
         | (_, _, Inl e) \<Rightarrow> Inl e)"

definition mergeBaseline ::
    "json_parser \<Rightarrow> string cmp \<Rightarrow> 'p metric_spec \<Rightarrow> 'p flat_merge_options \<Rightarrow> format_error + flat_merge_result" where
  "mergeBaseline jp lc spec opts =
     (let po = merge_policy_options.truncate opts;
          (base, f1) = parseSide jp lc spec po ''base'' (fm_baseText opts);
          (cur, f2) = parseSide jp lc spec po ''current'' (fm_currentText opts);
          (oth, f3) = parseSide jp lc spec po ''other'' (fm_otherText opts)
      in case (base, cur, oth) of
           (Some b, Some c, Some t) \<Rightarrow>
             mergeParsedFlat lc spec po (case fm_truthUpOnOneSidedFastPath opts of None \<Rightarrow> False | Some x \<Rightarrow> x) b c t
         | _ \<Rightarrow> Inr \<lparr>fr_mergedText = None, fr_failures = f1 @ f2 @ f3, fr_postMergeTruthUpRequired = False\<rparr>)"

end
