(* ===== verification/DebtLogSchema.thy ===== *)
theory DebtLogSchema
  imports BaselineUpdate "HOL-Library.Monad_Syntax"
begin

text \<open>
  \<open>governance/debt-log-schema.ts\<close>: one line of the committed debt log, as a value and as the JSON
  that the schemas accept.

  The zod schemas are parsers into \<open>option\<close>: \<open>Some\<close> exactly on the values that satisfy the declared
  schema. What zod says about a rejected value is third-party text; \<open>issues\<close> stands for it. The
  issues that the file itself adds (\<open>superRefine\<close>) are computed here.
\<close>

section \<open>Entries\<close>

record shrink_entry =
  se_ratchetId :: string
  se_previousFiles :: "string list"
  se_currentFiles :: "string list"
  se_previousIgnores :: "string list"
  se_currentIgnores :: "string list"
  se_removedPaths :: "string list"
  se_reason :: string

datatype debt_entry =
    AcceptedDebt (de_acceptanceReason: string) (de_regressions: "regression list") (de_orphansRemoved: "orphan_removal list")
  | Retirement (de_retired: string) (de_attestation: "attestation option")
  | MetricMigration (de_migrated: string) (de_fromMetric: metric) (de_toMetric: metric) (de_migrationReason: string)
  | CoverageShrink (de_shrink: shrink_entry)

section \<open>Fields\<close>

text \<open>\<open>.strict()\<close>: no key outside the shape.\<close>

definition strict_object :: "string list \<Rightarrow> jsval \<Rightarrow> (string \<times> jsval) list option" where
  "strict_object keys v = do {
     ms \<leftarrow> as_object v;
     if list_all (\<lambda>(k, _). k \<in> set keys) ms then Some ms else None }"

fun zod_string :: "(string \<Rightarrow> bool) \<Rightarrow> jsval \<Rightarrow> string option" where
  "zod_string p (JStr s) = (if p s then Some s else None)"
| "zod_string p _ = None"

fun zod_array :: "(jsval \<Rightarrow> 'a option) \<Rightarrow> jsval \<Rightarrow> 'a list option" where
  "zod_array p (JArr vs) = those (map p vs)"
| "zod_array p _ = None"

definition zod_optional :: "(jsval \<Rightarrow> 'a option) \<Rightarrow> jsval option \<Rightarrow> 'a option option" where
  "zod_optional p v = (case v of None \<Rightarrow> Some None | Some x \<Rightarrow> map_option Some (p x))"

definition zod_required :: "(jsval \<Rightarrow> 'a option) \<Rightarrow> jsval option \<Rightarrow> 'a option" where
  "zod_required p v = Option.bind v p"

definition zod_literal :: "string \<Rightarrow> jsval option \<Rightarrow> unit option" where
  "zod_literal s v = (if v = Some (JStr s) then Some () else None)"

definition min1 :: "string \<Rightarrow> bool" where
  "min1 s \<longleftrightarrow> s \<noteq> []"

definition non_blank :: "string \<Rightarrow> bool" where
  "non_blank s \<longleftrightarrow> js_trim s \<noteq> []"

definition normalized_path :: "string \<Rightarrow> bool" where
  "normalized_path s \<longleftrightarrow> min1 s \<and> isNormalizedLintRatchetPath s"

definition acceptance_reason :: "string \<Rightarrow> bool" where
  "acceptance_reason s \<longleftrightarrow> non_blank s \<and> \<not> isRatchetRegressionReasonPlaceholder s"

definition shrink_reason :: "string \<Rightarrow> bool" where
  "shrink_reason s \<longleftrightarrow> min1 s \<and> \<not> isRatchetRegressionReasonPlaceholder s"

fun nonNegativeInt :: "jsval \<Rightarrow> int option" where
  "nonNegativeInt (JInt i) = (if safe_int i \<and> 0 \<le> i then Some i else None)"
| "nonNegativeInt _ = None"

definition jsonValue :: "jsval \<Rightarrow> jsval option" where
  "jsonValue v = (if isJsonValue v then Some v else None)"

fun reason_name :: "regression_reason \<Rightarrow> string" where
  "reason_name NewPath = ''new-path''"
| "reason_name IncreasedCount = ''increased-count''"
| "reason_name IncreasedLines = ''increased-lines''"
| "reason_name IncreasedComplexity = ''increased-complexity''"

definition reason_of :: "jsval \<Rightarrow> regression_reason option" where
  "reason_of v = List.find (\<lambda>r. v = JStr (reason_name r)) [NewPath, IncreasedCount, IncreasedLines, IncreasedComplexity]"

definition metricEnum :: "jsval \<Rightarrow> metric option" where
  "metricEnum v = List.find (\<lambda>m. v = JStr (metric_name m)) [MessageCount, EffectiveLineCount, ComplexitySeverity]"

section \<open>The shape of a regression\<close>

datatype severity_field = BaselineLines | CurrentLines | BaselineComplexity | CurrentComplexity

fun severity_field_name :: "severity_field \<Rightarrow> string" where
  "severity_field_name BaselineLines = ''baselineLines''"
| "severity_field_name CurrentLines = ''currentLines''"
| "severity_field_name BaselineComplexity = ''baselineComplexity''"
| "severity_field_name CurrentComplexity = ''currentComplexity''"

fun severity_value :: "severity_field \<Rightarrow> 'r delta \<Rightarrow> int option" where
  "severity_value BaselineLines d = dl_baselineLines d"
| "severity_value CurrentLines d = dl_currentLines d"
| "severity_value BaselineComplexity d = dl_baselineComplexity d"
| "severity_value CurrentComplexity d = dl_currentComplexity d"

definition SEVERITY_DELTA_FIELDS :: "severity_field list" where
  "SEVERITY_DELTA_FIELDS = [BaselineLines, CurrentLines, BaselineComplexity, CurrentComplexity]"

record shape_rule =
  sr_required :: "severity_field list"
  sr_allowed :: "severity_field list"
  sr_atMostOne :: "severity_field list option"

fun REGRESSION_SHAPE_RULES :: "regression_reason \<Rightarrow> shape_rule" where
  "REGRESSION_SHAPE_RULES IncreasedLines =
     \<lparr>sr_required = [BaselineLines, CurrentLines], sr_allowed = [], sr_atMostOne = None\<rparr>"
| "REGRESSION_SHAPE_RULES IncreasedComplexity =
     \<lparr>sr_required = [BaselineComplexity, CurrentComplexity], sr_allowed = [], sr_atMostOne = None\<rparr>"
| "REGRESSION_SHAPE_RULES IncreasedCount = \<lparr>sr_required = [], sr_allowed = [], sr_atMostOne = None\<rparr>"
| "REGRESSION_SHAPE_RULES NewPath =
     \<lparr>sr_required = [], sr_allowed = [CurrentLines, CurrentComplexity],
      sr_atMostOne = Some [CurrentLines, CurrentComplexity]\<rparr>"

text \<open>The issues added, as path and message.\<close>

definition validateRegressionShape :: "regression \<Rightarrow> (string list \<times> string) list" where
  "validateRegressionShape d =
     (let rule = REGRESSION_SHAPE_RULES (dl_reason d);
          for_reason = '' for reason \"'' @ reason_name (dl_reason d) @ ''\"''
      in map (\<lambda>f. ([severity_field_name f], severity_field_name f @ '' is required'' @ for_reason))
           (filter (\<lambda>f. severity_value f d = None) (sr_required rule))
         @ map (\<lambda>f. ([severity_field_name f], severity_field_name f @ '' is not allowed'' @ for_reason))
             (filter (\<lambda>f. f \<notin> set (sr_required rule @ sr_allowed rule) \<and> severity_value f d \<noteq> None) SEVERITY_DELTA_FIELDS)
         @ (case sr_atMostOne rule of
              None \<Rightarrow> []
            | Some fs \<Rightarrow>
                if length (filter (\<lambda>f. severity_value f d \<noteq> None) fs) > 1
                then [([], ''reason \"'' @ reason_name (dl_reason d) @ ''\" must not carry both ''
                        @ js_join '' and '' (map severity_field_name fs))]
                else []))"

definition debtLogRegressionSchema :: "jsval \<Rightarrow> regression option" where
  "debtLogRegressionSchema v = do {
     ms \<leftarrow> strict_object [''testId'', ''ruleId'', ''path'', ''baselineCount'', ''currentCount'', ''baselineLines'',
             ''currentLines'', ''baselineComplexity'', ''currentComplexity'', ''line'', ''reason''] v;
     testId \<leftarrow> zod_required (zod_string min1) (map_of ms ''testId'');
     ruleId \<leftarrow> zod_required (zod_string min1) (map_of ms ''ruleId'');
     path \<leftarrow> zod_required (zod_string normalized_path) (map_of ms ''path'');
     baselineCount \<leftarrow> zod_required nonNegativeInt (map_of ms ''baselineCount'');
     currentCount \<leftarrow> zod_required nonNegativeInt (map_of ms ''currentCount'');
     baselineLines \<leftarrow> zod_optional nonNegativeInt (map_of ms ''baselineLines'');
     currentLines \<leftarrow> zod_optional nonNegativeInt (map_of ms ''currentLines'');
     baselineComplexity \<leftarrow> zod_optional nonNegativeInt (map_of ms ''baselineComplexity'');
     currentComplexity \<leftarrow> zod_optional nonNegativeInt (map_of ms ''currentComplexity'');
     line \<leftarrow> zod_optional nonNegativeInt (map_of ms ''line'');
     reason \<leftarrow> zod_required reason_of (map_of ms ''reason'');
     let d = \<lparr>dl_testId = testId, dl_ruleId = ruleId, dl_path = path, dl_baselineCount = baselineCount,
              dl_currentCount = currentCount, dl_baselineLines = baselineLines, dl_currentLines = currentLines,
              dl_baselineComplexity = baselineComplexity, dl_currentComplexity = currentComplexity,
              dl_line = line, dl_firstMessage = None, dl_firstMessageId = None, dl_reason = reason\<rparr>
     in if validateRegressionShape d = [] then Some d else None }"

section \<open>Orphan snapshots\<close>

definition complexityFunctionSchema :: "jsval \<Rightarrow> complexity_function option" where
  "complexityFunctionSchema v = do {
     ms \<leftarrow> strict_object [''line'', ''label'', ''complexity''] v;
     line \<leftarrow> zod_required nonNegativeInt (map_of ms ''line'');
     label \<leftarrow> zod_required (zod_string min1) (map_of ms ''label'');
     complexity \<leftarrow> zod_required nonNegativeInt (map_of ms ''complexity'');
     Some \<lparr>cf_line = line, cf_label = label, cf_complexity = complexity\<rparr> }"

definition orphanBaselineItemSchema :: "jsval \<Rightarrow> (string \<times> metric_item) option" where
  "orphanBaselineItemSchema v = do {
     ms \<leftarrow> strict_object [''path'', ''count'', ''lines'', ''maxComplexity'', ''perFunction'', ''messagesFingerprint''] v;
     path \<leftarrow> zod_required (zod_string normalized_path) (map_of ms ''path'');
     n \<leftarrow> zod_required nonNegativeInt (map_of ms ''count'');
     lines \<leftarrow> zod_optional nonNegativeInt (map_of ms ''lines'');
     maxComplexity \<leftarrow> zod_optional nonNegativeInt (map_of ms ''maxComplexity'');
     perFunction \<leftarrow> zod_optional (zod_array complexityFunctionSchema) (map_of ms ''perFunction'');
     fingerprint \<leftarrow> zod_optional (zod_string is_sha256) (map_of ms ''messagesFingerprint'');
     Some (path, \<lparr>mi_count = n, mi_lines = lines, mi_maxComplexity = maxComplexity,
                  mi_perFunction = perFunction, mi_messagesFingerprint = fingerprint\<rparr>) }"

fun index_failures :: "nat \<Rightarrow> metric \<Rightarrow> (string \<times> metric_item) list \<Rightarrow> (nat \<times> item_failure) list" where
  "index_failures n m [] = []"
| "index_failures n m ((_, i) # is) =
     map (Pair n) (validateItem (''baselineItems['' @ show_nat n @ '']'') m i) @ index_failures (Suc n) m is"

definition debtLogOrphanRemovalSchema :: "jsval \<Rightarrow> orphan_removal option" where
  "debtLogOrphanRemovalSchema v = do {
     ms \<leftarrow> strict_object [''testId'', ''ruleId'', ''metric'', ''baselineItems''] v;
     testId \<leftarrow> zod_required (zod_string min1) (map_of ms ''testId'');
     ruleId \<leftarrow> zod_required (zod_string min1) (map_of ms ''ruleId'');
     metric \<leftarrow> zod_required metricEnum (map_of ms ''metric'');
     items \<leftarrow> zod_required (zod_array orphanBaselineItemSchema) (map_of ms ''baselineItems'');
     if index_failures 0 metric items = []
     then Some \<lparr>or_testId = testId, or_ruleId = ruleId, or_metric = metric, or_baselineItems = items\<rparr>
     else None }"

section \<open>The four kinds of entry\<close>

definition nonEmptyStringArray :: "jsval \<Rightarrow> string list option" where
  "nonEmptyStringArray v = zod_array (zod_string min1) v"

definition coverageShrinkLogEntrySchema :: "jsval \<Rightarrow> debt_entry option" where
  "coverageShrinkLogEntrySchema v = do {
     ms \<leftarrow> strict_object [''version'', ''kind'', ''ratchetId'', ''previousFiles'', ''currentFiles'',
             ''previousIgnores'', ''currentIgnores'', ''removedPaths'', ''reason''] v;
     _ \<leftarrow> zod_literal ''1'' (map_of ms ''version'');
     _ \<leftarrow> zod_literal ''coverage-shrink'' (map_of ms ''kind'');
     ratchetId \<leftarrow> zod_required (zod_string min1) (map_of ms ''ratchetId'');
     previousFiles \<leftarrow> zod_required nonEmptyStringArray (map_of ms ''previousFiles'');
     currentFiles \<leftarrow> zod_required nonEmptyStringArray (map_of ms ''currentFiles'');
     previousIgnores \<leftarrow> zod_required nonEmptyStringArray (map_of ms ''previousIgnores'');
     currentIgnores \<leftarrow> zod_required nonEmptyStringArray (map_of ms ''currentIgnores'');
     removedPaths \<leftarrow> zod_required nonEmptyStringArray (map_of ms ''removedPaths'');
     reason \<leftarrow> zod_required (zod_string shrink_reason) (map_of ms ''reason'');
     if removedPaths = [] then None
     else Some (CoverageShrink \<lparr>se_ratchetId = ratchetId, se_previousFiles = previousFiles,
       se_currentFiles = currentFiles, se_previousIgnores = previousIgnores, se_currentIgnores = currentIgnores,
       se_removedPaths = removedPaths, se_reason = reason\<rparr>) }"

definition optionsAttestationSchema :: "jsval \<Rightarrow> attestation option" where
  "optionsAttestationSchema v = do {
     ms \<leftarrow> strict_object [''reason'', ''ratchetOptions'', ''normalLintOptions''] v;
     reason \<leftarrow> zod_required (zod_string non_blank) (map_of ms ''reason'');
     ratchetOptions \<leftarrow> zod_required (zod_array jsonValue) (map_of ms ''ratchetOptions'');
     normalLintOptions \<leftarrow> zod_required (zod_array (zod_array jsonValue)) (map_of ms ''normalLintOptions'');
     Some \<lparr>at_reason = reason, at_ratchetOptions = ratchetOptions, at_normalLintOptions = normalLintOptions\<rparr> }"

text \<open>\<open>legacyAcceptedEntrySchema\<close> without a kind, \<open>acceptedEntrySchema\<close> with one.\<close>

definition accepted_entry :: "string list \<Rightarrow> jsval \<Rightarrow> debt_entry option" where
  "accepted_entry kind_key v = do {
     ms \<leftarrow> strict_object ([''version'', ''acceptanceReason'', ''regressions'', ''orphansRemoved''] @ kind_key) v;
     _ \<leftarrow> zod_literal ''1'' (map_of ms ''version'');
     reason \<leftarrow> zod_required (zod_string acceptance_reason) (map_of ms ''acceptanceReason'');
     regressions \<leftarrow> zod_required (zod_array debtLogRegressionSchema) (map_of ms ''regressions'');
     orphans \<leftarrow> zod_required (zod_array debtLogOrphanRemovalSchema) (map_of ms ''orphansRemoved'');
     if regressions = [] \<and> orphans = [] then None else Some (AcceptedDebt reason regressions orphans) }"

definition legacyAcceptedEntrySchema :: "jsval \<Rightarrow> debt_entry option" where
  "legacyAcceptedEntrySchema v = accepted_entry [] v"

definition acceptedEntrySchema :: "jsval \<Rightarrow> debt_entry option" where
  "acceptedEntrySchema v = do {
     ms \<leftarrow> as_object v;
     _ \<leftarrow> zod_literal ''accepted-debt'' (map_of ms ''kind'');
     accepted_entry [''kind''] v }"

definition retirementEntrySchema :: "jsval \<Rightarrow> debt_entry option" where
  "retirementEntrySchema v = do {
     ms \<leftarrow> strict_object [''version'', ''kind'', ''ratchetId'', ''promotionProof'', ''optionsAttestation''] v;
     _ \<leftarrow> zod_literal ''1'' (map_of ms ''version'');
     _ \<leftarrow> zod_literal ''retirement'' (map_of ms ''kind'');
     ratchetId \<leftarrow> zod_required (zod_string non_blank) (map_of ms ''ratchetId'');
     _ \<leftarrow> zod_literal ''normal-lint-error'' (map_of ms ''promotionProof'');
     attestation \<leftarrow> zod_optional optionsAttestationSchema (map_of ms ''optionsAttestation'');
     Some (Retirement ratchetId attestation) }"

definition metricMigrationEntrySchema :: "jsval \<Rightarrow> debt_entry option" where
  "metricMigrationEntrySchema v = do {
     ms \<leftarrow> strict_object [''version'', ''kind'', ''ratchetId'', ''fromMetric'', ''toMetric'', ''reason''] v;
     _ \<leftarrow> zod_literal ''1'' (map_of ms ''version'');
     _ \<leftarrow> zod_literal ''metric-migration'' (map_of ms ''kind'');
     ratchetId \<leftarrow> zod_required (zod_string non_blank) (map_of ms ''ratchetId'');
     fromMetric \<leftarrow> zod_required metricEnum (map_of ms ''fromMetric'');
     toMetric \<leftarrow> zod_required metricEnum (map_of ms ''toMetric'');
     reason \<leftarrow> zod_required (zod_string non_blank) (map_of ms ''reason'');
     if fromMetric = toMetric then None else Some (MetricMigration ratchetId fromMetric toMetric reason) }"

section \<open>Parsing a line's value\<close>

record parsed_entry =
  pe_entry :: "debt_entry option"
  pe_failures :: "string list"

definition toParsed :: "(jsval \<Rightarrow> string list) \<Rightarrow> jsval \<Rightarrow> debt_entry option \<Rightarrow> parsed_entry" where
  "toParsed issues v r =
     (case r of
        Some e \<Rightarrow> \<lparr>pe_entry = Some e, pe_failures = []\<rparr>
      | None \<Rightarrow> \<lparr>pe_entry = None, pe_failures = issues v\<rparr>)"

text \<open>\<open>String(v)\<close> of a JSON value.\<close>

fun js_String :: "jsval \<Rightarrow> string" where
  "js_String JNull = ''null''"
| "js_String (JBool b) = (if b then ''true'' else ''false'')"
| "js_String (JInt i) = show_int i"
| "js_String (JDec d) = d"
| "js_String JInf = ''Infinity''"
| "js_String (JStr s) = s"
| "js_String (JArr vs) = js_join '','' (map (\<lambda>v. if v = JNull then [] else js_String v) vs)"
| "js_String (JObj _) = ''[object Object]''"

definition parseLintRatchetDebtLogEntry ::
    "(jsval \<Rightarrow> string list) \<Rightarrow> jsval \<Rightarrow> parsed_entry" where
  "parseLintRatchetDebtLogEntry issues v =
     (case as_object v of
        None \<Rightarrow> \<lparr>pe_entry = None, pe_failures = [''debt-log entry must be an object'']\<rparr>
      | Some ms \<Rightarrow>
          (case map_of ms ''kind'' of
             None \<Rightarrow> toParsed issues v (legacyAcceptedEntrySchema v)
           | Some k \<Rightarrow>
               if k = JStr ''accepted-debt'' then toParsed issues v (acceptedEntrySchema v)
               else if k = JStr ''retirement'' then toParsed issues v (retirementEntrySchema v)
               else if k = JStr ''metric-migration'' then toParsed issues v (metricMigrationEntrySchema v)
               else if k = JStr ''coverage-shrink'' then toParsed issues v (coverageShrinkLogEntrySchema v)
               else \<lparr>pe_entry = None, pe_failures = [''unknown debt-log entry kind: '' @ js_String k]\<rparr>))"

end
