(* ===== verification/JsonParse.thy ===== *)
theory JsonParse
  imports Json
begin

text \<open>
  \<open>JSON.parse\<close> of the ECMAScript standard, as the baseline and debt log readers use it, and its
  inverse relation with \<open>JSON.stringify\<close>.

  Texts are UTF-8 bytes. A number token that is an integer in the safe range is \<open>JInt\<close>; every other
  token goes through \<open>dc\<close>, the conversion to a double and back to its shortest decimal text, which
  the round trip only uses on texts that are that shortest text already. A repeated key keeps its
  first position and its last value. The recursion is bounded by fuel; twice the length of the
  text is enough (\<open>parse_fuel\<close>).
\<close>

section \<open>Tokens\<close>

definition is_json_space :: "char \<Rightarrow> bool" where
  "is_json_space c \<longleftrightarrow> c \<in> {CHR 0x20, CHR 0x09, CHR 0x0A, CHR 0x0D}"

definition skip_ws :: "string \<Rightarrow> string" where
  "skip_ws s = dropWhile is_json_space s"

definition hex_value :: "char \<Rightarrow> nat option" where
  "hex_value c = (let n = of_char c :: nat in
     if 48 \<le> n \<and> n \<le> 57 then Some (n - 48)
     else if 97 \<le> n \<and> n \<le> 102 then Some (n - 87)
     else if 65 \<le> n \<and> n \<le> 70 then Some (n - 55)
     else None)"

definition hex4 :: "string \<Rightarrow> nat option" where
  "hex4 s = (case map hex_value (take 4 s) of
     [Some a, Some b, Some c, Some d] \<Rightarrow> Some (((a * 16 + b) * 16 + c) * 16 + d)
   | _ \<Rightarrow> None)"

definition utf8 :: "nat \<Rightarrow> string" where
  "utf8 n = (if n < 128 then [char_of n]
     else if n < 2048 then [char_of (192 + n div 64), char_of (128 + n mod 64)]
     else if n < 65536 then [char_of (224 + n div 4096), char_of (128 + n div 64 mod 64), char_of (128 + n mod 64)]
     else [char_of (240 + n div 262144), char_of (128 + n div 4096 mod 64), char_of (128 + n div 64 mod 64),
           char_of (128 + n mod 64)])"

definition unescape :: "char \<Rightarrow> char option" where
  "unescape e = map_of
     [(CHR ''b'', CHR 0x08), (CHR ''t'', CHR 0x09), (CHR ''n'', CHR 0x0A), (CHR ''f'', CHR 0x0C),
      (CHR ''r'', CHR 0x0D), (CHR 0x22, CHR 0x22), (CHR 0x5C, CHR 0x5C), (CHR ''/'', CHR ''/'')] e"

definition onto :: "string \<Rightarrow> (string \<times> string) option \<Rightarrow> (string \<times> string) option" where
  "onto p r = map_option (\<lambda>(s, rest). (p @ s, rest)) r"

text \<open>After the opening quote, up to the closing one.\<close>

function read_string :: "string \<Rightarrow> (string \<times> string) option" where
  "read_string [] = None"
| "read_string (c # cs) =
     (if c = CHR 0x22 then Some ([], cs)
      else if c = CHR 0x5C then
        (case cs of
           [] \<Rightarrow> None
         | e # r \<Rightarrow>
             if e = CHR ''u'' then
               (case hex4 r of
                  None \<Rightarrow> None
                | Some u \<Rightarrow>
                    (case (if 55296 \<le> u \<and> u < 56320 \<and> take 2 (drop 4 r) = [CHR 0x5C, CHR ''u'']
                           then hex4 (drop 6 r) else None) of
                       Some l \<Rightarrow>
                         if 56320 \<le> l \<and> l < 57344
                         then onto (utf8 (65536 + (u - 55296) * 1024 + (l - 56320))) (read_string (drop 10 r))
                         else onto (utf8 u) (read_string (drop 4 r))
                     | None \<Rightarrow> onto (utf8 u) (read_string (drop 4 r))))
             else (case unescape e of None \<Rightarrow> None | Some x \<Rightarrow> onto [x] (read_string r)))
      else if (of_char c :: nat) < 32 then None
      else onto [c] (read_string cs))"
  by pat_completeness auto
termination by (relation "measure length") auto

text \<open>\<open>-?(0|[1-9][0-9]*)([.][0-9]+)?([eE][+-]?[0-9]+)?\<close>\<close>

definition json_exponent :: "string \<Rightarrow> bool" where
  "json_exponent s = (case s of
     [] \<Rightarrow> True
   | e # r \<Rightarrow> e \<in> {CHR ''e'', CHR ''E''} \<and>
       (let ds = (case r of [] \<Rightarrow> [] | g # ds \<Rightarrow> if g \<in> {CHR ''+'', CHR ''-''} then ds else r)
        in ds \<noteq> [] \<and> list_all is_digit ds))"

definition json_fraction :: "string \<Rightarrow> bool" where
  "json_fraction s = (case s of
     [] \<Rightarrow> True
   | p # r \<Rightarrow> if p = CHR ''.'' then takeWhile is_digit r \<noteq> [] \<and> json_exponent (dropWhile is_digit r)
       else json_exponent s)"

definition unsigned_part :: "string \<Rightarrow> string" where
  "unsigned_part s = (case s of [] \<Rightarrow> [] | m # r \<Rightarrow> if m = CHR ''-'' then r else s)"

definition json_number :: "string \<Rightarrow> bool" where
  "json_number s = (let r = unsigned_part s; ds = takeWhile is_digit r
     in ds \<noteq> [] \<and> (hd ds = CHR ''0'' \<longrightarrow> length ds = 1) \<and> json_fraction (dropWhile is_digit r))"

definition read_int :: "string \<Rightarrow> int" where
  "read_int s = (if s \<noteq> [] \<and> hd s = CHR ''-'' then - int (read_nat (tl s)) else int (read_nat s))"

definition number_value :: "(string \<Rightarrow> jsval) \<Rightarrow> string \<Rightarrow> jsval" where
  "number_value dc tok =
     (if list_all is_digit (unsigned_part tok) \<and> \<bar>read_int tok\<bar> \<le> 9007199254740991 then JInt (read_int tok)
      else dc tok)"

section \<open>Values\<close>

definition read_literal :: "string \<Rightarrow> (jsval \<times> string) option" where
  "read_literal s =
     (if take 4 s = ''null'' then Some (JNull, drop 4 s)
      else if take 4 s = ''true'' then Some (JBool True, drop 4 s)
      else if take 5 s = ''false'' then Some (JBool False, drop 5 s)
      else None)"

definition read_number :: "(string \<Rightarrow> jsval) \<Rightarrow> string \<Rightarrow> (jsval \<times> string) option" where
  "read_number dc s =
     (let tok = takeWhile is_num_char s
      in if json_number tok then Some (number_value dc tok, dropWhile is_num_char s) else None)"

definition expect :: "char \<Rightarrow> string \<Rightarrow> string option" where
  "expect c s = (case skip_ws s of [] \<Rightarrow> None | d # r \<Rightarrow> if d = c then Some r else None)"

definition read_key :: "string \<Rightarrow> (string \<times> string) option" where
  "read_key s = Option.bind (expect (CHR 0x22) s) (\<lambda>r.
     Option.bind (read_string r) (\<lambda>(k, r1). map_option (Pair k) (expect (CHR '':'') r1)))"

fun parse_value :: "(string \<Rightarrow> jsval) \<Rightarrow> nat \<Rightarrow> string \<Rightarrow> (jsval \<times> string) option"
  and parse_elements :: "(string \<Rightarrow> jsval) \<Rightarrow> nat \<Rightarrow> string \<Rightarrow> (jsval list \<times> string) option"
  and parse_members :: "(string \<Rightarrow> jsval) \<Rightarrow> nat \<Rightarrow> string \<Rightarrow> ((string \<times> jsval) list \<times> string) option" where
  "parse_value dc 0 s = None"
| "parse_value dc (Suc n) s =
     (case skip_ws s of
        [] \<Rightarrow> None
      | c # cs \<Rightarrow>
          if c = CHR 0x22 then map_option (\<lambda>(t, r). (JStr t, r)) (read_string cs)
          else if c = CHR ''['' then
            (case expect (CHR '']'') cs of
               Some r \<Rightarrow> Some (JArr [], r)
             | None \<Rightarrow> map_option (\<lambda>(vs, r). (JArr vs, r)) (parse_elements dc n cs))
          else if c = CHR ''{'' then
            (case expect (CHR ''}'') cs of
               Some r \<Rightarrow> Some (JObj [], r)
             | None \<Rightarrow> map_option (\<lambda>(kvs, r). (JObj (map_from kvs), r)) (parse_members dc n cs))
          else if num_start c then read_number dc (c # cs)
          else read_literal (c # cs))"
| "parse_elements dc 0 s = None"
| "parse_elements dc (Suc n) s =
     (case parse_value dc n s of
        None \<Rightarrow> None
      | Some (v, r) \<Rightarrow>
          (case expect (CHR '','') r of
             Some r1 \<Rightarrow> map_option (\<lambda>(vs, q). (v # vs, q)) (parse_elements dc n r1)
           | None \<Rightarrow> map_option (Pair [v]) (expect (CHR '']'') r)))"
| "parse_members dc 0 s = None"
| "parse_members dc (Suc n) s =
     (case read_key s of
        None \<Rightarrow> None
      | Some (k, r0) \<Rightarrow>
          (case parse_value dc n r0 of
             None \<Rightarrow> None
           | Some (v, r) \<Rightarrow>
               (case expect (CHR '','') r of
                  Some r1 \<Rightarrow> map_option (\<lambda>(kvs, q). ((k, v) # kvs, q)) (parse_members dc n r1)
                | None \<Rightarrow> map_option (Pair [(k, v)]) (expect (CHR ''}'') r))))"

definition json_parse :: "(string \<Rightarrow> jsval) \<Rightarrow> string \<Rightarrow> jsval option" where
  "json_parse dc s =
     (case parse_value dc (2 * length s + 1) s of
        None \<Rightarrow> None
      | Some (v, r) \<Rightarrow> if skip_ws r = [] then Some v else None)"

text \<open>As the callers use it: \<open>msg\<close> is the text of the \<open>SyntaxError\<close>.\<close>

definition JSON_parse :: "(string \<Rightarrow> jsval) \<Rightarrow> (string \<Rightarrow> string) \<Rightarrow> string \<Rightarrow> string + jsval" where
  "JSON_parse dc msg s = (case json_parse dc s of Some v \<Rightarrow> Inr v | None \<Rightarrow> Inl (msg s))"

section \<open>Reading back what was printed\<close>

lemma skip_ws_simps [simp]:
  "skip_ws [] = []"
  "skip_ws (c # cs) = (if is_json_space c then skip_ws cs else c # cs)"
  by (simp_all add: skip_ws_def)

lemma skip_ws_append [simp]: "list_all is_json_space w \<Longrightarrow> skip_ws (w @ s) = skip_ws s"
  by (simp add: skip_ws_def list_all_iff dropWhile_append2)

lemma expect_append [simp]: "list_all is_json_space w \<Longrightarrow> expect c (w @ s) = expect c s"
  by (simp add: expect_def)

lemma expect_Cons [simp]: "\<not> is_json_space d \<Longrightarrow> expect c (d # s) = (if d = c then Some s else None)"
  by (simp add: expect_def)

lemma parse_value_append [simp]: "list_all is_json_space w \<Longrightarrow> parse_value dc n (w @ s) = parse_value dc n s"
  by (cases n) simp_all

lemma read_key_append [simp]: "list_all is_json_space w \<Longrightarrow> read_key (w @ s) = read_key s"
  by (simp add: read_key_def)

lemma hex_value_digit: "n < 16 \<Longrightarrow> hex_value (hex_digit n) = Some n"
  by (cases "n < 10") (simp_all add: hex_value_def hex_digit_def of_char_of)

lemma unescape_short: "short_escape c = Some e \<Longrightarrow> unescape e = Some c \<and> e \<noteq> CHR ''u''"
  by (auto simp: short_escape_def unescape_def split: if_splits)

lemma onto_Some [simp]: "onto p (Some (s, r)) = Some (p @ s, r)"
  by (simp add: onto_def)

lemma read_escaped:
  assumes "read_string (t @ r) = Some (s, q)"
  shows "read_string (esc_char c @ t @ r) = Some (c # s, q)"
proof (cases "short_escape c")
  case (Some e)
  with unescape_short[OF this] assms show ?thesis by (simp add: esc_char_def)
next
  case None
  show ?thesis
  proof (cases "(of_char c :: nat) < 32")
    case True
    let ?n = "of_char c :: nat"
    have "hex4 (CHR ''0'' # CHR ''0'' # hex_digit (?n div 16) # hex_digit (?n mod 16) # t @ r) = Some ?n"
      using True hex_value_digit[of "?n div 16"] hex_value_digit[of "?n mod 16"]
      by (simp add: hex4_def) (simp add: hex_value_def of_char_of)
    moreover have "utf8 ?n = [c]" using True by (simp add: utf8_def)
    ultimately show ?thesis
      using True None assms by (simp add: esc_char_def Let_def)
  next
    case False
    have "c \<noteq> CHR 0x22" "c \<noteq> CHR 0x5C"
      using None by (auto simp: short_escape_def)
    with False None assms show ?thesis by (simp add: esc_char_def Let_def)
  qed
qed

lemma read_quoted: "read_string (quote_body s @ CHR 0x22 # r) = Some (s, r)"
proof (induction s)
  case Nil
  then show ?case by (simp add: quote_body_def)
next
  case (Cons c s)
  have "quote_body (c # s) = esc_char c @ quote_body s" by (simp add: quote_body_def)
  with read_escaped[OF Cons.IH] show ?case by simp
qed

lemma quote_not_space [simp]: "\<not> is_json_space (CHR 0x22)" "\<not> is_json_space (CHR '','')" "\<not> is_json_space (CHR '':'')"
  "\<not> is_json_space (CHR '']'')" "\<not> is_json_space (CHR ''}'')" "\<not> is_json_space (CHR ''['')" "\<not> is_json_space (CHR ''{'')"
  "\<not> is_json_space (CHR ''n'')" "\<not> is_json_space (CHR ''t'')" "\<not> is_json_space (CHR ''f'')"
  "is_json_space (CHR 0x20)" "is_json_space (CHR 0x0A)"
  by (simp_all add: is_json_space_def)

lemma read_key_printed:
  "read_key (js_quote k @ key_colon gap @ s) = Some (k, (if gap = [] then [] else '' '') @ s)"
  by (simp add: read_key_def js_quote_def read_quoted key_colon_def)

lemma num_start_not_space: "num_start c \<Longrightarrow> \<not> is_json_space c"
  by (auto simp: num_start_def is_json_space_def is_digit_def)

lemma read_printed_number:
  assumes "list_all is_num_char t" and "delim r" and "json_number t"
  shows "read_number dc (t @ r) = Some (number_value dc t, r)"
proof -
  have "takeWhile is_num_char (t @ r) = t" "dropWhile is_num_char (t @ r) = r"
    using assms(1) delim_not_num[OF assms(2)]
    by (cases r; auto simp: list_all_iff takeWhile_append2 dropWhile_append2 split: if_splits)+
  with assms(3) show ?thesis by (simp add: read_number_def)
qed

lemma digits_take: "list_all is_digit s \<Longrightarrow> takeWhile is_digit s = s \<and> dropWhile is_digit s = []"
  by (induction s) auto

lemma hd_show_nat_zero: "hd (show_nat n) = CHR ''0'' \<Longrightarrow> n = 0"
proof (induction n rule: show_nat.induct)
  case (1 n)
  show ?case
  proof (cases "n < 10")
    case True
    with "1.prems" have "char_of (48 + n) = CHR ''0''" by (simp add: show_nat.simps[of n])
    then have "(of_char (char_of (48 + n) :: char) :: nat) = of_char (CHR ''0'')" by (rule arg_cong)
    with True show ?thesis by (simp add: of_char_digit)
  next
    case False
    with "1.prems" have "hd (show_nat (n div 10)) = CHR ''0''" by (subst (asm) show_nat.simps) simp
    from "1.IH"[OF False this] False show ?thesis by simp
  qed
qed

lemma unsigned_show_int: "unsigned_part (show_int i) = show_nat (nat \<bar>i\<bar>)"
proof (cases "i < 0")
  case True
  then show ?thesis by (simp add: show_int_def unsigned_part_def)
next
  case False
  then have "show_int i = show_nat (nat \<bar>i\<bar>)" by (simp add: show_int_def)
  then show ?thesis
    using hd_show_nat[of "nat \<bar>i\<bar>"] by (auto simp: unsigned_part_def split: list.split)
qed

lemma show_int_number: "json_number (show_int i)"
proof -
  have "length (show_nat n) = 1" if "hd (show_nat n) = CHR ''0''" for n
    using hd_show_nat_zero[OF that] by (simp add: show_nat.simps)
  then show ?thesis
    using digits_take[OF show_nat_digits, THEN conjunct1] digits_take[OF show_nat_digits, THEN conjunct2]
    by (simp only: json_number_def unsigned_show_int json_fraction_def Let_def) (simp del: takeWhile_eq_all_conv)
qed

lemma read_show_int: "read_int (show_int i) = i"
proof -
  have "hd (show_nat n) \<noteq> CHR ''-''" for n by (rule hd_show_nat)
  then show ?thesis by (simp add: read_int_def show_int_def read_show_nat)
qed

lemma number_value_int: "\<bar>i\<bar> \<le> 9007199254740991 \<Longrightarrow> number_value dc (show_int i) = JInt i"
  by (simp add: number_value_def unsigned_show_int show_nat_digits read_show_int)

lemma number_value_dec:
  assumes "dec_text d" shows "number_value dc d = dc d"
proof -
  obtain c where c: "c \<in> set d" "c \<in> set ''.eE''"
    using assms by (auto simp: dec_text_def list_ex_iff)
  then have "c \<in> set (unsigned_part d)"
    by (cases d) (auto simp: unsigned_part_def)
  with c show ?thesis
    using digit_not_dec[of c] by (auto simp: number_value_def list_all_iff)
qed

text \<open>The values that survive a print and a parse.\<close>

fun parseable :: "(string \<Rightarrow> jsval) \<Rightarrow> jsval \<Rightarrow> bool" where
  "parseable dc (JInt i) \<longleftrightarrow> \<bar>i\<bar> \<le> 9007199254740991"
| "parseable dc (JDec d) \<longleftrightarrow> dec_text d \<and> json_number d \<and> dc d = JDec d"
| "parseable dc (JArr vs) \<longleftrightarrow> list_all (parseable dc) vs"
| "parseable dc (JObj kvs) \<longleftrightarrow> distinct (map fst kvs) \<and> list_all (\<lambda>(k, v). parseable dc v) kvs"
| "parseable dc JInf \<longleftrightarrow> False"
| "parseable dc v \<longleftrightarrow> True"

definition reads_back :: "(string \<Rightarrow> jsval) \<Rightarrow> jsval \<Rightarrow> bool" where
  "reads_back dc v \<longleftrightarrow> (\<forall>gap ind r n. list_all is_json_space gap \<longrightarrow> list_all is_json_space ind \<longrightarrow> delim r \<longrightarrow>
     n > 2 * length (js_print gap ind v @ r) \<longrightarrow> parse_value dc n (js_print gap ind v @ r) = Some (v, r))"

lemma reads_backD:
  "reads_back dc v \<Longrightarrow> list_all is_json_space gap \<Longrightarrow> list_all is_json_space ind \<Longrightarrow> delim r \<Longrightarrow>
     n > 2 * length (js_print gap ind v @ r) \<Longrightarrow> parse_value dc n (js_print gap ind v @ r) = Some (v, r)"
  by (simp add: reads_back_def)

definition closing :: "string \<Rightarrow> string \<Rightarrow> char \<Rightarrow> string \<Rightarrow> string" where
  "closing gap ind b r = seq_close gap ind @ b # r"

lemma closing_facts:
  assumes "list_all is_json_space ind" "b = CHR '']'' \<or> b = CHR ''}''"
  shows "delim (closing gap ind b r)" "expect (CHR '','') (closing gap ind b r) = None" "expect b (closing gap ind b r) = Some r"
  using assms by (auto simp: closing_def seq_close_def delim_def)

lemma sep_facts:
  assumes "list_all is_json_space gap" "list_all is_json_space ind"
  shows "delim (seq_sep gap ind @ s)" "\<exists>w. seq_sep gap ind = CHR '','' # w \<and> list_all is_json_space w"
  using assms by (auto simp: seq_sep_def delim_def)

lemma print_not_Nil: "parseable dc v \<Longrightarrow> js_print gap ind v \<noteq> []"
proof (cases v)
  case (JInt i)
  then show ?thesis using show_int_start[of i] by (auto simp: js_print.simps)
qed (auto simp: js_print.simps js_quote_def dec_text_def)

lemma elements_read_back:
  assumes "list_all is_json_space gap" "list_all is_json_space ind" and "vs \<noteq> []"
    and "\<And>v. v \<in> set vs \<Longrightarrow> reads_back dc v \<and> parseable dc v"
    and "n > 2 * length (js_join (seq_sep gap ind) (map (js_print gap (ind @ gap)) vs) @ closing gap ind (CHR '']'') r) + 1"
  shows "parse_elements dc n (js_join (seq_sep gap ind) (map (js_print gap (ind @ gap)) vs) @ closing gap ind (CHR '']'') r) = Some (vs, r)"
  using assms(3-)
proof (induction vs arbitrary: n rule: induct_list012)
  case 1
  then show ?case by simp
next
  case (2 v)
  obtain m where n: "n = Suc m" using "2.prems" by (cases n) auto
  have "parse_value dc m (js_print gap (ind @ gap) v @ closing gap ind (CHR '']'') r) = Some (v, closing gap ind (CHR '']'') r)"
    using "2.prems" n assms(1,2) by (intro reads_backD) (auto simp: closing_facts)
  then show ?case by (simp add: n closing_facts assms)
next
  case (3 v v' vs)
  obtain m where n: "n = Suc m" using "3.prems" by (cases n) auto
  let ?t = "js_join (seq_sep gap ind) (map (js_print gap (ind @ gap)) (v' # vs)) @ closing gap ind (CHR '']'') r"
  obtain w where w: "seq_sep gap ind = CHR '','' # w" "list_all is_json_space w" using sep_facts[OF assms(1,2)] by blast
  have v: "parse_value dc m (js_print gap (ind @ gap) v @ seq_sep gap ind @ ?t) = Some (v, seq_sep gap ind @ ?t)"
    using "3.prems" n assms(1,2) sep_facts(1)[OF assms(1,2)] by (intro reads_backD) auto
  have "js_print gap (ind @ gap) v \<noteq> []" using "3.prems"(2)[of v] print_not_Nil[of dc v] by simp
  then have "m > 2 * length ?t + 1" using "3.prems"(3) n w by (cases "js_print gap (ind @ gap) v") auto
  then have rest: "parse_elements dc m ?t = Some (v' # vs, r)" using "3.prems" by (intro "3.IH"(2)) auto
  have "parse_elements dc m (w @ ?t) = parse_elements dc m ?t"
    using w(2) by (cases m) (simp_all del: append_assoc)
  then show ?case
    using v rest w by (simp add: n)
qed

lemma read_key_member:
  "read_key (print_member gap ind kv @ s) = Some (fst kv, (if gap = [] then [] else '' '') @ js_print gap ind (snd kv) @ s)"
  by (cases kv) (simp add: print_member_def read_key_printed)

lemma members_read_back:
  assumes "list_all is_json_space gap" "list_all is_json_space ind" and "kvs \<noteq> []"
    and "\<And>kv. kv \<in> set kvs \<Longrightarrow> reads_back dc (snd kv)"
    and "n > 2 * length (js_join (seq_sep gap ind) (map (print_member gap (ind @ gap)) kvs) @ closing gap ind (CHR ''}'') r) + 1"
  shows "parse_members dc n (js_join (seq_sep gap ind) (map (print_member gap (ind @ gap)) kvs) @ closing gap ind (CHR ''}'') r) = Some (kvs, r)"
  using assms(3-)
proof (induction kvs arbitrary: n rule: induct_list012)
  case 1
  then show ?case by simp
next
  case (2 kv)
  obtain m where n: "n = Suc m" using "2.prems" by (cases n) auto
  have "parse_value dc m (js_print gap (ind @ gap) (snd kv) @ closing gap ind (CHR ''}'') r) = Some (snd kv, closing gap ind (CHR ''}'') r)"
    using "2.prems" n assms(1,2) by (intro reads_backD) (auto simp: closing_facts print_member_def split: prod.splits)
  then show ?case by (simp add: n closing_facts assms read_key_member)
next
  case (3 kv kv' kvs)
  obtain m where n: "n = Suc m" using "3.prems" by (cases n) auto
  let ?t = "js_join (seq_sep gap ind) (map (print_member gap (ind @ gap)) (kv' # kvs)) @ closing gap ind (CHR ''}'') r"
  obtain w where w: "seq_sep gap ind = CHR '','' # w" "list_all is_json_space w" using sep_facts[OF assms(1,2)] by blast
  have v: "parse_value dc m (js_print gap (ind @ gap) (snd kv) @ seq_sep gap ind @ ?t) = Some (snd kv, seq_sep gap ind @ ?t)"
    using "3.prems" n assms(1,2) sep_facts(1)[OF assms(1,2)]
    by (intro reads_backD) (auto simp: print_member_def split: prod.splits)
  have "m > 2 * length ?t + 1"
    using "3.prems"(3) n w by (cases kv) (auto simp: print_member_def js_quote_def)
  then have rest: "parse_members dc m ?t = Some (kv' # kvs, r)" using "3.prems" by (intro "3.IH"(2)) auto
  have "parse_members dc m (w @ ?t) = parse_members dc m ?t"
    using w(2) by (cases m) (simp_all del: append_assoc)
  then show ?case
    using v rest w by (simp add: n read_key_member)
qed

lemma expect_start: "d \<noteq> c \<Longrightarrow> \<not> is_json_space d \<Longrightarrow> expect c (d # s) = None"
  by simp

lemma print_start:
  assumes "parseable dc v"
  shows "\<exists>d s. js_print gap ind v = d # s \<and> \<not> is_json_space d \<and> d \<noteq> CHR '']'' \<and> d \<noteq> CHR ''}''"
proof (cases v)
  case (JInt i)
  then show ?thesis
    using show_int_start[of i] num_start_not num_start_not_space by (fastforce simp: js_print.simps)
next
  case (JDec d)
  then show ?thesis
    using assms dec_text_start[of d] num_start_not num_start_not_space by (fastforce simp: js_print.simps)
qed (use assms in \<open>auto simp: js_print.simps js_quote_def\<close>)

lemma reads_backI:
  assumes "\<And>gap ind r m. list_all is_json_space gap \<Longrightarrow> list_all is_json_space ind \<Longrightarrow> delim r \<Longrightarrow>
     m \<ge> 2 * length (js_print gap ind v @ r) \<Longrightarrow> parse_value dc (Suc m) (js_print gap ind v @ r) = Some (v, r)"
  shows "reads_back dc v"
  unfolding reads_back_def
proof (intro allI impI)
  fix gap ind r n
  assume "list_all is_json_space gap" "list_all is_json_space ind" "delim r" and n: "2 * length (js_print gap ind v @ r) < n"
  from n obtain m where "n = Suc m" "m \<ge> 2 * length (js_print gap ind v @ r)" by (cases n) auto
  with assms show "parse_value dc n (js_print gap ind v @ r) = Some (v, r)"
    using \<open>list_all is_json_space gap\<close> \<open>list_all is_json_space ind\<close> \<open>delim r\<close> by blast
qed

lemma parse_value_number:
  assumes "c # cs = t" "num_start c" "list_all is_num_char t" "json_number t" "delim r"
  shows "parse_value dc (Suc m) (t @ r) = Some (number_value dc t, r)"
  using assms read_printed_number[OF assms(3,5,4), of dc] num_start_not[OF assms(2)] num_start_not_space[OF assms(2)]
  by (auto simp flip: assms(1))

lemma open_ws: "list_all is_json_space gap \<Longrightarrow> list_all is_json_space ind \<Longrightarrow> list_all is_json_space (seq_open gap ind)"
  by (simp add: seq_open_def)

lemma join_start: "xs \<noteq> [] \<Longrightarrow> hd xs = d # s \<Longrightarrow> \<exists>q. js_join sep xs = d # q"
  by (cases xs; cases "tl xs") auto

lemma expect_join:
  assumes "xs \<noteq> []" "hd xs = d # s" "\<not> is_json_space d" "d \<noteq> c"
  shows "expect c (js_join sep xs @ q) = None"
proof -
  obtain p where "js_join sep xs = d # p" using join_start[OF assms(1,2)] by blast
  with assms(3,4) show ?thesis by simp
qed

lemma parseable_reads_back: "parseable dc v \<Longrightarrow> reads_back dc v"
proof (induction v)
  case (JNull)
  show ?case by (rule reads_backI) (simp add: js_print.simps read_literal_def num_start_def is_digit_def)
next
  case (JBool b)
  show ?case by (rule reads_backI) (simp add: js_print.simps read_literal_def num_start_def is_digit_def)
next
  case (JInt i)
  show ?case
  proof (rule reads_backI)
    fix gap ind r m assume "delim r"
    then show "parse_value dc (Suc m) (js_print gap ind (JInt i) @ r) = Some (JInt i, r)"
      using show_int_start[of i] parse_value_number[OF _ _ show_int_num show_int_number, of _ _ i r dc m] JInt
      by (auto simp: js_print.simps number_value_int)
  qed
next
  case (JDec d)
  show ?case
  proof (rule reads_backI)
    fix gap ind r m assume "delim r"
    then show "parse_value dc (Suc m) (js_print gap ind (JDec d) @ r) = Some (JDec d, r)"
      using dec_text_start[of d] parse_value_number[of _ _ d r dc m] JDec number_value_dec[of d dc]
      by (auto simp: js_print.simps dec_text_def)
  qed
next
  case JInf
  then show ?case by simp
next
  case (JStr s)
  show ?case by (rule reads_backI) (simp add: js_print.simps js_quote_def read_quoted)
next
  case (JArr vs)
  show ?case
  proof (rule reads_backI)
    fix gap ind :: string and r m
    assume ws: "list_all is_json_space gap" "list_all is_json_space ind" and "delim r"
      and m: "m \<ge> 2 * length (js_print gap ind (JArr vs) @ r)"
    show "parse_value dc (Suc m) (js_print gap ind (JArr vs) @ r) = Some (JArr vs, r)"
    proof (cases "vs = []")
      case True
      then show ?thesis by (simp add: js_print.simps)
    next
      case False
      let ?t = "js_join (seq_sep gap ind) (map (js_print gap (ind @ gap)) vs) @ closing gap ind (CHR '']'') r"
      have p: "js_print gap ind (JArr vs) @ r = CHR ''['' # seq_open gap ind @ ?t"
        using False by (simp add: js_print.simps closing_def)
      have ok: "\<And>v. v \<in> set vs \<Longrightarrow> reads_back dc v \<and> parseable dc v"
        using JArr by (auto simp: list_all_iff)
      obtain d s where "hd (map (js_print gap (ind @ gap)) vs) = d # s" "\<not> is_json_space d" "d \<noteq> CHR '']''"
        using print_start[of dc "hd vs" gap "ind @ gap"] ok[of "hd vs"] False by (auto simp: hd_map)
      then have none: "expect (CHR '']'') ?t = None"
        using False by (intro expect_join) auto
      have "parse_elements dc m ?t = Some (vs, r)"
        using m p by (intro elements_read_back[OF ws False ok]) auto
      then have "parse_elements dc m (seq_open gap ind @ ?t) = Some (vs, r)"
        using open_ws[OF ws] by (cases m) (simp_all del: append_assoc)
      then show ?thesis
        unfolding p using none open_ws[OF ws] by (simp del: append_assoc)
    qed
  qed
next
  case (JObj kvs)
  show ?case
  proof (rule reads_backI)
    fix gap ind :: string and r m
    assume ws: "list_all is_json_space gap" "list_all is_json_space ind" and "delim r"
      and m: "m \<ge> 2 * length (js_print gap ind (JObj kvs) @ r)"
    show "parse_value dc (Suc m) (js_print gap ind (JObj kvs) @ r) = Some (JObj kvs, r)"
    proof (cases "kvs = []")
      case True
      then show ?thesis by (simp add: js_print.simps)
    next
      case False
      let ?t = "js_join (seq_sep gap ind) (map (print_member gap (ind @ gap)) kvs) @ closing gap ind (CHR ''}'') r"
      have p: "js_print gap ind (JObj kvs) @ r = CHR ''{'' # seq_open gap ind @ ?t"
        using False by (simp add: js_print.simps closing_def print_member_def[abs_def])
      have "parseable dc (snd kv)" if "kv \<in> set kvs" for kv
        using JObj.prems that by (cases kv) (auto simp: list_all_iff)
      then have ok: "\<And>kv. kv \<in> set kvs \<Longrightarrow> reads_back dc (snd kv)"
        using JObj.IH by (metis prod.collapse snds.intros)
      obtain s where "hd (map (print_member gap (ind @ gap)) kvs) = CHR 0x22 # s"
        using False by (cases kvs) (auto simp: print_member_def js_quote_def)
      then have none: "expect (CHR ''}'') ?t = None"
        using False by (intro expect_join) auto
      have "parse_members dc m ?t = Some (kvs, r)"
        using m p by (intro members_read_back[OF ws False ok]) auto
      then have "parse_members dc m (seq_open gap ind @ ?t) = Some (kvs, r)"
        using open_ws[OF ws] by (cases m) (simp_all del: append_assoc)
      then show ?thesis
        unfolding p using none open_ws[OF ws] JObj.prems by (simp del: append_assoc)
    qed
  qed
qed

lemma json_parse_print:
  assumes "parseable dc v" and "list_all is_json_space gap" and "list_all is_json_space ind"
    and "list_all is_json_space tail" and "delim tail"
  shows "json_parse dc (js_print gap ind v @ tail) = Some v"
  using reads_backD[OF parseable_reads_back[OF assms(1)] assms(2,3,5), of "2 * length (js_print gap ind v @ tail) + 1"]
    skip_ws_append[OF assms(4), of "[]"]
  by (simp add: json_parse_def)

section \<open>The fuel is enough\<close>

lemma onto_SomeE: "onto p r = Some (s, q) \<Longrightarrow> \<exists>t. r = Some (t, q)"
  by (auto simp: onto_def)

lemma read_string_rest: "read_string s = Some (t, r) \<Longrightarrow> length r < length s"
proof (induction s arbitrary: t r rule: measure_induct_rule[where f = length])
  case (less s)
  show ?case
  proof (cases s)
    case Nil
    with less.prems show ?thesis by simp
  next
    case (Cons c cs)
    have ih: "length q < Suc (length cs)" if "read_string s' = Some (u, q)" "length s' \<le> length cs" for s' u q
      using less.IH[of s' u q] that Cons by simp
    have ih': "length q < Suc (length cs)" if "onto p (read_string s') = Some (u, q)" "length s' \<le> length cs" for p s' u q
      using onto_SomeE[OF that(1)] ih that(2) by blast
    show ?thesis
      using less.prems unfolding Cons
      by (auto split: if_splits option.splits list.splits dest!: ih')
  qed
qed

lemma skip_ws_length: "length (skip_ws s) \<le> length s"
  by (simp add: skip_ws_def length_dropWhile_le)

lemma expect_rest: "expect c s = Some r \<Longrightarrow> length r < length s"
  using skip_ws_length[of s] by (auto simp: expect_def split: list.splits if_splits)

lemma read_key_rest: "read_key s = Some (k, r) \<Longrightarrow> length r < length s"
  by (auto simp: read_key_def bind_eq_Some_conv dest!: read_string_rest expect_rest)

lemma num_start_char: "num_start c \<Longrightarrow> is_num_char c"
  by (auto simp: num_start_def is_num_char_def)

lemma read_number_rest: "read_number dc (c # cs) = Some (v, r) \<Longrightarrow> num_start c \<Longrightarrow> length r < length (c # cs)"
  by (auto simp: read_number_def Let_def num_start_char less_Suc_eq_le length_dropWhile_le split: if_splits)

lemma read_literal_rest: "read_literal (c # cs) = Some (v, r) \<Longrightarrow> length r < length (c # cs)"
  by (auto simp: read_literal_def split: if_splits)

lemma parse_rest:
  "parse_value dc n s = Some (v, r) \<Longrightarrow> length r < length s"
  "parse_elements dc n s = Some (vs, r) \<Longrightarrow> length r < length s"
  "parse_members dc n s = Some (kvs, r) \<Longrightarrow> length r < length s"
proof (induction n arbitrary: s v vs kvs r)
  case 0
  { case 1 then show ?case by simp }
  { case 2 then show ?case by simp }
  { case 3 then show ?case by simp }
next
  case (Suc n)
  { case 1
    then show ?case
      using skip_ws_length[of s]
      by (auto split: list.splits if_splits option.splits
          dest!: read_string_rest expect_rest Suc.IH(2,3) read_number_rest read_literal_rest) }
  { case 2
    then show ?case
      by (auto split: option.splits dest!: Suc.IH(1,2) expect_rest) }
  { case 3
    then show ?case
      by (auto split: option.splits dest!: Suc.IH(1,3) expect_rest read_key_rest) }
qed

lemma parse_fuel:
  "n > 2 * length s \<Longrightarrow> m > 2 * length s \<Longrightarrow> parse_value dc n s = parse_value dc m s"
  "n > 2 * length s + 1 \<Longrightarrow> m > 2 * length s + 1 \<Longrightarrow> parse_elements dc n s = parse_elements dc m s"
  "n > 2 * length s + 1 \<Longrightarrow> m > 2 * length s + 1 \<Longrightarrow> parse_members dc n s = parse_members dc m s"
proof (induction n arbitrary: s m)
  case 0
  { case 1 then show ?case by simp }
  { case 2 then show ?case by simp }
  { case 3 then show ?case by simp }
next
  case (Suc n)
  { case 1
    then obtain m' where m: "m = Suc m'" by (cases m) auto
    have "parse_elements dc n cs = parse_elements dc m' cs" "parse_members dc n cs = parse_members dc m' cs"
      if "skip_ws s = c # cs" for c cs
      using skip_ws_length[of s] that 1 m Suc.IH(2,3)[of cs m'] by auto
    then show ?case unfolding m by (auto split: list.splits option.splits) }
  { case 2
    then obtain m' where m: "m = Suc m'" by (cases m) auto
    have v: "parse_value dc n s = parse_value dc m' s" using 2 m by (intro Suc.IH(1)) auto
    have "parse_elements dc n r1 = parse_elements dc m' r1"
      if "parse_value dc m' s = Some (v, r)" "expect (CHR '','') r = Some r1" for v r r1
      using parse_rest(1)[OF that(1)] expect_rest[OF that(2)] 2 m by (intro Suc.IH(2)) auto
    then show ?case unfolding m by (auto simp: v split: option.splits) }
  { case 3
    then obtain m' where m: "m = Suc m'" by (cases m) auto
    have v: "parse_value dc n r0 = parse_value dc m' r0" if "read_key s = Some (k, r0)" for k r0
      using read_key_rest[OF that] 3 m by (intro Suc.IH(1)) auto
    have "parse_members dc n r1 = parse_members dc m' r1"
      if "read_key s = Some (k, r0)" "parse_value dc m' r0 = Some (v, r)" "expect (CHR '','') r = Some r1" for k r0 v r r1
      using read_key_rest[OF that(1)] parse_rest(1)[OF that(2)] expect_rest[OF that(3)] 3 m by (intro Suc.IH(3)) auto
    with v show ?case unfolding m by (auto split: option.splits) }
qed

end
