(* ===== verification/DebtLog.thy ===== *)
theory DebtLog
  imports DebtLogSchema JsonParse
begin

text \<open>
  \<open>governance/debt-log-jsonl.ts\<close> and \<open>governance/debt-log-write.ts\<close>: reading the append-only log,
  and building and appending its lines. The log file is \<open>None\<close> when it does not exist. A thrown
  \<open>ConfigError\<close> is \<open>Inl\<close> its message.
\<close>

section \<open>Reading\<close>

text \<open>\<open>text.split(/\r?\n/u)\<close>: a carriage return goes with the newline after it.\<close>

definition drop_cr :: "string \<Rightarrow> string" where
  "drop_cr l = (if l \<noteq> [] \<and> last l = CHR 0x0D then butlast l else l)"

definition split_lines :: "string \<Rightarrow> string list" where
  "split_lines txt = (let ls = js_split (CHR 0x0A) txt in map drop_cr (butlast ls) @ [last ls])"

definition debtLogLines :: "string \<Rightarrow> string list" where
  "debtLogLines txt =
     (if txt = [] then []
      else let ls = split_lines txt in if last ls = [] then butlast ls else ls)"

definition parseDebtLogJsonlLine ::
    "json_parser \<Rightarrow> (jsval \<Rightarrow> string list) \<Rightarrow> string \<Rightarrow> nat \<Rightarrow> string \<Rightarrow> string + debt_entry" where
  "parseDebtLogJsonlLine jp issues line n label =
     (case jp line of
        Inl message \<Rightarrow> Inl (label @ '' line '' @ show_nat n @ '' is not valid JSON: '' @ message)
      | Inr v \<Rightarrow>
          (let parsed = parseLintRatchetDebtLogEntry issues v
           in case pe_entry parsed of
                None \<Rightarrow> Inl (label @ '' line '' @ show_nat n @ '' is invalid:'' @ [CHR 0x0A]
                          @ js_join [CHR 0x0A] (pe_failures parsed))
              | Some e \<Rightarrow> Inr e))"

fun parse_lines ::
    "json_parser \<Rightarrow> (jsval \<Rightarrow> string list) \<Rightarrow> string \<Rightarrow> nat \<Rightarrow> string list \<Rightarrow> string + debt_entry list" where
  "parse_lines jp issues label n [] = Inr []"
| "parse_lines jp issues label n (l # ls) =
     (case parseDebtLogJsonlLine jp issues l n label of
        Inl e \<Rightarrow> Inl e
      | Inr x \<Rightarrow> (case parse_lines jp issues label (Suc n) ls of Inl e \<Rightarrow> Inl e | Inr xs \<Rightarrow> Inr (x # xs)))"

definition parseDebtLogJsonl ::
    "json_parser \<Rightarrow> (jsval \<Rightarrow> string list) \<Rightarrow> string \<Rightarrow> string \<Rightarrow> string + debt_entry list" where
  "parseDebtLogJsonl jp issues txt label = parse_lines jp issues label 1 (debtLogLines txt)"

section \<open>Building entries\<close>

definition debtLogRegressionFor :: "regression \<Rightarrow> regression" where
  "debtLogRegressionFor r = r\<lparr>dl_firstMessage := None, dl_firstMessageId := None\<rparr>"

definition buildLintRatchetDebtLogEntry :: "update_decision \<Rightarrow> string \<Rightarrow> debt_entry" where
  "buildLintRatchetDebtLogEntry d reason =
     AcceptedDebt reason (map debtLogRegressionFor (cmp_regressions d)) (ud_orphanRemovals d)"

definition buildLintRatchetRetirementLogEntry :: "string \<Rightarrow> attestation option \<Rightarrow> debt_entry" where
  "buildLintRatchetRetirementLogEntry ratchetId attestation = Retirement ratchetId attestation"

definition buildLintRatchetMetricMigrationLogEntry :: "metric_migration \<Rightarrow> string \<Rightarrow> debt_entry" where
  "buildLintRatchetMetricMigrationLogEntry m reason =
     MetricMigration (mm_ratchetId m) (mm_fromMetric m) (mm_toMetric m) reason"

definition buildLintRatchetCoverageShrinkLogEntry :: "coverage_shrink \<Rightarrow> string \<Rightarrow> debt_entry" where
  "buildLintRatchetCoverageShrinkLogEntry s reason = CoverageShrink
     \<lparr>se_ratchetId = cs_ratchetId s, se_previousFiles = cs_previousFiles s, se_currentFiles = cs_currentFiles s,
      se_previousIgnores = cs_previousIgnores s, se_currentIgnores = cs_currentIgnores s,
      se_removedPaths = cs_removedPaths s, se_reason = reason\<rparr>"

section \<open>Entries as JSON\<close>

text \<open>The members in the order in which the builders list them.\<close>

definition regression_json :: "regression \<Rightarrow> jsval" where
  "regression_json d = JObj
     ([(''testId'', JStr (dl_testId d)), (''ruleId'', JStr (dl_ruleId d)), (''path'', JStr (dl_path d)),
       (''baselineCount'', JInt (dl_baselineCount d)), (''currentCount'', JInt (dl_currentCount d)),
       (''reason'', JStr (reason_name (dl_reason d)))]
      @ opt_field ''baselineLines'' JInt (dl_baselineLines d)
      @ opt_field ''currentLines'' JInt (dl_currentLines d)
      @ opt_field ''baselineComplexity'' JInt (dl_baselineComplexity d)
      @ opt_field ''currentComplexity'' JInt (dl_currentComplexity d)
      @ opt_field ''line'' JInt (dl_line d))"

fun members :: "jsval \<Rightarrow> (string \<times> jsval) list" where
  "members (JObj ms) = ms"
| "members _ = []"

definition orphan_item_json :: "string \<times> metric_item \<Rightarrow> jsval" where
  "orphan_item_json pi = JObj ((''path'', JStr (fst pi)) # members (item_json (snd pi)))"

definition orphan_json :: "orphan_removal \<Rightarrow> jsval" where
  "orphan_json r = JObj
     [(''testId'', JStr (or_testId r)), (''ruleId'', JStr (or_ruleId r)), (''metric'', JStr (metric_name (or_metric r))),
      (''baselineItems'', JArr (map orphan_item_json (or_baselineItems r)))]"

definition attestation_json :: "attestation \<Rightarrow> jsval" where
  "attestation_json a = JObj
     [(''reason'', JStr (at_reason a)), (''ratchetOptions'', JArr (at_ratchetOptions a)),
      (''normalLintOptions'', JArr (map JArr (at_normalLintOptions a)))]"

fun entry_json :: "debt_entry \<Rightarrow> jsval" where
  "entry_json (AcceptedDebt reason regressions orphans) = JObj
     [(''version'', JStr ''1''), (''kind'', JStr ''accepted-debt''), (''acceptanceReason'', JStr reason),
      (''regressions'', JArr (map regression_json regressions)), (''orphansRemoved'', JArr (map orphan_json orphans))]"
| "entry_json (Retirement ratchetId attestation) = JObj
     ([(''version'', JStr ''1''), (''kind'', JStr ''retirement''), (''ratchetId'', JStr ratchetId),
       (''promotionProof'', JStr ''normal-lint-error'')]
      @ opt_field ''optionsAttestation'' attestation_json attestation)"
| "entry_json (MetricMigration ratchetId fromMetric toMetric reason) = JObj
     [(''version'', JStr ''1''), (''kind'', JStr ''metric-migration''), (''ratchetId'', JStr ratchetId),
      (''fromMetric'', JStr (metric_name fromMetric)), (''toMetric'', JStr (metric_name toMetric)), (''reason'', JStr reason)]"
| "entry_json (CoverageShrink s) = JObj
     [(''version'', JStr ''1''), (''kind'', JStr ''coverage-shrink''), (''ratchetId'', JStr (se_ratchetId s)),
      (''previousFiles'', strings_json (se_previousFiles s)), (''currentFiles'', strings_json (se_currentFiles s)),
      (''previousIgnores'', strings_json (se_previousIgnores s)), (''currentIgnores'', strings_json (se_currentIgnores s)),
      (''removedPaths'', strings_json (se_removedPaths s)), (''reason'', JStr (se_reason s))]"

section \<open>Appending\<close>

fun hasExplicitDebtLogKind :: "jsval \<Rightarrow> bool" where
  "hasExplicitDebtLogKind (JObj ms) \<longleftrightarrow> map_of ms ''kind'' \<noteq> None"
| "hasExplicitDebtLogKind _ \<longleftrightarrow> False"

definition ends_with :: "string \<Rightarrow> string \<Rightarrow> bool" where
  "ends_with s t \<longleftrightarrow> length t \<le> length s \<and> drop (length s - length t) s = t"

fun check_entries :: "(jsval \<Rightarrow> string list) \<Rightarrow> debt_entry list \<Rightarrow> string option" where
  "check_entries issues [] = None"
| "check_entries issues (e # es) =
     (if \<not> hasExplicitDebtLogKind (entry_json e)
      then Some (''refusing to append an invalid debt-log entry:'' @ [CHR 0x0A]
             @ ''kind: required for newly authored debt-log entries'')
      else let parsed = parseLintRatchetDebtLogEntry issues (entry_json e)
           in if pe_entry parsed = None
              then Some (''refusing to append an invalid debt-log entry:'' @ [CHR 0x0A] @ js_join [CHR 0x0A] (pe_failures parsed))
              else check_entries issues es)"

definition log_batch :: "debt_entry list \<Rightarrow> string" where
  "log_batch es = js_join [CHR 0x0A] (map (\<lambda>e. stringify (entry_json e)) es) @ [CHR 0x0A]"

text \<open>Whether a line was appended, and the log afterwards.\<close>

definition appendValidatedDebtLogEntries ::
    "(jsval \<Rightarrow> string list) \<Rightarrow> debt_entry list \<Rightarrow> string option \<Rightarrow> string + bool \<times> string option" where
  "appendValidatedDebtLogEntries issues entries log =
     (if entries = [] then Inr (False, log)
      else case check_entries issues entries of
             Some message \<Rightarrow> Inl message
           | None \<Rightarrow>
               (let batch = log_batch entries;
                    existing = (case log of None \<Rightarrow> [] | Some s \<Rightarrow> s)
                in if ends_with existing batch then Inr (False, log)
                   else Inr (True, Some (existing
                          @ (if existing \<noteq> [] \<and> \<not> ends_with existing [CHR 0x0A] then [CHR 0x0A] else [])
                          @ batch))))"

end
