(* ===== verification/UpdateApply.thy ===== *)
theory UpdateApply
  imports DebtLog BaselineUpdate BaselineValidation
begin

text \<open>
  \<open>governance/baseline-update-apply.ts\<close>: the gate, the debt log entries an accepted update owes, and
  the two writes, log first. A run returns its result, the state of the two files after each write
  (a crash leaves one of these states, or the initial one) and the lines it prints. \<open>None\<close> is a file
  that does not exist. Errors: \<open>UpdConfig\<close> is \<open>ConfigError\<close>, \<open>UpdWorse\<close> is \<open>WorseBaselineError\<close>,
  \<open>UpdIo\<close> what a write of the injected dependencies (\<open>RunUpdateDeps\<close>) throws. The reads of the two files
  all come before the first write; a read that throws is not modelled.
\<close>

record files =
  fs_baseline :: "string option"
  fs_debtLog :: "string option"

datatype update_error =
    UpdThrown baseline_error | UpdCompare compare_error | UpdConfig string | UpdWorse string | UpdIo string

record engine_context =
  ec_baselineName :: string
  ec_debtLogName :: string
  ec_workflowVocabulary :: workflow_vocabulary

record apply_params =
  ap_context :: engine_context
  ap_generated :: ratchet_baseline
  ap_rendered :: string
  ap_registry :: "ratchet_config list"
  ap_options :: update_options
  ap_currentFindingCount :: int

section \<open>What kind of update it is\<close>

definition hasAcceptedDebt :: "update_decision \<Rightarrow> bool" where
  "hasAcceptedDebt d \<longleftrightarrow> length (cmp_regressions d) > 0 \<or> length (ud_orphanRemovals d) > 0"

definition parseCommittedStructure ::
    "json_parser \<Rightarrow> string cmp \<Rightarrow> engine_context \<Rightarrow> string \<Rightarrow> update_error + ratchet_baseline" where
  "parseCommittedStructure jp lc ctx txt =
     and_then (lift_error UpdThrown (parseLintRatchetBaselineStructure jp lc txt (ec_workflowVocabulary ctx)
         default_version_policy (ec_baselineName ctx))) (\<lambda>parsed.
       case sb_baseline parsed of
         None \<Rightarrow> Inl (UpdConfig (js_join [CHR 0x0A] (sb_failures parsed)))
       | Some b \<Rightarrow> Inr b)"

definition items_json :: "(string \<times> metric_item) list \<Rightarrow> jsval" where
  "items_json items = JObj (map (\<lambda>(path, i). (path, item_json i)) items)"

definition withoutRuleSourceHashes :: "ratchet_baseline \<Rightarrow> jsval" where
  "withoutRuleSourceHashes b = JObj
     ([(''version'', JInt (bl_version b))]
      @ opt_field ''regenerate'' id (bl_regenerate b)
      @ [(''tests'', JObj (map (\<lambda>(testId, t). (testId, JObj
           (AList.delete ''ruleSourceHash'' (meta_members (test_meta t)) @ [(''items'', items_json (bt_items t))])))
           (bl_tests b)))])"

definition ruleSourceHashRefreshCount :: "ratchet_baseline \<Rightarrow> ratchet_baseline \<Rightarrow> nat" where
  "ruleSourceHashRefreshCount committed generated =
     length (filter (\<lambda>(testId, generatedTest).
       case map_of (bl_tests committed) testId of
         None \<Rightarrow> False
       | Some committedTest \<Rightarrow> gm_ruleSourceHash committedTest \<noteq> gm_ruleSourceHash generatedTest) (bl_tests generated))"

definition debtFloorValue :: "metric_item option \<Rightarrow> jsval option" where
  "debtFloorValue item = map_option (\<lambda>i. item_json (i\<lparr>mi_messagesFingerprint := None\<rparr>)) item"

definition same_floor :: "metric_item option \<Rightarrow> metric_item option \<Rightarrow> bool" where
  "same_floor l r \<longleftrightarrow> (case (debtFloorValue l, debtFloorValue r) of
     (None, None) \<Rightarrow> True | (Some a, Some b) \<Rightarrow> sameCanonicalValue a b | _ \<Rightarrow> False)"

definition debtFloorDeltaCount :: "ratchet_baseline \<Rightarrow> ratchet_baseline \<Rightarrow> nat" where
  "debtFloorDeltaCount committed generated =
     sum_list (map (\<lambda>testId.
       let items = (\<lambda>b. case map_of (bl_tests b) testId of None \<Rightarrow> [] | Some t \<Rightarrow> bt_items t);
           paths = js_set (map fst (items committed) @ map fst (items generated))
       in length (filter (\<lambda>path. \<not> same_floor (map_of (items committed) path) (map_of (items generated) path)) paths))
       (js_set (map fst (bl_tests committed) @ map fst (bl_tests generated))))"

definition plural :: "nat \<Rightarrow> string" where
  "plural n = (if n = 1 then '''' else ''s'')"

definition formatUpdateClassification :: "ratchet_baseline \<Rightarrow> ratchet_baseline \<Rightarrow> string option" where
  "formatUpdateClassification committed generated =
     (let hashRefreshes = ruleSourceHashRefreshCount committed generated;
          hashLabel = show_nat hashRefreshes @ '' ruleSourceHash value'' @ plural hashRefreshes
      in if hashRefreshes = 0 then None
         else if sameCanonicalValue (withoutRuleSourceHashes committed) (withoutRuleSourceHashes generated)
         then Some (''lint:ratchet:update rule source identity refresh only '' @ em_dash @ '' refreshed '' @ hashLabel
           @ ''; debt floors unchanged.'')
         else (let floorDeltas = debtFloorDeltaCount committed generated
               in Some (''lint:ratchet:update mixed baseline refresh '' @ em_dash @ '' refreshed '' @ hashLabel @ ''; ''
                 @ show_nat floorDeltas @ '' debt-floor delta'' @ plural floorDeltas @ ''.'')))"

definition reportUpdateClassification ::
    "json_parser \<Rightarrow> string cmp \<Rightarrow> engine_context \<Rightarrow> string \<Rightarrow> ratchet_baseline \<Rightarrow> update_error + string list" where
  "reportUpdateClassification jp lc ctx committedText generated =
     (if length committedText = 0 then Inr []
      else and_then (parseCommittedStructure jp lc ctx committedText) (\<lambda>committed.
        Inr (case formatUpdateClassification committed generated of None \<Rightarrow> [] | Some line \<Rightarrow> [line])))"

section \<open>The gate\<close>

definition warning_sign :: string where
  "warning_sign = [CHR 0xE2, CHR 0x9A, CHR 0xA0]"

definition gateCommittedBaseline ::
    "json_parser \<Rightarrow> string cmp \<Rightarrow> globber \<Rightarrow> apply_params \<Rightarrow> files \<Rightarrow>
     update_error + update_decision option \<times> string list" where
  "gateCommittedBaseline jp lc glob p fs =
     (case fs_baseline fs of
        None \<Rightarrow> Inr (None, [])
      | Some committedText \<Rightarrow>
          and_then (parseCommittedStructure jp lc (ap_context p) committedText) (\<lambda>committed.
          and_then (lift_error UpdCompare (decideLintRatchetUpdate lc glob committed (ap_generated p) (ap_registry p)
              ((ap_options p)\<lparr>uo_workflowVocabulary := ec_workflowVocabulary (ap_context p)\<rparr>))) (\<lambda>d.
            if \<not> ud_allowed d then Inl (UpdWorse (js_join [CHR 0x0A] (ud_failures d)))
            else Inr (Some d, map (\<lambda>w. warning_sign @ '' '' @ w) (ud_warnings d)))))"

section \<open>The entries an update owes\<close>

definition debtLogEntriesForUpdate :: "update_decision option \<Rightarrow> update_options \<Rightarrow> debt_entry list" where
  "debtLogEntriesForUpdate decision opts =
     (case decision of
        None \<Rightarrow> []
      | Some d \<Rightarrow>
          (let reason = trimmed_or_empty (uo_reason opts);
               acceptedDebt = (if uo_allowWorse opts \<and> hasAcceptedDebt d then [buildLintRatchetDebtLogEntry d reason] else []);
               coverageShrinks = (if uo_allowWorse opts
                 then map (\<lambda>s. buildLintRatchetCoverageShrinkLogEntry s reason) (ud_coverageShrinks d) else []);
               migrationReason = (case uo_migrationReason opts of None \<Rightarrow> reason | Some r \<Rightarrow> js_trim r);
               metricMigrations = map (\<lambda>m. buildLintRatchetMetricMigrationLogEntry m migrationReason) (ud_metricMigrations d);
               retirement = (case ud_retiredRatchetId d of
                 None \<Rightarrow> []
               | Some i \<Rightarrow> [buildLintRatchetRetirementLogEntry i (ud_retirementOptionsAttestation d)])
           in acceptedDebt @ coverageShrinks @ metricMigrations @ retirement))"

definition updateIncludesAcceptedDebt :: "update_decision option \<Rightarrow> update_options \<Rightarrow> bool" where
  "updateIncludesAcceptedDebt decision opts =
     (case decision of
        None \<Rightarrow> False
      | Some d \<Rightarrow> if \<not> uo_allowWorse opts then False else hasAcceptedDebt d \<or> length (ud_coverageShrinks d) > 0)"

section \<open>The two writes\<close>

text \<open>
  What the file system does with the writes of a run. An append is done, or throws: before the file is
  opened (\<open>None\<close>) or after some characters of the text have reached it. The atomic write of
  \<open>kernel/atomic-write.ts\<close> writes a temporary file, renames it over the target and, in its \<open>finally\<close>
  clause, removes the temporary file; each of the three may throw.
\<close>

datatype append_outcome = AppendDone | AppendThrew "nat option" string

record write_deps =
  wd_append :: append_outcome
  wd_writeTemp :: "string option"
  wd_rename :: "string option"
  wd_remove :: "string option"

definition io_ok :: write_deps where
  "io_ok = \<lparr>wd_append = AppendDone, wd_writeTemp = None, wd_rename = None, wd_remove = None\<rparr>"

text \<open>Each returns what it throws and the file afterwards; \<open>appended\<close> is the file with the whole text.\<close>

definition appendFileSync :: "write_deps \<Rightarrow> string option \<Rightarrow> string option \<Rightarrow> string option \<times> string option" where
  "appendFileSync io old appended =
     (case wd_append io of
        AppendDone \<Rightarrow> (None, appended)
      | AppendThrew None m \<Rightarrow> (Some m, old)
      | AppendThrew (Some n) m \<Rightarrow> (Some m, map_option (take (length (case old of None \<Rightarrow> [] | Some s \<Rightarrow> s) + n)) appended))"

definition writeFileAtomicallySync :: "write_deps \<Rightarrow> string \<Rightarrow> string option \<Rightarrow> string option \<times> string option" where
  "writeFileAtomicallySync io content old =
     (let tried = (case wd_writeTemp io of Some m \<Rightarrow> Some m | None \<Rightarrow> wd_rename io)
      in (case wd_remove io of Some m \<Rightarrow> Some m | None \<Rightarrow> tried,
          if tried = None then Some content else old))"

text \<open>The append of the owed entries, if there is something to append, then the write of the baseline.\<close>

definition log_then_baseline :: "write_deps \<Rightarrow> string \<Rightarrow> files \<Rightarrow> bool \<Rightarrow> string option \<Rightarrow> string option \<times> files list" where
  "log_then_baseline io rendered fs appends log =
     (case (if appends then appendFileSync io (fs_debtLog fs) log else (None, log)) of
        (appendError, debtLog) \<Rightarrow>
          (let logged = fs\<lparr>fs_debtLog := debtLog\<rparr>;
               appended = (if appends then [logged] else [])
           in case appendError of
                Some m \<Rightarrow> (Some m, appended)
              | None \<Rightarrow>
                  (case writeFileAtomicallySync io rendered (fs_baseline fs) of
                     (writeError, baseline) \<Rightarrow> (writeError, appended @ [logged\<lparr>fs_baseline := baseline\<rparr>]))))"

section \<open>The update\<close>

record update_run =
  ur_result :: "update_error + bool"
  ur_trace :: "files list"
  ur_messages :: "string list"

text \<open>What is printed after the write of the baseline, the classification aside.\<close>

definition written_message :: "apply_params \<Rightarrow> bool \<Rightarrow> string" where
  "written_message p recordedDebt =
     ''lint:ratchet:update OK '' @ em_dash @ '' wrote '' @ ec_baselineName (ap_context p) @ '' with ''
     @ show_int (ap_currentFindingCount p) @ '' current finding(s).''
     @ (if recordedDebt then '' Recorded the debt acceptance in '' @ ec_debtLogName (ap_context p) @ ''.'' else '''')"

definition lifecycle_messages :: "apply_params \<Rightarrow> update_decision option \<Rightarrow> string list" where
  "lifecycle_messages p decision =
     (case decision of
        None \<Rightarrow> []
      | Some d \<Rightarrow>
          (case ud_retiredRatchetId d of
             None \<Rightarrow> []
           | Some i \<Rightarrow> [''Retired ratchet '' @ i @ '' (was at zero findings); coverage promoted, retirement recorded in ''
               @ ec_debtLogName (ap_context p) @ ''. No debt logged.''])
          @ (if length (ud_metricMigrations d) > 0
             then [''Recorded metric migration for '' @ js_join '', '' (map mm_ratchetId (ud_metricMigrations d)) @ '' in ''
               @ ec_debtLogName (ap_context p) @ ''. No debt logged.'']
             else []))"

definition failed :: "update_error \<Rightarrow> string list \<Rightarrow> update_run" where
  "failed e messages = \<lparr>ur_result = Inl e, ur_trace = [], ur_messages = messages\<rparr>"

definition applyLintRatchetUpdate ::
    "write_deps \<Rightarrow> json_parser \<Rightarrow> string cmp \<Rightarrow> globber \<Rightarrow> (jsval \<Rightarrow> string list) \<Rightarrow> apply_params \<Rightarrow> files \<Rightarrow> update_run" where
  "applyLintRatchetUpdate io jp lc glob issues p fs =
     (case gateCommittedBaseline jp lc glob p fs of
        Inl e \<Rightarrow> failed e []
      | Inr (decision, warnings) \<Rightarrow>
          (let currentText = (case fs_baseline fs of None \<Rightarrow> [] | Some s \<Rightarrow> s)
           in if currentText = ap_rendered p
              then \<lparr>ur_result = Inr False, ur_trace = [],
                    ur_messages = warnings @ [''lint:ratchet:update OK '' @ em_dash @ '' '' @ ec_baselineName (ap_context p)
                      @ '' already matches '' @ show_int (ap_currentFindingCount p) @ '' current finding(s).'']\<rparr>
              else (case appendValidatedDebtLogEntries issues (debtLogEntriesForUpdate decision (ap_options p)) (fs_debtLog fs) of
                      Inl message \<Rightarrow> failed (UpdConfig message) warnings
                    | Inr (appendedDebtLog, log) \<Rightarrow>
                        (case log_then_baseline io (ap_rendered p) fs appendedDebtLog log of
                           (Some m, trace) \<Rightarrow> \<lparr>ur_result = Inl (UpdIo m), ur_trace = trace, ur_messages = warnings\<rparr>
                         | (None, trace) \<Rightarrow>
                             (let recordedDebt = (appendedDebtLog \<and> updateIncludesAcceptedDebt decision (ap_options p));
                                  messages = warnings @ [written_message p recordedDebt]
                              in case reportUpdateClassification jp lc (ap_context p) currentText (ap_generated p) of
                                   Inl e \<Rightarrow> \<lparr>ur_result = Inl e, ur_trace = trace, ur_messages = messages\<rparr>
                                 | Inr lines \<Rightarrow> \<lparr>ur_result = Inr recordedDebt, ur_trace = trace,
                                                 ur_messages = messages @ lines @ lifecycle_messages p decision\<rparr>)))))"

text \<open>The files when the run is over.\<close>

definition final_files :: "files \<Rightarrow> update_run \<Rightarrow> files" where
  "final_files fs r = last (fs # ur_trace r)"

end
