(* ===== verification/RoundTrip.thy ===== *)
theory RoundTrip
  imports JsonParse BaselineLaws
begin

text \<open>
  The codec of the ratchet baseline: a baseline that is formatted and parsed again is the baseline
  in its stored form, with no failure and no warning. First each parser against the value its
  formatter writes, then the documents, then the texts.
\<close>

section \<open>What can be stored\<close>

definition safe_nat :: "int \<Rightarrow> bool" where
  "safe_nat i \<longleftrightarrow> 0 \<le> i \<and> i \<le> 9007199254740991"

definition storable_function :: "complexity_function \<Rightarrow> bool" where
  "storable_function f \<longleftrightarrow> safe_nat (cf_line f) \<and> cf_label f \<noteq> [] \<and> safe_nat (cf_complexity f)"

definition storable_item :: "metric_item \<Rightarrow> bool" where
  "storable_item i \<longleftrightarrow> safe_nat (mi_count i) \<and> opt_all safe_nat (mi_lines i) \<and>
     opt_all safe_nat (mi_maxComplexity i) \<and> opt_all (list_all storable_function) (mi_perFunction i) \<and>
     opt_all is_sha256 (mi_messagesFingerprint i)"

definition storable_meta :: "(string \<Rightarrow> jsval) \<Rightarrow> group_meta \<Rightarrow> bool" where
  "storable_meta dc m \<longleftrightarrow> is_baseline_rule_id (gm_ruleId m) \<and> is_sha256 (gm_configHash m) \<and>
     is_sha256 (gm_ruleSourceHash m) \<and> list_all (parseable dc) (gm_ruleOptions m)"

definition storable_group :: "(string \<Rightarrow> jsval) \<Rightarrow> string \<times> (group_meta, metric_item) group \<Rightarrow> bool" where
  "storable_group dc kg = (case kg of (k, g) \<Rightarrow>
     is_ratchet_id k \<and> storable_meta dc (grp_meta g) \<and> distinct (map fst (grp_items g)) \<and>
     list_all (\<lambda>(p, i). isNormalizedLintRatchetPath p \<and> storable_item i) (grp_items g))"

section \<open>Items\<close>

lemma non_negative_safe [simp]: "safe_nat i \<Longrightarrow> non_negative_field (Some (JInt i)) = Some i"
  by (simp add: non_negative_field_def safe_nat_def)

lemma parse_function:
  "storable_function f \<Longrightarrow> parseComplexityFunction (function_json f) path = (Some f, [])"
  by (simp add: parseComplexityFunction_def function_json_def storable_function_def
      parseComplexityFunctionLine_def parseComplexityFunctionLabel_def parseComplexityFunctionComplexity_def)

lemma parse_functions:
  "list_all storable_function fs \<Longrightarrow> complexity_functions_loop n path (map function_json fs) = (fs, [])"
  by (induction fs arbitrary: n) (simp_all add: parse_function)

lemma item_json_fields:
  fixes i
  defines "ms \<equiv> [(''count'', JInt (mi_count i))]
      @ opt_field ''lines'' JInt (mi_lines i)
      @ opt_field ''maxComplexity'' JInt (mi_maxComplexity i)
      @ opt_field ''perFunction'' (\<lambda>fs. JArr (map function_json fs)) (mi_perFunction i)
      @ opt_field ''messagesFingerprint'' JStr (mi_messagesFingerprint i)"
  shows "map_of ms ''count'' = Some (JInt (mi_count i))"
    and "map_of ms ''lines'' = map_option JInt (mi_lines i)"
    and "map_of ms ''maxComplexity'' = map_option JInt (mi_maxComplexity i)"
    and "map_of ms ''perFunction'' = map_option (\<lambda>fs. JArr (map function_json fs)) (mi_perFunction i)"
    and "map_of ms ''messagesFingerprint'' = map_option JStr (mi_messagesFingerprint i)"
  by (auto simp: ms_def opt_field_def split: option.splits)

lemma parse_item:
  assumes "storable_item i" and "isNormalizedLintRatchetPath p"
  shows "parseItem testId (Some p) (item_json i) = ParseOk (p, i) []"
proof -
  have "parseMetricFields ([(''count'', JInt (mi_count i))]
      @ opt_field ''lines'' JInt (mi_lines i)
      @ opt_field ''maxComplexity'' JInt (mi_maxComplexity i)
      @ opt_field ''perFunction'' (\<lambda>fs. JArr (map function_json fs)) (mi_perFunction i)
      @ opt_field ''messagesFingerprint'' JStr (mi_messagesFingerprint i)) path = (Some (i\<lparr>mi_count := 0\<rparr>), [])" for path
    using assms(1) unfolding parseMetricFields_def item_json_fields
    by (cases "mi_lines i"; cases "mi_maxComplexity i"; cases "mi_perFunction i"; cases "mi_messagesFingerprint i")
       (simp_all add: storable_item_def non_negative_field_def[of None] parseMessagesFingerprint_def sha_field_def
          parseComplexityFunctions_def parse_functions)
  moreover have "safe_nat (mi_count i)" using assms(1) by (simp add: storable_item_def)
  ultimately show ?thesis
    using assms(2) item_json_fields(1)[of i]
    by (simp add: parseItem_def parseLintRatchetBaselineItem_def item_json_def Let_def)
qed

lemma format_storable:
  assumes "storable_item i" shows "storable_item (formatItem lc m i)"
proof (cases m)
  case ComplexitySeverity
  show ?thesis
  proof (cases "mi_perFunction i")
    case None
    with ComplexitySeverity assms show ?thesis
      by (auto simp: formatItem.simps sortedComplexityFunctions_def storable_item_def count_item_def Let_def)
  next
    case (Some fs)
    have "safe_nat (Max (cf_complexity ` set fs))" if "fs \<noteq> []"
    proof -
      have "Max (cf_complexity ` set fs) \<in> cf_complexity ` set fs" using that by (intro Max_in) auto
      with assms Some show ?thesis by (auto simp: storable_item_def list_all_iff storable_function_def)
    qed
    with ComplexitySeverity assms Some show ?thesis
      by (auto simp: formatItem.simps sortedComplexityFunctions_def storable_item_def count_item_def Let_def
          maxComplexityFor_Max list_all_iff)
  qed
qed (use assms in \<open>auto simp: formatItem.simps storable_item_def count_item_def split: option.splits\<close>)

section \<open>Metadata\<close>

definition normal_meta :: "group_meta \<Rightarrow> group_meta" where
  "normal_meta m = m\<lparr>gm_files := normalizeStringList (gm_files m), gm_ignores := normalizeStringList (gm_ignores m),
     gm_ruleOptions := normalizeRuleOptions (gm_ruleOptions m)\<rparr>"

lemma formatGroupMeta_normal: "formatGroupMeta m = meta_members (normal_meta m)"
  by (simp add: formatGroupMeta_def normal_meta_def)

lemma parse_strings: "string_array_loop f (map JStr ss) = (Some ss, [])"
  by (induction ss) simp_all

lemma parseable_json: "parseable dc v \<Longrightarrow> isJsonValue v"
  by (induction v) (auto simp: list_all_iff)

lemma parseable_canonical: "parseable dc v \<Longrightarrow> parseable dc (canonicalValue v)"
proof (induction v)
  case (JObj kvs)
  have d: "map fst (map (\<lambda>(k, v). (k, canonicalValue v)) kvs) = map fst kvs" by (simp add: split_beta comp_def)
  have "distinct (map fst (key_sort codeUnitCompare (map (\<lambda>(k, v). (k, canonicalValue v)) kvs)))"
    using JObj.prems by (simp only: distinct_map_js_sort d) simp
  moreover have "parseable dc (canonicalValue v)" if "(k, v) \<in> set kvs" for k v
    using that JObj.IH[of "(k, v)" v] JObj.prems by (auto simp: list_all_iff)
  ultimately show ?case by (auto simp: list_all_iff)
qed (auto simp: list_all_iff)

lemma parse_options:
  "list_all (parseable dc) vs \<Longrightarrow> rule_options_loop (normalizeRuleOptions vs) = (Some (normalizeRuleOptions vs), [])"
  by (induction vs)
     (auto simp: normalizeRuleOptions_def normalize_eq_canonical canonical_idem parseable_json[OF parseable_canonical])

lemma parse_meta:
  assumes "is_ratchet_id k" and "storable_meta dc m"
  shows "parseLintRatchetGroupMeta k (AList.update ''items'' v (meta_members (normal_meta m))) = ParseOk (normal_meta m) []"
proof -
  let ?raw = "AList.update ''items'' v (meta_members (normal_meta m))"
  have f: "map_of ?raw x = (if x = ''items'' then Some v else map_of (meta_members (normal_meta m)) x)" for x
    by (simp add: update_conv')
  have mode: "gm_mode m = NoNew" by (cases "gm_mode m") simp
  have metric: "metric_of_json (Some (JStr (metric_name (gm_metric m)))) = Some (gm_metric m)"
    by (cases "gm_metric m") (simp_all add: metric_of_json_def)
  have opts: "rule_options_loop (normalizeRuleOptions (gm_ruleOptions m)) = (Some (normalizeRuleOptions (gm_ruleOptions m)), [])"
    using assms(2) parse_options[of dc] by (simp add: storable_meta_def)
  show ?thesis
    using assms mode metric opts
    by (simp add: parseLintRatchetGroupMeta_def parseGroupMetaParts_def parseRuleId_def parseMode_def parseMetric_def
        parseConfigHash_def parseRuleSourceHash_def parseStringArray_def parseRuleOptions_def f meta_members_def
        normal_meta_def storable_meta_def sha_field_def strings_json_def parse_strings completeGroupMeta_def
        fail_if_def)
qed

section \<open>Groups and documents\<close>

definition normal_group :: "string cmp \<Rightarrow> (group_meta, metric_item) group \<Rightarrow> (group_meta, metric_item) group" where
  "normal_group lc g = \<lparr>grp_meta = normal_meta (grp_meta g),
     grp_items = map (\<lambda>(p, i). (p, formatItem lc (gm_metric (grp_meta g)) i)) (key_sort compareByCodepoint (grp_items g))\<rparr>"

definition normal_baseline ::
    "string cmp \<Rightarrow> (group_meta, metric_item) grouped_baseline \<Rightarrow> (group_meta, metric_item) grouped_baseline" where
  "normal_baseline lc b = b\<lparr>gb_groups := map (\<lambda>(k, g). (k, normal_group lc g)) (key_sort compareByCodepoint (gb_groups b))\<rparr>"

lemma spec_parse [simp]:
  "gs_requireSortedKeysOnParse (lintRatchetBaselineSpec lc policy vocab bf) = False"
  "gs_parseItem (lintRatchetBaselineSpec lc policy vocab bf) = parseItem"
  "gs_parseGroupMeta (lintRatchetBaselineSpec lc policy vocab bf) k raw is = parseLintRatchetGroupMeta k raw"
  "gs_rootKey (lintRatchetBaselineSpec lc policy vocab bf) = TestsRoot"
  "gs_acceptedReadVersions (lintRatchetBaselineSpec lc policy vocab bf) = vp_acceptedVersions policy"
  "gs_compareGroupKeys (lintRatchetBaselineSpec lc policy vocab bf) = compareByCodepoint"
  "gs_compareItemKeys (lintRatchetBaselineSpec lc policy vocab bf) = compareByCodepoint"
  "gs_formatGroupMeta (lintRatchetBaselineSpec lc policy vocab bf) k m is r = formatGroupMeta m"
  "gs_formatItem (lintRatchetBaselineSpec lc policy vocab bf) k p i m = item_json (formatItem lc (gm_metric m) i)"
  "gs_preserveRegenerateOnFormat (lintRatchetBaselineSpec lc policy vocab bf) = True"
  by (simp_all add: lintRatchetBaselineSpec_def)

lemma parse_items:
  assumes "list_all (\<lambda>(p, i). isNormalizedLintRatchetPath p \<and> storable_item i) items"
  shows "parseObjectItems (lintRatchetBaselineSpec lc policy vocab bf) k prev (map (\<lambda>(p, i). (p, item_json i)) items)
    = \<lparr>oi_items = items, oi_warnings = [], oi_failures = []\<rparr>"
  using assms
proof (induction items arbitrary: prev)
  case Nil
  then show ?case by simp
next
  case (Cons x items)
  obtain p i where x: "x = (p, i)" by (cases x)
  from Cons x show ?case by (simp add: parse_item unsorted_def Let_def)
qed

lemma formatted_test:
  assumes "distinct (map fst (grp_items g))"
  shows "formattedGroupedTest (lintRatchetBaselineSpec lc policy vocab bf) k g =
    JObj (AList.update ''items'' (JObj (map (\<lambda>(p, i). (p, item_json i)) (grp_items (normal_group lc g))))
      (meta_members (normal_meta (grp_meta g))))"
proof -
  have d: "distinct (map fst (key_sort compareByCodepoint (grp_items g)))" using assms by simp
  have "map_from (map (\<lambda>(p, i). (p, item_json (formatItem lc (gm_metric (grp_meta g)) i))) (key_sort compareByCodepoint (grp_items g))) =
      map (\<lambda>(p, i). (p, item_json (formatItem lc (gm_metric (grp_meta g)) i))) (key_sort compareByCodepoint (grp_items g))"
    by (rule map_from_values[OF d])
  then show ?thesis
    by (simp add: formattedGroupedTest_def sortedGroupedItems_def formatGroupMeta_normal normal_group_def
        comp_def case_prod_unfold Let_def)
qed

lemma parse_group:
  assumes "storable_group dc (k, g)"
  shows "parseTestsLoop (lintRatchetBaselineSpec lc policy vocab bf) prev
      ((k, formattedGroupedTest (lintRatchetBaselineSpec lc policy vocab bf) k g) # rest) st =
    parseTestsLoop (lintRatchetBaselineSpec lc policy vocab bf) (Some k) rest
      (st\<lparr>ts_groups := AList.update k (normal_group lc g) (ts_groups st)\<rparr>)"
proof -
  let ?raw = "AList.update ''items'' (JObj (map (\<lambda>(p, i). (p, item_json i)) (grp_items (normal_group lc g)))) (meta_members (normal_meta (grp_meta g)))"
  have d: "distinct (map fst (grp_items g))" and r: "is_ratchet_id k" and m: "storable_meta dc (grp_meta g)"
    and i: "list_all (\<lambda>(p, i). isNormalizedLintRatchetPath p \<and> storable_item i) (grp_items g)"
    using assms by (auto simp: storable_group_def)
  have ok: "list_all (\<lambda>(p, i). isNormalizedLintRatchetPath p \<and> storable_item i) (grp_items (normal_group lc g))"
    using i by (auto simp: normal_group_def list_all_iff format_storable)
  have "distinct (map fst (grp_items (normal_group lc g)))"
    using d by (simp add: normal_group_def split_beta comp_def)
  then have mf: "map_from (grp_items (normal_group lc g)) = grp_items (normal_group lc g)" by simp
  have env: "group_envelope (JObj ?raw) = Some (?raw, map (\<lambda>(p, i). (p, item_json i)) (grp_items (normal_group lc g)))"
    by (simp add: group_envelope_def update_conv')
  have "\<lparr>grp_meta = normal_meta (grp_meta g), grp_items = grp_items (normal_group lc g)\<rparr> = normal_group lc g"
    by (simp add: normal_group_def)
  then show ?thesis
    unfolding formatted_test[OF d]
    by (simp add: env parse_items[OF ok] parse_meta[OF r m] mf unsorted_def Let_def)
qed

lemma parse_groups:
  assumes "list_all (storable_group dc) gs"
    and "distinct (map fst (ts_groups st @ gs))"
  shows "parseTestsLoop (lintRatchetBaselineSpec lc policy vocab bf) prev
      (map (\<lambda>(k, g). (k, formattedGroupedTest (lintRatchetBaselineSpec lc policy vocab bf) k g)) gs) st =
    st\<lparr>ts_groups := ts_groups st @ map (\<lambda>(k, g). (k, normal_group lc g)) gs\<rparr>"
  using assms
proof (induction gs arbitrary: prev st)
  case Nil
  then show ?case by simp
next
  case (Cons x gs)
  obtain k g where x: "x = (k, g)" by (cases x)
  have ok: "storable_group dc (k, g)" using Cons.prems(1) x by simp
  have "k \<notin> fst ` set (ts_groups st)" using Cons.prems(2) x by auto
  then have "AList.update k (normal_group lc g) (ts_groups st) = ts_groups st @ [(k, normal_group lc g)]"
    by (rule update_new_key)
  then show ?case
    using Cons.IH[of "st\<lparr>ts_groups := ts_groups st @ [(k, normal_group lc g)]\<rparr>" "Some k"] Cons.prems
    unfolding x by (simp only: list.map case_prod_conv parse_group[OF ok]) simp
qed

definition storable :: "(string \<Rightarrow> jsval) \<Rightarrow> version_policy \<Rightarrow> (group_meta, metric_item) grouped_baseline \<Rightarrow> bool" where
  "storable dc policy b \<longleftrightarrow> distinct (map fst (gb_groups b)) \<and> list_all (storable_group dc) (gb_groups b) \<and>
     gb_version b \<in> set (vp_acceptedVersions policy) \<and> \<bar>gb_version b\<bar> \<le> 9007199254740991 \<and>
     opt_all (parseable dc) (gb_regenerate b)"

lemma document_eq:
  assumes "distinct (map fst (gb_groups b))"
  shows "formatTestsDocument (lintRatchetBaselineSpec lc policy vocab bf) b =
    JObj ([(''version'', JInt (gb_version b))]
      @ (case gb_regenerate b of None \<Rightarrow> [] | Some r \<Rightarrow> [(''regenerate'', r)])
      @ [(''tests'', JObj (map (\<lambda>(k, g). (k, formattedGroupedTest (lintRatchetBaselineSpec lc policy vocab bf) k g))
            (key_sort compareByCodepoint (gb_groups b))))])"
proof -
  have d: "distinct (map fst (key_sort compareByCodepoint (gb_groups b)))" using assms by simp
  show ?thesis by (simp add: formatTestsDocument_def Let_def map_from_values[OF d])
qed

lemma value_roundtrip:
  fixes lc policy vocab bf
  defines "spec \<equiv> lintRatchetBaselineSpec lc policy vocab bf"
  assumes "storable dc policy b"
  shows "parseGroupedValue spec (formatTestsDocument spec b) =
    ParseOk (normal_baseline lc b)
      (collectRegenerateWarning spec (case gb_regenerate b of None \<Rightarrow> [] | Some r \<Rightarrow> [(''regenerate'', r)]))"
proof -
  let ?gs = "key_sort compareByCodepoint (gb_groups b)"
  have d: "distinct (map fst (gb_groups b))" using assms(2) by (simp add: storable_def)
  have "parseTestsLoop spec None (map (\<lambda>(k, g). (k, formattedGroupedTest spec k g)) ?gs) \<lparr>ts_groups = [], ts_warnings = [], ts_failures = []\<rparr>
      = \<lparr>ts_groups = map (\<lambda>(k, g). (k, normal_group lc g)) ?gs, ts_warnings = [], ts_failures = []\<rparr>"
    unfolding spec_def using assms(2)
    by (subst parse_groups[where dc = dc]) (simp_all add: storable_def list_all_iff)
  then show ?thesis
    using assms(2) unfolding spec_def document_eq[OF d]
    by (auto simp: parseGroupedValue_def checkedEnvelope_def storable_def safe_int_def root_shape_def Let_def
        parseTestsFamily_def normal_baseline_def collectRegenerateWarning_def split: option.splits)
qed

section \<open>Texts\<close>

lemma parseable_item: "storable_item i \<Longrightarrow> parseable dc (item_json i)"
proof -
  assume s: "storable_item i"
  have "parseable dc (function_json f)" if "storable_function f" for f
    using that by (simp add: function_json_def storable_function_def safe_nat_def)
  with s show ?thesis
    by (auto simp: item_json_def opt_field_def storable_item_def safe_nat_def list_all_iff split: option.splits)
qed

lemma parseable_strings [simp]: "parseable dc (strings_json ss)"
  by (simp add: strings_json_def list_all_iff)

lemma parseable_meta:
  "storable_meta dc m \<Longrightarrow> list_all (\<lambda>(k, v). parseable dc v) (meta_members (normal_meta m))"
  by (auto simp: meta_members_def normal_meta_def storable_meta_def normalizeRuleOptions_def list_all_iff
      normalize_eq_canonical parseable_canonical)

lemma parseable_update:
  "list_all (\<lambda>(k, v). parseable dc v) kvs \<Longrightarrow> parseable dc v \<Longrightarrow> list_all (\<lambda>(k, v). parseable dc v) (AList.update k v kvs)"
  by (induction kvs) auto

lemma parseable_group:
  assumes "storable_group dc (k, g)"
  shows "parseable dc (formattedGroupedTest (lintRatchetBaselineSpec lc policy vocab bf) k g)"
proof -
  have d: "distinct (map fst (grp_items g))" and m: "storable_meta dc (grp_meta g)"
    and i: "list_all (\<lambda>(p, i). isNormalizedLintRatchetPath p \<and> storable_item i) (grp_items g)"
    using assms by (auto simp: storable_group_def)
  have "distinct (map fst (grp_items (normal_group lc g)))"
    using d by (simp only: normal_group_def group.select_convs map_fst_values) simp
  then have "parseable dc (JObj (map (\<lambda>(p, i). (p, item_json i)) (grp_items (normal_group lc g))))"
    using i by (simp only: parseable.simps map_fst_values)
      (auto simp: normal_group_def list_all_iff format_storable intro!: parseable_item)
  then show ?thesis
    unfolding formatted_test[OF d] by (simp add: distinct_update parseable_update parseable_meta[OF m])
qed

lemma parseable_document:
  assumes "storable dc policy b"
  shows "parseable dc (formatTestsDocument (lintRatchetBaselineSpec lc policy vocab bf) b)"
proof -
  have d: "distinct (map fst (gb_groups b))" using assms by (simp add: storable_def)
  have "parseable dc (JObj (map (\<lambda>(k, g). (k, formattedGroupedTest (lintRatchetBaselineSpec lc policy vocab bf) k g))
      (key_sort compareByCodepoint (gb_groups b))))"
    using assms d by (simp only: parseable.simps map_fst_values) (auto simp: storable_def list_all_iff intro!: parseable_group)
  then show ?thesis
    using assms unfolding document_eq[OF d] by (auto simp: storable_def split: option.splits)
qed

lemma roundtrip_base:
  fixes lc policy vocab bf
  defines "spec \<equiv> lintRatchetBaselineSpec lc policy vocab bf"
  assumes "storable dc policy b" and "gb_regenerate b = map_option JStr (gs_regenerate spec)"
  shows "\<exists>txt. formatGroupedBaseline spec b = Inr txt \<and>
    parseGroupedBaseline (JSON_parse dc msg) spec txt = ParseOk (normal_baseline lc b) []"
proof -
  have "JSON_parse dc msg (stringify2 (formatTestsDocument spec b) @ [CHR 0x0A]) = Inr (formatTestsDocument spec b)"
    using json_parse_print[OF parseable_document[OF assms(2)], of "''  ''" "[]" "[CHR 0x0A]" lc vocab bf]
    by (simp add: JSON_parse_def stringify2_def spec_def delim_def)
  moreover have "collectRegenerateWarning spec (case gb_regenerate b of None \<Rightarrow> [] | Some r \<Rightarrow> [(''regenerate'', r)]) = []"
    using assms(3) by (auto simp: collectRegenerateWarning_def split: option.splits)
  ultimately show ?thesis
    using value_roundtrip[OF assms(2), of lc vocab bf]
    by (simp add: formatGroupedBaseline_def parseGroupedBaseline_def parseJson_def spec_def)
qed

text \<open>
  C15: a baseline that is formatted and read back is the baseline in its stored form (groups, items
  and lists sorted, each item reduced to the fields of its metric); the parser reports no failure,
  and no warning when the regenerate command is the current one.
\<close>

theorem baseline_roundtrip:
  fixes lc policy vocab bf
  defines "spec \<equiv> lintRatchetBaselineSpec lc policy vocab bf"
  assumes "storable dc policy b" and "gb_regenerate b = map_option JStr (gs_regenerate spec)"
  shows "\<exists>txt. formatGroupedBaseline spec b = Inr txt \<and>
    parseGroupedBaseline (JSON_parse dc msg) spec txt = ParseOk (normal_baseline lc b) []"
  unfolding spec_def using assms(2,3)[unfolded spec_def] by (rule roundtrip_base)

definition stored_sample :: "(group_meta, metric_item) grouped_baseline" where
  "stored_sample = (let h = ''sha256:'' @ replicate 64 (CHR ''a'') in
     \<lparr>gb_version = 2, gb_regenerate = Some (JStr ''u''),
      gb_groups = [(''ratchet/b'', \<lparr>grp_meta = (sample_meta ''no-console'' MessageCount)\<lparr>gm_configHash := h, gm_ruleSourceHash := h\<rparr>,
        grp_items = [(''src/b.ts'', count_item 2), (''src/a.ts'', count_item 1)]\<rparr>)]\<rparr>)"

theorem baseline_roundtrip_witness:
  "\<exists>txt. formatGroupedBaseline (lintRatchetBaselineSpec codeUnitCompare default_version_policy sample_vocab ''b'') stored_sample = Inr txt \<and>
     parseGroupedBaseline (JSON_parse JDec id) (lintRatchetBaselineSpec codeUnitCompare default_version_policy sample_vocab ''b'') txt =
       ParseOk (normal_baseline codeUnitCompare stored_sample) []"
  by (rule baseline_roundtrip) code_simp+

end
