(* ===== verification/DebtLogLaws.thy ===== *)
theory DebtLogLaws
  imports DebtLog RoundTrip "HOL-Library.Sublist"
begin

text \<open>
  Properties of the debt log: a built entry satisfies the schema it is read with, an appended batch
  is read back as it was built, appending only extends the file, and appending the same batch
  again changes nothing.
\<close>

section \<open>Entries that the schema accepts\<close>

definition regression_ok :: "regression \<Rightarrow> bool" where
  "regression_ok d \<longleftrightarrow> min1 (dl_testId d) \<and> min1 (dl_ruleId d) \<and> normalized_path (dl_path d) \<and>
     safe_nat (dl_baselineCount d) \<and> safe_nat (dl_currentCount d) \<and> opt_all safe_nat (dl_baselineLines d) \<and>
     opt_all safe_nat (dl_currentLines d) \<and> opt_all safe_nat (dl_baselineComplexity d) \<and>
     opt_all safe_nat (dl_currentComplexity d) \<and> opt_all safe_nat (dl_line d) \<and>
     dl_firstMessage d = None \<and> dl_firstMessageId d = None \<and> validateRegressionShape d = []"

definition orphan_ok :: "orphan_removal \<Rightarrow> bool" where
  "orphan_ok r \<longleftrightarrow> min1 (or_testId r) \<and> min1 (or_ruleId r) \<and>
     list_all (\<lambda>(p, i). normalized_path p \<and> storable_item i \<and> validateItem [] (or_metric r) i = []) (or_baselineItems r)"

fun entry_ok :: "(string \<Rightarrow> jsval) \<Rightarrow> debt_entry \<Rightarrow> bool" where
  "entry_ok dc (AcceptedDebt reason regressions orphans) \<longleftrightarrow> acceptance_reason reason \<and>
     list_all regression_ok regressions \<and> list_all orphan_ok orphans \<and> (regressions \<noteq> [] \<or> orphans \<noteq> [])"
| "entry_ok dc (Retirement ratchetId attestation) \<longleftrightarrow> non_blank ratchetId \<and>
     opt_all (\<lambda>a. non_blank (at_reason a) \<and> list_all (parseable dc) (at_ratchetOptions a) \<and>
       list_all (list_all (parseable dc)) (at_normalLintOptions a)) attestation"
| "entry_ok dc (MetricMigration ratchetId f t reason) \<longleftrightarrow> non_blank ratchetId \<and> non_blank reason \<and> f \<noteq> t"
| "entry_ok dc (CoverageShrink s) \<longleftrightarrow> min1 (se_ratchetId s) \<and> list_all min1 (se_previousFiles s) \<and>
     list_all min1 (se_currentFiles s) \<and> list_all min1 (se_previousIgnores s) \<and> list_all min1 (se_currentIgnores s) \<and>
     list_all min1 (se_removedPaths s) \<and> se_removedPaths s \<noteq> [] \<and> shrink_reason (se_reason s)"

declare nonNegativeInt.simps [simp del]

lemma nonNegativeInt_safe [simp]: "safe_nat i \<Longrightarrow> nonNegativeInt (JInt i) = Some i"
  by (simp add: safe_nat_def safe_int_def nonNegativeInt.simps)

lemma optional_int [simp]: "opt_all safe_nat v \<Longrightarrow> zod_optional nonNegativeInt (map_option JInt v) = Some v"
  by (cases v) (simp_all add: zod_optional_def)

lemma reason_of_name [simp]: "reason_of (JStr (reason_name r)) = Some r"
  by (cases r) (simp_all add: reason_of_def)

lemma metricEnum_name [simp]: "metricEnum (JStr (metric_name m)) = Some m"
  by (cases m) (simp_all add: metricEnum_def)

lemma those_map: "(\<And>x. x \<in> set xs \<Longrightarrow> p (f x) = Some x) \<Longrightarrow> those (map p (map f xs)) = Some xs"
  by (induction xs) auto

lemma array_map: "(\<And>x. x \<in> set xs \<Longrightarrow> p (f x) = Some x) \<Longrightarrow> zod_array p (JArr (map f xs)) = Some xs"
  using those_map[of xs p f] by simp

lemma read_regression:
  assumes "regression_ok d" shows "debtLogRegressionSchema (regression_json d) = Some d"
proof -
  let ?ms = "[(''testId'', JStr (dl_testId d)), (''ruleId'', JStr (dl_ruleId d)), (''path'', JStr (dl_path d)),
       (''baselineCount'', JInt (dl_baselineCount d)), (''currentCount'', JInt (dl_currentCount d)),
       (''reason'', JStr (reason_name (dl_reason d)))]
      @ opt_field ''baselineLines'' JInt (dl_baselineLines d)
      @ opt_field ''currentLines'' JInt (dl_currentLines d)
      @ opt_field ''baselineComplexity'' JInt (dl_baselineComplexity d)
      @ opt_field ''currentComplexity'' JInt (dl_currentComplexity d)
      @ opt_field ''line'' JInt (dl_line d)"
  have f: "map_of ?ms ''baselineLines'' = map_option JInt (dl_baselineLines d)"
    "map_of ?ms ''currentLines'' = map_option JInt (dl_currentLines d)"
    "map_of ?ms ''baselineComplexity'' = map_option JInt (dl_baselineComplexity d)"
    "map_of ?ms ''currentComplexity'' = map_option JInt (dl_currentComplexity d)"
    "map_of ?ms ''line'' = map_option JInt (dl_line d)"
    by (auto simp: opt_field_def split: option.splits)
  have g: "map_of ?ms ''testId'' = Some (JStr (dl_testId d))" "map_of ?ms ''ruleId'' = Some (JStr (dl_ruleId d))"
    "map_of ?ms ''path'' = Some (JStr (dl_path d))" "map_of ?ms ''baselineCount'' = Some (JInt (dl_baselineCount d))"
    "map_of ?ms ''currentCount'' = Some (JInt (dl_currentCount d))"
    "map_of ?ms ''reason'' = Some (JStr (reason_name (dl_reason d)))"
    by simp_all
  have strict: "strict_object [''testId'', ''ruleId'', ''path'', ''baselineCount'', ''currentCount'', ''baselineLines'',
             ''currentLines'', ''baselineComplexity'', ''currentComplexity'', ''line'', ''reason''] (JObj ?ms) = Some ?ms"
    by (auto simp: strict_object_def opt_field_def split: option.splits)
  have d: "\<lparr>dl_testId = dl_testId d, dl_ruleId = dl_ruleId d, dl_path = dl_path d, dl_baselineCount = dl_baselineCount d,
       dl_currentCount = dl_currentCount d, dl_baselineLines = dl_baselineLines d, dl_currentLines = dl_currentLines d,
       dl_baselineComplexity = dl_baselineComplexity d, dl_currentComplexity = dl_currentComplexity d,
       dl_line = dl_line d, dl_firstMessage = None, dl_firstMessageId = None, dl_reason = dl_reason d\<rparr> = d"
    using assms by (cases d) (simp add: regression_ok_def)
  show ?thesis
    using assms unfolding debtLogRegressionSchema_def regression_json_def strict bind.bind_lunit f g
    by (simp add: regression_ok_def zod_required_def Let_def d)
qed

lemma read_function: "storable_function f \<Longrightarrow> complexityFunctionSchema (function_json f) = Some f"
  by (simp add: complexityFunctionSchema_def function_json_def strict_object_def storable_function_def zod_required_def min1_def)

lemma read_item:
  assumes "normalized_path p" and "storable_item i"
  shows "orphanBaselineItemSchema (orphan_item_json (p, i)) = Some (p, i)"
proof -
  let ?is = "[(''count'', JInt (mi_count i))]
      @ opt_field ''lines'' JInt (mi_lines i)
      @ opt_field ''maxComplexity'' JInt (mi_maxComplexity i)
      @ opt_field ''perFunction'' (\<lambda>fs. JArr (map function_json fs)) (mi_perFunction i)
      @ opt_field ''messagesFingerprint'' JStr (mi_messagesFingerprint i)"
  have m: "map_of ((''path'', JStr p) # ?is) x = (if x = ''path'' then Some (JStr p) else map_of ?is x)" for x by simp
  have strict: "strict_object [''path'', ''count'', ''lines'', ''maxComplexity'', ''perFunction'', ''messagesFingerprint'']
      (JObj ((''path'', JStr p) # ?is)) = Some ((''path'', JStr p) # ?is)"
    by (auto simp: strict_object_def opt_field_def split: option.splits)
  have fs: "zod_optional (zod_array complexityFunctionSchema) (map_option (\<lambda>fs. JArr (map function_json fs)) (mi_perFunction i))
      = Some (mi_perFunction i)"
  proof (cases "mi_perFunction i")
    case (Some fs)
    have "zod_array complexityFunctionSchema (JArr (map function_json fs)) = Some fs"
      using assms(2) Some by (intro array_map) (auto simp: storable_item_def list_all_iff read_function)
    with Some show ?thesis by (simp add: zod_optional_def)
  qed (simp add: zod_optional_def)
  have sha: "zod_optional (zod_string is_sha256) (map_option JStr (mi_messagesFingerprint i)) = Some (mi_messagesFingerprint i)"
    using assms(2) by (cases "mi_messagesFingerprint i") (simp_all add: zod_optional_def storable_item_def)
  have j: "orphan_item_json (p, i) = JObj ((''path'', JStr p) # ?is)"
    by (simp add: orphan_item_json_def item_json_def)
  show ?thesis
    using assms
    unfolding j orphanBaselineItemSchema_def strict bind.bind_lunit m
    by (simp only: item_json_fields) (simp add: zod_required_def storable_item_def fs sha)
qed

lemma index_failures_Nil:
  "index_failures n m is = [] \<longleftrightarrow> list_all (\<lambda>(_, i). validateItem [] m i = []) is"
proof (induction "is" arbitrary: n)
  case Nil
  then show ?case by simp
next
  case (Cons x "is")
  obtain p i where x: "x = (p, i)" by (cases x)
  have q: "validateItem q m i = [] \<longleftrightarrow> validateItem [] m i = []" for q
    by (cases m) (auto split: option.splits)
  show ?case
    unfolding x index_failures.simps append_is_Nil_conv map_is_Nil_conv q[of "''baselineItems['' @ show_nat n @ '']''"]
    by (simp add: Cons.IH)
qed

lemma read_orphan:
  assumes "orphan_ok r" shows "debtLogOrphanRemovalSchema (orphan_json r) = Some r"
proof -
  have "zod_array orphanBaselineItemSchema (JArr (map orphan_item_json (or_baselineItems r))) = Some (or_baselineItems r)"
    using assms by (intro array_map) (auto simp: orphan_ok_def list_all_iff read_item)
  moreover have "index_failures 0 (or_metric r) (or_baselineItems r) = []"
    using assms unfolding index_failures_Nil by (auto simp: orphan_ok_def list_all_iff)
  ultimately show ?thesis
    using assms by (simp add: debtLogOrphanRemovalSchema_def orphan_json_def strict_object_def zod_required_def orphan_ok_def)
qed

lemma read_strings [simp]: "list_all min1 ss \<Longrightarrow> nonEmptyStringArray (strings_json ss) = Some ss"
  unfolding nonEmptyStringArray_def strings_json_def by (rule array_map) (simp add: list_all_iff)

lemma read_options: "list_all (parseable dc) vs \<Longrightarrow> zod_array jsonValue (JArr vs) = Some vs"
  by (induction vs) (auto simp: jsonValue_def parseable_json)

lemma read_attestation:
  assumes "non_blank (at_reason a)" "list_all (parseable dc) (at_ratchetOptions a)"
    "list_all (list_all (parseable dc)) (at_normalLintOptions a)"
  shows "optionsAttestationSchema (attestation_json a) = Some a"
proof -
  have "zod_array (zod_array jsonValue) (JArr (map JArr (at_normalLintOptions a))) = Some (at_normalLintOptions a)"
    using assms(3) by (intro array_map read_options) (auto simp: list_all_iff)
  with assms(1) read_options[OF assms(2)] show ?thesis
    by (simp add: optionsAttestationSchema_def attestation_json_def strict_object_def zod_required_def)
qed

lemma read_entry:
  assumes "entry_ok dc e"
  shows "parseLintRatchetDebtLogEntry issues (entry_json e) = \<lparr>pe_entry = Some e, pe_failures = []\<rparr>"
proof (cases e)
  case (AcceptedDebt reason regressions orphans)
  have "zod_array debtLogRegressionSchema (JArr (map regression_json regressions)) = Some regressions"
    "zod_array debtLogOrphanRemovalSchema (JArr (map orphan_json orphans)) = Some orphans"
    using assms AcceptedDebt by (auto intro!: array_map simp: list_all_iff read_regression read_orphan simp del: zod_array.simps)
  with assms AcceptedDebt show ?thesis
    by (simp add: parseLintRatchetDebtLogEntry_def acceptedEntrySchema_def accepted_entry_def strict_object_def
        zod_literal_def zod_required_def toParsed_def)
next
  case (Retirement ratchetId attestation)
  have a: "zod_optional optionsAttestationSchema (map_option attestation_json attestation) = Some attestation"
    using assms Retirement read_attestation[of _ dc] by (cases attestation) (simp_all add: zod_optional_def)
  show ?thesis
    using assms Retirement a
    by (cases attestation) (simp_all add: parseLintRatchetDebtLogEntry_def retirementEntrySchema_def strict_object_def
        zod_literal_def zod_required_def toParsed_def opt_field_def)
next
  case (MetricMigration ratchetId f t reason)
  with assms show ?thesis
    by (simp add: parseLintRatchetDebtLogEntry_def metricMigrationEntrySchema_def strict_object_def
        zod_literal_def zod_required_def toParsed_def)
next
  case (CoverageShrink s)
  with assms show ?thesis
    by (simp add: parseLintRatchetDebtLogEntry_def coverageShrinkLogEntrySchema_def strict_object_def
        zod_literal_def zod_required_def toParsed_def)
qed

section \<open>Lines\<close>

lemma parseable_opt: "opt_all safe_nat v \<Longrightarrow> list_all (\<lambda>(k, v). parseable dc v) (opt_field k JInt v)"
  by (cases v) (simp_all add: opt_field_def safe_nat_def)

lemma parseable_regression: "regression_ok d \<Longrightarrow> parseable dc (regression_json d)"
proof -
  assume "regression_ok d"
  moreover have keys: "map fst (opt_field k JInt v) = (case v of None \<Rightarrow> [] | Some _ \<Rightarrow> [k])" for k v
    by (cases v) (simp_all add: opt_field_def)
  ultimately show ?thesis
    by (simp add: regression_json_def regression_ok_def parseable_opt keys safe_nat_def split: option.split)
qed

lemma parseable_orphan_item: "storable_item i \<Longrightarrow> parseable dc (orphan_item_json (p, i))"
  using parseable_item[of i dc] by (auto simp: orphan_item_json_def item_json_def opt_field_def split: option.splits)

lemma parseable_entry:
  assumes "entry_ok dc e" shows "parseable dc (entry_json e)"
proof (cases e)
  case (AcceptedDebt reason regressions orphans)
  have "parseable dc (orphan_json r)" if "orphan_ok r" for r
    using that by (auto simp: orphan_json_def orphan_ok_def list_all_iff parseable_orphan_item)
  with AcceptedDebt assms show ?thesis by (auto simp: list_all_iff parseable_regression)
next
  case (Retirement ratchetId attestation)
  with assms show ?thesis by (cases attestation) (auto simp: opt_field_def attestation_json_def list_all_iff)
qed (use assms in auto)

definition visible :: "string \<Rightarrow> bool" where
  "visible s \<longleftrightarrow> list_all (\<lambda>c. 32 \<le> (of_char c :: nat)) s"

lemma visible_simps [simp]:
  "visible []" "visible (c # s) \<longleftrightarrow> 32 \<le> (of_char c :: nat) \<and> visible s" "visible (s @ t) \<longleftrightarrow> visible s \<and> visible t"
  by (simp_all add: visible_def)

lemma visible_join: "visible sep \<Longrightarrow> list_all visible xs \<Longrightarrow> visible (js_join sep xs)"
  by (induction sep xs rule: js_join.induct) auto

lemma visible_num: "list_all is_num_char s \<Longrightarrow> visible s"
proof (induction s)
  case (Cons c s)
  have "32 \<le> (of_char c :: nat)" if "is_num_char c"
  proof (cases "is_digit c")
    case True
    then show ?thesis by (auto simp: is_digit_def Let_def)
  next
    case False
    with that show ?thesis by (auto simp: is_num_char_def)
  qed
  with Cons show ?case by simp
qed simp

lemma visible_quote: "visible (js_quote s)"
proof -
  have h: "32 \<le> (of_char (hex_digit n) :: nat)" if "n < 16" for n
    using that by (auto simp: hex_digit_def of_char_of)
  have "visible (esc_char c)" for c
    using h[of "of_char c div 16"] h[of "of_char c mod 16"] by (auto simp: esc_char_def short_escape_def Let_def)
  then have "visible (quote_body s)"
    by (induction s) (simp_all add: quote_body_def)
  then show ?thesis by (simp add: js_quote_def)
qed

lemma visible_stringify: "parseable dc v \<Longrightarrow> visible (js_print [] ind v)"
proof (induction v arbitrary: ind)
  case (JArr vs)
  then show ?case
    by (auto simp: js_print.simps seq_open_def seq_sep_def seq_close_def list_all_iff intro!: visible_join)
next
  case (JObj kvs)
  have "visible (js_print [] ind v)" if "(k, v) \<in> set kvs" for k v ind
    using that JObj.IH[of "(k, v)" v] JObj.prems by (auto simp: list_all_iff)
  then show ?case
    by (auto simp: js_print.simps seq_open_def seq_sep_def seq_close_def key_colon_def list_all_iff visible_quote
        intro!: visible_join)
qed (auto simp: js_print.simps visible_quote dec_text_def intro!: visible_num show_int_num)

lemma stringify_line:
  assumes "parseable dc v"
  shows "CHR 0x0A \<notin> set (stringify v)" "drop_cr (stringify v) = stringify v" "stringify v \<noteq> []"
proof -
  have v: "visible (stringify v)" using visible_stringify[OF assms] by (simp add: stringify_def)
  then show "CHR 0x0A \<notin> set (stringify v)" by (auto simp: visible_def list_all_iff)
  have "CHR 0x0D \<notin> set (stringify v)" using v by (auto simp: visible_def list_all_iff)
  then show "drop_cr (stringify v) = stringify v" unfolding drop_cr_def by (metis last_in_set)
  show "stringify v \<noteq> []" using print_not_Nil[OF assms] by (simp add: stringify_def)
qed

text \<open>The lines of a log whose last line is terminated.\<close>

definition terminated :: "string \<Rightarrow> bool" where
  "terminated s \<longleftrightarrow> s = [] \<or> last s = CHR 0x0A"

lemma lines_terminated: "debtLogLines (s @ [CHR 0x0A]) = map drop_cr (js_split (CHR 0x0A) s)"
  by (simp add: debtLogLines_def split_lines_def split_append[of _ _ "[]", simplified] butlast_append)

lemma lines_append:
  assumes "terminated s" and "t = u @ [CHR 0x0A]"
  shows "debtLogLines (s @ t) = debtLogLines s @ debtLogLines t"
proof (cases "s = []")
  case True
  then show ?thesis by (simp add: debtLogLines_def)
next
  case False
  then obtain r where r: "s = r @ [CHR 0x0A]"
    using assms(1) by (metis append_butlast_last_id terminated_def)
  have "s @ t = (r @ CHR 0x0A # u) @ [CHR 0x0A]" by (simp add: r assms(2))
  then have "debtLogLines (s @ t) = map drop_cr (js_split (CHR 0x0A) r @ js_split (CHR 0x0A) u)"
    by (simp only: lines_terminated split_append)
  then show ?thesis by (simp add: r assms(2) lines_terminated)
qed

lemma parse_lines_append:
  "parse_lines jp issues label n xs = Inr a \<Longrightarrow> parse_lines jp issues label (n + length xs) ys = Inr b \<Longrightarrow>
     parse_lines jp issues label n (xs @ ys) = Inr (a @ b)"
  by (induction xs arbitrary: n a) (auto split: sum.splits)

lemma parse_entry_lines:
  "list_all (entry_ok dc) es \<Longrightarrow>
     parse_lines (JSON_parse dc msg) issues label n (map (\<lambda>e. stringify (entry_json e)) es) = Inr es"
proof (induction es arbitrary: n)
  case Nil
  then show ?case by simp
next
  case (Cons e es)
  then have e: "entry_ok dc e" by simp
  have "JSON_parse dc msg (stringify (entry_json e)) = Inr (entry_json e)"
    using json_parse_print[OF parseable_entry[OF e], of "[]" "[]" "[]"] by (simp add: JSON_parse_def stringify_def delim_def)
  with Cons show ?case by (simp add: parseDebtLogJsonlLine_def read_entry[OF e])
qed

lemma batch_lines:
  assumes "list_all (entry_ok dc) es" and "es \<noteq> []"
  shows "debtLogLines (log_batch es) = map (\<lambda>e. stringify (entry_json e)) es"
proof -
  let ?ls = "map (\<lambda>e. stringify (entry_json e)) es"
  have "js_split (CHR 0x0A) (js_join [CHR 0x0A] ?ls) = ?ls"
    using assms by (intro split_joined) (auto simp: list_all_iff dest!: parseable_entry stringify_line(1))
  then have "debtLogLines (log_batch es) = map drop_cr ?ls"
    by (simp add: log_batch_def lines_terminated)
  also have "\<dots> = ?ls"
    using assms(1) by (auto simp: list_all_iff intro!: stringify_line(2) parseable_entry)
  finally show ?thesis .
qed

section \<open>Properties\<close>

lemma ends_with_suffix: "ends_with s t \<longleftrightarrow> suffix t s"
proof
  assume "ends_with s t"
  then show "suffix t s" unfolding ends_with_def by (metis suffix_drop)
next
  assume "suffix t s"
  then show "ends_with s t" by (auto simp: suffix_def ends_with_def)
qed

text \<open>
  C22: entries that are appended to a log are read back exactly: the log then parses to the old
  entries followed by the new ones, in order, and it still ends with a line break.
\<close>

theorem append_reads_back:
  assumes "terminated old" and "parseDebtLogJsonl (JSON_parse dc msg) issues old label = Inr before"
    and "list_all (entry_ok dc) es"
    and "appendValidatedDebtLogEntries issues es (Some old) = Inr (True, Some log)"
  shows "parseDebtLogJsonl (JSON_parse dc msg) issues log label = Inr (before @ es) \<and> terminated log"
proof -
  have es: "es \<noteq> []" using assms(4) by (auto simp: appendValidatedDebtLogEntries_def)
  have "old \<noteq> [] \<Longrightarrow> ends_with old [CHR 0x0A]"
    using assms(1) unfolding terminated_def ends_with_suffix suffix_def by (metis append_butlast_last_id)
  then have log: "log = old @ log_batch es"
    using assms(4) es by (auto simp: appendValidatedDebtLogEntries_def Let_def split: option.splits if_splits)
  obtain u where u: "log_batch es = u @ [CHR 0x0A]" by (simp add: log_batch_def)
  have "debtLogLines log = debtLogLines old @ map (\<lambda>e. stringify (entry_json e)) es"
    unfolding log using lines_append[OF assms(1) u] batch_lines[OF assms(3) es] by simp
  then have "parseDebtLogJsonl (JSON_parse dc msg) issues log label = Inr (before @ es)"
    using parse_lines_append[OF assms(2)[unfolded parseDebtLogJsonl_def] parse_entry_lines[OF assms(3)]]
    by (simp add: parseDebtLogJsonl_def)
  then show ?thesis by (simp add: log u terminated_def)
qed

definition sample_shrink :: debt_entry where
  "sample_shrink = CoverageShrink \<lparr>se_ratchetId = ''count.any'', se_previousFiles = [''src/*.ts''],
     se_currentFiles = [''src/*.ts''], se_previousIgnores = [], se_currentIgnores = [''src/b.ts''],
     se_removedPaths = [''src/b.ts''], se_reason = ''the generated client moved out''\<rparr>"

definition sample_migration :: debt_entry where
  "sample_migration = MetricMigration ''count.any'' MessageCount EffectiveLineCount ''lines bound the file''"

theorem append_reads_back_witness:
  "parseDebtLogJsonl (JSON_parse (\<lambda>_. JNull) id) (\<lambda>_. []) (log_batch [sample_migration, sample_shrink]) ''log''
     = Inr ([sample_migration] @ [sample_shrink]) \<and> terminated (log_batch [sample_migration, sample_shrink])"
proof (rule append_reads_back[of "log_batch [sample_migration]" _ _ _ _ _ "[sample_shrink]"])
  show "terminated (log_batch [sample_migration])" by (simp add: terminated_def log_batch_def)
  show "list_all (entry_ok (\<lambda>_. JNull)) [sample_shrink]" by code_simp
  show "parseDebtLogJsonl (JSON_parse (\<lambda>_. JNull) id) (\<lambda>_. []) (log_batch [sample_migration]) ''log''
      = Inr [sample_migration]" by code_simp
  show "appendValidatedDebtLogEntries (\<lambda>_. []) [sample_shrink] (Some (log_batch [sample_migration]))
      = Inr (True, Some (log_batch [sample_migration, sample_shrink]))" by code_simp
qed

lemma append_retry_base:
  "appendValidatedDebtLogEntries issues es old = Inr (written, log) \<Longrightarrow>
     appendValidatedDebtLogEntries issues es log = Inr (False, log)"
  by (auto simp: appendValidatedDebtLogEntries_def Let_def ends_with_suffix suffix_def split: option.splits if_splits)

text \<open>
  Appending is safe to retry: when the same entries are appended to the log that an append
  returned, nothing is written and the log stays as it is.
\<close>

theorem append_retry:
  assumes "appendValidatedDebtLogEntries issues es old = Inr (written, log)"
  shows "appendValidatedDebtLogEntries issues es log = Inr (False, log)"
  using assms by (rule append_retry_base)

lemma append_only_base:
  "case appendValidatedDebtLogEntries issues es old of
     Inl message \<Rightarrow> es \<noteq> [] \<and> check_entries issues es = Some message
   | Inr (written, log) \<Rightarrow>
       (if es = [] then \<not> written \<and> log = old
        else \<exists>new. log = Some new \<and> prefix (case old of None \<Rightarrow> [] | Some s \<Rightarrow> s) new \<and>
               suffix (log_batch es) new \<and> (written \<longleftrightarrow> log \<noteq> old) \<and> check_entries issues es = None)"
proof -
  have ne: "log_batch es \<noteq> []" by (simp add: log_batch_def)
  show ?thesis
    using ne by (auto simp: appendValidatedDebtLogEntries_def Let_def ends_with_suffix suffix_def prefix_def split: option.splits)
qed

text \<open>
  The log is append-only: an append that succeeds keeps everything the log held as a prefix,
  and leaves the lines of the new entries at its end; an invalid entry refuses the whole batch.
\<close>

theorem append_only:
  "case appendValidatedDebtLogEntries issues es old of
     Inl message \<Rightarrow> es \<noteq> [] \<and> check_entries issues es = Some message
   | Inr (written, log) \<Rightarrow>
       (if es = [] then \<not> written \<and> log = old
        else \<exists>new. log = Some new \<and> prefix (case old of None \<Rightarrow> [] | Some s \<Rightarrow> s) new \<and>
               suffix (log_batch es) new \<and> (written \<longleftrightarrow> log \<noteq> old) \<and> check_entries issues es = None)"
  by (rule append_only_base)

end
