(* ===== verification/GroupCompare.thy ===== *)
theory GroupCompare
  imports GroupBaseline
begin

text \<open>
  What the grouped comparison computes: the list of the items it visits, the classes it sorts them
  into, and its status in terms of the two documents. The statuses are ordered by severity, so that
  a gate's status is the largest among its keys.
\<close>

section \<open>Statuses by severity\<close>

instantiation compare_status :: linorder
begin

fun severity :: "compare_status \<Rightarrow> nat" where
  "severity StatusOk = 0"
| "severity StatusImproved = 1"
| "severity StatusRegressed = 2"

definition less_eq_compare_status :: "compare_status \<Rightarrow> compare_status \<Rightarrow> bool" where
  "less_eq_compare_status a b \<longleftrightarrow> severity a \<le> severity b"

definition less_compare_status :: "compare_status \<Rightarrow> compare_status \<Rightarrow> bool" where
  "less_compare_status a b \<longleftrightarrow> severity a < severity b"

instance
proof
  fix a b :: compare_status
  show "a \<le> b \<Longrightarrow> b \<le> a \<Longrightarrow> a = b"
    by (cases a; cases b) (simp_all add: less_eq_compare_status_def)
qed (auto simp: less_eq_compare_status_def less_compare_status_def)

end

lemma status_order [simp]:
  "StatusOk \<le> s" "StatusImproved \<le> StatusRegressed" "s \<le> StatusRegressed"
  "\<not> StatusRegressed \<le> StatusImproved" "\<not> StatusRegressed \<le> StatusOk" "\<not> StatusImproved \<le> StatusOk"
  by (cases s; simp add: less_eq_compare_status_def)+

section \<open>The visited items\<close>

definition is_added :: "('i \<Rightarrow> int) \<Rightarrow> 'i compared_item \<Rightarrow> bool" where
  "is_added cnt m \<longleftrightarrow> ct_baselineItem m = None \<and> ct_currentItem m \<noteq> None"

definition is_removed :: "('i \<Rightarrow> int) \<Rightarrow> 'i compared_item \<Rightarrow> bool" where
  "is_removed cnt m \<longleftrightarrow> ct_baselineItem m \<noteq> None \<and> ct_currentItem m = None"

definition is_increased :: "('i \<Rightarrow> int) \<Rightarrow> 'i compared_item \<Rightarrow> bool" where
  "is_increased cnt m = (case (ct_baselineItem m, ct_currentItem m) of (Some b, Some c) \<Rightarrow> cnt c > cnt b | _ \<Rightarrow> False)"

definition is_decreased :: "('i \<Rightarrow> int) \<Rightarrow> 'i compared_item \<Rightarrow> bool" where
  "is_decreased cnt m = (case (ct_baselineItem m, ct_currentItem m) of (Some b, Some c) \<Rightarrow> cnt c < cnt b | _ \<Rightarrow> False)"

definition add_movements :: "('i \<Rightarrow> int) \<Rightarrow> 'i compared_item list \<Rightarrow> 'i changes \<Rightarrow> 'i changes" where
  "add_movements cnt ms ch =
     \<lparr>ch_metadataChanged = ch_metadataChanged ch,
      ch_added = ch_added ch @ map itemLocation (filter (is_added cnt) ms),
      ch_removed = ch_removed ch @ map itemLocation (filter (is_removed cnt) ms),
      ch_increased = ch_increased ch @ map itemLocation (filter (is_increased cnt) ms),
      ch_decreased = ch_decreased ch @ map itemLocation (filter (is_decreased cnt) ms),
      ch_comparedItems = ch_comparedItems ch @ ms\<rparr>"

lemma record_movement: "recordItemMovement spec m ch = add_movements (gs_itemCount spec) [m] ch"
  by (cases ch; cases "ct_baselineItem m"; cases "ct_currentItem m")
     (auto simp: recordItemMovement_def add_movements_def is_added_def is_removed_def is_increased_def
        is_decreased_def Let_def)

lemma add_movements_append: "add_movements cnt (ms @ ns) ch = add_movements cnt ns (add_movements cnt ms ch)"
  by (simp add: add_movements_def)

lemma fold_movements:
  "fold (\<lambda>k. recordItemMovement spec (f k)) ks ch = add_movements (gs_itemCount spec) (map f ks) ch"
proof (induction ks arbitrary: ch)
  case Nil
  then show ?case by (simp add: add_movements_def)
next
  case (Cons k ks)
  then show ?case
    using add_movements_append[of "gs_itemCount spec" "[f k]" "map f ks" ch] by (simp add: record_movement)
qed

definition group_movements ::
    "('m, 'i) group_spec \<Rightarrow> ('m, 'i) grouped_baseline \<Rightarrow> ('m, 'i) grouped_baseline \<Rightarrow> string \<Rightarrow> 'i compared_item list" where
  "group_movements spec b c k =
     map (movement k (map_of (gb_groups b) k) (map_of (gb_groups c) k))
       (group_item_keys spec (map_of (gb_groups b) k) (map_of (gb_groups c) k))"

definition all_movements ::
    "('m, 'i) group_spec \<Rightarrow> ('m, 'i) grouped_baseline \<Rightarrow> ('m, 'i) grouped_baseline \<Rightarrow> 'i compared_item list" where
  "all_movements spec b c = concat (map (group_movements spec b c) (compared_ids spec b c))"

definition meta_changed :: "('m, 'i) group_spec \<Rightarrow> ('m, 'i) grouped_baseline \<Rightarrow> ('m, 'i) grouped_baseline \<Rightarrow> string \<Rightarrow> bool" where
  "meta_changed spec b c k = (case (map_of (gb_groups b) k, map_of (gb_groups c) k) of
     (Some bg, Some cg) \<Rightarrow> \<not> gs_sameGroupMeta spec (grp_meta bg) (grp_meta cg) | _ \<Rightarrow> False)"

lemma compareGroupItems_eq:
  "compareGroupItems spec k (map_of (gb_groups b) k) (map_of (gb_groups c) k) ch =
     add_movements (gs_itemCount spec) (group_movements spec b c k)
       (ch\<lparr>ch_metadataChanged := ch_metadataChanged ch @ (if meta_changed spec b c k then [k] else [])\<rparr>)"
  by (auto simp: compareGroupItems_def fold_movements group_movements_def recordMetadataChange_def
      meta_changed_def split: option.splits)

lemma fold_groups:
  "fold (\<lambda>k. compareGroupItems spec k (map_of (gb_groups b) k) (map_of (gb_groups c) k)) ks ch =
     add_movements (gs_itemCount spec) (concat (map (group_movements spec b c) ks))
       (ch\<lparr>ch_metadataChanged := ch_metadataChanged ch @ filter (meta_changed spec b c) ks\<rparr>)"
  by (induction ks arbitrary: ch) (simp_all add: compareGroupItems_eq add_movements_def)

lemma compared_items [simp]:
  "ch_comparedItems (cr_changes (compareGroupedBaseline spec b c)) = all_movements spec b c"
  by (simp add: compareGroupedBaseline_def Let_def fold_groups add_movements_def no_changes_def all_movements_def)

lemma sortedLocations_Nil [simp]: "sortedLocations spec ls = [] \<longleftrightarrow> ls = []"
  by (simp add: sortedLocations_def)

lemma set_compared_ids: "set (compared_ids spec b c) = fst ` set (gb_groups b) \<union> fst ` set (gb_groups c)"
  by (simp add: compared_ids_def)

lemma set_item_keys: "set (group_item_keys spec b c) = fst ` set (opt_items b) \<union> fst ` set (opt_items c)"
  by (simp add: group_item_keys_def)

lemma opt_items_simps [simp]: "opt_items None = []" "opt_items (Some g) = grp_items g"
  by (simp_all add: opt_items_def)

text \<open>A movement is visited exactly when its path is in one of the two groups.\<close>

lemma set_all_movements:
  "m \<in> set (all_movements spec b c) \<longleftrightarrow>
     (\<exists>k path. m = movement k (map_of (gb_groups b) k) (map_of (gb_groups c) k) path \<and>
        (path \<in> fst ` set (opt_items (map_of (gb_groups b) k)) \<or> path \<in> fst ` set (opt_items (map_of (gb_groups c) k))))"
proof -
  have "k \<in> set (compared_ids spec b c)"
    if "path \<in> fst ` set (opt_items (map_of (gb_groups b) k)) \<or> path \<in> fst ` set (opt_items (map_of (gb_groups c) k))" for k path
  proof (rule ccontr)
    assume "k \<notin> set (compared_ids spec b c)"
    then have "map_of (gb_groups b) k = None" "map_of (gb_groups c) k = None"
      by (auto simp: set_compared_ids map_of_eq_None_iff)
    with that show False by simp
  qed
  note known = this
  show ?thesis (is "?l \<longleftrightarrow> ?r")
  proof
    assume ?l
    then show ?r
      by (auto simp: all_movements_def group_movements_def set_item_keys)
  next
    assume ?r
    then obtain k path where m: "m = movement k (map_of (gb_groups b) k) (map_of (gb_groups c) k) path"
      and p: "path \<in> fst ` set (opt_items (map_of (gb_groups b) k)) \<or> path \<in> fst ` set (opt_items (map_of (gb_groups c) k))"
      by blast
    from p have "m \<in> set (group_movements spec b c k)"
      by (simp add: m group_movements_def set_item_keys)
    with known[OF p] show ?l
      unfolding all_movements_def set_concat set_map by blast
  qed
qed

definition count_at :: "('m, 'i) group_spec \<Rightarrow> ('m, 'i) grouped_baseline \<Rightarrow> string \<Rightarrow> string \<Rightarrow> int option" where
  "count_at spec b k path = map_option (gs_itemCount spec) (map_of (opt_items (map_of (gb_groups b) k)) path)"

lemma movement_classes:
  fixes spec b c k path
  defines "m \<equiv> movement k (map_of (gb_groups b) k) (map_of (gb_groups c) k) path"
  shows "is_added cnt m \<longleftrightarrow> count_at spec b k path = None \<and> count_at spec c k path \<noteq> None"
    and "is_removed cnt m \<longleftrightarrow> count_at spec b k path \<noteq> None \<and> count_at spec c k path = None"
    and "is_increased (gs_itemCount spec) m \<longleftrightarrow> (\<exists>x y. count_at spec b k path = Some x \<and> count_at spec c k path = Some y \<and> y > x)"
    and "is_decreased (gs_itemCount spec) m \<longleftrightarrow> (\<exists>x y. count_at spec b k path = Some x \<and> count_at spec c k path = Some y \<and> y < x)"
  by (auto simp: m_def movement_def is_added_def is_removed_def is_increased_def is_decreased_def count_at_def
      split: option.splits)

lemma count_at_key: "count_at spec b k path = Some n \<Longrightarrow> path \<in> fst ` set (opt_items (map_of (gb_groups b) k))"
  by (auto simp: count_at_def dest!: map_of_SomeD intro: rev_image_eqI)

lemma visited_paths:
  "path \<in> fst ` set (opt_items (map_of (gb_groups b) k)) \<longleftrightarrow> count_at spec b k path \<noteq> None"
  by (simp add: count_at_def map_of_eq_None_iff)

lemma ex_movement:
  assumes "\<And>k path. P (movement k (map_of (gb_groups b) k) (map_of (gb_groups c) k) path) \<longleftrightarrow> Q k path"
    and "\<And>k path. Q k path \<Longrightarrow> count_at spec b k path \<noteq> None \<or> count_at spec c k path \<noteq> None"
  shows "filter P (all_movements spec b c) \<noteq> [] \<longleftrightarrow> (\<exists>k path. Q k path)"
proof -
  have "filter P (all_movements spec b c) \<noteq> [] \<longleftrightarrow>
      (\<exists>k path. P (movement k (map_of (gb_groups b) k) (map_of (gb_groups c) k) path) \<and>
         (count_at spec b k path \<noteq> None \<or> count_at spec c k path \<noteq> None))"
    unfolding filter_empty_conv Ball_def set_all_movements visited_paths[where spec = spec] by blast
  then show ?thesis
    unfolding assms(1) using assms(2) by blast
qed

definition key_status :: "int option \<Rightarrow> int option \<Rightarrow> compare_status" where
  "key_status old new = (case (old, new) of
     (None, None) \<Rightarrow> StatusOk
   | (None, Some _) \<Rightarrow> StatusRegressed
   | (Some _, None) \<Rightarrow> StatusImproved
   | (Some a, Some b) \<Rightarrow> if b > a then StatusRegressed else if b < a then StatusImproved else StatusOk)"

text \<open>The location lists of a comparison before they are sorted.\<close>

lemma comparison_fields:
  fixes spec b c
  defines "r \<equiv> compareGroupedBaseline spec b c"
  shows "cr_addedGroups r = js_sort (gs_compareGroupKeys spec) (filter (\<lambda>k. map_of (gb_groups b) k = None) (map fst (gb_groups c)))"
    and "cr_removedGroups r = js_sort (gs_compareGroupKeys spec) (filter (\<lambda>k. map_of (gb_groups c) k = None) (map fst (gb_groups b)))"
    and "ch_metadataChanged (cr_changes r) = js_sort (gs_compareGroupKeys spec) (filter (meta_changed spec b c) (compared_ids spec b c))"
    and "ch_added (cr_changes r) = sortedLocations spec (map itemLocation (filter (is_added (gs_itemCount spec)) (all_movements spec b c)))"
    and "ch_removed (cr_changes r) = sortedLocations spec (map itemLocation (filter (is_removed (gs_itemCount spec)) (all_movements spec b c)))"
    and "ch_increased (cr_changes r) = sortedLocations spec (map itemLocation (filter (is_increased (gs_itemCount spec)) (all_movements spec b c)))"
    and "ch_decreased (cr_changes r) = sortedLocations spec (map itemLocation (filter (is_decreased (gs_itemCount spec)) (all_movements spec b c)))"
    and "cr_status r = comparisonStatus (cr_addedGroups r) (cr_removedGroups r) (cr_changes r)"
proof -
  have eq: "r = (let ch = \<lparr>ch_metadataChanged = js_sort (gs_compareGroupKeys spec) (filter (meta_changed spec b c) (compared_ids spec b c)),
      ch_added = sortedLocations spec (map itemLocation (filter (is_added (gs_itemCount spec)) (all_movements spec b c))),
      ch_removed = sortedLocations spec (map itemLocation (filter (is_removed (gs_itemCount spec)) (all_movements spec b c))),
      ch_increased = sortedLocations spec (map itemLocation (filter (is_increased (gs_itemCount spec)) (all_movements spec b c))),
      ch_decreased = sortedLocations spec (map itemLocation (filter (is_decreased (gs_itemCount spec)) (all_movements spec b c))),
      ch_comparedItems = all_movements spec b c\<rparr>;
      new = js_sort (gs_compareGroupKeys spec) (filter (\<lambda>k. map_of (gb_groups b) k = None) (map fst (gb_groups c)));
      gone = js_sort (gs_compareGroupKeys spec) (filter (\<lambda>k. map_of (gb_groups c) k = None) (map fst (gb_groups b)))
      in \<lparr>cr_status = comparisonStatus new gone ch, cr_addedGroups = new, cr_removedGroups = gone, cr_changes = ch\<rparr>)"
    unfolding r_def compareGroupedBaseline_def Let_def fold_groups
    by (simp add: add_movements_def no_changes_def all_movements_def)
  note s = eq[unfolded Let_def]
  show "cr_addedGroups r = js_sort (gs_compareGroupKeys spec) (filter (\<lambda>k. map_of (gb_groups b) k = None) (map fst (gb_groups c)))"
    by (simp only: s compare_result.simps changes.simps)
  show "cr_removedGroups r = js_sort (gs_compareGroupKeys spec) (filter (\<lambda>k. map_of (gb_groups c) k = None) (map fst (gb_groups b)))"
    by (simp only: s compare_result.simps changes.simps)
  show "ch_metadataChanged (cr_changes r) = js_sort (gs_compareGroupKeys spec) (filter (meta_changed spec b c) (compared_ids spec b c))"
    by (simp only: s compare_result.simps changes.simps)
  show "ch_added (cr_changes r) = sortedLocations spec (map itemLocation (filter (is_added (gs_itemCount spec)) (all_movements spec b c)))"
    by (simp only: s compare_result.simps changes.simps)
  show "ch_removed (cr_changes r) = sortedLocations spec (map itemLocation (filter (is_removed (gs_itemCount spec)) (all_movements spec b c)))"
    by (simp only: s compare_result.simps changes.simps)
  show "ch_increased (cr_changes r) = sortedLocations spec (map itemLocation (filter (is_increased (gs_itemCount spec)) (all_movements spec b c)))"
    by (simp only: s compare_result.simps changes.simps)
  show "ch_decreased (cr_changes r) = sortedLocations spec (map itemLocation (filter (is_decreased (gs_itemCount spec)) (all_movements spec b c)))"
    by (simp only: s compare_result.simps changes.simps)
  show "cr_status r = comparisonStatus (cr_addedGroups r) (cr_removedGroups r) (cr_changes r)"
    by (simp only: s compare_result.simps changes.simps)
qed

lemma ex_meta_changed:
  "filter (meta_changed spec b c) (compared_ids spec b c) \<noteq> [] \<longleftrightarrow> (\<exists>k. meta_changed spec b c k)"
proof -
  have "k \<in> set (compared_ids spec b c)" if "meta_changed spec b c k" for k
    using that by (auto simp: meta_changed_def set_compared_ids rev_image_eqI dest!: map_of_SomeD split: option.splits)
  then show ?thesis
    unfolding filter_empty_conv by blast
qed

lemma ex_group:
  "filter (\<lambda>k. map_of ys k = None) (map fst xs) \<noteq> [] \<longleftrightarrow> (\<exists>k \<in> fst ` set xs. map_of ys k = None)"
  unfolding filter_empty_conv by auto

lemma ex_changes:
  shows "filter (is_added cnt) (all_movements spec b c) \<noteq> [] \<longleftrightarrow> (\<exists>k p. count_at spec b k p = None \<and> count_at spec c k p \<noteq> None)"
    and "filter (is_removed cnt) (all_movements spec b c) \<noteq> [] \<longleftrightarrow> (\<exists>k p. count_at spec b k p \<noteq> None \<and> count_at spec c k p = None)"
    and "filter (is_increased (gs_itemCount spec)) (all_movements spec b c) \<noteq> [] \<longleftrightarrow>
       (\<exists>k p x y. count_at spec b k p = Some x \<and> count_at spec c k p = Some y \<and> y > x)"
    and "filter (is_decreased (gs_itemCount spec)) (all_movements spec b c) \<noteq> [] \<longleftrightarrow>
       (\<exists>k p x y. count_at spec b k p = Some x \<and> count_at spec c k p = Some y \<and> y < x)"
  subgoal by (rule ex_movement, rule movement_classes(1), simp)
  subgoal by (rule ex_movement, rule movement_classes(2), simp)
  subgoal by (rule ex_movement, rule movement_classes(3), fastforce)
  subgoal by (rule ex_movement, rule movement_classes(4), fastforce)
  done

lemmas comparison_lists = comparison_fields(1-7) js_sort_Nil_iff sortedLocations_Nil map_is_Nil_conv
  ex_group ex_meta_changed ex_changes

text \<open>
  C5: the status of a grouped comparison. It is regressed exactly when a group is new, a group's
  metadata changed, or some path is new or has more findings; otherwise improved exactly when a
  group or a path is gone or a path has fewer findings; otherwise the documents agree.
\<close>

theorem compare_status_characterised:
  "cr_status (compareGroupedBaseline spec b c) =
     (if (\<exists>k \<in> fst ` set (gb_groups c). map_of (gb_groups b) k = None) \<or> (\<exists>k. meta_changed spec b c k) \<or>
         (\<exists>k p. key_status (count_at spec b k p) (count_at spec c k p) = StatusRegressed)
      then StatusRegressed
      else if (\<exists>k \<in> fst ` set (gb_groups b). map_of (gb_groups c) k = None) \<or>
         (\<exists>k p. key_status (count_at spec b k p) (count_at spec c k p) = StatusImproved)
      then StatusImproved else StatusOk)"
proof -
  have reg: "key_status x y = StatusRegressed \<longleftrightarrow> x = None \<and> y \<noteq> None \<or> (\<exists>a b. x = Some a \<and> y = Some b \<and> b > a)"
    and imp: "key_status x y = StatusImproved \<longleftrightarrow> x \<noteq> None \<and> y = None \<or> (\<exists>a b. x = Some a \<and> y = Some b \<and> b < a)" for x y
    by (auto simp: key_status_def split: option.splits)
  show ?thesis
    unfolding comparison_fields(8) comparisonStatus_def comparison_lists reg imp
    by (simp add: ex_disj_distrib)
qed

end
