(* ===== verification/CompareLaws.thy ===== *)
theory CompareLaws
  imports BaselineCompare GroupCompare MetricLaws
begin

text \<open>
  Properties of the comparison with the committed baseline: it never throws, it reports exactly the
  verdicts of the metric strategy on the registered, committed tests, and a baseline compared with
  its own items is not worse.
\<close>

section \<open>What the comparison is given\<close>

lemma map_of_registeredGroups:
  "map_of (registeredGroups g byId) k = (if map_of byId k = None then None else map_of (gb_groups g) k)"
  using map_of_filter_key[of "\<lambda>k. map_of byId k \<noteq> None" "gb_groups g" k]
  by (simp add: registeredGroups_def case_prod_unfold)

lemma map_of_currentGroups:
  "map_of (currentGroups gs cur) k = map_option (\<lambda>g. \<lparr>grp_meta = grp_meta g,
     grp_items = (case map_of cur k of None \<Rightarrow> [] | Some is \<Rightarrow> map (\<lambda>(p, i). (p, item_of_current i)) is)\<rparr>) (map_of gs k)"
  unfolding currentGroups_def by (rule map_of_map_values)

lemma map_of_toGrouped:
  "map_of (gb_groups (lintRatchetBaselineToGrouped b)) k =
     map_option (\<lambda>t. \<lparr>grp_meta = test_meta t, grp_items = positiveItemMap (bt_items t)\<rparr>) (map_of (bl_tests b) k)"
  by (simp add: lintRatchetBaselineToGrouped_def map_of_map_values)

text \<open>The committed item of a path, and what the comparison of that path starts from.\<close>

definition committed_item :: "ratchet_baseline \<Rightarrow> string \<Rightarrow> string \<Rightarrow> metric_item option" where
  "committed_item b testId path =
     Option.bind (map_of (bl_tests b) testId) (\<lambda>t. map_of (positiveItemMap (bt_items t)) path)"

definition compared_ratchet :: "ratchet_baseline \<Rightarrow> ratchet_config list \<Rightarrow> string \<Rightarrow> ratchet_config option" where
  "compared_ratchet b ratchets testId =
     (if map_of (bl_tests b) testId = None then None else map_of (registered ratchets) testId)"

definition collected_item :: "current_by_id \<Rightarrow> string \<Rightarrow> string \<Rightarrow> current_item option" where
  "collected_item cur testId path = Option.bind (map_of cur testId) (\<lambda>is. map_of is path)"

definition compared_context ::
    "ratchet_baseline \<Rightarrow> ratchet_config list \<Rightarrow> current_by_id \<Rightarrow> string \<Rightarrow> string \<Rightarrow> item_context option" where
  "compared_context b ratchets cur testId path =
     (case (compared_ratchet b ratchets testId, collected_item cur testId path) of
        (Some r, Some i) \<Rightarrow> Some \<lparr>ic_ratchet = r, ic_path = path, ic_baselineItem = committed_item b testId path, ic_current = i\<rparr>
      | _ \<Rightarrow> None)"

definition gone_path :: "ratchet_baseline \<Rightarrow> ratchet_config list \<Rightarrow> current_by_id \<Rightarrow> string \<Rightarrow> string \<Rightarrow> improvement option" where
  "gone_path b ratchets cur testId path =
     (case (compared_ratchet b ratchets testId, committed_item b testId path, collected_item cur testId path) of
        (Some r, Some i, None) \<Rightarrow> Some (removedPathImprovement r path i)
      | _ \<Rightarrow> None)"

definition verdict_at ::
    "string cmp \<Rightarrow> ratchet_baseline \<Rightarrow> ratchet_config list \<Rightarrow> current_by_id \<Rightarrow> string \<Rightarrow> string \<Rightarrow> item_comparison" where
  "verdict_at lc b ratchets cur testId path =
     (case compared_context b ratchets cur testId path of
        Some c \<Rightarrow> compareItem lc (rc_metric (ic_ratchet c)) c
      | None \<Rightarrow> no_change\<lparr>co_improvement := gone_path b ratchets cur testId path\<rparr>)"

section \<open>The visits\<close>

lemma grouped_lookup:
  fixes b ratchets cur k
  defines "inp \<equiv> comparisonInput b ratchets cur"
  shows "map_of (opt_items (map_of (gb_groups (ki_baseline inp)) k)) p =
      (if compared_ratchet b ratchets k = None then None else committed_item b k p)"
    and "map_of (opt_items (map_of (gb_groups (ki_current inp)) k)) p =
      (if compared_ratchet b ratchets k = None then None else map_option item_of_current (collected_item cur k p))"
  by (auto simp: inp_def comparisonInput_def Let_def map_of_registeredGroups map_of_currentGroups map_of_toGrouped
      compared_ratchet_def committed_item_def collected_item_def map_of_map_values split: option.splits)

lemma visit_item_verdict:
  fixes b ratchets cur
  defines "inp \<equiv> comparisonInput b ratchets cur"
  assumes "compared_ratchet b ratchets k \<noteq> None"
  shows "visit_item lc (registered ratchets) cur
      (movement k (map_of (gb_groups (ki_baseline inp)) k) (map_of (gb_groups (ki_current inp)) k) p)
    = Inr (verdict_at lc b ratchets cur k p)"
proof -
  obtain r where r: "compared_ratchet b ratchets k = Some r" "map_of (registered ratchets) k = Some r"
    using assms(2) by (auto simp: compared_ratchet_def split: if_splits)
  show ?thesis
    by (auto simp: visit_item_def movement_def inp_def grouped_lookup r verdict_at_def compared_context_def
        gone_path_def no_change_def collected_item_def split: option.splits)
qed

lemma visit_all_Inr:
  assumes "\<And>c. c \<in> set cs \<Longrightarrow> visit_item lc byId cur c = Inr (v c)"
  shows "visit_all lc byId cur cs d = Inr (fold (\<lambda>c. recordComparedItem (v c)) cs d)"
  using assms by (induction cs arbitrary: d) auto

lemma fold_recorded:
  fixes v cs d
  defines "d' \<equiv> fold (\<lambda>c. recordComparedItem (v c)) cs d"
  shows "set (cmp_regressions d') = set (cmp_regressions d) \<union> {x. \<exists>c \<in> set cs. co_regression (v c) = Some x}"
    and "set (cmp_improvements d') = set (cmp_improvements d) \<union> {x. \<exists>c \<in> set cs. co_improvement (v c) = Some x}"
  unfolding d'_def
  by (induction cs arbitrary: d) (auto simp: recordComparedItem_def split: option.splits)

lemma registered_of_compared [simp]:
  "ki_ratchetsById (comparisonInput b ratchets cur) = registered ratchets"
  by (simp add: comparisonInput_def Let_def)

lemma set_sort_deltas [simp]:
  "set (cmp_regressions (sort_deltas lc d)) = set (cmp_regressions d)"
  "set (cmp_improvements (sort_deltas lc d)) = set (cmp_improvements d)"
  by (simp_all add: sort_deltas_def)

lemma unvisited:
  assumes "compared_ratchet b ratchets k = None \<or> committed_item b k p = None \<and> collected_item cur k p = None"
  shows "verdict_at lc b ratchets cur k p = no_change"
  using assms by (auto simp: verdict_at_def compared_context_def gone_path_def no_change_def split: option.splits)

lemma visited_iff:
  fixes b ratchets cur
  defines "inp \<equiv> comparisonInput b ratchets cur"
  shows "m \<in> set (all_movements spec (ki_baseline inp) (ki_current inp)) \<longleftrightarrow>
    (\<exists>k p. m = movement k (map_of (gb_groups (ki_baseline inp)) k) (map_of (gb_groups (ki_current inp)) k) p \<and>
       compared_ratchet b ratchets k \<noteq> None \<and> (committed_item b k p \<noteq> None \<or> collected_item cur k p \<noteq> None))"
proof -
  have key: "p \<in> fst ` set xs \<longleftrightarrow> map_of xs p \<noteq> None" for p and xs :: "(string \<times> metric_item) list"
    by (simp add: map_of_eq_None_iff)
  have "(map_of (opt_items (map_of (gb_groups (ki_baseline inp)) k)) p \<noteq> None \<or>
         map_of (opt_items (map_of (gb_groups (ki_current inp)) k)) p \<noteq> None) \<longleftrightarrow>
      compared_ratchet b ratchets k \<noteq> None \<and> (committed_item b k p \<noteq> None \<or> collected_item cur k p \<noteq> None)" for k p
    by (auto simp: inp_def grouped_lookup)
  then show ?thesis
    unfolding set_all_movements key by simp
qed

lemma compare_visits:
  "\<exists>d. compareCurrentToBaseline lc b ratchets cur vocab = Inr d \<and>
     (\<forall>x. x \<in> set (cmp_regressions d) \<longleftrightarrow> (\<exists>k p. co_regression (verdict_at lc b ratchets cur k p) = Some x)) \<and>
     (\<forall>x. x \<in> set (cmp_improvements d) \<longleftrightarrow> (\<exists>k p. co_improvement (verdict_at lc b ratchets cur k p) = Some x))"
proof -
  define inp where "inp = comparisonInput b ratchets cur"
  define spec where "spec = lintRatchetBaselineSpec lc default_version_policy vocab DEFAULT_BASELINE_FILENAME"
  define ms where "ms = all_movements spec (ki_baseline inp) (ki_current inp)"
  define v where "v m = verdict_at lc b ratchets cur (ct_groupId m) (ct_itemKey m)" for m :: "metric_item compared_item"
  have v: "v (movement k x y p) = verdict_at lc b ratchets cur k p" for k x y p
    by (simp add: v_def movement_def)
  have at: "m \<in> set ms \<longleftrightarrow> (\<exists>k p. m = movement k (map_of (gb_groups (ki_baseline inp)) k) (map_of (gb_groups (ki_current inp)) k) p \<and>
      compared_ratchet b ratchets k \<noteq> None \<and> (committed_item b k p \<noteq> None \<or> collected_item cur k p \<noteq> None))" for m
    unfolding ms_def inp_def by (rule visited_iff)
  have "visit_item lc (registered ratchets) cur m = Inr (v m)" if "m \<in> set ms" for m
    using that unfolding at by (auto simp: v inp_def visit_item_verdict)
  then have all: "visit_all lc (registered ratchets) cur ms d = Inr (fold (\<lambda>m. recordComparedItem (v m)) ms d)" for d
    by (rule visit_all_Inr)
  have some: "(\<exists>m \<in> set ms. f (v m) = Some x) \<longleftrightarrow> (\<exists>k p. f (verdict_at lc b ratchets cur k p) = Some x)"
    if "f no_change = None" for f :: "item_comparison \<Rightarrow> 'z option" and x
  proof -
    have "(\<exists>m \<in> set ms. f (v m) = Some x) \<longleftrightarrow> (\<exists>k p. compared_ratchet b ratchets k \<noteq> None \<and>
        (committed_item b k p \<noteq> None \<or> collected_item cur k p \<noteq> None) \<and> f (verdict_at lc b ratchets cur k p) = Some x)"
      unfolding Bex_def at by (metis v)
    then show ?thesis
      using that unvisited[of b ratchets _ _ cur lc] by (metis option.distinct(1))
  qed
  have "ki_ratchetsById inp = registered ratchets"
    by (simp add: inp_def)
  then have "compareCurrentToBaseline lc b ratchets cur vocab =
      Inr (sort_deltas lc (fold (\<lambda>m. recordComparedItem (v m)) ms no_deltas))"
    using all by (simp add: compareCurrentToBaseline_def Let_def flip: inp_def spec_def ms_def)
  then show ?thesis
    by (simp add: fold_recorded some) (simp add: no_deltas_def)
qed

section \<open>Properties\<close>

lemma verdict_regression:
  "co_regression (verdict_at lc b ratchets cur k p) = Some x \<longleftrightarrow>
     (\<exists>c. compared_context b ratchets cur k p = Some c \<and> co_regression (compareItem lc (rc_metric (ic_ratchet c)) c) = Some x)"
  by (auto simp: verdict_at_def split: option.splits)

lemma verdict_improvement:
  "co_improvement (verdict_at lc b ratchets cur k p) = Some x \<longleftrightarrow>
     (\<exists>c. compared_context b ratchets cur k p = Some c \<and> co_improvement (compareItem lc (rc_metric (ic_ratchet c)) c) = Some x)
     \<or> gone_path b ratchets cur k p = Some x"
  by (auto simp: verdict_at_def compared_context_def gone_path_def split: option.splits)

text \<open>
  C6: the comparison with the committed baseline returns on every input (neither internal error can
  be thrown), and its regressions are exactly the regressions that the metric strategies report for
  the collected items of the tests that are both registered and committed.
\<close>

theorem compare_regressions_exact:
  "\<exists>d. compareCurrentToBaseline lc b ratchets cur vocab = Inr d \<and>
     set (cmp_regressions d) = {x. \<exists>testId path c. compared_context b ratchets cur testId path = Some c \<and>
        co_regression (compareItem lc (rc_metric (ic_ratchet c)) c) = Some x}"
  using compare_visits[of lc b ratchets cur vocab] unfolding verdict_regression by blast

text \<open>
  The improvements of the comparison are exactly those that the metric strategies report,
  together with one removed-path improvement for each committed path that is no longer collected.
\<close>

theorem compare_improvements_exact:
  "\<exists>d. compareCurrentToBaseline lc b ratchets cur vocab = Inr d \<and>
     set (cmp_improvements d) = {x. \<exists>testId path.
        (\<exists>c. compared_context b ratchets cur testId path = Some c \<and>
           co_improvement (compareItem lc (rc_metric (ic_ratchet c)) c) = Some x) \<or>
        gone_path b ratchets cur testId path = Some x}"
  using compare_visits[of lc b ratchets cur vocab] unfolding verdict_improvement by blast

section \<open>A baseline against itself\<close>

lemma unique_covers:
  "e \<in> set es \<Longrightarrow> \<exists>q. map_of (uniqueComplexityMap es) (complexityIdentity e) = Some q \<and> cf_complexity e \<le> cf_complexity q"
proof -
  let ?ok = "\<lambda>m e. \<exists>q. map_of m (complexityIdentity e) = Some q \<and> cf_complexity e \<le> cf_complexity q"
  have step: "?ok (unique_step x m) x" for x m
    by (auto simp: unique_step_def Let_def update_conv' split: option.splits)
  have keep: "?ok m e \<Longrightarrow> ?ok (unique_step x m) e" for x m e
    by (auto simp: unique_step_def Let_def update_conv' split: option.splits)
  have keeps: "?ok m e \<Longrightarrow> ?ok (fold unique_step xs m) e" for xs m e
    by (induction xs arbitrary: m) (use keep in auto)
  have "e \<in> set es \<Longrightarrow> ?ok (fold unique_step es m) e" for m
    by (induction es arbitrary: m) (use step keeps in auto)
  then show "e \<in> set es \<Longrightarrow> ?thesis"
    by (simp add: uniqueComplexityMap_def)
qed

lemma complexityDelta_self:
  assumes "mi_perFunction c = mi_perFunction b"
  shows "\<not> (\<exists>d. complexityDelta lc (Some b) c = Some d \<and> cd_regression d)"
proof -
  have "exactComplexityDelta fs fs True = None" for fs
    unfolding exactComplexityDelta_def exact_loop_None using unique_covers[of _ fs] by (fastforce simp: moved_def)
  moreover have "vectorComplexityDelta lc fs fs True = None" for fs
    by (simp add: vectorComplexityDelta_def vector_loop_None moved_def)
  ultimately show ?thesis
    unfolding complexityDelta_regression by (auto simp: assms)
qed

lemma not_worse_self:
  assumes "ic_baselineItem c = Some b" and "metric_item.truncate (ic_current c) = b"
  shows "\<not> worse lc m c"
proof -
  have "mi_count (ic_current c) = mi_count b" "mi_lines (ic_current c) = mi_lines b"
    "mi_perFunction (ic_current c) = mi_perFunction b"
    using assms(2) by (auto simp: metric_item.truncate_def)
  then show ?thesis
    using assms(1) complexityDelta_self[of "ic_current c" b lc]
    by (auto simp: worse_def baseline_count_def lines_worse_def complexity_worse_def split: option.splits)
qed

definition positive_items :: "ratchet_baseline \<Rightarrow> bool" where
  "positive_items b \<longleftrightarrow> (\<forall>(_, t) \<in> set (bl_tests b). distinct (map fst (bt_items t)) \<and> (\<forall>(_, i) \<in> set (bt_items t). mi_count i > 0))"

lemma collected_of_baseline:
  "collected_item (currentByIdFromBaseline b) k p =
     Option.bind (map_of (bl_tests b) k) (\<lambda>t. map_option current_of_item (map_of (bt_items t) p))"
proof -
  have "map_of (currentByIdFromBaseline b) k =
      map_option (\<lambda>t. map (\<lambda>(p, i). (p, current_of_item i)) (bt_items t)) (map_of (bl_tests b) k)"
    unfolding currentByIdFromBaseline_def by (rule map_of_map_values)
  then show ?thesis
    by (cases "map_of (bl_tests b) k") (simp_all add: collected_item_def map_of_map_values)
qed

lemma self_comparison_not_worse_base:
  assumes "positive_items b"
  shows "\<exists>d. compareCurrentToBaseline lc b ratchets (currentByIdFromBaseline b) vocab = Inr d \<and> cmp_regressions d = []"
proof -
  let ?cur = "currentByIdFromBaseline b"
  have "co_regression (compareItem lc (rc_metric (ic_ratchet c)) c) = None"
    if c: "compared_context b ratchets ?cur k p = Some c" for k p c
  proof -
    obtain t i where t: "map_of (bl_tests b) k = Some t" "map_of (bt_items t) p = Some i"
        "ic_current c = current_of_item i" "ic_baselineItem c = committed_item b k p"
      using c by (auto simp: compared_context_def collected_of_baseline bind_eq_Some_conv split: option.splits)
    have "distinct (map fst (bt_items t))" "mi_count i > 0"
      using assms t(1,2) by (auto simp: positive_items_def dest!: map_of_SomeD)
    then have "ic_baselineItem c = Some i"
      using t by (simp add: committed_item_def positiveItemMap_def map_of_filter_distinct)
    moreover have "metric_item.truncate (ic_current c) = i"
      by (simp add: t current_of_item_def metric_item.truncate_def metric_item.extend_def)
    ultimately show ?thesis
      using not_worse_self compareItem_regression_iff by blast
  qed
  then show ?thesis
    using compare_visits[of lc b ratchets ?cur vocab] unfolding verdict_regression
    by (metis all_not_in_conv option.distinct(1) set_empty)
qed

text \<open>
  Comparing a baseline with the items it stores itself reports no regression, on every
  registry, so regenerating an unchanged tree is never refused as worse.
\<close>

theorem self_comparison_not_worse:
  assumes "positive_items b"
  shows "\<exists>d. compareCurrentToBaseline lc b ratchets (currentByIdFromBaseline b) vocab = Inr d \<and> cmp_regressions d = []"
  using assms by (rule self_comparison_not_worse_base)

end
