(* ===== verification/UpdateLaws.thy ===== *)
theory UpdateLaws
  imports BaselineUpdate CompareLaws
begin

text \<open>
  Properties of the update gate: when it accepts a regenerated baseline, and what an accepted
  baseline guarantees about counts, coverage, retired ratchets and recorded reasons.
\<close>

section \<open>The gate\<close>

lemma map_filter_id_Nil: "List.map_filter id xs = [] \<longleftrightarrow> (\<forall>x \<in> set xs. x = None)"
  by (induction xs) (auto simp: List.map_filter_def)

lemma gate_checks [simp]:
  "formatOrphanFailure rs = None \<longleftrightarrow> rs = []"
  "regressionFailure c opts = None \<longleftrightarrow> uo_allowWorse opts \<or> cmp_regressions c = []"
  "coverageShrinkFailure ss opts = None \<longleftrightarrow> uo_allowWorse opts \<or> ss = []"
  "metricMigrationFailure ms opts = None \<longleftrightarrow> ms = [] \<or> real_reason (or_else (uo_migrationReason opts) (uo_reason opts))"
  "reasonFailure opts = None \<longleftrightarrow> (uo_allowWorse opts \<longrightarrow> real_reason (uo_reason opts))"
  by (auto simp: formatOrphanFailure_def regressionFailure_def coverageShrinkFailure_def metricMigrationFailure_def
      reasonFailure_def ratchetRegressionReasonFailure_None real_reason_def Let_def)

lemma gate_failures_Nil:
  "ug_failures (collectUpdateGate glob committed generated ratchets c ms opts) = [] \<longleftrightarrow>
     (uo_allowWorse opts \<or> cmp_regressions c = [] \<and> collectCoverageShrinks glob committed generated = [] \<and>
        accountableOrphans (collectOrphanRemovals committed ratchets)
          (Option.bind (uo_retire opts) (\<lambda>r. rs_retiredRatchetId (resolveRetire r (collectOrphanRemovals committed ratchets)))) = []) \<and>
     (ms = [] \<or> real_reason (or_else (uo_migrationReason opts) (uo_reason opts))) \<and>
     (\<forall>r. uo_retire opts = Some r \<longrightarrow> rs_failure (resolveRetire r (collectOrphanRemovals committed ratchets)) = None) \<and>
     (uo_allowWorse opts \<longrightarrow> real_reason (uo_reason opts))"
  unfolding collectUpdateGate_def Let_def update_gate.select_convs map_filter_id_Nil
  by (cases "uo_retire opts"; cases "uo_allowWorse opts") auto

lemma decide_cases:
  "\<exists>raw d. compareCurrentToBaseline lc committed ratchets (currentByIdFromBaseline generated) (uo_workflowVocabulary opts) = Inr raw \<and>
     decideLintRatchetUpdate lc glob committed generated ratchets opts = Inr d \<and>
     ud_metricMigrations d = collectMetricMigrations committed generated \<and>
     ud_orphanRemovals d = accountableOrphans (collectOrphanRemovals committed ratchets)
        (Option.bind (uo_retire opts) (\<lambda>r. rs_retiredRatchetId (resolveRetire r (collectOrphanRemovals committed ratchets)))) \<and>
     ud_coverageShrinks d = collectCoverageShrinks glob committed generated \<and>
     cmp_regressions d = cmp_regressions (excludeIncomparableMigratedDeltas raw (map mm_ratchetId (collectMetricMigrations committed generated))) \<and>
     ud_allowed d = (ug_failures (collectUpdateGate glob committed generated ratchets
        (excludeIncomparableMigratedDeltas raw (map mm_ratchetId (collectMetricMigrations committed generated)))
        (collectMetricMigrations committed generated) opts) = []) \<and>
     ud_retiredRatchetId d = (if ud_allowed d then Option.bind (uo_retire opts)
        (\<lambda>r. rs_retiredRatchetId (resolveRetire r (collectOrphanRemovals committed ratchets))) else None)"
proof -
  obtain raw where "compareCurrentToBaseline lc committed ratchets (currentByIdFromBaseline generated) (uo_workflowVocabulary opts) = Inr raw"
    using compare_visits by blast
  then show ?thesis
    by (cases "uo_retire opts")
       (simp_all add: decideLintRatchetUpdate_def decideLintRatchetUpdateWithComparator_def collectUpdateGate_def Let_def)
qed

section \<open>Orphans and coverage\<close>

definition orphan_at :: "ratchet_baseline \<Rightarrow> ratchet_config list \<Rightarrow> string \<Rightarrow> orphan_removal list" where
  "orphan_at committed ratchets k =
     (if k \<in> set (map rc_id ratchets) then []
      else case map_of (bl_tests committed) k of
             None \<Rightarrow> []
           | Some test \<Rightarrow> [\<lparr>or_testId = k, or_ruleId = gm_ruleId test, or_metric = gm_metric test,
                            or_baselineItems = orphanBaselineItems test\<rparr>])"

lemma collectOrphanRemovals_set:
  "x \<in> set (collectOrphanRemovals committed ratchets) \<longleftrightarrow> (\<exists>k. x \<in> set (orphan_at committed ratchets k))"
proof -
  have "x \<in> set (collectOrphanRemovals committed ratchets) \<longleftrightarrow>
      (\<exists>k \<in> set (map fst (bl_tests committed)). x \<in> set (orphan_at committed ratchets k))"
    unfolding collectOrphanRemovals_def orphan_at_def[symmetric] by simp
  moreover have "k \<in> set (map fst (bl_tests committed))" if "x \<in> set (orphan_at committed ratchets k)" for k
    using that by (auto simp: orphan_at_def dest: map_of_Some_key[OF sym] split: if_splits option.splits)
  ultimately show ?thesis by blast
qed

lemma foldl_total: "foldl (\<lambda>total (_, item). total + mi_count item) a xs = a + (\<Sum>x\<leftarrow>xs. mi_count (snd x))"
  by (induction xs arbitrary: a) (auto simp: split_beta)

lemma orphanFindingTotal_sum:
  "orphanFindingTotal \<lparr>or_testId = k, or_ruleId = r, or_metric = m, or_baselineItems = orphanBaselineItems t\<rparr> =
     (\<Sum>x\<leftarrow>bt_items t. mi_count (snd x))"
proof -
  have "mset (map (mi_count \<circ> snd) (key_sort compareByCodepoint (bt_items t))) = mset (map (mi_count \<circ> snd) (bt_items t))"
    by simp
  then have "sum_list (map (mi_count \<circ> snd) (key_sort compareByCodepoint (bt_items t))) = sum_list (map (mi_count \<circ> snd) (bt_items t))"
    using sum_mset_sum_list by metis
  then show ?thesis
    by (simp add: orphanFindingTotal_def orphanBaselineItems_def foldl_total comp_def)
qed

lemma resolveRetire_id:
  assumes "rs_retiredRatchetId (resolveRetire r removals) = Some k"
  shows "k = rr_id r \<and> rr_normalErrorProven r \<and> (\<exists>x \<in> set removals. or_testId x = k \<and> orphanFindingTotal x \<le> 0)"
  using assms
  by (auto simp: resolveRetire_def find_Some_iff split: option.splits if_splits intro!: bexI[OF _ nth_mem])

lemma collectCoverageShrinks_Nil:
  "collectCoverageShrinks glob committed generated = [] \<longleftrightarrow>
     (\<forall>(k, new) \<in> set (bl_tests generated). \<forall>old. map_of (bl_tests committed) k = Some old \<longrightarrow>
        gm_files old \<noteq> gm_files new \<or> gm_ignores old \<noteq> gm_ignores new \<longrightarrow> removed_from_coverage glob old new = [])"
proof -
  have "shrink_of glob k (map_of (bl_tests committed) k) new = [] \<longleftrightarrow>
      (\<forall>old. map_of (bl_tests committed) k = Some old \<longrightarrow>
        gm_files old \<noteq> gm_files new \<or> gm_ignores old \<noteq> gm_ignores new \<longrightarrow> removed_from_coverage glob old new = [])" for k new
    by (auto simp: shrink_of_def Let_def split: option.splits)
  then show ?thesis
    by (simp add: collectCoverageShrinks_def split_beta)
qed

section \<open>Properties\<close>

lemma update_gate_facts:
  assumes "decideLintRatchetUpdate lc glob committed generated ratchets opts = Inr d"
  shows "ud_allowed d \<longleftrightarrow>
       (uo_allowWorse opts \<or> cmp_regressions d = [] \<and> ud_coverageShrinks d = [] \<and> ud_orphanRemovals d = []) \<and>
       (ud_metricMigrations d = [] \<or> real_reason (or_else (uo_migrationReason opts) (uo_reason opts))) \<and>
       (uo_retire opts = None \<or> rs_failure (resolveRetire (the (uo_retire opts)) (collectOrphanRemovals committed ratchets)) = None) \<and>
       (uo_allowWorse opts \<longrightarrow> real_reason (uo_reason opts))"
  using decide_cases[of lc committed ratchets generated opts glob] assms
  by (cases "uo_retire opts") (auto simp: gate_failures_Nil)

text \<open>
  C7: the update decision returns on every input, and accepts exactly when: worse counts, lost
  coverage and removed ratchets are absent or explicitly accepted; metric migrations have a real
  reason; a requested retirement is justified; and an acceptance of worse counts has a real reason.
\<close>

theorem update_gate_exact:
  "\<exists>d. decideLintRatchetUpdate lc glob committed generated ratchets opts = Inr d \<and>
     (ud_allowed d \<longleftrightarrow>
       (if uo_allowWorse opts then real_reason (uo_reason opts)
        else cmp_regressions d = [] \<and> ud_coverageShrinks d = [] \<and> ud_orphanRemovals d = []) \<and>
       (ud_metricMigrations d = [] \<or> real_reason (or_else (uo_migrationReason opts) (uo_reason opts))) \<and>
       (uo_retire opts = None \<or> rs_failure (resolveRetire (the (uo_retire opts)) (collectOrphanRemovals committed ratchets)) = None))"
  using decide_cases[of lc committed ratchets generated opts glob] update_gate_facts[of lc glob committed generated ratchets opts]
  by (cases "uo_allowWorse opts") auto

lemma increased_none:
  fixes c :: item_context
  shows
  "Option.bind (ic_baselineItem c) mi_lines = None \<Longrightarrow>
     increasedLinesComparison c (Option.bind (ic_baselineItem c) mi_lines) n = None"
  "Option.bind (ic_baselineItem c) mi_perFunction = None \<Longrightarrow> complexityDelta lc (ic_baselineItem c) i = None"
  by (auto simp: increasedLinesComparison_def complexityDelta_def)

lemma count_regression_reason:
  assumes "mi_count (ic_current c) > baseline_count c" and "co_regression (compareItem lc m c) = Some x"
    and "m = EffectiveLineCount \<Longrightarrow> Option.bind (ic_baselineItem c) mi_lines = None"
    and "m = ComplexitySeverity \<Longrightarrow> Option.bind (ic_baselineItem c) mi_perFunction = None"
  shows "count_comparable_regression (dl_reason x)"
proof -
  have s: "\<exists>r. countComparison c p q = Some r \<and> (\<forall>x. co_regression r = Some x \<longrightarrow> count_comparable_regression (dl_reason x))" for p q
  proof -
    obtain r where r: "countComparison c p q = Some r"
      using assms(1) countComparison_None[of c p q] by (cases "countComparison c p q") auto
    with countComparison_Some[OF r] show ?thesis by auto
  qed
  show ?thesis
  proof (cases m)
    case MessageCount
    then show ?thesis
      using assms(2) s by (auto simp: compareMessageCountItem_def Let_def split: option.splits)
         (metis option.inject option.distinct(1))+
  next
    case EffectiveLineCount
    then show ?thesis
      using assms(2) s increased_none(1)[OF assms(3)]
      by (auto simp: compareEffectiveLineCountItem_def Let_def split: option.splits)
         (metis option.inject option.distinct(1))+
  next
    case ComplexitySeverity
    then show ?thesis
      using assms(2) s increased_none(2)[OF assms(4), of lc "ic_current c"]
      by (auto simp: compareComplexitySeverityItem_def increasedComplexityComparison_def Let_def split: option.splits)
         (metis option.inject option.distinct(1))+
  qed
qed

lemma regression_testId:
  assumes "co_regression (compareItem lc m c) = Some x"
  shows "dl_testId x = rc_id (ic_ratchet c)"
proof -
  have "co_regression r = Some x \<Longrightarrow> dl_testId x = rc_id (ic_ratchet c)" if "countComparison c p q = Some r" for p q r
    using countComparison_Some[OF that] by auto
  then show ?thesis
    using assms
    by (cases m)
       (auto simp: compareMessageCountItem_def compareEffectiveLineCountItem_def compareComplexitySeverityItem_def
          increasedLinesComparison_def increasedComplexityComparison_def lowerLinesComparison_def
          lowerComplexityComparison_def base_delta_def no_change_def Let_def split: option.splits if_splits)
qed

lemma registered_id: "map_of (registered ratchets) k = Some r \<Longrightarrow> rc_id r = k"
  by (auto simp: registered_def map_of_map_from dest!: map_of_SomeD)

lemma compared_context_facts:
  assumes "compared_context b ratchets cur k p = Some c"
  shows "rc_id (ic_ratchet c) = k" "ic_baselineItem c = committed_item b k p" "collected_item cur k p = Some (ic_current c)"
    "compared_ratchet b ratchets k = Some (ic_ratchet c)"
  using assms registered_id
  by (auto simp: compared_context_def compared_ratchet_def split: option.splits if_splits)

lemma accepted_no_regressions:
  assumes "decideLintRatchetUpdate lc glob committed generated ratchets opts = Inr d"
    and "ud_allowed d" and "\<not> uo_allowWorse opts"
    and c: "compared_context committed ratchets (currentByIdFromBaseline generated) k p = Some c"
    and x: "co_regression (compareItem lc (rc_metric (ic_ratchet c)) c) = Some x"
  shows "k \<in> set (map mm_ratchetId (collectMetricMigrations committed generated)) \<and> \<not> count_comparable_regression (dl_reason x)"
proof -
  let ?cur = "currentByIdFromBaseline generated"
  obtain raw where raw: "compareCurrentToBaseline lc committed ratchets ?cur (uo_workflowVocabulary opts) = Inr raw"
      "cmp_regressions d = cmp_regressions (excludeIncomparableMigratedDeltas raw (map mm_ratchetId (collectMetricMigrations committed generated)))"
    using decide_cases[of lc committed ratchets generated opts glob] assms(1) by auto
  have "x \<in> set (cmp_regressions raw)"
    using compare_visits[of lc committed ratchets ?cur "uo_workflowVocabulary opts"] raw(1) x c
    by (auto simp: verdict_regression)
  moreover have "cmp_regressions d = []"
    using update_gate_facts[OF assms(1)] assms(2,3) by blast
  moreover have "dl_testId x = k"
    using regression_testId[OF x] compared_context_facts(1)[OF c] by simp
  ultimately show ?thesis
    using raw(2) by (auto simp: excludeIncomparableMigratedDeltas_def filter_empty_conv split: if_splits)
qed

lemma migrated_ids:
  "k \<in> set (map mm_ratchetId (collectMetricMigrations committed generated)) \<longleftrightarrow>
     (\<exists>old new. map_of (bl_tests committed) k = Some old \<and> (k, new) \<in> set (bl_tests generated) \<and> gm_metric old \<noteq> gm_metric new)"
  by (force simp: collectMetricMigrations_def image_iff split: option.splits if_splits)

text \<open>The options and the registry of the witnesses.\<close>

definition plain_options :: update_options where
  "plain_options = \<lparr>uo_allowWorse = False, uo_workflowVocabulary = sample_vocab, uo_reason = None,
     uo_migrationReason = None, uo_retire = None\<rparr>"

definition one_ratchet :: "metric \<Rightarrow> ratchet_config list" where
  "one_ratchet m = [sample_ratchet ''ratchet/a'' ''no-console'' m CoreSource]"

definition exact_glob :: globber where
  "exact_glob pattern path \<longleftrightarrow> pattern = path"

definition accepted :: "compare_error + update_decision \<Rightarrow> bool" where
  "accepted r = (case r of Inl _ \<Rightarrow> False | Inr d \<Rightarrow> ud_allowed d)"

definition retire_options :: update_options where
  "retire_options = plain_options\<lparr>uo_retire := Some \<lparr>rr_id = ''ratchet/a'', rr_normalErrorProven = True,
     rr_optionsAttestation = None\<rparr>\<rparr>"

text \<open>The updates of the witnesses: a decrease, a change of metric, a retirement, and changed globs.\<close>

lemma sample_updates:
  defines "b \<equiv> sample_baseline [(''p'', 2)]" and "g \<equiv> sample_baseline [(''p'', 1)]"
    and "scope \<equiv> (sample_test [])\<lparr>gm_files := [''src/a.ts'', ''src/b.ts'']\<rparr>"
  shows "accepted (decideLintRatchetUpdate codeUnitCompare exact_glob b g (one_ratchet MessageCount) plain_options)
    \<and> accepted (decideLintRatchetUpdate codeUnitCompare exact_glob b g (one_ratchet ComplexitySeverity) plain_options)
    \<and> accepted (decideLintRatchetUpdate codeUnitCompare exact_glob (sample_baseline [])
          ((sample_baseline [])\<lparr>bl_tests := []\<rparr>) [] retire_options)
    \<and> accepted (decideLintRatchetUpdate codeUnitCompare exact_glob (sample_baseline [(''src/a.ts'', 2)])
          ((sample_baseline [])\<lparr>bl_tests := [(''ratchet/a'', scope)]\<rparr>) (one_ratchet MessageCount) plain_options)"
  unfolding assms by code_simp

lemma acceptedE: "accepted r \<Longrightarrow> \<exists>d. r = Inr d \<and> ud_allowed d"
  by (auto simp: accepted_def split: sum.splits)

text \<open>
  C8: an accepted update that does not explicitly accept worse counts makes no item worse, on any
  axis of the metric, in a test whose metric is unchanged.
\<close>

theorem accepted_update_not_worse:
  assumes "decideLintRatchetUpdate lc glob committed generated ratchets opts = Inr d"
    and "ud_allowed d" and "\<not> uo_allowWorse opts"
    and "compared_context committed ratchets (currentByIdFromBaseline generated) testId path = Some c"
    and "\<And>old new. map_of (bl_tests committed) testId = Some old \<Longrightarrow> (testId, new) \<in> set (bl_tests generated) \<Longrightarrow>
           gm_metric old = gm_metric new"
  shows "\<not> worse lc (rc_metric (ic_ratchet c)) c"
  using accepted_no_regressions[OF assms(1-4)] assms(5)
  unfolding migrated_ids compareItem_regression_iff[symmetric] by blast

theorem accepted_update_not_worse_witness:
  "\<exists>c. compared_context (sample_baseline [(''p'', 2)]) (one_ratchet MessageCount)
        (currentByIdFromBaseline (sample_baseline [(''p'', 1)])) ''ratchet/a'' ''p'' = Some c \<and>
     \<not> worse codeUnitCompare (rc_metric (ic_ratchet c)) c"
proof -
  let ?b = "sample_baseline [(''p'', 2)]" and ?g = "sample_baseline [(''p'', 1)]"
  have "accepted (decideLintRatchetUpdate codeUnitCompare exact_glob ?b ?g (one_ratchet MessageCount) plain_options)"
    using sample_updates by blast
  then obtain d where d: "decideLintRatchetUpdate codeUnitCompare exact_glob ?b ?g (one_ratchet MessageCount) plain_options = Inr d"
    "ud_allowed d" using acceptedE by blast
  have w: "\<not> uo_allowWorse plain_options" by (simp add: plain_options_def)
  have "compared_context ?b (one_ratchet MessageCount) (currentByIdFromBaseline ?g) ''ratchet/a'' ''p'' \<noteq> None"
    by code_simp
  then obtain c where c: "compared_context ?b (one_ratchet MessageCount) (currentByIdFromBaseline ?g) ''ratchet/a'' ''p'' = Some c"
    by blast
  have "\<not> worse codeUnitCompare (rc_metric (ic_ratchet c)) c"
    by (rule accepted_update_not_worse[OF d w c]) (auto simp: sample_baseline_def sample_test_def group_meta.extend_def sample_meta_def)
  with c show ?thesis by blast
qed

text \<open>
  C9: an accepted update that does not explicitly accept worse counts raises no count even where a
  ratchet's metric changes, as long as the committed items are valid for the metric they were
  written with.
\<close>

theorem accepted_migration_keeps_counts:
  assumes "decideLintRatchetUpdate lc glob committed generated ratchets opts = Inr d"
    and "ud_allowed d" and "\<not> uo_allowWorse opts"
    and c: "compared_context committed ratchets (currentByIdFromBaseline generated) testId path = Some c"
    and old: "map_of (bl_tests committed) testId = Some old" "gm_metric old \<noteq> rc_metric (ic_ratchet c)"
    and valid: "\<And>i. committed_item committed testId path = Some i \<Longrightarrow> validateItem path (gm_metric old) i = []"
  shows "mi_count (ic_current c) \<le> baseline_count c"
proof (rule ccontr)
  assume "\<not> ?thesis"
  then have more: "mi_count (ic_current c) > baseline_count c" by simp
  then obtain x where x: "co_regression (compareItem lc (rc_metric (ic_ratchet c)) c) = Some x"
    using compareItem_regression_iff[of lc "rc_metric (ic_ratchet c)" c] by (auto simp: worse_def)
  have b: "ic_baselineItem c = committed_item committed testId path"
    by (rule compared_context_facts(2)[OF c])
  have "count_comparable_regression (dl_reason x)"
  proof (rule count_regression_reason[OF more x])
    show "Option.bind (ic_baselineItem c) mi_lines = None" if "rc_metric (ic_ratchet c) = EffectiveLineCount"
      using that valid old(2) b by (cases "committed_item committed testId path"; cases "gm_metric old") (auto simp: fail_if_def split: if_splits)
    show "Option.bind (ic_baselineItem c) mi_perFunction = None" if "rc_metric (ic_ratchet c) = ComplexitySeverity"
      using that valid old(2) b by (cases "committed_item committed testId path"; cases "gm_metric old") (auto simp: fail_if_def split: if_splits)
  qed
  then show False
    using accepted_no_regressions[OF assms(1-3) c x] by blast
qed

theorem accepted_migration_keeps_counts_witness:
  "\<exists>c. compared_context (sample_baseline [(''p'', 2)]) (one_ratchet ComplexitySeverity)
        (currentByIdFromBaseline (sample_baseline [(''p'', 1)])) ''ratchet/a'' ''p'' = Some c \<and>
     mi_count (ic_current c) \<le> baseline_count c"
proof -
  let ?b = "sample_baseline [(''p'', 2)]" and ?g = "sample_baseline [(''p'', 1)]"
  have "accepted (decideLintRatchetUpdate codeUnitCompare exact_glob ?b ?g (one_ratchet ComplexitySeverity) plain_options)"
    using sample_updates by blast
  then obtain d where d: "decideLintRatchetUpdate codeUnitCompare exact_glob ?b ?g (one_ratchet ComplexitySeverity) plain_options = Inr d"
    "ud_allowed d" using acceptedE by blast
  have w: "\<not> uo_allowWorse plain_options" by (simp add: plain_options_def)
  have "map_option (\<lambda>c. rc_metric (ic_ratchet c)) (compared_context ?b (one_ratchet ComplexitySeverity) (currentByIdFromBaseline ?g) ''ratchet/a'' ''p'') = Some ComplexitySeverity"
    by code_simp
  then obtain c where c: "compared_context ?b (one_ratchet ComplexitySeverity) (currentByIdFromBaseline ?g) ''ratchet/a'' ''p'' = Some c"
    "rc_metric (ic_ratchet c) = ComplexitySeverity" by auto
  have old: "map_of (bl_tests ?b) ''ratchet/a'' = Some (sample_test [(''p'', 2)])" "gm_metric (sample_test [(''p'', 2)]) = MessageCount"
    by code_simp+
  have i: "committed_item ?b ''ratchet/a'' ''p'' = Some (count_item 2)" "validateItem ''p'' MessageCount (count_item 2) = []"
    by code_simp+
  have "mi_count (ic_current c) \<le> baseline_count c"
    by (rule accepted_migration_keeps_counts[OF d w c(1) old(1)]) (use i c(2) old(2) in auto)
  with c show ?thesis by blast
qed

lemma removal_base:
  assumes "decideLintRatchetUpdate lc glob committed generated ratchets opts = Inr d"
    and "ud_allowed d" and "\<not> uo_allowWorse opts"
    and t: "map_of (bl_tests committed) testId = Some t" "testId \<notin> set (map rc_id ratchets)"
  shows "(\<exists>r. uo_retire opts = Some r \<and> rr_id r = testId \<and> rr_normalErrorProven r) \<and>
     (\<Sum>x\<leftarrow>bt_items t. mi_count (snd x)) \<le> 0 \<and> ud_retiredRatchetId d = Some testId"
proof -
  let ?rs = "collectOrphanRemovals committed ratchets"
  let ?x = "\<lparr>or_testId = testId, or_ruleId = gm_ruleId t, or_metric = gm_metric t, or_baselineItems = orphanBaselineItems t\<rparr>"
  have x: "?x \<in> set ?rs"
    using t unfolding collectOrphanRemovals_set by (auto simp: orphan_at_def intro!: exI[of _ testId])
  have "ud_orphanRemovals d = []"
    using update_gate_facts[OF assms(1)] assms(2,3) by blast
  then have n: "accountableOrphans ?rs (Option.bind (uo_retire opts) (\<lambda>r. rs_retiredRatchetId (resolveRetire r ?rs))) = []"
    and d: "ud_retiredRatchetId d = Option.bind (uo_retire opts) (\<lambda>r. rs_retiredRatchetId (resolveRetire r ?rs))"
    using decide_cases[of lc committed ratchets generated opts glob] assms(1,2) by auto
  obtain r where r: "uo_retire opts = Some r" "rs_retiredRatchetId (resolveRetire r ?rs) = Some testId"
    using n x by (auto simp: accountableOrphans_def filter_empty_conv bind_eq_Some_conv split: option.splits)
  have res: "testId = rr_id r" "rr_normalErrorProven r" "\<exists>y \<in> set ?rs. or_testId y = testId \<and> orphanFindingTotal y \<le> 0"
    using resolveRetire_id[OF r(2)] by auto
  then obtain y where y: "y \<in> set ?rs" "or_testId y = testId" "orphanFindingTotal y \<le> 0" by blast
  have "y = ?x"
    using y(1,2) t(1) unfolding collectOrphanRemovals_set by (auto simp: orphan_at_def split: if_splits option.splits)
  then show ?thesis
    using res r d y(3) orphanFindingTotal_sum[of testId "gm_ruleId t" "gm_metric t" t] by simp
qed

text \<open>
  C10: an accepted update that does not explicitly accept worse counts drops a ratchet from the
  registry only as a retirement: the one that was asked for, proven to be an error in normal lint,
  with no findings left.
\<close>

theorem accepted_removal_is_retirement:
  assumes "decideLintRatchetUpdate lc glob committed generated ratchets opts = Inr d"
    and "ud_allowed d" and "\<not> uo_allowWorse opts"
    and t: "map_of (bl_tests committed) testId = Some t" "testId \<notin> set (map rc_id ratchets)"
  shows "(\<exists>r. uo_retire opts = Some r \<and> rr_id r = testId \<and> rr_normalErrorProven r) \<and>
     (\<Sum>x\<leftarrow>bt_items t. mi_count (snd x)) \<le> 0 \<and> ud_retiredRatchetId d = Some testId"
  by (rule removal_base[OF assms])

theorem accepted_removal_is_retirement_witness:
  "\<exists>r. uo_retire retire_options = Some r \<and> rr_id r = ''ratchet/a'' \<and> rr_normalErrorProven r"
proof -
  let ?b = "sample_baseline []"
  have "accepted (decideLintRatchetUpdate codeUnitCompare exact_glob ?b (?b\<lparr>bl_tests := []\<rparr>) [] retire_options)"
    using sample_updates by blast
  then obtain d where d: "decideLintRatchetUpdate codeUnitCompare exact_glob ?b (?b\<lparr>bl_tests := []\<rparr>) [] retire_options = Inr d"
    "ud_allowed d" using acceptedE by blast
  have w: "\<not> uo_allowWorse retire_options" by (simp add: retire_options_def plain_options_def)
  have t: "map_of (bl_tests ?b) ''ratchet/a'' = Some (sample_test [])" by code_simp
  show ?thesis
    using accepted_removal_is_retirement[OF d w t] by simp
qed

text \<open>
  C11: an accepted update that does not explicitly accept worse counts loses no covered path: a path
  with findings that is gone from a test whose globs changed is still matched by the new globs.
\<close>

theorem accepted_update_keeps_coverage:
  assumes "decideLintRatchetUpdate lc glob committed generated ratchets opts = Inr d"
    and "ud_allowed d" and "\<not> uo_allowWorse opts"
    and "map_of (bl_tests committed) testId = Some old" and "(testId, new) \<in> set (bl_tests generated)"
    and "gm_files old \<noteq> gm_files new \<or> gm_ignores old \<noteq> gm_ignores new"
    and "path \<in> set (map fst (bt_items old))" and "map_of (bt_items new) path = None"
  shows "matchesRatchet glob (gm_files new) (gm_ignores new) path"
proof -
  have "ud_coverageShrinks d = []"
    using update_gate_facts[OF assms(1)] assms(2,3) by blast
  then have "collectCoverageShrinks glob committed generated = []"
    using decide_cases[of lc committed ratchets generated opts glob] assms(1) by auto
  then have "removed_from_coverage glob old new = []"
    using assms(4-6) unfolding collectCoverageShrinks_Nil by blast
  then show ?thesis
    using assms(7,8) by (auto simp: removed_from_coverage_def filter_empty_conv)
qed

theorem accepted_update_keeps_coverage_witness:
  "matchesRatchet exact_glob [''src/a.ts'', ''src/b.ts''] [] ''src/a.ts''"
proof -
  let ?old = "sample_test [(''src/a.ts'', 2)]" and ?new = "(sample_test [])\<lparr>gm_files := [''src/a.ts'', ''src/b.ts'']\<rparr>"
  let ?b = "sample_baseline [(''src/a.ts'', 2)]" and ?g = "(sample_baseline [])\<lparr>bl_tests := [(''ratchet/a'', ?new)]\<rparr>"
  have "accepted (decideLintRatchetUpdate codeUnitCompare exact_glob ?b ?g (one_ratchet MessageCount) plain_options)"
    using sample_updates by blast
  then obtain d where d: "decideLintRatchetUpdate codeUnitCompare exact_glob ?b ?g (one_ratchet MessageCount) plain_options = Inr d"
    "ud_allowed d" using acceptedE by blast
  have w: "\<not> uo_allowWorse plain_options" by (simp add: plain_options_def)
  have o: "map_of (bl_tests ?b) ''ratchet/a'' = Some ?old" by (simp add: sample_baseline_def)
  have n: "(''ratchet/a'', ?new) \<in> set (bl_tests ?g)" by simp
  have "matchesRatchet exact_glob (gm_files ?new) (gm_ignores ?new) ''src/a.ts''"
    by (rule accepted_update_keeps_coverage[OF d w o n]) code_simp+
  then show ?thesis
    by (simp add: sample_test_def sample_meta_def group_meta.extend_def)
qed

text \<open>
  An update that changes nothing is accepted: with every committed id registered, the committed
  baseline itself passes the gate without any flag.
\<close>

theorem unchanged_update_accepted:
  assumes "positive_items b" and "set (map fst (bl_tests b)) \<subseteq> set (map rc_id ratchets)"
    and "distinct (map fst (bl_tests b))" and "\<not> uo_allowWorse opts" and "uo_retire opts = None"
  shows "\<exists>d. decideLintRatchetUpdate lc glob b b ratchets opts = Inr d \<and> ud_allowed d \<and> cmp_regressions d = []"
proof -
  have at: "map_of (bl_tests b) k = Some t" if "(k, t) \<in> set (bl_tests b)" for k t
    using that assms(3) by simp
  have m: "collectMetricMigrations b b = []"
    by (auto simp: collectMetricMigrations_def at)
  have s: "collectCoverageShrinks glob b b = []"
    unfolding collectCoverageShrinks_Nil by (auto simp: at simp del: map_of_eq_Some_iff)
  have o: "collectOrphanRemovals b ratchets = []"
    using assms(2) by (auto simp: collectOrphanRemovals_def)
  show ?thesis
    using decide_cases[of lc b ratchets b opts glob] self_comparison_not_worse_base[OF assms(1), of lc ratchets "uo_workflowVocabulary opts"] assms(4,5)
    by (auto simp: gate_failures_Nil m s o excludeIncomparableMigratedDeltas_def accountableOrphans_def)
qed

end
