(* ===== verification/UpdateApplyLaws.thy ===== *)
theory UpdateApplyLaws
  imports UpdateApply DebtLogLaws UpdateLaws
begin

text \<open>
  Properties of the two writes of an update: what a run that fails leaves behind, the debt log is
  written first, and an update that was cut off or whose write was refused is completed by running it
  again.
\<close>

section \<open>One run\<close>

lemma gate_parsed:
  assumes "gateCommittedBaseline jp lc glob p fs = Inr (decision, warnings)" and "fs_baseline fs = Some txt"
  shows "\<exists>b. parseCommittedStructure jp lc (ap_context p) txt = Inr b"
  using assms by (auto simp: gateCommittedBaseline_def and_then_Inr)

lemma report_total:
  assumes "gateCommittedBaseline jp lc glob p fs = Inr (decision, warnings)"
    and "txt = (case fs_baseline fs of None \<Rightarrow> [] | Some s \<Rightarrow> s)"
  shows "\<exists>lines. reportUpdateClassification jp lc (ap_context p) txt generated = Inr lines"
  using assms gate_parsed[OF assms(1)]
  by (cases "fs_baseline fs") (auto simp: reportUpdateClassification_def)

text \<open>With a file system that does what it is asked to do.\<close>

lemma writes_ok [simp]:
  "log_then_baseline io_ok rendered fs w log =
     (None, (if w then [fs\<lparr>fs_debtLog := log\<rparr>] else []) @ [fs\<lparr>fs_debtLog := log, fs_baseline := Some rendered\<rparr>])"
  by (simp add: log_then_baseline_def appendFileSync_def writeFileAtomicallySync_def io_ok_def Let_def)

lemmas apply_unfold = applyLintRatchetUpdate_def[where io = io_ok, unfolded writes_ok prod.case option.case]

text \<open>The runs of the update: refused or nothing to do, or both writes.\<close>

definition owed_entries :: "json_parser \<Rightarrow> string cmp \<Rightarrow> globber \<Rightarrow> apply_params \<Rightarrow> files \<Rightarrow> debt_entry list" where
  "owed_entries jp lc glob p fs =
     (case gateCommittedBaseline jp lc glob p fs of
        Inl _ \<Rightarrow> []
      | Inr (decision, _) \<Rightarrow> debtLogEntriesForUpdate decision (ap_options p))"

lemma run_cases:
  obtains (quiet) "ur_trace (applyLintRatchetUpdate io_ok jp lc glob issues p fs) = []"
    | (written) w log where
        "fs_baseline fs \<noteq> Some (ap_rendered p)"
        "appendValidatedDebtLogEntries issues (owed_entries jp lc glob p fs) (fs_debtLog fs) = Inr (w, log)"
        "ur_trace (applyLintRatchetUpdate io_ok jp lc glob issues p fs) =
           (if w then [fs\<lparr>fs_debtLog := log\<rparr>] else []) @ [fs\<lparr>fs_debtLog := log, fs_baseline := Some (ap_rendered p)\<rparr>]"
        "\<exists>b. ur_result (applyLintRatchetUpdate io_ok jp lc glob issues p fs) = Inr b"
proof (cases "gateCommittedBaseline jp lc glob p fs")
  case (Inl e)
  then show ?thesis by (intro quiet) (simp add: apply_unfold failed_def)
next
  case (Inr dw)
  obtain decision warnings where dw: "dw = (decision, warnings)" by (cases dw)
  let ?txt = "case fs_baseline fs of None \<Rightarrow> [] | Some s \<Rightarrow> s"
  obtain lines where lines: "reportUpdateClassification jp lc (ap_context p) ?txt (ap_generated p) = Inr lines"
    using report_total[OF Inr[unfolded dw] refl] by blast
  have owed: "owed_entries jp lc glob p fs = debtLogEntriesForUpdate decision (ap_options p)"
    by (simp add: owed_entries_def Inr dw)
  show ?thesis
  proof (cases "?txt = ap_rendered p")
    case True
    then show ?thesis by (intro quiet) (simp add: apply_unfold Inr dw)
  next
    case False
    show ?thesis
    proof (cases "appendValidatedDebtLogEntries issues (debtLogEntriesForUpdate decision (ap_options p)) (fs_debtLog fs)")
      case (Inl m)
      with False show ?thesis
        by (intro quiet) (simp add: apply_unfold \<open>gateCommittedBaseline _ _ _ _ _ = _\<close> dw failed_def)
    next
      case append: (Inr wl)
      obtain w log where wl: "wl = (w, log)" by (cases wl)
      have "fs_baseline fs \<noteq> Some (ap_rendered p)" using False by auto
      moreover have "ur_trace (applyLintRatchetUpdate io_ok jp lc glob issues p fs) =
           (if w then [fs\<lparr>fs_debtLog := log\<rparr>] else []) @ [fs\<lparr>fs_debtLog := log, fs_baseline := Some (ap_rendered p)\<rparr>]"
        "\<exists>b. ur_result (applyLintRatchetUpdate io_ok jp lc glob issues p fs) = Inr b"
        using False append lines by (simp_all add: apply_unfold Inr dw wl Let_def)
      ultimately show ?thesis
        using append by (intro written[of w log]) (simp_all add: owed wl)
    qed
  qed
qed

lemma gate_same_baseline:
  "fs_baseline s = fs_baseline fs \<Longrightarrow> gateCommittedBaseline jp lc glob p s = gateCommittedBaseline jp lc glob p fs"
  by (simp add: gateCommittedBaseline_def)

lemma run_on_rendered:
  assumes "fs_baseline s = Some (ap_rendered p)"
  shows "ur_trace (applyLintRatchetUpdate io_ok jp lc glob issues p s) = []"
  using assms by (cases rule: run_cases[of jp lc glob issues p s]) auto

section \<open>Runs with writes that throw\<close>

lemma gate_error: "gateCommittedBaseline jp lc glob p fs = Inl e \<Longrightarrow> e \<noteq> UpdIo m"
  by (auto simp: gateCommittedBaseline_def parseCommittedStructure_def and_then_def lift_error_def Let_def
      split: option.splits sum.splits if_splits prod.splits)

lemma quiet_cases:
  assumes "ur_trace (applyLintRatchetUpdate io_ok jp lc glob issues p fs) = []"
  obtains (refused) e where "gateCommittedBaseline jp lc glob p fs = Inl e"
  | (unchanged) d ws where "gateCommittedBaseline jp lc glob p fs = Inr (d, ws)"
      "(case fs_baseline fs of None \<Rightarrow> [] | Some s \<Rightarrow> s) = ap_rendered p"
  | (invalid) d ws m where "gateCommittedBaseline jp lc glob p fs = Inr (d, ws)"
      "appendValidatedDebtLogEntries issues (debtLogEntriesForUpdate d (ap_options p)) (fs_debtLog fs) = Inl m"
proof (cases "gateCommittedBaseline jp lc glob p fs")
  case (Inr dw)
  obtain d ws where dw: "dw = (d, ws)" by (cases dw)
  show ?thesis
  proof (cases "appendValidatedDebtLogEntries issues (debtLogEntriesForUpdate d (ap_options p)) (fs_debtLog fs)")
    case (Inl m)
    with \<open>gateCommittedBaseline jp lc glob p fs = Inr dw\<close> dw show ?thesis by (intro invalid) auto
  next
    case append: (Inr wl)
    then have "(case fs_baseline fs of None \<Rightarrow> [] | Some s \<Rightarrow> s) = ap_rendered p"
      using assms by (cases wl) (simp add: apply_unfold Inr dw Let_def split: if_splits sum.splits)
    with Inr dw show ?thesis by (intro unchanged) auto
  qed
qed (rule refused)

lemma quiet_run:
  assumes "ur_trace (applyLintRatchetUpdate io_ok jp lc glob issues p fs) = []"
  shows "applyLintRatchetUpdate io jp lc glob issues p fs = applyLintRatchetUpdate io_ok jp lc glob issues p fs"
  using assms by (cases rule: quiet_cases) (simp_all add: applyLintRatchetUpdate_def Let_def)

lemma quiet_error:
  assumes "ur_trace (applyLintRatchetUpdate io_ok jp lc glob issues p fs) = []"
  shows "ur_result (applyLintRatchetUpdate io_ok jp lc glob issues p fs) \<noteq> Inl (UpdIo m)"
  using assms gate_error[of jp lc glob p fs]
  by (cases rule: quiet_cases) (simp_all add: apply_unfold failed_def Let_def)

lemma quiet_success:
  assumes "ur_trace (applyLintRatchetUpdate io_ok jp lc glob issues p fs) = []"
    and "ur_result (applyLintRatchetUpdate io_ok jp lc glob issues p fs) = Inr b"
  shows "(case fs_baseline fs of None \<Rightarrow> [] | Some s \<Rightarrow> s) = ap_rendered p"
  using assms(1)
proof (cases rule: quiet_cases)
  case (refused e)
  then show ?thesis using assms(2) by (simp add: apply_unfold failed_def)
next
  case (invalid d ws m)
  then show ?thesis using assms(2) by (simp add: apply_unfold failed_def Let_def split: if_splits)
qed

text \<open>
  A run either touches no file, and then its error is none of the file system's, or it has the two
  writes, and its only error is what they throw.
\<close>

lemma run_cases_io:
  obtains (quiet) "ur_trace (applyLintRatchetUpdate io jp lc glob issues p fs) = []"
        "\<nexists>m. ur_result (applyLintRatchetUpdate io jp lc glob issues p fs) = Inl (UpdIo m)"
        "ur_trace (applyLintRatchetUpdate io_ok jp lc glob issues p fs) = []"
        "applyLintRatchetUpdate io jp lc glob issues p fs = applyLintRatchetUpdate io_ok jp lc glob issues p fs"
    | (written) w log thrown states where
        "appendValidatedDebtLogEntries issues (owed_entries jp lc glob p fs) (fs_debtLog fs) = Inr (w, log)"
        "log_then_baseline io (ap_rendered p) fs w log = (thrown, states)"
        "ur_trace (applyLintRatchetUpdate io jp lc glob issues p fs) = states"
        "case thrown of None \<Rightarrow> \<exists>b. ur_result (applyLintRatchetUpdate io jp lc glob issues p fs) = Inr b
           | Some m \<Rightarrow> ur_result (applyLintRatchetUpdate io jp lc glob issues p fs) = Inl (UpdIo m)"
        "ur_trace (applyLintRatchetUpdate io_ok jp lc glob issues p fs) =
           (if w then [fs\<lparr>fs_debtLog := log\<rparr>] else []) @ [fs\<lparr>fs_debtLog := log, fs_baseline := Some (ap_rendered p)\<rparr>]"
proof (cases rule: run_cases[of jp lc glob issues p fs])
  case quiet
  have same: "applyLintRatchetUpdate io jp lc glob issues p fs = applyLintRatchetUpdate io_ok jp lc glob issues p fs"
    by (rule quiet_run[OF quiet])
  show ?thesis
    by (rule that(1)) (simp_all add: same quiet quiet_error[OF quiet])
next
  case (written w log)
  obtain thrown states where writes: "log_then_baseline io (ap_rendered p) fs w log = (thrown, states)" by fastforce
  obtain d ws where gate: "gateCommittedBaseline jp lc glob p fs = Inr (d, ws)"
    using written(3) by (cases "gateCommittedBaseline jp lc glob p fs") (auto simp: apply_unfold failed_def)
  let ?txt = "case fs_baseline fs of None \<Rightarrow> [] | Some s \<Rightarrow> s"
  have changes: "?txt \<noteq> ap_rendered p" using written(3) by (auto simp: apply_unfold gate)
  obtain lines where lines: "reportUpdateClassification jp lc (ap_context p) ?txt (ap_generated p) = Inr lines"
    using report_total[OF gate refl] by blast
  have append: "appendValidatedDebtLogEntries issues (debtLogEntriesForUpdate d (ap_options p)) (fs_debtLog fs) = Inr (w, log)"
    using written(2) by (simp add: owed_entries_def gate)
  show ?thesis
  proof (rule that(2)[OF written(2) writes _ _ written(3)])
    show "ur_trace (applyLintRatchetUpdate io jp lc glob issues p fs) = states"
      using changes by (simp add: applyLintRatchetUpdate_def gate append writes lines Let_def split: option.split)
    show "case thrown of None \<Rightarrow> \<exists>b. ur_result (applyLintRatchetUpdate io jp lc glob issues p fs) = Inr b
        | Some m \<Rightarrow> ur_result (applyLintRatchetUpdate io jp lc glob issues p fs) = Inl (UpdIo m)"
      using changes by (simp add: applyLintRatchetUpdate_def gate append writes lines Let_def split: option.split)
  qed
qed

section \<open>A run for the witnesses\<close>

definition stored_baseline :: "int \<Rightarrow> ratchet_baseline" where
  "stored_baseline n = (let h = ''sha256:'' @ replicate 64 (CHR ''a'') in
     (sample_baseline [])\<lparr>bl_tests := [(''ratchet/a'', (sample_test [(''src/a.ts'', n)])
        \<lparr>gm_configHash := h, gm_ruleSourceHash := h\<rparr>)]\<rparr>)"

definition stored_document :: "string \<Rightarrow> string + jsval" where
  "stored_document _ = Inr (formatTestsDocument
     (lintRatchetBaselineSpec codeUnitCompare default_version_policy sample_vocab ''baseline.json'')
     (lintRatchetBaselineToGrouped (stored_baseline 1)))"

definition sample_apply :: apply_params where
  "sample_apply = \<lparr>ap_context = \<lparr>ec_baselineName = ''baseline.json'', ec_debtLogName = ''log.jsonl'',
       ec_workflowVocabulary = sample_vocab\<rparr>,
     ap_generated = stored_baseline 2, ap_rendered = ''two'',
     ap_registry = one_ratchet MessageCount,
     ap_options = plain_options\<lparr>uo_allowWorse := True, uo_reason := Some ''the new check finds one more''\<rparr>,
     ap_currentFindingCount = 2\<rparr>"

definition sample_files :: files where
  "sample_files = \<lparr>fs_baseline = Some ''one'', fs_debtLog = None\<rparr>"

definition sample_run :: "files \<Rightarrow> update_run" where
  "sample_run = applyLintRatchetUpdate io_ok stored_document codeUnitCompare exact_glob (\<lambda>_. []) sample_apply"

text \<open>The files after its first and after its second write.\<close>

definition files_at :: "nat \<Rightarrow> files" where
  "files_at n = ur_trace (sample_run sample_files) ! n"

lemma sample_run_facts:
  "map fs_baseline (ur_trace (sample_run sample_files)) = [Some ''one'', Some ''two''] \<and>
   owed_entries stored_document codeUnitCompare exact_glob sample_apply sample_files \<noteq> []"
  by code_simp

lemmas sample_run_writes = sample_run_facts[THEN conjunct1]

lemma files_at_trace: "n < 2 \<Longrightarrow> files_at n \<in> set (ur_trace (sample_run sample_files))"
  using arg_cong[OF sample_run_writes, of length] by (simp add: files_at_def)

lemma files_at_baseline: "fs_baseline (files_at 0) = Some ''one''" "fs_baseline (files_at 1) = Some ''two''"
  using arg_cong[OF sample_run_writes, of "\<lambda>xs. xs ! 0"] arg_cong[OF sample_run_writes, of "\<lambda>xs. xs ! 1"]
    arg_cong[OF sample_run_writes, of length]
  by (simp_all add: files_at_def)

section \<open>Properties\<close>

text \<open>The text of a file, a missing one being empty.\<close>

definition content :: "string option \<Rightarrow> string" where
  "content f = (case f of None \<Rightarrow> [] | Some s \<Rightarrow> s)"

text \<open>An append that threw after it had opened the file.\<close>

definition torn_append :: "write_deps \<Rightarrow> bool" where
  "torn_append io \<longleftrightarrow> (case wd_append io of AppendThrew (Some _) _ \<Rightarrow> True | _ \<Rightarrow> False)"

lemma partial_append:
  assumes "appendValidatedDebtLogEntries issues es old = Inr (True, log)"
  shows "prefix (content old) (content (map_option (take (length (content old) + n)) log))"
    and "prefix (content (map_option (take (length (content old) + n)) log)) (content log)"
    and "prefix (content old) (content log)"
proof -
  obtain new where new: "log = Some new" "prefix (content old) new"
    using assms append_only_base[where issues = issues and es = es and old = old] by (auto simp: content_def split: if_splits)
  then obtain s where s: "new = content old @ s" by (auto simp: prefix_def)
  show "prefix (content (map_option (take (length (content old) + n)) log)) (content log)"
    unfolding new(1) by (simp add: content_def take_is_prefix)
  show "prefix (content old) (content (map_option (take (length (content old) + n)) log))"
    unfolding new(1) s by (simp add: content_def)
  show "prefix (content old) (content log)" using new by (simp add: content_def)
qed

lemma writes_cases:
  assumes "log_then_baseline io rendered fs w log = (thrown, states)"
  obtains (append) n m where "w" "wd_append io = AppendThrew n m" "thrown = Some m"
      "states = [fs\<lparr>fs_debtLog := case n of None \<Rightarrow> fs_debtLog fs
         | Some k \<Rightarrow> map_option (take (length (content (fs_debtLog fs)) + k)) log\<rparr>]"
  | (refused) m where "wd_writeTemp io \<noteq> None \<or> wd_rename io \<noteq> None" "thrown = Some m"
      "states = (if w then [fs\<lparr>fs_debtLog := log\<rparr>] else []) @ [fs\<lparr>fs_debtLog := log\<rparr>]"
  | (both) "wd_writeTemp io = None" "wd_rename io = None" "thrown = wd_remove io"
      "states = (if w then [fs\<lparr>fs_debtLog := log\<rparr>] else []) @ [fs\<lparr>fs_debtLog := log, fs_baseline := Some rendered\<rparr>]"
proof (cases "\<exists>n m. w \<and> wd_append io = AppendThrew n m")
  case True
  then obtain n m where threw: "w" "wd_append io = AppendThrew n m" by blast
  with assms show ?thesis
    by (intro append[OF threw]) (auto simp: log_then_baseline_def appendFileSync_def content_def Let_def split: option.splits)
next
  case False
  then have full: "(if w then appendFileSync io (fs_debtLog fs) log else (None, log)) = (None, log)"
    by (cases "wd_append io") (auto simp: appendFileSync_def)
  show ?thesis
  proof (cases "wd_writeTemp io = None \<and> wd_rename io = None")
    case True
    with assms full show ?thesis
      by (intro both) (auto simp: log_then_baseline_def writeFileAtomicallySync_def Let_def split: option.splits)
  next
    case failed: False
    have "fst (log_then_baseline io rendered fs w log) \<noteq> None"
      using full failed
      by (auto simp: log_then_baseline_def writeFileAtomicallySync_def Let_def split: option.split)
    then have "thrown \<noteq> None" by (simp add: assms)
    moreover have "states = (if w then [fs\<lparr>fs_debtLog := log\<rparr>] else []) @ [fs\<lparr>fs_debtLog := log\<rparr>]"
      using assms full failed by (auto simp: log_then_baseline_def writeFileAtomicallySync_def Let_def split: option.splits if_splits)
    ultimately show ?thesis using failed refused by blast
  qed
qed

text \<open>A run without an error is a run whose writes all succeed.\<close>

lemma io_success:
  assumes "ur_result (applyLintRatchetUpdate io jp lc glob issues p fs) = Inr b"
  shows "applyLintRatchetUpdate io jp lc glob issues p fs = applyLintRatchetUpdate io_ok jp lc glob issues p fs"
proof (cases rule: run_cases_io[of io jp lc glob issues p fs])
  case (written w log thrown states)
  have none: "thrown = None" using written(4) assms by (cases thrown) auto
  have writes: "log_then_baseline io (ap_rendered p) fs w log = log_then_baseline io_ok (ap_rendered p) fs w log"
    using written(2) by (cases rule: writes_cases) (simp_all add: none written(2))
  obtain d ws where gate: "gateCommittedBaseline jp lc glob p fs = Inr (d, ws)"
    using assms by (cases "gateCommittedBaseline jp lc glob p fs") (auto simp: applyLintRatchetUpdate_def failed_def)
  have "appendValidatedDebtLogEntries issues (debtLogEntriesForUpdate d (ap_options p)) (fs_debtLog fs) = Inr (w, log)"
    using written(1) by (simp add: owed_entries_def gate)
  then show ?thesis by (simp only: applyLintRatchetUpdate_def gate sum.case prod.case writes)
qed

text \<open>
  C21: what a run leaves behind, whatever its writes do. An update that is refused by its gate or its
  checks has touched neither file. When a write throws, the error is passed on, and the committed
  baseline is as it was, with two cases: the append threw, and the log holds the old text and at most
  a part of what was to be appended; or the baseline write was refused, and the log is complete. Only
  when nothing but the removal of the temporary file throws are both files the new ones. A run without
  an error ends with the new baseline on disk.
\<close>

theorem failing_update_effects:
  fixes io jp lc glob issues p fs
  defines "run \<equiv> applyLintRatchetUpdate io jp lc glob issues p fs"
  defines "after \<equiv> final_files fs run"
  defines "whole \<equiv> final_files fs (applyLintRatchetUpdate io_ok jp lc glob issues p fs)"
  shows "case ur_result run of
      Inl (UpdIo m) \<Rightarrow>
        ((\<exists>n. wd_append io = AppendThrew n m) \<and> fs_baseline after = fs_baseline fs \<and>
           prefix (content (fs_debtLog fs)) (content (fs_debtLog after)) \<and>
           prefix (content (fs_debtLog after)) (content (fs_debtLog whole))) \<or>
        ((\<exists>e. wd_writeTemp io = Some e \<or> wd_rename io = Some e) \<and> fs_baseline after = fs_baseline fs \<and>
           fs_debtLog after = fs_debtLog whole) \<or>
        (wd_writeTemp io = None \<and> wd_rename io = None \<and> wd_remove io = Some m \<and> after = whole)
    | Inl _ \<Rightarrow> after = fs \<and> ur_trace run = []
    | Inr _ \<Rightarrow> content (fs_baseline after) = ap_rendered p \<and> after = whole"
proof (cases rule: run_cases_io[of io jp lc glob issues p fs])
  case quiet
  then have "after = fs" "whole = fs" "ur_trace run = []" by (simp_all add: after_def whole_def run_def final_files_def)
  moreover have "content (fs_baseline fs) = ap_rendered p" if "ur_result run = Inr b" for b
    unfolding content_def by (rule quiet_success[OF quiet(3)]) (use that quiet(4) in \<open>simp add: run_def\<close>)
  ultimately show ?thesis
    using quiet(2) by (auto simp: run_def split: sum.split update_error.split)
next
  case (written w log thrown states)
  have whole: "whole = fs\<lparr>fs_debtLog := log, fs_baseline := Some (ap_rendered p)\<rparr>"
    unfolding whole_def final_files_def written(5) by simp
  have after: "after = last (fs # states)" by (simp add: after_def final_files_def run_def written(3))
  note result = written(4)[folded run_def]
  show ?thesis using written(2)
  proof (cases rule: writes_cases)
    case (append n m)
    then show ?thesis
      using result partial_append[OF written(1)[unfolded eqTrueI[OF append(1)]]]
      by (auto simp: after whole split: option.split)
  next
    case (refused m)
    then show ?thesis using result by (auto simp: after whole)
  next
    case both
    then show ?thesis
      using result by (cases "wd_remove io") (auto simp: after whole content_def)
  qed
qed

text \<open>
  C20: whenever a run has left the new baseline on disk, the debt log already ends with the entries
  that the update owes; neither a crash nor a write that throws leaves a raised baseline without its
  record.
\<close>

theorem log_before_baseline:
  assumes "s \<in> set (ur_trace (applyLintRatchetUpdate io jp lc glob issues p fs))"
    and "fs_baseline s \<noteq> fs_baseline fs" and "owed_entries jp lc glob p fs \<noteq> []"
  shows "\<exists>log. fs_debtLog s = Some log \<and> suffix (log_batch (owed_entries jp lc glob p fs)) log"
proof (cases rule: run_cases_io[of io jp lc glob issues p fs])
  case quiet
  with assms(1) show ?thesis by simp
next
  case (written w log thrown states)
  have "fs_debtLog s = log"
    using written(2) by (cases rule: writes_cases) (use assms(1,2) in \<open>auto simp: written(3) split: if_splits\<close>)
  moreover have "\<exists>l. log = Some l \<and> suffix (log_batch (owed_entries jp lc glob p fs)) l"
    using append_only_base[where issues = issues and es = "owed_entries jp lc glob p fs" and old = "fs_debtLog fs"] written(1) assms(3) by auto
  ultimately show ?thesis by simp
qed

theorem log_before_baseline_witness:
  "\<exists>log. fs_debtLog (files_at 1) = Some log \<and>
     suffix (log_batch (owed_entries stored_document codeUnitCompare exact_glob sample_apply sample_files)) log"
proof (rule log_before_baseline)
  show "files_at 1 \<in> set (ur_trace (applyLintRatchetUpdate io_ok stored_document codeUnitCompare exact_glob (\<lambda>_. []) sample_apply sample_files))"
    using files_at_trace[of 1] by (simp add: sample_run_def)
  show "fs_baseline (files_at 1) \<noteq> fs_baseline sample_files"
    by (simp add: files_at_baseline[simplified] sample_files_def)
  show "owed_entries stored_document codeUnitCompare exact_glob sample_apply sample_files \<noteq> []"
    by (rule sample_run_facts[THEN conjunct2])
qed

lemma resumes_after_crash:
  assumes "s \<in> set (fs # ur_trace (applyLintRatchetUpdate io_ok jp lc glob issues p fs))"
  shows "final_files s (applyLintRatchetUpdate io_ok jp lc glob issues p s) =
         final_files fs (applyLintRatchetUpdate io_ok jp lc glob issues p fs)"
proof (cases rule: run_cases[of jp lc glob issues p fs])
  case quiet
  with assms show ?thesis by simp
next
  case (written w log)
  consider "s = fs" | "w" "s = fs\<lparr>fs_debtLog := log\<rparr>" | "s = fs\<lparr>fs_debtLog := log, fs_baseline := Some (ap_rendered p)\<rparr>"
    using assms written(3) by (auto split: if_splits)
  then show ?thesis
  proof cases
    case 2
    have s: "fs_baseline s = fs_baseline fs" "fs_debtLog s = log" using 2 by simp_all
    have owed: "owed_entries jp lc glob p s = owed_entries jp lc glob p fs"
      using gate_same_baseline[OF s(1)] by (simp add: owed_entries_def)
    have again: "appendValidatedDebtLogEntries issues (owed_entries jp lc glob p s) (fs_debtLog s) = Inr (False, log)"
      unfolding owed s(2) by (rule append_retry_base[OF written(2)])
    have "ur_trace (applyLintRatchetUpdate io_ok jp lc glob issues p s) \<noteq> []"
    proof
      assume q: "ur_trace (applyLintRatchetUpdate io_ok jp lc glob issues p s) = []"
      obtain d ws where g: "gateCommittedBaseline jp lc glob p fs = Inr (d, ws)"
        using written(3) by (cases "gateCommittedBaseline jp lc glob p fs") (auto simp: apply_unfold failed_def)
      have g': "gateCommittedBaseline jp lc glob p s = Inr (d, ws)" using g gate_same_baseline[OF s(1)] by metis
      have "(case fs_baseline fs of None \<Rightarrow> [] | Some x \<Rightarrow> x) \<noteq> ap_rendered p"
        using written(3) by (auto simp: apply_unfold g)
      then show False
        using q again s(1) report_total[OF g' refl, of "ap_generated p"]
        by (auto simp: apply_unfold g' owed_entries_def Let_def)
    qed
    then show ?thesis
    proof (cases rule: run_cases[of jp lc glob issues p s])
      case run: (written w' log')
      have "log' = log" using run(2) again by simp
      then show ?thesis
        unfolding final_files_def run(3) written(3) using 2 by simp
    qed simp
  next
    case 3
    then show ?thesis
      using run_on_rendered[of s p jp lc glob issues] written(3) by (simp add: final_files_def)
  qed simp
qed

text \<open>
  C19: an update that is cut off after any of its writes, or one of whose writes is refused, is
  completed by running it again: from every state that it can leave, the same run ends with the same
  two files. The exception is an append that throws with a part of its text written, which the retry
  does not recognise.
\<close>

theorem interrupted_update_resumes:
  assumes "s \<in> set (fs # ur_trace (applyLintRatchetUpdate io jp lc glob issues p fs))" and "\<not> torn_append io"
  shows "final_files s (applyLintRatchetUpdate io_ok jp lc glob issues p s) =
         final_files fs (applyLintRatchetUpdate io_ok jp lc glob issues p fs)"
proof -
  have "s \<in> set (fs # ur_trace (applyLintRatchetUpdate io_ok jp lc glob issues p fs)) \<or>
      s = fs\<lparr>fs_debtLog := fs_debtLog fs\<rparr>"
  proof (cases rule: run_cases_io[of io jp lc glob issues p fs])
    case quiet
    with assms(1) show ?thesis by simp
  next
    case (written w log thrown states)
    have same: "log = fs_debtLog fs" if "\<not> w"
      using written(1) that by (auto simp: appendValidatedDebtLogEntries_def Let_def split: if_splits option.splits)
    show ?thesis using written(2)
      by (cases rule: writes_cases)
        (use assms same in \<open>auto simp: written(3,5) torn_append_def split: if_splits option.splits\<close>)
  qed
  then show ?thesis using resumes_after_crash[of s fs jp lc glob issues p] by auto
qed

theorem interrupted_update_resumes_witness:
  "final_files (files_at 0) (sample_run (files_at 0)) = final_files sample_files (sample_run sample_files) \<and>
   fs_baseline (final_files (files_at 0) (sample_run (files_at 0))) = Some ''two''"
proof -
  have "final_files (files_at 0) (sample_run (files_at 0)) = final_files sample_files (sample_run sample_files)"
    unfolding sample_run_def by (rule interrupted_update_resumes[where io = io_ok])
      (use files_at_trace[of 0] in \<open>simp_all add: sample_run_def torn_append_def io_ok_def\<close>)
  moreover have "final_files sample_files (sample_run sample_files) = last (sample_files # ur_trace (sample_run sample_files))"
    by (simp add: final_files_def)
  moreover have "fs_baseline (last (ur_trace (sample_run sample_files))) = Some ''two''"
    using arg_cong[OF sample_run_writes, of last] arg_cong[OF sample_run_writes, of length] by (subst (asm) last_map) auto
  moreover have "ur_trace (sample_run sample_files) \<noteq> []"
    using sample_run_writes by force
  ultimately show ?thesis by simp
qed

end
