(* ===== verification/DebtAccounting.thy ===== *)
theory DebtAccounting
  imports DebtLog BaselineValidation
begin

text \<open>
  \<open>governance/baseline-debt-accounting.ts\<close>, \<open>baseline-debt-accounting-chains.ts\<close>,
  \<open>baseline-debt-accounting-lifecycle.ts\<close> and \<open>baseline-debt-accounting-format.ts\<close>: every increase
  of the committed baseline over the one at the base commit, and every lifecycle change, must be
  paid for by an entry that was appended to the debt log since. A thrown \<open>ConfigError\<close> is \<open>AccConfig\<close>.
\<close>

section \<open>Increases of the baseline\<close>

datatype increase_kind = NewPathIncrease | CountIncrease | LinesIncrease | ComplexityIncrease

record debt_increase =
  di_testId :: string
  di_ruleId :: string
  di_path :: string
  di_kind :: increase_kind
  di_previousCount :: int
  di_currentCount :: int
  di_previousLines :: "int option"
  di_currentLines :: "int option"
  di_previousComplexity :: "int option"
  di_currentComplexity :: "int option"

record increase_context =
  xc_testId :: string
  xc_test :: baseline_test
  xc_path :: string
  xc_baseItem :: metric_item
  xc_currentItem :: metric_item

definition increase_of :: "increase_context \<Rightarrow> increase_kind \<Rightarrow> debt_increase" where
  "increase_of c kind =
     \<lparr>di_testId = xc_testId c, di_ruleId = gm_ruleId (xc_test c), di_path = xc_path c, di_kind = kind,
      di_previousCount = mi_count (xc_baseItem c), di_currentCount = mi_count (xc_currentItem c),
      di_previousLines = None, di_currentLines = None, di_previousComplexity = None, di_currentComplexity = None\<rparr>"

definition countIncrease :: "increase_context \<Rightarrow> debt_increase option" where
  "countIncrease c =
     (if mi_count (xc_currentItem c) \<le> mi_count (xc_baseItem c) then None
      else Some (increase_of c CountIncrease))"

definition not_above :: "int \<Rightarrow> int option \<Rightarrow> bool" where
  "not_above current base = (case base of None \<Rightarrow> False | Some b \<Rightarrow> current \<le> b)"

definition lineIncrease :: "increase_context \<Rightarrow> debt_increase option" where
  "lineIncrease c =
     (case mi_lines (xc_currentItem c) of
        None \<Rightarrow> None
      | Some lines \<Rightarrow>
          if not_above lines (mi_lines (xc_baseItem c)) then None
          else Some ((increase_of c LinesIncrease)
            \<lparr>di_previousLines := mi_lines (xc_baseItem c), di_currentLines := Some lines\<rparr>))"

definition complexityIncrease :: "increase_context \<Rightarrow> debt_increase option" where
  "complexityIncrease c =
     (case mi_maxComplexity (xc_currentItem c) of
        None \<Rightarrow> None
      | Some complexity \<Rightarrow>
          if not_above complexity (mi_maxComplexity (xc_baseItem c)) then None
          else Some ((increase_of c ComplexityIncrease)
            \<lparr>di_previousComplexity := mi_maxComplexity (xc_baseItem c), di_currentComplexity := Some complexity\<rparr>))"

definition newPathIncrease :: "string \<Rightarrow> baseline_test \<Rightarrow> string \<Rightarrow> metric_item \<Rightarrow> debt_increase" where
  "newPathIncrease testId test path currentItem =
     \<lparr>di_testId = testId, di_ruleId = gm_ruleId test, di_path = path, di_kind = NewPathIncrease,
      di_previousCount = 0, di_currentCount = mi_count currentItem,
      di_previousLines = None, di_currentLines = None, di_previousComplexity = None, di_currentComplexity = None\<rparr>"

definition collectItemIncreases :: "increase_context \<Rightarrow> debt_increase list" where
  "collectItemIncreases c =
     (case lineIncrease c of
        Some lines \<Rightarrow> [lines]
      | None \<Rightarrow>
          (case complexityIncrease c of
             Some complexity \<Rightarrow> [complexity]
           | None \<Rightarrow> (case countIncrease c of None \<Rightarrow> [] | Some increase \<Rightarrow> [increase])))"

definition collectItemIncreasesForMetric :: "increase_context \<Rightarrow> bool \<Rightarrow> debt_increase list" where
  "collectItemIncreasesForMetric c metricsMatch =
     (if metricsMatch then collectItemIncreases c
      else case countIncrease c of None \<Rightarrow> [] | Some increase \<Rightarrow> [increase])"

text \<open>The increases of one path, of one test, of the baseline.\<close>

definition path_increases :: "string \<Rightarrow> baseline_test \<Rightarrow> baseline_test \<Rightarrow> string \<Rightarrow> debt_increase list" where
  "path_increases testId baseTest currentTest path =
     (case map_of (bt_items currentTest) path of
        None \<Rightarrow> []
      | Some currentItem \<Rightarrow>
          (case map_of (bt_items baseTest) path of
             None \<Rightarrow> [newPathIncrease testId currentTest path currentItem]
           | Some baseItem \<Rightarrow> collectItemIncreasesForMetric
               \<lparr>xc_testId = testId, xc_test = currentTest, xc_path = path, xc_baseItem = baseItem, xc_currentItem = currentItem\<rparr>
               (gm_metric currentTest = gm_metric baseTest)))"

definition test_increases :: "ratchet_baseline \<Rightarrow> ratchet_baseline \<Rightarrow> string \<Rightarrow> debt_increase list" where
  "test_increases base current testId =
     (case (map_of (bl_tests current) testId, map_of (bl_tests base) testId) of
        (Some currentTest, Some baseTest) \<Rightarrow>
          concat (map (path_increases testId baseTest currentTest)
            (js_sort codeUnitCompare (map fst (bt_items currentTest))))
      | _ \<Rightarrow> [])"

definition collectBaselineIncreases :: "ratchet_baseline \<Rightarrow> ratchet_baseline \<Rightarrow> debt_increase list" where
  "collectBaselineIncreases base current =
     concat (map (test_increases base current) (js_sort codeUnitCompare (map fst (bl_tests current))))"

section \<open>Chains of accepted regressions\<close>

fun entry_regressions :: "debt_entry \<Rightarrow> regression list" where
  "entry_regressions (AcceptedDebt _ regressions _) = regressions"
| "entry_regressions (Retirement _ _) = []"
| "entry_regressions (MetricMigration _ _ _ _) = []"
| "entry_regressions (CoverageShrink _) = []"

definition same_path :: "debt_increase \<Rightarrow> regression \<Rightarrow> bool" where
  "same_path i r \<longleftrightarrow> dl_testId r = di_testId i \<and> dl_ruleId r = di_ruleId i \<and> dl_path r = di_path i"

definition matchingRegressions :: "debt_increase \<Rightarrow> debt_entry list \<Rightarrow> regression list" where
  "matchingRegressions i entries = concat (map (\<lambda>e. filter (same_path i) (entry_regressions e)) entries)"

definition isNextCountTransition :: "regression \<Rightarrow> int \<Rightarrow> regression_reason \<Rightarrow> bool" where
  "isNextCountTransition r n expectedReason \<longleftrightarrow>
     dl_reason r = expectedReason \<and> dl_baselineCount r = n \<and> dl_currentCount r > dl_baselineCount r"

text \<open>The loop's \<open>count\<close> and \<open>sawNewPath\<close> after the regressions.\<close>

fun count_chain :: "int \<Rightarrow> bool \<Rightarrow> regression list \<Rightarrow> int \<times> bool" where
  "count_chain n saw [] = (n, saw)"
| "count_chain n saw (r # rs) =
     (if \<not> saw \<and> isNextCountTransition r n NewPath then count_chain (dl_currentCount r) True rs
      else if saw \<and> isNextCountTransition r n IncreasedCount then count_chain (dl_currentCount r) saw rs
      else count_chain n saw rs)"

definition countChainAccountsForIncrease :: "debt_increase \<Rightarrow> regression list \<Rightarrow> bool" where
  "countChainAccountsForIncrease i regressions =
     (case count_chain (di_previousCount i) (di_kind i \<noteq> NewPathIncrease) regressions of
        (n, saw) \<Rightarrow> saw \<and> n = di_currentCount i)"

text \<open>One step of a line or a complexity chain: the values before and after it.\<close>

definition line_step :: "regression \<Rightarrow> (int \<times> int) option" where
  "line_step r =
     (if dl_reason r = IncreasedLines
      then case (dl_baselineLines r, dl_currentLines r) of (Some b, Some n) \<Rightarrow> if n > b then Some (b, n) else None | _ \<Rightarrow> None
      else None)"

definition complexity_step :: "regression \<Rightarrow> (int \<times> int) option" where
  "complexity_step r =
     (if dl_reason r = IncreasedComplexity
      then case (dl_baselineComplexity r, dl_currentComplexity r) of (Some b, Some n) \<Rightarrow> if n > b then Some (b, n) else None | _ \<Rightarrow> None
      else None)"

fun value_chain :: "(regression \<Rightarrow> (int \<times> int) option) \<Rightarrow> int \<Rightarrow> int option \<Rightarrow> regression list \<Rightarrow> int \<times> int option" where
  "value_chain step value endpointCount [] = (value, endpointCount)"
| "value_chain step value endpointCount (r # rs) =
     (case step r of
        Some (b, n) \<Rightarrow>
          if b = value then value_chain step n (Some (dl_currentCount r)) rs
          else value_chain step value endpointCount rs
      | None \<Rightarrow> value_chain step value endpointCount rs)"

definition lineChainAccountsForIncrease :: "debt_increase \<Rightarrow> regression list \<Rightarrow> bool" where
  "lineChainAccountsForIncrease i regressions =
     (case (di_previousLines i, di_currentLines i) of
        (Some previous, Some current) \<Rightarrow>
          value_chain line_step previous None regressions = (current, Some (di_currentCount i))
      | _ \<Rightarrow> False)"

definition complexityChainAccountsForIncrease :: "debt_increase \<Rightarrow> regression list \<Rightarrow> bool" where
  "complexityChainAccountsForIncrease i regressions =
     (case (di_previousComplexity i, di_currentComplexity i) of
        (Some previous, Some current) \<Rightarrow>
          value_chain complexity_step previous None regressions = (current, Some (di_currentCount i))
      | _ \<Rightarrow> False)"

definition hasAccountingEntry :: "debt_increase \<Rightarrow> debt_entry list \<Rightarrow> bool" where
  "hasAccountingEntry i entries =
     (let regressions = matchingRegressions i entries
      in case di_kind i of
           LinesIncrease \<Rightarrow> lineChainAccountsForIncrease i regressions
         | ComplexityIncrease \<Rightarrow> complexityChainAccountsForIncrease i regressions
         | NewPathIncrease \<Rightarrow> countChainAccountsForIncrease i regressions
         | CountIncrease \<Rightarrow> countChainAccountsForIncrease i regressions)"

section \<open>Lifecycle changes\<close>

record shrink_failure = coverage_shrink +
  sf_unaccountedPaths :: "string list"
  sf_hasShrinkRecords :: bool

datatype lifecycle_failure =
    MissingRatchetFailure (lf_testId: string) (lf_ruleId: string)
  | MetricChangeFailure metric_migration
  | CoverageShrinkFailure shrink_failure

definition collectMissingRatchets :: "ratchet_baseline \<Rightarrow> ratchet_baseline \<Rightarrow> (string \<times> baseline_test) list" where
  "collectMissingRatchets base current =
     filter (\<lambda>(testId, _). map_of (bl_tests current) testId = None) (bl_tests base)"

definition orphanMatchesRemovedBaseline :: "orphan_removal \<Rightarrow> string \<Rightarrow> baseline_test \<Rightarrow> bool" where
  "orphanMatchesRemovedBaseline orphan testId baseTest \<longleftrightarrow>
     or_testId orphan = testId \<and> or_ruleId orphan = gm_ruleId baseTest \<and> or_metric orphan = gm_metric baseTest \<and>
     stringify (JArr (map orphan_item_json (key_sort compareByCodepoint (or_baselineItems orphan)))) =
       stringify (JArr (map orphan_item_json (key_sort compareByCodepoint (bt_items baseTest))))"

fun accounts_for_missing :: "string \<Rightarrow> baseline_test \<Rightarrow> debt_entry \<Rightarrow> bool" where
  "accounts_for_missing testId baseTest (Retirement ratchetId _) \<longleftrightarrow> ratchetId = testId \<and> bt_items baseTest = []"
| "accounts_for_missing testId baseTest (AcceptedDebt _ _ orphans) \<longleftrightarrow>
     list_ex (\<lambda>o'. orphanMatchesRemovedBaseline o' testId baseTest) orphans"
| "accounts_for_missing testId baseTest (CoverageShrink _) \<longleftrightarrow> False"
| "accounts_for_missing testId baseTest (MetricMigration _ _ _ _) \<longleftrightarrow> False"

definition accountsForMissingRatchet :: "string \<Rightarrow> baseline_test \<Rightarrow> debt_entry list \<Rightarrow> bool" where
  "accountsForMissingRatchet testId baseTest entries = list_ex (accounts_for_missing testId baseTest) entries"

fun accounts_for_metric :: "metric_migration \<Rightarrow> debt_entry \<Rightarrow> bool" where
  "accounts_for_metric m (MetricMigration ratchetId fromMetric toMetric _) \<longleftrightarrow>
     ratchetId = mm_ratchetId m \<and> fromMetric = mm_fromMetric m \<and> toMetric = mm_toMetric m"
| "accounts_for_metric m (AcceptedDebt _ _ _) \<longleftrightarrow> False"
| "accounts_for_metric m (CoverageShrink _) \<longleftrightarrow> False"
| "accounts_for_metric m (Retirement _ _) \<longleftrightarrow> False"

definition accountsForMetricChange :: "metric_migration \<Rightarrow> debt_entry list \<Rightarrow> bool" where
  "accountsForMetricChange m entries = list_ex (accounts_for_metric m) entries"

fun shrink_entry_of :: "string \<Rightarrow> debt_entry \<Rightarrow> shrink_entry list" where
  "shrink_entry_of testId (CoverageShrink s) = (if se_ratchetId s = testId then [s] else [])"
| "shrink_entry_of testId (AcceptedDebt _ _ _) = []"
| "shrink_entry_of testId (MetricMigration _ _ _ _) = []"
| "shrink_entry_of testId (Retirement _ _) = []"

definition unaccountedCoverageShrink :: "coverage_shrink \<Rightarrow> debt_entry list \<Rightarrow> shrink_failure option" where
  "unaccountedCoverageShrink diff entries =
     (let shrinkEntries = concat (map (shrink_entry_of (cs_ratchetId diff)) entries);
          recordedPaths = js_set (concat (map se_removedPaths shrinkEntries));
          unaccountedPaths = filter (\<lambda>path. path \<notin> set recordedPaths) (cs_removedPaths diff)
      in if unaccountedPaths = [] then None
         else Some (coverage_shrink.extend diff
           \<lparr>sf_unaccountedPaths = unaccountedPaths, sf_hasShrinkRecords = (shrinkEntries \<noteq> [])\<rparr>))"

definition collectUnaccountedLifecycleChanges ::
    "globber \<Rightarrow> ratchet_baseline \<Rightarrow> ratchet_baseline \<Rightarrow> debt_entry list \<Rightarrow> lifecycle_failure list" where
  "collectUnaccountedLifecycleChanges glob base current entries =
     map (\<lambda>(testId, test). MissingRatchetFailure testId (gm_ruleId test))
       (filter (\<lambda>(testId, test). \<not> accountsForMissingRatchet testId test entries) (collectMissingRatchets base current))
     @ map MetricChangeFailure
         (filter (\<lambda>m. \<not> accountsForMetricChange m entries) (collectMetricMigrations base current))
     @ map CoverageShrinkFailure
         (List.map_filter (\<lambda>diff. unaccountedCoverageShrink diff entries) (collectCoverageShrinks glob base current))"

section \<open>The appended entries\<close>

datatype accounting_error = AccThrown baseline_error | AccConfig string

definition DEFAULT_DEBT_LOG_FILENAME :: string where
  "DEFAULT_DEBT_LOG_FILENAME = ''lint-ratchet.debt-log.jsonl''"

definition starts_with :: "string \<Rightarrow> string \<Rightarrow> bool" where
  "starts_with s p \<longleftrightarrow> take (length p) s = p"

definition assertDebtLogAppendOnly :: "string \<Rightarrow> string \<Rightarrow> string \<Rightarrow> accounting_error + unit" where
  "assertDebtLogAppendOnly baseText currentText debtLogName =
     (if starts_with currentText baseText then Inr ()
      else Inl (AccConfig (debtLogName
        @ '' must be append-only: current content does not preserve the base file as an exact prefix. ''
        @ ''Restore historical lines and append new accepted-debt entries at the end.'')))"

text \<open>\<open>replace(/^\r?\n/u, "")\<close>\<close>

definition drop_newline :: "string \<Rightarrow> string" where
  "drop_newline s =
     (if starts_with s [CHR 0x0D, CHR 0x0A] then drop 2 s
      else if starts_with s [CHR 0x0A] then drop 1 s else s)"

definition addedDebtLogEntries ::
    "json_parser \<Rightarrow> (jsval \<Rightarrow> string list) \<Rightarrow> string \<Rightarrow> string \<Rightarrow> string \<Rightarrow> accounting_error + debt_entry list" where
  "addedDebtLogEntries jp issues baseText currentText debtLogName =
     and_then (lift_error AccConfig (parseDebtLogJsonl jp issues baseText (debtLogName @ '' at base''))) (\<lambda>_.
     and_then (assertDebtLogAppendOnly baseText currentText debtLogName) (\<lambda>_.
       let sliced = drop (length baseText) currentText;
           appended = (if baseText \<noteq> [] \<and> \<not> ends_with baseText [CHR 0x0A] then drop_newline sliced else sliced)
       in lift_error AccConfig (parseDebtLogJsonl jp issues appended (debtLogName @ '' appended entries''))))"

section \<open>The check\<close>

record accounting_options =
  ao_baseBaselineText :: string
  ao_currentBaselineText :: string
  ao_baseDebtLogText :: string
  ao_currentDebtLogText :: string
  ao_baselineDisplayName :: "string option"
  ao_debtLogDisplayName :: "string option"
  ao_workflowVocabulary :: workflow_vocabulary

datatype accounting_failure = IncreaseFailure debt_increase | LifecycleFailure lifecycle_failure

record accounting_result =
  ar_increases :: "debt_increase list"
  ar_failures :: "accounting_failure list"

definition parseBaseline ::
    "json_parser \<Rightarrow> string cmp \<Rightarrow> string \<Rightarrow> string \<Rightarrow> accounting_options \<Rightarrow> accounting_error + ratchet_baseline" where
  "parseBaseline jp lc label txt opts =
     and_then (lift_error AccThrown (parseLintRatchetBaselineStructure jp lc txt (ao_workflowVocabulary opts)
         default_version_policy
         (case ao_baselineDisplayName opts of None \<Rightarrow> DEFAULT_BASELINE_FILENAME | Some n \<Rightarrow> n))) (\<lambda>parsed.
       case sb_baseline parsed of
         None \<Rightarrow> Inl (AccConfig (label @ '' is not a valid lint-ratchet baseline:'' @ [CHR 0x0A]
           @ js_join [CHR 0x0A] (sb_failures parsed)))
       | Some b \<Rightarrow> Inr b)"

definition accounting_failures ::
    "globber \<Rightarrow> ratchet_baseline \<Rightarrow> ratchet_baseline \<Rightarrow> debt_entry list \<Rightarrow> accounting_failure list" where
  "accounting_failures glob base current entries =
     map IncreaseFailure (filter (\<lambda>i. \<not> hasAccountingEntry i entries) (collectBaselineIncreases base current))
     @ map LifecycleFailure (collectUnaccountedLifecycleChanges glob base current entries)"

definition checkBaselineDebtAccounting ::
    "json_parser \<Rightarrow> string cmp \<Rightarrow> globber \<Rightarrow> (jsval \<Rightarrow> string list) \<Rightarrow> accounting_options \<Rightarrow>
     accounting_error + accounting_result" where
  "checkBaselineDebtAccounting jp lc glob issues opts =
     (let baselineName = (case ao_baselineDisplayName opts of None \<Rightarrow> DEFAULT_BASELINE_FILENAME | Some n \<Rightarrow> n);
          debtLogName = (case ao_debtLogDisplayName opts of None \<Rightarrow> DEFAULT_DEBT_LOG_FILENAME | Some n \<Rightarrow> n)
      in and_then (parseBaseline jp lc (baselineName @ '' at base'') (ao_baseBaselineText opts) opts) (\<lambda>base.
         and_then (parseBaseline jp lc baselineName (ao_currentBaselineText opts) opts) (\<lambda>current.
         and_then (addedDebtLogEntries jp issues (ao_baseDebtLogText opts) (ao_currentDebtLogText opts) debtLogName) (\<lambda>added.
           Inr \<lparr>ar_increases = collectBaselineIncreases base current,
                ar_failures = accounting_failures glob base current added\<rparr>))))"

section \<open>The diagnostic\<close>

fun lifecycleDetail :: "lifecycle_failure \<Rightarrow> string" where
  "lifecycleDetail (MissingRatchetFailure testId _) =
     testId @ '': base ratchet id is missing without an orphan-removal or proven-retirement record''"
| "lifecycleDetail (MetricChangeFailure m) =
     mm_ratchetId m @ '': metric changed from '' @ metric_name (mm_fromMetric m) @ '' to '' @ metric_name (mm_toMetric m)
       @ '' without a migration record''"
| "lifecycleDetail (CoverageShrinkFailure s) =
     (if sf_hasShrinkRecords s
      then cs_ratchetId s @ '': registry glob changes removed baselined path coverage; coverage-shrink records ''
        @ ''are present but do not account for: '' @ js_join '', '' (sf_unaccountedPaths s)
      else cs_ratchetId s @ '': registry glob changes removed baselined path coverage (''
        @ js_join '', '' (cs_removedPaths s) @ '') without a coverage-shrink record'')"

definition or_zero :: "int option \<Rightarrow> string" where
  "or_zero v = show_int (case v of None \<Rightarrow> 0 | Some n \<Rightarrow> n)"

definition baselineIncreaseDetail :: "debt_increase \<Rightarrow> string" where
  "baselineIncreaseDetail i =
     (let prefix = di_testId i @ '' '' @ di_path i
      in case di_kind i of
           NewPathIncrease \<Rightarrow> prefix @ '': new path baseline is '' @ show_int (di_currentCount i) @ '' finding(s)''
         | LinesIncrease \<Rightarrow> prefix @ '': effective lines increased from '' @ or_zero (di_previousLines i)
             @ '' to '' @ or_zero (di_currentLines i)
         | ComplexityIncrease \<Rightarrow> prefix @ '': max complexity increased from '' @ or_zero (di_previousComplexity i)
             @ '' to '' @ or_zero (di_currentComplexity i)
         | CountIncrease \<Rightarrow> prefix @ '': finding count increased from '' @ show_int (di_previousCount i)
             @ '' to '' @ show_int (di_currentCount i))"

fun increaseDetail :: "accounting_failure \<Rightarrow> string" where
  "increaseDetail (LifecycleFailure f) = lifecycleDetail f"
| "increaseDetail (IncreaseFailure i) = baselineIncreaseDetail i"

definition formatBaselineDebtAccountingFailures ::
    "accounting_failure list \<Rightarrow> workflow_vocabulary \<Rightarrow> string \<Rightarrow> string \<Rightarrow> string" where
  "formatBaselineDebtAccountingFailures failures vocab baselineName debtLogName =
     baselineName @ '' has '' @ show_nat (length failures) @ '' unaccounted baseline increase(s): ''
     @ js_join ''; '' (map increaseDetail failures) @ ''; ''
     @ ''use --retire-ratchet for a proven promotion or accept intentional debt with ''
     @ wv_debtAcceptanceCommand vocab @ '', and commit the paired '' @ debtLogName @ '' line''"

end
