(* ===== verification/AccountingLaws.thy ===== *)
theory AccountingLaws
  imports DebtAccounting UpdateApply UpdateLaws "HOL-Library.Sublist"
begin

text \<open>
  Properties of the debt accounting: an increase that counts as paid for is spanned by a chain of
  recorded regressions, a history of recorded regressions pays for its whole span, and the entries
  that an accepted update writes pay for everything the accounting check finds in it.
\<close>

section \<open>Chains\<close>

definition count_step :: "regression \<Rightarrow> (int \<times> int) option" where
  "count_step r = (if isNextCountTransition r (dl_baselineCount r) IncreasedCount
     then Some (dl_baselineCount r, dl_currentCount r) else None)"

text \<open>Regressions that lead from one value to another, each starting where the one before it ended.\<close>

fun linked :: "(regression \<Rightarrow> (int \<times> int) option) \<Rightarrow> int \<Rightarrow> regression list \<Rightarrow> int \<Rightarrow> bool" where
  "linked step v [] w \<longleftrightarrow> v = w"
| "linked step v (r # rs) w \<longleftrightarrow> (case step r of None \<Rightarrow> False | Some (b, n) \<Rightarrow> b = v \<and> linked step n rs w)"

lemma count_chain_linked:
  "count_chain v True rs = (w, s) \<Longrightarrow> s \<and> (\<exists>qs. subseq qs rs \<and> linked count_step v qs w)"
proof (induction rs arbitrary: v)
  case (Cons r rs)
  show ?case
  proof (cases "isNextCountTransition r v IncreasedCount")
    case True
    with Cons obtain qs where "s" "subseq qs rs" "linked count_step (dl_currentCount r) qs w" by auto
    moreover have "count_step r = Some (v, dl_currentCount r)"
      using True by (simp add: count_step_def isNextCountTransition_def)
    ultimately show ?thesis by (auto intro!: exI[of _ "r # qs"])
  next
    case False
    with Cons show ?thesis by auto
  qed
qed (auto intro: exI[of _ "[]"])

lemma new_path_chain:
  "count_chain v False rs = (w, True) \<Longrightarrow>
     \<exists>r qs. subseq (r # qs) rs \<and> isNextCountTransition r v NewPath \<and> linked count_step (dl_currentCount r) qs w"
proof (induction rs)
  case (Cons r rs)
  show ?case
  proof (cases "isNextCountTransition r v NewPath")
    case True
    with Cons.prems count_chain_linked[of "dl_currentCount r" rs w True] show ?thesis
      by (auto intro!: exI[of _ r])
  next
    case False
    with Cons show ?thesis by (auto intro: subseq_Cons')
  qed
qed simp

lemma value_chain_linked:
  "value_chain step v None rs = (w, Some c) \<Longrightarrow>
     \<exists>qs. subseq qs rs \<and> qs \<noteq> [] \<and> linked step v qs w \<and> dl_currentCount (last qs) = c"
proof -
  have "\<exists>qs. subseq qs rs \<and> linked step v qs w \<and> Some c = (if qs = [] then e else Some (dl_currentCount (last qs)))"
    if "value_chain step v e rs = (w, Some c)" for e
    using that
  proof (induction rs arbitrary: v e)
    case Nil
    then show ?case by (auto intro: exI[of _ "[]"])
  next
    case (Cons r rs)
    show ?case
    proof (cases "\<exists>n. step r = Some (v, n)")
      case True
      then obtain n where n: "step r = Some (v, n)" by blast
      with Cons.prems have "value_chain step n (Some (dl_currentCount r)) rs = (w, Some c)" by simp
      from Cons.IH[OF this] obtain qs where "subseq qs rs" "linked step n qs w"
        "Some c = (if qs = [] then Some (dl_currentCount r) else Some (dl_currentCount (last qs)))" by blast
      with n show ?thesis by (intro exI[of _ "r # qs"]) auto
    next
      case False
      then have "value_chain step v e rs = (w, Some c)" using Cons.prems by (auto split: option.splits if_splits)
      from Cons.IH[OF this] show ?thesis by (meson list_emb_Cons)
    qed
  qed
  from this[of None] show "value_chain step v None rs = (w, Some c) \<Longrightarrow> ?thesis"
    by (auto split: if_splits)
qed

text \<open>Regressions that are no step of the kind in question do not matter.\<close>

lemma value_chain_complete:
  "linked step v (filter (\<lambda>r. step r \<noteq> None) rs) w \<Longrightarrow>
     value_chain step v e rs = (w, if filter (\<lambda>r. step r \<noteq> None) rs = [] then e
       else Some (dl_currentCount (last (filter (\<lambda>r. step r \<noteq> None) rs))))"
proof (induction rs arbitrary: v e)
  case (Cons r rs)
  then show ?case by (cases "step r") auto
qed simp

lemma count_chain_complete:
  "linked count_step v (filter (\<lambda>r. count_step r \<noteq> None) rs) w \<Longrightarrow> count_chain v True rs = (w, True)"
proof (induction rs arbitrary: v)
  case (Cons r rs)
  then show ?case by (auto simp: count_step_def isNextCountTransition_def split: if_splits)
qed simp

lemma linked_steps: "linked step v rs w \<Longrightarrow> list_all (\<lambda>x. step x \<noteq> None) rs"
  by (induction rs arbitrary: v) (auto split: option.splits)

text \<open>The regressions that the loop for a kind of increase reacts to.\<close>

fun relevant :: "increase_kind \<Rightarrow> regression \<Rightarrow> bool" where
  "relevant NewPathIncrease r \<longleftrightarrow> isNextCountTransition r (dl_baselineCount r) NewPath \<or> count_step r \<noteq> None"
| "relevant CountIncrease r \<longleftrightarrow> count_step r \<noteq> None"
| "relevant LinesIncrease r \<longleftrightarrow> line_step r \<noteq> None"
| "relevant ComplexityIncrease r \<longleftrightarrow> complexity_step r \<noteq> None"

lemma filter_part: "filter (\<lambda>x. p x \<or> q x) xs = ys \<Longrightarrow> list_all q ys \<Longrightarrow> filter q xs = ys"
proof -
  assume f: "filter (\<lambda>x. p x \<or> q x) xs = ys" and q: "list_all q ys"
  have "filter q xs = filter q (filter (\<lambda>x. p x \<or> q x) xs)" by (simp add: conj_commute) (metis (full_types))
  also have "\<dots> = ys" using q by (simp add: f filter_id_conv list_all_iff)
  finally show ?thesis .
qed

lemma relevant_steps:
  "relevant NewPathIncrease = (\<lambda>r. isNextCountTransition r (dl_baselineCount r) NewPath \<or> count_step r \<noteq> None)"
  "relevant CountIncrease = (\<lambda>r. count_step r \<noteq> None)"
  "relevant LinesIncrease = (\<lambda>r. line_step r \<noteq> None)"
  "relevant ComplexityIncrease = (\<lambda>r. complexity_step r \<noteq> None)"
  by (rule ext; simp)+

lemma new_path_complete:
  assumes "filter (\<lambda>r. isNextCountTransition r (dl_baselineCount r) NewPath \<or> count_step r \<noteq> None) rs = q # qs"
    and "isNextCountTransition q v NewPath" and "linked count_step (dl_currentCount q) qs w"
  shows "count_chain v False rs = (w, True)"
  using assms
proof (induction rs)
  case (Cons r rs)
  show ?case
  proof (cases "isNextCountTransition r v NewPath")
    case True
    then have r: "r = q" "filter (\<lambda>r. isNextCountTransition r (dl_baselineCount r) NewPath \<or> count_step r \<noteq> None) rs = qs"
      using Cons.prems(1) by (auto simp: isNextCountTransition_def split: if_splits)
    have "list_all (\<lambda>x. count_step x \<noteq> None) qs"
      using linked_steps[OF Cons.prems(3)] .
    then have "filter (\<lambda>r. count_step r \<noteq> None) rs = qs"
      using filter_part[OF r(2)] by simp
    then show ?thesis using True r(1) Cons.prems(3) count_chain_complete by auto
  next
    case False
    then have "r \<noteq> q" using Cons.prems(2) by auto
    then show ?thesis using Cons False by (auto split: if_splits)
  qed
qed simp

definition paid_chain :: "debt_increase \<Rightarrow> regression list \<Rightarrow> bool" where
  "paid_chain i rs \<longleftrightarrow>
     (case di_kind i of
        NewPathIncrease \<Rightarrow> (\<exists>r qs. rs = r # qs \<and> isNextCountTransition r (di_previousCount i) NewPath \<and>
          linked count_step (dl_currentCount r) qs (di_currentCount i))
      | CountIncrease \<Rightarrow> linked count_step (di_previousCount i) rs (di_currentCount i)
      | LinesIncrease \<Rightarrow> (\<exists>v w. di_previousLines i = Some v \<and> di_currentLines i = Some w \<and> linked line_step v rs w) \<and>
          rs \<noteq> [] \<and> dl_currentCount (last rs) = di_currentCount i
      | ComplexityIncrease \<Rightarrow> (\<exists>v w. di_previousComplexity i = Some v \<and> di_currentComplexity i = Some w \<and> linked complexity_step v rs w) \<and>
          rs \<noteq> [] \<and> dl_currentCount (last rs) = di_currentCount i)"

text \<open>The increase and the log of the witnesses: 2 to 5 findings in two accepted steps.\<close>

definition sample_increase :: debt_increase where
  "sample_increase = \<lparr>di_testId = ''ratchet/a'', di_ruleId = ''no-console'', di_path = ''src/a.ts'', di_kind = CountIncrease,
     di_previousCount = 2, di_currentCount = 5, di_previousLines = None, di_currentLines = None,
     di_previousComplexity = None, di_currentComplexity = None\<rparr>"

definition sample_regression :: "string \<Rightarrow> int \<Rightarrow> int \<Rightarrow> regression" where
  "sample_regression path m n = \<lparr>dl_testId = ''ratchet/a'', dl_ruleId = ''no-console'', dl_path = path,
     dl_baselineCount = m, dl_currentCount = n, dl_baselineLines = None, dl_currentLines = None,
     dl_baselineComplexity = None, dl_currentComplexity = None, dl_line = None, dl_firstMessage = None,
     dl_firstMessageId = None, dl_reason = IncreasedCount\<rparr>"

definition sample_history :: "debt_entry list" where
  "sample_history = [AcceptedDebt ''one'' [sample_regression ''src/a.ts'' 2 3, sample_regression ''src/b.ts'' 1 9] [],
     AcceptedDebt ''two'' [sample_regression ''src/a.ts'' 3 5] []]"

section \<open>What an accounted increase means\<close>

lemma accounting_chain:
  assumes "hasAccountingEntry i entries"
  shows "\<exists>rs. subseq rs (matchingRegressions i entries) \<and> paid_chain i rs"
proof (cases "di_kind i")
  case NewPathIncrease
  then have "count_chain (di_previousCount i) False (matchingRegressions i entries) = (di_currentCount i, True)"
    using assms by (auto simp: hasAccountingEntry_def countChainAccountsForIncrease_def Let_def)
  from new_path_chain[OF this] NewPathIncrease show ?thesis
    by (simp add: paid_chain_def) blast
next
  case CountIncrease
  with assms show ?thesis
    using count_chain_linked[of "di_previousCount i" "matchingRegressions i entries"]
    by (auto simp: hasAccountingEntry_def countChainAccountsForIncrease_def paid_chain_def Let_def)
next
  case LinesIncrease
  with assms show ?thesis
    using value_chain_linked[of line_step _ "matchingRegressions i entries"]
    by (fastforce simp: hasAccountingEntry_def lineChainAccountsForIncrease_def paid_chain_def Let_def split: option.splits)
next
  case ComplexityIncrease
  with assms show ?thesis
    using value_chain_linked[of complexity_step _ "matchingRegressions i entries"]
    by (fastforce simp: hasAccountingEntry_def complexityChainAccountsForIncrease_def paid_chain_def Let_def split: option.splits)
qed

text \<open>
  An increase counts as paid for only when the appended entries hold, in order, a chain of
  accepted regressions of the same test, rule and path that leads from the old value to the new one
  without a gap, each link a strict increase; a new path must start with its new-path record.
\<close>

theorem accounting_sound:
  assumes "hasAccountingEntry i entries"
  shows "\<exists>rs. subseq rs (matchingRegressions i entries) \<and> paid_chain i rs"
  using assms by (rule accounting_chain)

text \<open>
  Conversely a history pays for its whole span: when the recorded regressions of the path that
  are of the increase's kind form a chain from the old value to the new one, the increase is
  accounted for, whatever else the appended entries hold.
\<close>

theorem accounting_complete:
  assumes "paid_chain i (filter (relevant (di_kind i)) (matchingRegressions i entries))"
  shows "hasAccountingEntry i entries"
proof (cases "di_kind i")
  case NewPathIncrease
  obtain r qs where "filter (relevant NewPathIncrease) (matchingRegressions i entries) = r # qs"
      "isNextCountTransition r (di_previousCount i) NewPath" "linked count_step (dl_currentCount r) qs (di_currentCount i)"
    using assms NewPathIncrease by (auto simp: paid_chain_def)
  then have "count_chain (di_previousCount i) False (matchingRegressions i entries) = (di_currentCount i, True)"
    unfolding relevant_steps by (rule new_path_complete)
  with NewPathIncrease show ?thesis
    by (simp add: hasAccountingEntry_def countChainAccountsForIncrease_def)
next
  case CountIncrease
  with assms show ?thesis
    using count_chain_complete[of "di_previousCount i" "matchingRegressions i entries" "di_currentCount i"]
    by (auto simp: hasAccountingEntry_def countChainAccountsForIncrease_def paid_chain_def relevant_steps Let_def simp del: not_None_eq)
next
  case LinesIncrease
  with assms show ?thesis
    using value_chain_complete[of line_step _ "matchingRegressions i entries"]
    by (auto simp: hasAccountingEntry_def lineChainAccountsForIncrease_def paid_chain_def relevant_steps Let_def simp del: not_None_eq)
next
  case ComplexityIncrease
  with assms show ?thesis
    using value_chain_complete[of complexity_step _ "matchingRegressions i entries"]
    by (auto simp: hasAccountingEntry_def complexityChainAccountsForIncrease_def paid_chain_def relevant_steps Let_def simp del: not_None_eq)
qed

section \<open>What the comparison records\<close>

lemma regression_fields:
  assumes "co_regression (compareItem lc m c) = Some x"
  shows "dl_testId x = rc_id (ic_ratchet c) \<and> dl_ruleId x = rc_ruleId (ic_ratchet c) \<and> dl_path x = ic_path c \<and>
     dl_baselineCount x = baseline_count c \<and> dl_currentCount x = mi_count (ic_current c)"
proof -
  have count: "dl_testId x = rc_id (ic_ratchet c) \<and> dl_ruleId x = rc_ruleId (ic_ratchet c) \<and> dl_path x = ic_path c \<and>
      dl_baselineCount x = baseline_count c \<and> dl_currentCount x = mi_count (ic_current c)"
    if "countComparison c p q = Some r" "co_regression r = Some x" for p q r
    using that by (auto simp: countComparison_def countIncreaseRegression_def with_payload_def base_delta_def
        no_change_def split: option.splits if_splits)
  show ?thesis
  proof (cases m)
    case MessageCount
    then show ?thesis using assms count by (auto simp: compareMessageCountItem_def Let_def no_change_def split: option.splits)
  next
    case EffectiveLineCount
    then show ?thesis
      using assms count
      by (auto simp: compareEffectiveLineCountItem_def increasedLinesComparison_def lowerLinesComparison_def base_delta_def
          Let_def no_change_def split: option.splits if_splits)
  next
    case ComplexitySeverity
    then show ?thesis
      using assms count
      by (auto simp: compareComplexitySeverityItem_def increasedComplexityComparison_def lowerComplexityComparison_def
          base_delta_def Let_def no_change_def split: option.splits if_splits)
  qed
qed

lemma count_comparison_more:
  "mi_count (ic_current c) > baseline_count c \<Longrightarrow>
     countComparison c p q = Some (no_change\<lparr>co_regression := Some
       (if baseline_count c = 0 then with_payload (base_delta c NewPath) p
        else with_payload (base_delta c IncreasedCount) q)\<rparr>)"
  by (simp add: countComparison_def countIncreaseRegression_def)

lemma reason_with_payload [simp]: "dl_reason (with_payload (base_delta c r) p) = r"
  by (simp add: with_payload_def base_delta_def)

lemma count_regression:
  assumes "mi_count (ic_current c) > baseline_count c"
    and "m = EffectiveLineCount \<Longrightarrow> \<not> lines_worse c"
    and "m = ComplexitySeverity \<Longrightarrow> Option.bind (ic_baselineItem c) mi_perFunction = None"
  shows "\<exists>x. co_regression (compareItem lc m c) = Some x \<and>
     dl_reason x = (if baseline_count c = 0 then NewPath else IncreasedCount)"
proof (cases m)
  case MessageCount
  then show ?thesis
    using count_comparison_more[OF assms(1)] by (simp add: compareMessageCountItem_def Let_def)
next
  case EffectiveLineCount
  then have "increasedLinesComparison c (Option.bind (ic_baselineItem c) mi_lines) (mi_lines (ic_current c)) = None"
    using assms(2) by (auto simp: increasedLinesComparison_def lines_worse_def split: option.splits)
  with EffectiveLineCount show ?thesis
    using count_comparison_more[OF assms(1)] by (simp add: compareEffectiveLineCountItem_def Let_def)
next
  case ComplexitySeverity
  then have "complexityDelta lc (ic_baselineItem c) (ic_current c) = None"
    using assms(3) by (simp add: complexityDelta_def)
  with ComplexitySeverity show ?thesis
    using count_comparison_more[OF assms(1)]
    by (simp add: compareComplexitySeverityItem_def increasedComplexityComparison_def Let_def)
qed

lemma lines_regression:
  assumes "Option.bind (ic_baselineItem c) mi_lines = Some b" and "mi_lines (ic_current c) = Some n" and "n > b"
  shows "\<exists>x. co_regression (compareItem lc EffectiveLineCount c) = Some x \<and> dl_reason x = IncreasedLines \<and>
     dl_baselineLines x = Some b \<and> dl_currentLines x = Some n"
  using assms by (simp add: compareEffectiveLineCountItem_def increasedLinesComparison_def no_change_def base_delta_def)

section \<open>The increases of an update are recorded\<close>

definition stored_items :: "ratchet_baseline \<Rightarrow> bool" where
  "stored_items b \<longleftrightarrow> distinct (map fst (bl_tests b)) \<and>
     (\<forall>(_, t) \<in> set (bl_tests b). distinct (map fst (bt_items t)) \<and>
        (\<forall>(_, i) \<in> set (bt_items t). mi_count i > 0 \<and> validateItem [] (gm_metric t) i = []))"

text \<open>A baseline that was generated from a registry: the same ids, rules and metrics.\<close>

definition generated_from :: "ratchet_config list \<Rightarrow> ratchet_baseline \<Rightarrow> bool" where
  "generated_from ratchets g \<longleftrightarrow> set (map rc_id ratchets) \<subseteq> set (map fst (bl_tests g)) \<and>
     (\<forall>(k, t) \<in> set (bl_tests g). case map_of (registered ratchets) k of
        None \<Rightarrow> False
      | Some r \<Rightarrow> rc_ruleId r = gm_ruleId t \<and> rc_metric r = gm_metric t)"

text \<open>No ratchet on complexity keeps its metric across the update.\<close>

definition no_kept_complexity :: "ratchet_baseline \<Rightarrow> ratchet_baseline \<Rightarrow> bool" where
  "no_kept_complexity committed generated \<longleftrightarrow>
     (\<forall>(k, t) \<in> set (bl_tests generated). gm_metric t = ComplexitySeverity \<longrightarrow>
        (case map_of (bl_tests committed) k of None \<Rightarrow> True | Some old \<Rightarrow> gm_metric old \<noteq> ComplexitySeverity))"

lemma stored_item:
  assumes "stored_items b" "map_of (bl_tests b) k = Some t" "map_of (bt_items t) p = Some i"
  shows "mi_count i > 0" "validateItem [] (gm_metric t) i = []"
  using assms by (auto simp: stored_items_def dest!: map_of_SomeD)

lemma stored_positive: "stored_items b \<Longrightarrow> positive_items b"
  by (auto simp: stored_items_def positive_items_def)

lemma committed_stored:
  assumes "stored_items b" "map_of (bl_tests b) k = Some t"
  shows "committed_item b k p = map_of (bt_items t) p"
proof -
  have "distinct (map fst (bt_items t))" "\<And>q i. (q, i) \<in> set (bt_items t) \<Longrightarrow> mi_count i > 0"
    using assms by (auto simp: stored_items_def dest!: map_of_SomeD)
  then show ?thesis
    using assms(2)
    by (cases "map_of (bt_items t) p")
       (auto simp: committed_item_def positiveItemMap_def map_of_filter_distinct dest: map_of_SomeD)
qed

lemma valid_fields:
  "validateItem [] MessageCount i = [] \<Longrightarrow> mi_lines i = None \<and> mi_maxComplexity i = None \<and> mi_perFunction i = None"
  "validateItem [] EffectiveLineCount i = [] \<Longrightarrow> mi_lines i \<noteq> None \<and> mi_maxComplexity i = None \<and> mi_perFunction i = None"
  "validateItem [] ComplexitySeverity i = [] \<Longrightarrow> mi_lines i = None"
  by (auto simp: fail_if_def split: if_splits)

lemma foreign_fields:
  "validateItem [] m i = [] \<Longrightarrow> m \<noteq> EffectiveLineCount \<Longrightarrow> mi_lines i = None"
  "validateItem [] m i = [] \<Longrightarrow> m \<noteq> ComplexitySeverity \<Longrightarrow> mi_perFunction i = None"
  "validateItem [] m i = [] \<Longrightarrow> m \<noteq> ComplexitySeverity \<Longrightarrow> mi_maxComplexity i = None"
  by (cases m; force dest: valid_fields)+

lemma paid_link:
  assumes "dl_baselineCount x = di_previousCount i" "dl_currentCount x = di_currentCount i"
    and "di_currentCount i > di_previousCount i"
  shows "di_kind i = NewPathIncrease \<Longrightarrow> dl_reason x = NewPath \<Longrightarrow> paid_chain i [x]"
    and "di_kind i = CountIncrease \<Longrightarrow> dl_reason x = IncreasedCount \<Longrightarrow> paid_chain i [x]"
  using assms by (simp_all add: paid_chain_def isNextCountTransition_def count_step_def)

lemma no_increase [simp]:
  "mi_lines (xc_currentItem c) = None \<Longrightarrow> lineIncrease c = None"
  "mi_maxComplexity (xc_currentItem c) = None \<Longrightarrow> complexityIncrease c = None"
  by (simp_all add: lineIncrease_def complexityIncrease_def)

lemma in_optional_list: "x \<in> set (case v of None \<Rightarrow> [] | Some y \<Rightarrow> [y]) \<longleftrightarrow> v = Some x"
  by (auto split: option.splits)

text \<open>An increase in count is recorded as such, on every metric.\<close>

lemma count_recorded:
  assumes "mi_count (ic_current c) > baseline_count c" and "m = EffectiveLineCount \<Longrightarrow> \<not> lines_worse c"
    and "m = ComplexitySeverity \<Longrightarrow> Option.bind (ic_baselineItem c) mi_perFunction = None"
    and "di_kind i = (if baseline_count c = 0 then NewPathIncrease else CountIncrease)"
    and "di_previousCount i = baseline_count c" "di_currentCount i = mi_count (ic_current c)"
  shows "\<exists>x. co_regression (compareItem lc m c) = Some x \<and> paid_chain i [x] \<and> count_comparable_regression (dl_reason x)"
proof -
  obtain x where x: "co_regression (compareItem lc m c) = Some x"
    "dl_reason x = (if baseline_count c = 0 then NewPath else IncreasedCount)"
    using count_regression[of c m lc] assms(1-3) by blast
  have "paid_chain i [x]"
    using regression_fields[OF x(1)] x(2) assms paid_link[of x i] by (cases "baseline_count c = 0") auto
  with x show ?thesis by auto
qed

text \<open>So is an increase in lines when the metric stays.\<close>

lemma lines_recorded:
  assumes i: "i \<in> set (collectItemIncreases x)"
    and item: "validateItem [] EffectiveLineCount (xc_currentItem x) = []" "validateItem [] EffectiveLineCount (xc_baseItem x) = []"
    and pos: "mi_count (xc_baseItem x) > 0"
    and c: "ic_baselineItem c = Some (xc_baseItem x)" "mi_count (ic_current c) = mi_count (xc_currentItem x)"
      "mi_lines (ic_current c) = mi_lines (xc_currentItem x)"
  shows "\<exists>r. co_regression (compareItem lc EffectiveLineCount c) = Some r \<and> paid_chain i [r]"
proof -
  obtain n l where n: "mi_lines (xc_currentItem x) = Some n" "mi_lines (xc_baseItem x) = Some l" "mi_maxComplexity (xc_currentItem x) = None"
    using valid_fields(2)[OF item(1)] valid_fields(2)[OF item(2)] by blast
  show ?thesis
  proof (cases "n > l")
    case True
    then have i': "i = (increase_of x LinesIncrease)\<lparr>di_previousLines := Some l, di_currentLines := Some n\<rparr>"
      using i n by (simp add: collectItemIncreases_def lineIncrease_def not_above_def)
    obtain r where r: "co_regression (compareItem lc EffectiveLineCount c) = Some r" "dl_reason r = IncreasedLines"
        "dl_baselineLines r = Some l" "dl_currentLines r = Some n"
      using lines_regression[of c l n lc] True n by (auto simp: c)
    have "paid_chain i [r]"
      using regression_fields[OF r(1)] True r c(2) by (simp add: i' paid_chain_def line_step_def increase_of_def)
    with r(1) show ?thesis by blast
  next
    case False
    then have inc: "countIncrease x = Some i"
      using i n by (simp add: collectItemIncreases_def lineIncrease_def not_above_def in_optional_list)
    have "\<not> lines_worse c" using False n by (simp add: lines_worse_def c)
    moreover have "baseline_count c = mi_count (xc_baseItem x)" by (simp add: baseline_count_def c(1))
    ultimately show ?thesis
      using count_recorded[of c EffectiveLineCount i lc] inc pos c(2)
      by (auto simp: countIncrease_def increase_of_def split: if_splits)
  qed
qed

lemma path_recorded:
  assumes i: "i \<in> set (path_increases k old new p)" and item: "map_of (bt_items new) p = Some item"
    and pos: "mi_count item > 0" "\<And>b. map_of (bt_items old) p = Some b \<Longrightarrow> mi_count b > 0"
    and valid: "validateItem [] (gm_metric new) item = []"
      "\<And>b. map_of (bt_items old) p = Some b \<Longrightarrow> validateItem [] (gm_metric old) b = []"
    and c: "ic_baselineItem c = map_of (bt_items old) p" "mi_count (ic_current c) = mi_count item" "mi_lines (ic_current c) = mi_lines item"
    and cx: "gm_metric new = ComplexitySeverity \<Longrightarrow> gm_metric old \<noteq> ComplexitySeverity"
  shows "\<exists>x. co_regression (compareItem lc (gm_metric new) c) = Some x \<and> paid_chain i [x] \<and>
    (gm_metric old = gm_metric new \<or> count_comparable_regression (dl_reason x))"
proof (cases "map_of (bt_items old) p")
  case None
  then have "i = newPathIncrease k new p item" "baseline_count c = 0"
    using i item by (simp_all add: path_increases_def baseline_count_def c(1))
  with None show ?thesis
    using count_recorded[of c "gm_metric new" i lc] pos(1) by (auto simp: newPathIncrease_def lines_worse_def c)
next
  case (Some b)
  define x where "x = \<lparr>xc_testId = k, xc_test = new, xc_path = p, xc_baseItem = b, xc_currentItem = item\<rparr>"
  have i': "i \<in> set (collectItemIncreasesForMetric x (gm_metric new = gm_metric old))"
    using i item Some by (simp add: path_increases_def x_def)
  have counted: "\<exists>r. co_regression (compareItem lc (gm_metric new) c) = Some r \<and> paid_chain i [r] \<and> count_comparable_regression (dl_reason r)"
    if "countIncrease x = Some i" "gm_metric new = EffectiveLineCount \<Longrightarrow> \<not> lines_worse c"
      "gm_metric new = ComplexitySeverity \<Longrightarrow> mi_perFunction b = None"
    using count_recorded[of c "gm_metric new" i lc] that pos(2)[OF Some] Some
    by (auto simp: countIncrease_def increase_of_def baseline_count_def c x_def split: if_splits)
  note b = valid(2)[OF Some]
  show ?thesis
  proof (cases "gm_metric new = gm_metric old")
    case False
    then have "countIncrease x = Some i"
      using i' by (simp add: collectItemIncreasesForMetric_def in_optional_list)
    moreover have "\<not> lines_worse c" if "gm_metric new = EffectiveLineCount"
      using foreign_fields(1)[OF b] that False Some by (simp add: lines_worse_def c(1))
    moreover have "mi_perFunction b = None" if "gm_metric new = ComplexitySeverity"
      using foreign_fields(2)[OF b] that False by simp
    ultimately show ?thesis using counted by blast
  next
    case True
    then have i2: "i \<in> set (collectItemIncreases x)" using i' by (simp add: collectItemIncreasesForMetric_def)
    show ?thesis
    proof (cases "gm_metric new")
      case MessageCount
      then have "mi_lines item = None" "mi_maxComplexity item = None"
        using foreign_fields[OF valid(1)] by simp_all
      then have "countIncrease x = Some i"
        using i2 by (simp add: collectItemIncreases_def in_optional_list x_def)
      from counted[OF this] MessageCount show ?thesis by auto
    next
      case EffectiveLineCount
      then show ?thesis
        using lines_recorded[OF i2, of c lc] valid(1) b True pos(2)[OF Some] c Some by (auto simp: x_def)
    next
      case ComplexitySeverity
      with cx True show ?thesis by simp
    qed
  qed
qed

lemma increases_at:
  assumes "i \<in> set (collectBaselineIncreases base current)"
  obtains k old new p item where "map_of (bl_tests base) k = Some old" "map_of (bl_tests current) k = Some new"
    "map_of (bt_items new) p = Some item" "i \<in> set (path_increases k old new p)"
proof -
  obtain k where k: "i \<in> set (test_increases base current k)"
    using assms by (auto simp: collectBaselineIncreases_def)
  then obtain new old where t: "map_of (bl_tests current) k = Some new" "map_of (bl_tests base) k = Some old"
    by (cases "map_of (bl_tests current) k"; cases "map_of (bl_tests base) k") (auto simp: test_increases_def)
  then obtain p where p: "i \<in> set (path_increases k old new p)"
    using k by (auto simp: test_increases_def)
  then obtain item where "map_of (bt_items new) p = Some item"
    by (cases "map_of (bt_items new) p") (auto simp: path_increases_def)
  with that t p show thesis by blast
qed

definition increase_at :: "string \<Rightarrow> string \<Rightarrow> string \<Rightarrow> debt_increase \<Rightarrow> bool" where
  "increase_at k p rule i \<longleftrightarrow> di_testId i = k \<and> di_path i = p \<and> di_ruleId i = rule"

lemma increase_of_at: "increase_at (xc_testId c) (xc_path c) (gm_ruleId (xc_test c)) (increase_of c kind)"
  by (simp add: increase_at_def increase_of_def)

lemma item_increases_at:
  "lineIncrease c = Some i \<Longrightarrow> increase_at (xc_testId c) (xc_path c) (gm_ruleId (xc_test c)) i"
  "complexityIncrease c = Some i \<Longrightarrow> increase_at (xc_testId c) (xc_path c) (gm_ruleId (xc_test c)) i"
  "countIncrease c = Some i \<Longrightarrow> increase_at (xc_testId c) (xc_path c) (gm_ruleId (xc_test c)) i"
  by (auto simp: lineIncrease_def complexityIncrease_def countIncrease_def increase_at_def increase_of_def
      split: option.splits if_splits)

lemma path_increase_at:
  assumes "i \<in> set (path_increases k old new p)"
  shows "increase_at k p (gm_ruleId new) i"
proof -
  have "increase_at (xc_testId c) (xc_path c) (gm_ruleId (xc_test c)) i" if "i \<in> set (collectItemIncreasesForMetric c b)" for c b
    using that item_increases_at[of c i]
    by (auto simp: collectItemIncreasesForMetric_def collectItemIncreases_def in_optional_list split: option.splits if_splits)
  from this[of "\<lparr>xc_testId = k, xc_test = new, xc_path = p, xc_baseItem = the (map_of (bt_items old) p),
      xc_currentItem = the (map_of (bt_items new) p)\<rparr>"] show ?thesis
    using assms
    by (cases "map_of (bt_items new) p"; cases "map_of (bt_items old) p")
       (auto simp: path_increases_def newPathIncrease_def increase_at_def)
qed

lemma recorded_regressions:
  assumes "decideLintRatchetUpdate lc glob committed generated ratchets opts = Inr d"
  shows "x \<in> set (cmp_regressions d) \<longleftrightarrow>
    (\<exists>k p c. compared_context committed ratchets (currentByIdFromBaseline generated) k p = Some c \<and>
       co_regression (compareItem lc (rc_metric (ic_ratchet c)) c) = Some x \<and>
       (k \<notin> set (map mm_ratchetId (collectMetricMigrations committed generated)) \<or> count_comparable_regression (dl_reason x)))"
proof -
  let ?cur = "currentByIdFromBaseline generated" and ?ms = "map mm_ratchetId (collectMetricMigrations committed generated)"
  obtain raw where raw: "compareCurrentToBaseline lc committed ratchets ?cur (uo_workflowVocabulary opts) = Inr raw"
      "cmp_regressions d = cmp_regressions (excludeIncomparableMigratedDeltas raw ?ms)"
    using decide_cases[of lc committed ratchets generated opts glob] assms by auto
  have "x \<in> set (cmp_regressions d) \<longleftrightarrow> x \<in> set (cmp_regressions raw) \<and> (dl_testId x \<notin> set ?ms \<or> count_comparable_regression (dl_reason x))"
    using raw(2) by (auto simp: excludeIncomparableMigratedDeltas_def)
  moreover have "x \<in> set (cmp_regressions raw) \<longleftrightarrow> (\<exists>k p. co_regression (verdict_at lc committed ratchets ?cur k p) = Some x)"
    using compare_visits[of lc committed ratchets ?cur "uo_workflowVocabulary opts"] raw(1) by auto
  moreover have "dl_testId x = k"
    if "compared_context committed ratchets ?cur k p = Some c" "co_regression (compareItem lc m c) = Some x" for k p c m
    using regression_fields[OF that(2)] compared_context_facts(1)[OF that(1)] by simp
  ultimately show ?thesis
    unfolding verdict_regression by blast
qed

lemma context_path:
  assumes "compared_context b ratchets cur k p = Some c"
  shows "ic_path c = p"
  using assms by (auto simp: compared_context_def split: option.splits)

lemma paid_for_record:
  "paid_chain i [x] \<Longrightarrow> paid_chain i [debtLogRegressionFor x]"
  by (auto simp: paid_chain_def debtLogRegressionFor_def isNextCountTransition_def count_step_def line_step_def
      complexity_step_def split: increase_kind.splits option.splits if_splits)

text \<open>Repetitions of the one regression that pays for an increase do no harm.\<close>

lemma paid_single:
  assumes paid: "paid_chain i [x]" and rs: "set (matchingRegressions i entries) = {x}"
    and more: "di_kind i = CountIncrease \<Longrightarrow> di_previousCount i \<noteq> di_currentCount i"
  shows "hasAccountingEntry i entries"
proof -
  obtain m where m: "matchingRegressions i entries = x # m" "set m \<subseteq> {x}"
    using rs by (cases "matchingRegressions i entries") auto
  have stay_count: "count_chain v True m = (v, True)" if "dl_baselineCount x \<noteq> v \<or> dl_reason x \<noteq> IncreasedCount" for v
    using m(2) that by (induction m) (auto simp: isNextCountTransition_def)
  have stay: "value_chain step v e m = (v, e)" if "\<forall>n. step x \<noteq> Some (v, n)" for step v e
    using m(2) that by (induction m) (auto split: option.splits)
  show ?thesis
    using paid stay_count stay more
    by (cases "di_kind i")
       (auto simp: hasAccountingEntry_def m(1) paid_chain_def countChainAccountsForIncrease_def
          lineChainAccountsForIncrease_def complexityChainAccountsForIncrease_def isNextCountTransition_def
          count_step_def line_step_def complexity_step_def split: option.splits if_splits)
qed

section \<open>The entries of an update pay for it\<close>

lemma no_matching [simp]: "entry_regressions e = [] \<Longrightarrow> matchingRegressions i (e # es) = matchingRegressions i es"
  by (simp add: matchingRegressions_def)

lemma built_entries [simp]:
  "entry_regressions (buildLintRatchetCoverageShrinkLogEntry s r) = []"
  "entry_regressions (buildLintRatchetMetricMigrationLogEntry m r) = []"
  "entry_regressions (buildLintRatchetRetirementLogEntry k a) = []"
  by (simp_all add: buildLintRatchetCoverageShrinkLogEntry_def buildLintRatchetMetricMigrationLogEntry_def
      buildLintRatchetRetirementLogEntry_def)

lemma matching_append: "matchingRegressions i (xs @ ys) = matchingRegressions i xs @ matchingRegressions i ys"
  by (simp add: matchingRegressions_def)

lemma matching_none: "list_all (\<lambda>e. entry_regressions e = []) es \<Longrightarrow> matchingRegressions i es = []"
  by (induction es) (simp_all add: matchingRegressions_def)

lemma matching_update:
  "matchingRegressions i (debtLogEntriesForUpdate (Some d) opts) =
     (if uo_allowWorse opts then filter (same_path i) (map debtLogRegressionFor (cmp_regressions d)) else [])"
proof -
  have "matchingRegressions i [buildLintRatchetDebtLogEntry d r] = filter (same_path i) (map debtLogRegressionFor (cmp_regressions d))" for r
    by (simp add: matchingRegressions_def buildLintRatchetDebtLogEntry_def)
  moreover have "cmp_regressions d = []" if "\<not> hasAcceptedDebt d"
    using that by (simp add: hasAcceptedDebt_def)
  moreover have "matchingRegressions i [] = []" by (simp add: matchingRegressions_def)
  ultimately show ?thesis
    by (cases "ud_retiredRatchetId d")
       (auto simp: debtLogEntriesForUpdate_def Let_def matching_append list_all_iff intro!: matching_none)
qed

lemma current_of_stored [simp]:
  "mi_count (current_of_item i) = mi_count i" "mi_lines (current_of_item i) = mi_lines i"
  by (simp_all add: current_of_item_def metric_item.extend_def)

lemma increase_compared:
  assumes stored: "stored_items committed" "stored_items generated" and gen: "generated_from ratchets generated"
    and cx: "no_kept_complexity committed generated"
    and old: "map_of (bl_tests committed) k = Some old" and new: "map_of (bl_tests generated) k = Some new"
    and item: "map_of (bt_items new) p = Some item" and i: "i \<in> set (path_increases k old new p)"
  obtains c x where "compared_context committed ratchets (currentByIdFromBaseline generated) k p = Some c"
    "rc_metric (ic_ratchet c) = gm_metric new" "co_regression (compareItem lc (gm_metric new) c) = Some x"
    "paid_chain i [x]" "same_path i x" "gm_metric old = gm_metric new \<or> count_comparable_regression (dl_reason x)"
proof -
  obtain r where r: "map_of (registered ratchets) k = Some r" "rc_ruleId r = gm_ruleId new" "rc_metric r = gm_metric new"
    using gen map_of_SomeD[OF new] by (fastforce simp: generated_from_def split: option.splits)
  let ?c = "\<lparr>ic_ratchet = r, ic_path = p, ic_baselineItem = map_of (bt_items old) p, ic_current = current_of_item item\<rparr>"
  have c: "compared_context committed ratchets (currentByIdFromBaseline generated) k p = Some ?c"
    by (simp add: compared_context_def compared_ratchet_def old r(1) collected_of_baseline new item committed_stored[OF stored(1) old])
  have "gm_metric old \<noteq> ComplexitySeverity" if "gm_metric new = ComplexitySeverity"
    using cx that map_of_SomeD[OF new] old by (fastforce simp: no_kept_complexity_def split: option.splits)
  then obtain x where x: "co_regression (compareItem lc (gm_metric new) ?c) = Some x" "paid_chain i [x]"
      "gm_metric old = gm_metric new \<or> count_comparable_regression (dl_reason x)"
    using path_recorded[OF i item, of ?c lc] stored_item[OF stored(2) new item] stored_item[OF stored(1) old] by auto
  have "same_path i x"
    using regression_fields[OF x(1)] path_increase_at[OF i] registered_id[OF r(1)] r(2)
    by (simp add: same_path_def increase_at_def)
  with that c r(3) x show thesis by auto
qed

lemma increase_kinds:
  "lineIncrease c = Some i \<Longrightarrow> di_kind i = LinesIncrease"
  "complexityIncrease c = Some i \<Longrightarrow> di_kind i = ComplexityIncrease"
  "countIncrease c = Some i \<Longrightarrow> di_previousCount i \<noteq> di_currentCount i"
  by (auto simp: lineIncrease_def complexityIncrease_def countIncrease_def increase_of_def split: option.splits if_splits)

lemma path_increase_strict:
  assumes "i \<in> set (path_increases k old new p)" "di_kind i = CountIncrease"
  shows "di_previousCount i \<noteq> di_currentCount i"
proof -
  have item: "di_previousCount i \<noteq> di_currentCount i" if "i \<in> set (collectItemIncreasesForMetric c b)" for c b
    using that assms(2) increase_kinds[of c i]
    by (auto simp: collectItemIncreasesForMetric_def collectItemIncreases_def in_optional_list split: option.splits if_splits)
  show ?thesis
    using assms by (cases "map_of (bt_items new) p"; cases "map_of (bt_items old) p")
      (auto simp: path_increases_def newPathIncrease_def dest: item)
qed

lemma update_increases_paid:
  assumes d: "decideLintRatchetUpdate lc glob committed generated ratchets opts = Inr d" and ok: "ud_allowed d"
    and stored: "stored_items committed" "stored_items generated" and gen: "generated_from ratchets generated"
    and cx: "no_kept_complexity committed generated"
    and i: "i \<in> set (collectBaselineIncreases committed generated)"
  shows "hasAccountingEntry i (debtLogEntriesForUpdate (Some d) opts)"
proof -
  obtain k old new p item where at: "map_of (bl_tests committed) k = Some old" "map_of (bl_tests generated) k = Some new"
    "map_of (bt_items new) p = Some item" "i \<in> set (path_increases k old new p)"
    using increases_at[OF i] .
  obtain c x where x: "compared_context committed ratchets (currentByIdFromBaseline generated) k p = Some c"
    "rc_metric (ic_ratchet c) = gm_metric new" "co_regression (compareItem lc (gm_metric new) c) = Some x"
    "paid_chain i [x]" "same_path i x" "gm_metric old = gm_metric new \<or> count_comparable_regression (dl_reason x)"
    using increase_compared[OF stored gen cx at, of lc] .
  have "k \<notin> set (map mm_ratchetId (collectMetricMigrations committed generated)) \<or> count_comparable_regression (dl_reason x)"
  proof -
    have "new' = new" if "(k, new') \<in> set (bl_tests generated)" for new'
      using that at(2) stored(2) by (auto simp: stored_items_def)
    then show ?thesis using x(6) at(1) unfolding migrated_ids by auto
  qed
  then have x_in: "x \<in> set (cmp_regressions d)"
    unfolding recorded_regressions[OF d] by (intro exI[of _ k] exI[of _ p] exI[of _ c]) (simp add: x(1-3))
  then have allow: "uo_allowWorse opts"
    using update_gate_facts[OF d] ok by auto
  have only: "y = x" if y: "y \<in> set (cmp_regressions d)" "same_path i y" for y
  proof -
    obtain k' p' c' where c': "compared_context committed ratchets (currentByIdFromBaseline generated) k' p' = Some c'"
        "co_regression (compareItem lc (rc_metric (ic_ratchet c')) c') = Some y"
      using y(1) unfolding recorded_regressions[OF d] by blast
    have "k' = k" "p' = p"
      using regression_fields[OF c'(2)] compared_context_facts(1)[OF c'(1)] context_path[OF c'(1)] y(2) path_increase_at[OF at(4)]
      by (auto simp: same_path_def increase_at_def)
    then show ?thesis using c' x by simp
  qed
  have same: "same_path i (debtLogRegressionFor y) \<longleftrightarrow> same_path i y" for y
    by (simp add: same_path_def debtLogRegressionFor_def)
  have "set (matchingRegressions i (debtLogEntriesForUpdate (Some d) opts)) =
      debtLogRegressionFor ` {y \<in> set (cmp_regressions d). same_path i y}"
    unfolding matching_update using allow by (simp add: filter_map comp_def same)
  also have "{y \<in> set (cmp_regressions d). same_path i y} = {x}"
    using x_in x(5) only by blast
  finally have "set (matchingRegressions i (debtLogEntriesForUpdate (Some d) opts)) = {debtLogRegressionFor x}"
    by simp
  then show ?thesis
    by (rule paid_single[OF paid_for_record[OF x(4)]]) (use path_increase_strict[OF at(4)] in blast)
qed

lemma orphan_snapshot_matches:
  "orphanMatchesRemovedBaseline \<lparr>or_testId = k, or_ruleId = gm_ruleId t, or_metric = gm_metric t,
     or_baselineItems = orphanBaselineItems t\<rparr> k t"
proof -
  have "key_sort compareByCodepoint (key_sort compareByCodepoint (bt_items t)) = key_sort compareByCodepoint (bt_items t)"
    by (rule comparator.js_sort_idem[OF cp.key_comparator])
  then show ?thesis by (simp add: orphanMatchesRemovedBaseline_def orphanBaselineItems_def)
qed

lemma entries_of_update:
  "set (debtLogEntriesForUpdate (Some d) opts) =
     (if uo_allowWorse opts \<and> hasAcceptedDebt d then {buildLintRatchetDebtLogEntry d (trimmed_or_empty (uo_reason opts))} else {})
     \<union> (if uo_allowWorse opts then (\<lambda>s. buildLintRatchetCoverageShrinkLogEntry s (trimmed_or_empty (uo_reason opts))) ` set (ud_coverageShrinks d) else {})
     \<union> (\<lambda>m. buildLintRatchetMetricMigrationLogEntry m
          (case uo_migrationReason opts of None \<Rightarrow> trimmed_or_empty (uo_reason opts) | Some r \<Rightarrow> js_trim r)) ` set (ud_metricMigrations d)
     \<union> (case ud_retiredRatchetId d of None \<Rightarrow> {} | Some k \<Rightarrow> {buildLintRatchetRetirementLogEntry k (ud_retirementOptionsAttestation d)})"
  by (auto simp: debtLogEntriesForUpdate_def Let_def split: option.splits)

lemma update_missing_paid:
  assumes d: "decideLintRatchetUpdate lc glob committed generated ratchets opts = Inr d" and ok: "ud_allowed d"
    and stored: "stored_items committed" and gen: "generated_from ratchets generated"
    and t: "(k, t) \<in> set (collectMissingRatchets committed generated)"
  shows "accountsForMissingRatchet k t (debtLogEntriesForUpdate (Some d) opts)"
proof -
  let ?rs = "collectOrphanRemovals committed ratchets"
  let ?x = "\<lparr>or_testId = k, or_ruleId = gm_ruleId t, or_metric = gm_metric t, or_baselineItems = orphanBaselineItems t\<rparr>"
  have t': "map_of (bl_tests committed) k = Some t" "map_of (bl_tests generated) k = None"
    using t stored by (auto simp: collectMissingRatchets_def stored_items_def)
  then have "k \<notin> set (map rc_id ratchets)"
    using gen by (auto simp: generated_from_def map_of_eq_None_iff)
  then have x: "?x \<in> set ?rs"
    using t'(1) unfolding collectOrphanRemovals_set by (intro exI[of _ k]) (simp add: orphan_at_def)
  have only: "y = ?x" if "y \<in> set ?rs" "or_testId y = k" for y
    using that t'(1) unfolding collectOrphanRemovals_set by (auto simp: orphan_at_def split: if_splits option.splits)
  let ?ret = "Option.bind (uo_retire opts) (\<lambda>r. rs_retiredRatchetId (resolveRetire r ?rs))"
  have dd: "ud_orphanRemovals d = accountableOrphans ?rs ?ret" "ud_retiredRatchetId d = ?ret"
    using decide_cases[of lc committed ratchets generated opts glob] d ok by auto
  show ?thesis
  proof (cases "ud_retiredRatchetId d = Some k")
    case True
    then obtain r where r: "uo_retire opts = Some r" "rs_retiredRatchetId (resolveRetire r ?rs) = Some k"
      using dd(2) by (auto simp: bind_eq_Some_conv)
    obtain y where "y \<in> set ?rs" "or_testId y = k" "orphanFindingTotal y \<le> 0"
      using resolveRetire_id[OF r(2)] by auto
    then have total: "(\<Sum>z\<leftarrow>bt_items t. mi_count (snd z)) \<le> 0"
      using only orphanFindingTotal_sum[of k "gm_ruleId t" "gm_metric t" t] by metis
    have pos: "0 < mi_count (snd z)" if "z \<in> set (bt_items t)" for z
      using that bspec[OF conjunct2[OF stored[unfolded stored_items_def]] map_of_SomeD[OF t'(1)]] by auto
    have "bt_items t = []"
    proof (cases "bt_items t")
      case (Cons z zs)
      have "0 \<le> (\<Sum>z\<leftarrow>zs. mi_count (snd z))" by (rule sum_list_nonneg) (use pos Cons in \<open>force simp: less_imp_le\<close>)
      with total pos[of z] Cons show ?thesis by simp
    qed
    with True show ?thesis
      by (auto simp: accountsForMissingRatchet_def list_ex_iff entries_of_update buildLintRatchetRetirementLogEntry_def)
  next
    case False
    then have "?x \<in> set (ud_orphanRemovals d)"
      using x dd by (auto simp: accountableOrphans_def split: option.splits)
    moreover from this have "uo_allowWorse opts" using update_gate_facts[OF d] ok by auto
    moreover have "hasAcceptedDebt d" using calculation(1) by (auto simp: hasAcceptedDebt_def)
    ultimately show ?thesis
      using orphan_snapshot_matches[of k t]
      by (auto simp: accountsForMissingRatchet_def list_ex_iff entries_of_update buildLintRatchetDebtLogEntry_def)
  qed
qed

lemma update_migration_paid:
  assumes d: "decideLintRatchetUpdate lc glob committed generated ratchets opts = Inr d"
    and m: "m \<in> set (collectMetricMigrations committed generated)"
  shows "accountsForMetricChange m (debtLogEntriesForUpdate (Some d) opts)"
proof -
  have "m \<in> set (ud_metricMigrations d)"
    using decide_cases[of lc committed ratchets generated opts glob] d m by auto
  then have "buildLintRatchetMetricMigrationLogEntry m
      (case uo_migrationReason opts of None \<Rightarrow> trimmed_or_empty (uo_reason opts) | Some r \<Rightarrow> js_trim r)
    \<in> set (debtLogEntriesForUpdate (Some d) opts)"
    by (simp add: entries_of_update)
  then show ?thesis
    unfolding accountsForMetricChange_def list_ex_iff by (rule bexI[rotated]) (simp add: buildLintRatchetMetricMigrationLogEntry_def)
qed

lemma update_shrink_paid:
  assumes d: "decideLintRatchetUpdate lc glob committed generated ratchets opts = Inr d" and ok: "ud_allowed d"
    and s: "s \<in> set (collectCoverageShrinks glob committed generated)"
  shows "unaccountedCoverageShrink s (debtLogEntriesForUpdate (Some d) opts) = None"
proof -
  have in_d: "s \<in> set (ud_coverageShrinks d)"
    using decide_cases[of lc committed ratchets generated opts glob] d s by auto
  then have "uo_allowWorse opts" using update_gate_facts[OF d] ok by auto
  with in_d have e: "buildLintRatchetCoverageShrinkLogEntry s (trimmed_or_empty (uo_reason opts)) \<in> set (debtLogEntriesForUpdate (Some d) opts)"
    by (auto simp: entries_of_update)
  define es where "es = concat (map (shrink_entry_of (cs_ratchetId s)) (debtLogEntriesForUpdate (Some d) opts))"
  have "\<exists>x \<in> set es. se_removedPaths x = cs_removedPaths s"
    using e by (force simp: buildLintRatchetCoverageShrinkLogEntry_def es_def)
  then obtain x where x: "x \<in> set es" "se_removedPaths x = cs_removedPaths s" by blast
  have "p \<in> set (concat (map se_removedPaths es))" if "p \<in> set (cs_removedPaths s)" for p
    unfolding set_concat set_map using x(1) that[folded x(2)] by blast
  then have "filter (\<lambda>p. p \<notin> set (js_set (concat (map se_removedPaths es)))) (cs_removedPaths s) = []"
    unfolding filter_empty_conv set_js_set by blast
  then show ?thesis
    by (simp add: unaccountedCoverageShrink_def Let_def flip: es_def)
qed

definition allow_options :: update_options where
  "allow_options = plain_options\<lparr>uo_allowWorse := True, uo_reason := Some ''the new check finds more''\<rparr>"

lemma update_is_accounted:
  assumes "decideLintRatchetUpdate lc glob committed generated ratchets opts = Inr d" and "ud_allowed d"
    and "stored_items committed" and "stored_items generated" and "generated_from ratchets generated"
    and "no_kept_complexity committed generated"
  shows "accounting_failures glob committed generated (debtLogEntriesForUpdate (Some d) opts) = []"
  using update_increases_paid[OF assms] update_missing_paid[OF assms(1-3,5)] update_migration_paid[OF assms(1)]
    update_shrink_paid[OF assms(1,2)]
  by (auto simp: accounting_failures_def collectUnaccountedLifecycleChanges_def filter_empty_conv List.map_filter_def)

text \<open>
  C17: the writer and the checker agree: for an accepted update of a stored baseline, the entries
  that the update writes account for every increase and every lifecycle change that the accounting
  check finds between the two baselines, provided that no ratchet on complexity keeps its metric.
\<close>

theorem accepted_update_is_accounted:
  assumes "decideLintRatchetUpdate lc glob committed generated ratchets opts = Inr d" and "ud_allowed d"
    and "stored_items committed" and "stored_items generated" and "generated_from ratchets generated"
    and "no_kept_complexity committed generated"
  shows "accounting_failures glob committed generated (debtLogEntriesForUpdate (Some d) opts) = []"
  using assms by (rule update_is_accounted)

theorem accepted_update_is_accounted_witness:
  "\<exists>d. decideLintRatchetUpdate codeUnitCompare exact_glob (sample_baseline [(''p'', 1)]) (sample_baseline [(''p'', 3), (''q'', 1)])
      (one_ratchet MessageCount) allow_options = Inr d \<and> length (cmp_regressions d) = 2 \<and>
     accounting_failures exact_glob (sample_baseline [(''p'', 1)]) (sample_baseline [(''p'', 3), (''q'', 1)])
       (debtLogEntriesForUpdate (Some d) allow_options) = []"
proof -
  let ?b = "sample_baseline [(''p'', 1)]" and ?g = "sample_baseline [(''p'', 3), (''q'', 1)]"
  let ?u = "decideLintRatchetUpdate codeUnitCompare exact_glob ?b ?g (one_ratchet MessageCount) allow_options"
  have "accepted ?u \<and> (case ?u of Inl _ \<Rightarrow> False | Inr d \<Rightarrow> length (cmp_regressions d) = 2)"
    by code_simp
  then obtain d where d: "?u = Inr d" "ud_allowed d" "length (cmp_regressions d) = 2"
    by (auto simp: accepted_def split: sum.splits)
  have "accounting_failures exact_glob ?b ?g (debtLogEntriesForUpdate (Some d) allow_options) = []"
    by (rule accepted_update_is_accounted[OF d(1,2)]) code_simp+
  with d show ?thesis by blast
qed

definition complexity_baseline :: "(string \<times> int) list \<Rightarrow> ratchet_baseline" where
  "complexity_baseline fs = \<lparr>bl_version = 2, bl_regenerate = None, bl_tests = [(''ratchet/a'',
     group_meta.extend (sample_meta ''no-console'' ComplexitySeverity)
       (baseline_test.fields [(''src/a.ts'', formatItem codeUnitCompare ComplexitySeverity
          ((count_item (int (length fs)))\<lparr>mi_perFunction := Some (map (\<lambda>(l, n).
             \<lparr>cf_line = 1, cf_label = l, cf_complexity = n\<rparr>) fs)\<rparr>))]))]\<rparr>"

text \<open>
  On complexity the two sides do not agree: an accepted update, with a reason, whose own record
  the accounting check then rejects. The comparison records the step of one function that got worse
  (10 to 12), the check asks for a chain between the maxima of the file (15 to 16).
\<close>

theorem complexity_update_unaccounted:
  "let old = complexity_baseline [(''f'', 10), (''g'', 15)]; new = complexity_baseline [(''f'', 12), (''h'', 16)];
       r = decideLintRatchetUpdate codeUnitCompare exact_glob old new (one_ratchet ComplexitySeverity) allow_options
   in stored_items old \<and> stored_items new \<and> generated_from (one_ratchet ComplexitySeverity) new \<and>
      (case r of
         Inl _ \<Rightarrow> False
       | Inr d \<Rightarrow> ud_allowed d \<and>
           map (\<lambda>x. (dl_baselineComplexity x, dl_currentComplexity x)) (cmp_regressions d) = [(Some 10, Some 12)] \<and>
           map di_kind (collectBaselineIncreases old new) = [ComplexityIncrease] \<and>
           accounting_failures exact_glob old new (debtLogEntriesForUpdate (Some d) allow_options)
             = map IncreaseFailure (collectBaselineIncreases old new))"
  by code_simp

end
