(* ===== verification/UpdateAccounting.thy ===== *)
theory UpdateAccounting
  imports UpdateApplyLaws AccountingLaws
begin

text \<open>
  The update and the accounting check together, on the texts of the two files: the check reads back
  exactly the entries that an update appended, a check that passes means that every increase was
  recorded, and an update passes the check.
\<close>

section \<open>Reading what was appended\<close>

lemma parse_batch:
  assumes "list_all (entry_ok dc) es" and "es \<noteq> []"
  shows "parseDebtLogJsonl (JSON_parse dc msg) issues (log_batch es) label = Inr es"
  unfolding parseDebtLogJsonl_def batch_lines[OF assms] by (rule parse_entry_lines[OF assms(1)])

lemma batch_starts:
  assumes "es \<noteq> []" shows "\<exists>s. log_batch es = CHR ''{'' # s"
proof -
  obtain e es' where e: "es = e # es'" using assms by (cases es) auto
  have o: "\<exists>s. stringify (JObj (m # ms)) = CHR ''{'' # s" for m ms
    by (simp add: stringify_def js_print.simps seq_open_def)
  have "\<exists>s. stringify (entry_json e) = CHR ''{'' # s"
    by (cases e) (use o in \<open>simp_all\<close>)
  then show ?thesis by (cases es') (auto simp: log_batch_def e)
qed

lemma drop_newline_batch: "es \<noteq> [] \<Longrightarrow> drop_newline ([CHR 0x0A] @ log_batch es) = log_batch es"
  using batch_starts[of es] by (auto simp: drop_newline_def starts_with_def)

lemma appended_text:
  assumes "appendValidatedDebtLogEntries issues es (Some old) = Inr (True, Some log)"
  shows "es \<noteq> [] \<and> log = old @ (if old \<noteq> [] \<and> \<not> ends_with old [CHR 0x0A] then [CHR 0x0A] else []) @ log_batch es"
  using assms by (auto simp: appendValidatedDebtLogEntries_def Let_def split: option.splits if_splits)

lemma added_entries:
  assumes "parseDebtLogJsonl (JSON_parse dc msg) issues old (name @ '' at base'') = Inr earlier"
    and "list_all (entry_ok dc) es"
    and "appendValidatedDebtLogEntries issues es (Some old) = Inr (True, Some log)"
  shows "addedDebtLogEntries (JSON_parse dc msg) issues old log name = Inr es"
proof -
  have es: "es \<noteq> []" and log: "log = old @ (if old \<noteq> [] \<and> \<not> ends_with old [CHR 0x0A] then [CHR 0x0A] else []) @ log_batch es"
    using appended_text[OF assms(3)] by auto
  have "starts_with log old" by (simp add: starts_with_def log)
  moreover have "(if old \<noteq> [] \<and> \<not> ends_with old [CHR 0x0A] then drop_newline (drop (length old) log) else drop (length old) log)
      = log_batch es"
    using drop_newline_batch[OF es] by (simp add: log)
  ultimately show ?thesis
    using assms(1) parse_batch[OF assms(2) es]
    by (simp add: addedDebtLogEntries_def assertDebtLogAppendOnly_def Let_def)
qed

text \<open>
  Whether or not the log ended with a line break, the accounting check reads exactly the
  entries that were appended, in order; the separator that the writer inserts is the one that the
  reader takes away.
\<close>

theorem added_entries_exact:
  assumes "parseDebtLogJsonl (JSON_parse dc msg) issues old (name @ '' at base'') = Inr earlier"
    and "list_all (entry_ok dc) es"
    and "appendValidatedDebtLogEntries issues es (Some old) = Inr (True, Some log)"
  shows "addedDebtLogEntries (JSON_parse dc msg) issues old log name = Inr es"
  using assms by (rule added_entries)

section \<open>An update for the witnesses\<close>

text \<open>Two baselines as they are on disk: one finding and two findings in a file.\<close>

definition disk_spec where
  "disk_spec = lintRatchetBaselineSpec codeUnitCompare default_version_policy sample_vocab ''baseline.json''"

definition disk_baseline :: "int \<Rightarrow> ratchet_baseline" where
  "disk_baseline n = (stored_baseline n)\<lparr>bl_regenerate := Some (JStr ''u'')\<rparr>"

definition disk_text :: "int \<Rightarrow> string" where
  "disk_text n = (case formatGroupedBaseline disk_spec (lintRatchetBaselineToGrouped (disk_baseline n)) of
     Inl _ \<Rightarrow> [] | Inr s \<Rightarrow> s)"

definition disk_context :: engine_context where
  "disk_context = \<lparr>ec_baselineName = ''baseline.json'', ec_debtLogName = ''log.jsonl'', ec_workflowVocabulary = sample_vocab\<rparr>"

lemma disk_reads_back:
  assumes "n = 1 \<or> n = 2"
  shows "parseCommittedStructure (JSON_parse JDec id) codeUnitCompare disk_context (disk_text n) = Inr (disk_baseline n)"
proof -
  let ?b = "lintRatchetBaselineToGrouped (disk_baseline n)"
  have "\<exists>txt. formatGroupedBaseline disk_spec ?b = Inr txt \<and>
      parseGroupedBaseline (JSON_parse JDec id) disk_spec txt = ParseOk (normal_baseline codeUnitCompare ?b) []"
    unfolding disk_spec_def by (rule roundtrip_base; rule disjE[OF assms]; hypsubst; code_simp)
  moreover have "lintRatchetBaselineFromGrouped (normal_baseline codeUnitCompare ?b) default_version_policy = Inr (disk_baseline n)"
    by (rule disjE[OF assms]; hypsubst; code_simp)
  ultimately show ?thesis
    by (auto simp: parseCommittedStructure_def parseLintRatchetBaselineStructure_def disk_text_def disk_context_def disk_spec_def)
qed

definition disk_params :: apply_params where
  "disk_params = \<lparr>ap_context = disk_context, ap_generated = disk_baseline 2, ap_rendered = disk_text 2,
     ap_registry = one_ratchet MessageCount, ap_options = allow_options, ap_currentFindingCount = 2\<rparr>"

definition disk_files :: files where
  "disk_files = \<lparr>fs_baseline = Some (disk_text 1), fs_debtLog = None\<rparr>"

lemma disk_decision:
  obtains d ws where "gateCommittedBaseline (JSON_parse JDec id) codeUnitCompare exact_glob disk_params disk_files = Inr (Some d, ws)"
    "debtLogEntriesForUpdate (Some d) allow_options =
       [AcceptedDebt ''the new check finds more'' [sample_regression ''src/a.ts'' 1 2] []]"
proof -
  let ?u = "decideLintRatchetUpdate codeUnitCompare exact_glob (disk_baseline 1) (disk_baseline 2) (one_ratchet MessageCount)
      (allow_options\<lparr>uo_workflowVocabulary := sample_vocab\<rparr>)"
  have "accepted ?u \<and> (case ?u of Inl _ \<Rightarrow> False | Inr d \<Rightarrow> debtLogEntriesForUpdate (Some d) allow_options =
       [AcceptedDebt ''the new check finds more'' [sample_regression ''src/a.ts'' 1 2] []])"
    by code_simp
  then obtain d where d: "?u = Inr d" "ud_allowed d" "debtLogEntriesForUpdate (Some d) allow_options =
       [AcceptedDebt ''the new check finds more'' [sample_regression ''src/a.ts'' 1 2] []]"
    by (auto simp: accepted_def split: sum.splits)
  have "gateCommittedBaseline (JSON_parse JDec id) codeUnitCompare exact_glob disk_params disk_files =
      Inr (Some d, map (\<lambda>w. warning_sign @ '' '' @ w) (ud_warnings d))"
    using d(1,2) disk_reads_back[of 1]
    by (simp add: gateCommittedBaseline_def disk_files_def disk_params_def disk_context_def)
  then show thesis using that d(3) by blast
qed

lemma disk_owed:
  "owed_entries (JSON_parse JDec id) codeUnitCompare exact_glob disk_params disk_files =
     [AcceptedDebt ''the new check finds more'' [sample_regression ''src/a.ts'' 1 2] []]"
proof -
  obtain d ws where "gateCommittedBaseline (JSON_parse JDec id) codeUnitCompare exact_glob disk_params disk_files = Inr (Some d, ws)"
    "debtLogEntriesForUpdate (Some d) allow_options =
       [AcceptedDebt ''the new check finds more'' [sample_regression ''src/a.ts'' 1 2] []]"
    using disk_decision .
  then show ?thesis by (simp add: owed_entries_def disk_params_def)
qed

lemma disk_texts_differ: "disk_text 1 \<noteq> disk_text 2"
proof
  assume "disk_text 1 = disk_text 2"
  then have "disk_baseline 1 = disk_baseline 2"
    using disk_reads_back[of 1] disk_reads_back[of 2] by simp
  then have "bl_tests (disk_baseline 1) = bl_tests (disk_baseline 2)" by simp
  moreover have "bl_tests (disk_baseline 1) \<noteq> bl_tests (disk_baseline 2)" by code_simp
  ultimately show False by simp
qed

definition disk_run :: update_run where
  "disk_run = applyLintRatchetUpdate io_ok (JSON_parse JDec id) codeUnitCompare exact_glob (\<lambda>_. []) disk_params disk_files"

lemma disk_run_writes: "ur_trace disk_run \<noteq> []"
proof -
  obtain d ws where g: "gateCommittedBaseline (JSON_parse JDec id) codeUnitCompare exact_glob disk_params disk_files = Inr (Some d, ws)"
    "debtLogEntriesForUpdate (Some d) allow_options =
       [AcceptedDebt ''the new check finds more'' [sample_regression ''src/a.ts'' 1 2] []]"
    using disk_decision .
  have "case appendValidatedDebtLogEntries (\<lambda>_. []) [AcceptedDebt ''the new check finds more'' [sample_regression ''src/a.ts'' 1 2] []] None
      of Inl _ \<Rightarrow> False | Inr _ \<Rightarrow> True"
    by code_simp
  then obtain w log where a: "appendValidatedDebtLogEntries (\<lambda>_. []) (debtLogEntriesForUpdate (Some d) allow_options) None = Inr (w, log)"
    by (auto simp: g(2) split: sum.splits)
  show ?thesis
    using g(1) a disk_texts_differ
    by (auto simp: disk_run_def apply_unfold disk_params_def disk_files_def Let_def split: sum.splits)
qed

section \<open>An update passes the check\<close>

definition text_of :: "string option \<Rightarrow> string" where
  "text_of f = (case f of None \<Rightarrow> [] | Some s \<Rightarrow> s)"

text \<open>The check between two states of the two files.\<close>

definition accounting_of :: "engine_context \<Rightarrow> files \<Rightarrow> files \<Rightarrow> accounting_options" where
  "accounting_of ctx base current =
     \<lparr>ao_baseBaselineText = text_of (fs_baseline base), ao_currentBaselineText = text_of (fs_baseline current),
      ao_baseDebtLogText = text_of (fs_debtLog base), ao_currentDebtLogText = text_of (fs_debtLog current),
      ao_baselineDisplayName = Some (ec_baselineName ctx), ao_debtLogDisplayName = Some (ec_debtLogName ctx),
      ao_workflowVocabulary = ec_workflowVocabulary ctx\<rparr>"

lemma accounting_of_simps [simp]:
  "ao_baseBaselineText (accounting_of ctx x y) = text_of (fs_baseline x)"
  "ao_currentBaselineText (accounting_of ctx x y) = text_of (fs_baseline y)"
  "ao_baseDebtLogText (accounting_of ctx x y) = text_of (fs_debtLog x)"
  "ao_currentDebtLogText (accounting_of ctx x y) = text_of (fs_debtLog y)"
  "ao_baselineDisplayName (accounting_of ctx x y) = Some (ec_baselineName ctx)"
  "ao_debtLogDisplayName (accounting_of ctx x y) = Some (ec_debtLogName ctx)"
  by (simp_all add: accounting_of_def)

lemma text_of_Some [simp]: "text_of (Some s) = s"
  by (simp add: text_of_def)

lemma parseBaseline_committed:
  "parseCommittedStructure jp lc ctx txt = Inr b \<Longrightarrow> parseBaseline jp lc label txt (accounting_of ctx x y) = Inr b"
  by (auto simp: parseCommittedStructure_def parseBaseline_def accounting_of_def and_then_Inr lift_error_Inr
      split: option.splits)

lemma entries_vocabulary [simp]:
  "debtLogEntriesForUpdate d (opts\<lparr>uo_workflowVocabulary := v\<rparr>) = debtLogEntriesForUpdate d opts"
  by (cases d) (simp_all add: debtLogEntriesForUpdate_def Let_def)

lemma append_to_text:
  "appendValidatedDebtLogEntries issues es old = Inr (True, log) \<Longrightarrow>
     \<exists>new. log = Some new \<and> appendValidatedDebtLogEntries issues es (Some (text_of old)) = Inr (True, Some new)"
  by (cases old) (auto simp: appendValidatedDebtLogEntries_def text_of_def Let_def split: option.splits if_splits)

lemma no_added:
  assumes "parseDebtLogJsonl jp issues old (name @ '' at base'') = Inr earlier"
  shows "addedDebtLogEntries jp issues old old name = Inr []"
  using assms by (simp add: addedDebtLogEntries_def assertDebtLogAppendOnly_def starts_with_def drop_newline_def
      parseDebtLogJsonl_def debtLogLines_def)

lemma added_by_run:
  assumes append: "appendValidatedDebtLogEntries issues es old = Inr (w, log)"
    and "parseDebtLogJsonl (JSON_parse dc msg) issues (text_of old) (name @ '' at base'') = Inr earlier"
    and "list_all (entry_ok dc) es" and "es = [] \<or> \<not> suffix (log_batch es) (text_of old)"
  shows "addedDebtLogEntries (JSON_parse dc msg) issues (text_of old) (text_of log) name = Inr es"
proof (cases "es = []")
  case True
  then have "log = old" using append by (simp add: appendValidatedDebtLogEntries_def)
  then show ?thesis using True no_added[OF assms(2)] by simp
next
  case False
  then have "w"
    using append assms(4)
    by (cases old) (auto simp: appendValidatedDebtLogEntries_def text_of_def Let_def ends_with_suffix split: option.splits if_splits)
  then obtain new where new: "log = Some new" "appendValidatedDebtLogEntries issues es (Some (text_of old)) = Inr (True, Some new)"
    using append_to_text[of issues es old log] append by auto
  show ?thesis
    using added_entries[OF assms(2,3) new(2)] new(1) by (simp add: text_of_def)
qed

lemma update_passes_base:
  fixes p fs lc glob issues dc msg
  defines "jp \<equiv> JSON_parse dc msg"
  defines "r \<equiv> applyLintRatchetUpdate io_ok jp lc glob issues p fs"
  defines "owed \<equiv> owed_entries jp lc glob p fs"
  assumes base: "fs_baseline fs = Some oldText" "parseCommittedStructure jp lc (ap_context p) oldText = Inr committed"
    and log: "parseDebtLogJsonl jp issues (text_of (fs_debtLog fs)) (ec_debtLogName (ap_context p) @ '' at base'') = Inr earlier"
    and new: "parseCommittedStructure jp lc (ap_context p) (ap_rendered p) = Inr (ap_generated p)"
    and stored: "stored_items committed" "stored_items (ap_generated p)" "generated_from (ap_registry p) (ap_generated p)"
      "no_kept_complexity committed (ap_generated p)"
    and entries: "list_all (entry_ok dc) owed" "owed = [] \<or> \<not> suffix (log_batch owed) (text_of (fs_debtLog fs))"
    and ran: "ur_trace r \<noteq> []"
  shows "checkBaselineDebtAccounting jp lc glob issues (accounting_of (ap_context p) fs (final_files fs r)) =
    Inr \<lparr>ar_increases = collectBaselineIncreases committed (ap_generated p), ar_failures = []\<rparr>"
proof (cases rule: run_cases[of jp lc glob issues p fs])
  case quiet
  with ran show ?thesis by (simp add: r_def)
next
  case (written w log')
  have final: "final_files fs r = fs\<lparr>fs_debtLog := log', fs_baseline := Some (ap_rendered p)\<rparr>"
    by (simp add: final_files_def r_def written(3))
  obtain d ws where g: "gateCommittedBaseline jp lc glob p fs = Inr (Some d, ws)"
    "decideLintRatchetUpdate lc glob committed (ap_generated p) (ap_registry p)
       ((ap_options p)\<lparr>uo_workflowVocabulary := ec_workflowVocabulary (ap_context p)\<rparr>) = Inr d" "ud_allowed d"
  proof -
    have "ur_result r = Inr b \<Longrightarrow> \<exists>d ws. gateCommittedBaseline jp lc glob p fs = Inr (d, ws)" for b
      by (cases "gateCommittedBaseline jp lc glob p fs") (auto simp: r_def apply_unfold failed_def)
    with written(4) obtain d' ws where "gateCommittedBaseline jp lc glob p fs = Inr (d', ws)" by (auto simp: r_def)
    then show thesis
      using that base by (auto simp: gateCommittedBaseline_def and_then_Inr lift_error_Inr split: if_splits)
  qed
  have owed: "owed = debtLogEntriesForUpdate (Some d) (ap_options p)"
    by (simp add: owed_def owed_entries_def g)
  have added: "addedDebtLogEntries jp issues (text_of (fs_debtLog fs)) (text_of log') (ec_debtLogName (ap_context p)) = Inr owed"
    unfolding jp_def
    by (rule added_by_run[OF written(2)[folded owed_def] log[unfolded jp_def] entries])
  have "accounting_failures glob committed (ap_generated p) owed = []"
    using update_is_accounted[OF g(2,3) stored] by (simp add: owed)
  then show ?thesis
    using parseBaseline_committed[OF base(2)] parseBaseline_committed[OF new] added
    by (simp add: checkBaselineDebtAccounting_def final base(1) Let_def)
qed

text \<open>What the two properties below ask of this run.\<close>

lemma disk_hypotheses:
  shows "fs_baseline disk_files = Some (disk_text 1)"
    and "parseCommittedStructure (JSON_parse JDec id) codeUnitCompare (ap_context disk_params) (disk_text 1) = Inr (disk_baseline 1)"
    and "parseDebtLogJsonl (JSON_parse JDec id) (\<lambda>_. []) (text_of (fs_debtLog disk_files))
      (ec_debtLogName (ap_context disk_params) @ '' at base'') = Inr []"
    and "parseCommittedStructure (JSON_parse JDec id) codeUnitCompare (ap_context disk_params) (ap_rendered disk_params) =
      Inr (ap_generated disk_params)"
    and "stored_items (disk_baseline 1)" "stored_items (ap_generated disk_params)"
      "generated_from (ap_registry disk_params) (ap_generated disk_params)"
      "no_kept_complexity (disk_baseline 1) (ap_generated disk_params)"
    and "list_all (entry_ok JDec) (owed_entries (JSON_parse JDec id) codeUnitCompare exact_glob disk_params disk_files)"
    and "owed_entries (JSON_parse JDec id) codeUnitCompare exact_glob disk_params disk_files = [] \<or>
      \<not> suffix (log_batch (owed_entries (JSON_parse JDec id) codeUnitCompare exact_glob disk_params disk_files)) (text_of (fs_debtLog disk_files))"
    and "ur_trace (applyLintRatchetUpdate io_ok (JSON_parse JDec id) codeUnitCompare exact_glob (\<lambda>_. []) disk_params disk_files) \<noteq> []"
proof -
  show "stored_items (disk_baseline 1)" "stored_items (ap_generated disk_params)"
    "generated_from (ap_registry disk_params) (ap_generated disk_params)"
    "no_kept_complexity (disk_baseline 1) (ap_generated disk_params)"
    unfolding disk_params_def apply_params.select_convs by code_simp+
  show "parseDebtLogJsonl (JSON_parse JDec id) (\<lambda>_. []) (text_of (fs_debtLog disk_files))
      (ec_debtLogName (ap_context disk_params) @ '' at base'') = Inr []"
    by (simp add: disk_files_def text_of_def parseDebtLogJsonl_def debtLogLines_def)
  show "list_all (entry_ok JDec) (owed_entries (JSON_parse JDec id) codeUnitCompare exact_glob disk_params disk_files)"
    unfolding disk_owed by code_simp
qed (use disk_reads_back[of 1] disk_reads_back[of 2] disk_run_writes in
      \<open>simp_all add: disk_params_def disk_files_def disk_run_def text_of_def log_batch_def\<close>)

lemma disk_run_passes:
  "checkBaselineDebtAccounting (JSON_parse JDec id) codeUnitCompare exact_glob (\<lambda>_. [])
     (accounting_of disk_context disk_files (final_files disk_files disk_run)) =
   Inr \<lparr>ar_increases = collectBaselineIncreases (disk_baseline 1) (disk_baseline 2), ar_failures = []\<rparr>"
  using update_passes_base[OF disk_hypotheses] by (simp add: disk_run_def disk_params_def)

text \<open>
  C16: on the texts on disk: when an update of a stored baseline runs and its writes succeed, the
  accounting check between the files before and after it passes and lists exactly the increases. The
  conditions: the committed and the generated baseline are stored ones, the new text parses back to the
  generated baseline, the old log parses, the entries owed are valid, no ratchet on complexity keeps its
  metric, and the log does not end with the owed entries already.
\<close>

theorem update_passes_accounting:
  fixes p fs lc glob issues dc msg
  defines "jp \<equiv> JSON_parse dc msg"
  defines "r \<equiv> applyLintRatchetUpdate io_ok jp lc glob issues p fs"
  defines "owed \<equiv> owed_entries jp lc glob p fs"
  assumes base: "fs_baseline fs = Some oldText" "parseCommittedStructure jp lc (ap_context p) oldText = Inr committed"
    and log: "parseDebtLogJsonl jp issues (text_of (fs_debtLog fs)) (ec_debtLogName (ap_context p) @ '' at base'') = Inr earlier"
    and new: "parseCommittedStructure jp lc (ap_context p) (ap_rendered p) = Inr (ap_generated p)"
    and stored: "stored_items committed" "stored_items (ap_generated p)" "generated_from (ap_registry p) (ap_generated p)"
      "no_kept_complexity committed (ap_generated p)"
    and entries: "list_all (entry_ok dc) owed" "owed = [] \<or> \<not> suffix (log_batch owed) (text_of (fs_debtLog fs))"
    and ran: "ur_trace r \<noteq> []"
  shows "checkBaselineDebtAccounting jp lc glob issues (accounting_of (ap_context p) fs (final_files fs r)) =
    Inr \<lparr>ar_increases = collectBaselineIncreases committed (ap_generated p), ar_failures = []\<rparr>"
  unfolding jp_def r_def owed_def
  by (rule update_passes_base[OF assms(4-)[unfolded jp_def r_def owed_def]])

theorem update_passes_accounting_witness:
  "checkBaselineDebtAccounting (JSON_parse JDec id) codeUnitCompare exact_glob (\<lambda>_. [])
     (accounting_of disk_context disk_files (final_files disk_files disk_run)) =
   Inr \<lparr>ar_increases = collectBaselineIncreases (disk_baseline 1) (disk_baseline 2), ar_failures = []\<rparr>"
  using update_passes_accounting[OF disk_hypotheses] by (simp add: disk_run_def disk_params_def)

lemma unpaid_without_entries:
  assumes "i \<in> set (collectBaselineIncreases base current)"
  shows "\<not> hasAccountingEntry i []"
proof -
  obtain k old new p item where "map_of (bl_tests base) k = Some old" "map_of (bl_tests current) k = Some new"
      "map_of (bt_items new) p = Some item" and i: "i \<in> set (path_increases k old new p)"
    using increases_at[OF assms] .
  from i have strict: "di_kind i = CountIncrease \<Longrightarrow> di_previousCount i \<noteq> di_currentCount i"
    by (rule path_increase_strict)
  have m: "matchingRegressions i [] = []" by (simp add: matchingRegressions_def)
  show ?thesis
  proof (cases "di_kind i")
    case CountIncrease
    with strict show ?thesis by (simp add: hasAccountingEntry_def m countChainAccountsForIncrease_def)
  next
    case NewPathIncrease
    then show ?thesis by (simp add: hasAccountingEntry_def m countChainAccountsForIncrease_def)
  next
    case LinesIncrease
    then show ?thesis by (simp add: hasAccountingEntry_def m lineChainAccountsForIncrease_def split: option.splits)
  next
    case ComplexityIncrease
    then show ?thesis by (simp add: hasAccountingEntry_def m complexityChainAccountsForIncrease_def split: option.splits)
  qed
qed

text \<open>
  C24: the last condition is needed. When the log already ends with the text of the entries that an
  update owes (an earlier acceptance of the same step with the same reason), the update takes them
  for its own, appends nothing, and every increase it makes stays unaccounted.
\<close>

theorem repeated_acceptance_is_lost:
  assumes "es \<noteq> []" and "check_entries issues es = None" and "suffix (log_batch es) old"
    and "parseDebtLogJsonl jp issues old (name @ '' at base'') = Inr earlier"
  shows "appendValidatedDebtLogEntries issues es (Some old) = Inr (False, Some old) \<and>
    addedDebtLogEntries jp issues old old name = Inr [] \<and>
    (\<forall>i \<in> set (collectBaselineIncreases base current). IncreaseFailure i \<in> set (accounting_failures glob base current []))"
proof -
  have "appendValidatedDebtLogEntries issues es (Some old) = Inr (False, Some old)"
    using assms(1-3) by (simp add: appendValidatedDebtLogEntries_def ends_with_suffix)
  moreover have "\<forall>i \<in> set (collectBaselineIncreases base current). IncreaseFailure i \<in> set (accounting_failures glob base current [])"
    using unpaid_without_entries by (auto simp: accounting_failures_def)
  ultimately show ?thesis using no_added[OF assms(4)] by blast
qed

text \<open>The same step from 1 to 2 findings is accepted twice for the same reason.\<close>

definition accepted_step :: debt_entry where
  "accepted_step = AcceptedDebt ''the new check finds one more'' [sample_regression ''p'' 1 2] []"

theorem repeated_acceptance_is_lost_witness:
  "map di_kind (collectBaselineIncreases (sample_baseline [(''p'', 1)]) (sample_baseline [(''p'', 2)])) = [CountIncrease] \<and>
   hasAccountingEntry (hd (collectBaselineIncreases (sample_baseline [(''p'', 1)]) (sample_baseline [(''p'', 2)]))) [accepted_step] \<and>
   appendValidatedDebtLogEntries (\<lambda>_. []) [accepted_step] (Some (log_batch [accepted_step])) = Inr (False, Some (log_batch [accepted_step])) \<and>
   IncreaseFailure (hd (collectBaselineIncreases (sample_baseline [(''p'', 1)]) (sample_baseline [(''p'', 2)])))
     \<in> set (accounting_failures exact_glob (sample_baseline [(''p'', 1)]) (sample_baseline [(''p'', 2)]) [])"
proof -
  have c: "check_entries (\<lambda>_. []) [accepted_step] = None" by code_simp
  have p: "parseDebtLogJsonl (JSON_parse (\<lambda>_. JNull) id) (\<lambda>_. []) (log_batch [accepted_step]) (''log'' @ '' at base'') = Inr [accepted_step]"
    by code_simp
  have a: "map di_kind (collectBaselineIncreases (sample_baseline [(''p'', 1)]) (sample_baseline [(''p'', 2)])) = [CountIncrease]"
    "hasAccountingEntry (hd (collectBaselineIncreases (sample_baseline [(''p'', 1)]) (sample_baseline [(''p'', 2)]))) [accepted_step]"
    by code_simp+
  then have "hd (collectBaselineIncreases (sample_baseline [(''p'', 1)]) (sample_baseline [(''p'', 2)])) \<in>
      set (collectBaselineIncreases (sample_baseline [(''p'', 1)]) (sample_baseline [(''p'', 2)]))"
    by (intro hd_in_set) auto
  then show ?thesis
    using repeated_acceptance_is_lost[OF _ c suffix_order.order_refl p] a by blast
qed

section \<open>A check that passes\<close>

lemma added_prefix:
  assumes "addedDebtLogEntries jp issues old log name = Inr es"
  shows "prefix old log"
proof -
  have "starts_with log old"
    using assms by (auto simp: addedDebtLogEntries_def and_then_Inr assertDebtLogAppendOnly_def split: if_splits)
  then show ?thesis unfolding starts_with_def by (metis take_is_prefix)
qed

text \<open>
  C18: when the check passes, the log was only extended, and every path whose count, lines or
  complexity went up between the two committed baselines has a gap-free chain of accepted
  regressions in the part that was appended.
\<close>

theorem passed_accounting_is_sound:
  assumes "checkBaselineDebtAccounting jp lc glob issues opts = Inr r" and "ar_failures r = []"
  shows "prefix (ao_baseDebtLogText opts) (ao_currentDebtLogText opts) \<and>
    (\<exists>base current added.
       parseBaseline jp lc ((case ao_baselineDisplayName opts of None \<Rightarrow> DEFAULT_BASELINE_FILENAME | Some n \<Rightarrow> n) @ '' at base'')
         (ao_baseBaselineText opts) opts = Inr base \<and>
       parseBaseline jp lc (case ao_baselineDisplayName opts of None \<Rightarrow> DEFAULT_BASELINE_FILENAME | Some n \<Rightarrow> n)
         (ao_currentBaselineText opts) opts = Inr current \<and>
       addedDebtLogEntries jp issues (ao_baseDebtLogText opts) (ao_currentDebtLogText opts)
         (case ao_debtLogDisplayName opts of None \<Rightarrow> DEFAULT_DEBT_LOG_FILENAME | Some n \<Rightarrow> n) = Inr added \<and>
       (\<forall>i \<in> set (collectBaselineIncreases base current).
          \<exists>rs. subseq rs (matchingRegressions i added) \<and> paid_chain i rs))"
proof -
  obtain base current added where p:
    "parseBaseline jp lc ((case ao_baselineDisplayName opts of None \<Rightarrow> DEFAULT_BASELINE_FILENAME | Some n \<Rightarrow> n) @ '' at base'')
       (ao_baseBaselineText opts) opts = Inr base"
    "parseBaseline jp lc (case ao_baselineDisplayName opts of None \<Rightarrow> DEFAULT_BASELINE_FILENAME | Some n \<Rightarrow> n)
       (ao_currentBaselineText opts) opts = Inr current"
    "addedDebtLogEntries jp issues (ao_baseDebtLogText opts) (ao_currentDebtLogText opts)
       (case ao_debtLogDisplayName opts of None \<Rightarrow> DEFAULT_DEBT_LOG_FILENAME | Some n \<Rightarrow> n) = Inr added"
    "ar_failures r = accounting_failures glob base current added"
    using assms(1) by (auto simp: checkBaselineDebtAccounting_def Let_def and_then_Inr)
  have "hasAccountingEntry i added" if "i \<in> set (collectBaselineIncreases base current)" for i
    using assms(2) p(4) that by (auto simp: accounting_failures_def filter_empty_conv)
  then have "\<forall>i \<in> set (collectBaselineIncreases base current). \<exists>rs. subseq rs (matchingRegressions i added) \<and> paid_chain i rs"
    using accounting_chain by blast
  with p added_prefix[OF p(3)] show ?thesis by blast
qed

theorem passed_accounting_is_sound_witness:
  "prefix (ao_baseDebtLogText (accounting_of disk_context disk_files (final_files disk_files disk_run)))
     (ao_currentDebtLogText (accounting_of disk_context disk_files (final_files disk_files disk_run)))"
  using passed_accounting_is_sound[OF disk_run_passes] by simp

end
