(* ===== verification/Registry.thy ===== *)
theory Registry
  imports BaselineSpec
begin

text \<open>
  \<open>kernel/registry-validation.ts\<close> and \<open>kernel/zero-baseline-disposition.ts\<close>: what a registry must
  satisfy before it is used. Metrics, parser profiles and disposition kinds are closed types here,
  so the three tests for an unknown one cannot fire and are left out. Strings compare by code unit.
\<close>

definition string_less_eq :: "string \<Rightarrow> string \<Rightarrow> bool" where
  "string_less_eq a b \<longleftrightarrow> codeUnitCompare a b \<le> 0"

fun sorted_unique_loop :: "string option \<Rightarrow> string list \<Rightarrow> bool" where
  "sorted_unique_loop previous [] = True"
| "sorted_unique_loop previous (v # vs) =
     (if (case previous of None \<Rightarrow> False | Some p \<Rightarrow> string_less_eq v p) then False
      else sorted_unique_loop (Some v) vs)"

definition isSortedUnique :: "string list \<Rightarrow> bool" where
  "isSortedUnique values = sorted_unique_loop None values"

definition hasNormalizedPath :: "string \<Rightarrow> bool" where
  "hasNormalizedPath v \<longleftrightarrow> v \<noteq> [] \<and> CHR 0x5C \<notin> set v \<and> take 2 v \<noteq> ''./'' \<and> take 1 v \<noteq> ''!''"

section \<open>Patterns\<close>

definition is_local_rule_id :: "string \<Rightarrow> bool" where
  "is_local_rule_id s \<longleftrightarrow> (case strip_prefix ''local/'' s of None \<Rightarrow> False | Some r \<Rightarrow> kebab r)"

definition is_package_name :: "string \<Rightarrow> bool" where
  "is_package_name s \<longleftrightarrow> s \<noteq> [] \<and> is_lower_alnum (hd s) \<and> list_all (\<lambda>c. is_lower_alnum c \<or> c \<in> set ''._-'') s"

definition is_package_specifier :: "string \<Rightarrow> bool" where
  "is_package_specifier s =
     (case s of
        [] \<Rightarrow> False
      | c # cs \<Rightarrow>
          if c = CHR ''@''
          then (case js_split (CHR ''/'') cs of
                  [scope, pkg] \<Rightarrow> is_package_name scope \<and> is_package_name pkg
                | _ \<Rightarrow> False)
          else is_package_name s)"

section \<open>Third-party allowlist\<close>

datatype plugin_export = ExportDefault | ExportPlugin | ExportOther jsval

record allowlist_entry =
  al_pluginModule :: string
  al_ruleNamespace :: string
  al_pluginExport :: "plugin_export option"

definition thirdPartyAllowlistKey :: "string \<Rightarrow> string \<Rightarrow> string" where
  "thirdPartyAllowlistKey plugin namespace = plugin @ [CHR 0x00] @ namespace"

text \<open>One entry: the failures it pushes, given the keys seen before.\<close>

definition validateThirdPartyPluginAllowlistEntry :: "allowlist_entry \<Rightarrow> string list \<Rightarrow> string list" where
  "validateThirdPartyPluginAllowlistEntry entry seen =
     fail_if (\<not> is_package_specifier (al_pluginModule entry))
       (''third-party allowlist: pluginModule must be a package name: '' @ al_pluginModule entry)
     @ fail_if (ruleNamespace (al_ruleNamespace entry @ ''/fixture-rule'') \<noteq> Some (al_ruleNamespace entry))
         (''third-party allowlist: ruleNamespace is invalid: '' @ al_ruleNamespace entry)
     @ fail_if (case al_pluginExport entry of Some (ExportOther _) \<Rightarrow> True | _ \<Rightarrow> False)
         (''third-party allowlist: pluginExport is invalid for '' @ al_pluginModule entry)
     @ fail_if (thirdPartyAllowlistKey (al_pluginModule entry) (al_ruleNamespace entry) \<in> set seen)
         (''third-party allowlist: duplicate pluginModule/ruleNamespace entry for '' @ al_pluginModule entry
          @ '' '' @ al_ruleNamespace entry)"

fun validateThirdPartyPluginAllowlist :: "allowlist_entry list \<Rightarrow> string list \<Rightarrow> string list \<times> string list" where
  "validateThirdPartyPluginAllowlist [] seen = (seen, [])"
| "validateThirdPartyPluginAllowlist (e # es) seen =
     (let fs = validateThirdPartyPluginAllowlistEntry e seen;
          (allowed, rest) = validateThirdPartyPluginAllowlist es
            (thirdPartyAllowlistKey (al_pluginModule e) (al_ruleNamespace e) # seen)
      in (allowed, fs @ rest))"

section \<open>One entry\<close>

record entry_context =
  ec_localRuleIds :: "string list option"
  ec_allowedThirdPartyPlugins :: "string list"
  ec_exitPathExists :: "(string \<Rightarrow> bool) option"

definition validateRatchetIdAndParserProfile :: "ratchet_config \<Rightarrow> string list" where
  "validateRatchetIdAndParserProfile r =
     fail_if (\<not> is_ratchet_id (rc_id r)) (rc_id r @ '': id must match ratchet/<name>'')"

definition validateLocalSource :: "ratchet_config \<Rightarrow> parser_profile \<Rightarrow> string list option \<Rightarrow> string list" where
  "validateLocalSource r profile localRuleIds =
     fail_if (profile \<noteq> MinimalTs) (rc_id r @ '': local ratchets must use parserProfile minimal-ts'')
     @ (if \<not> is_local_rule_id (rc_ruleId r)
        then [rc_id r @ '': local source ruleId must match local/<rule-name>'']
        else fail_if (case localRuleIds of None \<Rightarrow> False | Some ids \<Rightarrow> rc_ruleId r \<notin> set ids)
               (rc_id r @ '': ruleId '' @ rc_ruleId r @ '' is not registered''))"

definition validateCoreSource :: "ratchet_config \<Rightarrow> string list" where
  "validateCoreSource r =
     fail_if (\<not> bare_rule (rc_ruleId r))
       (rc_id r @ '': core ruleId must be a bare ESLint built-in id (no slash): '' @ rc_ruleId r)"

definition validateThirdPartySource :: "ratchet_config \<Rightarrow> string \<Rightarrow> string list \<Rightarrow> string list" where
  "validateThirdPartySource r plugin allowed =
     fail_if (\<not> is_package_specifier plugin)
       (rc_id r @ '': third-party pluginModule must be a package name: '' @ plugin)
     @ (case ruleNamespace (rc_ruleId r) of
          None \<Rightarrow> [rc_id r @ '': third-party source ruleId is not a valid lint rule identifier'']
        | Some namespace \<Rightarrow>
            if namespace = ''local''
            then [rc_id r @ '': third-party source ruleId must be a non-local namespaced rule id'']
            else fail_if (thirdPartyAllowlistKey plugin namespace \<notin> set allowed)
                   (rc_id r @ '': third-party plugin '' @ plugin @ '' for namespace '' @ namespace
                    @ '' is not allowlisted''))"

fun validateRatchetSource :: "ratchet_config \<Rightarrow> rule_source \<Rightarrow> entry_context \<Rightarrow> parser_profile \<Rightarrow> string list" where
  "validateRatchetSource r LocalSource ctx profile = validateLocalSource r profile (ec_localRuleIds ctx)"
| "validateRatchetSource r CoreSource ctx profile = validateCoreSource r"
| "validateRatchetSource r (ThirdPartySource m) ctx profile =
     validateThirdPartySource r m (ec_allowedThirdPartyPlugins ctx)"

definition validateSortedPathList :: "string \<Rightarrow> string list \<Rightarrow> string \<Rightarrow> string \<Rightarrow> string list" where
  "validateSortedPathList ratchetId values fieldName itemLabel =
     fail_if (\<not> isSortedUnique values)
       (ratchetId @ '': '' @ fieldName @ '' must be sorted (by codepoint) and duplicate-free'')
     @ concat (map (\<lambda>v.
         if take 1 v = ''!'' then [ratchetId @ '': '' @ itemLabel @ '' must not use ! negation: '' @ v]
         else fail_if (\<not> hasNormalizedPath v) (ratchetId @ '': '' @ itemLabel @ '' must be normalized: '' @ v)) values)"

definition metricPairingFailures :: "string \<Rightarrow> string \<Rightarrow> metric \<Rightarrow> rule_source \<Rightarrow> string list" where
  "metricPairingFailures i ruleId m source =
     fail_if (m = EffectiveLineCount \<and> ruleId \<noteq> ''local/max-lines'')
       (i @ '': effective-line-count metric requires ruleId local/max-lines'')
     @ fail_if (m = ComplexitySeverity \<and> (source \<noteq> CoreSource \<or> ruleId \<noteq> ''complexity''))
         (i @ '': complexity-severity metric requires core ruleId complexity'')"

definition validateRatchetRuleOptions :: "ratchet_config \<Rightarrow> string list" where
  "validateRatchetRuleOptions r =
     concat (map (\<lambda>opt. fail_if (\<not> isJsonValue opt) (rc_id r @ '': ruleOptions must be JSON values'')) (rc_ruleOptions r))"

definition requiresExitPath :: "disposition_kind \<Rightarrow> bool" where
  "requiresExitPath k \<longleftrightarrow> k = PromoteToNormalLint \<or> k = TemporaryRatchetOnly"

fun disposition_name :: "disposition_kind \<Rightarrow> string" where
  "disposition_name IntentionalRatchetOnly = ''intentional-ratchet-only''"
| "disposition_name NarrowFloor = ''narrow-floor''"
| "disposition_name PromoteToNormalLint = ''promote-to-normal-lint''"
| "disposition_name TemporaryRatchetOnly = ''temporary-ratchet-only''"

definition validateZeroBaselineDisposition :: "ratchet_config \<Rightarrow> (string \<Rightarrow> bool) option \<Rightarrow> string list" where
  "validateZeroBaselineDisposition r exitPathExists =
     (case rc_zeroBaselineDisposition r of
        None \<Rightarrow> []
      | Some d \<Rightarrow>
          fail_if (js_trim (zd_reason d) = []) (rc_id r @ '': zeroBaselineDisposition.reason must be non-empty'')
          @ (if \<not> requiresExitPath (zd_kind d) then []
             else let exitPath = (case zd_exitPath d of None \<Rightarrow> [] | Some p \<Rightarrow> js_trim p)
                  in if exitPath = []
                     then [rc_id r @ '': zeroBaselineDisposition.exitPath is required for '' @ disposition_name (zd_kind d)]
                     else fail_if (case exitPathExists of None \<Rightarrow> False | Some f \<Rightarrow> \<not> f exitPath)
                            (rc_id r @ '': zeroBaselineDisposition.exitPath does not exist: '' @ exitPath)))"

type_synonym scope_map = "(string \<times> string) list"

definition validateRatchetScope :: "ratchet_config \<Rightarrow> scope_map \<Rightarrow> scope_map \<times> string list" where
  "validateRatchetScope r seenScopes =
     (let scopeKey = duplicateScopeKey r
      in case map_of seenScopes scopeKey of
           Some previous \<Rightarrow> (seenScopes, [rc_id r @ '': duplicates ratchet scope already used by '' @ previous])
         | None \<Rightarrow> (AList.update scopeKey (rc_id r) seenScopes, []))"

definition entry_failures :: "ratchet_config \<Rightarrow> entry_context \<Rightarrow> string list" where
  "entry_failures r ctx =
     validateRatchetIdAndParserProfile r
     @ validateRatchetSource r (ratchetSource r) ctx (ratchetParserProfile r)
     @ fail_if (rc_files r = []) (rc_id r @ '': files must be non-empty'')
     @ validateSortedPathList (rc_id r) (rc_files r) ''files'' ''file glob''
     @ validateSortedPathList (rc_id r) (rc_ignores r) ''ignores'' ''ignore glob''
     @ metricPairingFailures (rc_id r) (rc_ruleId r) (rc_metric r) (ratchetSource r)
     @ validateRatchetRuleOptions r
     @ fail_if (js_trim (rc_principle r) = []) (rc_id r @ '': principle must be a non-empty string'')
     @ validateZeroBaselineDisposition r (ec_exitPathExists ctx)"

definition validateRatchetEntry :: "ratchet_config \<Rightarrow> entry_context \<Rightarrow> scope_map \<Rightarrow> scope_map \<times> string list" where
  "validateRatchetEntry r ctx seenScopes =
     (let (scopes, fs) = validateRatchetScope r seenScopes in (scopes, entry_failures r ctx @ fs))"

fun validate_entries :: "ratchet_config list \<Rightarrow> entry_context \<Rightarrow> scope_map \<Rightarrow> string list" where
  "validate_entries [] ctx seenScopes = []"
| "validate_entries (r # rs) ctx seenScopes =
     (let (scopes, fs) = validateRatchetEntry r ctx seenScopes in fs @ validate_entries rs ctx scopes)"

record registry_options =
  ro_exitPathExists :: "(string \<Rightarrow> bool) option"
  ro_localRuleIds :: "string list option"
  ro_thirdPartyPlugins :: "allowlist_entry list"

definition validateLintRatchetRegistry :: "ratchet_config list \<Rightarrow> registry_options \<Rightarrow> string list" where
  "validateLintRatchetRegistry ratchets opts =
     (let (allowed, allowFailures) = validateThirdPartyPluginAllowlist (ro_thirdPartyPlugins opts) [];
          ctx = \<lparr>ec_localRuleIds = ro_localRuleIds opts, ec_allowedThirdPartyPlugins = allowed,
                 ec_exitPathExists = ro_exitPathExists opts\<rparr>
      in fail_if (\<not> isSortedUnique (map rc_id ratchets)) ''ratchet ids must be sorted (by codepoint) and unique''
         @ allowFailures @ validate_entries ratchets ctx [])"

section \<open>What an accepted registry satisfies\<close>

definition code_unit_less :: "string \<Rightarrow> string \<Rightarrow> bool" where
  "code_unit_less a b \<longleftrightarrow> codeUnitCompare a b \<le> 0 \<and> a \<noteq> b"

lemma string_less_eq_iff: "string_less_eq b a \<longleftrightarrow> \<not> code_unit_less a b"
  using cu.cmp_total[of a b] cu.cmp_self[of a] cu.cmp_antisym[of a b]
  by (auto simp: string_less_eq_def code_unit_less_def)

lemma code_unit_less_trans: "code_unit_less a b \<Longrightarrow> code_unit_less b c \<Longrightarrow> code_unit_less a c"
  unfolding code_unit_less_def by (metis cu.cmp_antisym cu.cmp_trans)

lemma sorted_unique_loop_iff:
  "sorted_unique_loop p vs \<longleftrightarrow>
     sorted_wrt code_unit_less (case p of None \<Rightarrow> vs | Some x \<Rightarrow> x # vs)"
proof (induction vs arbitrary: p)
  case Nil
  then show ?case by (cases p) auto
next
  case (Cons v vs)
  then show ?case
    by (cases p) (auto simp: string_less_eq_iff intro: code_unit_less_trans)
qed

lemma isSortedUnique_iff: "isSortedUnique vs \<longleftrightarrow> sorted_wrt code_unit_less vs"
  by (simp add: isSortedUnique_def sorted_unique_loop_iff)

lemma isSortedUnique_distinct: "isSortedUnique vs \<Longrightarrow> distinct vs"
  unfolding isSortedUnique_iff by (induction vs) (auto simp: code_unit_less_def)

lemma isSortedUnique_normal: "isSortedUnique vs \<Longrightarrow> js_sort codeUnitCompare vs = vs"
  unfolding isSortedUnique_iff
  by (rule cu.js_sort_sorted) (auto simp: code_unit_less_def elim!: sorted_wrt_mono_rel[rotated])

lemma fst_validateThirdPartyPluginAllowlist:
  "set (fst (validateThirdPartyPluginAllowlist es seen)) =
     set seen \<union> (\<lambda>e. thirdPartyAllowlistKey (al_pluginModule e) (al_ruleNamespace e)) ` set es"
  by (induction es seen rule: validateThirdPartyPluginAllowlist.induct) (auto split: prod.splits simp: Let_def)

lemma validate_entries_Nil:
  "validate_entries rs ctx scopes = [] \<longleftrightarrow>
     (\<forall>r \<in> set rs. entry_failures r ctx = []) \<and> distinct (map duplicateScopeKey rs)
     \<and> (\<forall>r \<in> set rs. map_of scopes (duplicateScopeKey r) = None)"
proof (induction rs arbitrary: scopes)
  case Nil
  then show ?case by simp
next
  case (Cons r rs)
  then show ?case
    by (cases "map_of scopes (duplicateScopeKey r)")
       (auto simp: validateRatchetEntry_def validateRatchetScope_def Let_def update_conv' rev_image_eqI)
qed

end
