(* ===== verification/RegistryLaws.thy ===== *)
theory RegistryLaws
  imports Registry UpdateLaws
begin

text \<open>
  What the rest of the program may assume of a registry that \<open>validateLintRatchetRegistry\<close> accepts,
  and where the order that it checks differs from the order its message names.
\<close>

lemma registered_distinct:
  "distinct (map rc_id ratchets) \<Longrightarrow> r \<in> set ratchets \<Longrightarrow> map_of (registered ratchets) (rc_id r) = Some r"
  by (simp add: registered_def comp_def map_of_eq_Some_iff)

lemma accepted_parts:
  assumes "validateLintRatchetRegistry ratchets opts = []"
  obtains ctx where "isSortedUnique (map rc_id ratchets)" "distinct (map duplicateScopeKey ratchets)"
    "\<And>r. r \<in> set ratchets \<Longrightarrow> entry_failures r ctx = []"
  using assms that
  by (auto simp: validateLintRatchetRegistry_def Let_def validate_entries_Nil fail_if_def split: prod.splits if_splits)

lemma fail_if_branch: "(if a then [x] else fail_if b y) = [] \<longleftrightarrow> \<not> a \<and> \<not> b"
  by simp

lemma accepted_path_list:
  assumes "validateSortedPathList i vs f l = []"
  shows "isSortedUnique vs" "list_all hasNormalizedPath vs"
  using assms
  unfolding validateSortedPathList_def append_is_Nil_conv concat_eq_Nil_conv set_map ball_simps fail_if_branch fail_if_Nil
    list_all_iff
  by simp_all

lemma sorted_unique_normalized: "isSortedUnique vs \<Longrightarrow> normalizeStringList vs = vs"
  using isSortedUnique_normal by (simp add: normalizeStringList_def codeUnitCompare_eq[abs_def, symmetric])

lemma filter_key_single: "distinct (map f xs) \<Longrightarrow> x \<in> set xs \<Longrightarrow> filter (\<lambda>y. f y = f x) xs = [x]"
proof (induction xs)
  case (Cons y ys)
  then show ?case by (cases "y = x") (auto simp: filter_empty_conv dest: sym rev_image_eqI)
qed simp

text \<open>What every entry of an accepted registry is.\<close>

definition wellformed_ratchet :: "ratchet_config \<Rightarrow> bool" where
  "wellformed_ratchet r \<longleftrightarrow> is_ratchet_id (rc_id r) \<and> rc_files r \<noteq> [] \<and>
     list_all hasNormalizedPath (rc_files r) \<and> list_all hasNormalizedPath (rc_ignores r) \<and>
     normalizeStringList (rc_files r) = rc_files r \<and> normalizeStringList (rc_ignores r) = rc_ignores r \<and>
     list_all isJsonValue (rc_ruleOptions r) \<and> js_trim (rc_principle r) \<noteq> [] \<and>
     (case rc_metric r of
        MessageCount \<Rightarrow> True
      | EffectiveLineCount \<Rightarrow> rc_ruleId r = ''local/max-lines''
      | ComplexitySeverity \<Rightarrow> ratchetSource r = CoreSource \<and> rc_ruleId r = ''complexity'') \<and>
     (ratchetSource r = LocalSource \<longrightarrow> ratchetParserProfile r = MinimalTs)"

lemma accepted_entry:
  assumes "entry_failures r ctx = []"
  shows "wellformed_ratchet r"
proof -
  have fs: "validateSortedPathList (rc_id r) (rc_files r) ''files'' ''file glob'' = []"
    "validateSortedPathList (rc_id r) (rc_ignores r) ''ignores'' ''ignore glob'' = []"
    "validateRatchetSource r (ratchetSource r) ctx (ratchetParserProfile r) = []"
    "metricPairingFailures (rc_id r) (rc_ruleId r) (rc_metric r) (ratchetSource r) = []"
    "validateRatchetRuleOptions r = []"
    using assms by (simp_all add: entry_failures_def)
  note paths = accepted_path_list[OF fs(1)] accepted_path_list[OF fs(2)]
  have "is_ratchet_id (rc_id r)" "rc_files r \<noteq> []" "js_trim (rc_principle r) \<noteq> []"
    using assms by (auto simp: entry_failures_def validateRatchetIdAndParserProfile_def fail_if_def split: if_splits)
  moreover have "list_all isJsonValue (rc_ruleOptions r)"
    using fs(5) by (auto simp: validateRatchetRuleOptions_def fail_if_def list_all_iff split: if_splits)
  moreover have "ratchetSource r = LocalSource \<longrightarrow> ratchetParserProfile r = MinimalTs"
    using fs(3) by (auto simp: validateLocalSource_def fail_if_def split: if_splits)
  ultimately show ?thesis
    using paths fs(4)
    by (auto simp: wellformed_ratchet_def sorted_unique_normalized metricPairingFailures_def fail_if_def
        split: metric.splits if_splits)
qed

text \<open>
  C27: in an accepted registry the ids are distinct, each id finds its own ratchet, no two ratchets
  count the same scope, and every entry is well-formed: its path lists are normalized and already in
  the order in which they are hashed, and its metric goes with its rule.
\<close>

theorem accepted_registry_wellformed:
  assumes "validateLintRatchetRegistry ratchets opts = []" and "r \<in> set ratchets"
  shows "map_of (registered ratchets) (rc_id r) = Some r \<and> wellformed_ratchet r \<and>
     filter (\<lambda>s. duplicateScopeKey s = duplicateScopeKey r) ratchets = [r]"
proof -
  obtain ctx where ctx: "isSortedUnique (map rc_id ratchets)" "distinct (map duplicateScopeKey ratchets)"
      "\<And>r. r \<in> set ratchets \<Longrightarrow> entry_failures r ctx = []"
    using accepted_parts[OF assms(1)] by metis
  with filter_key_single[OF ctx(2) assms(2)] ctx(3) assms(2) accepted_entry registered_distinct[OF isSortedUnique_distinct[OF ctx(1)]] show ?thesis
    by blast
qed

definition sample_registry_options :: registry_options where
  "sample_registry_options = \<lparr>ro_exitPathExists = None, ro_localRuleIds = None, ro_thirdPartyPlugins = []\<rparr>"

theorem accepted_registry_wellformed_witness:
  "map_of (registered (one_ratchet MessageCount)) ''ratchet/a'' = Some (hd (one_ratchet MessageCount)) \<and>
   wellformed_ratchet (hd (one_ratchet MessageCount))"
proof -
  have "validateLintRatchetRegistry (one_ratchet MessageCount) sample_registry_options = []" by code_simp
  from accepted_registry_wellformed[OF this, of "hd (one_ratchet MessageCount)"] show ?thesis
    by (simp add: one_ratchet_def sample_ratchet_def)
qed

end
