(* ===== verification/CollectorLaws.thy ===== *)
theory CollectorLaws
  imports Scheduler AccountingLaws RegistryLaws BaselineLaws
begin

text \<open>
  Properties of the collector and of the baseline that is built from it: every finding of the rule is
  counted at its path and nowhere else, and a baseline that is built from collected items is a
  stored baseline of its registry, which is what the update and its accounting start from.
\<close>

section \<open>Counting\<close>

text \<open>The findings of a ratchet at a path: the messages of its rule in the files of that path.\<close>

definition path_findings :: "ratchet_config \<Rightarrow> string \<Rightarrow> eslint_file_result list \<Rightarrow> string \<Rightarrow> int" where
  "path_findings ratchet root results path =
     (\<Sum>r\<leftarrow>results. if relativePathForRoot (ef_filePath r) root = path
        then int (length (filter (\<lambda>m. em_ruleId m = Some (rc_ruleId ratchet)) (ef_messages r))) else 0)"

definition item_count :: "items_map \<Rightarrow> string \<Rightarrow> int" where
  "item_count items path = (case map_of items path of None \<Rightarrow> 0 | Some i \<Rightarrow> mi_count i)"

lemma addFinding_count:
  "item_count (addFinding path line finding items) p = item_count items p + (if p = path then 1 else 0)"
  by (simp add: addFinding_def item_count_def Let_def update_conv')

lemma messages_count:
  "messages_loop ratchet root f ms st = Inr st' \<Longrightarrow>
     item_count (co_items st') p = item_count (co_items st) p +
       (if relativePathForRoot f root = p then int (length (filter (\<lambda>m. em_ruleId m = Some (rc_ruleId ratchet)) ms)) else 0)"
proof (induction ms arbitrary: st)
  case Nil
  then show ?case by simp
next
  case (Cons m ms)
  then obtain st1 where st1: "message_step ratchet root f m st = Inr st1" "messages_loop ratchet root f ms st1 = Inr st'"
    by (auto split: sum.splits)
  have "item_count (co_items st1) p = item_count (co_items st) p +
      (if relativePathForRoot f root = p \<and> em_ruleId m = Some (rc_ruleId ratchet) then 1 else 0)"
    using st1(1) by (auto simp: message_step_def Let_def addFinding_count split: if_splits sum.splits)
  with Cons.IH[OF st1(2)] show ?case by auto
qed

lemma results_count:
  "results_loop ratchet root rs st = Inr st' \<Longrightarrow>
     item_count (co_items st') p = item_count (co_items st) p + path_findings ratchet root rs p"
proof (induction rs arbitrary: st)
  case Nil
  then show ?case by (simp add: path_findings_def)
next
  case (Cons r rs)
  then obtain st1 where st1: "messages_loop ratchet root (ef_filePath r) (ef_messages r) st = Inr st1"
      "results_loop ratchet root rs st1 = Inr st'"
    by (auto split: sum.splits)
  show ?case
    using Cons.IH[OF st1(2)] messages_count[OF st1(1), of p] by (auto simp: path_findings_def)
qed

lemma fingerprint_count [simp]: "item_count (fingerprint_step sha x items) p = item_count items p"
  by (auto simp: fingerprint_step_def item_count_def update_conv' split: option.splits)

lemma fingerprints_count [simp]: "item_count (addMessageFingerprints sha items ids) p = item_count items p"
  unfolding addMessageFingerprints_def by (induction ids arbitrary: items) simp_all

definition sample_message :: "string \<Rightarrow> eslint_message" where
  "sample_message rule = \<lparr>em_ruleId = Some rule, em_severity = 2, em_message = ''no'', em_messageId = None,
     em_line = Some 3, em_column = Some 1, em_fatal = False\<rparr>"

definition sample_results :: "eslint_file_result list" where
  "sample_results = [\<lparr>ef_filePath = ''/r/src/a.ts'', ef_messages = [sample_message ''no-console'', sample_message ''no-var'']\<rparr>,
     \<lparr>ef_filePath = ''src/b.ts'', ef_messages = [sample_message ''no-console'', sample_message ''no-console'']\<rparr>]"

text \<open>
  C26: when the collector succeeds, the count of every path is the number of messages of the
  ratchet's rule in the results of that path: no finding is lost, counted twice or put elsewhere.
\<close>

theorem collected_count_exact:
  assumes "itemsFromResults sha ratchet results root = Inr items"
  shows "item_count items path = path_findings ratchet root results path"
proof -
  obtain st where "results_loop ratchet root results \<lparr>co_items = [], co_identities = []\<rparr> = Inr st"
    "items = addMessageFingerprints sha (co_items st) (co_identities st)"
    using assms by (auto simp: itemsFromResults_def split: sum.splits)
  moreover have "item_count [] path = 0" by (simp add: item_count_def)
  ultimately show ?thesis using results_count by fastforce
qed

theorem collected_count_exact_witness:
  "\<exists>items. itemsFromResults id (sample_ratchet ''ratchet/a'' ''no-console'' MessageCount CoreSource) sample_results ''/r'' = Inr items \<and>
     item_count items ''src/b.ts'' = 2 \<and> path_findings (sample_ratchet ''ratchet/a'' ''no-console'' MessageCount CoreSource) ''/r''
       sample_results ''src/b.ts'' = 2"
proof -
  let ?r = "sample_ratchet ''ratchet/a'' ''no-console'' MessageCount CoreSource"
  have "(case itemsFromResults id ?r sample_results ''/r'' of Inl _ \<Rightarrow> False | Inr _ \<Rightarrow> True) \<and>
      path_findings ?r ''/r'' sample_results ''src/b.ts'' = 2" by code_simp
  then obtain items where "itemsFromResults id ?r sample_results ''/r'' = Inr items" "path_findings ?r ''/r'' sample_results ''src/b.ts'' = 2"
    by (auto split: sum.splits)
  then show ?thesis using collected_count_exact by fastforce
qed

section \<open>The shape of a collected item\<close>

text \<open>What the metric of the ratchet leaves in an item before it is formatted.\<close>

fun collected_shape :: "metric \<Rightarrow> current_item \<Rightarrow> bool" where
  "collected_shape MessageCount i \<longleftrightarrow> mi_count i > 0 \<and> mi_lines i = None \<and> mi_perFunction i = None"
| "collected_shape EffectiveLineCount i \<longleftrightarrow> mi_count i > 0 \<and> mi_lines i \<noteq> None \<and> mi_perFunction i = None"
| "collected_shape ComplexitySeverity i \<longleftrightarrow> mi_count i > 0 \<and> mi_lines i = None \<and>
     (case mi_perFunction i of None \<Rightarrow> False | Some fs \<Rightarrow> int (length fs) = mi_count i)"

definition collected_items :: "metric \<Rightarrow> items_map \<Rightarrow> bool" where
  "collected_items m items \<longleftrightarrow> distinct (map fst items) \<and> (\<forall>p i. map_of items p = Some i \<longrightarrow> collected_shape m i)"

lemma finding_shape:
  assumes "reduceMessage m r path msg = Inr f" and "\<And>p. previous = Some p \<Longrightarrow> collected_shape m p"
  shows "collected_shape m
      \<lparr>mi_count = (case previous of None \<Rightarrow> 0 | Some p \<Rightarrow> mi_count p) + 1,
       mi_lines = mergeLines previous f, mi_maxComplexity = None,
       mi_perFunction = mergePerFunction previous f, mi_messagesFingerprint = None,
       ci_firstLine = fl, ci_firstMessage = fm, ci_firstMessageId = fi\<rparr>"
  using assms
  by (cases m; cases previous)
     (auto simp: mergeLines_def mergePerFunction_def split: sum.splits option.splits)

text \<open>Updating one path keeps the shape when the new item has it.\<close>

lemma collected_update:
  assumes "collected_items m items" and "collected_shape m i"
  shows "collected_items m (AList.update path i items)"
  unfolding collected_items_def
proof (intro conjI allI impI)
  show "distinct (map fst (AList.update path i items))"
    using assms(1) by (simp add: collected_items_def distinct_update)
  fix p j
  assume "map_of (AList.update path i items) p = Some j"
  then have "j = i \<or> map_of items p = Some j"
    by (simp add: update_conv' del: map_of_eq_Some_iff split: if_splits)
  then show "collected_shape m j" using assms by (auto simp: collected_items_def simp del: map_of_eq_Some_iff)
qed

lemma addFinding_collected:
  assumes "collected_items m items" and "reduceMessage m r path msg = Inr f"
  shows "collected_items m (addFinding path line f items)"
  unfolding addFinding_def Let_def
  by (rule collected_update[OF assms(1)], rule finding_shape[OF assms(2)])
     (use assms(1) in \<open>simp add: collected_items_def del: map_of_eq_Some_iff\<close>)

lemma messages_collected:
  "messages_loop ratchet root f ms st = Inr st' \<Longrightarrow> collected_items (rc_metric ratchet) (co_items st) \<Longrightarrow>
     collected_items (rc_metric ratchet) (co_items st')"
proof (induction ms arbitrary: st)
  case (Cons m ms)
  then obtain st1 where st1: "message_step ratchet root f m st = Inr st1" "messages_loop ratchet root f ms st1 = Inr st'"
    by (auto split: sum.splits)
  have "collected_items (rc_metric ratchet) (co_items st1)"
    using st1(1) Cons.prems(2) by (auto simp: message_step_def Let_def intro: addFinding_collected split: if_splits sum.splits)
  with Cons.IH[OF st1(2)] show ?case by blast
qed simp

lemma results_collected:
  "results_loop ratchet root rs st = Inr st' \<Longrightarrow> collected_items (rc_metric ratchet) (co_items st) \<Longrightarrow>
     collected_items (rc_metric ratchet) (co_items st')"
proof (induction rs arbitrary: st)
  case (Cons r rs)
  then obtain st1 where "messages_loop ratchet root (ef_filePath r) (ef_messages r) st = Inr st1"
      "results_loop ratchet root rs st1 = Inr st'"
    by (auto split: sum.splits)
  with Cons show ?case using messages_collected by blast
qed simp

lemma shape_fingerprint: "collected_shape m (i\<lparr>mi_messagesFingerprint := fp\<rparr>) \<longleftrightarrow> collected_shape m i"
  by (cases m) (simp_all split: option.splits)

lemma fingerprint_step_collected:
  assumes "collected_items m items"
  shows "collected_items m (fingerprint_step sha x items)"
proof (cases "map_of items (fst x)")
  case (Some i)
  then have "collected_shape m i" using assms by (simp add: collected_items_def del: map_of_eq_Some_iff)
  then show ?thesis
    using assms Some by (simp add: fingerprint_step_def collected_update shape_fingerprint del: map_of_eq_Some_iff)
qed (use assms in \<open>simp add: fingerprint_step_def\<close>)

lemma fingerprints_collected:
  "collected_items m items \<Longrightarrow> collected_items m (addMessageFingerprints sha items ids)"
  unfolding addMessageFingerprints_def
  by (induction ids arbitrary: items) (simp_all add: fingerprint_step_collected)

lemma items_collected:
  assumes "itemsFromResults sha ratchet results root = Inr items"
  shows "collected_items (rc_metric ratchet) items"
proof -
  obtain st where st: "results_loop ratchet root results \<lparr>co_items = [], co_identities = []\<rparr> = Inr st"
    "items = addMessageFingerprints sha (co_items st) (co_identities st)"
    using assms by (auto simp: itemsFromResults_def split: sum.splits)
  have "collected_items (rc_metric ratchet) (co_items st)"
    by (rule results_collected[OF st(1)]) (simp add: collected_items_def)
  then show ?thesis unfolding st(2) by (rule fingerprints_collected)
qed

lemma formatted_valid:
  assumes "collected_shape m i"
  shows "validateItem [] m (formatItem lc m i) = []"
proof (cases m)
  case ComplexitySeverity
  obtain fs where fs: "mi_perFunction i = Some fs" "int (length fs) = mi_count i" "mi_count i > 0"
    using assms ComplexitySeverity by (auto split: option.splits)
  then have "fs \<noteq> []" by auto
  then obtain mx where "maxComplexityFor (Some (js_sort (compareComplexityFunction lc) fs)) = Some mx"
    by (simp add: maxComplexityFor_Max)
  with fs ComplexitySeverity show ?thesis
    by (simp add: formatItem.simps sortedComplexityFunctions_def count_item_def Let_def)
qed (use assms in \<open>auto simp: formatItem.simps count_item_def split: option.splits\<close>)

section \<open>From the results of the scheduler to the baseline\<close>

text \<open>The results belong to ratchets of the registry, as the scheduler delivers them.\<close>

definition results_of :: "ratchet_config list \<Rightarrow> collection_result option list \<Rightarrow> bool" where
  "results_of ratchets results \<longleftrightarrow>
     list_all (\<lambda>c. case c of None \<Rightarrow> True | Some r \<Rightarrow> cl_ratchet r \<in> set ratchets \<and> cl_id r = rc_id (cl_ratchet r)) results"

definition collected_for :: "ratchet_config list \<Rightarrow> current_by_id \<Rightarrow> bool" where
  "collected_for ratchets cur \<longleftrightarrow>
     (\<forall>r items. r \<in> set ratchets \<longrightarrow> map_of cur (rc_id r) = Some items \<longrightarrow> collected_items (rc_metric r) items)"

lemma collected_for_update:
  assumes "distinct (map rc_id ratchets)" "collected_for ratchets cur" "r \<in> set ratchets" "collected_items (rc_metric r) items"
  shows "collected_for ratchets (AList.update (rc_id r) items cur)"
proof -
  have "s = r" if "s \<in> set ratchets" "rc_id s = rc_id r" for s
    using that assms(1,3) by (metis distinct_map inj_onD)
  with assms(2,4) show ?thesis
    by (auto simp: collected_for_def update_conv' simp del: map_of_eq_Some_iff split: if_splits)
qed

lemma current_collected:
  assumes "distinct (map rc_id ratchets)"
  shows "results_of ratchets results \<Longrightarrow> current_by_id_loop sha root results acc = Inr cur \<Longrightarrow> collected_for ratchets acc \<Longrightarrow>
     collected_for ratchets cur"
proof (induction results arbitrary: acc)
  case (Cons c cs)
  show ?case
  proof (cases c)
    case (Some r)
    with Cons.prems obtain items where items: "itemsFromResults sha (cl_ratchet r) (cl_results r) root = Inr items"
        "current_by_id_loop sha root cs (AList.update (cl_id r) items acc) = Inr cur"
      by (auto split: sum.splits)
    have r: "cl_ratchet r \<in> set ratchets" "cl_id r = rc_id (cl_ratchet r)" "results_of ratchets cs"
      using Cons.prems(1) Some by (auto simp: results_of_def)
    show ?thesis
      using Cons.IH[OF r(3) items(2)] collected_for_update[OF assms Cons.prems(3) r(1) items_collected[OF items(1)]] r(2)
      by simp
  qed (use Cons in \<open>auto simp: results_of_def\<close>)
qed simp

lemma built_items:
  assumes "collected_items m items" and "(p, i) \<in> set (positiveMetricItems lc m (Some items))"
  shows "mi_count i > 0 \<and> validateItem [] m i = []"
proof -
  from assms(2) obtain j where j: "i = formatItem lc m j" "(p, j) \<in> set items" "mi_count j > 0"
    by (auto simp: positiveMetricItems_def)
  from assms(1) j(2) have "collected_shape m j"
    by (auto simp: collected_items_def)
  with j formatted_valid[of m j lc] show ?thesis by simp
qed

lemma built_distinct:
  assumes "collected_items m items"
  shows "distinct (map fst (positiveMetricItems lc m (Some items)))"
proof -
  have "distinct (map fst (filter P (key_sort compareByCodepoint items)))" for P
    using assms by (simp add: collected_items_def map_fst_key_sort distinct_map_filter)
  then show ?thesis by (simp add: positiveMetricItems_def comp_def case_prod_unfold)
qed

text \<open>A test of the built baseline.\<close>

definition stored_test :: "ratchet_config list \<Rightarrow> string \<Rightarrow> baseline_test \<Rightarrow> bool" where
  "stored_test ratchets k t \<longleftrightarrow> distinct (map fst (bt_items t)) \<and>
     (\<forall>(_, i) \<in> set (bt_items t). mi_count i > 0 \<and> validateItem [] (gm_metric t) i = []) \<and>
     (\<exists>r \<in> set ratchets. rc_id r = k \<and> rc_ruleId r = gm_ruleId t \<and> rc_metric r = gm_metric t)"

lemma test_stored:
  assumes "collected_for ratchets cur" "r \<in> set ratchets"
  shows "stored_test ratchets (rc_id r) (baselineTestFromConfig lc sha r (map_of cur (rc_id r)) h)"
proof (cases "map_of cur (rc_id r)")
  case None
  with assms show ?thesis
    by (auto simp: stored_test_def baselineTestFromConfig_def positiveMetricItems_def)
next
  case (Some items)
  with assms have c: "collected_items (rc_metric r) items" by (auto simp: collected_for_def)
  show ?thesis
    using built_distinct[OF c, of lc] built_items[OF c, of _ _ lc] assms(2) Some
    by (auto simp: stored_test_def baselineTestFromConfig_def)
qed

lemma tests_stored:
  assumes "collected_for ratchets cur"
  shows "build_tests lc sha rs cur hashes acc = Inr tests \<Longrightarrow> set rs \<subseteq> set ratchets \<Longrightarrow>
     distinct (map fst acc) \<and> (\<forall>(k, t) \<in> set acc. stored_test ratchets k t) \<Longrightarrow>
     (distinct (map fst tests) \<and> (\<forall>(k, t) \<in> set tests. stored_test ratchets k t)) \<and>
     rc_id ` set rs \<union> fst ` set acc \<subseteq> fst ` set tests"
proof (induction rs arbitrary: acc)
  case (Cons r rs)
  then obtain h where h: "build_tests lc sha rs cur hashes
      (AList.update (rc_id r) (baselineTestFromConfig lc sha r (map_of cur (rc_id r)) h) acc) = Inr tests" (is "build_tests _ _ _ _ _ ?acc = _")
    by (auto split: option.splits)
  have "(k, t) \<in> set ?acc \<Longrightarrow> stored_test ratchets k t" for k t
  proof -
    assume "(k, t) \<in> set ?acc"
    then have "map_of ?acc k = Some t" using Cons.prems(3) by (simp add: distinct_update)
    with Cons.prems(3) test_stored[OF assms, of r] Cons.prems(2) show ?thesis
      by (auto simp: update_conv' dest: map_of_SomeD split: if_splits)
  qed
  then have "distinct (map fst ?acc) \<and> (\<forall>(k, t) \<in> set ?acc. stored_test ratchets k t)"
    using Cons.prems(3) by (auto simp: distinct_update)
  from Cons.IH[OF h _ this] Cons.prems(2) show ?case by (auto simp: dom_update)
qed simp

text \<open>
  C25: from the findings to the committed state: a baseline that is built from the results collected
  for an accepted registry holds one test per ratchet under the ratchet's rule and metric, every
  path once, with a positive count and every field its metric asks for. This is the state from which
  the update gate and its accounting start.
\<close>

theorem collected_baseline_is_stored:
  assumes "validateLintRatchetRegistry ratchets opts = []" and "results_of ratchets results"
    and "current_by_id_loop sha root results [] = Inr cur"
    and "buildLintRatchetBaseline lc sha ratchets cur hashes vocab policy = Inr g"
  shows "stored_items g \<and> generated_from ratchets g"
proof -
  have ids: "distinct (map rc_id ratchets)"
    using assms(1) by (metis accepted_parts isSortedUnique_distinct)
  have cur: "collected_for ratchets cur"
    by (rule current_collected[OF ids assms(2,3)]) (simp add: collected_for_def)
  obtain tests where t: "build_tests lc sha ratchets cur hashes [] = Inr tests" "bl_tests g = tests"
    using assms(4) by (auto simp: buildLintRatchetBaseline_def split: sum.splits)
  from tests_stored[OF cur t(1)] have s: "distinct (map fst tests)" "rc_id ` set ratchets \<subseteq> fst ` set tests"
      "\<And>k t. (k, t) \<in> set tests \<Longrightarrow> stored_test ratchets k t"
    by auto
  have "(case map_of (registered ratchets) k of None \<Rightarrow> False
      | Some r \<Rightarrow> rc_ruleId r = gm_ruleId t \<and> rc_metric r = gm_metric t)" if "(k, t) \<in> set tests" for k t
    using s(3)[OF that] registered_distinct[OF ids] by (auto simp: stored_test_def)
  moreover have "stored_items g"
    unfolding stored_items_def t(2)
  proof (intro conjI s(1) ballI)
    fix e assume "e \<in> set tests"
    with s(3)[of "fst e" "snd e"] show "case e of (_, u) \<Rightarrow> distinct (map fst (bt_items u)) \<and>
        (\<forall>(_, i) \<in> set (bt_items u). mi_count i > 0 \<and> validateItem [] (gm_metric u) i = [])"
      by (simp add: stored_test_def case_prod_unfold)
  qed
  ultimately show ?thesis using s(2) t(2) by (auto simp: generated_from_def)
qed

theorem collected_baseline_is_stored_witness:
  "\<exists>g. (case current_by_id_loop id ''/r'' [Some \<lparr>cl_id = ''ratchet/a'', cl_ratchet = hd (one_ratchet MessageCount),
        cl_results = sample_results\<rparr>] [] of Inl _ \<Rightarrow> False | Inr cur \<Rightarrow>
        buildLintRatchetBaseline codeUnitCompare id (one_ratchet MessageCount) cur [(''ratchet/a'', ''h'')] sample_vocab
          default_version_policy = Inr g) \<and> stored_items g \<and> generated_from (one_ratchet MessageCount) g"
proof -
  let ?res = "[Some \<lparr>cl_id = ''ratchet/a'', cl_ratchet = hd (one_ratchet MessageCount), cl_results = sample_results\<rparr>]"
  let ?cur = "current_by_id_loop id ''/r'' ?res []"
  let ?build = "\<lambda>cur. buildLintRatchetBaseline codeUnitCompare id (one_ratchet MessageCount) cur [(''ratchet/a'', ''h'')]
      sample_vocab default_version_policy"
  have "(case ?cur of Inl _ \<Rightarrow> False | Inr cur \<Rightarrow> (case ?build cur of Inl _ \<Rightarrow> False | Inr _ \<Rightarrow> True))" by code_simp
  then obtain cur g where g: "?cur = Inr cur" "?build cur = Inr g" by (auto split: sum.splits)
  have "validateLintRatchetRegistry (one_ratchet MessageCount) sample_registry_options = []"
    and "results_of (one_ratchet MessageCount) ?res" by code_simp+
  from collected_baseline_is_stored[OF this g] g show ?thesis by (simp add: g(1))
qed

end
