(* ===== verification/JsonLaws.thy ===== *)
theory JsonLaws
  imports JsonParse Codepoint
begin

text \<open>
  Properties of the two routines below everything else: the parser's fuel is immaterial, and the
  comparator decides the order of code points.
\<close>

section \<open>More fuel never changes a parse\<close>

lemma parse_more_fuel:
  "parse_value dc n s = Some x \<Longrightarrow> n \<le> m \<Longrightarrow> parse_value dc m s = Some x"
  "parse_elements dc n s = Some y \<Longrightarrow> n \<le> m \<Longrightarrow> parse_elements dc m s = Some y"
  "parse_members dc n s = Some z \<Longrightarrow> n \<le> m \<Longrightarrow> parse_members dc m s = Some z"
proof (induction n arbitrary: s m x y z)
  case 0
  { case 1 then show ?case by simp }
  { case 2 then show ?case by simp }
  { case 3 then show ?case by simp }
next
  case (Suc n)
  { case 1
    then obtain m' where m: "m = Suc m'" "n \<le> m'" by (cases m) auto
    have "parse_elements dc m' cs = Some r" if "parse_elements dc n cs = Some r" for cs r
      using that m(2) by (rule Suc.IH(2))
    moreover have "parse_members dc m' cs = Some r" if "parse_members dc n cs = Some r" for cs r
      using that m(2) by (rule Suc.IH(3))
    moreover obtain c cs where s: "skip_ws s = c # cs" using 1(1) by (cases "skip_ws s") simp_all
    ultimately show ?case using 1(1) unfolding m(1)
      by (cases "expect (CHR '']'') cs"; cases "expect (CHR ''}'') cs") (simp_all split: if_splits; auto)+ }
  { case 2
    then obtain m' where m: "m = Suc m'" "n \<le> m'" by (cases m) auto
    from 2(1) obtain v r where v: "parse_value dc n s = Some (v, r)" by (auto split: option.splits)
    have "parse_elements dc m' cs = Some r" if "parse_elements dc n cs = Some r" for cs r
      using that m(2) by (rule Suc.IH(2))
    with 2(1) v Suc.IH(1)[OF v m(2)] show ?case unfolding m(1) by (auto split: option.splits) }
  { case 3
    then obtain m' where m: "m = Suc m'" "n \<le> m'" by (cases m) auto
    from 3(1) obtain k r0 v r where v: "read_key s = Some (k, r0)" "parse_value dc n r0 = Some (v, r)"
      by (auto split: option.splits)
    have "parse_members dc m' cs = Some r" if "parse_members dc n cs = Some r" for cs r
      using that m(2) by (rule Suc.IH(3))
    with 3(1) v Suc.IH(1)[OF v(2) m(2)] show ?case unfolding m(1) by (auto split: option.splits) }
qed

text \<open>
  The parser terminates with the answer of the unbounded recursion: a text is accepted with the
  value \<open>v\<close> exactly when some number of recursive calls accepts it with \<open>v\<close>, so the bound of twice
  its length never cuts a parse short.
\<close>

theorem parse_fuel_is_enough:
  "json_parse dc s = Some v \<longleftrightarrow>
     (\<exists>n r. parse_value dc n s = Some (v, r) \<and> skip_ws r = [])"
proof
  assume "\<exists>n r. parse_value dc n s = Some (v, r) \<and> skip_ws r = []"
  then obtain n r where n: "parse_value dc n s = Some (v, r)" "skip_ws r = []" by blast
  let ?m = "max n (2 * length s + 1)"
  have "parse_value dc ?m s = parse_value dc (2 * length s + 1) s"
    by (rule parse_fuel(1)) auto
  moreover have "parse_value dc ?m s = Some (v, r)" by (rule parse_more_fuel(1)[OF n(1)]) simp
  ultimately show "json_parse dc s = Some v" using n(2) by (simp add: json_parse_def)
next
  assume "json_parse dc s = Some v"
  then show "\<exists>n r. parse_value dc n s = Some (v, r) \<and> skip_ws r = []"
    unfolding json_parse_def by (auto simp del: parse_value.simps split: option.splits if_splits intro!: exI)
qed

section \<open>Two orders of strings\<close>

text \<open>
  C28: the comparator's loop over UTF-16 code units decides the lexicographic order of the code
  points, and answers 0 for equal strings only, so that a list sorted by it has one form. The
  relational operators that \<open>isSortedUnique\<close> uses are another order: U+FF5E comes before U+1F600 by
  code point and after it by code unit.
\<close>

theorem comparator_decides_codepoint_order:
  "compareByCodepointUnits a b = lex_cmp (decode a) (decode b) \<and> (compareByCodepointUnits a b = 0 \<longleftrightarrow> a = b) \<and>
   compareByCodepointUnits [0xFF5E] [0xD83D, 0xDE00] = -1 \<and> codeUnitCompareUnits [0xFF5E] [0xD83D, 0xDE00] = 1"
  using decode_inj[of a b]
  by (auto simp: compare_units_lex lex_cmp_eq_0 codeUnitCompareUnits_def is_high_def is_low_def pair_value_def)

text \<open>On strings without surrogates the two orders agree.\<close>

lemma code_unit_order_agrees:
  "\<not> list_ex is_high (a @ b) \<Longrightarrow> compareByCodepointUnits a b = codeUnitCompareUnits a b"
  by (simp add: compare_units_lex codeUnitCompareUnits_def decode_no_high list_ex_iff)

end
