(* ===== verification/DriftPrelude.thy ===== *)
theory DriftPrelude
  imports Json "HOL-Library.Word"
begin

text \<open>
  What the models of \<open>scripts/\<close> share: array reads that may miss, \<open>filter\<close> with a result, decimal
  numbers, and the stable hash of \<open>drift-ai/feature-hash.ts\<close>.
\<close>

unbundle bit_operations_syntax

section \<open>Arrays\<close>

text \<open>\<open>xs[i]\<close>: \<open>undefined\<close> outside the array.\<close>

definition at_index :: "'a list \<Rightarrow> nat \<Rightarrow> 'a option" where
  "at_index xs i = (if i < length xs then Some (xs ! i) else None)"

lemma at_index_None: "at_index xs i = None \<longleftrightarrow> length xs \<le> i"
  by (auto simp: at_index_def)

lemma at_index_Some: "at_index xs i = Some x \<longleftrightarrow> i < length xs \<and> xs ! i = x"
  by (auto simp: at_index_def)

lemma set_map_filter_option: "set (List.map_filter f xs) = {y. \<exists>x \<in> set xs. f x = Some y}"
  by (force simp: List.map_filter_def)

section \<open>The feature hash\<close>

text \<open>32-bit FNV-1a over the code units; \<open>Math.imul\<close> and \<open>^\<close> are operations on 32-bit words.\<close>

definition fnv_step :: "char \<Rightarrow> 32 word \<Rightarrow> 32 word" where
  "fnv_step c h = (h XOR of_nat (of_char c)) * 16777619"

definition hashFeature32 :: "string \<Rightarrow> 32 word" where
  "hashFeature32 v = fold fnv_step v 2166136261"

definition digit36 :: "nat \<Rightarrow> char" where
  "digit36 d = (if d < 10 then char_of (48 + d) else char_of (87 + d))"

fun show36 :: "nat \<Rightarrow> string" where
  "show36 n = (if n < 36 then [digit36 n] else show36 (n div 36) @ [digit36 (n mod 36)])"

declare show36.simps [simp del]

definition hashFeature :: "string \<Rightarrow> string" where
  "hashFeature v = show36 (unat (hashFeature32 v))"

end
