(* ===== verification/DriftGraph.thy ===== *)
theory DriftGraph
  imports Collector DriftPrelude
begin

text \<open>
  The module graph of \<open>scripts/drift-ai\<close>: \<open>import-cycles-graph.ts\<close> (building it), the parts of
  \<open>import-cycles-tsconfig.ts\<close>, \<open>path-util.ts\<close>, \<open>scope.ts\<close> and \<open>types.ts\<close> that it and its two
  clients use. The TypeScript compiler is a parameter (\<open>graph_env\<close>): which references a file has,
  what a specifier resolves to, what a tsconfig contains. The caches of the code memoize pure
  functions and are left out; the tsconfigs that were loaded are counted as a set.
\<close>

section \<open>Paths and findings\<close>

fun strip_dot_slash :: "string \<Rightarrow> string" where
  "strip_dot_slash (a # b # s) = (if a = CHR ''.'' \<and> b = CHR ''/'' then strip_dot_slash s else a # b # s)"
| "strip_dot_slash s = s"

function strip_end_slash :: "string \<Rightarrow> string" where
  "strip_end_slash s = (if s \<noteq> [] \<and> last s = CHR ''/'' \<and> s \<noteq> ''/'' then strip_end_slash (butlast s) else s)"
  by pat_completeness auto
termination by (relation "measure length") auto

declare strip_end_slash.simps [simp del]

definition toPosix :: "string \<Rightarrow> string" where
  "toPosix v = strip_end_slash (strip_dot_slash (js_trim (slashes v)))"

datatype config_source = TargetConfig | ToolDefault | DriftBaseline

record finding_provenance =
  fp_configSource :: config_source
  fp_tool :: string
  fp_configPath :: "string option"

datatype skip_code =
    ToolNotInstalled | ToolTimeout | TargetNotInstalled | NoTargetConfig | ResolutionTooPartial | ChangedScopeOnly

datatype change_status = AddedFile | ModifiedFile | RenamedFile | CopiedFile | DeletedFile

record changed_file =
  cf_path :: string
  cf_status :: change_status
  cf_previousPath :: "string option"

datatype detector_scope = CurrentScope "string list" | ChangedScope "changed_file list"

fun changedFilesFromScope :: "detector_scope \<Rightarrow> changed_file list" where
  "changedFilesFromScope (ChangedScope fs) = fs"
| "changedFilesFromScope (CurrentScope _) = []"

text \<open>The details that the two checks attach.\<close>

datatype finding_details =
    CycleDetails (fd_cycleSize: nat) (fd_typeOnly: bool)
  | LayerDetails (fd_rule: string) (fd_sourceLayer: string) (fd_targetLayer: string) (fd_targetFile: string)
      (fd_typeOnlyEdge: bool)

record drift_finding =
  df_check :: string
  df_file :: string
  df_message :: string
  df_hint :: "string option"
  df_relatedFiles :: "string list option"
  df_details :: "finding_details option"
  df_provenance :: "finding_provenance option"

definition file_message_cmp :: "string cmp \<Rightarrow> drift_finding cmp" where
  "file_message_cmp lc l r =
     (let c = lc (df_file l) (df_file r) in if c \<noteq> 0 then c else lc (df_message l) (df_message r))"

definition sortFindingsByFileMessage :: "string cmp \<Rightarrow> drift_finding list \<Rightarrow> drift_finding list" where
  "sortFindingsByFileMessage lc fs = js_sort (file_message_cmp lc) fs"

definition in_scope :: "detector_scope \<Rightarrow> drift_finding \<Rightarrow> bool" where
  "in_scope scope f =
     (case scope of
        CurrentScope _ \<Rightarrow> True
      | ChangedScope _ \<Rightarrow>
          (let changed = map (toPosix \<circ> cf_path) (changedFilesFromScope scope)
           in df_file f \<in> set changed \<or>
              (case df_relatedFiles f of None \<Rightarrow> False | Some rs \<Rightarrow> list_ex (\<lambda>g. g \<in> set changed) rs)))"

datatype check_outcome = Skipped (oc_reason: string) (oc_code: "skip_code option") | Ran (oc_findings: "drift_finding list")

section \<open>The graph\<close>

record module_edge =
  me_to :: string
  me_typeOnly :: bool

record module_graph =
  mg_edges :: "(string \<times> module_edge list) list"
  mg_candidateCount :: int
  mg_unresolvedCount :: int
  mg_fileCount :: nat
  mg_tsconfigCount :: nat

datatype graph_result = GraphOk module_graph | GraphSkip string "skip_code option" | GraphError string

record alias_head =
  ah_head :: string
  ah_exact :: bool

datatype 'o tsconfig_state =
    Loaded (ts_options: 'o) (ts_aliasHeads: "alias_head list")
  | Missing string
  | Invalid string

text \<open>\<open>ModuleRef\<close> of \<open>lib/ts-module-refs.ts\<close>: one reference per occurrence, in document order.\<close>

record module_ref =
  mr_specifier :: string
  mr_typeOnly :: bool

text \<open>
  What the graph builder asks of the file system and of the compiler. \<open>'o\<close> are the compiler's
  options, of which the code hands on what it was given; \<open>ge_noOptions\<close> are the empty ones.
\<close>

record 'o graph_env =
  ge_files :: "string list"
  ge_refs :: "string \<Rightarrow> module_ref list"
  ge_resolveModuleName :: "string \<Rightarrow> string \<Rightarrow> 'o \<Rightarrow> string option"
  ge_loadTsconfig :: "string \<Rightarrow> 'o tsconfig_state"
  ge_exists :: "string \<Rightarrow> bool"
  ge_noOptions :: 'o

definition alias_head_for :: "string \<Rightarrow> alias_head" where
  "alias_head_for key =
     (if key \<noteq> [] \<and> last key = CHR ''*'' then \<lparr>ah_head = butlast key, ah_exact = False\<rparr>
      else \<lparr>ah_head = key, ah_exact = True\<rparr>)"

definition aliasHeadsFor :: "string list option \<Rightarrow> alias_head list" where
  "aliasHeadsFor paths = (case paths of None \<Rightarrow> [] | Some keys \<Rightarrow> map alias_head_for keys)"

definition explicitTsconfigSkipReason :: "string \<Rightarrow> 'o tsconfig_state \<Rightarrow> string" where
  "explicitTsconfigSkipReason displayPath st =
     (case st of
        Missing d \<Rightarrow> ''explicit --tsconfig '' @ displayPath @ '' could not be read: '' @ d
      | Invalid d \<Rightarrow> ''explicit --tsconfig '' @ displayPath @ '' is invalid: '' @ d
      | Loaded _ _ \<Rightarrow> [])"

text \<open>\<open>path.dirname\<close> of an absolute POSIX path without a trailing slash.\<close>

definition posix_dirname :: "string \<Rightarrow> string" where
  "posix_dirname p =
     (let segs = path_segments p in ''/'' @ js_join ''/'' (butlast segs))"

text \<open>
  The walk up from a directory to the repository root or the file system's root, over the segments
  of the directory: the first directory that holds a \<open>tsconfig.json\<close>.
\<close>

definition dir_of :: "string list \<Rightarrow> string" where
  "dir_of segs = ''/'' @ js_join ''/'' segs"

definition tsconfig_in :: "string list \<Rightarrow> string" where
  "tsconfig_in segs = dir_of (segs @ [''tsconfig.json''])"

function nearest_from :: "(string \<Rightarrow> bool) \<Rightarrow> string list \<Rightarrow> string list \<Rightarrow> string option" where
  "nearest_from pathExists root segs =
     (if pathExists (tsconfig_in segs) then Some (tsconfig_in segs)
      else if segs = [] \<or> segs = root then None
      else nearest_from pathExists root (butlast segs))"
  by pat_completeness auto
termination by (relation "measure (\<lambda>(_, _, segs). length segs)") auto

declare nearest_from.simps [simp del]

definition nearestTsconfig :: "(string \<Rightarrow> bool) \<Rightarrow> string \<Rightarrow> string \<Rightarrow> string option" where
  "nearestTsconfig pathExists startDir repoRoot =
     nearest_from pathExists (path_segments repoRoot) (path_segments startDir)"

section \<open>Edges of one file\<close>

datatype resolution = Edge string | External | Unresolved

fun is_infix :: "string \<Rightarrow> string \<Rightarrow> bool" where
  "is_infix pat [] = (pat = [])"
| "is_infix pat (c # cs) = (prefix pat (c # cs) \<or> is_infix pat cs)"

definition resolveSpecifier ::
    "'o graph_env \<Rightarrow> string \<Rightarrow> string list \<Rightarrow> string \<Rightarrow> string \<Rightarrow> 'o \<Rightarrow> resolution" where
  "resolveSpecifier env repoRoot fileSet specifier containingFile opts =
     (case ge_resolveModuleName env specifier containingFile opts of
        None \<Rightarrow> Unresolved
      | Some f \<Rightarrow>
          if is_infix ''/node_modules/'' f then External
          else if suffix ''.d.ts'' f then External
          else let rel = posix_relative repoRoot f
               in if prefix ''..'' rel \<or> is_absolute rel then External
                  else let target = toPosix rel
                       in if target \<notin> set fileSet then External else Edge target)"

definition isResolutionCandidate :: "string \<Rightarrow> alias_head list \<Rightarrow> bool" where
  "isResolutionCandidate spec aliasHeads \<longleftrightarrow>
     prefix ''.'' spec \<or>
     list_ex (\<lambda>a. if ah_exact a then spec = ah_head a else ah_head a = [] \<or> prefix (ah_head a) spec) aliasHeads"

text \<open>An edge is type-only only if every import of its target is.\<close>

definition mergeEdge :: "string \<Rightarrow> bool \<Rightarrow> (string \<times> bool) list \<Rightarrow> (string \<times> bool) list" where
  "mergeEdge target typeOnly out =
     AList.update target (case map_of out target of None \<Rightarrow> typeOnly | Some p \<Rightarrow> p \<and> typeOnly) out"

record file_edges =
  fe_out :: "(string \<times> bool) list"
  fe_candidates :: int
  fe_unresolved :: int

definition resolveContextFor :: "'o graph_env \<Rightarrow> string \<Rightarrow> string option \<Rightarrow> string \<Rightarrow> 'o \<times> alias_head list" where
  "resolveContextFor env repoRoot override absFile =
     (let tsconfigPath = (case override of Some p \<Rightarrow> Some p
            | None \<Rightarrow> nearestTsconfig (ge_exists env) (posix_dirname absFile) repoRoot)
      in case map_option (ge_loadTsconfig env) tsconfigPath of
           Some (Loaded options aliasHeads) \<Rightarrow> (options, aliasHeads)
         | _ \<Rightarrow> (ge_noOptions env, []))"

definition ref_step ::
    "'o graph_env \<Rightarrow> string \<Rightarrow> string list \<Rightarrow> string \<Rightarrow> 'o \<times> alias_head list \<Rightarrow> module_ref \<Rightarrow> file_edges \<Rightarrow> file_edges" where
  "ref_step env repoRoot fileSet absFile context ref st =
     (let candidate = isResolutionCandidate (mr_specifier ref) (snd context);
          st1 = (if candidate then st\<lparr>fe_candidates := fe_candidates st + 1\<rparr> else st)
      in case resolveSpecifier env repoRoot fileSet (mr_specifier ref) absFile (fst context) of
           Edge target \<Rightarrow> st1\<lparr>fe_out := mergeEdge target (mr_typeOnly ref) (fe_out st1)\<rparr>
         | Unresolved \<Rightarrow> if candidate then st1\<lparr>fe_unresolved := fe_unresolved st1 + 1\<rparr> else st1
         | External \<Rightarrow> st1)"

definition collectFileEdges ::
    "'o graph_env \<Rightarrow> string \<Rightarrow> string list \<Rightarrow> string option \<Rightarrow> string \<Rightarrow> file_edges" where
  "collectFileEdges env repoRoot fileSet override absFile =
     fold (ref_step env repoRoot fileSet absFile (resolveContextFor env repoRoot override absFile))
       (ge_refs env absFile) \<lparr>fe_out = [], fe_candidates = 0, fe_unresolved = 0\<rparr>"

definition edge_list :: "file_edges \<Rightarrow> module_edge list" where
  "edge_list fe = map (\<lambda>(target, typeOnly). \<lparr>me_to = target, me_typeOnly = typeOnly\<rparr>) (fe_out fe)"

section \<open>The whole graph\<close>

definition repo_relative :: "string \<Rightarrow> string \<Rightarrow> string" where
  "repo_relative repoRoot absFile = toPosix (posix_relative repoRoot absFile)"

definition resolveOverridePath :: "string \<Rightarrow> string option \<Rightarrow> string option" where
  "resolveOverridePath repoRoot override =
     map_option (\<lambda>p. if is_absolute p then p else dir_of (path_segments (repoRoot @ ''/'' @ p))) override"

text \<open>The tsconfig paths that the builder asked for, and how many of them loaded.\<close>

definition asked_tsconfigs :: "'o graph_env \<Rightarrow> string \<Rightarrow> string option \<Rightarrow> string list" where
  "asked_tsconfigs env repoRoot override =
     (case override of
        Some p \<Rightarrow> [p]
      | None \<Rightarrow> remdups (List.map_filter (\<lambda>f. nearestTsconfig (ge_exists env) (posix_dirname f) repoRoot) (ge_files env)))"

definition loadedTsconfigCount :: "'o graph_env \<Rightarrow> string list \<Rightarrow> nat" where
  "loadedTsconfigCount env asked =
     length (filter (\<lambda>p. case ge_loadTsconfig env p of Loaded _ _ \<Rightarrow> True | _ \<Rightarrow> False) asked)"

record graph_totals =
  gt_edges :: "(string \<times> module_edge list) list"
  gt_candidates :: int
  gt_unresolved :: int

definition file_step ::
    "'o graph_env \<Rightarrow> string \<Rightarrow> string list \<Rightarrow> string option \<Rightarrow> string \<Rightarrow> graph_totals \<Rightarrow> graph_totals" where
  "file_step env repoRoot fileSet override absFile st =
     (let result = collectFileEdges env repoRoot fileSet override absFile
      in \<lparr>gt_edges = AList.update (repo_relative repoRoot absFile) (edge_list result) (gt_edges st),
          gt_candidates = gt_candidates st + fe_candidates result,
          gt_unresolved = gt_unresolved st + fe_unresolved result\<rparr>)"

definition buildGraph :: "'o graph_env \<Rightarrow> string \<Rightarrow> string option \<Rightarrow> graph_result" where
  "buildGraph env repoRoot tsconfigOverride =
     (let fileSet = map (repo_relative repoRoot) (ge_files env);
          override = resolveOverridePath repoRoot tsconfigOverride;
          totals = fold (file_step env repoRoot fileSet override) (ge_files env)
            \<lparr>gt_edges = [], gt_candidates = 0, gt_unresolved = 0\<rparr>;
          graph = GraphOk \<lparr>mg_edges = gt_edges totals, mg_candidateCount = gt_candidates totals,
            mg_unresolvedCount = gt_unresolved totals, mg_fileCount = length (ge_files env),
            mg_tsconfigCount = loadedTsconfigCount env (asked_tsconfigs env repoRoot override)\<rparr>
      in case override of
           None \<Rightarrow> graph
         | Some p \<Rightarrow>
             (case ge_loadTsconfig env p of
                Loaded _ _ \<Rightarrow> graph
              | st \<Rightarrow> GraphSkip (explicitTsconfigSkipReason (case tsconfigOverride of None \<Rightarrow> p | Some d \<Rightarrow> d) st)
                        (Some NoTargetConfig)))"

end
