(* ===== verification/ImportCycles.thy ===== *)
theory ImportCycles
  imports DriftGraph
begin

text \<open>
  \<open>drift-ai/import-cycles.ts\<close> and \<open>import-cycles-check.ts\<close>: whether the graph can be trusted, its
  strongly connected components (Kosaraju's two passes, each with an explicit stack), the split into
  runtime and type-only cycles, the findings and their scope. Counts are below 2^53, where the
  quotient of two of them exceeds a quarter exactly when the exact one does; \<open>pct\<close> is the rounded
  percentage of the message, computed in floating point.
\<close>

section \<open>Configuration and trust\<close>

record cycles_resolution =
  cr_configSource :: config_source
  cr_tsconfigOverride :: "string option"
  cr_displayPath :: string

definition resolveImportCyclesConfig :: "string option \<Rightarrow> cycles_resolution" where
  "resolveImportCyclesConfig override =
     \<lparr>cr_configSource = TargetConfig, cr_tsconfigOverride = override,
      cr_displayPath = (case override of None \<Rightarrow> ''tsconfig.json (per-package discovery)'' | Some p \<Rightarrow> p)\<rparr>"

definition buildCycleProvenance :: "cycles_resolution \<Rightarrow> finding_provenance" where
  "buildCycleProvenance r =
     \<lparr>fp_configSource = cr_configSource r, fp_tool = ''ts-morph'', fp_configPath = Some (cr_displayPath r)\<rparr>"

datatype graph_assessment = AssessOk | AssessSkip string "skip_code option"

type_synonym percentage = "int \<Rightarrow> int \<Rightarrow> int"

definition tooPartialSkip :: "percentage \<Rightarrow> module_graph \<Rightarrow> bool \<Rightarrow> graph_assessment" where
  "tooPartialSkip pct g targetInstalled =
     (let stats = show_int (mg_unresolvedCount g) @ ''/'' @ show_int (mg_candidateCount g) @ '' (''
            @ show_int (pct (mg_unresolvedCount g) (mg_candidateCount g))
            @ ''%) relative/alias imports did not resolve''
      in if \<not> targetInstalled
         then AssessSkip (''module-graph resolution is too partial to trust: '' @ stats
                @ '', and the target has no node_modules. Install the target's dependencies (and/or pass --tsconfig <path>) and re-run.'')
                (Some TargetNotInstalled)
         else AssessSkip (''module-graph resolution is too partial to trust: '' @ stats
                @ ''. Check that the right tsconfig governs these files, or pass --tsconfig <path>.'')
                (Some ResolutionTooPartial))"

definition assessGraph :: "percentage \<Rightarrow> module_graph \<Rightarrow> bool \<Rightarrow> graph_assessment" where
  "assessGraph pct g targetInstalled =
     (if mg_fileCount g = 0
      then AssessSkip ''no TypeScript source files found under the configured roots.'' None
      else if mg_tsconfigCount g = 0
      then AssessSkip ''no tsconfig found to resolve the module graph and honor the target's path aliases. Pass --tsconfig <path> to point at one.''
             (Some NoTargetConfig)
      else if mg_candidateCount g \<noteq> 0 \<and> 4 * mg_unresolvedCount g > mg_candidateCount g
      then tooPartialSkip pct g targetInstalled
      else AssessOk)"

section \<open>Strongly connected components\<close>

type_synonym adjacency = "(string \<times> string list) list"

definition neighbors :: "adjacency \<Rightarrow> string \<Rightarrow> string list" where
  "neighbors adj node = (case map_of adj node of None \<Rightarrow> [] | Some ns \<Rightarrow> ns)"

definition all_targets :: "adjacency \<Rightarrow> string set" where
  "all_targets adj = \<Union> (set ` snd ` set adj)"

lemma finite_all_targets [simp]: "finite (all_targets adj)"
  by (simp add: all_targets_def)

lemma neighbors_targets: "v \<in> set (neighbors adj u) \<Longrightarrow> v \<in> all_targets adj"
proof (cases "map_of adj u")
  case (Some ns)
  assume "v \<in> set (neighbors adj u)"
  with Some map_of_SomeD[OF Some] show ?thesis by (force simp: neighbors_def all_targets_def)
qed (simp add: neighbors_def)

text \<open>
  The first pass. A frame is a node and the index of its next neighbour, the top of the stack comes
  first; \<open>visited\<close> and \<open>order\<close> are the set and the array of the code.
\<close>

definition frame_work :: "adjacency \<Rightarrow> (string \<times> nat) list \<Rightarrow> nat" where
  "frame_work adj stack = (\<Sum>(n, i)\<leftarrow>stack. Suc (length (neighbors adj n) - i))"

function visit_loop ::
    "adjacency \<Rightarrow> (string \<times> nat) list \<Rightarrow> string list \<Rightarrow> string list \<Rightarrow> string list \<times> string list" where
  "visit_loop adj [] visited order = (visited, order)"
| "visit_loop adj ((node, i) # stack) visited order =
     (case at_index (neighbors adj node) i of
        None \<Rightarrow> visit_loop adj stack visited (order @ [node])
      | Some n \<Rightarrow>
          if n \<in> set visited then visit_loop adj ((node, Suc i) # stack) visited order
          else visit_loop adj ((n, 0) # (node, Suc i) # stack) (visited @ [n]) order)"
  by pat_completeness auto
termination
proof (relation "measures [\<lambda>(adj, _, visited, _). card (all_targets adj - set visited),
    \<lambda>(adj, stack, _, _). frame_work adj stack]", goal_cases)
  case (4 adj node i stack visited order n)
  then have "n \<in> all_targets adj - set visited"
    using neighbors_targets[of n adj node] by (auto simp: at_index_Some)
  then have "card (all_targets adj - set (visited @ [n])) < card (all_targets adj - set visited)"
    by (intro psubset_card_mono) auto
  then show ?case by simp
qed (auto simp: frame_work_def at_index_Some)

declare visit_loop.simps [simp del]

fun finish_from :: "adjacency \<Rightarrow> string list \<Rightarrow> string list \<Rightarrow> string list \<Rightarrow> string list" where
  "finish_from adj [] visited order = order"
| "finish_from adj (s # ss) visited order =
     (if s \<in> set visited then finish_from adj ss visited order
      else let (visited', order') = visit_loop adj [(s, 0)] (visited @ [s]) order
           in finish_from adj ss visited' order')"

definition finishOrder :: "adjacency \<Rightarrow> string list" where
  "finishOrder adj = finish_from adj (map fst adj) [] []"

definition push_back :: "string \<Rightarrow> string \<Rightarrow> adjacency \<Rightarrow> adjacency" where
  "push_back source target back_edges =
     (case map_of back_edges target of None \<Rightarrow> back_edges | Some l \<Rightarrow> AList.update target (l @ [source]) back_edges)"

definition buildTranspose :: "adjacency \<Rightarrow> adjacency" where
  "buildTranspose adj =
     fold (\<lambda>(source, targets). fold (push_back source) targets) adj (map (\<lambda>(node, _). (node, [])) adj)"

text \<open>The second pass: the neighbours of a node that are not assigned yet go on the stack.\<close>

fun claim_step :: "string \<Rightarrow> string list \<times> string list \<Rightarrow> string list \<times> string list" where
  "claim_step n (assigned, stack) = (if n \<in> set assigned then (assigned, stack) else (n # assigned, n # stack))"

lemma claim_fold:
  "fold claim_step ns (assigned, stack) = (assigned', stack') \<Longrightarrow>
     \<exists>new. assigned' = new @ assigned \<and> stack' = new @ stack \<and> set new = set ns - set assigned \<and> distinct new"
proof (induction ns arbitrary: assigned stack)
  case (Cons n ns)
  show ?case
  proof (cases "n \<in> set assigned")
    case True
    with Cons.IH[of assigned stack] Cons.prems show ?thesis by auto
  next
    case False
    with Cons.prems have "fold claim_step ns (n # assigned, n # stack) = (assigned', stack')" by simp
    from Cons.IH[OF this] obtain new where "assigned' = new @ n # assigned" "stack' = new @ n # stack"
      "set new = set ns - set (n # assigned)" "distinct new" by auto
    with False show ?thesis by (intro exI[of _ "new @ [n]"]) auto
  qed
qed simp

function component_loop ::
    "adjacency \<Rightarrow> string list \<Rightarrow> string list \<Rightarrow> string list \<Rightarrow> string list \<times> string list" where
  "component_loop back_edges [] assigned component = (assigned, component)"
| "component_loop back_edges (node # stack) assigned component =
     (let (assigned', stack') = fold claim_step (neighbors back_edges node) (assigned, stack)
      in component_loop back_edges stack' assigned' (component @ [node]))"
  by pat_completeness auto
termination
proof (relation "measure (\<lambda>(tr, stack, assigned, _). card (all_targets tr - set assigned) + length stack)", goal_cases)
  case (2 tr node stack assigned component p assigned' stack')
  then obtain new where new: "assigned' = new @ assigned" "stack' = new @ stack"
      "set new = set (neighbors tr node) - set assigned" "distinct new"
    using claim_fold[of "neighbors tr node" assigned stack assigned' stack'] by auto
  have "set new \<subseteq> all_targets tr - set assigned"
    using new(3) neighbors_targets[of _ tr node] by auto
  moreover have "all_targets tr - set assigned' = (all_targets tr - set assigned) - set new"
    using new(1) by auto
  ultimately have "card (all_targets tr - set assigned) = card (all_targets tr - set assigned') + card (set new)"
    by (metis add.commute card_Diff_subset card_mono finite_Diff finite_all_targets finite_set le_add_diff_inverse)
  then show ?case using new(2) distinct_card[OF new(4)] by simp
qed simp

declare component_loop.simps [simp del]

fun components_from :: "adjacency \<Rightarrow> string list \<Rightarrow> string list \<Rightarrow> string list list" where
  "components_from back_edges [] assigned = []"
| "components_from back_edges (root # roots) assigned =
     (if root \<in> set assigned then components_from back_edges roots assigned
      else let (assigned', component) = component_loop back_edges [root] (root # assigned) []
           in component # components_from back_edges roots assigned')"

definition assignComponents :: "string list \<Rightarrow> adjacency \<Rightarrow> string list list" where
  "assignComponents order back_edges = components_from back_edges (rev order) []"

definition stronglyConnectedComponents :: "adjacency \<Rightarrow> string list list" where
  "stronglyConnectedComponents adj = assignComponents (finishOrder adj) (buildTranspose adj)"

section \<open>Cycles\<close>

record detected_cycles =
  dc_runtimeCycles :: "string list list"
  dc_typeOnlyCycles :: "string list list"

definition buildAdjacency :: "module_graph \<Rightarrow> bool \<Rightarrow> adjacency" where
  "buildAdjacency g includeTypeOnly =
     map (\<lambda>(source, edges). (source, map me_to (filter (\<lambda>e. includeTypeOnly \<or> \<not> me_typeOnly e) edges))) (mg_edges g)"

definition isCycle :: "string list \<Rightarrow> bool" where
  "isCycle c \<longleftrightarrow> length c \<ge> 2"

definition sortedCycle :: "string cmp \<Rightarrow> string list \<Rightarrow> string list" where
  "sortedCycle lc c = js_sort lc c"

definition findCycles :: "string cmp \<Rightarrow> module_graph \<Rightarrow> detected_cycles" where
  "findCycles lc g =
     (let fullSccs = filter isCycle (stronglyConnectedComponents (buildAdjacency g True));
          valueSccs = filter isCycle (stronglyConnectedComponents (buildAdjacency g False));
          runtimeNodes = concat valueSccs
      in \<lparr>dc_runtimeCycles = map (sortedCycle lc) valueSccs,
          dc_typeOnlyCycles = map (sortedCycle lc) (filter (list_all (\<lambda>n. n \<notin> set runtimeNodes)) fullSccs)\<rparr>)"

section \<open>Findings\<close>

definition RUNTIME_CYCLE_HINT :: string where
  "RUNTIME_CYCLE_HINT = ''break the cycle: invert one dependency, or extract the shared code both files need into a third module. AI agents often introduce this by splitting a module so the new child re-imports its parent.''"

definition TYPE_ONLY_CYCLE_HINT :: string where
  "TYPE_ONLY_CYCLE_HINT = ''type-only: this cycle does not exist at runtime (it is formed only by `import type`/`export type` edges). It is reported as evidence, not a defect; if undesired, move the shared types into a leaf module both sides import.''"

definition cycleFinding :: "string list \<Rightarrow> bool \<Rightarrow> finding_provenance \<Rightarrow> drift_finding option" where
  "cycleFinding cycle typeOnly provenance =
     (case cycle of
        [] \<Rightarrow> None
      | first # rest \<Rightarrow> Some
          \<lparr>df_check = ''import-cycles'', df_file = first,
           df_message = (if typeOnly
             then ''part of a type-only import cycle among '' @ show_nat (length cycle) @ '' files '' @ em_dash
                  @ '' formed only by `import type`/`export type` edges, so it is not a runtime defect (see relatedFiles)''
             else ''part of a circular import among '' @ show_nat (length cycle) @ '' files (see relatedFiles)''),
           df_hint = Some (if typeOnly then TYPE_ONLY_CYCLE_HINT else RUNTIME_CYCLE_HINT),
           df_relatedFiles = Some rest, df_details = Some (CycleDetails (length cycle) typeOnly),
           df_provenance = Some provenance\<rparr>)"

definition buildCycleFindings ::
    "string cmp \<Rightarrow> detected_cycles \<Rightarrow> detector_scope \<Rightarrow> finding_provenance \<Rightarrow> drift_finding list" where
  "buildCycleFindings lc cycles scope provenance =
     sortFindingsByFileMessage lc
       (filter (in_scope scope)
         (List.map_filter (\<lambda>c. cycleFinding c False provenance) (dc_runtimeCycles cycles)
          @ List.map_filter (\<lambda>c. cycleFinding c True provenance) (dc_typeOnlyCycles cycles)))"

definition buildGraphErrorFinding :: "string \<Rightarrow> drift_finding" where
  "buildGraphErrorFinding err =
     \<lparr>df_check = ''import-cycles'', df_file = ''.'',
      df_message = ''import-cycles could not build the module graph ('' @ err @ '')'',
      df_hint = Some ''re-run locally to inspect the failure; cycles were not checked this run, so under --fail-on-runtime-cycles this diagnostic fails the gate.'',
      df_relatedFiles = None, df_details = None, df_provenance = None\<rparr>"

definition runImportCyclesCheck ::
    "string cmp \<Rightarrow> percentage \<Rightarrow> (string option \<Rightarrow> graph_result) \<Rightarrow> bool \<Rightarrow> string option \<Rightarrow> detector_scope \<Rightarrow> check_outcome" where
  "runImportCyclesCheck lc pct moduleGraph targetInstalled tsconfigOverride scope =
     (let resolution = resolveImportCyclesConfig tsconfigOverride
      in case moduleGraph (cr_tsconfigOverride resolution) of
           GraphSkip reason code \<Rightarrow> Skipped reason code
         | GraphError err \<Rightarrow> Ran [buildGraphErrorFinding err]
         | GraphOk g \<Rightarrow>
             (case assessGraph pct g targetInstalled of
                AssessSkip reason code \<Rightarrow> Skipped reason code
              | AssessOk \<Rightarrow> Ran (buildCycleFindings lc (findCycles lc g) scope (buildCycleProvenance resolution))))"

end
