(* ===== verification/SccLaws.thy ===== *)
theory SccLaws
  imports ImportCycles
begin

text \<open>
  Kosaraju's algorithm as \<open>import-cycles.ts\<close> runs it computes the strongly connected components:
  the finish order of the first pass satisfies \<open>finished_before\<close>, by an invariant of the explicit
  stack; the second pass then cuts off one component after the other. From there: what a reported
  runtime or type-only cycle is.
\<close>

section \<open>Reachability\<close>

definition edge :: "adjacency \<Rightarrow> string \<Rightarrow> string \<Rightarrow> bool" where
  "edge adj u v \<longleftrightarrow> v \<in> set (neighbors adj u)"

abbreviation reach :: "adjacency \<Rightarrow> string \<Rightarrow> string \<Rightarrow> bool" where
  "reach adj \<equiv> (edge adj)\<^sup>*\<^sup>*"

definition verts :: "adjacency \<Rightarrow> string set" where
  "verts adj = fst ` set adj \<union> all_targets adj"

definition mutual :: "adjacency \<Rightarrow> string \<Rightarrow> string \<Rightarrow> bool" where
  "mutual adj u v \<longleftrightarrow> reach adj u v \<and> reach adj v u"

lemma mutual_refl [simp]: "mutual adj u u"
  by (simp add: mutual_def)

lemma mutual_sym: "mutual adj u v \<Longrightarrow> mutual adj v u"
  by (simp add: mutual_def)

lemma mutual_trans: "mutual adj u v \<Longrightarrow> mutual adj v w \<Longrightarrow> mutual adj u w"
  by (auto simp: mutual_def)

lemma edge_key: "edge adj u v \<Longrightarrow> u \<in> fst ` set adj"
proof (cases "map_of adj u")
  case (Some ns)
  then show ?thesis using map_of_SomeD[OF Some] by force
qed (simp add: edge_def neighbors_def)

lemma edge_verts: "edge adj u v \<Longrightarrow> u \<in> verts adj \<and> v \<in> verts adj"
  using edge_key[of adj u v] neighbors_targets[of v adj u] by (auto simp: verts_def edge_def)

lemma targets_edge:
  assumes "distinct (map fst adj)"
  shows "v \<in> all_targets adj \<longleftrightarrow> (\<exists>u. edge adj u v)"
proof
  assume "v \<in> all_targets adj"
  then obtain k ns where "(k, ns) \<in> set adj" "v \<in> set ns" by (auto simp: all_targets_def)
  then show "\<exists>u. edge adj u v"
    using assms by (intro exI[of _ k]) (simp add: edge_def neighbors_def)
qed (auto simp: edge_def intro: neighbors_targets)

lemma reach_key: "reach adj u v \<Longrightarrow> u \<noteq> v \<Longrightarrow> u \<in> fst ` set adj"
  by (erule converse_rtranclpE) (auto dest: edge_key)

lemma reach_verts: "reach adj u v \<Longrightarrow> u \<in> verts adj \<Longrightarrow> v \<in> verts adj"
  by (induction rule: rtranclp_induct) (auto dest: edge_verts)

section \<open>The first pass\<close>

text \<open>
  When \<open>x\<close> is finished, all that it reaches is finished already, or a node that is still to be
  finished lies on a cycle with it.
\<close>

definition finished_before :: "adjacency \<Rightarrow> string \<Rightarrow> string list \<Rightarrow> string set \<Rightarrow> bool" where
  "finished_before adj x earlier later \<longleftrightarrow>
     (\<forall>y. reach adj x y \<longrightarrow> y = x \<or> y \<in> set earlier) \<or> (\<exists>z \<in> later. mutual adj x z)"

lemma finished_before_mono: "finished_before adj x ps A \<Longrightarrow> A \<subseteq> B \<Longrightarrow> finished_before adj x ps B"
  by (auto simp: finished_before_def)

definition order_ok :: "adjacency \<Rightarrow> string list \<Rightarrow> string set \<Rightarrow> bool" where
  "order_ok adj order pending \<longleftrightarrow>
     (\<forall>ps x ss. order = ps @ x # ss \<longrightarrow> finished_before adj x ps (set ss \<union> pending))"

definition scanned :: "adjacency \<Rightarrow> string set \<Rightarrow> string \<times> nat \<Rightarrow> bool" where
  "scanned adj V f \<longleftrightarrow> set (take (snd f) (neighbors adj (fst f))) \<subseteq> V"

definition finished :: "adjacency \<Rightarrow> string set \<Rightarrow> string \<Rightarrow> bool" where
  "finished adj V u \<longleftrightarrow> set (neighbors adj u) \<subseteq> V"

definition dfs_inv :: "adjacency \<Rightarrow> (string \<times> nat) list \<Rightarrow> string list \<Rightarrow> string list \<Rightarrow> bool" where
  "dfs_inv adj stack visited order \<longleftrightarrow>
     set visited = set order \<union> fst ` set stack \<and> distinct (order @ map fst stack) \<and> set visited \<subseteq> verts adj \<and>
     list_all (finished adj (set visited)) order \<and> list_all (scanned adj (set visited)) stack \<and>
     sorted_wrt (\<lambda>a b. reach adj (fst b) (fst a)) stack \<and> order_ok adj order (fst ` set stack)"

lemma dfs_invD:
  assumes "dfs_inv adj stack visited order"
  shows "set visited = set order \<union> fst ` set stack" "distinct (order @ map fst stack)" "set visited \<subseteq> verts adj"
    "list_all (finished adj (set visited)) order" "list_all (scanned adj (set visited)) stack"
    "sorted_wrt (\<lambda>a b. reach adj (fst b) (fst a)) stack" "order_ok adj order (fst ` set stack)"
  using assms unfolding dfs_inv_def by blast+

lemma finished_edge: "list_all (finished adj V) order \<Longrightarrow> u \<in> set order \<Longrightarrow> edge adj u v \<Longrightarrow> v \<in> V"
  by (auto simp: list_all_iff finished_def edge_def)

lemma order_ok_mono: "order_ok adj order A \<Longrightarrow> A \<subseteq> B \<Longrightarrow> order_ok adj order B"
  unfolding order_ok_def by (blast intro: finished_before_mono)

lemma order_ok_snoc:
  assumes "order_ok adj order (insert n P)" and "finished_before adj n order P"
  shows "order_ok adj (order @ [n]) P"
  unfolding order_ok_def
proof (intro allI impI)
  fix ps x ss
  assume eq: "order @ [n] = ps @ x # ss"
  show "finished_before adj x ps (set ss \<union> P)"
  proof (cases ss rule: rev_cases)
    case Nil
    with eq assms(2) show ?thesis by simp
  next
    case (snoc ss' y)
    with eq have "order = ps @ x # ss'" "y = n" by auto
    with assms(1) have "finished_before adj x ps (set ss' \<union> insert n P)" by (auto simp: order_ok_def)
    with snoc \<open>y = n\<close> show ?thesis by (auto intro: finished_before_mono)
  qed
qed

lemma finish_last:
  assumes inv: "dfs_inv adj ((node, i) # stack) visited order" and out: "finished adj (set visited) node"
  shows "finished_before adj node order (fst ` set stack)"
proof (cases "\<exists>z \<in> fst ` set stack. reach adj node z")
  case True
  then obtain z where z: "z \<in> fst ` set stack" "reach adj node z" by blast
  from inv z(1) have "reach adj z node" by (auto simp: dfs_inv_def)
  with z show ?thesis by (auto simp: finished_before_def mutual_def)
next
  case False
  have edges: "v \<in> set visited" if "u = node \<or> u \<in> set order" "edge adj u v" for u v
    using that out finished_edge[OF dfs_invD(4)[OF inv]] by (auto simp: finished_def edge_def)
  have "y = node \<or> y \<in> set order" if "reach adj node y" for y
    using that
  proof (induction rule: rtranclp_induct)
    case (step y z)
    then have "z \<in> set visited" using edges[of y z] by auto
    moreover have "z \<notin> fst ` set stack"
      using False step(1,2) by (metis rtranclp.rtrancl_into_rtrancl)
    ultimately show ?case using inv by (auto simp: dfs_inv_def)
  qed simp
  then show ?thesis by (simp add: finished_before_def)
qed

lemma finish_step:
  assumes inv: "dfs_inv adj ((node, i) # stack) visited order" and "length (neighbors adj node) \<le> i"
  shows "dfs_inv adj stack visited (order @ [node])"
proof -
  have out: "finished adj (set visited) node"
    using dfs_invD(5)[OF inv] assms(2) by (simp add: scanned_def finished_def)
  have "order_ok adj (order @ [node]) (fst ` set stack)"
    using inv finish_last[OF inv out] by (intro order_ok_snoc) (simp_all add: dfs_inv_def)
  with out dfs_invD[OF inv] show ?thesis
    unfolding dfs_inv_def by (intro conjI) (auto simp del: Un_iff)
qed

lemma scanned_next: "i < length (neighbors adj node) \<Longrightarrow>
    scanned adj V (node, Suc i) \<longleftrightarrow> scanned adj V (node, i) \<and> neighbors adj node ! i \<in> V"
  by (auto simp: scanned_def take_Suc_conv_app_nth)

lemma skip_step:
  assumes "dfs_inv adj ((node, i) # stack) visited order" and "i < length (neighbors adj node)"
    and "neighbors adj node ! i \<in> set visited"
  shows "dfs_inv adj ((node, Suc i) # stack) visited order"
  using dfs_invD[OF assms(1)] assms(3) unfolding dfs_inv_def
  by (intro conjI) (simp_all add: scanned_next[OF assms(2)])

lemma more_visited:
  "list_all (finished adj V) order \<Longrightarrow> V \<subseteq> W \<Longrightarrow> list_all (finished adj W) order"
  "list_all (scanned adj V) stack \<Longrightarrow> V \<subseteq> W \<Longrightarrow> list_all (scanned adj W) stack"
  by (auto simp: list_all_iff finished_def scanned_def)

lemma push_step:
  assumes inv: "dfs_inv adj ((node, i) # stack) visited order" and n: "i < length (neighbors adj node)"
    "neighbors adj node ! i = n" "n \<notin> set visited"
  shows "dfs_inv adj ((n, 0) # (node, Suc i) # stack) (visited @ [n]) order"
proof -
  have e: "edge adj node n" using n(1,2) by (auto simp: edge_def)
  have sub: "set visited \<subseteq> set (visited @ [n])" by auto
  have parts: "sorted_wrt (\<lambda>a b. reach adj (fst b) (fst a)) ((node, i) # stack)"
    "order_ok adj order (fst ` set ((node, i) # stack))" "list_all (finished adj (set visited)) order"
    "list_all (scanned adj (set visited)) ((node, i) # stack)" "set visited = set order \<union> fst ` set ((node, i) # stack)"
    "distinct (order @ map fst ((node, i) # stack))" "set visited \<subseteq> verts adj"
    using inv unfolding dfs_inv_def by blast+
  have "sorted_wrt (\<lambda>a b. reach adj (fst b) (fst a)) ((n, 0) # (node, Suc i) # stack)"
    using parts(1) e by (auto intro: rtranclp.rtrancl_into_rtrancl)
  moreover have "order_ok adj order (fst ` set ((n, 0) # (node, Suc i) # stack))"
    by (rule order_ok_mono[OF parts(2)]) auto
  moreover have "list_all (scanned adj (set (visited @ [n]))) ((n, 0) # (node, Suc i) # stack)"
    using more_visited(2)[OF parts(4) sub] n(2) by (simp add: scanned_next[OF n(1)]) (simp add: scanned_def)
  moreover have "distinct (order @ map fst ((n, 0) # (node, Suc i) # stack))"
    using parts(5,6) n(3) by auto
  moreover have "set (visited @ [n]) = set order \<union> fst ` set ((n, 0) # (node, Suc i) # stack)"
    using parts(5) by auto
  moreover have "set (visited @ [n]) \<subseteq> verts adj" using parts(7) edge_verts[OF e] by simp
  ultimately show ?thesis
    using more_visited(1)[OF parts(3) sub] unfolding dfs_inv_def by blast
qed

lemma visit_loop_inv:
  "dfs_inv adj stack visited order \<Longrightarrow> visit_loop adj stack visited order = (visited', order') \<Longrightarrow>
     dfs_inv adj [] visited' order' \<and> set visited \<subseteq> set visited'"
proof (induction adj stack visited order rule: visit_loop.induct)
  case (1 adj visited order)
  then show ?case by (simp add: visit_loop.simps)
next
  case (2 adj node i stack visited order)
  show ?case
  proof (cases "at_index (neighbors adj node) i")
    case None
    with 2 finish_step[OF "2.prems"(1)] show ?thesis by (simp add: visit_loop.simps at_index_None)
  next
    case (Some n)
    note n = Some[unfolded at_index_Some]
    show ?thesis
    proof (cases "n \<in> set visited")
      case True
      with 2 Some n skip_step[OF "2.prems"(1)] show ?thesis by (simp add: visit_loop.simps)
    next
      case False
      with 2 Some n push_step[OF "2.prems"(1)] show ?thesis by (auto simp: visit_loop.simps)
    qed
  qed
qed

lemma finish_from_inv:
  "dfs_inv adj [] visited order \<Longrightarrow> set ss \<subseteq> fst ` set adj \<Longrightarrow>
     \<exists>visited'. dfs_inv adj [] visited' (finish_from adj ss visited order) \<and> set visited \<union> set ss \<subseteq> set visited'"
proof (induction ss arbitrary: visited order)
  case Nil
  then show ?case by auto
next
  case (Cons s ss)
  show ?case
  proof (cases "s \<in> set visited")
    case True
    with Cons.IH[OF Cons.prems(1)] Cons.prems(2) show ?thesis by auto
  next
    case False
    obtain v1 o1 where l: "visit_loop adj [(s, 0)] (visited @ [s]) order = (v1, o1)" by fastforce
    have "s \<in> verts adj" using Cons.prems(2) by (auto simp: verts_def)
    with Cons.prems(1) False have "dfs_inv adj [(s, 0)] (visited @ [s]) order"
      by (auto simp: dfs_inv_def scanned_def elim!: order_ok_mono intro: more_visited)
    from visit_loop_inv[OF this l] have v1: "dfs_inv adj [] v1 o1" "set (visited @ [s]) \<subseteq> set v1" by auto
    from Cons.IH[OF v1(1)] Cons.prems(2) obtain v2 where
      "dfs_inv adj [] v2 (finish_from adj ss v1 o1)" "set v1 \<union> set ss \<subseteq> set v2" by auto
    with False l v1(2) show ?thesis by auto
  qed
qed

lemma finishOrder_ok:
  assumes "distinct (map fst adj)"
  shows "distinct (finishOrder adj)" "set (finishOrder adj) = verts adj" "order_ok adj (finishOrder adj) {}"
proof -
  have "dfs_inv adj [] [] []" by (simp add: dfs_inv_def order_ok_def)
  from finish_from_inv[OF this, of "map fst adj"] obtain v where
    inv: "dfs_inv adj [] v (finishOrder adj)" "fst ` set adj \<subseteq> set v"
    by (auto simp: finishOrder_def)
  then show "distinct (finishOrder adj)" "order_ok adj (finishOrder adj) {}" by (auto simp: dfs_inv_def)
  have "v \<in> set (finishOrder adj)" if "v \<in> all_targets adj" for v
  proof -
    from that obtain u where "edge adj u v" using targets_edge[OF assms] by blast
    have "u \<in> set (finishOrder adj)" using edge_key[OF \<open>edge adj u v\<close>] inv(2) dfs_invD(1)[OF inv(1)] by auto
    from finished_edge[OF dfs_invD(4)[OF inv(1)] this \<open>edge adj u v\<close>] show ?thesis
      using dfs_invD(1)[OF inv(1)] by auto
  qed
  with inv show "set (finishOrder adj) = verts adj" by (auto simp: dfs_inv_def verts_def)
qed

section \<open>The transposed graph\<close>

lemma push_back_neighbors:
  "neighbors (push_back source target tr) v =
     neighbors tr v @ (if v = target \<and> v \<in> fst ` set tr then [source] else [])"
proof (cases "map_of tr target")
  case None
  then have "target \<notin> fst ` set tr" by (simp add: map_of_eq_None_iff)
  then show ?thesis unfolding push_back_def None option.case by simp
next
  case (Some l)
  then have "target \<in> fst ` set tr" by (metis map_of_eq_None_iff option.distinct(1))
  with Some show ?thesis by (auto simp: push_back_def neighbors_def update_conv' simp del: map_of_eq_Some_iff)
qed

lemma push_back_keys: "fst ` set (push_back source target tr) = fst ` set tr"
proof (cases "map_of tr target")
  case (Some l)
  then have "target \<in> fst ` set tr" by (metis map_of_eq_None_iff option.distinct(1))
  with Some show ?thesis by (auto simp: push_back_def dom_update)
qed (simp add: push_back_def)

lemma push_all:
  "fst ` set (fold (push_back u) vs tr) = fst ` set tr \<and>
   set (neighbors (fold (push_back u) vs tr) v) =
     set (neighbors tr v) \<union> (if v \<in> set vs \<and> v \<in> fst ` set tr then {u} else {})"
proof (induction vs arbitrary: tr)
  case (Cons w vs)
  show ?case
    using Cons.IH[of "push_back u w tr"] by (auto simp: push_back_neighbors push_back_keys)
qed simp

lemma transpose_fold:
  "fst ` set (fold (\<lambda>(u, vs). fold (push_back u) vs) es tr) = fst ` set tr \<and>
   set (neighbors (fold (\<lambda>(u, vs). fold (push_back u) vs) es tr) v) =
     set (neighbors tr v) \<union> {u. v \<in> fst ` set tr \<and> (\<exists>vs. (u, vs) \<in> set es \<and> v \<in> set vs)}"
proof (induction es arbitrary: tr)
  case (Cons e es)
  obtain u vs where e: "e = (u, vs)" by (cases e)
  show ?case
    using Cons.IH[of "fold (push_back u) vs tr"] push_all[of u vs tr v] by (auto simp: e)
qed simp

lemma transpose_neighbors:
  assumes "distinct (map fst adj)"
  shows "u \<in> set (neighbors (buildTranspose adj) v) \<longleftrightarrow> v \<in> fst ` set adj \<and> edge adj u v"
proof -
  let ?tr = "map (\<lambda>(node, _). (node, [])) adj :: adjacency"
  have "neighbors ?tr v = []" by (auto simp: neighbors_def split: option.splits dest!: map_of_SomeD)
  moreover have "fst ` set ?tr = fst ` set adj" by force
  moreover have "(\<exists>vs. (u, vs) \<in> set adj \<and> v \<in> set vs) \<longleftrightarrow> edge adj u v"
    using assms by (auto simp: edge_def neighbors_def split: option.splits dest: map_of_SomeD)
  ultimately show ?thesis
    using transpose_fold[of adj ?tr v] by (auto simp: buildTranspose_def)
qed

section \<open>The second pass\<close>

lemma component_loop_spec:
  assumes "component_loop tr stack assigned component = (assigned', c)"
    and "set assigned = A \<union> set component \<union> set stack" "A \<inter> (set component \<union> set stack) = {}"
    and "distinct (component @ stack)" "list_all (finished tr (set assigned)) component"
    and "set component \<union> set stack \<subseteq> R" "\<And>x y. x \<in> R \<Longrightarrow> edge tr x y \<Longrightarrow> y \<notin> A \<Longrightarrow> y \<in> R"
  shows "set assigned' = A \<union> set c \<and> A \<inter> set c = {} \<and> distinct c \<and> list_all (finished tr (set assigned')) c \<and>
      set component \<union> set stack \<subseteq> set c \<and> set c \<subseteq> R"
  using assms
proof (induction tr stack assigned component rule: component_loop.induct)
  case (1 tr assigned component)
  then show ?case by (simp add: component_loop.simps)
next
  case (2 tr node stack assigned component)
  obtain as st where f: "fold claim_step (neighbors tr node) (assigned, stack) = (as, st)" by fastforce
  from claim_fold[OF f] obtain new where new: "as = new @ assigned" "st = new @ stack"
      "set new = set (neighbors tr node) - set assigned" "distinct new" by blast
  have l: "component_loop tr st as (component @ [node]) = (assigned', c)"
    using "2.prems"(1) f by (simp add: component_loop.simps)
  have R: "set new \<subseteq> R"
    using "2.prems"(2,6,7) new(3) by (auto simp: edge_def)
  have "finished tr (set as) node" using new by (auto simp: finished_def)
  moreover have "list_all (finished tr (set as)) component"
    using "2.prems"(5) new(1) by (intro more_visited(1)[OF "2.prems"(5)]) auto
  ultimately have 5: "list_all (finished tr (set as)) (component @ [node])" by simp
  have a: "set as = A \<union> set (component @ [node]) \<union> set st" using "2.prems"(2) new(1,2) by auto
  have b: "A \<inter> (set (component @ [node]) \<union> set st) = {}" using "2.prems"(2,3) new(2,3) by auto
  have c: "distinct ((component @ [node]) @ st)" using "2.prems"(2,4) new(2-4) by auto
  have d: "set (component @ [node]) \<union> set st \<subseteq> R" using "2.prems"(6) R new(2) by auto
  have "set assigned' = A \<union> set c \<and> A \<inter> set c = {} \<and> distinct c \<and> list_all (finished tr (set assigned')) c \<and>
      set (component @ [node]) \<union> set st \<subseteq> set c \<and> set c \<subseteq> R"
    by (rule "2.IH"[OF f[symmetric] refl l a b c 5 d "2.prems"(7)])
  with new(2) show ?case by auto
qed

lemma last_of_component:
  assumes "order_ok adj order {}" "x \<in> set order"
  obtains ps d ss where "order = ps @ d # ss" "mutual adj x d" "\<And>y. reach adj d y \<Longrightarrow> y = d \<or> y \<in> set ps"
proof -
  have "\<exists>d \<in> set order. mutual adj x d" using assms(2) by (intro bexI[of _ x]) simp_all
  from split_list_last_prop[OF this] obtain ps d ss where
    s: "order = ps @ d # ss" "mutual adj x d" "\<forall>z \<in> set ss. \<not> mutual adj x z" by blast
  have "finished_before adj d ps (set ss)" using assms(1) s(1) by (simp add: order_ok_def)
  with s(2,3) have "reach adj d y \<Longrightarrow> y = d \<or> y \<in> set ps" for y
    unfolding finished_before_def using mutual_trans by blast
  with s that show thesis by blast
qed

lemma root_component:
  assumes adj: "distinct (map fst adj)" and order: "order_ok adj order {}" "distinct order" "set order = verts adj"
    and split: "order = ps @ root # later" "set later \<subseteq> A" "root \<notin> A"
    and closed: "\<And>x y. x \<in> A \<Longrightarrow> mutual adj x y \<Longrightarrow> y \<in> A"
    and loop: "component_loop (buildTranspose adj) [root] assigned [] = (assigned', c)" "set assigned = insert root A"
  shows "set c = {y. mutual adj root y}" "set assigned' = A \<union> set c" "distinct c" "A \<inter> set c = {}"
proof -
  let ?R = "{y. reach adj y root \<and> y \<notin> A}"
  have step: "edge (buildTranspose adj) x y \<longleftrightarrow> x \<in> fst ` set adj \<and> edge adj y x" for x y
    using transpose_neighbors[OF adj] by (simp add: edge_def)
  have R: "y \<in> ?R" if "x \<in> ?R" "edge (buildTranspose adj) x y" "y \<notin> A" for x y
    using that by (auto simp: step intro: converse_rtranclp_into_rtranclp)
  have spec: "set assigned' = A \<union> set c \<and> A \<inter> set c = {} \<and> distinct c \<and>
      list_all (finished (buildTranspose adj) (set assigned')) c \<and> set [] \<union> set [root] \<subseteq> set c \<and> set c \<subseteq> ?R"
    by (rule component_loop_spec[OF loop(1), where A = A]) (use loop(2) split(3) R in auto)
  then show "set assigned' = A \<union> set c" "distinct c" "A \<inter> set c = {}" by auto
  have up: "y \<in> set c" if "reach adj y root" "reach adj root y" for y
    using that
  proof (induction rule: converse_rtranclp_induct)
    case base
    then show ?case using spec by simp
  next
    case (step y z)
    have z: "z \<in> set c" using step(2,3,4) \<open>edge adj y z\<close> by (meson rtranclp.rtrancl_into_rtrancl)
    have "reach adj z y" using step(2,4) by (meson rtranclp_trans)
    then have "z \<in> fst ` set adj" using edge_key[OF step(1)] reach_key[of adj z y] by metis
    then have "edge (buildTranspose adj) z y" using step(1) \<open>\<And>x y. edge (buildTranspose adj) x y \<longleftrightarrow> x \<in> fst ` set adj \<and> edge adj y x\<close> by blast
    with spec z have "y \<in> A \<union> set c" using finished_edge by metis
    moreover have "y \<notin> A"
    proof
      assume "y \<in> A"
      moreover have "mutual adj y root"
        using step by (auto simp: mutual_def intro: converse_rtranclp_into_rtranclp)
      ultimately show False using closed split(3) by blast
    qed
    ultimately show ?case by simp
  qed
  have down: "mutual adj root y" if y: "reach adj y root" "y \<notin> A" for y
  proof -
    have "root \<in> set order" using split(1) by simp
    then have "y \<in> set order" using y(1) order(3) reach_key[of adj y root] by (auto simp: verts_def)
    from last_of_component[OF order(1) this] obtain qs d ss where
      d: "order = qs @ d # ss" "mutual adj y d" "\<And>z. reach adj d z \<Longrightarrow> z = d \<or> z \<in> set qs" by metis
    have "reach adj d root" using d(2) y(1) by (auto simp: mutual_def)
    have "root = d"
    proof (rule ccontr)
      assume "root \<noteq> d"
      with d(3)[OF \<open>reach adj d root\<close>] obtain q1 q2 where "qs = q1 @ root # q2" by (metis split_list)
      then have eq: "ps @ root # later = q1 @ root # (q2 @ d # ss)" using d(1) split(1) by simp
      have "root \<notin> set ps" "root \<notin> set later" using split(1) order(2) by auto
      with eq have "later = q2 @ d # ss" by (simp add: append_Cons_eq_iff)
      with split(2) have "d \<in> A" by auto
      with closed[of d y] d(2) y(2) show False by (auto dest: mutual_sym)
    qed
    with d(2) show ?thesis by (simp add: mutual_sym)
  qed
  show "set c = {y. mutual adj root y}"
    using spec up down by (auto simp: mutual_def)
qed

lemma components_from_spec:
  assumes "distinct (map fst adj)" "order_ok adj order {}" "distinct order" "set order = verts adj"
  shows "order = rev roots @ later \<Longrightarrow> set later \<subseteq> set assigned \<Longrightarrow> set assigned \<subseteq> verts adj \<Longrightarrow>
    (\<And>x y. x \<in> set assigned \<Longrightarrow> mutual adj x y \<Longrightarrow> y \<in> set assigned) \<Longrightarrow>
    distinct (concat (components_from (buildTranspose adj) roots assigned)) \<and>
    set (concat (components_from (buildTranspose adj) roots assigned)) = verts adj - set assigned \<and>
    list_all (\<lambda>c. \<exists>x. set c = {y. mutual adj x y}) (components_from (buildTranspose adj) roots assigned)"
proof (induction roots arbitrary: later assigned)
  case Nil
  then show ?case using assms(4) by auto
next
  case (Cons root roots)
  have order: "order = rev roots @ root # later" using Cons.prems(1) by simp
  show ?case
  proof (cases "root \<in> set assigned")
    case True
    with Cons.IH[OF order] Cons.prems(2-4) show ?thesis by simp
  next
    case False
    obtain as c where l: "component_loop (buildTranspose adj) [root] (root # assigned) [] = (as, c)" by fastforce
    have comp: "set c = {y. mutual adj root y}" "set as = set assigned \<union> set c" "distinct c" "set assigned \<inter> set c = {}"
      using root_component[OF assms order Cons.prems(2) False Cons.prems(4) l] by auto
    have root: "root \<in> verts adj" using order assms(4) by auto
    have verts: "set c \<subseteq> verts adj"
      using comp(1) root reach_verts by (fastforce simp: mutual_def)
    have "y \<in> set as" if "x \<in> set as" "mutual adj x y" for x y
    proof (cases "x \<in> set assigned")
      case True
      then show ?thesis using Cons.prems(4)[OF True that(2)] comp(2) by blast
    next
      case False
      then have "mutual adj root x" using that(1) comp(1,2) by blast
      then have "mutual adj root y" using that(2) by (rule mutual_trans)
      then show ?thesis using comp(1,2) by blast
    qed
    moreover have "set (root # later) \<subseteq> set as" using Cons.prems(2) comp(1,2) by auto
    moreover have "set as \<subseteq> verts adj" using comp(2) verts Cons.prems(3) by auto
    ultimately have IH: "distinct (concat (components_from (buildTranspose adj) roots as)) \<and>
      set (concat (components_from (buildTranspose adj) roots as)) = verts adj - set as \<and>
      list_all (\<lambda>c. \<exists>x. set c = {y. mutual adj x y}) (components_from (buildTranspose adj) roots as)"
      using Cons.IH[OF order, of as] by blast
    have "components_from (buildTranspose adj) (root # roots) assigned = c # components_from (buildTranspose adj) roots as"
      using False l by simp
    with IH comp verts show ?thesis by auto
  qed
qed

text \<open>What it is to be the list of the strongly connected components of a graph.\<close>

definition scc_partition :: "adjacency \<Rightarrow> string list list \<Rightarrow> bool" where
  "scc_partition adj cs \<longleftrightarrow> distinct (concat cs) \<and> set (concat cs) = verts adj \<and>
     (\<forall>u v. (\<exists>c \<in> set cs. u \<in> set c \<and> v \<in> set c) \<longleftrightarrow> u \<in> verts adj \<and> mutual adj u v)"

lemma sccs_correct:
  assumes "distinct (map fst adj)"
  shows "scc_partition adj (stronglyConnectedComponents adj)"
proof -
  let ?cs = "stronglyConnectedComponents adj"
  have spec: "distinct (concat ?cs)" "set (concat ?cs) = verts adj"
      "list_all (\<lambda>c. \<exists>x. set c = {y. mutual adj x y}) ?cs"
    using components_from_spec[OF assms finishOrder_ok(3,1,2)[OF assms], of "rev (finishOrder adj)" "[]" "[]"]
    by (simp_all add: stronglyConnectedComponents_def assignComponents_def)
  have "(\<exists>c \<in> set ?cs. u \<in> set c \<and> v \<in> set c) \<longleftrightarrow> u \<in> verts adj \<and> mutual adj u v" for u v
  proof
    assume "\<exists>c \<in> set ?cs. u \<in> set c \<and> v \<in> set c"
    then obtain c x where "c \<in> set ?cs" "set c = {y. mutual adj x y}" "u \<in> set c" "v \<in> set c"
      using spec(3) by (auto simp: list_all_iff)
    then show "u \<in> verts adj \<and> mutual adj u v"
      using spec(2) by (auto intro: mutual_trans mutual_sym)
  next
    assume uv: "u \<in> verts adj \<and> mutual adj u v"
    then obtain c where c: "c \<in> set ?cs" "u \<in> set c" using spec(2) by auto
    then obtain x where "set c = {y. mutual adj x y}" using spec(3) by (auto simp: list_all_iff)
    with uv c show "\<exists>c \<in> set ?cs. u \<in> set c \<and> v \<in> set c"
      by (auto intro: mutual_trans intro!: bexI[of _ c])
  qed
  with spec show ?thesis by (simp add: scc_partition_def)
qed

section \<open>What is reported as a cycle\<close>

text \<open>The node is on a cycle with another node.\<close>

definition on_cycle :: "adjacency \<Rightarrow> string \<Rightarrow> bool" where
  "on_cycle adj u \<longleftrightarrow> (\<exists>v. v \<noteq> u \<and> mutual adj u v)"

lemma on_cycle_verts: "on_cycle adj u \<Longrightarrow> u \<in> verts adj"
  unfolding on_cycle_def mutual_def by (metis UnI1 reach_key verts_def)

lemma distinct_buildAdjacency: "distinct (map fst (mg_edges g)) \<Longrightarrow> distinct (map fst (buildAdjacency g b))"
  by (simp add: buildAdjacency_def comp_def case_prod_unfold)

lemma same_component:
  assumes "scc_partition adj cs" "c \<in> set cs" "d \<in> set cs" "u \<in> set c" "u \<in> set d"
  shows "c = d"
proof (rule ccontr)
  assume "c \<noteq> d"
  with assms(1-3) have "set c \<inter> set d = {}" by (auto simp: scc_partition_def distinct_concat_iff)
  with assms(4,5) show False by blast
qed

lemma component_members:
  assumes "scc_partition adj cs" "c \<in> set cs" "u \<in> set c"
  shows "w \<in> set c \<longleftrightarrow> mutual adj u w"
proof
  assume "w \<in> set c"
  with assms show "mutual adj u w" unfolding scc_partition_def by blast
next
  assume "mutual adj u w"
  moreover have "u \<in> verts adj" using assms unfolding scc_partition_def by auto
  ultimately obtain d where d: "d \<in> set cs" "u \<in> set d" "w \<in> set d"
    using assms(1) unfolding scc_partition_def by blast
  with same_component[OF assms(1,2) d(1) assms(3) d(2)] show "w \<in> set c" by simp
qed

lemma long_component:
  assumes "scc_partition adj cs" "c \<in> set cs" "u \<in> set c"
  shows "isCycle c \<longleftrightarrow> on_cycle adj u"
proof
  have "distinct c" using assms(1,2) by (auto simp: scc_partition_def distinct_concat_iff)
  assume "isCycle c"
  then have "card (set c) \<ge> 2" using \<open>distinct c\<close> by (simp add: isCycle_def distinct_card)
  then have "\<not> set c \<subseteq> {u}" using card_mono[of "{u}" "set c"] by auto
  then obtain v where "v \<in> set c" "v \<noteq> u" by blast
  with assms show "on_cycle adj u" unfolding scc_partition_def on_cycle_def by blast
next
  assume "on_cycle adj u"
  then obtain v where v: "v \<noteq> u" "mutual adj u v" "u \<in> verts adj"
    using on_cycle_verts by (auto simp: on_cycle_def)
  with assms(1) obtain d where d: "d \<in> set cs" "u \<in> set d" "v \<in> set d" unfolding scc_partition_def by blast
  have "d = c" by (rule same_component[OF assms(1) d(1) assms(2) d(2) assms(3)])
  with d v(1) have "{u, v} \<subseteq> set c" by simp
  then have "card {u, v} \<le> length c" by (metis card_length card_mono finite_set le_trans)
  with v(1) show "isCycle c" by (simp add: isCycle_def)
qed

lemma cycle_components:
  assumes "scc_partition adj cs"
  shows "(\<exists>c \<in> set (filter isCycle cs). u \<in> set c \<and> v \<in> set c) \<longleftrightarrow> on_cycle adj u \<and> mutual adj u v"
  using assms long_component[OF assms] on_cycle_verts[of adj u] unfolding scc_partition_def by auto blast+

text \<open>
  C29: the first pass and the second pass of the stack-based algorithm together compute the strongly
  connected components: they partition the files, and two files are in one component exactly when
  each can be reached from the other.
\<close>

theorem kosaraju_correct:
  assumes "distinct (map fst adj)"
  shows "scc_partition adj (stronglyConnectedComponents adj)"
  using assms by (rule sccs_correct)

definition sample_graph :: module_graph where
  "sample_graph = \<lparr>mg_edges = [(''a'', [\<lparr>me_to = ''b'', me_typeOnly = False\<rparr>]),
     (''b'', [\<lparr>me_to = ''a'', me_typeOnly = False\<rparr>, \<lparr>me_to = ''c'', me_typeOnly = False\<rparr>]),
     (''c'', [\<lparr>me_to = ''d'', me_typeOnly = True\<rparr>]), (''d'', [\<lparr>me_to = ''c'', me_typeOnly = False\<rparr>])],
     mg_candidateCount = 5, mg_unresolvedCount = 0, mg_fileCount = 4, mg_tsconfigCount = 1\<rparr>"

theorem kosaraju_correct_witness:
  "scc_partition (buildAdjacency sample_graph True) [[''a'', ''b''], [''c'', ''d'']]"
proof -
  have "distinct (map fst (buildAdjacency sample_graph True))"
    and "stronglyConnectedComponents (buildAdjacency sample_graph True) = [[''a'', ''b''], [''c'', ''d'']]"
    by code_simp+
  with kosaraju_correct[of "buildAdjacency sample_graph True"] show ?thesis by simp
qed

text \<open>
  C30: the reported cycles mean what the report says. Two files are listed in one runtime cycle
  exactly when they are on a cycle of runtime imports together; they are listed in one type-only cycle
  exactly when they are on a cycle of all imports together and no file of that cycle is on a runtime
  cycle.
\<close>

theorem reported_cycles_exact:
  assumes "distinct (map fst (mg_edges g))"
  shows "((\<exists>c \<in> set (dc_runtimeCycles (findCycles lc g)). u \<in> set c \<and> v \<in> set c) \<longleftrightarrow>
      on_cycle (buildAdjacency g False) u \<and> mutual (buildAdjacency g False) u v) \<and>
    ((\<exists>c \<in> set (dc_typeOnlyCycles (findCycles lc g)). u \<in> set c \<and> v \<in> set c) \<longleftrightarrow>
      on_cycle (buildAdjacency g True) u \<and> mutual (buildAdjacency g True) u v \<and>
      (\<forall>w. mutual (buildAdjacency g True) u w \<longrightarrow> \<not> on_cycle (buildAdjacency g False) w))"
proof -
  let ?V = "buildAdjacency g False" and ?F = "buildAdjacency g True"
  let ?vs = "filter isCycle (stronglyConnectedComponents ?V)" and ?fs = "filter isCycle (stronglyConnectedComponents ?F)"
  note V = sccs_correct[OF distinct_buildAdjacency[OF assms], of False]
  note F = sccs_correct[OF distinct_buildAdjacency[OF assms], of True]
  have runtime: "w \<in> set (concat ?vs) \<longleftrightarrow> on_cycle ?V w" for w
    using cycle_components[OF V, of w w] by simp
  have free: "list_all (\<lambda>n. n \<notin> set (concat ?vs)) c \<longleftrightarrow> (\<forall>w. mutual ?F u w \<longrightarrow> \<not> on_cycle ?V w)"
    if "c \<in> set ?fs" "u \<in> set c" for c
    using component_members[OF F, of c u] that unfolding runtime list_all_iff by auto
  have "(\<exists>c \<in> set (dc_typeOnlyCycles (findCycles lc g)). u \<in> set c \<and> v \<in> set c) \<longleftrightarrow>
      (\<exists>c \<in> set ?fs. list_all (\<lambda>n. n \<notin> set (concat ?vs)) c \<and> u \<in> set c \<and> v \<in> set c)"
    by (auto simp: findCycles_def Let_def sortedCycle_def simp del: set_concat)
  also have "\<dots> \<longleftrightarrow> (\<exists>c \<in> set ?fs. u \<in> set c \<and> v \<in> set c) \<and> (\<forall>w. mutual ?F u w \<longrightarrow> \<not> on_cycle ?V w)"
    using free by blast
  finally show ?thesis
    unfolding cycle_components[OF F] using cycle_components[OF V, of u v]
    by (simp add: findCycles_def Let_def sortedCycle_def)
qed

theorem reported_cycles_exact_witness:
  "dc_runtimeCycles (findCycles codeUnitCompare sample_graph) = [[''a'', ''b'']] \<and>
   dc_typeOnlyCycles (findCycles codeUnitCompare sample_graph) = [[''c'', ''d'']] \<and>
   on_cycle (buildAdjacency sample_graph False) ''a'' \<and> mutual (buildAdjacency sample_graph True) ''c'' ''d''"
proof -
  have d: "distinct (map fst (mg_edges sample_graph))" by code_simp
  have c: "dc_runtimeCycles (findCycles codeUnitCompare sample_graph) = [[''a'', ''b'']]"
    "dc_typeOnlyCycles (findCycles codeUnitCompare sample_graph) = [[''c'', ''d'']]"
    by code_simp+
  from reported_cycles_exact[OF d, of codeUnitCompare "''a''" "''b''"] reported_cycles_exact[OF d, of codeUnitCompare "''c''" "''d''"]
  show ?thesis unfolding c by simp
qed

end
