(* ===== verification/LayerDirection.thy ===== *)
theory LayerDirection
  imports ImportCycles
begin

text \<open>
  \<open>drift-ai/layer-direction.ts\<close> and \<open>layer-direction-check.ts\<close>: the second client of the module
  graph. An edge that matches a rule and is not an allowed exception is a finding; rules whose
  prefixes match no file are named on stderr.
\<close>

record layer_rule =
  lr_id :: string
  lr_sourceLayer :: string
  lr_sourcePrefix :: string
  lr_targetLayer :: string
  lr_targetPrefix :: string
  lr_hint :: string

record layer_config =
  ld_rules :: "layer_rule list"
  ld_allowedEdges :: "(string \<times> string) list"

definition edgeKey :: "string \<Rightarrow> string \<Rightarrow> string" where
  "edgeKey source target = toPosix source @ '' -> '' @ toPosix target"

definition LAYER_DIRECTION_PROVENANCE :: finding_provenance where
  "LAYER_DIRECTION_PROVENANCE =
     \<lparr>fp_configSource = DriftBaseline, fp_tool = ''ts-morph'', fp_configPath = Some ''server layer-direction rules''\<rparr>"

definition matching_rule :: "layer_rule list \<Rightarrow> string \<Rightarrow> string \<Rightarrow> layer_rule option" where
  "matching_rule rules source target =
     List.find (\<lambda>r. prefix (lr_sourcePrefix r) source \<and> prefix (lr_targetPrefix r) target) rules"

definition findingForEdge ::
    "string \<Rightarrow> module_edge \<Rightarrow> layer_rule list \<Rightarrow> string list \<Rightarrow> drift_finding option" where
  "findingForEdge source e rules allowedEdges =
     (let target = toPosix (me_to e)
      in if edgeKey source target \<in> set allowedEdges then None
         else case matching_rule rules source target of
                None \<Rightarrow> None
              | Some r \<Rightarrow> Some
                  \<lparr>df_check = ''layer-direction'', df_file = source,
                   df_message = ''server '' @ lr_sourceLayer r @ '' '' @ (if me_typeOnly e then ''type-only '' else [])
                     @ ''imports disallowed '' @ lr_targetLayer r @ '' layer file '' @ target,
                   df_hint = Some (lr_hint r), df_relatedFiles = Some [target],
                   df_details = Some (LayerDetails (lr_id r) (lr_sourceLayer r) (lr_targetLayer r) target (me_typeOnly e)),
                   df_provenance = Some LAYER_DIRECTION_PROVENANCE\<rparr>)"

definition file_findings ::
    "layer_config \<Rightarrow> detector_scope \<Rightarrow> string \<times> module_edge list \<Rightarrow> drift_finding list" where
  "file_findings config scope = (\<lambda>(rawFrom, edges).
     filter (in_scope scope)
       (List.map_filter (\<lambda>e. findingForEdge (toPosix rawFrom) e (ld_rules config)
          (map (\<lambda>(source, target). edgeKey source target) (ld_allowedEdges config))) edges))"

definition buildLayerDirectionFindings ::
    "string cmp \<Rightarrow> module_graph \<Rightarrow> detector_scope \<Rightarrow> layer_config \<Rightarrow> drift_finding list" where
  "buildLayerDirectionFindings lc g scope config =
     sortFindingsByFileMessage lc (concat (map (file_findings config scope) (mg_edges g)))"

definition graph_paths :: "module_graph \<Rightarrow> string list" where
  "graph_paths g = concat (map (\<lambda>(rawFrom, edges). toPosix rawFrom # map (toPosix \<circ> me_to) edges) (mg_edges g))"

definition findInertLayerDirectionRuleIds :: "module_graph \<Rightarrow> layer_rule list \<Rightarrow> string list" where
  "findInertLayerDirectionRuleIds g rules =
     (let matchesAny = (\<lambda>p. list_ex (prefix p) (graph_paths g))
      in map lr_id (filter (\<lambda>r. \<not> matchesAny (lr_sourcePrefix r) \<or> \<not> matchesAny (lr_targetPrefix r)) rules))"

definition buildLayerDirectionGraphErrorFinding :: "string \<Rightarrow> drift_finding" where
  "buildLayerDirectionGraphErrorFinding err =
     \<lparr>df_check = ''layer-direction'', df_file = ''.'',
      df_message = ''layer-direction could not build the module graph ('' @ err @ '')'',
      df_hint = Some ''report-only: re-run locally to inspect the failure; layer-direction is otherwise not reported for this run.'',
      df_relatedFiles = None, df_details = None, df_provenance = None\<rparr>"

text \<open>The check: its outcome and what it writes to stderr.\<close>

definition inert_warning :: "string list \<Rightarrow> string" where
  "inert_warning inert =
     ''drift:ai: layer-direction rule(s) ['' @ js_join '', '' inert @ ''] matched zero files in the module graph; their empty result is not evidence ''
     @ em_dash @ '' check sourcePrefix/targetPrefix against this repo's layout.''"

definition warnForInertRules :: "layer_config \<Rightarrow> module_graph \<Rightarrow> string list" where
  "warnForInertRules config g =
     (let inert = findInertLayerDirectionRuleIds g (ld_rules config)
      in if inert = [] then [] else [inert_warning inert])"

definition runLayerDirectionCheck ::
    "string cmp \<Rightarrow> percentage \<Rightarrow> (string option \<Rightarrow> graph_result) \<Rightarrow> bool \<Rightarrow> string option \<Rightarrow> detector_scope \<Rightarrow>
     layer_config \<Rightarrow> check_outcome \<times> string list" where
  "runLayerDirectionCheck lc pct moduleGraph targetInstalled tsconfigOverride scope config =
     (case moduleGraph tsconfigOverride of
        GraphSkip reason code \<Rightarrow> (Skipped reason code, [])
      | GraphError err \<Rightarrow> (Ran [buildLayerDirectionGraphErrorFinding err], [])
      | GraphOk g \<Rightarrow>
          (case assessGraph pct g targetInstalled of
             AssessSkip reason code \<Rightarrow> (Skipped reason code, [])
           | AssessOk \<Rightarrow> (Ran (buildLayerDirectionFindings lc g scope config), warnForInertRules config g)))"

section \<open>Laws\<close>

text \<open>
  What the detector is asked for, stated on the configuration alone: \<open>r\<close> is the first rule whose
  source prefix starts the source and whose target prefix starts the target, and the pair is not an
  allowed exception; a limited scope keeps the pairs with a changed file.
\<close>

definition covers :: "layer_rule \<Rightarrow> string \<Rightarrow> string \<Rightarrow> bool" where
  "covers r source target \<longleftrightarrow>
     (\<exists>rest. source = lr_sourcePrefix r @ rest) \<and> (\<exists>rest. target = lr_targetPrefix r @ rest)"

definition violates :: "layer_config \<Rightarrow> string \<Rightarrow> string \<Rightarrow> layer_rule \<Rightarrow> bool" where
  "violates config source target r \<longleftrightarrow>
     (\<exists>earlier later. ld_rules config = earlier @ r # later \<and> covers r source target \<and>
        (\<forall>s \<in> set earlier. \<not> covers s source target)) \<and>
     (\<nexists>s d. (s, d) \<in> set (ld_allowedEdges config) \<and>
        toPosix s @ '' -> '' @ toPosix d = toPosix source @ '' -> '' @ toPosix target)"

definition touched_by :: "detector_scope \<Rightarrow> string \<Rightarrow> string \<Rightarrow> bool" where
  "touched_by scope source target \<longleftrightarrow>
     (case scope of
        CurrentScope _ \<Rightarrow> True
      | ChangedScope files \<Rightarrow> \<exists>f \<in> set files. toPosix (cf_path f) = source \<or> toPosix (cf_path f) = target)"

lemma find_here: "\<forall>y \<in> set ys. \<not> P y \<Longrightarrow> P x \<Longrightarrow> List.find P (ys @ x # zs) = Some x"
  by (induction ys) auto

lemma find_split: "List.find P xs = Some x \<Longrightarrow> \<exists>ys zs. xs = ys @ x # zs \<and> P x \<and> (\<forall>y \<in> set ys. \<not> P y)"
proof (induction xs)
  case (Cons a xs)
  show ?case
  proof (cases "P a")
    case True
    with Cons.prems have "a # xs = [] @ x # xs \<and> P x" by simp
    then show ?thesis by (metis empty_iff list.set(1))
  next
    case False
    with Cons obtain ys zs where "xs = ys @ x # zs \<and> P x \<and> (\<forall>y \<in> set ys. \<not> P y)" by auto
    with False have "a # xs = (a # ys) @ x # zs \<and> P x \<and> (\<forall>y \<in> set (a # ys). \<not> P y)" by simp
    then show ?thesis by metis
  qed
qed simp

lemma find_first: "List.find P xs = Some x \<longleftrightarrow> (\<exists>ys zs. xs = ys @ x # zs \<and> P x \<and> (\<forall>y \<in> set ys. \<not> P y))"
  using find_here[of _ P x] find_split[of P xs x] by blast

lemma matching_rule_first:
  "matching_rule rules source target = Some r \<longleftrightarrow>
     (\<exists>earlier later. rules = earlier @ r # later \<and> covers r source target \<and> (\<forall>s \<in> set earlier. \<not> covers s source target))"
  unfolding matching_rule_def find_first by (simp add: covers_def prefix_def)

lemma violates_iff:
  "violates config source target r \<longleftrightarrow>
     matching_rule (ld_rules config) source target = Some r \<and>
     edgeKey source target \<notin> set (map (\<lambda>(s, d). edgeKey s d) (ld_allowedEdges config))"
proof -
  have "edgeKey source target \<in> set (map (\<lambda>(s, d). edgeKey s d) (ld_allowedEdges config)) \<longleftrightarrow>
      (\<exists>s d. (s, d) \<in> set (ld_allowedEdges config) \<and> edgeKey s d = edgeKey source target)" by force
  then show ?thesis unfolding violates_def matching_rule_first edgeKey_def[symmetric] by simp
qed

definition layer_finding :: "string \<Rightarrow> module_edge \<Rightarrow> layer_rule \<Rightarrow> drift_finding" where
  "layer_finding source e r =
     \<lparr>df_check = ''layer-direction'', df_file = source,
      df_message = ''server '' @ lr_sourceLayer r @ '' '' @ (if me_typeOnly e then ''type-only '' else [])
        @ ''imports disallowed '' @ lr_targetLayer r @ '' layer file '' @ toPosix (me_to e),
      df_hint = Some (lr_hint r), df_relatedFiles = Some [toPosix (me_to e)],
      df_details = Some (LayerDetails (lr_id r) (lr_sourceLayer r) (lr_targetLayer r) (toPosix (me_to e)) (me_typeOnly e)),
      df_provenance = Some LAYER_DIRECTION_PROVENANCE\<rparr>"

lemma finding_of_edge:
  "findingForEdge source e (ld_rules config) (map (\<lambda>(s, d). edgeKey s d) (ld_allowedEdges config)) = Some f \<longleftrightarrow>
   (\<exists>r. violates config source (toPosix (me_to e)) r \<and> f = layer_finding source e r)"
  unfolding violates_iff findingForEdge_def Let_def layer_finding_def by (auto split: option.split)

lemma layer_finding_fields [simp]:
  "df_file (layer_finding source e r) = source" "df_relatedFiles (layer_finding source e r) = Some [toPosix (me_to e)]"
  "df_details (layer_finding source e r) =
     Some (LayerDetails (lr_id r) (lr_sourceLayer r) (lr_targetLayer r) (toPosix (me_to e)) (me_typeOnly e))"
  by (simp_all add: layer_finding_def)

lemma scope_of_finding:
  "df_relatedFiles f = Some [target] \<Longrightarrow> in_scope scope f \<longleftrightarrow> touched_by scope (df_file f) target"
  by (cases scope) (auto simp: in_scope_def touched_by_def Let_def image_iff eq_commute)

lemma set_layer_findings:
  "f \<in> set (buildLayerDirectionFindings lc g scope config) \<longleftrightarrow>
   (\<exists>rawFrom es e. (rawFrom, es) \<in> set (mg_edges g) \<and> e \<in> set es \<and> in_scope scope f \<and>
      findingForEdge (toPosix rawFrom) e (ld_rules config) (map (\<lambda>(s, d). edgeKey s d) (ld_allowedEdges config)) = Some f)"
  by (auto simp: buildLayerDirectionFindings_def sortFindingsByFileMessage_def file_findings_def set_map_filter_option)

text \<open>
  C31: the exact findings, in both scopes. A finding on a file, with a target and the details of a
  rule, is in the report exactly when the graph has an edge between the two (as normalised paths), the
  rule is the first one whose two prefixes start the two paths, the pair is not an allowed exception,
  and, when the scope is limited, one of the two files was changed.
\<close>

theorem layer_findings_exact:
  "(\<exists>f \<in> set (buildLayerDirectionFindings lc g scope config).
      df_file f = source \<and> df_relatedFiles f = Some [target] \<and>
      df_details f = Some (LayerDetails ruleId sourceLayer targetLayer target typeOnly)) \<longleftrightarrow>
   touched_by scope source target \<and>
   (\<exists>rawFrom es e r. (rawFrom, es) \<in> set (mg_edges g) \<and> e \<in> set es \<and>
      toPosix rawFrom = source \<and> toPosix (me_to e) = target \<and> me_typeOnly e = typeOnly \<and>
      violates config source target r \<and> lr_id r = ruleId \<and> lr_sourceLayer r = sourceLayer \<and> lr_targetLayer r = targetLayer)"
  (is "?reported \<longleftrightarrow> ?asked")
proof
  assume ?reported
  then obtain f rawFrom es e where f: "df_file f = source" "df_relatedFiles f = Some [target]"
      "df_details f = Some (LayerDetails ruleId sourceLayer targetLayer target typeOnly)"
      "(rawFrom, es) \<in> set (mg_edges g)" "e \<in> set es" "in_scope scope f"
      "findingForEdge (toPosix rawFrom) e (ld_rules config) (map (\<lambda>(s, d). edgeKey s d) (ld_allowedEdges config)) = Some f"
    unfolding set_layer_findings Bex_def by blast
  moreover from f(2,6) have "touched_by scope source target" by (simp add: scope_of_finding f(1))
  moreover from f(7) obtain r where "violates config (toPosix rawFrom) (toPosix (me_to e)) r" "df_file f = toPosix rawFrom"
      "df_relatedFiles f = Some [toPosix (me_to e)]"
      "df_details f = Some (LayerDetails (lr_id r) (lr_sourceLayer r) (lr_targetLayer r) (toPosix (me_to e)) (me_typeOnly e))"
    unfolding finding_of_edge by auto
  ultimately show ?asked by auto
next
  assume ?asked
  then obtain rawFrom es e r where e: "touched_by scope source target" "(rawFrom, es) \<in> set (mg_edges g)" "e \<in> set es"
      "toPosix rawFrom = source" "toPosix (me_to e) = target" "me_typeOnly e = typeOnly" "violates config source target r"
      "lr_id r = ruleId" "lr_sourceLayer r = sourceLayer" "lr_targetLayer r = targetLayer" by blast
  then have f: "findingForEdge (toPosix rawFrom) e (ld_rules config) (map (\<lambda>(s, d). edgeKey s d) (ld_allowedEdges config)) =
      Some (layer_finding source e r)" (is "_ = Some ?f")
    unfolding finding_of_edge by auto
  have "in_scope scope ?f" using e by (simp add: scope_of_finding)
  with e f have "?f \<in> set (buildLayerDirectionFindings lc g scope config)" unfolding set_layer_findings by blast
  moreover have "df_file ?f = source \<and> df_relatedFiles ?f = Some [target] \<and>
      df_details ?f = Some (LayerDetails ruleId sourceLayer targetLayer target typeOnly)" using e by simp
  ultimately show ?reported by blast
qed

text \<open>A rule that is reported as inert has no violation in the graph.\<close>

lemma inert_rule_silent:
  assumes "r \<in> set rules" "lr_id r \<in> set (findInertLayerDirectionRuleIds g rules)" "distinct (map lr_id rules)"
    and "(rawFrom, es) \<in> set (mg_edges g)" "e \<in> set es"
  shows "\<not> (prefix (lr_sourcePrefix r) (toPosix rawFrom) \<and> prefix (lr_targetPrefix r) (toPosix (me_to e)))"
proof -
  obtain s where "s \<in> set rules" "lr_id s = lr_id r"
    "\<not> list_ex (prefix (lr_sourcePrefix s)) (graph_paths g) \<or> \<not> list_ex (prefix (lr_targetPrefix s)) (graph_paths g)"
    using assms(2) by (auto simp: findInertLayerDirectionRuleIds_def Let_def)
  moreover from this assms(1,3) have "s = r" by (metis distinct_map inj_onD)
  moreover have "toPosix rawFrom \<in> set (graph_paths g)" "toPosix (me_to e) \<in> set (graph_paths g)"
    using assms(4,5) by (auto simp: graph_paths_def intro!: bexI[of _ "(rawFrom, es)"])
  ultimately show ?thesis by (auto simp: list_ex_iff)
qed

end
