(* ===== verification/MinHash.thy ===== *)
theory MinHash
  imports DriftPrelude
begin

text \<open>
  \<open>drift-ai/minhash-lsh.ts\<close>: MinHash signatures and the banding that proposes pairs of similar
  documents. Hashes are 32-bit words (\<open>>>> 0\<close> reads them unsigned, as \<open><\<close> on words does).
  \<open>lc\<close> is \<open>localeCompare\<close>; \<open>rnd a n\<close> is \<open>Math.round((a / n) * 1000)\<close>, the only computation on
  doubles, so a similarity is a number of thousandths.
\<close>

unbundle bit_operations_syntax

section \<open>Configuration\<close>

record minhash_config =
  mh_shingleSize :: nat
  mh_bands :: nat
  mh_rowsPerBand :: nat
  mh_maxShinglesPerDocument :: nat
  mh_maxCandidatePairs :: nat

text \<open>A number that a caller may pass: an integer, or anything that \<open>Number.isInteger\<close> refuses.\<close>

datatype js_number = Integer int | NotInteger

record minhash_options =
  mo_shingleSize :: "js_number option"
  mo_bands :: "js_number option"
  mo_rowsPerBand :: "js_number option"
  mo_maxShinglesPerDocument :: "js_number option"
  mo_maxCandidatePairs :: "js_number option"

definition DEFAULT_MINHASH_CONFIG :: minhash_config where
  "DEFAULT_MINHASH_CONFIG = \<lparr>mh_shingleSize = 3, mh_bands = 24, mh_rowsPerBand = 4,
     mh_maxShinglesPerDocument = 4096, mh_maxCandidatePairs = 50000\<rparr>"

definition positiveInt :: "js_number option \<Rightarrow> nat \<Rightarrow> nat" where
  "positiveInt v fallback = (case v of Some (Integer i) \<Rightarrow> if i \<le> 0 then fallback else nat i | _ \<Rightarrow> fallback)"

definition resolveMinHashConfig :: "minhash_options \<Rightarrow> minhash_config" where
  "resolveMinHashConfig opts =
     \<lparr>mh_shingleSize = positiveInt (mo_shingleSize opts) (mh_shingleSize DEFAULT_MINHASH_CONFIG),
      mh_bands = positiveInt (mo_bands opts) (mh_bands DEFAULT_MINHASH_CONFIG),
      mh_rowsPerBand = positiveInt (mo_rowsPerBand opts) (mh_rowsPerBand DEFAULT_MINHASH_CONFIG),
      mh_maxShinglesPerDocument =
        positiveInt (mo_maxShinglesPerDocument opts) (mh_maxShinglesPerDocument DEFAULT_MINHASH_CONFIG),
      mh_maxCandidatePairs = positiveInt (mo_maxCandidatePairs opts) (mh_maxCandidatePairs DEFAULT_MINHASH_CONFIG)\<rparr>"

definition signatureLength :: "minhash_config \<Rightarrow> nat" where
  "signatureLength config = mh_bands config * mh_rowsPerBand config"

record minhash_document =
  md_id :: string
  md_features :: "string list"

section \<open>Shingles and signatures\<close>

definition buildShingles :: "string list \<Rightarrow> nat \<Rightarrow> string list" where
  "buildShingles features shingleSize =
     (let size = max 1 shingleSize
      in if features = [] then []
         else if length features \<le> size then [js_join ''|'' features]
         else js_set (map (\<lambda>i. js_join ''|'' (take size (drop i features))) [0..<length features - size + 1]))"

definition xorshift :: "nat \<Rightarrow> 32 word \<Rightarrow> 32 word" where
  "xorshift n h = h XOR drop_bit n h"

definition mix32 :: "32 word \<Rightarrow> 32 word" where
  "mix32 v =
     (let h1 = xorshift 16 v; h2 = h1 * 0x85ebca6b; h3 = xorshift 13 h2; h4 = h3 * 0xc2b2ae35
      in xorshift 16 h4)"

definition MAX_UINT32 :: "32 word" where
  "MAX_UINT32 = 0xffffffff"

definition lower_to :: "32 word \<Rightarrow> 32 word \<Rightarrow> 32 word \<Rightarrow> 32 word" where
  "lower_to base seed current = (let candidate = mix32 (base XOR seed) in if candidate < current then candidate else current)"

definition shingle_step :: "32 word list \<Rightarrow> string \<Rightarrow> 32 word list \<Rightarrow> 32 word list" where
  "shingle_step seeds shingle signature = map2 (lower_to (hashFeature32 shingle)) seeds signature"

definition computeSignature :: "string list \<Rightarrow> 32 word list \<Rightarrow> 32 word list" where
  "computeSignature shingles seeds = fold (shingle_step seeds) shingles (replicate (length seeds) MAX_UINT32)"

definition agreements :: "32 word list \<Rightarrow> 32 word list \<Rightarrow> nat" where
  "agreements l r = length (filter (\<lambda>(a, b). a = b) (zip l r))"

definition estimateSimilarity :: "(nat \<Rightarrow> nat \<Rightarrow> int) \<Rightarrow> 32 word list \<Rightarrow> 32 word list \<Rightarrow> int" where
  "estimateSimilarity rnd l r =
     (if l = [] \<or> length l \<noteq> length r then 0 else rnd (agreements l r) (length l))"

definition buildSeeds :: "nat \<Rightarrow> 32 word list" where
  "buildSeeds n = map (\<lambda>i. hashFeature32 (''minhash-seed:'' @ show_nat i)) [0..<n]"

section \<open>Documents\<close>

record prepared =
  pd_ids :: "string list"
  pd_signatures :: "32 word list list"
  pd_shingleTruncated :: nat

definition cappedShingles :: "string cmp \<Rightarrow> string list \<Rightarrow> nat \<Rightarrow> string list" where
  "cappedShingles lc shingles cap = (if length shingles \<le> cap then shingles else take cap (js_sort lc shingles))"

definition document_step ::
    "string cmp \<Rightarrow> minhash_config \<Rightarrow> 32 word list \<Rightarrow> minhash_document \<Rightarrow> prepared \<Rightarrow> prepared" where
  "document_step lc config seeds d st =
     (let built = buildShingles (md_features d) (mh_shingleSize config);
          shingles = cappedShingles lc built (mh_maxShinglesPerDocument config);
          st1 = (if length shingles < length built then st\<lparr>pd_shingleTruncated := pd_shingleTruncated st + 1\<rparr> else st)
      in if shingles = [] then st1
         else st1\<lparr>pd_ids := pd_ids st1 @ [md_id d], pd_signatures := pd_signatures st1 @ [computeSignature shingles seeds]\<rparr>)"

definition prepareDocuments ::
    "string cmp \<Rightarrow> minhash_document list \<Rightarrow> minhash_config \<Rightarrow> 32 word list \<Rightarrow> prepared" where
  "prepareDocuments lc documents config seeds =
     fold (document_step lc config seeds) (js_sort (\<lambda>l r. lc (md_id l) (md_id r)) documents)
       \<lparr>pd_ids = [], pd_signatures = [], pd_shingleTruncated = 0\<rparr>"

section \<open>Banding\<close>

type_synonym buckets = "(string \<times> nat list) list"

definition band_rows :: "minhash_config \<Rightarrow> 32 word list \<Rightarrow> nat \<Rightarrow> 32 word list" where
  "band_rows config signature band = take (mh_rowsPerBand config) (drop (band * mh_rowsPerBand config) signature)"

definition band_key :: "minhash_config \<Rightarrow> 32 word list \<Rightarrow> nat \<Rightarrow> string" where
  "band_key config signature band =
     show_nat band @ ''#'' @ js_join '','' (map (\<lambda>w. show_nat (unat w)) (band_rows config signature band))"

text \<open>The keys in the order of the two loops.\<close>

definition band_entries :: "prepared \<Rightarrow> minhash_config \<Rightarrow> (string \<times> nat) list" where
  "band_entries prep config =
     concat (map (\<lambda>d. map (\<lambda>band. (band_key config (pd_signatures prep ! d) band, d)) [0..<mh_bands config])
       [0..<length (pd_signatures prep)])"

definition bandBuckets :: "prepared \<Rightarrow> minhash_config \<Rightarrow> buckets" where
  "bandBuckets prep config = group_by_key (band_entries prep config)"

section \<open>Candidate pairs\<close>

record lsh_pair =
  lp_a :: string
  lp_b :: string
  lp_estimatedSimilarity :: int

type_synonym pair_map = "(string \<times> lsh_pair) list"

definition ordered_ids :: "string cmp \<Rightarrow> string \<Rightarrow> string \<Rightarrow> string \<times> string" where
  "ordered_ids lc l r = (if lc l r \<le> 0 then (l, r) else (r, l))"

definition pair_key :: "string \<times> string \<Rightarrow> string" where
  "pair_key p = fst p @ ''|'' @ snd p"

text \<open>The new map, and whether the cap was hit.\<close>

definition addCandidatePair ::
    "string cmp \<Rightarrow> (nat \<Rightarrow> nat \<Rightarrow> int) \<Rightarrow> prepared \<Rightarrow> nat \<times> nat \<Rightarrow> minhash_config \<Rightarrow> pair_map \<Rightarrow> pair_map \<times> bool" where
  "addCandidatePair lc rnd prep ij config pairs =
     (case (at_index (pd_ids prep) (fst ij), at_index (pd_ids prep) (snd ij),
            at_index (pd_signatures prep) (fst ij), at_index (pd_signatures prep) (snd ij)) of
        (Some leftId, Some rightId, Some leftSig, Some rightSig) \<Rightarrow>
          (let ab = ordered_ids lc leftId rightId; key = pair_key ab
           in if map_of pairs key \<noteq> None then (pairs, False)
              else if length pairs \<ge> mh_maxCandidatePairs config then (pairs, True)
              else (AList.update key \<lparr>lp_a = fst ab, lp_b = snd ab,
                      lp_estimatedSimilarity = estimateSimilarity rnd leftSig rightSig\<rparr> pairs, False))
      | _ \<Rightarrow> (pairs, False))"

text \<open>The pairs of a bucket, in the order of the two index loops; a bucket of one has none.\<close>

fun index_pairs :: "nat list \<Rightarrow> (nat \<times> nat) list" where
  "index_pairs [] = []"
| "index_pairs (i # is) = map (Pair i) is @ index_pairs is"

fun collect_loop ::
    "string cmp \<Rightarrow> (nat \<Rightarrow> nat \<Rightarrow> int) \<Rightarrow> prepared \<Rightarrow> minhash_config \<Rightarrow> (nat \<times> nat) list \<Rightarrow> pair_map \<Rightarrow> pair_map \<times> bool" where
  "collect_loop lc rnd prep config [] pairs = (pairs, False)"
| "collect_loop lc rnd prep config (ij # ijs) pairs =
     (let (pairs', truncated) = addCandidatePair lc rnd prep ij config pairs
      in if truncated then (pairs', True) else collect_loop lc rnd prep config ijs pairs')"

definition bucket_pairs :: "buckets \<Rightarrow> (nat \<times> nat) list" where
  "bucket_pairs buckets = concat (map (\<lambda>(_, indices). index_pairs indices) buckets)"

definition collectCandidatePairs ::
    "string cmp \<Rightarrow> (nat \<Rightarrow> nat \<Rightarrow> int) \<Rightarrow> prepared \<Rightarrow> buckets \<Rightarrow> minhash_config \<Rightarrow> pair_map \<times> bool" where
  "collectCandidatePairs lc rnd prep buckets config = collect_loop lc rnd prep config (bucket_pairs buckets) []"

definition compareCandidatePairs :: "string cmp \<Rightarrow> lsh_pair cmp" where
  "compareCandidatePairs lc l r =
     (let s = lp_estimatedSimilarity r - lp_estimatedSimilarity l; a = lc (lp_a l) (lp_a r)
      in if s \<noteq> 0 then s else if a \<noteq> 0 then a else lc (lp_b l) (lp_b r))"

record lsh_result =
  ls_candidates :: "lsh_pair list"
  ls_config :: minhash_config
  ls_consideredDocuments :: nat
  ls_totalDocuments :: nat
  ls_shingleTruncatedDocuments :: nat
  ls_candidatePairsTruncated :: bool

definition findLshCandidatePairs ::
    "string cmp \<Rightarrow> (nat \<Rightarrow> nat \<Rightarrow> int) \<Rightarrow> minhash_document list \<Rightarrow> minhash_options \<Rightarrow> lsh_result" where
  "findLshCandidatePairs lc rnd documents opts =
     (let config = resolveMinHashConfig opts;
          prep = prepareDocuments lc documents config (buildSeeds (signatureLength config));
          (pairs, truncated) = collectCandidatePairs lc rnd prep (bandBuckets prep config) config
      in \<lparr>ls_candidates = js_sort (compareCandidatePairs lc) (map snd pairs), ls_config = config,
          ls_consideredDocuments = length (pd_signatures prep), ls_totalDocuments = length documents,
          ls_shingleTruncatedDocuments = pd_shingleTruncated prep, ls_candidatePairsTruncated = truncated\<rparr>)"

end
