(* ===== verification/MinHashLaws.thy ===== *)
theory MinHashLaws
  imports MinHash
begin

text \<open>
  Properties of MinHash and its banding: the mixer is a permutation of the 32-bit words, a signature
  is the pointwise minimum over the set of shingles, and a run that was not truncated proposes
  exactly the pairs of documents whose signatures agree on a band.
\<close>

unbundle bit_operations_syntax

section \<open>The mixer\<close>

lemma drop_all_bits: "32 \<le> n \<Longrightarrow> drop_bit n (x :: 32 word) = 0"
  by (rule bit_eqI) (auto simp: bit_drop_bit_eq dest: bit_imp_le_length)

lemma xorshift_undo16: "xorshift 16 (xorshift 16 x) = x"
  by (simp add: xorshift_def drop_bit_xor drop_bit_drop_bit drop_all_bits xor.assoc)

lemma xorshift_undo13: "(let y = xorshift 13 x in y XOR drop_bit 13 y XOR drop_bit 26 y) = x"
  by (simp add: xorshift_def Let_def drop_bit_xor drop_bit_drop_bit drop_all_bits xor.assoc xor.left_commute)

lemma odd_factors: "(0x85ebca6b :: 32 word) * 0xa5cb9243 = 1" "(0xc2b2ae35 :: 32 word) * 0x7ed1b41d = 1"
  by simp_all

definition unmix32 :: "32 word \<Rightarrow> 32 word" where
  "unmix32 v =
     (let h3 = xorshift 16 v * 0x7ed1b41d; h2 = h3 XOR drop_bit 13 h3 XOR drop_bit 26 h3
      in xorshift 16 (h2 * 0xa5cb9243))"

lemma unmix_mix: "unmix32 (mix32 x) = x"
proof -
  have m: "y * 0x85ebca6b * 0xa5cb9243 = y" "y * 0xc2b2ae35 * 0x7ed1b41d = y" for y :: "32 word"
    using odd_factors by (simp_all only: mult.assoc mult_1_right)
  show ?thesis
    unfolding unmix32_def mix32_def Let_def xorshift_undo16 m xorshift_undo13[unfolded Let_def] ..
qed

text \<open>
  The mixer loses nothing: distinct words are mixed to distinct words, so that each seeded hash
  of the family distinguishes whatever the base hash distinguishes.
\<close>

theorem mix32_injective: "mix32 x = mix32 y \<longleftrightarrow> x = y"
  by (metis unmix_mix)

section \<open>Signatures\<close>

lemma lower_to_min: "lower_to h seed cur = min cur (mix32 (h XOR seed))"
  by (auto simp: lower_to_def Let_def min_def)

lemma length_shingles_fold [simp]:
  "length sig = length seeds \<Longrightarrow> length (fold (shingle_step seeds) ss sig) = length seeds"
  by (induction ss arbitrary: sig) (simp_all add: shingle_step_def)

lemma length_computeSignature [simp]: "length (computeSignature ss seeds) = length seeds"
  by (simp add: computeSignature_def)

lemma signature_fold:
  "length sig = length seeds \<Longrightarrow> i < length seeds \<Longrightarrow>
     fold (shingle_step seeds) ss sig ! i = Min (insert (sig ! i) ((\<lambda>s. mix32 (hashFeature32 s XOR seeds ! i)) ` set ss))"
proof (induction ss arbitrary: sig)
  case (Cons s ss)
  let ?h = "\<lambda>s. mix32 (hashFeature32 s XOR seeds ! i)"
  have "fold (shingle_step seeds) ss (shingle_step seeds s sig) ! i =
      Min (insert (shingle_step seeds s sig ! i) (?h ` set ss))"
    using Cons.prems by (intro Cons.IH) (simp_all add: shingle_step_def)
  also have "shingle_step seeds s sig ! i = min (sig ! i) (?h s)"
    using Cons.prems by (simp add: shingle_step_def lower_to_min)
  also have "Min (insert (min (sig ! i) (?h s)) (?h ` set ss)) = Min (insert (sig ! i) (insert (?h s) (?h ` set ss)))"
    by (cases "ss = []") (simp_all add: min.assoc)
  finally show ?case by simp
qed simp

lemma computeSignature_minimum:
  "computeSignature ss seeds =
     map (\<lambda>seed. Min (insert MAX_UINT32 ((\<lambda>s. mix32 (hashFeature32 s XOR seed)) ` set ss))) seeds"
  by (rule nth_equalityI) (simp_all add: computeSignature_def signature_fold)

text \<open>
  The signature of the loops is the reference one: at each position the least seeded hash over
  the set of shingles. Order and repetition of the shingles do not matter.
\<close>

theorem signature_is_minimum:
  "computeSignature ss seeds =
     map (\<lambda>seed. Min (insert MAX_UINT32 ((\<lambda>s. mix32 (hashFeature32 s XOR seed)) ` set ss))) seeds"
  by (rule computeSignature_minimum)

section \<open>The prepared documents\<close>

definition shingles_of :: "string cmp \<Rightarrow> minhash_config \<Rightarrow> minhash_document \<Rightarrow> string list" where
  "shingles_of lc config d =
     cappedShingles lc (buildShingles (md_features d) (mh_shingleSize config)) (mh_maxShinglesPerDocument config)"

definition signature_of :: "string cmp \<Rightarrow> minhash_config \<Rightarrow> minhash_document \<Rightarrow> 32 word list" where
  "signature_of lc config d = computeSignature (shingles_of lc config d) (buildSeeds (signatureLength config))"

definition considered :: "string cmp \<Rightarrow> minhash_config \<Rightarrow> minhash_document list \<Rightarrow> minhash_document list" where
  "considered lc config documents =
     filter (\<lambda>d. shingles_of lc config d \<noteq> []) (js_sort (\<lambda>l r. lc (md_id l) (md_id r)) documents)"

lemma prepare_fold:
  "pd_ids (fold (document_step lc config seeds) ds st) =
     pd_ids st @ map md_id (filter (\<lambda>d. shingles_of lc config d \<noteq> []) ds) \<and>
   pd_signatures (fold (document_step lc config seeds) ds st) =
     pd_signatures st @ map (\<lambda>d. computeSignature (shingles_of lc config d) seeds)
       (filter (\<lambda>d. shingles_of lc config d \<noteq> []) ds)"
  by (induction ds arbitrary: st) (auto simp: document_step_def Let_def shingles_of_def)

lemma prepared_documents:
  "pd_ids (prepareDocuments lc ds config (buildSeeds (signatureLength config))) = map md_id (considered lc config ds)"
  "pd_signatures (prepareDocuments lc ds config (buildSeeds (signatureLength config))) =
     map (signature_of lc config) (considered lc config ds)"
  by (simp_all add: prepareDocuments_def prepare_fold considered_def signature_of_def[abs_def])

lemma length_signature_of [simp]: "length (signature_of lc config d) = signatureLength config"
  by (simp add: signature_of_def buildSeeds_def)

section \<open>Buckets\<close>

definition shares_band :: "minhash_config \<Rightarrow> 32 word list \<Rightarrow> 32 word list \<Rightarrow> bool" where
  "shares_band config l r \<longleftrightarrow> (\<exists>band < mh_bands config. band_rows config l band = band_rows config r band)"

lemma word_text_inj: "map (\<lambda>w. show_nat (unat w)) xs = map (\<lambda>w. show_nat (unat w)) ys \<longleftrightarrow> xs = (ys :: 32 word list)"
proof -
  have "inj (\<lambda>w :: 32 word. show_nat (unat w))" by (auto simp: inj_def word_unat_eq_iff)
  then show ?thesis by (rule inj_map_eq_map)
qed

lemma band_rows_not_Nil:
  assumes "band < mh_bands config" "0 < mh_rowsPerBand config" "length sig = signatureLength config"
  shows "band_rows config sig band \<noteq> []"
proof -
  have "band * mh_rowsPerBand config < mh_bands config * mh_rowsPerBand config" using assms(1,2) by simp
  with assms(2,3) show ?thesis by (simp add: band_rows_def signatureLength_def)
qed

lemma band_key_inj:
  assumes "band < mh_bands config" "band' < mh_bands config" "0 < mh_rowsPerBand config"
    "length l = signatureLength config" "length r = signatureLength config"
  shows "band_key config l band = band_key config r band' \<longleftrightarrow> band = band' \<and> band_rows config l band = band_rows config r band'"
proof
  assume eq: "band_key config l band = band_key config r band'"
  have digits: "takeWhile is_digit (show_nat n @ ''#'' @ s) = show_nat n" for n s
    using show_nat_digits[of n] by (simp add: takeWhile_append list_all_iff is_digit_def)
  from eq have n: "show_nat band = show_nat band'"
    unfolding band_key_def by (metis digits)
  let ?f = "map (\<lambda>w :: 32 word. show_nat (unat w))"
  have c: "list_all (\<lambda>x. CHR '','' \<notin> set x) (?f ws)" for ws
  proof -
    have "CHR '','' \<notin> set (show_nat k)" for k
      using show_nat_digits[of k] by (auto simp: list_all_iff is_digit_def)
    then show ?thesis by (simp add: list_all_iff)
  qed
  have "js_join [CHR '',''] (?f (band_rows config l band)) = js_join [CHR '',''] (?f (band_rows config r band'))"
    using eq n by (simp add: band_key_def)
  then have "?f (band_rows config l band) = ?f (band_rows config r band')"
    using band_rows_not_Nil[of band config l] band_rows_not_Nil[of band' config r] assms
    by (intro join_inject[OF _ _ c c]) simp_all
  with n show "band = band' \<and> band_rows config l band = band_rows config r band'"
    by (simp add: word_text_inj)
qed (auto simp: band_key_def)

lemma index_pairs_sorted:
  "sorted_wrt (<) is \<Longrightarrow> (i, j) \<in> set (index_pairs is) \<longleftrightarrow> i < j \<and> i \<in> set is \<and> j \<in> set is"
  by (induction "is") auto

lemma concat_filter: "concat (map (\<lambda>x. if P x then [x] else []) xs) = filter P xs"
  by (induction xs) auto

lemma single_match:
  assumes "\<And>b b'. b < n \<Longrightarrow> b' < n \<Longrightarrow> f b = f b' \<Longrightarrow> b = b'"
  shows "map (\<lambda>b. d) (filter (\<lambda>b. f b = k) [0..<n]) = (if \<exists>b < n. f b = k then [d] else [])"
proof (cases "\<exists>b < n. f b = k")
  case True
  then obtain b where b: "b < n" "f b = k" by blast
  have "filter (\<lambda>c. f c = k) [0..<n] = [b]"
  proof -
    have "filter (\<lambda>c. f c = k) [0..<n] = filter (\<lambda>c. c = b) [0..<n]"
      using assms b by (intro filter_cong) auto
    also have "\<dots> = [b]" using b(1) by (induction n) (auto simp: less_Suc_eq)
    finally show ?thesis .
  qed
  with True show ?thesis by simp
qed (auto simp: filter_empty_conv)

lemma bucket_documents:
  assumes "0 < mh_rowsPerBand config" and "\<And>d. d < length (pd_signatures prep) \<Longrightarrow> length (pd_signatures prep ! d) = signatureLength config"
  shows "map snd (filter (\<lambda>e. fst e = k) (band_entries prep config)) =
     filter (\<lambda>d. \<exists>b < mh_bands config. band_key config (pd_signatures prep ! d) b = k) [0..<length (pd_signatures prep)]"
proof -
  have one: "map snd (filter (\<lambda>e. fst e = k) (map (\<lambda>band. (band_key config (pd_signatures prep ! d) band, d)) [0..<mh_bands config])) =
      (if \<exists>b < mh_bands config. band_key config (pd_signatures prep ! d) b = k then [d] else [])"
    if "d \<in> set [0..<length (pd_signatures prep)]" for d
  proof -
    have len: "length (pd_signatures prep ! d) = signatureLength config" using assms(2) that by simp
    have inj: "b = b'" if "b < mh_bands config" "b' < mh_bands config"
      "band_key config (pd_signatures prep ! d) b = band_key config (pd_signatures prep ! d) b'" for b b'
      using band_key_inj[OF that(1,2) assms(1) len len] that(3) by blast
    show ?thesis
      unfolding filter_map map_map comp_def fst_conv snd_conv by (rule single_match[OF inj])
  qed
  have "map snd (filter (\<lambda>e. fst e = k) (band_entries prep config)) =
     concat (map (\<lambda>d. if \<exists>b < mh_bands config. band_key config (pd_signatures prep ! d) b = k then [d] else [])
       [0..<length (pd_signatures prep)])"
    unfolding band_entries_def filter_concat map_concat map_map by (rule arg_cong[of _ _ concat], rule map_cong[OF refl]) (simp only: comp_def one)
  then show ?thesis by (simp only: concat_filter)
qed

lemma bucket_pairs_iff:
  assumes "0 < mh_rowsPerBand config" and "\<And>d. d < length (pd_signatures prep) \<Longrightarrow> length (pd_signatures prep ! d) = signatureLength config"
  shows "(i, j) \<in> set (bucket_pairs (bandBuckets prep config)) \<longleftrightarrow>
     i < j \<and> j < length (pd_signatures prep) \<and> shares_band config (pd_signatures prep ! i) (pd_signatures prep ! j)"
proof -
  let ?n = "length (pd_signatures prep)" and ?key = "\<lambda>d. band_key config (pd_signatures prep ! d)"
  let ?docs = "\<lambda>k. filter (\<lambda>d. \<exists>b < mh_bands config. ?key d b = k) [0..<?n]"
  have some_pair: "(i, j) \<in> set (index_pairs is) \<Longrightarrow> is \<noteq> []" for "is" by auto
  have bucket: "map_of (bandBuckets prep config) k = Some is \<longleftrightarrow> ?docs k \<noteq> [] \<and> is = ?docs k" for k "is"
    using bucket_documents[OF assms, of k] by (auto simp only: bandBuckets_def map_of_group_by_key split: if_splits)
  have "(i, j) \<in> set (bucket_pairs (bandBuckets prep config)) \<longleftrightarrow>
      (\<exists>k is. map_of (bandBuckets prep config) k = Some is \<and> (i, j) \<in> set (index_pairs is))"
    using distinct_group_by_key[of "band_entries prep config"]
    by (force simp: bucket_pairs_def bandBuckets_def)
  also have "\<dots> \<longleftrightarrow> (\<exists>k. (i, j) \<in> set (index_pairs (?docs k)))"
    unfolding bucket using some_pair by blast
  also have "\<dots> \<longleftrightarrow> (\<exists>k. i < j \<and> i \<in> set (?docs k) \<and> j \<in> set (?docs k))"
    by (simp only: index_pairs_sorted sorted_wrt_filter sorted_wrt_upt)
  also have "\<dots> \<longleftrightarrow> i < j \<and> j < ?n \<and> (\<exists>b < mh_bands config. \<exists>b' < mh_bands config. ?key i b = ?key j b')"
    by (auto; metis)
  also have "\<dots> \<longleftrightarrow> i < j \<and> j < ?n \<and> shares_band config (pd_signatures prep ! i) (pd_signatures prep ! j)"
  proof (cases "i < j \<and> j < ?n")
    case True
    then have len: "length (pd_signatures prep ! i) = signatureLength config" "length (pd_signatures prep ! j) = signatureLength config"
      using assms(2) by simp_all
    show ?thesis
      using band_key_inj[OF _ _ assms(1) len] unfolding shares_band_def by blast
  qed blast
  finally show ?thesis .
qed

section \<open>The collected pairs\<close>

definition pair_of :: "string cmp \<Rightarrow> (nat \<Rightarrow> nat \<Rightarrow> int) \<Rightarrow> prepared \<Rightarrow> nat \<times> nat \<Rightarrow> lsh_pair" where
  "pair_of lc rnd prep ij =
     (let ab = ordered_ids lc (pd_ids prep ! fst ij) (pd_ids prep ! snd ij)
      in \<lparr>lp_a = fst ab, lp_b = snd ab,
          lp_estimatedSimilarity = estimateSimilarity rnd (pd_signatures prep ! fst ij) (pd_signatures prep ! snd ij)\<rparr>)"

definition key_of :: "lsh_pair \<Rightarrow> string" where
  "key_of p = pair_key (lp_a p, lp_b p)"

definition in_range :: "prepared \<Rightarrow> nat \<times> nat \<Rightarrow> bool" where
  "in_range prep ij \<longleftrightarrow> fst ij < length (pd_ids prep) \<and> snd ij < length (pd_ids prep) \<and>
     length (pd_signatures prep) = length (pd_ids prep)"

lemma add_in_range:
  assumes "in_range prep ij"
  shows "addCandidatePair lc rnd prep ij config pairs =
    (let p = pair_of lc rnd prep ij
     in if map_of pairs (key_of p) \<noteq> None then (pairs, False)
        else if length pairs \<ge> mh_maxCandidatePairs config then (pairs, True)
        else (pairs @ [(key_of p, p)], False))"
  using assms by (auto simp: addCandidatePair_def in_range_def at_index_def pair_of_def key_of_def Let_def update_new_key
      map_of_eq_None_iff)

lemma collect_loop_spec:
  "collect_loop lc rnd prep config ijs pairs = (pairs', truncated) \<Longrightarrow> list_all (in_range prep) ijs \<Longrightarrow>
     length pairs \<le> mh_maxCandidatePairs config \<Longrightarrow>
     length pairs' \<le> mh_maxCandidatePairs config \<and>
     set pairs \<subseteq> set pairs' \<and>
     set pairs' \<subseteq> set pairs \<union> (\<lambda>ij. (key_of (pair_of lc rnd prep ij), pair_of lc rnd prep ij)) ` set ijs \<and>
     (\<not> truncated \<longrightarrow> fst ` set pairs' = fst ` set pairs \<union> (\<lambda>ij. key_of (pair_of lc rnd prep ij)) ` set ijs)"
proof (induction ijs arbitrary: pairs)
  case Nil
  then show ?case by simp
next
  case (Cons ij ijs)
  let ?p = "pair_of lc rnd prep ij"
  note add = add_in_range[of prep ij lc rnd config pairs]
  from Cons.prems(2) have r: "in_range prep ij" "list_all (in_range prep) ijs" by simp_all
  consider (old) "map_of pairs (key_of ?p) \<noteq> None"
    | (full) "map_of pairs (key_of ?p) = None" "length pairs \<ge> mh_maxCandidatePairs config"
    | (new) "map_of pairs (key_of ?p) = None" "length pairs < mh_maxCandidatePairs config" by fastforce
  then show ?case
  proof cases
    case old
    then have "key_of ?p \<in> fst ` set pairs" by (simp add: map_of_eq_None_iff)
    moreover have "collect_loop lc rnd prep config ijs pairs = (pairs', truncated)"
      using Cons.prems(1) old add[OF r(1)] by (simp add: Let_def)
    ultimately show ?thesis using Cons.IH[OF _ r(2) Cons.prems(3)] by auto
  next
    case full
    with Cons.prems(1,3) add[OF r(1)] show ?thesis by (auto simp: Let_def)
  next
    case new
    then have "collect_loop lc rnd prep config ijs (pairs @ [(key_of ?p, ?p)]) = (pairs', truncated)"
      using Cons.prems(1) add[OF r(1)] by (simp add: Let_def)
    from Cons.IH[OF this r(2)] new show ?thesis by auto
  qed
qed

text \<open>A run is truncated only if there are more pairs than the cap allows.\<close>

lemma collect_loop_truncated:
  "collect_loop lc rnd prep config ijs pairs = (pairs', True) \<Longrightarrow> list_all (in_range prep) ijs \<Longrightarrow>
     distinct (map fst pairs) \<Longrightarrow>
     mh_maxCandidatePairs config < card (fst ` set pairs \<union> (\<lambda>ij. key_of (pair_of lc rnd prep ij)) ` set ijs)"
proof (induction ijs arbitrary: pairs)
  case (Cons ij ijs)
  let ?p = "pair_of lc rnd prep ij" and ?keys = "\<lambda>ijs. (\<lambda>ij. key_of (pair_of lc rnd prep ij)) ` set ijs"
  from Cons.prems(2) have r: "in_range prep ij" "list_all (in_range prep) ijs" by simp_all
  note add = add_in_range[OF r(1), of lc rnd config pairs]
  consider (old) "map_of pairs (key_of ?p) \<noteq> None"
    | (full) "map_of pairs (key_of ?p) = None" "length pairs \<ge> mh_maxCandidatePairs config"
    | (new) "map_of pairs (key_of ?p) = None" "length pairs < mh_maxCandidatePairs config" by fastforce
  then show ?case
  proof cases
    case old
    then have "key_of ?p \<in> fst ` set pairs" by (simp add: map_of_eq_None_iff)
    moreover have "collect_loop lc rnd prep config ijs pairs = (pairs', True)"
      using Cons.prems(1) old add by (simp add: Let_def)
    ultimately show ?thesis using Cons.IH[OF _ r(2) Cons.prems(3)] by (simp add: insert_absorb)
  next
    case full
    then have "key_of ?p \<notin> fst ` set pairs" by (simp add: map_of_eq_None_iff)
    then have "card (insert (key_of ?p) (fst ` set pairs)) = Suc (length pairs)"
      using distinct_card[OF Cons.prems(3)] by simp
    moreover have "card (insert (key_of ?p) (fst ` set pairs)) \<le> card (fst ` set pairs \<union> ?keys (ij # ijs))"
      by (rule card_mono) auto
    ultimately show ?thesis using full(2) by simp
  next
    case new
    then have "collect_loop lc rnd prep config ijs (pairs @ [(key_of ?p, ?p)]) = (pairs', True)"
      using Cons.prems(1) add by (simp add: Let_def)
    from Cons.IH[OF this r(2)] new(1) Cons.prems(3) show ?thesis by (simp add: map_of_eq_None_iff)
  qed
qed simp

lemma positive_config: "0 < mh_bands (resolveMinHashConfig opts)" "0 < mh_rowsPerBand (resolveMinHashConfig opts)"
    "0 < mh_maxShinglesPerDocument (resolveMinHashConfig opts)" "0 < mh_maxCandidatePairs (resolveMinHashConfig opts)"
  by (auto simp: resolveMinHashConfig_def positiveInt_def DEFAULT_MINHASH_CONFIG_def split: option.splits js_number.splits)

definition prepared_of :: "string cmp \<Rightarrow> minhash_document list \<Rightarrow> minhash_options \<Rightarrow> prepared" where
  "prepared_of lc documents opts = (let config = resolveMinHashConfig opts
     in prepareDocuments lc documents config (buildSeeds (signatureLength config)))"

lemma prepared_of_parts:
  "pd_ids (prepared_of lc ds opts) = map md_id (considered lc (resolveMinHashConfig opts) ds)"
  "pd_signatures (prepared_of lc ds opts) =
     map (signature_of lc (resolveMinHashConfig opts)) (considered lc (resolveMinHashConfig opts) ds)"
  by (simp_all add: prepared_of_def prepared_documents Let_def)

lemma run_pairs:
  fixes opts defines "config \<equiv> resolveMinHashConfig opts"
  shows "\<exists>pairs. set (ls_candidates (findLshCandidatePairs lc rnd ds opts)) = snd ` set pairs \<and>
     length (ls_candidates (findLshCandidatePairs lc rnd ds opts)) = length pairs \<and>
     collect_loop lc rnd (prepared_of lc ds opts) config (bucket_pairs (bandBuckets (prepared_of lc ds opts) config)) [] =
       (pairs, ls_candidatePairsTruncated (findLshCandidatePairs lc rnd ds opts))"
proof -
  obtain pairs t where c: "collectCandidatePairs lc rnd (prepared_of lc ds opts) (bandBuckets (prepared_of lc ds opts) config) config = (pairs, t)"
    by fastforce
  then have "findLshCandidatePairs lc rnd ds opts =
      \<lparr>ls_candidates = js_sort (compareCandidatePairs lc) (map snd pairs), ls_config = config,
       ls_consideredDocuments = length (pd_signatures (prepared_of lc ds opts)), ls_totalDocuments = length ds,
       ls_shingleTruncatedDocuments = pd_shingleTruncated (prepared_of lc ds opts), ls_candidatePairsTruncated = t\<rparr>"
    by (simp add: findLshCandidatePairs_def prepared_of_def config_def Let_def)
  with c show ?thesis by (auto simp: collectCandidatePairs_def)
qed

lemma pairs_facts:
  fixes opts defines "config \<equiv> resolveMinHashConfig opts"
  shows "(i, j) \<in> set (bucket_pairs (bandBuckets (prepared_of lc ds opts) config)) \<longleftrightarrow>
      i < j \<and> j < length (considered lc config ds) \<and>
      shares_band config (signature_of lc config (considered lc config ds ! i)) (signature_of lc config (considered lc config ds ! j))"
    and "list_all (in_range (prepared_of lc ds opts)) (bucket_pairs (bandBuckets (prepared_of lc ds opts) config))"
proof -
  have *: "(i, j) \<in> set (bucket_pairs (bandBuckets (prepared_of lc ds opts) config)) \<longleftrightarrow>
      i < j \<and> j < length (considered lc config ds) \<and>
      shares_band config (signature_of lc config (considered lc config ds ! i)) (signature_of lc config (considered lc config ds ! j))"
    for i j
  proof -
    have "length (pd_signatures (prepared_of lc ds opts) ! d) = signatureLength config"
      if "d < length (pd_signatures (prepared_of lc ds opts))" for d
      using that by (simp add: prepared_of_parts config_def)
    from bucket_pairs_iff[OF _ this, of i j] positive_config(2)[of opts] show ?thesis
      by (auto simp: prepared_of_parts config_def)
  qed
  show "(i, j) \<in> set (bucket_pairs (bandBuckets (prepared_of lc ds opts) config)) \<longleftrightarrow>
      i < j \<and> j < length (considered lc config ds) \<and>
      shares_band config (signature_of lc config (considered lc config ds ! i)) (signature_of lc config (considered lc config ds ! j))"
    by (rule *)
  show "list_all (in_range (prepared_of lc ds opts)) (bucket_pairs (bandBuckets (prepared_of lc ds opts) config))"
    using * by (auto simp: list_all_iff in_range_def prepared_of_parts config_def)
qed

text \<open>
  The number of proposed pairs never exceeds the configured cap, whatever the documents are.
\<close>

theorem lsh_candidates_bounded:
  "length (ls_candidates (findLshCandidatePairs lc rnd documents opts)) \<le>
     mh_maxCandidatePairs (resolveMinHashConfig opts)"
proof -
  obtain pairs where "length (ls_candidates (findLshCandidatePairs lc rnd documents opts)) = length pairs"
    "collect_loop lc rnd (prepared_of lc documents opts) (resolveMinHashConfig opts)
       (bucket_pairs (bandBuckets (prepared_of lc documents opts) (resolveMinHashConfig opts))) [] =
       (pairs, ls_candidatePairsTruncated (findLshCandidatePairs lc rnd documents opts))"
    using run_pairs[of lc rnd documents opts] by blast
  with collect_loop_spec[OF this(2) pairs_facts(2)] show ?thesis by simp
qed

lemma pair_key_ids:
  assumes "CHR ''|'' \<notin> set a" "CHR ''|'' \<notin> set a'" "pair_key (a, b) = pair_key (a', b')"
  shows "a = a' \<and> b = b'"
proof -
  have "takeWhile (\<lambda>c. c \<noteq> CHR ''|'') (x @ ''|'' @ y) = x" if "CHR ''|'' \<notin> set x" for x y
    using that by (induction x) auto
  with assms have "a = a'" unfolding pair_key_def fst_conv snd_conv by metis
  with assms(3) show ?thesis by (simp add: pair_key_def)
qed

lemma pair_of_ids: "{lp_a (pair_of lc rnd prep (i, j)), lp_b (pair_of lc rnd prep (i, j))} = {pd_ids prep ! i, pd_ids prep ! j}"
  by (auto simp: pair_of_def ordered_ids_def Let_def)

lemma shares_band_sym: "shares_band config l r \<longleftrightarrow> shares_band config r l"
  by (auto simp: shares_band_def)

text \<open>
  C32: a run that was not truncated proposes exactly the pairs of documents whose signatures agree on
  all rows of some band: none is lost to the caps or to a collision of keys, and none is made up.
\<close>

theorem lsh_candidates_exact:
  fixes opts defines "config \<equiv> resolveMinHashConfig opts"
  assumes "distinct (map md_id documents)" and "list_all (\<lambda>d. CHR ''|'' \<notin> set (md_id d)) documents"
    and "\<not> ls_candidatePairsTruncated (findLshCandidatePairs lc rnd documents opts)"
    and "d \<in> set documents" "e \<in> set documents" "d \<noteq> e"
    and "shingles_of lc config d \<noteq> []" "shingles_of lc config e \<noteq> []"
  shows "(\<exists>c \<in> set (ls_candidates (findLshCandidatePairs lc rnd documents opts)). {lp_a c, lp_b c} = {md_id d, md_id e}) \<longleftrightarrow>
     shares_band config (signature_of lc config d) (signature_of lc config e)"
proof -
  let ?ds = "considered lc config documents" and ?prep = "prepared_of lc documents opts"
  let ?ijs = "bucket_pairs (bandBuckets ?prep config)" and ?pair = "pair_of lc rnd ?prep"
  obtain pairs where pairs: "set (ls_candidates (findLshCandidatePairs lc rnd documents opts)) = snd ` set pairs"
      "collect_loop lc rnd ?prep config ?ijs [] = (pairs, False)"
    using run_pairs[of lc rnd documents opts] assms(4) unfolding config_def by auto
  note spec = collect_loop_spec[OF pairs(2)]
  have set_pairs: "set pairs \<subseteq> (\<lambda>ij. (key_of (?pair ij), ?pair ij)) ` set ?ijs"
    "fst ` set pairs = (\<lambda>ij. key_of (?pair ij)) ` set ?ijs"
    using spec pairs_facts(2)[of lc documents opts] unfolding config_def by auto
  have ids: "distinct (map md_id ?ds)" "list_all (\<lambda>d. CHR ''|'' \<notin> set (md_id d)) ?ds"
    using assms(2,3) by (auto simp: considered_def distinct_map_filter list_all_iff)
  have de: "d \<in> set ?ds" "e \<in> set ?ds" using assms(5,6,8,9) by (auto simp: considered_def)
  have pair_ids: "{lp_a (?pair (i, j)), lp_b (?pair (i, j))} = {md_id (?ds ! i), md_id (?ds ! j)}"
    if "(i, j) \<in> set ?ijs" for i j
    using that pairs_facts(1)[of i j lc documents opts] unfolding pair_of_ids
    by (simp add: prepared_of_parts config_def)
  have inj: "x = y" if "x \<in> set ?ds" "y \<in> set ?ds" "md_id x = md_id y" for x y
    using ids(1) that by (meson distinct_map inj_onD)
  show ?thesis
  proof
    assume "\<exists>c \<in> set (ls_candidates (findLshCandidatePairs lc rnd documents opts)). {lp_a c, lp_b c} = {md_id d, md_id e}"
    then obtain c k where c: "(k, c) \<in> set pairs" "{lp_a c, lp_b c} = {md_id d, md_id e}" using pairs(1) by auto
    from c(1) set_pairs(1) obtain i j where "(i, j) \<in> set ?ijs" "c = ?pair (i, j)" by auto
    with c(2) have ij: "(i, j) \<in> set ?ijs" "{lp_a (?pair (i, j)), lp_b (?pair (i, j))} = {md_id d, md_id e}" by simp_all
    then have eq: "{md_id (?ds ! i), md_id (?ds ! j)} = {md_id d, md_id e}" using pair_ids by simp
    from ij(1) have s: "i < j" "j < length ?ds" "shares_band config (signature_of lc config (?ds ! i)) (signature_of lc config (?ds ! j))"
      using pairs_facts(1)[of i j lc documents opts] unfolding config_def by auto
    then have mem: "?ds ! i \<in> set ?ds" "?ds ! j \<in> set ?ds" by simp_all
    from eq have "md_id (?ds ! i) = md_id d \<and> md_id (?ds ! j) = md_id e \<or> md_id (?ds ! i) = md_id e \<and> md_id (?ds ! j) = md_id d"
      by (auto simp: doubleton_eq_iff)
    with inj mem de have "?ds ! i = d \<and> ?ds ! j = e \<or> ?ds ! i = e \<and> ?ds ! j = d" by blast
    with s(3) shares_band_sym show "shares_band config (signature_of lc config d) (signature_of lc config e)" by auto
  next
    assume share: "shares_band config (signature_of lc config d) (signature_of lc config e)"
    obtain p q where pq: "p < length ?ds" "?ds ! p = d" "q < length ?ds" "?ds ! q = e"
      using de by (auto simp: in_set_conv_nth)
    obtain i j where ij: "i < j" "j < length ?ds" "{?ds ! i, ?ds ! j} = {d, e}"
      "shares_band config (signature_of lc config (?ds ! i)) (signature_of lc config (?ds ! j))"
    proof (cases "p < q")
      case True
      with pq share that[of p q] show ?thesis by simp
    next
      case False
      with pq assms(7) have "q < p" by (metis nat_neq_iff)
      with pq share shares_band_sym that[of q p] show ?thesis by auto
    qed
    then have mem: "(i, j) \<in> set ?ijs" using pairs_facts(1)[of i j lc documents opts] unfolding config_def by simp
    then have "key_of (?pair (i, j)) \<in> fst ` set pairs" unfolding set_pairs(2) by blast
    then obtain v where v: "(key_of (?pair (i, j)), v) \<in> set pairs" by force
    with set_pairs(1) obtain kl where kl: "kl \<in> set ?ijs" "v = ?pair kl" "key_of v = key_of (?pair (i, j))" by auto
    obtain k l where "kl = (k, l)" by (cases kl)
    with kl have mkl: "(k, l) \<in> set ?ijs" and v_eq: "v = ?pair (k, l)" by simp_all
    have plain: "CHR ''|'' \<notin> set (lp_a (?pair (x, y)))" if "(x, y) \<in> set ?ijs" for x y
    proof -
      have "lp_a (?pair (x, y)) \<in> {md_id (?ds ! x), md_id (?ds ! y)}" using pair_ids[OF that] by blast
      moreover have "x < length ?ds" "y < length ?ds"
        using that pairs_facts(1)[of x y lc documents opts] unfolding config_def by auto
      ultimately show ?thesis using ids(2) by (auto simp: list_all_length)
    qed
    have "lp_a v = lp_a (?pair (i, j)) \<and> lp_b v = lp_b (?pair (i, j))"
      using kl(3) unfolding key_of_def v_eq by (rule pair_key_ids[OF plain[OF mkl] plain[OF mem]])
    then have "{lp_a v, lp_b v} = {md_id (?ds ! i), md_id (?ds ! j)}" using pair_ids[OF mem] by simp
    also have "\<dots> = md_id ` {?ds ! i, ?ds ! j}" by simp
    also have "\<dots> = {md_id d, md_id e}" unfolding ij(3) by simp
    finally have "{lp_a v, lp_b v} = {md_id d, md_id e}" .
    moreover have "v \<in> set (ls_candidates (findLshCandidatePairs lc rnd documents opts))"
      unfolding pairs(1) using v by (rule rev_image_eqI) simp
    ultimately show "\<exists>c \<in> set (ls_candidates (findLshCandidatePairs lc rnd documents opts)). {lp_a c, lp_b c} = {md_id d, md_id e}"
      by blast
  qed
qed

text \<open>Two documents with the same set of shingles agree on every band, and so are always proposed.\<close>

lemma same_shingles_share:
  assumes "set (shingles_of lc config d) = set (shingles_of lc config e)" "0 < mh_bands config"
  shows "signature_of lc config d = signature_of lc config e" "shares_band config (signature_of lc config d) (signature_of lc config e)"
proof -
  show s: "signature_of lc config d = signature_of lc config e"
    using assms(1) by (simp add: signature_of_def computeSignature_minimum)
  show "shares_band config (signature_of lc config d) (signature_of lc config e)"
    using assms(2) unfolding s shares_band_def by blast
qed

lemma single_pair_not_truncated:
  assumes "length (considered lc (resolveMinHashConfig opts) ds) \<le> 2"
  shows "\<not> ls_candidatePairsTruncated (findLshCandidatePairs lc rnd ds opts)"
proof
  assume t: "ls_candidatePairsTruncated (findLshCandidatePairs lc rnd ds opts)"
  let ?config = "resolveMinHashConfig opts" and ?prep = "prepared_of lc ds opts"
  let ?ijs = "bucket_pairs (bandBuckets ?prep ?config)"
  obtain pairs where "collect_loop lc rnd ?prep ?config ?ijs [] = (pairs, True)"
    using run_pairs[of lc rnd ds opts] t by auto
  from collect_loop_truncated[OF this pairs_facts(2)]
  have "mh_maxCandidatePairs ?config < card ((\<lambda>ij. key_of (pair_of lc rnd ?prep ij)) ` set ?ijs)" by simp
  also have "\<dots> \<le> card (set ?ijs)" by (rule card_image_le) simp
  also have "\<dots> \<le> card {(0 :: nat, 1 :: nat)}"
    using pairs_facts(1)[of _ _ lc ds opts] assms by (intro card_mono) auto
  finally show False using positive_config(4)[of opts] by simp
qed

definition default_options :: minhash_options where
  "default_options = \<lparr>mo_shingleSize = Some (Integer 1), mo_bands = None, mo_rowsPerBand = None,
     mo_maxShinglesPerDocument = Some (Integer 5), mo_maxCandidatePairs = Some NotInteger\<rparr>"

definition sample_documents :: "minhash_document list" where
  "sample_documents = [\<lparr>md_id = ''f'', md_features = [''a'', ''b'']\<rparr>, \<lparr>md_id = ''g'', md_features = [''b'', ''a'']\<rparr>]"

theorem lsh_candidates_exact_witness:
  "\<exists>c \<in> set (ls_candidates (findLshCandidatePairs codeUnitCompare (\<lambda>a n. 1000) sample_documents default_options)).
     {lp_a c, lp_b c} = {''f'', ''g''}"
proof -
  let ?c = "resolveMinHashConfig default_options" and ?d = "sample_documents ! 0" and ?e = "sample_documents ! 1"
  have c: "mh_shingleSize ?c = 1" "mh_maxShinglesPerDocument ?c = 5"
    by (simp_all add: resolveMinHashConfig_def positiveInt_def default_options_def)
  have sh: "shingles_of codeUnitCompare ?c ?d = [''a'', ''b'']" "shingles_of codeUnitCompare ?c ?e = [''b'', ''a'']"
    unfolding shingles_of_def c by code_simp+
  have docs: "distinct (map md_id sample_documents)" "list_all (\<lambda>d. CHR ''|'' \<notin> set (md_id d)) sample_documents"
    "?d \<in> set sample_documents" "?e \<in> set sample_documents" "?d \<noteq> ?e" "md_id ?d = ''f''" "md_id ?e = ''g''"
    by (simp_all add: sample_documents_def)
  have "length (considered codeUnitCompare ?c sample_documents) \<le> length sample_documents"
    by (metis considered_def length_filter_le length_js_sort)
  then have t: "\<not> ls_candidatePairsTruncated (findLshCandidatePairs codeUnitCompare (\<lambda>a n. 1000) sample_documents default_options)"
    by (intro single_pair_not_truncated) (simp add: sample_documents_def)
  have "shares_band ?c (signature_of codeUnitCompare ?c ?d) (signature_of codeUnitCompare ?c ?e)"
    by (rule same_shingles_share(2)[OF _ positive_config(1)], unfold sh) auto
  then show ?thesis
    using lsh_candidates_exact[OF docs(1,2) t docs(3-5), unfolded sh docs(6,7)] by simp
qed

end
