(* ===== verification/MigrationSafety.thy ===== *)
theory MigrationSafety
  imports DriftPrelude Codepoint
begin

text \<open>
  \<open>scripts/lib/migration-safety-core.ts\<close>: the scanner for destructive SQL. Text is a list of UTF-16
  code units here, because the detection rules and the allowlist differ in the whitespace they accept
  outside ASCII. The lexer is a recursion over the rest of the line, with the block comment state
  passed from record to record; a regular expression is a predicate on a suffix of the line.
\<close>

section \<open>Characters\<close>

abbreviation unit :: "char \<Rightarrow> 16 word" where
  "unit c \<equiv> of_char c"

definition SPACE :: "16 word" where "SPACE = 0x20"

text \<open>\<open>ALLOWLIST_SPACE_CLASS\<close>, the ASCII part, and \<open>SPACE_CLASS\<close>.\<close>

definition is_ascii_space :: "16 word \<Rightarrow> bool" where
  "is_ascii_space u \<longleftrightarrow> u = 0x20 \<or> u = 0x09 \<or> u = 0x0A \<or> u = 0x0B \<or> u = 0x0C \<or> u = 0x0D"

definition is_sql_space :: "16 word \<Rightarrow> bool" where
  "is_sql_space u \<longleftrightarrow> is_ascii_space u \<or> u = 0x1680 \<or> (0x2000 \<le> u \<and> u \<le> 0x2006) \<or> (0x2008 \<le> u \<and> u \<le> 0x200A)
     \<or> u = 0x2028 \<or> u = 0x2029 \<or> u = 0x205F \<or> u = 0x3000"

definition asciiUpperCase :: "units \<Rightarrow> units" where
  "asciiUpperCase s = map (\<lambda>u. if 0x61 \<le> u \<and> u \<le> 0x7A then u - 0x20 else u) s"

definition trimSpace :: "units \<Rightarrow> units" where
  "trimSpace s = rev (dropWhile is_sql_space (rev (dropWhile is_sql_space s)))"

fun split_units :: "16 word \<Rightarrow> units \<Rightarrow> units list" where
  "split_units d [] = [[]]"
| "split_units d (u # us) =
     (if u = d then [] # split_units d us
      else case split_units d us of [] \<Rightarrow> [[u]] | w # ws \<Rightarrow> (u # w) # ws)"

definition toRecords :: "units \<Rightarrow> units list" where
  "toRecords text =
     (if text = [] then []
      else let records = split_units 0x0A text in if last records = [] then butlast records else records)"

definition drop_cr_unit :: "units \<Rightarrow> units" where
  "drop_cr_unit s = (if s \<noteq> [] \<and> last s = 0x0D then butlast s else s)"

section \<open>The lexer\<close>

text \<open>After the opening quote: the mask of the span, and the rest of the line.\<close>

fun mask_span :: "16 word \<Rightarrow> units \<Rightarrow> units \<times> units" where
  "mask_span q [] = ([], [])"
| "mask_span q [u] = ([SPACE], [])"
| "mask_span q (u # v # us) =
     (if u \<noteq> q then (let (m, r) = mask_span q (v # us) in (SPACE # m, r))
      else if v = q then (let (m, r) = mask_span q us in (SPACE # SPACE # m, r))
      else ([SPACE], v # us))"

lemma mask_span_length: "mask_span q s = (m, r) \<Longrightarrow> length m + length r = length s \<and> r = drop (length m) s"
  by (induction q s arbitrary: m r rule: mask_span.induct) (auto split: if_splits prod.splits)

lemma mask_span_shorter: "(m, r) = mask_span q s \<Longrightarrow> length r \<le> length s"
  using mask_span_length[of q s m r] by simp

function sanitize :: "bool \<Rightarrow> units \<Rightarrow> units \<times> bool" where
  "sanitize inBlock [] = ([], inBlock)"
| "sanitize inBlock (u # us) =
     (let next_is = (\<lambda>c. us \<noteq> [] \<and> hd us = unit c)
      in if inBlock then
           (if u = unit (CHR ''*'') \<and> next_is (CHR ''/'')
            then (let (out, b) = sanitize False (tl us) in (SPACE # SPACE # out, b))
            else (let (out, b) = sanitize True us in (SPACE # out, b)))
         else if u = unit (CHR ''/'') \<and> next_is (CHR ''*'')
           then (let (out, b) = sanitize True (tl us) in (SPACE # SPACE # out, b))
         else if u = unit (CHR ''-'') \<and> next_is (CHR ''-'') then ([], False)
         else if u = unit CHR 0x27 \<or> u = unit CHR 0x22
           then (let (m, r) = mask_span u us; (out, b) = sanitize False r in (SPACE # m @ out, b))
         else (let (out, b) = sanitize False us in (u # out, b)))"
  by pat_completeness auto
termination
  by (relation "measure (\<lambda>(_, s). length s)") (auto dest: mask_span_shorter)

declare sanitize.simps [simp del]

text \<open>The masked line, and the state after it.\<close>

definition sanitizeSqlLine :: "units \<Rightarrow> bool \<Rightarrow> units \<times> bool" where
  "sanitizeSqlLine source inBlockComment = sanitize inBlockComment source"

section \<open>The rules\<close>

datatype migration_rule = DropTable | DropColumn | AlterColumnType | AddColumnNotNull

definition strip_word :: "string \<Rightarrow> units \<Rightarrow> units option" where
  "strip_word w s = (if take (length w) s = js_units w then Some (drop (length w) s) else None)"

definition skip_spaces :: "units \<Rightarrow> units option" where
  "skip_spaces s = (if s \<noteq> [] \<and> is_sql_space (hd s) then Some (dropWhile is_sql_space s) else None)"

definition space_or_end :: "units \<Rightarrow> bool" where
  "space_or_end s \<longleftrightarrow> s = [] \<or> is_sql_space (hd s)"

definition two_words :: "string \<Rightarrow> string \<Rightarrow> units \<Rightarrow> units option" where
  "two_words a b s = Option.bind (Option.bind (strip_word a s) skip_spaces) (strip_word b)"

fun somewhere :: "(units \<Rightarrow> bool) \<Rightarrow> units \<Rightarrow> bool" where
  "somewhere P [] = P []"
| "somewhere P (u # us) = (P (u # us) \<or> somewhere P us)"

definition is_semicolon :: "16 word \<Rightarrow> bool" where
  "is_semicolon u \<longleftrightarrow> u = unit (CHR '';'')"

definition is_separator :: "16 word \<Rightarrow> bool" where
  "is_separator u \<longleftrightarrow> u = unit (CHR '','') \<or> is_semicolon u"

definition drop_table_here :: "units \<Rightarrow> bool" where
  "drop_table_here s = (case two_words ''DROP'' ''TABLE'' s of None \<Rightarrow> False | Some r \<Rightarrow> space_or_end r)"

definition test_dropTable :: "units \<Rightarrow> bool" where
  "test_dropTable s \<longleftrightarrow> drop_table_here s \<or>
     somewhere (\<lambda>t. t \<noteq> [] \<and> (is_sql_space (hd t) \<or> is_semicolon (hd t)) \<and> drop_table_here (tl t)) s"

definition test_dropColumn :: "units \<Rightarrow> bool" where
  "test_dropColumn = somewhere (\<lambda>t. case two_words ''DROP'' ''COLUMN'' t of None \<Rightarrow> False | Some r \<Rightarrow> space_or_end r)"

definition type_here :: "units \<Rightarrow> bool" where
  "type_here t \<longleftrightarrow> t \<noteq> [] \<and> is_sql_space (hd t) \<and>
     (case strip_word ''TYPE'' (tl t) of None \<Rightarrow> False | Some r \<Rightarrow> space_or_end r)"

fun type_after :: "units \<Rightarrow> bool" where
  "type_after [] = type_here []"
| "type_after (u # us) = (type_here (u # us) \<or> (\<not> is_separator u \<and> type_after us))"

definition test_alterColumnType :: "units \<Rightarrow> bool" where
  "test_alterColumnType = somewhere (\<lambda>t. case two_words ''ALTER'' ''COLUMN'' t of
     None \<Rightarrow> False | Some r \<Rightarrow> r \<noteq> [] \<and> is_sql_space (hd r) \<and> type_after (tl r))"

definition test_addColumn :: "units \<Rightarrow> bool" where
  "test_addColumn = somewhere (\<lambda>t. case two_words ''ADD'' ''COLUMN'' t of None \<Rightarrow> False | Some r \<Rightarrow> space_or_end r)"

definition test_notNull :: "units \<Rightarrow> bool" where
  "test_notNull = somewhere (\<lambda>t. case two_words ''NOT'' ''NULL'' t of
     None \<Rightarrow> False | Some r \<Rightarrow> space_or_end r \<or> is_separator (hd r))"

definition test_defaultClause :: "units \<Rightarrow> bool" where
  "test_defaultClause = somewhere (\<lambda>t. case strip_word ''DEFAULT'' t of None \<Rightarrow> False | Some r \<Rightarrow> space_or_end r)"

definition matchedRules :: "units \<Rightarrow> migration_rule list" where
  "matchedRules upper =
     (if test_dropTable upper then [DropTable] else [])
     @ (if test_dropColumn upper then [DropColumn] else [])
     @ (if test_alterColumnType upper then [AlterColumnType] else [])
     @ (if test_addColumn upper \<and> test_notNull upper \<and> \<not> test_defaultClause upper then [AddColumnNotNull] else [])"

record sql_match =
  sm_line :: nat
  sm_rule :: migration_rule
  sm_snippet :: units

fun scan_records :: "nat \<Rightarrow> bool \<Rightarrow> units list \<Rightarrow> sql_match list" where
  "scan_records n inBlock [] = []"
| "scan_records n inBlock (record # rest) =
     (let raw = drop_cr_unit record; (out, inBlock') = sanitizeSqlLine raw inBlock
      in map (\<lambda>rule. \<lparr>sm_line = n, sm_rule = rule, sm_snippet = trimSpace raw\<rparr>) (matchedRules (asciiUpperCase out))
         @ scan_records (Suc n) inBlock' rest)"

definition scanSqlText :: "units \<Rightarrow> sql_match list" where
  "scanSqlText text = scan_records 1 False (toRecords text)"

section \<open>The allowlist\<close>

record allow_entry =
  ae_name :: units
  ae_reason :: units
  ae_line :: nat

type_synonym allowlist = "(units \<times> allow_entry) list"

definition allow_line :: "nat \<Rightarrow> units \<Rightarrow> allowlist \<Rightarrow> allowlist" where
  "allow_line n record entries =
     (let trimmed = dropWhile is_ascii_space (drop_cr_unit record)
      in if trimmed = [] \<or> hd trimmed = unit (CHR ''#'') then entries
         else let name = takeWhile (\<lambda>u. \<not> is_ascii_space u) trimmed;
                  reason = dropWhile is_ascii_space (drop (length name) trimmed)
              in AList.update name \<lparr>ae_name = name, ae_reason = reason, ae_line = n\<rparr> entries)"

fun allow_records :: "nat \<Rightarrow> units list \<Rightarrow> allowlist \<Rightarrow> allowlist" where
  "allow_records n [] entries = entries"
| "allow_records n (r # rs) entries = allow_records (Suc n) rs (allow_line n r entries)"

definition parseAllowlist :: "units \<Rightarrow> allowlist" where
  "parseAllowlist text = allow_records 1 (toRecords text) []"

definition findStaleEntries :: "allowlist \<Rightarrow> (units \<Rightarrow> bool) \<Rightarrow> allow_entry list" where
  "findStaleEntries entries migrationExists =
     js_sort (\<lambda>l r. compareByCodepointUnits (ae_name l) (ae_name r))
       (filter (\<lambda>e. \<not> migrationExists (ae_name e)) (map snd entries))"

section \<open>Classification\<close>

record rule_hit =
  rh_path :: units
  rh_line :: nat
  rh_rule :: migration_rule
  rh_snippet :: units

record classified_hit = rule_hit +
  ch_acknowledgedReason :: "units option"
  ch_summaryKey :: "units option"

text \<open>
  \<open>path.posix.dirname\<close> and \<open>basename\<close>: trailing slashes are ignored; a path without a slash has the
  directory \<open>.\<close>; \<open>//a\<close> has the directory \<open>//\<close>.
\<close>

definition SLASH :: "16 word" where "SLASH = unit (CHR ''/'')"

definition strip_slashes :: "units \<Rightarrow> units" where
  "strip_slashes p = rev (dropWhile (\<lambda>u. u = SLASH) (rev p))"

definition posix_base :: "units \<Rightarrow> units" where
  "posix_base p = rev (takeWhile (\<lambda>u. u \<noteq> SLASH) (rev (strip_slashes p)))"

definition posix_dir :: "units \<Rightarrow> units" where
  "posix_dir p =
     (let q = strip_slashes p; d = rev (dropWhile (\<lambda>u. u \<noteq> SLASH) (rev q))
      in if p = [] then js_units ''.''
         else if q = [] then [SLASH]
         else if d = [] then js_units ''.''
         else if length d = 1 then [SLASH]
         else if length d = 2 \<and> hd p = SLASH then [SLASH, SLASH]
         else butlast d)"

definition migrationNameFor :: "units \<Rightarrow> units" where
  "migrationNameFor p = posix_base (posix_dir p)"

definition MIGRATION_SQL_SUFFIX :: units where
  "MIGRATION_SQL_SUFFIX = js_units ''/migration.sql''"

definition summaryKeyFor :: "units \<Rightarrow> allowlist \<Rightarrow> units option" where
  "summaryKeyFor path entries =
     (let key = (if suffix MIGRATION_SQL_SUFFIX path then take (length path - length MIGRATION_SQL_SUFFIX) path else path);
          name = last (split_units SLASH key)
      in if map_of entries name \<noteq> None then None else Some key)"

fun rule_text :: "migration_rule \<Rightarrow> string" where
  "rule_text DropTable = ''DROP TABLE''"
| "rule_text DropColumn = ''DROP COLUMN''"
| "rule_text AlterColumnType = ''ALTER COLUMN ... TYPE''"
| "rule_text AddColumnNotNull = ''ADD COLUMN ... NOT NULL without DEFAULT''"

definition compareHits :: "'a rule_hit_scheme cmp" where
  "compareHits l r =
     (let byPath = compareByCodepointUnits (rh_path l) (rh_path r)
      in if byPath \<noteq> 0 then byPath
         else if rh_line l \<noteq> rh_line r then int (rh_line l) - int (rh_line r)
         else compareByCodepointUnits (js_units (rule_text (rh_rule l)) @ [0x09] @ rh_snippet l)
                (js_units (rule_text (rh_rule r)) @ [0x09] @ rh_snippet r))"

definition classify_hit :: "allowlist \<Rightarrow> rule_hit \<Rightarrow> classified_hit" where
  "classify_hit entries h =
     rule_hit.extend h (classified_hit.fields
       (map_option ae_reason (map_of entries (migrationNameFor (rh_path h)))) (summaryKeyFor (rh_path h) entries))"

definition classifyHits :: "rule_hit list \<Rightarrow> allowlist \<Rightarrow> classified_hit list" where
  "classifyHits hits entries = js_sort compareHits (map (classify_hit entries) hits)"

record scan_totals =
  st_total :: nat
  st_fileCount :: nat
  st_acknowledged :: nat
  st_unacknowledged :: nat
  st_unacknowledgedMigrations :: nat

definition scanTotals :: "classified_hit list \<Rightarrow> scan_totals" where
  "scanTotals hits =
     (let acknowledged = length (filter (\<lambda>h. ch_acknowledgedReason h \<noteq> None) hits)
      in \<lparr>st_total = length hits, st_fileCount = length (js_set (map rh_path hits)),
          st_acknowledged = acknowledged, st_unacknowledged = length hits - acknowledged,
          st_unacknowledgedMigrations = length (js_set (List.map_filter ch_summaryKey hits))\<rparr>)"

end
