(* ===== verification/MigrationLaws.thy ===== *)
theory MigrationLaws
  imports MigrationSafety
begin

text \<open>
  Properties of the migration scanner: the lexer only masks, it leaves plain text alone, it keeps a
  block comment silent across lines, and what is then left is reported with its line; the last line
  of the allowlist for a name is the one that counts.
\<close>

section \<open>The lexer\<close>

definition masks :: "units \<Rightarrow> units \<Rightarrow> bool" where
  "masks out source \<longleftrightarrow> length out \<le> length source \<and> list_all2 (\<lambda>o' u. o' = u \<or> o' = SPACE) out (take (length out) source)"

lemma masks_Nil [simp]: "masks [] s"
  by (simp add: masks_def)

lemma masks_Cons [simp]: "masks (a # out) (u # us) \<longleftrightarrow> (a = u \<or> a = SPACE) \<and> masks out us"
  by (auto simp: masks_def)

lemma masks_append:
  "list_all2 (\<lambda>o' u. o' = u \<or> o' = SPACE) m us \<Longrightarrow> masks out vs \<Longrightarrow> masks (m @ out) (us @ vs)"
  by (induction m us rule: list_all2_induct) simp_all

lemma mask_span_spaces: "mask_span q s = (m, r) \<Longrightarrow> list_all2 (\<lambda>o' u. o' = u \<or> o' = SPACE) m (take (length m) s)"
  by (induction q s arbitrary: m r rule: mask_span.induct) (auto split: if_splits prod.splits)

lemma masks_two [simp]: "masks (a # b # out) (u # v # us) \<longleftrightarrow> (a = u \<or> a = SPACE) \<and> (b = v \<or> b = SPACE) \<and> masks out us"
  by simp

lemma fst_prod_case: "fst (case p of (out, b) \<Rightarrow> (f out, b)) = f (fst p)"
  by (cases p) simp

lemma sanitize_masks_base: "masks (fst (sanitize b s)) s"
proof (induction "length s" arbitrary: b s rule: less_induct)
  case less
  note IH = less
  show ?case
  proof (cases s)
    case Nil
    then show ?thesis by (simp add: sanitize.simps)
  next
    case s: (Cons u us)
    have us: "masks (fst (sanitize c us)) us" for c by (rule IH) (simp add: s)
    have two: "us \<noteq> [] \<Longrightarrow> masks (SPACE # SPACE # fst (sanitize c (tl us))) (u # us)" for c
    proof (cases us)
      case (Cons v vs)
      have "masks (fst (sanitize c vs)) vs" by (rule IH) (simp add: s Cons)
      then show ?thesis by (simp add: Cons)
    qed simp
    obtain m r where mr: "mask_span u us = (m, r)" by fastforce
    note len = mask_span_length[OF mr]
    have "masks (fst (sanitize False r)) r" by (rule IH) (use len s in simp)
    then have "masks (m @ fst (sanitize False r)) (take (length m) us @ r)"
      by (rule masks_append[OF mask_span_spaces[OF mr]])
    moreover have "take (length m) us @ r = us" using len by (metis append_take_drop_id)
    ultimately have quote: "masks (SPACE # m @ fst (sanitize False r)) (u # us)" by simp
    show ?thesis
      unfolding s sanitize.simps Let_def
      by (simp only: fst_prod_case mr prod.case if_distrib[of fst] fst_conv)
         (use us two quote in \<open>simp split: if_splits\<close>)
  qed
qed

text \<open>
  The lexer only masks. At every position of the line it writes the source's own character or a
  space, and it never writes past the line, so whatever a rule finds in the masked line stands at
  the same column of the source.
\<close>

theorem lexer_only_masks:
  "length (fst (sanitizeSqlLine source inBlock)) \<le> length source \<and>
   list_all2 (\<lambda>o' u. o' = u \<or> o' = SPACE) (fst (sanitizeSqlLine source inBlock))
     (take (length (fst (sanitizeSqlLine source inBlock))) source)"
  using sanitize_masks_base unfolding masks_def sanitizeSqlLine_def .

section \<open>Plain text and comments\<close>

text \<open>A line without quotes and without the two comment openers.\<close>

fun pair_in :: "16 word \<Rightarrow> 16 word \<Rightarrow> units \<Rightarrow> bool" where
  "pair_in a b [] = False"
| "pair_in a b (u # us) = ((u = a \<and> us \<noteq> [] \<and> hd us = b) \<or> pair_in a b us)"

definition plain_line :: "units \<Rightarrow> bool" where
  "plain_line s \<longleftrightarrow> unit CHR 0x27 \<notin> set s \<and> unit CHR 0x22 \<notin> set s
     \<and> \<not> pair_in (unit (CHR ''/'')) (unit (CHR ''*'')) s \<and> \<not> pair_in (unit (CHR ''-'')) (unit (CHR ''-'')) s"

lemma sanitize_plain: "plain_line s \<Longrightarrow> sanitize False s = (s, False)"
  by (induction s) (auto simp: sanitize.simps plain_line_def)

lemma sanitize_comment: "\<not> pair_in (unit (CHR ''*'')) (unit (CHR ''/'')) s \<Longrightarrow> sanitize True s = (replicate (length s) SPACE, True)"
  by (induction s) (auto simp: sanitize.simps)

lemma pair_in_drop_cr: "pair_in a b (drop_cr_unit s) \<Longrightarrow> pair_in a b s"
proof -
  have "pair_in a b us \<Longrightarrow> pair_in a b (us @ [v])" for us v
    by (induction us) (auto simp: hd_append)
  then show "pair_in a b (drop_cr_unit s) \<Longrightarrow> pair_in a b s"
    by (auto simp: drop_cr_unit_def split: if_splits) (metis append_butlast_last_id)
qed

lemma set_drop_cr: "set (drop_cr_unit s) \<subseteq> set s"
  by (auto simp: drop_cr_unit_def dest: in_set_butlastD)

lemma plain_drop_cr: "plain_line s \<Longrightarrow> plain_line (drop_cr_unit s)"
  using set_drop_cr[of s] pair_in_drop_cr by (auto simp: plain_line_def)

definition found :: "nat \<Rightarrow> units \<Rightarrow> units \<Rightarrow> sql_match list" where
  "found n raw shown = map (\<lambda>rule. \<lparr>sm_line = n, sm_rule = rule, sm_snippet = trimSpace raw\<rparr>) (matchedRules (asciiUpperCase shown))"

lemma scan_records_Cons:
  "sanitize b (drop_cr_unit r) = (out, b') \<Longrightarrow> scan_records n b (r # rs) = found n (drop_cr_unit r) out @ scan_records (Suc n) b' rs"
  by (simp add: found_def sanitizeSqlLine_def)

lemma scan_append:
  "list_all plain_line rs \<Longrightarrow> scan_records n False (rs @ ss) = scan_records n False rs @ scan_records (n + length rs) False ss"
  by (induction rs arbitrary: n)
    (simp_all add: scan_records_Cons[OF sanitize_plain[OF plain_drop_cr]] del: scan_records.simps(2))

lemma scan_plain:
  "list_all plain_line rs \<Longrightarrow>
   scan_records n False rs = concat (map (\<lambda>(i, r). found i (drop_cr_unit r) (drop_cr_unit r)) (enumerate n rs))"
  by (induction rs arbitrary: n)
    (simp_all add: scan_records_Cons[OF sanitize_plain[OF plain_drop_cr]] del: scan_records.simps(2))

text \<open>A blank line has no rule.\<close>

lemma strip_word_blank:
  assumes "w \<noteq> []" "hd w \<noteq> CHR '' ''"
  shows "strip_word w (replicate n SPACE) = None"
proof -
  obtain c cs where w: "w = c # cs" using assms(1) by (cases w) auto
  have "unit c \<noteq> SPACE"
  proof
    assume "unit c = SPACE"
    then have "js_units [c] = js_units '' ''" by (simp add: js_units_def SPACE_def)
    then show False using js_units_inj assms(2) w by force
  qed
  then have "take (length w) (replicate n SPACE) \<noteq> js_units w"
    unfolding w js_units_def by (cases n) simp_all
  then show ?thesis unfolding strip_word_def by (rule if_not_P)
qed

lemma somewhere_blank: "(\<And>m. \<not> P (replicate m SPACE)) \<Longrightarrow> \<not> somewhere P (replicate n SPACE)"
proof (induction n)
  case (Suc n)
  then show ?case using Suc.prems[of "Suc n"] by simp
qed (metis replicate_0 somewhere.simps(1))

lemma two_words_blank: "a \<noteq> [] \<Longrightarrow> hd a \<noteq> CHR '' '' \<Longrightarrow> two_words a b (replicate n SPACE) = None"
  by (simp add: two_words_def strip_word_blank)

lemma drop_table_blank: "\<not> drop_table_here (replicate n SPACE)"
  by (simp add: drop_table_here_def two_words_blank)

lemma matchedRules_blank: "matchedRules (asciiUpperCase (replicate n SPACE)) = []"
proof -
  have up: "asciiUpperCase (replicate n SPACE) = replicate n SPACE" by (simp add: asciiUpperCase_def SPACE_def)
  have tl: "tl (replicate m SPACE) = replicate (m - 1) SPACE" for m by (cases m) simp_all
  have 1: "\<not> test_dropTable (replicate n SPACE)"
    unfolding test_dropTable_def using drop_table_blank somewhere_blank[where P = "\<lambda>t. t \<noteq> [] \<and> (is_sql_space (hd t) \<or> is_semicolon (hd t)) \<and> drop_table_here (tl t)"]
    by (simp add: tl)
  have 2: "\<not> test_dropColumn (replicate n SPACE)"
    unfolding test_dropColumn_def by (rule somewhere_blank) (simp add: two_words_blank)
  have 3: "\<not> test_alterColumnType (replicate n SPACE)"
    unfolding test_alterColumnType_def by (rule somewhere_blank) (simp add: two_words_blank)
  have 4: "\<not> test_addColumn (replicate n SPACE)"
    unfolding test_addColumn_def by (rule somewhere_blank) (simp add: two_words_blank)
  show ?thesis unfolding up matchedRules_def using 1 2 3 4 by simp
qed

lemma found_blank [simp]: "found n raw (replicate k SPACE) = []"
  by (simp add: found_def matchedRules_blank)

text \<open>The lines of a comment.\<close>

definition no_close :: "units \<Rightarrow> bool" where
  "no_close s \<longleftrightarrow> \<not> pair_in (unit (CHR ''*'')) (unit (CHR ''/'')) s"

lemma sanitize_open: "no_close c \<Longrightarrow> sanitize False (js_units ''/*'' @ c) = (replicate (length c + 2) SPACE, True)"
  by (simp add: sanitize.simps js_units_def no_close_def sanitize_comment numeral_2_eq_2)

lemma sanitize_close: "no_close c \<Longrightarrow> sanitize True (c @ js_units ''*/'') = (replicate (length c + 2) SPACE, False)"
proof (induction c)
  case Nil
  then show ?case by (simp add: sanitize.simps js_units_def numeral_2_eq_2)
next
  case (Cons u us)
  then have "sanitize True (us @ js_units ''*/'') = (replicate (length us + 2) SPACE, False)"
    by (simp add: no_close_def)
  moreover have "hd (us @ js_units ''*/'') \<noteq> unit (CHR ''/'')" if "u = unit (CHR ''*'')"
    using Cons.prems that by (cases us) (simp_all add: no_close_def js_units_def)
  ultimately show ?case by (auto simp: sanitize.simps)
qed

lemma scan_comment:
  "list_all no_close cs \<Longrightarrow> scan_records n True (cs @ ss) = scan_records (n + length cs) True ss"
proof (induction cs arbitrary: n)
  case (Cons c cs)
  have "sanitize True (drop_cr_unit c) = (replicate (length (drop_cr_unit c)) SPACE, True)"
    using Cons.prems pair_in_drop_cr by (auto simp: no_close_def intro!: sanitize_comment)
  from scan_records_Cons[OF this] Cons show ?case by (simp del: scan_records.simps(2))
qed simp

lemma drop_cr_open: "drop_cr_unit (js_units ''/*'' @ c) = js_units ''/*'' @ drop_cr_unit c"
  by (auto simp: drop_cr_unit_def js_units_def butlast_append)

lemma drop_cr_close: "drop_cr_unit (c @ js_units ''*/'') = c @ js_units ''*/''"
  by (simp add: drop_cr_unit_def js_units_def)

definition sql_lines :: "units list \<Rightarrow> units" where
  "sql_lines rs = concat (map (\<lambda>r. r @ [0x0A]) rs)"

lemma split_units_line: "d \<notin> set r \<Longrightarrow> split_units d (r @ d # t) = r # split_units d t"
  by (induction r) auto

lemma toRecords_lines: "list_all (\<lambda>r. 0x0A \<notin> set r) rs \<Longrightarrow> toRecords (sql_lines rs) = rs"
proof -
  assume a: "list_all (\<lambda>r. 0x0A \<notin> set r) rs"
  then have s: "split_units 0x0A (sql_lines rs) = rs @ [[]]"
    by (induction rs) (simp_all add: sql_lines_def split_units_line)
  show ?thesis by (cases rs) (use s in \<open>simp_all add: toRecords_def sql_lines_def\<close>)
qed

definition line_reports :: "nat \<Rightarrow> units list \<Rightarrow> sql_match list" where
  "line_reports n rs = concat (map (\<lambda>(i, r). map (\<lambda>rule. \<lparr>sm_line = i, sm_rule = rule, sm_snippet = trimSpace (drop_cr_unit r)\<rparr>)
     (matchedRules (asciiUpperCase (drop_cr_unit r)))) (enumerate n rs))"

lemma scan_commented_base:
  assumes plain: "list_all plain_line rs" "list_all plain_line ss"
    and inside: "no_close c" "list_all no_close cs" "no_close c'"
    and lf: "list_all (\<lambda>r. 0x0A \<notin> set r) (rs @ [js_units ''/*'' @ c] @ cs @ [c' @ js_units ''*/''] @ ss)"
  shows "scanSqlText (sql_lines (rs @ [js_units ''/*'' @ c] @ cs @ [c' @ js_units ''*/''] @ ss)) =
    line_reports 1 rs @ line_reports (length rs + length cs + 3) ss"
proof -
  have open': "sanitize False (drop_cr_unit (js_units ''/*'' @ c)) = (replicate (length (drop_cr_unit c) + 2) SPACE, True)"
    unfolding drop_cr_open using inside(1) pair_in_drop_cr by (intro sanitize_open) (auto simp: no_close_def)
  have close': "sanitize True (drop_cr_unit (c' @ js_units ''*/'')) = (replicate (length c' + 2) SPACE, False)"
    unfolding drop_cr_close by (rule sanitize_close[OF inside(3)])
  have reports: "scan_records n False xs = line_reports n xs" if "list_all plain_line xs" for n xs
    unfolding scan_plain[OF that] line_reports_def found_def ..
  have "scanSqlText (sql_lines (rs @ [js_units ''/*'' @ c] @ cs @ [c' @ js_units ''*/''] @ ss)) =
      scan_records 1 False (rs @ [js_units ''/*'' @ c] @ cs @ [c' @ js_units ''*/''] @ ss)"
    unfolding scanSqlText_def toRecords_lines[OF lf] ..
  also have "\<dots> = line_reports 1 rs @ scan_records (1 + length rs) False ((js_units ''/*'' @ c) # (cs @ [c' @ js_units ''*/''] @ ss))"
    unfolding scan_append[OF plain(1)] reports[OF plain(1)] by simp
  also have "\<dots> = line_reports 1 rs @ scan_records (2 + length rs + length cs) True ((c' @ js_units ''*/'') # ss)"
    unfolding scan_records_Cons[OF open'] by (simp add: scan_comment[OF inside(2)] del: scan_records.simps(2) replicate.simps add_2_eq_Suc')
  also have "\<dots> = line_reports 1 rs @ line_reports (length rs + length cs + 3) ss"
    unfolding scan_records_Cons[OF close'] found_blank by (simp add: reports[OF plain(2)] eval_nat_numeral)
  finally show ?thesis .
qed

text \<open>
  C33: a migration made of lines of plain SQL, a block comment over several lines, and further lines
  of plain SQL is reported exactly by the rules that the upper-cased plain lines match, each with its
  own line number; whatever the comment says is not reported, and it shifts no line number.
\<close>

theorem commented_migration_reports_exact:
  assumes "list_all plain_line rs" "list_all plain_line ss"
    and "no_close c" "list_all no_close cs" "no_close c'"
    and "list_all (\<lambda>r. 0x0A \<notin> set r) (rs @ [js_units ''/*'' @ c] @ cs @ [c' @ js_units ''*/''] @ ss)"
  shows "scanSqlText (sql_lines (rs @ [js_units ''/*'' @ c] @ cs @ [c' @ js_units ''*/''] @ ss)) =
    line_reports 1 rs @ line_reports (length rs + length cs + 3) ss"
  by (rule scan_commented_base[OF assms])

lemma commented_migration_reports_exact_witness:
  "scanSqlText (sql_lines ([js_units ''drop table a;''] @ [js_units ''/*'' @ js_units '' drop column b''] @ []
      @ [js_units ''drop table c '' @ js_units ''*/''] @ [js_units ''alter table d drop   column e;''])) =
    line_reports 1 [js_units ''drop table a;''] @ line_reports 4 [js_units ''alter table d drop   column e;'']
   \<and> map (\<lambda>m. (sm_line m, sm_rule m)) (line_reports 1 [js_units ''drop table a;'']
       @ line_reports 4 [js_units ''alter table d drop   column e;'']) = [(1, DropTable), (4, DropColumn)]"
proof
  show "scanSqlText (sql_lines ([js_units ''drop table a;''] @ [js_units ''/*'' @ js_units '' drop column b''] @ []
      @ [js_units ''drop table c '' @ js_units ''*/''] @ [js_units ''alter table d drop   column e;''])) =
    line_reports 1 [js_units ''drop table a;''] @ line_reports 4 [js_units ''alter table d drop   column e;'']"
    by (rule trans[OF commented_migration_reports_exact])
      (simp_all add: plain_line_def no_close_def js_units_def)
  show "map (\<lambda>m. (sm_line m, sm_rule m)) (line_reports 1 [js_units ''drop table a;'']
       @ line_reports 4 [js_units ''alter table d drop   column e;'']) = [(1, DropTable), (4, DropColumn)]"
    by code_simp
qed

section \<open>The allowlist\<close>

text \<open>The entry of one line, the entries of all lines in their order, and the last one for a name.\<close>

definition line_entry :: "nat \<Rightarrow> units \<Rightarrow> allow_entry option" where
  "line_entry n record =
     (let trimmed = dropWhile is_ascii_space (drop_cr_unit record);
          name = takeWhile (\<lambda>u. \<not> is_ascii_space u) trimmed
      in if trimmed = [] \<or> hd trimmed = unit (CHR ''#'') then None
         else Some \<lparr>ae_name = name, ae_reason = dropWhile is_ascii_space (drop (length name) trimmed), ae_line = n\<rparr>)"

definition line_entries :: "nat \<Rightarrow> units list \<Rightarrow> allow_entry list" where
  "line_entries n rs = List.map_filter (\<lambda>(i, r). line_entry i r) (enumerate n rs)"

definition named_pairs :: "allow_entry list \<Rightarrow> allowlist" where
  "named_pairs es = map (\<lambda>e. (ae_name e, e)) es"

lemma line_entries_Cons: "line_entries n (r # rs) = (case line_entry n r of None \<Rightarrow> [] | Some e \<Rightarrow> [e]) @ line_entries (Suc n) rs"
  by (simp add: line_entries_def List.map_filter_def split: option.splits)

lemma allow_line_entry:
  "allow_line n r m = (case line_entry n r of None \<Rightarrow> m | Some e \<Rightarrow> AList.update (ae_name e) e m)"
  by (simp add: allow_line_def line_entry_def Let_def)

lemma allow_records_fold: "allow_records n rs m = fold (\<lambda>(k, v). AList.update k v) (named_pairs (line_entries n rs)) m"
  by (induction rs arbitrary: n m)
    (simp_all add: line_entries_Cons allow_line_entry named_pairs_def line_entries_def[of _ "[]"] List.map_filter_def split: option.splits)

lemma parseAllowlist_map: "parseAllowlist text = map_from (named_pairs (line_entries 1 (toRecords text)))"
  by (simp add: parseAllowlist_def allow_records_fold map_from_def)

lemma map_of_named: "map_of (map (\<lambda>e. (ae_name e, e)) es) k = find (\<lambda>e. ae_name e = k) es"
  by (induction es) auto

lemma named_in_list: "(k, e) \<in> set (parseAllowlist text) \<Longrightarrow> k = ae_name e"
  using set_map_from[of "named_pairs (line_entries 1 (toRecords text))"]
  by (auto simp: parseAllowlist_map named_pairs_def)

lemma allowlist_last_base:
  "map_of (parseAllowlist text) name = find (\<lambda>e. ae_name e = name) (rev (line_entries 1 (toRecords text)))"
  by (simp add: parseAllowlist_map map_of_map_from named_pairs_def rev_map map_of_named)

text \<open>
  The allowlist holds for a name the entry of the last line that spells it, with that line's
  reason and number, and nothing for a name no line spells.
\<close>

theorem allowlist_last_line_wins:
  "map_of (parseAllowlist text) name = find (\<lambda>e. ae_name e = name) (rev (line_entries 1 (toRecords text)))"
  by (rule allowlist_last_base)

definition name_cmp :: "allow_entry cmp" where
  "name_cmp l r = compareByCodepointUnits (ae_name l) (ae_name r)"

interpretation nc: comparator name_cmp
  by unfold_locales (auto simp: name_cmp_def cpu.cmp_total intro: cpu.cmp_trans)

lemma stale_entries_base:
  "sorted_wrt (\<lambda>l r. compareByCodepointUnits (ae_name l) (ae_name r) \<le> 0) (findStaleEntries (parseAllowlist text) ex)
   \<and> distinct (map ae_name (findStaleEntries (parseAllowlist text) ex))
   \<and> (e \<in> set (findStaleEntries (parseAllowlist text) ex) \<longleftrightarrow>
      map_of (parseAllowlist text) (ae_name e) = Some e \<and> \<not> ex (ae_name e))"
proof -
  let ?m = "parseAllowlist text"
  have form: "findStaleEntries ?m ex = js_sort name_cmp (filter (\<lambda>e. \<not> ex (ae_name e)) (map snd ?m))"
    unfolding findStaleEntries_def name_cmp_def ..
  have dist: "distinct (map fst ?m)" by (simp add: parseAllowlist_map)
  have names: "map ae_name (map snd ?m) = map fst ?m" using named_in_list by (auto simp del: )
  have "e \<in> snd ` set ?m \<longleftrightarrow> map_of ?m (ae_name e) = Some e"
    using dist named_in_list by (force simp: map_of_eq_Some_iff)
  then show ?thesis
    unfolding form using nc.sorted_js_sort dist names
    by (auto simp: name_cmp_def distinct_map_filter simp del: map_map map_of_eq_Some_iff)
qed

text \<open>
  The stale entries are exactly the entries in force whose migration does not exist, each name
  once, in code point order.
\<close>

theorem stale_entries_exact:
  "sorted_wrt (\<lambda>l r. compareByCodepointUnits (ae_name l) (ae_name r) \<le> 0) (findStaleEntries (parseAllowlist text) ex)
   \<and> distinct (map ae_name (findStaleEntries (parseAllowlist text) ex))
   \<and> (e \<in> set (findStaleEntries (parseAllowlist text) ex) \<longleftrightarrow>
      map_of (parseAllowlist text) (ae_name e) = Some e \<and> \<not> ex (ae_name e))"
  by (rule stale_entries_base)

section \<open>Classification\<close>

text \<open>The report order is a total order on hits.\<close>

lemma no_tab_rule: "0x09 \<notin> set (js_units (rule_text r))"
  by (cases r) (simp_all add: js_units_def)

lemma rule_text_inj: "js_units (rule_text a) = js_units (rule_text b) \<Longrightarrow> a = b"
  by (drule js_units_inj) (cases a; cases b; simp)

lemma tab_split: "d \<notin> set a \<Longrightarrow> d \<notin> set b \<Longrightarrow> a @ d # x = b @ d # y \<Longrightarrow> a = b \<and> x = y"
  by (induction a arbitrary: b) (case_tac b; auto)+

abbreviation hit_text :: "'a rule_hit_scheme \<Rightarrow> units" where
  "hit_text h \<equiv> js_units (rule_text (rh_rule h)) @ [0x09] @ rh_snippet h"

lemma hit_text_inj: "hit_text a = hit_text b \<Longrightarrow> rh_rule a = rh_rule b \<and> rh_snippet a = rh_snippet b"
  unfolding append.simps by (drule tab_split[OF no_tab_rule no_tab_rule]) (blast dest: rule_text_inj)

lemma units_zero: "compareByCodepointUnits a b = 0 \<longleftrightarrow> a = b"
  using decode_inj[of a b] by (auto simp: compare_units_lex lex_cmp_eq_0)

lemma compareHits_le:
  "compareHits l r \<le> 0 \<longleftrightarrow>
     (if rh_path l \<noteq> rh_path r then compareByCodepointUnits (rh_path l) (rh_path r) \<le> 0
      else if rh_line l \<noteq> rh_line r then rh_line l < rh_line r
      else compareByCodepointUnits (hit_text l) (hit_text r) \<le> 0)"
  by (auto simp: compareHits_def Let_def units_zero)

interpretation hc: strict_comparator "compareHits :: rule_hit cmp"
proof unfold_locales
  fix x y z :: rule_hit
  show "compareHits x y \<le> 0 \<or> compareHits y x \<le> 0"
    using cpu.cmp_total by (auto simp: compareHits_le)
  show "compareHits x y \<le> 0 \<Longrightarrow> compareHits y z \<le> 0 \<Longrightarrow> compareHits x z \<le> 0"
    unfolding compareHits_le
    by (auto split: if_splits intro: cpu.cmp_trans dest: cpu.cmp_antisym)
  assume "compareHits x y \<le> 0" "compareHits y x \<le> 0"
  then have "rh_path x = rh_path y" unfolding compareHits_le by (metis cpu.cmp_antisym)
  moreover from this have "rh_line x = rh_line y"
    using \<open>compareHits x y \<le> 0\<close> \<open>compareHits y x \<le> 0\<close> unfolding compareHits_le by (auto split: if_splits)
  moreover from this calculation have "hit_text x = hit_text y"
    using \<open>compareHits x y \<le> 0\<close> \<open>compareHits y x \<le> 0\<close> unfolding compareHits_le by (auto intro: cpu.cmp_antisym)
  ultimately show "x = y" using hit_text_inj[of x y] by (cases x; cases y) auto
qed

lemma classify_base [simp]:
  "rh_path (classify_hit al h) = rh_path h" "rh_line (classify_hit al h) = rh_line h"
  "rh_rule (classify_hit al h) = rh_rule h" "rh_snippet (classify_hit al h) = rh_snippet h"
  "ch_acknowledgedReason (classify_hit al h) = map_option ae_reason (map_of al (migrationNameFor (rh_path h)))"
  "ch_summaryKey (classify_hit al h) = summaryKeyFor (rh_path h) al"
  by (simp_all add: classify_hit_def rule_hit.defs classified_hit.defs)

lemma compareHits_classified [simp]: "compareHits (classify_hit al a) (classify_hit al b) = compareHits a b"
  by (simp add: compareHits_def Let_def)

lemma insert_classified: "js_insert compareHits (classify_hit al h) (map (classify_hit al) hs) = map (classify_hit al) (js_insert compareHits h hs)"
  by (induction hs) auto

lemma sort_classified: "classifyHits hs al = map (classify_hit al) (js_sort compareHits hs)"
  unfolding classifyHits_def by (induction hs) (simp_all add: insert_classified)

text \<open>
  The report lists every hit once with its acknowledgement, in the order of path, line and rule,
  and does not depend on the order in which the files were scanned.
\<close>

theorem classified_report_canonical:
  assumes "mset hits = mset hits'"
  shows "classifyHits hits al = classifyHits hits' al
    \<and> mset (classifyHits hits al) = image_mset (classify_hit al) (mset hits)
    \<and> sorted_wrt (\<lambda>l r. compareHits l r \<le> 0) (classifyHits hits al)"
  using hc.js_sort_cong[OF assms] hc.sorted_js_sort[of hits]
  by (simp add: sort_classified sorted_wrt_map assms)

text \<open>The summary key of a conventional path.\<close>

lemma split_units_not_Nil [simp]: "split_units d s \<noteq> []"
  by (induction s) (auto split: list.splits)

lemma split_units_append: "split_units d (a @ d # b) = split_units d a @ split_units d b"
  by (induction a) (auto split: list.splits)

lemma split_units_plain: "d \<notin> set b \<Longrightarrow> split_units d b = [b]"
  by (induction b) auto

lemma split_last: "d \<notin> set b \<Longrightarrow> last (split_units d (a @ d # b)) = b"
  by (simp add: split_units_append split_units_plain)

lemma conventional_name:
  assumes n: "SLASH \<notin> set name" "name \<noteq> []"
  shows "migrationNameFor (d @ [SLASH] @ name @ MIGRATION_SQL_SUFFIX) = name"
proof -
  have suf: "MIGRATION_SQL_SUFFIX = SLASH # js_units ''migration.sql''" "SLASH \<notin> set (js_units ''migration.sql'')"
    by (simp_all add: MIGRATION_SQL_SUFFIX_def SLASH_def js_units_def)
  let ?p = "d @ [SLASH] @ name @ MIGRATION_SQL_SUFFIX"
  have plain: "strip_slashes (xs @ ys) = xs @ ys" if "ys \<noteq> []" "SLASH \<notin> set ys" for xs ys
    using that by (cases ys rule: rev_cases) (auto simp: strip_slashes_def)
  have tail: "dropWhile (\<lambda>u. u \<noteq> SLASH) (rev (xs @ SLASH # ys)) = SLASH # rev xs" if "SLASH \<notin> set ys" for xs ys
    using that by (simp add: dropWhile_append)
  have ne: "js_units ''migration.sql'' \<noteq> []" by (simp add: js_units_def)
  have q: "strip_slashes ?p = (d @ [SLASH] @ name) @ SLASH # js_units ''migration.sql''"
    using plain[of "js_units ''migration.sql''" "d @ [SLASH] @ name @ [SLASH]"] suf ne by simp
  have "posix_dir ?p = d @ [SLASH] @ name"
    unfolding posix_dir_def Let_def q tail[OF suf(2)] using n(2)
    by (cases d; cases name) (auto simp: butlast_append)
  moreover have "strip_slashes (d @ [SLASH] @ name) = d @ [SLASH] @ name"
    using plain[OF n(2) n(1), of "d @ [SLASH]"] by simp
  ultimately show ?thesis
    using n(1) by (simp add: migrationNameFor_def posix_base_def takeWhile_append)
qed

lemma conventional_key:
  assumes "SLASH \<notin> set name"
  shows "summaryKeyFor (d @ [SLASH] @ name @ MIGRATION_SQL_SUFFIX) al =
    (if map_of al name \<noteq> None then None else Some (d @ [SLASH] @ name))"
proof -
  have "suffix MIGRATION_SQL_SUFFIX (d @ [SLASH] @ name @ MIGRATION_SQL_SUFFIX)" by (simp add: suffix_def)
  then show ?thesis using split_last[OF assms, of d] by (simp add: summaryKeyFor_def)
qed

definition conventional :: "rule_hit \<Rightarrow> bool" where
  "conventional h \<longleftrightarrow> (\<exists>d name. SLASH \<notin> set name \<and> name \<noteq> [] \<and> rh_path h = d @ [SLASH] @ name @ MIGRATION_SQL_SUFFIX)"

lemma conventional_agrees:
  "conventional h \<Longrightarrow> (ch_summaryKey (classify_hit al h) = None \<longleftrightarrow> ch_acknowledgedReason (classify_hit al h) \<noteq> None)"
  by (auto simp: conventional_def conventional_name[simplified] conventional_key[simplified] split: if_splits)

lemma totals_of:
  "scanTotals (map (classify_hit al) hs) =
     \<lparr>st_total = length hs, st_fileCount = card (rh_path ` set hs),
      st_acknowledged = length (filter (\<lambda>h. ch_acknowledgedReason (classify_hit al h) \<noteq> None) hs),
      st_unacknowledged = length (filter (\<lambda>h. ch_acknowledgedReason (classify_hit al h) = None) hs),
      st_unacknowledgedMigrations = card {k. \<exists>h \<in> set hs. summaryKeyFor (rh_path h) al = Some k}\<rparr>"
proof -
  have card: "length (js_set xs) = card (set xs)" for xs :: "units list"
    by (metis distinct_card distinct_js_set set_js_set)
  have part: "length xs - length (filter P xs) = length (filter (\<lambda>x. \<not> P x) xs)" for P and xs :: "rule_hit list"
    using sum_length_filter_compl[of P xs] by simp
  show ?thesis
    unfolding scanTotals_def Let_def card
    by (simp add: filter_map comp_def image_image set_map_filter_option part)
qed

lemma summary_base:
  assumes "list_all conventional hits"
  shows "st_acknowledged (scanTotals (classifyHits hits al)) + st_unacknowledged (scanTotals (classifyHits hits al)) = length hits
    \<and> st_unacknowledgedMigrations (scanTotals (classifyHits hits al)) \<le> st_unacknowledged (scanTotals (classifyHits hits al))
    \<and> (st_unacknowledgedMigrations (scanTotals (classifyHits hits al)) = 0 \<longleftrightarrow>
       st_unacknowledged (scanTotals (classifyHits hits al)) = 0)"
proof -
  let ?hs = "js_sort compareHits hits"
  let ?open = "filter (\<lambda>h. ch_acknowledgedReason (classify_hit al h) = None) ?hs"
  let ?keys = "{k. \<exists>h \<in> set ?hs. summaryKeyFor (rh_path h) al = Some k}"
  have conv: "\<And>h. h \<in> set ?hs \<Longrightarrow> conventional h" using assms by (simp add: list_all_iff)
  have keys: "?keys = (\<lambda>h. the (summaryKeyFor (rh_path h) al)) ` set ?open"
    using conventional_agrees[OF conv, of _ al] by (force simp del: classify_base(5))
  have "card ?keys \<le> length ?open"
    unfolding keys by (rule le_trans[OF card_image_le card_length]) simp
  moreover have "card ?keys = 0 \<longleftrightarrow> length ?open = 0" unfolding keys by (simp del: set_filter classify_base(5))
  moreover have "length (filter (\<lambda>h. ch_acknowledgedReason (classify_hit al h) \<noteq> None) ?hs) + length ?open = length hits"
    using sum_length_filter_compl[of "\<lambda>h. ch_acknowledgedReason (classify_hit al h) \<noteq> None" ?hs]
    by (simp del: classify_base)
  ultimately show ?thesis unfolding sort_classified totals_of by (simp del: classify_base)
qed

text \<open>
  For paths of the conventional shape \<open><dir>/<name>/migration.sql\<close> the summary's two ways of
  deciding acknowledgement agree: the counts add up, there are at most as many unacknowledged
  migrations as unacknowledged hits, and there is none of the one exactly when there is none of the
  other.
\<close>

theorem summary_agrees_with_acknowledgement:
  assumes "list_all conventional hits"
  shows "st_acknowledged (scanTotals (classifyHits hits al)) + st_unacknowledged (scanTotals (classifyHits hits al)) = length hits
    \<and> st_unacknowledgedMigrations (scanTotals (classifyHits hits al)) \<le> st_unacknowledged (scanTotals (classifyHits hits al))
    \<and> (st_unacknowledgedMigrations (scanTotals (classifyHits hits al)) = 0 \<longleftrightarrow>
       st_unacknowledged (scanTotals (classifyHits hits al)) = 0)"
  by (rule summary_base[OF assms])

definition sample_hit :: "string \<Rightarrow> rule_hit" where
  "sample_hit name = \<lparr>rh_path = js_units ''m/'' @ js_units name @ MIGRATION_SQL_SUFFIX, rh_line = 1,
     rh_rule = DropTable, rh_snippet = js_units ''DROP TABLE a''\<rparr>"

end
