(* ===== verification/TextEscape.thy ===== *)
theory TextEscape
  imports Prelude
begin

text \<open>
  Text that must stay in its place: \<open>kernel/markdown-escape.ts\<close>, and the collapsing of runs of
  separators that it shares with the rows of the edit check.
\<close>

section \<open>Runs\<close>

text \<open>\<open>replace(/[...]+/gu, " ")\<close>: a run of the class becomes one space.\<close>

function collapse_runs :: "(char \<Rightarrow> bool) \<Rightarrow> string \<Rightarrow> string" where
  "collapse_runs P [] = []"
| "collapse_runs P (c # cs) =
     (if P c then CHR '' '' # collapse_runs P (dropWhile P cs) else c # collapse_runs P cs)"
  by pat_completeness auto
termination by (relation "measure (\<lambda>(_, s). length s)") (auto simp: le_imp_less_Suc length_dropWhile_le)

lemma collapse_runs_clean: "\<not> P (CHR '' '') \<Longrightarrow> list_all (\<lambda>c. \<not> P c) (collapse_runs P s)"
  by (induction P s rule: collapse_runs.induct) auto

lemma collapse_runs_id: "list_all (\<lambda>c. \<not> P c) s \<Longrightarrow> collapse_runs P s = s"
  by (induction s) auto

section \<open>Markdown\<close>

definition is_line_end_char :: "char \<Rightarrow> bool" where
  "is_line_end_char c \<longleftrightarrow> c = CHR 0x0D \<or> c = CHR 0x0A"

text \<open>The class \<open>[\\`[\]()*_!]\<close>, each of which gets a backslash, and the two angle brackets.\<close>

definition markdown_special :: "char \<Rightarrow> bool" where
  "markdown_special c \<longleftrightarrow> c \<in> set [CHR 0x5C, CHR 0x60, CHR ''['', CHR '']'', CHR ''('', CHR '')'', CHR ''*'', CHR ''_'', CHR ''!'']"

definition escape_markdown_char :: "char \<Rightarrow> string" where
  "escape_markdown_char c =
     (if markdown_special c then [CHR 0x5C, c]
      else if c = CHR ''<'' then ''&lt;'' else if c = CHR ''>'' then ''&gt;'' else [c])"

definition escapeMarkdownText :: "string \<Rightarrow> string" where
  "escapeMarkdownText v = collapse_runs is_line_end_char (concat (map escape_markdown_char v))"

definition escape_bar :: "char \<Rightarrow> string" where
  "escape_bar c = (if c = CHR ''|'' then [CHR 0x5C, CHR ''|''] else [c])"

definition escapeMarkdownTableCell :: "string \<Rightarrow> string" where
  "escapeMarkdownTableCell v = concat (map escape_bar (escapeMarkdownText v))"

text \<open>The cells of a table row: split at the bars that no backslash escapes.\<close>

fun table_cells :: "string \<Rightarrow> string list" where
  "table_cells [] = [[]]"
| "table_cells (c # cs) =
     (if c = CHR 0x5C \<and> cs \<noteq> []
      then (case table_cells (tl cs) of [] \<Rightarrow> [] | w # ws \<Rightarrow> (c # hd cs # w) # ws)
      else if c = CHR ''|'' then [] # table_cells cs
      else (case table_cells cs of [] \<Rightarrow> [] | w # ws \<Rightarrow> (c # w) # ws))"

text \<open>
  Text in which every bar is escaped: reading it pair by pair at backslashes meets no bare bar and
  does not end inside an escape, so whatever is put behind it is read as if it stood alone.
\<close>

fun bars_escaped :: "string \<Rightarrow> bool" where
  "bars_escaped [] = True"
| "bars_escaped (c # cs) =
     (if c = CHR 0x5C then cs \<noteq> [] \<and> bars_escaped (tl cs) else c \<noteq> CHR ''|'' \<and> bars_escaped cs)"

lemma bars_escaped_append: "bars_escaped a \<Longrightarrow> bars_escaped b \<Longrightarrow> bars_escaped (a @ b)"
proof (induction a rule: bars_escaped.induct)
  case (2 c cs)
  then show ?case by (cases cs) (auto split: if_splits)
qed simp

lemma table_cells_not_Nil [simp]: "table_cells s \<noteq> []"
proof (induction s rule: table_cells.induct)
  case (2 c cs)
  then show ?case by (auto split: list.splits)
qed simp

lemma table_cells_escaped:
  "bars_escaped a \<Longrightarrow> table_cells (a @ s) = (case table_cells s of [] \<Rightarrow> [] | w # ws \<Rightarrow> (a @ w) # ws)"
proof (induction a rule: bars_escaped.induct)
  case 1
  then show ?case by (cases "table_cells s") simp_all
next
  case (2 c cs)
  then show ?case by (cases cs) (auto split: if_splits list.splits)
qed

text \<open>Line ends and bars aside, escaping works character by character.\<close>

lemma escape_text_collapsed: "escapeMarkdownText v = concat (map escape_markdown_char (collapse_runs is_line_end_char v))"
proof -
  have plain: "list_all (\<lambda>d. \<not> is_line_end_char d) (escape_markdown_char c)" if "\<not> is_line_end_char c" for c
    using that by (auto simp: escape_markdown_char_def is_line_end_char_def markdown_special_def)
  have ends: "escape_markdown_char c = [c]" if "is_line_end_char c" for c
    using that by (auto simp: escape_markdown_char_def is_line_end_char_def markdown_special_def)
  have space: "escape_markdown_char (CHR '' '') = '' ''" by (simp add: escape_markdown_char_def markdown_special_def)
  have pre: "collapse_runs is_line_end_char (w @ x) = w @ collapse_runs is_line_end_char x"
    if "list_all (\<lambda>d. \<not> is_line_end_char d) w" for w x
    using that by (induction w) auto
  have drop: "dropWhile is_line_end_char (concat (map escape_markdown_char cs)) =
      concat (map escape_markdown_char (dropWhile is_line_end_char cs))" for cs
  proof (induction cs)
    case (Cons c cs)
    have "escape_markdown_char c \<noteq> []" by (simp add: escape_markdown_char_def)
    then show ?case
      using Cons ends[of c] plain[of c] by (cases "escape_markdown_char c") auto
  qed simp
  show ?thesis
    unfolding escapeMarkdownText_def
  proof (induction is_line_end_char v rule: collapse_runs.induct)
    case (2 c cs)
    then show ?case by (auto simp: ends space drop pre[OF plain])
  qed simp
qed

lemma escape_bar_concat: "concat (map escape_bar (concat xss)) = concat (map (\<lambda>xs. concat (map escape_bar xs)) xss)"
  by (induction xss) auto

lemma cell_chars: "escapeMarkdownTableCell v =
    concat (map (\<lambda>c. concat (map escape_bar (escape_markdown_char c))) (collapse_runs is_line_end_char v))"
  unfolding escapeMarkdownTableCell_def escape_text_collapsed escape_bar_concat map_map comp_def ..

lemma cell_char_escaped: "bars_escaped (concat (map escape_bar (escape_markdown_char c)))"
  by (auto simp: escape_markdown_char_def escape_bar_def markdown_special_def)

lemma bars_escaped_concat: "(\<And>c. bars_escaped (f c)) \<Longrightarrow> bars_escaped (concat (map f v))"
  by (induction v) (simp_all add: bars_escaped_append)

lemma cell_escaped: "bars_escaped (escapeMarkdownTableCell v)"
  unfolding cell_chars by (rule bars_escaped_concat) (rule cell_char_escaped)

lemma cell_no_line_end: "list_all (\<lambda>c. \<not> is_line_end_char c) (escapeMarkdownTableCell v)"
proof -
  have "list_all (\<lambda>d. \<not> is_line_end_char d) (concat (map escape_bar (escape_markdown_char c)))" if "\<not> is_line_end_char c" for c
    using that by (auto simp: escape_markdown_char_def is_line_end_char_def markdown_special_def escape_bar_def)
  moreover have "list_all (\<lambda>c. \<not> is_line_end_char c) (collapse_runs is_line_end_char v)"
    by (rule collapse_runs_clean) (simp add: is_line_end_char_def)
  ultimately show ?thesis unfolding cell_chars list_all_iff by fastforce
qed

text \<open>A row of cells, as the reports write it.\<close>

definition table_row :: "string list \<Rightarrow> string" where
  "table_row parts = ''| '' @ js_join '' | '' parts @ '' |''"

lemma joined_cells:
  "parts \<noteq> [] \<Longrightarrow> list_all bars_escaped parts \<Longrightarrow>
   table_cells (js_join '' | '' parts @ '' |'') =
     (hd parts @ '' '') # map (\<lambda>p. '' '' @ p @ '' '') (tl parts) @ [[]]"
proof (induction parts)
  case (Cons p ps)
  then show ?case
    by (cases ps) (simp_all add: table_cells_escaped)
qed simp

lemma table_row_cells:
  "parts \<noteq> [] \<Longrightarrow> list_all bars_escaped parts \<Longrightarrow>
   table_cells (table_row parts) = [] # map (\<lambda>p. '' '' @ p @ '' '') parts @ [[]]"
  using joined_cells[of parts] by (cases parts) (simp_all add: table_row_def)

section \<open>Inline code\<close>

definition is_backtick :: "char \<Rightarrow> bool" where
  "is_backtick c \<longleftrightarrow> c = CHR 0x60"

text \<open>The matches of a class one or more times, as \<open>matchAll\<close> gives them.\<close>

function class_runs :: "(char \<Rightarrow> bool) \<Rightarrow> string \<Rightarrow> string list" where
  "class_runs P [] = []"
| "class_runs P (c # cs) =
     (if P c then (c # takeWhile P cs) # class_runs P (dropWhile P cs) else class_runs P cs)"
  by pat_completeness auto
termination by (relation "measure (\<lambda>(_, s). length s)") (auto simp: le_imp_less_Suc length_dropWhile_le)

definition normalizeMarkdownCodeText :: "string \<Rightarrow> string" where
  "normalizeMarkdownCodeText v = collapse_runs is_line_end_char v"

definition longestBacktickRun :: "string \<Rightarrow> nat" where
  "longestBacktickRun v = foldr max (map length (class_runs is_backtick v)) 0"

definition markdownCode :: "string \<Rightarrow> string" where
  "markdownCode v =
     (let code = normalizeMarkdownCodeText v; delimiter = replicate (longestBacktickRun code + 1) (CHR 0x60)
      in if length delimiter = 1 then delimiter @ code @ delimiter
         else delimiter @ '' '' @ code @ '' '' @ delimiter)"

text \<open>
  The loop over the matches of a code span: \<open>prose\<close> is the text since the last one. A backtick opens
  a span when another one follows it behind at least one other character.
\<close>

function escape_prose :: "string \<Rightarrow> string \<Rightarrow> string" where
  "escape_prose prose [] = escapeMarkdownText prose"
| "escape_prose prose (c # cs) =
     (let inner = takeWhile (\<lambda>d. \<not> is_backtick d) cs; behind = dropWhile (\<lambda>d. \<not> is_backtick d) cs
      in if is_backtick c \<and> inner \<noteq> [] \<and> behind \<noteq> []
         then escapeMarkdownText prose @ markdownCode inner @ escape_prose [] (tl behind)
         else escape_prose (prose @ [c]) cs)"
  by pat_completeness auto
termination
proof (relation "measure (\<lambda>(_, s). length s)")
  show "((([]::string), tl w), (prose, c # cs)) \<in> measure (\<lambda>(_, s). length s)"
    if "w = dropWhile (\<lambda>d. \<not> is_backtick d) cs" for w cs c and prose :: string
    using that length_dropWhile_le[of "\<lambda>d. \<not> is_backtick d" cs] by simp
qed simp_all

definition escapeMarkdownProse :: "string \<Rightarrow> string" where
  "escapeMarkdownProse v = escape_prose [] v"

text \<open>The fence of a code span is longer than every run of backticks inside it.\<close>

lemma replicate_run: "\<forall>x \<in> set a. P x \<Longrightarrow> takeWhile P (a @ b) = a @ takeWhile P b"
  by (induction a) auto

lemma run_of_length:
  "list_all P a \<Longrightarrow> a \<noteq> [] \<Longrightarrow> length a \<le> foldr max (map length (class_runs P (p @ a @ s))) 0"
proof (induction P "p @ a @ s" arbitrary: p a rule: class_runs.induct)
  case (2 P c cs)
  show ?case
  proof (cases p)
    case Nil
    then obtain a' where a: "a = c # a'" "cs = a' @ s" using "2.hyps"(3) "2.prems"(2) by (cases a) auto
    then have "P c" "\<forall>x \<in> set a'. P x" using "2.prems"(1) by (auto simp: list_all_iff)
    then show ?thesis unfolding "2.hyps"(3)[symmetric] by (simp add: a replicate_run)
  next
    case (Cons d p')
    then have cs: "c = d" "cs = p' @ a @ s" using "2.hyps"(3) by auto
    show ?thesis
    proof (cases "P c")
      case False
      from "2.hyps"(2)[OF False cs(2) "2.prems"] show ?thesis unfolding "2.hyps"(3)[symmetric] by (simp add: False cs(2))
    next
      case True
      show ?thesis
      proof (cases "\<forall>x \<in> set p'. P x")
        case inside: True
        have "takeWhile P cs = p' @ a @ takeWhile P s"
          unfolding cs using inside "2.prems"(1) by (simp add: replicate_run list_all_iff)
        then show ?thesis unfolding "2.hyps"(3)[symmetric] by (simp add: True)
      next
        case outside: False
        then have "dropWhile P cs = dropWhile P p' @ a @ s" unfolding cs by (auto simp: dropWhile_append)
        note split = this
        from "2.hyps"(1)[OF True split "2.prems"] show ?thesis unfolding "2.hyps"(3)[symmetric] by (simp add: True split)
      qed
    qed
  qed
qed simp

lemma code_fence_longer: "v \<noteq> p @ replicate (longestBacktickRun v + 1) (CHR 0x60) @ s"
proof
  assume v: "v = p @ replicate (longestBacktickRun v + 1) (CHR 0x60) @ s"
  have "longestBacktickRun v + 1 \<le> longestBacktickRun v"
    using run_of_length[of is_backtick "replicate (longestBacktickRun v + 1) (CHR 0x60)" p s]
    unfolding v[symmetric] by (simp add: is_backtick_def longestBacktickRun_def list_all_iff)
  then show False by simp
qed

end
