(* ===== verification/EditCheck.thy ===== *)
theory EditCheck
  imports Collector BaselineValidation BaselineUpdate TextEscape
begin

text \<open>
  \<open>governance/edit-check.ts\<close> and \<open>governance/edit-check-protocol.ts\<close>: the check of single edited
  files. Discovery lists the (file, ratchet) pairs, the rows carry a chosen subset of them between
  two processes, and the check lints the groups of the pairs it can trust. What is written to
  standard error is returned as a list of lines. The pool of workers is a state that completions of
  collections move on; ESLint and the hashing of rule sources are parameters.
\<close>

section \<open>Targets and regressions\<close>

record edit_check_target =
  et_path :: string
  et_testId :: string
  et_ruleId :: string
  et_cacheIdentity :: "string option"

record edit_check_regression =
  er_path :: string
  er_testId :: string
  er_ruleId :: string
  er_reason :: regression_reason
  er_line :: "int option"
  er_baselineCount :: int
  er_currentCount :: int
  er_repairCommand :: "string option"

record edit_check_engine =
  ee_repoRoot :: string
  ee_baselinePath :: string
  ee_registry :: "ratchet_config list"
  ee_workflowVocabulary :: workflow_vocabulary

section \<open>Rows\<close>

record row_layout =
  rl_kind :: string
  rl_fields :: "string list"
  rl_acceptedOptionalTrailingFields :: "string list"

definition rl_fieldCount :: "row_layout \<Rightarrow> nat" where
  "rl_fieldCount layout = length (rl_fields layout)"

definition target_layout :: row_layout where
  "target_layout = \<lparr>rl_kind = ''target'', rl_fields = [''kind'', ''path'', ''testId'', ''ruleId'', ''cacheIdentity''],
     rl_acceptedOptionalTrailingFields = []\<rparr>"

definition checked_layout :: row_layout where
  "checked_layout = \<lparr>rl_kind = ''checked'', rl_fields = [''kind'', ''path''], rl_acceptedOptionalTrailingFields = []\<rparr>"

definition regression_layout :: row_layout where
  "regression_layout = \<lparr>rl_kind = ''regression'',
     rl_fields = [''kind'', ''path'', ''testId'', ''ruleId'', ''reason'', ''line'', ''baselineCount'', ''currentCount'',
       ''repairCommand''],
     rl_acceptedOptionalTrailingFields = [''repairCommand'']\<rparr>"

definition coverage_layout :: row_layout where
  "coverage_layout = \<lparr>rl_kind = ''ratchet-covered'', rl_fields = [''kind'', ''path'', ''ruleIds''],
     rl_acceptedOptionalTrailingFields = []\<rparr>"

definition TAB :: char where "TAB = CHR 0x09"

definition formatProtocolRow :: "row_layout \<Rightarrow> string list \<Rightarrow> string + string" where
  "formatProtocolRow layout parts =
     (if length parts \<noteq> rl_fieldCount layout
      then Inl (rl_kind layout @ '' formatter produced '' @ show_nat (length parts) @ '' fields; expected ''
                @ show_nat (rl_fieldCount layout))
      else Inr (js_join [TAB] parts))"

definition is_protocol_separator :: "char \<Rightarrow> bool" where
  "is_protocol_separator c \<longleftrightarrow> c = TAB \<or> c = CHR 0x0D \<or> c = CHR 0x0A"

definition containsProtocolSeparator :: "string \<Rightarrow> bool" where
  "containsProtocolSeparator v \<longleftrightarrow> list_ex is_protocol_separator v"

definition protocol_warning :: "string \<Rightarrow> string" where
  "protocol_warning detail = ''edit-check-protocol: '' @ detail"

definition sanitizeRepairCommand :: "string \<Rightarrow> string \<Rightarrow> string list \<times> string" where
  "sanitizeRepairCommand v ruleId =
     (if \<not> containsProtocolSeparator v then ([], v)
      else ([protocol_warning (''repair command for '' @ [CHR 0x27] @ ruleId @ [CHR 0x27]
              @ '' contains a tab or newline; collapsed to spaces to keep the row intact'')],
            collapse_runs is_protocol_separator v))"

definition formatEditCheckTarget :: "edit_check_target \<Rightarrow> string list \<times> (string + string)" where
  "formatEditCheckTarget t =
     (let parts = [rl_kind target_layout, et_path t, et_testId t, et_ruleId t,
            (case et_cacheIdentity t of None \<Rightarrow> [] | Some c \<Rightarrow> c)]
      in (if list_ex containsProtocolSeparator parts
          then [protocol_warning (''target for '' @ [CHR 0x27] @ et_path t @ [CHR 0x27]
                  @ '' contains a tab or newline and will not round-trip; it will be dropped on decode'')]
          else [], formatProtocolRow target_layout parts))"

definition parseEditCheckTargetLine :: "string \<Rightarrow> string list \<times> edit_check_target option" where
  "parseEditCheckTargetLine line =
     (let parts = js_split TAB line;
          warnings = (if hd parts = rl_kind target_layout \<and> length parts \<noteq> rl_fieldCount target_layout
            then [protocol_warning (''target row has '' @ show_nat (length parts) @ '' fields (expected ''
                    @ show_nat (rl_fieldCount target_layout) @ ''); a path or id likely contains a tab; dropping'')]
            else [])
      in (warnings,
          (case parts of
             [kind, path, testId, ruleId, cacheIdentity] \<Rightarrow>
               if kind \<noteq> rl_kind target_layout then None
               else if path = [] \<or> testId = [] \<or> ruleId = [] then None
               else Some \<lparr>et_path = path, et_testId = testId, et_ruleId = ruleId,
                      et_cacheIdentity = (if cacheIdentity = [] then None else Some cacheIdentity)\<rparr>
           | _ \<Rightarrow> None)))"

definition formatEditCheckChecked :: "string \<Rightarrow> string + string" where
  "formatEditCheckChecked path = formatProtocolRow checked_layout [rl_kind checked_layout, path]"

fun edit_reason_name :: "regression_reason \<Rightarrow> string" where
  "edit_reason_name NewPath = ''new-path''"
| "edit_reason_name IncreasedCount = ''increased-count''"
| "edit_reason_name IncreasedLines = ''increased-lines''"
| "edit_reason_name IncreasedComplexity = ''increased-complexity''"

definition formatEditCheckRegression :: "edit_check_regression \<Rightarrow> string list \<times> (string + string)" where
  "formatEditCheckRegression r =
     (let (warnings, repair) = (case er_repairCommand r of None \<Rightarrow> ([], []) | Some c \<Rightarrow> sanitizeRepairCommand c (er_ruleId r))
      in (warnings, formatProtocolRow regression_layout
           [rl_kind regression_layout, er_path r, er_testId r, er_ruleId r, edit_reason_name (er_reason r),
            (case er_line r of None \<Rightarrow> [] | Some l \<Rightarrow> show_int l), show_int (er_baselineCount r),
            show_int (er_currentCount r), repair]))"

record coverage_row =
  cr_path :: string
  cr_ruleIds :: "string list"

definition formatRatchetCoverageRow :: "coverage_row \<Rightarrow> string + string" where
  "formatRatchetCoverageRow row =
     formatProtocolRow coverage_layout [rl_kind coverage_layout, cr_path row, js_join '', '' (cr_ruleIds row)]"

section \<open>Discovery\<close>

definition usesEslintCache :: "ratchet_config \<Rightarrow> bool" where
  "usesEslintCache r \<longleftrightarrow> ratchetParserProfile r = MinimalTs"

definition isEligibleEditCheckRatchet :: "ratchet_config \<Rightarrow> bool" where
  "isEligibleEditCheckRatchet r = usesEslintCache r"

definition path_testId_cmp :: "string cmp \<Rightarrow> string \<times> string \<Rightarrow> string \<times> string \<Rightarrow> int" where
  "path_testId_cmp lc l r = (let c = lc (fst l) (fst r) in if c \<noteq> 0 then c else lc (snd l) (snd r))"

definition target_key :: "edit_check_target \<Rightarrow> string \<times> string" where
  "target_key t = (et_path t, et_testId t)"

definition regression_key :: "edit_check_regression \<Rightarrow> string \<times> string" where
  "regression_key r = (er_path r, er_testId r)"

definition byPathThenTestId :: "string cmp \<Rightarrow> ('a \<Rightarrow> string \<times> string) \<Rightarrow> 'a cmp" where
  "byPathThenTestId lc key l r = path_testId_cmp lc (key l) (key r)"

definition relativeToRepoRoot :: "string \<Rightarrow> string \<Rightarrow> string" where
  "relativeToRepoRoot repoRoot filePath =
     (if \<not> is_absolute filePath then slashes filePath
      else let rel = posix_relative repoRoot filePath in if rel = [] then filePath else slashes rel)"

definition baselineItemIdentity :: "metric_item \<Rightarrow> jsval" where
  "baselineItemIdentity item = JObj
     ([(''count'', JInt (mi_count item))]
      @ opt_field ''lines'' JInt (mi_lines item)
      @ opt_field ''maxComplexity'' JInt (mi_maxComplexity item)
      @ opt_field ''perFunction'' (\<lambda>es. JArr (map (\<lambda>e. JObj [(''complexity'', JInt (cf_complexity e)),
            (''label'', JStr (cf_label e)), (''line'', JInt (cf_line e))]) es)) (mi_perFunction item))"

definition baselineItemsIdentity :: "(string \<times> metric_item) list \<Rightarrow> jsval" where
  "baselineItemsIdentity items = JObj (map_from (map (\<lambda>(path, item). (path, baselineItemIdentity item)) items))"

definition nullable_text :: "string option \<Rightarrow> jsval" where
  "nullable_text v = (case v of None \<Rightarrow> JNull | Some s \<Rightarrow> JStr s)"

definition editCheckTargetCacheIdentity ::
    "hasher \<Rightarrow> ratchet_config \<Rightarrow> baseline_test option \<Rightarrow> string option \<Rightarrow> string" where
  "editCheckTargetCacheIdentity sha ratchet baselineTest ruleSourceHash =
     ''sha256:'' @ sha (stableJson (JObj
       [(''baselineTest'', (case baselineTest of None \<Rightarrow> JNull
           | Some t \<Rightarrow> JObj
               [(''configHash'', JStr (gm_configHash t)), (''files'', strings_json (gm_files t)),
                (''ignores'', strings_json (gm_ignores t)), (''items'', baselineItemsIdentity (bt_items t)),
                (''metric'', JStr (metric_name (gm_metric t))), (''mode'', JStr (mode_name (gm_mode t))),
                (''ruleId'', JStr (gm_ruleId t)), (''ruleOptions'', JArr (gm_ruleOptions t)),
                (''ruleSourceHash'', JStr (gm_ruleSourceHash t))])),
        (''liveConfigHash'', JStr (computeLintRatchetConfigHash sha ratchet)),
        (''liveRuleSourceHash'', nullable_text ruleSourceHash),
        (''testId'', JStr (rc_id ratchet))]))"

record discovery =
  ds_targets :: "edit_check_target list"
  ds_seen :: "string list"
  ds_matched :: "(string \<times> ratchet_config) list"

definition discover_step :: "globber \<Rightarrow> string \<Rightarrow> ratchet_config \<Rightarrow> discovery \<Rightarrow> discovery" where
  "discover_step glob path ratchet st =
     (let key = path @ [TAB] @ rc_id ratchet
      in if \<not> isEligibleEditCheckRatchet ratchet then st
         else if \<not> matchesRatchet glob (rc_files ratchet) (rc_ignores ratchet) path then st
         else if key \<in> set (ds_seen st) then st
         else \<lparr>ds_targets = ds_targets st @ [\<lparr>et_path = path, et_testId = rc_id ratchet, et_ruleId = rc_ruleId ratchet,
                  et_cacheIdentity = None\<rparr>],
               ds_seen = ds_seen st @ [key], ds_matched = AList.update (rc_id ratchet) ratchet (ds_matched st)\<rparr>)"

definition discover :: "globber \<Rightarrow> edit_check_engine \<Rightarrow> string list \<Rightarrow> discovery" where
  "discover glob engine paths =
     fold (\<lambda>rawPath. fold (discover_step glob (relativeToRepoRoot (ee_repoRoot engine) rawPath)) (ee_registry engine))
       paths \<lparr>ds_targets = [], ds_seen = [], ds_matched = []\<rparr>"

text \<open>The rule-source hashes of a list of ratchets, by id, read from the rule sources on disk.\<close>

type_synonym rule_hashes = "ratchet_config list \<Rightarrow> (string \<times> string) list"

definition read_structure ::
    "json_parser \<Rightarrow> string cmp \<Rightarrow> edit_check_engine \<Rightarrow> string \<Rightarrow> baseline_error + ratchet_baseline option" where
  "read_structure jp lc engine txt =
     (case parseLintRatchetBaselineStructure jp lc txt (ee_workflowVocabulary engine) default_version_policy
             (relativeToRepoRoot (ee_repoRoot engine) (ee_baselinePath engine)) of
        Inl e \<Rightarrow> Inl e
      | Inr s \<Rightarrow> Inr (sb_baseline s))"

definition discoverEditCheckTargets ::
    "json_parser \<Rightarrow> string cmp \<Rightarrow> globber \<Rightarrow> hasher \<Rightarrow> rule_hashes \<Rightarrow> edit_check_engine \<Rightarrow> string option \<Rightarrow> string list \<Rightarrow>
     baseline_error + edit_check_target list" where
  "discoverEditCheckTargets jp lc glob sha hashesOf engine baselineText paths =
     (let st = discover glob engine paths
      in if ds_targets st = [] then Inr []
         else case (case baselineText of None \<Rightarrow> Inr None | Some txt \<Rightarrow> read_structure jp lc engine txt) of
                Inl e \<Rightarrow> Inl e
              | Inr baseline \<Rightarrow>
                  (let hashes = hashesOf (map snd (ds_matched st))
                   in Inr (js_sort (byPathThenTestId lc target_key) (map (\<lambda>t.
                        case map_of (ds_matched st) (et_testId t) of
                          None \<Rightarrow> t
                        | Some ratchet \<Rightarrow> t\<lparr>et_cacheIdentity := Some (editCheckTargetCacheIdentity sha ratchet
                            (Option.bind baseline (\<lambda>b. map_of (bl_tests b) (rc_id ratchet)))
                            (map_of hashes (rc_id ratchet)))\<rparr>) (ds_targets st)))))"

section \<open>Groups\<close>

record ratchet_group =
  rg_ratchet :: ratchet_config
  rg_ruleSourceHash :: string
  rg_files :: "string list"

text \<open>The registered ratchet and its hash under which a target may be linted.\<close>

definition trusted_ratchet ::
    "string cmp \<Rightarrow> hasher \<Rightarrow> edit_check_engine \<Rightarrow> (string \<times> string) list \<Rightarrow> ratchet_baseline \<Rightarrow> edit_check_target \<Rightarrow>
     (ratchet_config \<times> string) option" where
  "trusted_ratchet lc sha engine hashes baseline target =
     (case map_of (registry_map (ee_registry engine)) (et_testId target) of
        None \<Rightarrow> None
      | Some ratchet \<Rightarrow>
          if \<not> isEligibleEditCheckRatchet ratchet then None
          else if et_ruleId target \<noteq> rc_ruleId ratchet then None
          else (case map_of (bl_tests baseline) (et_testId target) of
                  None \<Rightarrow> None
                | Some test \<Rightarrow>
                    (case map_of hashes (et_testId target) of
                       None \<Rightarrow> None
                     | Some h \<Rightarrow>
                         if validateBaselineTestForRatchet lc sha (et_testId target) test ratchet h
                              (ee_workflowVocabulary engine) \<noteq> [] then None
                         else Some (ratchet, h))))"

definition group_target ::
    "string cmp \<Rightarrow> hasher \<Rightarrow> edit_check_engine \<Rightarrow> (string \<times> string) list \<Rightarrow> ratchet_baseline \<Rightarrow> edit_check_target \<Rightarrow>
     (string \<times> ratchet_group) list \<Rightarrow> (string \<times> ratchet_group) list" where
  "group_target lc sha engine hashes baseline target groups =
     (case trusted_ratchet lc sha engine hashes baseline target of
        None \<Rightarrow> groups
      | Some (ratchet, h) \<Rightarrow>
          (let grp = (case map_of groups (et_testId target) of
                 Some g \<Rightarrow> g | None \<Rightarrow> \<lparr>rg_ratchet = ratchet, rg_ruleSourceHash = h, rg_files = []\<rparr>)
           in AList.update (et_testId target)
                (if et_path target \<in> set (rg_files grp) then grp
                 else grp\<lparr>rg_files := rg_files grp @ [et_path target]\<rparr>) groups))"

definition groupTargets ::
    "string cmp \<Rightarrow> hasher \<Rightarrow> rule_hashes \<Rightarrow> edit_check_engine \<Rightarrow> edit_check_target list \<Rightarrow> ratchet_baseline \<Rightarrow>
     ratchet_group list" where
  "groupTargets lc sha hashesOf engine targets baseline =
     map snd (fold (group_target lc sha engine (hashesOf (ee_registry engine)) baseline) targets [])"

section \<open>One group\<close>

record group_result =
  gr_regressions :: "edit_check_regression list"
  gr_checked :: "string list"

text \<open>ESLint on the files of one group; it may throw (\<open>Inl\<close>).\<close>

type_synonym 'x linter = "ratchet_config \<Rightarrow> string \<Rightarrow> string list \<Rightarrow> 'x + eslint_file_result list"

definition edit_regression :: "regression \<Rightarrow> edit_check_regression" where
  "edit_regression r =
     \<lparr>er_path = dl_path r, er_testId = dl_testId r, er_ruleId = dl_ruleId r, er_reason = dl_reason r,
      er_line = dl_line r, er_baselineCount = dl_baselineCount r, er_currentCount = dl_currentCount r,
      er_repairCommand = None\<rparr>"

definition collectCurrentForRatchet ::
    "'x linter \<Rightarrow> hasher \<Rightarrow> string \<Rightarrow> ratchet_config \<Rightarrow> string \<Rightarrow> string list \<Rightarrow> items_map option" where
  "collectCurrentForRatchet lint sha repoRoot ratchet h files =
     (case lint ratchet h files of
        Inl _ \<Rightarrow> None
      | Inr results \<Rightarrow> (case itemsFromResults sha ratchet results repoRoot of Inl _ \<Rightarrow> None | Inr items \<Rightarrow> Some items))"

definition regressionsForGroup ::
    "string cmp \<Rightarrow> hasher \<Rightarrow> 'x linter \<Rightarrow> string \<Rightarrow> workflow_vocabulary \<Rightarrow> ratchet_baseline \<Rightarrow> ratchet_group \<Rightarrow>
     compare_error + group_result" where
  "regressionsForGroup lc sha lint repoRoot vocab baseline grp =
     (case collectCurrentForRatchet lint sha repoRoot (rg_ratchet grp) (rg_ruleSourceHash grp) (rg_files grp) of
        None \<Rightarrow> Inr \<lparr>gr_regressions = [], gr_checked = []\<rparr>
      | Some items \<Rightarrow>
          (case compareCurrentToBaseline lc baseline [rg_ratchet grp] [(rc_id (rg_ratchet grp), items)] vocab of
             Inl e \<Rightarrow> Inl e
           | Inr c \<Rightarrow> Inr \<lparr>gr_regressions = map edit_regression (cmp_regressions c), gr_checked = rg_files grp\<rparr>))"

section \<open>The pool of workers\<close>

text \<open>
  Each worker takes the group at \<open>index\<close> and advances it before it awaits the group's result; when
  the result is there it is appended and the worker takes the next group. \<open>pl_inFlight\<close> are the
  groups awaited, \<open>pl_failed\<close> that a worker threw, which rejects \<open>Promise.all\<close>.
\<close>

record pool =
  pl_index :: nat
  pl_inFlight :: "nat list"
  pl_regressions :: "edit_check_regression list"
  pl_checked :: "string list"
  pl_failed :: bool

definition take_next :: "nat \<Rightarrow> pool \<Rightarrow> pool" where
  "take_next n st =
     (if pl_index st < n then st\<lparr>pl_index := pl_index st + 1, pl_inFlight := pl_inFlight st @ [pl_index st]\<rparr> else st)"

definition pool_limit :: "int \<Rightarrow> nat \<Rightarrow> nat" where
  "pool_limit concurrency n = nat (max 1 (min concurrency (int n)))"

definition pool_start :: "nat \<Rightarrow> nat \<Rightarrow> pool" where
  "pool_start limit n =
     (take_next n ^^ limit) \<lparr>pl_index = 0, pl_inFlight = [], pl_regressions = [], pl_checked = [], pl_failed = False\<rparr>"

definition pool_complete :: "(nat \<Rightarrow> compare_error + group_result) \<Rightarrow> nat \<Rightarrow> nat \<Rightarrow> pool \<Rightarrow> pool" where
  "pool_complete result n i st =
     (if i \<notin> set (pl_inFlight st) then st
      else case result i of
             Inl _ \<Rightarrow> st\<lparr>pl_inFlight := remove1 i (pl_inFlight st), pl_failed := True\<rparr>
           | Inr r \<Rightarrow> take_next n (st\<lparr>pl_inFlight := remove1 i (pl_inFlight st),
               pl_regressions := pl_regressions st @ gr_regressions r, pl_checked := pl_checked st @ gr_checked r\<rparr>))"

text \<open>A run: the order in which the awaited groups complete. It resolves when no group is awaited.\<close>

definition runGroupsWithConcurrency ::
    "(nat \<Rightarrow> compare_error + group_result) \<Rightarrow> nat \<Rightarrow> int \<Rightarrow> nat list \<Rightarrow> pool" where
  "runGroupsWithConcurrency result n concurrency completions =
     fold (pool_complete result n) completions (pool_start (pool_limit concurrency n) n)"

record edit_check_result =
  ec_regressions :: "edit_check_regression list"
  ec_checked :: "string list"

text \<open>\<open>None\<close> while the promise is pending or when it is rejected.\<close>

definition runEditCheckRegressions ::
    "json_parser \<Rightarrow> string cmp \<Rightarrow> hasher \<Rightarrow> rule_hashes \<Rightarrow> 'x linter \<Rightarrow> edit_check_engine \<Rightarrow> string option \<Rightarrow>
     edit_check_target list \<Rightarrow> int \<Rightarrow> nat list \<Rightarrow> edit_check_result option" where
  "runEditCheckRegressions jp lc sha hashesOf lint engine baselineText targets concurrency completions =
     (if targets = [] then Some \<lparr>ec_regressions = [], ec_checked = []\<rparr>
      else case baselineText of
             None \<Rightarrow> Some \<lparr>ec_regressions = [], ec_checked = []\<rparr>
           | Some txt \<Rightarrow>
               (case read_structure jp lc engine txt of
                  Inl _ \<Rightarrow> None
                | Inr None \<Rightarrow> Some \<lparr>ec_regressions = [], ec_checked = []\<rparr>
                | Inr (Some baseline) \<Rightarrow>
                    (let groups = groupTargets lc sha hashesOf engine targets baseline;
                         result = (\<lambda>i. regressionsForGroup lc sha lint (ee_repoRoot engine)
                           (ee_workflowVocabulary engine) baseline (groups ! i));
                         st = runGroupsWithConcurrency result (length groups) concurrency completions
                     in if pl_inFlight st = [] \<and> \<not> pl_failed st
                        then Some \<lparr>ec_regressions = js_sort (byPathThenTestId lc regression_key) (pl_regressions st),
                               ec_checked = pl_checked st\<rparr>
                        else None)))"

end
