(* ===== verification/EditCheckLaws.thy ===== *)
theory EditCheckLaws
  imports EditCheck UpdateAccounting
begin

text \<open>
  Properties of the edit check: rows of targets are read back, a row keeps its columns whatever the
  repair command holds, and what the check reports is the gate's own verdict on the files it linted,
  whatever the order in which the collections complete.
\<close>

section \<open>Rows\<close>

lemma split_join_tab:
  "parts \<noteq> [] \<Longrightarrow> list_all (\<lambda>p. TAB \<notin> set p) parts \<Longrightarrow> js_split TAB (js_join [TAB] parts) = parts"
  by (rule split_joined) (auto simp: list_all_iff)

lemma target_row_base:
  assumes "list_all (\<lambda>p. TAB \<notin> set p) [et_path t, et_testId t, et_ruleId t]"
    and "et_path t \<noteq> []" "et_testId t \<noteq> []" "et_ruleId t \<noteq> []"
    and "opt_all (\<lambda>c. c \<noteq> [] \<and> TAB \<notin> set c) (et_cacheIdentity t)"
  shows "\<exists>row. snd (formatEditCheckTarget t) = Inr row \<and> parseEditCheckTargetLine row = ([], Some t)"
proof -
  let ?c = "case et_cacheIdentity t of None \<Rightarrow> [] | Some c \<Rightarrow> c"
  let ?parts = "[''target'', et_path t, et_testId t, et_ruleId t, ?c]"
  have c: "TAB \<notin> set ?c" "(if ?c = [] then None else Some ?c) = et_cacheIdentity t"
    using assms(5) by (cases "et_cacheIdentity t"; simp)+
  have kind: "TAB \<notin> set ''target''" by (simp add: TAB_def)
  have split: "js_split TAB (js_join [TAB] ?parts) = ?parts"
    by (rule split_join_tab) (use assms(1) c(1) kind in simp_all)
  have "snd (formatEditCheckTarget t) = Inr (js_join [TAB] ?parts)"
    by (simp add: formatEditCheckTarget_def Let_def formatProtocolRow_def target_layout_def rl_fieldCount_def)
  moreover have "parseEditCheckTargetLine (js_join [TAB] ?parts) = ([], Some t)"
    unfolding parseEditCheckTargetLine_def split
    using assms(2-4) c(2) by (simp add: target_layout_def rl_fieldCount_def del: js_join.simps)
  ultimately show ?thesis by blast
qed

text \<open>
  A target whose identity holds no tab and no empty part is written as one row and read back as
  the same target, without a warning.
\<close>

theorem target_row_roundtrip:
  assumes "list_all (\<lambda>p. TAB \<notin> set p) [et_path t, et_testId t, et_ruleId t]"
    and "et_path t \<noteq> []" "et_testId t \<noteq> []" "et_ruleId t \<noteq> []"
    and "opt_all (\<lambda>c. c \<noteq> [] \<and> TAB \<notin> set c) (et_cacheIdentity t)"
  shows "\<exists>row. snd (formatEditCheckTarget t) = Inr row \<and> parseEditCheckTargetLine row = ([], Some t)"
  by (rule target_row_base[OF assms])

lemma sanitize_clean: "\<not> containsProtocolSeparator (snd (sanitizeRepairCommand c r))"
  using collapse_runs_clean[of is_protocol_separator c]
  by (auto simp: sanitizeRepairCommand_def containsProtocolSeparator_def list_ex_iff list_all_iff is_protocol_separator_def TAB_def)

lemma clean_no_tab: "\<not> containsProtocolSeparator s \<Longrightarrow> TAB \<notin> set s"
  by (auto simp: containsProtocolSeparator_def list_ex_iff is_protocol_separator_def)

lemma show_int_no_tab: "TAB \<notin> set (show_int i)"
  using show_nat_digits[of "nat i"] show_nat_digits[of "nat (- i)"]
  by (auto simp: show_int_def list_all_iff is_digit_def TAB_def)

text \<open>
  The row of a regression has its nine columns, in their places, whatever the rule's repair
  command holds, so that the hook that reads it by position never sees a shifted column.
\<close>

theorem regression_row_columns:
  assumes "list_all (\<lambda>p. TAB \<notin> set p) [er_path r, er_testId r, er_ruleId r]"
  shows "\<exists>row repair. snd (formatEditCheckRegression r) = Inr row \<and>
    js_split TAB row = [''regression'', er_path r, er_testId r, er_ruleId r, edit_reason_name (er_reason r),
      (case er_line r of None \<Rightarrow> [] | Some l \<Rightarrow> show_int l), show_int (er_baselineCount r),
      show_int (er_currentCount r), repair] \<and> \<not> containsProtocolSeparator repair"
proof -
  define repair where "repair = (case er_repairCommand r of None \<Rightarrow> [] | Some c \<Rightarrow> snd (sanitizeRepairCommand c (er_ruleId r)))"
  let ?parts = "[''regression'', er_path r, er_testId r, er_ruleId r, edit_reason_name (er_reason r),
      (case er_line r of None \<Rightarrow> [] | Some l \<Rightarrow> show_int l), show_int (er_baselineCount r),
      show_int (er_currentCount r), repair]"
  have clean: "\<not> containsProtocolSeparator repair"
    unfolding repair_def by (cases "er_repairCommand r") (simp_all add: sanitize_clean, simp add: containsProtocolSeparator_def)
  have "TAB \<notin> set ''regression''" "TAB \<notin> set (edit_reason_name (er_reason r))"
    by (simp add: TAB_def) (cases "er_reason r"; simp add: TAB_def)
  moreover have "TAB \<notin> set (case er_line r of None \<Rightarrow> [] | Some l \<Rightarrow> show_int l)"
    by (cases "er_line r") (simp_all add: show_int_no_tab)
  ultimately have "js_split TAB (js_join [TAB] ?parts) = ?parts"
    using assms clean_no_tab[OF clean] by (intro split_join_tab) (simp_all add: show_int_no_tab)
  moreover have "snd (formatEditCheckRegression r) = Inr (js_join [TAB] ?parts)"
    unfolding formatEditCheckRegression_def repair_def
    by (cases "er_repairCommand r")
      (simp_all add: formatProtocolRow_def regression_layout_def rl_fieldCount_def case_prod_unfold Let_def)
  ultimately show ?thesis using clean by blast
qed

section \<open>Groups\<close>

text \<open>The pairs that may be linted.\<close>

lemma trusted_same:
  "trusted_ratchet lc sha e hs b t = Some p \<Longrightarrow> trusted_ratchet lc sha e hs b t' = Some q \<Longrightarrow> et_testId t = et_testId t' \<Longrightarrow> p = q"
  by (auto simp: trusted_ratchet_def split: option.splits if_splits)

lemma registry_map_id: "map_of (registry_map rs) k = Some r \<Longrightarrow> rc_id r = k \<and> r \<in> set rs"
  by (auto simp: registry_map_def map_of_map_from dest!: map_of_SomeD)

lemma trusted_id:
  "trusted_ratchet lc sha e hs b t = Some (r, h) \<Longrightarrow> rc_id r = et_testId t \<and> map_of (registry_map (ee_registry e)) (et_testId t) = Some r
     \<and> map_of (bl_tests b) (et_testId t) \<noteq> None"
  by (auto simp: trusted_ratchet_def dest: registry_map_id split: option.splits if_splits)

definition groups_ok where
  "groups_ok trusted ts G \<longleftrightarrow> distinct (map fst G) \<and> (\<forall>k. case map_of G k of
      None \<Rightarrow> \<forall>t \<in> set ts. et_testId t = k \<longrightarrow> trusted t = None
    | Some g \<Rightarrow> (\<exists>t \<in> set ts. et_testId t = k \<and> trusted t = Some (rg_ratchet g, rg_ruleSourceHash g)) \<and>
        set (rg_files g) = {et_path t | t. t \<in> set ts \<and> et_testId t = k \<and> trusted t \<noteq> None})"

lemma group_target_ok:
  assumes ok: "groups_ok (trusted_ratchet lc sha e hs b) ts G"
  shows "groups_ok (trusted_ratchet lc sha e hs b) (ts @ [t]) (group_target lc sha e hs b t G)"
proof (cases "trusted_ratchet lc sha e hs b t")
  case None
  have "groups_ok (trusted_ratchet lc sha e hs b) (ts @ [t]) G"
    unfolding groups_ok_def
  proof (intro conjI allI)
    fix k
    show "case map_of G k of None \<Rightarrow> \<forall>t\<in>set (ts @ [t]). et_testId t = k \<longrightarrow> trusted_ratchet lc sha e hs b t = None
      | Some g \<Rightarrow> (\<exists>t\<in>set (ts @ [t]). et_testId t = k \<and> trusted_ratchet lc sha e hs b t = Some (rg_ratchet g, rg_ruleSourceHash g)) \<and>
        set (rg_files g) = {et_path ta |ta. ta \<in> set (ts @ [t]) \<and> et_testId ta = k \<and> trusted_ratchet lc sha e hs b ta \<noteq> None}"
      using ok[unfolded groups_ok_def, THEN conjunct2, rule_format, of k] None
      by (auto split: option.splits)
  qed (use ok in \<open>simp add: groups_ok_def\<close>)
  then show ?thesis by (simp add: group_target_def None)
next
  case (Some p)
  obtain r h where p: "p = (r, h)" by (cases p)
  let ?T = "trusted_ratchet lc sha e hs b" and ?id = "et_testId t"
  define g0 where "g0 = (case map_of G ?id of Some g \<Rightarrow> g | None \<Rightarrow> \<lparr>rg_ratchet = r, rg_ruleSourceHash = h, rg_files = []\<rparr>)"
  define g1 where "g1 = (if et_path t \<in> set (rg_files g0) then g0 else g0\<lparr>rg_files := rg_files g0 @ [et_path t]\<rparr>)"
  have step: "group_target lc sha e hs b t G = AList.update ?id g1 G"
    by (simp add: group_target_def Some p g0_def g1_def Let_def)
  note at = ok[unfolded groups_ok_def, THEN conjunct2, rule_format]
  have same: "rg_ratchet g0 = r \<and> rg_ruleSourceHash g0 = h"
    using at[of ?id] trusted_same[OF _ Some] by (fastforce simp: g0_def p split: option.splits)
  have files0: "set (rg_files g0) = {et_path ta |ta. ta \<in> set ts \<and> et_testId ta = ?id \<and> ?T ta \<noteq> None}"
    using at[of ?id] by (auto simp: g0_def split: option.splits)
  have g1: "rg_ratchet g1 = r" "rg_ruleSourceHash g1 = h" "set (rg_files g1) = insert (et_path t) (set (rg_files g0))"
    using same by (auto simp: g1_def)
  show ?thesis
    unfolding step groups_ok_def
  proof (intro conjI allI)
    fix k
    show "case map_of (AList.update ?id g1 G) k of None \<Rightarrow> \<forall>t\<in>set (ts @ [t]). et_testId t = k \<longrightarrow> ?T t = None
      | Some g \<Rightarrow> (\<exists>t\<in>set (ts @ [t]). et_testId t = k \<and> ?T t = Some (rg_ratchet g, rg_ruleSourceHash g)) \<and>
        set (rg_files g) = {et_path ta |ta. ta \<in> set (ts @ [t]) \<and> et_testId ta = k \<and> ?T ta \<noteq> None}"
    proof (cases "k = ?id")
      case True
      then show ?thesis using Some p g1 files0 by (auto simp: update_conv')
    next
      case False
      then show ?thesis using at[of k] by (auto simp: update_conv' split: option.splits)
    qed
  qed (use ok in \<open>simp add: groups_ok_def distinct_update\<close>)
qed

lemma groups_fold_ok: "groups_ok (trusted_ratchet lc sha e hs b) ts (fold (group_target lc sha e hs b) ts [])"
proof (induction ts rule: rev_induct)
  case Nil
  show ?case by (simp add: groups_ok_def)
next
  case (snoc t ts)
  then show ?case using group_target_ok by simp
qed

lemma groups_exact:
  fixes sha lc e hashesOf b
  defines "T \<equiv> trusted_ratchet lc sha e (hashesOf (ee_registry e)) b"
  shows "(\<exists>g \<in> set (groupTargets lc sha hashesOf e ts b). rc_id (rg_ratchet g) = k \<and> p \<in> set (rg_files g)) \<longleftrightarrow>
      (\<exists>t \<in> set ts. et_testId t = k \<and> et_path t = p \<and> T t \<noteq> None)"
    and "g \<in> set (groupTargets lc sha hashesOf e ts b) \<Longrightarrow>
      map_of (registry_map (ee_registry e)) (rc_id (rg_ratchet g)) = Some (rg_ratchet g) \<and> map_of (bl_tests b) (rc_id (rg_ratchet g)) \<noteq> None"
    and "g \<in> set (groupTargets lc sha hashesOf e ts b) \<Longrightarrow> g' \<in> set (groupTargets lc sha hashesOf e ts b) \<Longrightarrow>
      rc_id (rg_ratchet g) = rc_id (rg_ratchet g') \<Longrightarrow> g = g'"
proof -
  let ?G = "fold (group_target lc sha e (hashesOf (ee_registry e)) b) ts []"
  have ok: "groups_ok T ts ?G" unfolding T_def by (rule groups_fold_ok)
  have dist: "distinct (map fst ?G)" using ok by (simp add: groups_ok_def)
  note at = ok[unfolded groups_ok_def, THEN conjunct2, rule_format]
  have key: "rc_id (rg_ratchet x) = i \<and> map_of (registry_map (ee_registry e)) i = Some (rg_ratchet x) \<and> map_of (bl_tests b) i \<noteq> None \<and>
      map_of ?G i = Some x" if "(i, x) \<in> set ?G" for i x
  proof -
    have m: "map_of ?G i = Some x" using that dist by simp
    then obtain t where "et_testId t = i" "T t = Some (rg_ratchet x, rg_ruleSourceHash x)"
      using at[of i] by auto
    with m show ?thesis using trusted_id unfolding T_def by blast
  qed
  have mem: "x \<in> set (groupTargets lc sha hashesOf e ts b) \<longleftrightarrow> (rc_id (rg_ratchet x), x) \<in> set ?G" for x
  proof
    assume "x \<in> set (groupTargets lc sha hashesOf e ts b)"
    then obtain i where "(i, x) \<in> set ?G" unfolding groupTargets_def set_map by auto
    with key[OF this] show "(rc_id (rg_ratchet x), x) \<in> set ?G" by simp
  next
    assume "(rc_id (rg_ratchet x), x) \<in> set ?G"
    then show "x \<in> set (groupTargets lc sha hashesOf e ts b)" unfolding groupTargets_def set_map by (rule image_eqI[rotated]) simp
  qed
  show "(\<exists>g \<in> set (groupTargets lc sha hashesOf e ts b). rc_id (rg_ratchet g) = k \<and> p \<in> set (rg_files g)) \<longleftrightarrow>
      (\<exists>t \<in> set ts. et_testId t = k \<and> et_path t = p \<and> T t \<noteq> None)"
  proof
    assume "\<exists>g \<in> set (groupTargets lc sha hashesOf e ts b). rc_id (rg_ratchet g) = k \<and> p \<in> set (rg_files g)"
    then obtain x where "map_of ?G k = Some x" "p \<in> set (rg_files x)" using mem key by blast
    then show "\<exists>t \<in> set ts. et_testId t = k \<and> et_path t = p \<and> T t \<noteq> None" using at[of k] by auto
  next
    assume r: "\<exists>t \<in> set ts. et_testId t = k \<and> et_path t = p \<and> T t \<noteq> None"
    then obtain x where x: "map_of ?G k = Some x" using at[of k] by (cases "map_of ?G k") auto
    then have "p \<in> set (rg_files x)" using at[of k] r by auto
    moreover have "(k, x) \<in> set ?G" using x by (rule map_of_SomeD)
    ultimately show "\<exists>g \<in> set (groupTargets lc sha hashesOf e ts b). rc_id (rg_ratchet g) = k \<and> p \<in> set (rg_files g)"
      using mem key by blast
  qed
  show "g \<in> set (groupTargets lc sha hashesOf e ts b) \<Longrightarrow>
      map_of (registry_map (ee_registry e)) (rc_id (rg_ratchet g)) = Some (rg_ratchet g) \<and> map_of (bl_tests b) (rc_id (rg_ratchet g)) \<noteq> None"
    using mem key by blast
  show "g \<in> set (groupTargets lc sha hashesOf e ts b) \<Longrightarrow> g' \<in> set (groupTargets lc sha hashesOf e ts b) \<Longrightarrow>
      rc_id (rg_ratchet g) = rc_id (rg_ratchet g') \<Longrightarrow> g = g'"
    using mem key by (metis option.inject)
qed

section \<open>The pool\<close>

text \<open>
  What holds of the pool between two events when every group has a result: the groups below
  \<open>index\<close> are in flight or have delivered, at most \<open>limit\<close> are in flight, and nothing is in flight
  only when every group has been taken.
\<close>

definition pool_ok :: "(nat \<Rightarrow> group_result) \<Rightarrow> nat \<Rightarrow> nat \<Rightarrow> pool \<Rightarrow> bool" where
  "pool_ok res n limit st \<longleftrightarrow> pl_index st \<le> n \<and> distinct (pl_inFlight st) \<and> set (pl_inFlight st) \<subseteq> {..<pl_index st}
     \<and> length (pl_inFlight st) \<le> limit \<and> \<not> pl_failed st
     \<and> set (pl_regressions st) = (\<Union>i \<in> {..<pl_index st} - set (pl_inFlight st). set (gr_regressions (res i)))
     \<and> set (pl_checked st) = (\<Union>i \<in> {..<pl_index st} - set (pl_inFlight st). set (gr_checked (res i)))"

lemma take_next_ok:
  assumes "pool_ok res n limit st" and "length (pl_inFlight st) < limit"
  shows "pool_ok res n limit (take_next n st)"
proof (cases "pl_index st < n")
  case True
  have "{..<Suc (pl_index st)} - (insert (pl_index st) (set (pl_inFlight st))) = {..<pl_index st} - set (pl_inFlight st)"
    by auto
  moreover have "pl_index st \<notin> set (pl_inFlight st)" using assms by (auto simp: pool_ok_def)
  ultimately show ?thesis
    using assms True unfolding pool_ok_def take_next_def by (simp add: subset_iff less_Suc_eq)
next
  case False
  with assms show ?thesis by (simp add: take_next_def)
qed

lemma pool_start_ok: "pool_ok res n limit (pool_start limit n)"
proof -
  let ?st = "\<lambda>k. (take_next n ^^ k) \<lparr>pl_index = 0, pl_inFlight = [], pl_regressions = [], pl_checked = [], pl_failed = False\<rparr>"
  have "k \<le> limit \<Longrightarrow> pool_ok res n limit (?st k) \<and> length (pl_inFlight (?st k)) \<le> k" for k
  proof (induction k)
    case 0
    show ?case by (simp add: pool_ok_def)
  next
    case (Suc k)
    then have "pool_ok res n limit (take_next n (?st k))" by (intro take_next_ok) auto
    moreover have "length (pl_inFlight (take_next n (?st k))) \<le> Suc (length (pl_inFlight (?st k)))"
      by (simp add: take_next_def)
    ultimately show ?case using Suc by simp
  qed
  from this[of limit] show ?thesis by (simp add: pool_start_def)
qed

lemma pool_complete_ok:
  assumes ok: "pool_ok res n limit st" and res: "\<And>j. result j = Inr (res j)"
  shows "pool_ok res n limit (pool_complete result n i st)"
proof (cases "i \<in> set (pl_inFlight st)")
  case True
  let ?mid = "st\<lparr>pl_inFlight := remove1 i (pl_inFlight st), pl_regressions := pl_regressions st @ gr_regressions (res i),
      pl_checked := pl_checked st @ gr_checked (res i)\<rparr>"
  have "{..<pl_index st} - (set (pl_inFlight st) - {i}) = insert i ({..<pl_index st} - set (pl_inFlight st))"
    using True ok by (auto simp: pool_ok_def)
  then have "pool_ok res n limit ?mid"
    using ok by (auto simp: pool_ok_def set_remove1_eq length_remove1)
  moreover have "length (pl_inFlight ?mid) < limit"
  proof -
    have "length (pl_inFlight ?mid) = length (pl_inFlight st) - 1" by (simp add: length_remove1 True)
    moreover have "length (pl_inFlight st) \<le> limit" using ok by (simp add: pool_ok_def)
    ultimately show ?thesis using length_pos_if_in_set[OF True] by linarith
  qed
  ultimately show ?thesis using True take_next_ok by (simp add: pool_complete_def res)
next
  case False
  with ok show ?thesis by (simp add: pool_complete_def)
qed

lemma pool_run_ok:
  assumes "\<And>j. result j = Inr (res j)"
  shows "pool_ok res n (pool_limit c n) (runGroupsWithConcurrency result n c is)"
proof -
  have "pool_ok res n l (fold (pool_complete result n) is st)" if "pool_ok res n l st" for l st
    using that by (induction "is" arbitrary: st) (simp_all add: pool_complete_ok[OF _ assms])
  then show ?thesis unfolding runGroupsWithConcurrency_def by (simp add: pool_start_ok)
qed

lemma take_next_all:
  "pl_index st \<le> n \<Longrightarrow> pl_inFlight (take_next n st) = [] \<Longrightarrow> pl_index (take_next n st) = n"
  by (auto simp: take_next_def split: if_splits)

lemma pool_done_all:
  assumes res: "\<And>j. result j = Inr (res j)" and "pl_inFlight (runGroupsWithConcurrency result n c is) = []"
  shows "pl_index (runGroupsWithConcurrency result n c is) = n"
proof -
  have start: "pl_inFlight (pool_start (pool_limit c n) n) = [] \<longrightarrow> pl_index (pool_start (pool_limit c n) n) = n"
  proof -
    obtain k where k: "pool_limit c n = Suc k" by (cases "pool_limit c n") (simp_all add: pool_limit_def)
    have "pl_index ((take_next n ^^ k) \<lparr>pl_index = 0, pl_inFlight = [], pl_regressions = [], pl_checked = [], pl_failed = False\<rparr>) \<le> n"
      using pool_start_ok[of _ n k] by (simp add: pool_ok_def pool_start_def)
    from take_next_all[OF this] show ?thesis by (simp add: pool_start_def k)
  qed
  have "pool_ok res n l st \<Longrightarrow> (pl_inFlight st = [] \<longrightarrow> pl_index st = n) \<Longrightarrow>
      pl_inFlight (fold (pool_complete result n) is st) = [] \<longrightarrow> pl_index (fold (pool_complete result n) is st) = n" for l st
  proof (induction "is" arbitrary: st)
    case (Cons i "is")
    have "pl_inFlight (pool_complete result n i st) = [] \<longrightarrow> pl_index (pool_complete result n i st) = n"
      using Cons.prems take_next_all by (auto simp: pool_complete_def res pool_ok_def)
    with Cons.IH[OF pool_complete_ok[OF Cons.prems(1) res]] show ?case by simp
  qed simp
  from this[OF pool_start_ok start] assms(2) show ?thesis by (simp add: runGroupsWithConcurrency_def)
qed

lemma pool_collects:
  assumes "\<And>j. result j = Inr (res j)" and "pl_inFlight (runGroupsWithConcurrency result n c is) = []"
  shows "set (pl_regressions (runGroupsWithConcurrency result n c is)) = (\<Union>i < n. set (gr_regressions (res i)))"
    and "set (pl_checked (runGroupsWithConcurrency result n c is)) = (\<Union>i < n. set (gr_checked (res i)))"
  using pool_run_ok[of result res n c "is"] pool_done_all[of result res n c "is"] assms by (simp_all add: pool_ok_def)

section \<open>The verdicts\<close>

text \<open>What a group's collection gives.\<close>

abbreviation group_items where
  "group_items lint sha root g \<equiv> collectCurrentForRatchet lint sha root (rg_ratchet g) (rg_ruleSourceHash g) (rg_files g)"

definition group_result_of where
  "group_result_of lc sha lint root vocab b g =
     (case regressionsForGroup lc sha lint root vocab b g of Inl _ \<Rightarrow> \<lparr>gr_regressions = [], gr_checked = []\<rparr> | Inr r \<Rightarrow> r)"

lemma group_never_throws:
  "regressionsForGroup lc sha lint root vocab b g = Inr (group_result_of lc sha lint root vocab b g)"
proof (cases "group_items lint sha root g")
  case (Some items)
  obtain d where "compareCurrentToBaseline lc b [rg_ratchet g] [(rc_id (rg_ratchet g), items)] vocab = Inr d"
    using compare_visits by blast
  then show ?thesis by (simp add: group_result_of_def regressionsForGroup_def Some)
qed (simp add: group_result_of_def regressionsForGroup_def)

lemma registered_is_registry_map: "registered rs = registry_map rs"
  by (simp add: registered_def registry_map_def)

lemma group_context:
  assumes reg: "map_of (registry_map rs) (rc_id r) = Some r" and test: "map_of (bl_tests b) (rc_id r) \<noteq> None"
    and items: "\<And>p. map_of items p = (if p \<in> F then collected_item cur (rc_id r) p else None)"
  shows "compared_context b [r] [(rc_id r, items)] k p =
    (if k = rc_id r \<and> p \<in> F then compared_context b rs cur k p else None)"
proof -
  have one: "compared_ratchet b [r] k = (if k = rc_id r then Some r else None)"
    using test by (auto simp: compared_ratchet_def registered_def map_from_def)
  have full: "compared_ratchet b rs (rc_id r) = Some r"
    using reg test by (simp add: compared_ratchet_def registered_is_registry_map)
  show ?thesis
    using items[of p] by (auto simp: compared_context_def one full collected_item_def split: option.splits)
qed

lemma group_verdicts:
  assumes reg: "map_of (registry_map rs) (rc_id (rg_ratchet g)) = Some (rg_ratchet g)"
    and test: "map_of (bl_tests b) (rc_id (rg_ratchet g)) \<noteq> None"
    and got: "group_items lint sha root g = Some items"
    and items: "\<And>p. map_of items p = (if p \<in> set (rg_files g) then collected_item cur (rc_id (rg_ratchet g)) p else None)"
    and gate: "compareCurrentToBaseline lc b rs cur vocab = Inr gate"
  shows "set (gr_regressions (group_result_of lc sha lint root vocab b g)) =
    edit_regression ` {x \<in> set (cmp_regressions gate). dl_testId x = rc_id (rg_ratchet g) \<and> dl_path x \<in> set (rg_files g)}"
proof -
  let ?r = "rg_ratchet g"
  obtain d where d: "compareCurrentToBaseline lc b [?r] [(rc_id ?r, items)] vocab = Inr d"
    and regs: "\<And>x. x \<in> set (cmp_regressions d) \<longleftrightarrow> (\<exists>k p. co_regression (verdict_at lc b [?r] [(rc_id ?r, items)] k p) = Some x)"
    using compare_visits[of lc b "[?r]" "[(rc_id ?r, items)]" vocab] by blast
  have full: "x \<in> set (cmp_regressions gate) \<longleftrightarrow> (\<exists>k p. co_regression (verdict_at lc b rs cur k p) = Some x)" for x
    using compare_visits[of lc b rs cur vocab] gate by auto
  have ctx: "compared_context b [?r] [(rc_id ?r, items)] k p =
      (if k = rc_id ?r \<and> p \<in> set (rg_files g) then compared_context b rs cur k p else None)" for k p
    by (rule group_context[OF reg test items])
  have id: "rc_id (ic_ratchet c) = k \<and> ic_path c = p" if "compared_context b rs cur k p = Some c" for c k p
    using that registry_map_id by (auto simp: compared_context_def compared_ratchet_def registered_is_registry_map
        split: option.splits if_splits)
  have "set (cmp_regressions d) = {x \<in> set (cmp_regressions gate). dl_testId x = rc_id ?r \<and> dl_path x \<in> set (rg_files g)}"
    unfolding set_eq_iff mem_Collect_eq regs full verdict_regression ctx
  proof (intro allI iffI; elim exE conjE)
    fix x k p c
    assume c: "(if k = rc_id ?r \<and> p \<in> set (rg_files g) then compared_context b rs cur k p else None) = Some c"
      and x: "co_regression (compareItem lc (rc_metric (ic_ratchet c)) c) = Some x"
    then show "(\<exists>k p c. compared_context b rs cur k p = Some c \<and> co_regression (compareItem lc (rc_metric (ic_ratchet c)) c) = Some x) \<and>
        dl_testId x = rc_id ?r \<and> dl_path x \<in> set (rg_files g)"
      using regression_fields[OF x] id by (auto split: if_splits)
  next
    fix x k p c
    assume "dl_testId x = rc_id ?r" "dl_path x \<in> set (rg_files g)" "compared_context b rs cur k p = Some c"
      and x: "co_regression (compareItem lc (rc_metric (ic_ratchet c)) c) = Some x"
    then have "(if k = rc_id ?r \<and> p \<in> set (rg_files g) then compared_context b rs cur k p else None) = Some c"
      using regression_fields[OF x] id by auto
    with x show "\<exists>k p c. (if k = rc_id ?r \<and> p \<in> set (rg_files g) then compared_context b rs cur k p else None) = Some c \<and>
        co_regression (compareItem lc (rc_metric (ic_ratchet c)) c) = Some x" by blast
  qed
  then show ?thesis by (simp add: group_result_of_def regressionsForGroup_def got d)
qed

lemma edit_check_base:
  fixes lc sha hashesOf lint engine targets baseline
  defines "groups \<equiv> groupTargets lc sha hashesOf engine targets baseline"
  assumes run: "runEditCheckRegressions jp lc sha hashesOf lint engine (Some txt) targets concurrency completions = Some res"
    and disk: "read_structure jp lc engine txt = Inr (Some baseline)"
    and gate: "compareCurrentToBaseline lc baseline (ee_registry engine) cur (ee_workflowVocabulary engine) = Inr gate"
    and single: "\<And>g items p. g \<in> set groups \<Longrightarrow> group_items lint sha (ee_repoRoot engine) g = Some items \<Longrightarrow>
      map_of items p = (if p \<in> set (rg_files g) then collected_item cur (rc_id (rg_ratchet g)) p else None)"
  shows "x \<in> set (ec_regressions res) \<longleftrightarrow> (\<exists>r \<in> set (cmp_regressions gate). x = edit_regression r \<and>
      (\<exists>g \<in> set groups. group_items lint sha (ee_repoRoot engine) g \<noteq> None \<and> rc_id (rg_ratchet g) = dl_testId r \<and> dl_path r \<in> set (rg_files g)))"
proof (cases "targets = []")
  case True
  then show ?thesis using run by (auto simp: runEditCheckRegressions_def groups_def groupTargets_def)
next
  case False
  let ?res = "\<lambda>g. group_result_of lc sha lint (ee_repoRoot engine) (ee_workflowVocabulary engine) baseline g"
  let ?st = "runGroupsWithConcurrency (\<lambda>i. Inr (?res (groups ! i))) (length groups) concurrency completions"
  have "(if pl_inFlight ?st = [] \<and> \<not> pl_failed ?st
      then Some \<lparr>ec_regressions = js_sort (byPathThenTestId lc regression_key) (pl_regressions ?st), ec_checked = pl_checked ?st\<rparr>
      else None) = Some res"
    using run by (simp add: runEditCheckRegressions_def False disk Let_def group_never_throws flip: groups_def)
  then have done': "pl_inFlight ?st = []" and res: "set (ec_regressions res) = set (pl_regressions ?st)"
    by (auto split: if_splits)
  have all: "set (ec_regressions res) = (\<Union>g \<in> set groups. set (gr_regressions (?res g)))"
    unfolding res pool_collects(1)[of "\<lambda>i. Inr (?res (groups ! i))", OF refl done']
    by (auto simp: set_conv_nth)
  have each: "set (gr_regressions (?res g)) = (if group_items lint sha (ee_repoRoot engine) g = None then {}
      else edit_regression ` {r \<in> set (cmp_regressions gate). dl_testId r = rc_id (rg_ratchet g) \<and> dl_path r \<in> set (rg_files g)})"
    if g: "g \<in> set groups" for g
  proof (cases "group_items lint sha (ee_repoRoot engine) g")
    case None
    then show ?thesis by (simp add: group_result_of_def regressionsForGroup_def)
  next
    case (Some items)
    show ?thesis
      using group_verdicts[OF _ _ Some _ gate] groups_exact(2)[OF g[unfolded groups_def]] single[OF g Some] Some by simp
  qed
  have "x \<in> set (ec_regressions res) \<longleftrightarrow> (\<exists>g \<in> set groups. group_items lint sha (ee_repoRoot engine) g \<noteq> None \<and>
      (\<exists>r \<in> set (cmp_regressions gate). x = edit_regression r \<and> rc_id (rg_ratchet g) = dl_testId r \<and> dl_path r \<in> set (rg_files g)))"
    unfolding all UN_iff by (rule bex_cong[OF refl]) (auto simp: each)
  then show ?thesis by blast
qed

text \<open>
  C34: whatever the order in which the collections complete, a finished edit check reports exactly the
  gate's regressions on the pairs it linted, given that ESLint finds the same in a file whether it is
  given that file alone or all of them. It lints the pairs that were asked for and can be trusted:
  their ratchet is registered under the asked rule, is cheap, and its committed test has not drifted.
\<close>

theorem edit_check_agrees_with_gate:
  assumes "runEditCheckRegressions jp lc sha hashesOf lint engine (Some txt) targets concurrency completions = Some res"
    and "read_structure jp lc engine txt = Inr (Some baseline)"
    and "compareCurrentToBaseline lc baseline (ee_registry engine) cur (ee_workflowVocabulary engine) = Inr gate"
    and "\<And>g items p. g \<in> set (groupTargets lc sha hashesOf engine targets baseline) \<Longrightarrow>
      group_items lint sha (ee_repoRoot engine) g = Some items \<Longrightarrow>
      map_of items p = (if p \<in> set (rg_files g) then collected_item cur (rc_id (rg_ratchet g)) p else None)"
  shows "(x \<in> set (ec_regressions res) \<longleftrightarrow> (\<exists>r \<in> set (cmp_regressions gate). x = edit_regression r \<and>
      (\<exists>g \<in> set (groupTargets lc sha hashesOf engine targets baseline).
         group_items lint sha (ee_repoRoot engine) g \<noteq> None \<and> rc_id (rg_ratchet g) = dl_testId r \<and> dl_path r \<in> set (rg_files g)))) \<and>
    ((\<exists>g \<in> set (groupTargets lc sha hashesOf engine targets baseline). rc_id (rg_ratchet g) = k \<and> p \<in> set (rg_files g)) \<longleftrightarrow>
     (\<exists>t \<in> set targets. et_testId t = k \<and> et_path t = p \<and>
        trusted_ratchet lc sha engine (hashesOf (ee_registry engine)) baseline t \<noteq> None))"
  by (rule conjI[OF edit_check_base[OF assms] groups_exact(1)])

definition edit_engine :: edit_check_engine where
  "edit_engine = \<lparr>ee_repoRoot = ''/r'', ee_baselinePath = ''baseline.json'', ee_registry = one_ratchet MessageCount,
     ee_workflowVocabulary = sample_vocab\<rparr>"

definition edit_lint :: "unit linter" where
  "edit_lint _ _ files = Inr (map (\<lambda>p. \<lparr>ef_filePath = p, ef_messages = replicate 2 \<lparr>em_ruleId = Some ''no-console'',
     em_severity = 2, em_message = ''m'', em_messageId = None, em_line = Some 1, em_column = None, em_fatal = False\<rparr>\<rparr>) files)"

definition edit_sha :: hasher where
  "edit_sha _ = replicate 64 (CHR ''a'')"

definition edit_hashes :: rule_hashes where
  "edit_hashes _ = [(''ratchet/a'', ''sha256:'' @ replicate 64 (CHR ''a''))]"

definition edit_target :: edit_check_target where
  "edit_target = \<lparr>et_path = ''src/a.ts'', et_testId = ''ratchet/a'', et_ruleId = ''no-console'', et_cacheIdentity = None\<rparr>"

definition edit_items :: items_map where
  "edit_items = (case itemsFromResults edit_sha (sample_ratchet ''ratchet/a'' ''no-console'' MessageCount CoreSource)
     (case edit_lint (sample_ratchet ''ratchet/a'' ''no-console'' MessageCount CoreSource) [] [''src/a.ts''] of Inr rs \<Rightarrow> rs | Inl _ \<Rightarrow> []) ''/r'' of Inr is \<Rightarrow> is | Inl _ \<Rightarrow> [])"

lemma edit_disk: "read_structure (JSON_parse JDec id) codeUnitCompare edit_engine (disk_text 1) = Inr (Some (disk_baseline 1))"
proof -
  have n: "relativeToRepoRoot (ee_repoRoot edit_engine) (ee_baselinePath edit_engine) = ''baseline.json''" by code_simp
  show ?thesis
    using disk_reads_back[of 1]
    by (auto simp: read_structure_def parseCommittedStructure_def n edit_engine_def[THEN arg_cong[of _ _ ee_workflowVocabulary]]
        disk_context_def and_then_def lift_error_def split: sum.splits option.splits)
qed

definition edit_group :: ratchet_group where
  "edit_group = \<lparr>rg_ratchet = sample_ratchet ''ratchet/a'' ''no-console'' MessageCount CoreSource,
     rg_ruleSourceHash = ''sha256:'' @ replicate 64 (CHR ''a''), rg_files = [''src/a.ts'']\<rparr>"

lemma edit_groups: "groupTargets codeUnitCompare edit_sha edit_hashes edit_engine [edit_target] (disk_baseline 1) = [edit_group]"
  by code_simp

lemma edit_collected: "group_items edit_lint edit_sha (ee_repoRoot edit_engine) edit_group = Some edit_items"
  by code_simp

lemma edit_item_paths: "map fst edit_items = [''src/a.ts'']"
  by code_simp

lemma edit_gate:
  obtains d r where "compareCurrentToBaseline codeUnitCompare (disk_baseline 1) (ee_registry edit_engine)
      [(''ratchet/a'', edit_items)] (ee_workflowVocabulary edit_engine) = Inr d"
    "cmp_regressions d = [r]" "dl_testId r = ''ratchet/a''" "dl_path r = ''src/a.ts''"
proof -
  have "case compareCurrentToBaseline codeUnitCompare (disk_baseline 1) (ee_registry edit_engine)
      [(''ratchet/a'', edit_items)] (ee_workflowVocabulary edit_engine) of
    Inl _ \<Rightarrow> False | Inr d \<Rightarrow> map (\<lambda>r. (dl_testId r, dl_path r)) (cmp_regressions d) = [(''ratchet/a'', ''src/a.ts'')]"
    by code_simp
  then show ?thesis using that by (auto split: sum.splits)
qed

lemma edit_check_agrees_with_gate_witness:
  "\<exists>res r. runEditCheckRegressions (JSON_parse JDec id) codeUnitCompare edit_sha edit_hashes edit_lint edit_engine
      (Some (disk_text 1)) [edit_target] 4 [0] = Some res \<and> edit_regression r \<in> set (ec_regressions res) \<and> dl_path r = ''src/a.ts''"
proof -
  let ?run = "runEditCheckRegressions (JSON_parse JDec id) codeUnitCompare edit_sha edit_hashes edit_lint edit_engine
      (Some (disk_text 1)) [edit_target] 4 [0]"
  obtain d r where gate: "compareCurrentToBaseline codeUnitCompare (disk_baseline 1) (ee_registry edit_engine)
      [(''ratchet/a'', edit_items)] (ee_workflowVocabulary edit_engine) = Inr d"
    and r: "cmp_regressions d = [r]" "dl_testId r = ''ratchet/a''" "dl_path r = ''src/a.ts''"
    using edit_gate by blast
  have id: "rc_id (rg_ratchet edit_group) = ''ratchet/a''" "rg_files edit_group = [''src/a.ts'']"
    by (simp_all add: edit_group_def sample_ratchet_def)
  have "\<exists>res. ?run = Some res"
    by (simp add: runEditCheckRegressions_def edit_disk edit_groups group_never_throws runGroupsWithConcurrency_def
        pool_start_def pool_limit_def take_next_def pool_complete_def Let_def)
  then obtain res where run: "?run = Some res" ..
  have single: "map_of items p = (if p \<in> set (rg_files g)
      then collected_item [(''ratchet/a'', edit_items)] (rc_id (rg_ratchet g)) p else None)"
    if "g \<in> set (groupTargets codeUnitCompare edit_sha edit_hashes edit_engine [edit_target] (disk_baseline 1))"
      and "group_items edit_lint edit_sha (ee_repoRoot edit_engine) g = Some items" for g items p
  proof -
    have g: "g = edit_group" using that(1) by (simp add: edit_groups)
    then have "items = edit_items" using that(2) edit_collected by simp
    moreover have "map_of edit_items p = None" if "p \<noteq> ''src/a.ts''"
      using that edit_item_paths by (simp add: map_of_None_keys)
    ultimately show ?thesis by (auto simp: g id collected_item_def)
  qed
  have "edit_regression r \<in> set (ec_regressions res)"
    by (rule edit_check_agrees_with_gate[THEN conjunct1, THEN iffD2, OF run edit_disk gate single])
      (auto simp: r id edit_groups edit_collected[unfolded id(2)])
  then show ?thesis using run r(3) by blast
qed

end
