(* ===== verification/Reports.thy ===== *)
theory Reports
  imports BaselineValidation DebtLogSchema DebtLog TextEscape DriftPrelude EditCheck
begin

text \<open>
  The read-only reports over committed data: \<open>governance/summary.ts\<close>, \<open>governance/trend.ts\<close> and
  \<open>governance/debt-log.ts\<close>. \<open>lc\<close> is \<open>localeCompare\<close>; git is a parameter of the trend, a function of
  its arguments that is \<open>None\<close> when the command fails.
\<close>

section \<open>The summary\<close>

record summary_row =
  sr_id :: string
  sr_ruleId :: string
  sr_mode :: ratchet_mode
  sr_metric :: metric
  sr_fileCount :: nat
  sr_totalFindings :: int

record directory_row =
  dr_id :: string
  dr_ruleId :: string
  dr_metric :: metric
  dr_directory :: string
  dr_fileCount :: nat
  dr_totalFindings :: int

definition sumFindings :: "baseline_test \<Rightarrow> int" where
  "sumFindings test = foldl (\<lambda>total (_, item). total + mi_count item) 0 (bt_items test)"

definition rowForTest :: "string \<Rightarrow> baseline_test \<Rightarrow> summary_row" where
  "rowForTest k test =
     \<lparr>sr_id = k, sr_ruleId = gm_ruleId test, sr_mode = gm_mode test, sr_metric = gm_metric test,
      sr_fileCount = length (bt_items test), sr_totalFindings = sumFindings test\<rparr>"

definition rowForRatchet :: "ratchet_config \<Rightarrow> baseline_test option \<Rightarrow> summary_row" where
  "rowForRatchet ratchet test =
     (case test of
        Some t \<Rightarrow> rowForTest (rc_id ratchet) t
      | None \<Rightarrow> \<lparr>sr_id = rc_id ratchet, sr_ruleId = rc_ruleId ratchet, sr_mode = rc_mode ratchet,
          sr_metric = rc_metric ratchet, sr_fileCount = 0, sr_totalFindings = 0\<rparr>)"

definition orphan_ids :: "string cmp \<Rightarrow> ratchet_baseline \<Rightarrow> ratchet_config list \<Rightarrow> string list" where
  "orphan_ids lc b registry = js_sort lc (filter (\<lambda>k. k \<notin> set (map rc_id registry)) (map fst (bl_tests b)))"

definition summarizeLintRatchetBaseline ::
    "string cmp \<Rightarrow> ratchet_baseline \<Rightarrow> ratchet_config list \<Rightarrow> summary_row list" where
  "summarizeLintRatchetBaseline lc b registry =
     map (\<lambda>r. rowForRatchet r (map_of (bl_tests b) (rc_id r))) registry
     @ List.map_filter (\<lambda>k. map_option (rowForTest k) (map_of (bl_tests b) k)) (orphan_ids lc b registry)"

definition directoryForPath :: "string \<Rightarrow> nat \<Rightarrow> string" where
  "directoryForPath path depth =
     (let parts = js_split (CHR ''/'') path
      in if length parts \<le> 1 then ''.'' else js_join ''/'' (take (min depth (length parts - 1)) parts))"

definition directory_step ::
    "nat \<Rightarrow> string \<times> metric_item \<Rightarrow> (string \<times> nat \<times> int) list \<Rightarrow> (string \<times> nat \<times> int) list" where
  "directory_step depth entry byDirectory =
     (let directory = directoryForPath (fst entry) depth;
          previous = (case map_of byDirectory directory of Some p \<Rightarrow> p | None \<Rightarrow> (0, 0))
      in AList.update directory (fst previous + 1, snd previous + mi_count (snd entry)) byDirectory)"

definition compare_directory_rows :: "string cmp \<Rightarrow> directory_row cmp" where
  "compare_directory_rows lc l r =
     (let d = dr_totalFindings r - dr_totalFindings l in if d \<noteq> 0 then d else lc (dr_directory l) (dr_directory r))"

definition directoryRowsForTest :: "string cmp \<Rightarrow> string \<Rightarrow> baseline_test \<Rightarrow> nat \<Rightarrow> directory_row list" where
  "directoryRowsForTest lc k test depth =
     js_sort (compare_directory_rows lc)
       (map (\<lambda>(directory, n, total). \<lparr>dr_id = k, dr_ruleId = gm_ruleId test, dr_metric = gm_metric test,
          dr_directory = directory, dr_fileCount = n, dr_totalFindings = total\<rparr>)
        (fold (directory_step depth) (bt_items test) []))"

definition summarizeLintRatchetBaselineByDirectory ::
    "string cmp \<Rightarrow> ratchet_baseline \<Rightarrow> ratchet_config list \<Rightarrow> nat \<Rightarrow> directory_row list" where
  "summarizeLintRatchetBaselineByDirectory lc b registry depth =
     (let rows = (\<lambda>k. case map_of (bl_tests b) k of None \<Rightarrow> [] | Some t \<Rightarrow> directoryRowsForTest lc k t depth)
      in concat (map (\<lambda>r. rows (rc_id r)) registry) @ concat (map rows (orphan_ids lc b registry)))"

section \<open>Aligned columns\<close>

definition padEnd :: "nat \<Rightarrow> string \<Rightarrow> string" where
  "padEnd n s = s @ replicate (n - length s) (CHR '' '')"

definition padStart :: "nat \<Rightarrow> string \<Rightarrow> string" where
  "padStart n s = replicate (n - length s) (CHR '' '') @ s"

definition maxLength :: "string list \<Rightarrow> nat" where
  "maxLength values = foldr max (map length values) 0"

record summary_cells =
  sc_ratchet :: string
  sc_rule :: string
  sc_metric :: string
  sc_directory :: "string option"
  sc_files :: string
  sc_findings :: string

record column_widths =
  cw_ratchet :: nat
  cw_rule :: nat
  cw_metric :: nat
  cw_directory :: "nat option"
  cw_files :: nat
  cw_findings :: nat

definition formatRow :: "summary_cells \<Rightarrow> column_widths \<Rightarrow> string" where
  "formatRow row widths =
     js_join ''  ''
       ([padEnd (cw_ratchet widths) (sc_ratchet row), padEnd (cw_rule widths) (sc_rule row),
         padEnd (cw_metric widths) (sc_metric row)]
        @ (case (sc_directory row, cw_directory widths) of (Some d, Some w) \<Rightarrow> [padEnd w d] | _ \<Rightarrow> [])
        @ [padStart (cw_files widths) (sc_files row), padStart (cw_findings widths) (sc_findings row)])"

definition rowCells :: "summary_row \<Rightarrow> summary_cells" where
  "rowCells row = \<lparr>sc_ratchet = sr_id row, sc_rule = sr_ruleId row, sc_metric = metric_name (sr_metric row),
     sc_directory = None, sc_files = show_nat (sr_fileCount row), sc_findings = show_int (sr_totalFindings row)\<rparr>"

definition summaryColumnWidths :: "summary_row list \<Rightarrow> column_widths" where
  "summaryColumnWidths rows =
     (let cells = map rowCells rows
      in \<lparr>cw_ratchet = maxLength (''ratchet'' # map sc_ratchet cells), cw_rule = maxLength (''rule'' # map sc_rule cells),
          cw_metric = maxLength (''metric'' # map sc_metric cells), cw_directory = None,
          cw_files = maxLength (''debt files'' # map (\<lambda>row. show_nat (sr_fileCount row)) rows),
          cw_findings = maxLength (''findings'' # map (\<lambda>row. show_int (sr_totalFindings row)) rows)\<rparr>)"

definition summary_header :: "string option \<Rightarrow> summary_cells" where
  "summary_header directory = \<lparr>sc_ratchet = ''ratchet'', sc_rule = ''rule'', sc_metric = ''metric'',
     sc_directory = directory, sc_files = ''debt files'', sc_findings = ''findings''\<rparr>"

definition formatLintRatchetSummary :: "summary_row list \<Rightarrow> string" where
  "formatLintRatchetSummary rows =
     (let widths = summaryColumnWidths rows
      in js_join [CHR 0x0A] (formatRow (summary_header None) widths #
           (if rows = [] then [''(no ratchets)''] else map (\<lambda>row. formatRow (rowCells row) widths) rows)) @ [CHR 0x0A])"

definition directoryRowCells :: "directory_row \<Rightarrow> summary_cells" where
  "directoryRowCells row = \<lparr>sc_ratchet = dr_id row, sc_rule = dr_ruleId row, sc_metric = metric_name (dr_metric row),
     sc_directory = Some (dr_directory row), sc_files = show_nat (dr_fileCount row),
     sc_findings = show_int (dr_totalFindings row)\<rparr>"

definition directorySummaryColumnWidths :: "directory_row list \<Rightarrow> column_widths" where
  "directorySummaryColumnWidths rows =
     (let cells = map directoryRowCells rows
      in \<lparr>cw_ratchet = maxLength (''ratchet'' # map sc_ratchet cells), cw_rule = maxLength (''rule'' # map sc_rule cells),
          cw_metric = maxLength (''metric'' # map sc_metric cells),
          cw_directory = Some (maxLength (''directory'' #
            map (\<lambda>c. case sc_directory c of None \<Rightarrow> [] | Some d \<Rightarrow> d) cells)),
          cw_files = maxLength (''debt files'' # map (\<lambda>row. show_nat (dr_fileCount row)) rows),
          cw_findings = maxLength (''findings'' # map (\<lambda>row. show_int (dr_totalFindings row)) rows)\<rparr>)"

definition formatLintRatchetDirectorySummary :: "directory_row list \<Rightarrow> string" where
  "formatLintRatchetDirectorySummary rows =
     (let widths = directorySummaryColumnWidths rows
      in js_join [CHR 0x0A] (formatRow (summary_header (Some ''directory'')) widths #
           (if rows = [] then [''(no ratchet directories)'']
            else map (\<lambda>row. formatRow (directoryRowCells row) widths) rows)) @ [CHR 0x0A])"

datatype report_error = ReportConfig string | ReportThrown baseline_error

definition runLintRatchetSummary ::
    "json_parser \<Rightarrow> string cmp \<Rightarrow> string \<Rightarrow> string \<Rightarrow> ratchet_config list \<Rightarrow> nat option \<Rightarrow> workflow_vocabulary \<Rightarrow>
     report_error + string" where
  "runLintRatchetSummary jp lc baselineText baselineBasename registry byDirectoryDepth vocab =
     (case parseLintRatchetBaselineStructure jp lc baselineText vocab default_version_policy baselineBasename of
        Inl e \<Rightarrow> Inl (ReportThrown e)
      | Inr parsed \<Rightarrow>
          (case sb_baseline parsed of
             None \<Rightarrow> Inl (ReportConfig (js_join [CHR 0x0A] (sb_failures parsed)))
           | Some b \<Rightarrow> Inr (case byDirectoryDepth of
               Some depth \<Rightarrow> formatLintRatchetDirectorySummary (summarizeLintRatchetBaselineByDirectory lc b registry depth)
             | None \<Rightarrow> formatLintRatchetSummary (summarizeLintRatchetBaseline lc b registry))))"

section \<open>The trend\<close>

record baseline_commit =
  bc_sha :: string
  bc_committedAt :: string
  bc_path :: string

record trend_point = baseline_commit +
  tp_totalFindings :: int

record trend_series =
  ts_id :: string
  ts_ruleId :: string
  ts_metric :: string
  ts_points :: "trend_point list"

definition logArgs :: "nat option \<Rightarrow> string option \<Rightarrow> string \<Rightarrow> string list" where
  "logArgs maxCount since baselineRelPath =
     [''log'', ''--follow'', ''--name-status'', ''--format=commit %H %cI'']
     @ (case maxCount of None \<Rightarrow> [] | Some n \<Rightarrow> [''--max-count='' @ show_nat n])
     @ (case since of None \<Rightarrow> [] | Some s \<Rightarrow> [''--since='' @ s])
     @ [''--'', baselineRelPath]"

definition pathFromNameStatusLine :: "string \<Rightarrow> string option" where
  "pathFromNameStatusLine line =
     (let parts = js_split TAB line; status = hd parts
      in if status \<noteq> [] \<and> hd status \<in> {CHR ''R'', CHR ''C''} \<and> list_all is_digit (tl status) then at_index parts 2
         else if status = ''A'' \<or> status = ''M'' then at_index parts 1
         else None)"

text \<open>\<open>/^commit (?<sha>\S+) (?<committedAt>\S+)$/u\<close> on a line.\<close>

definition commit_header :: "string \<Rightarrow> (string \<times> string) option" where
  "commit_header line =
     (if take 7 line \<noteq> ''commit '' then None
      else let sha = takeWhile (\<lambda>c. \<not> is_js_space c) (drop 7 line);
               behind = dropWhile (\<lambda>c. \<not> is_js_space c) (drop 7 line)
           in (case behind of
                 [] \<Rightarrow> None
               | c # committedAt \<Rightarrow>
                   if sha \<noteq> [] \<and> c = CHR '' '' \<and> committedAt \<noteq> [] \<and> list_all (\<lambda>c. \<not> is_js_space c) committedAt
                   then Some (sha, committedAt) else None))"

record log_state =
  ls_commits :: "baseline_commit list"
  ls_pending :: "(string \<times> string) option"

definition log_line :: "string \<Rightarrow> log_state \<Rightarrow> log_state" where
  "log_line line st =
     (if line = [] then st
      else case commit_header line of
             Some h \<Rightarrow> st\<lparr>ls_pending := Some h\<rparr>
           | None \<Rightarrow>
               (case ls_pending st of
                  None \<Rightarrow> st
                | Some (sha, committedAt) \<Rightarrow>
                    (case pathFromNameStatusLine line of
                       None \<Rightarrow> st
                     | Some path \<Rightarrow>
                         \<lparr>ls_commits = ls_commits st @ [\<lparr>bc_sha = sha, bc_committedAt = committedAt, bc_path = path\<rparr>],
                          ls_pending = None\<rparr>)))"

definition parseBaselineLog :: "string \<Rightarrow> baseline_commit list" where
  "parseBaselineLog output =
     ls_commits (fold log_line (js_split (CHR 0x0A) output) \<lparr>ls_commits = [], ls_pending = None\<rparr>)"

type_synonym git_runner = "string list \<Rightarrow> string option"

definition historicalBaselineText :: "git_runner \<Rightarrow> baseline_commit \<Rightarrow> string option" where
  "historicalBaselineText git commit = git [''show'', bc_sha commit @ '':'' @ bc_path commit]"

definition addPoint :: "summary_row \<Rightarrow> trend_point \<Rightarrow> (string \<times> trend_series) list \<Rightarrow> (string \<times> trend_series) list" where
  "addPoint row point seriesById =
     AList.update (sr_id row)
       \<lparr>ts_id = sr_id row, ts_ruleId = sr_ruleId row, ts_metric = metric_name (sr_metric row),
        ts_points = (case map_of seriesById (sr_id row) of None \<Rightarrow> [] | Some s \<Rightarrow> ts_points s) @ [point]\<rparr> seriesById"

record trend_state =
  tr_seriesById :: "(string \<times> trend_series) list"
  tr_warnings :: "string list"

definition point_of :: "baseline_commit \<Rightarrow> summary_row \<Rightarrow> trend_point" where
  "point_of commit row = \<lparr>bc_sha = bc_sha commit, bc_committedAt = bc_committedAt commit, bc_path = bc_path commit,
     tp_totalFindings = sr_totalFindings row\<rparr>"

definition commit_step ::
    "json_parser \<Rightarrow> string cmp \<Rightarrow> git_runner \<Rightarrow> workflow_vocabulary \<Rightarrow> string \<Rightarrow> baseline_commit \<Rightarrow> trend_state \<Rightarrow>
     baseline_error + trend_state" where
  "commit_step jp lc git vocab baselineFile commit st =
     (case historicalBaselineText git commit of
        None \<Rightarrow> Inr (st\<lparr>tr_warnings := tr_warnings st @ [bc_sha commit @ '': '' @ bc_path commit @ '' could not be read'']\<rparr>)
      | Some txt \<Rightarrow>
          (case parseLintRatchetBaselineStructure jp lc txt vocab default_version_policy baselineFile of
             Inl e \<Rightarrow> Inl e
           | Inr parsed \<Rightarrow>
               Inr (case sb_baseline parsed of
                  None \<Rightarrow> st\<lparr>tr_warnings := tr_warnings st @ [bc_sha commit @ '': '' @ js_join ''; '' (sb_failures parsed)]\<rparr>
                | Some b \<Rightarrow> st\<lparr>tr_seriesById := fold (\<lambda>row. addPoint row (point_of commit row))
                      (summarizeLintRatchetBaseline lc b []) (tr_seriesById st)\<rparr>)))"

fun commit_loop ::
    "json_parser \<Rightarrow> string cmp \<Rightarrow> git_runner \<Rightarrow> workflow_vocabulary \<Rightarrow> string \<Rightarrow> baseline_commit list \<Rightarrow> trend_state \<Rightarrow>
     baseline_error + trend_state" where
  "commit_loop jp lc git vocab baselineFile [] st = Inr st"
| "commit_loop jp lc git vocab baselineFile (commit # commits) st =
     (case commit_step jp lc git vocab baselineFile commit st of
        Inl e \<Rightarrow> Inl e
      | Inr st' \<Rightarrow> commit_loop jp lc git vocab baselineFile commits st')"

text \<open>The series, sorted by id, and the warnings. A baseline that makes the parser throw ends the run.\<close>

definition collectSeries ::
    "json_parser \<Rightarrow> string cmp \<Rightarrow> git_runner \<Rightarrow> workflow_vocabulary \<Rightarrow> string \<Rightarrow> baseline_commit list \<Rightarrow>
     baseline_error + (trend_series list \<times> string list)" where
  "collectSeries jp lc git vocab baselineFile commits =
     (case commit_loop jp lc git vocab baselineFile (rev commits) \<lparr>tr_seriesById = [], tr_warnings = []\<rparr> of
        Inl e \<Rightarrow> Inl e
      | Inr st \<Rightarrow> Inr (js_sort (\<lambda>l r. lc (ts_id l) (ts_id r)) (map snd (tr_seriesById st)), tr_warnings st))"

definition signedDelta :: "int \<Rightarrow> string" where
  "signedDelta v = (if v > 0 then ''+'' @ show_int v else show_int v)"

text \<open>The cells of a series, in the order of the columns; \<open>Math.min()\<close> without numbers is infinite.\<close>

record trend_cells =
  tc_ratchet :: string
  tc_status :: string
  tc_rule :: string
  tc_metric :: string
  tc_first :: string
  tc_last :: string
  tc_delta :: string
  tc_min :: string
  tc_max :: string
  tc_points :: string
  tc_latest :: string

definition trendCells :: "string list \<Rightarrow> trend_series \<Rightarrow> trend_cells" where
  "trendCells activeRatchetIds series =
     (let totals = map tp_totalFindings (ts_points series);
          first = (case totals of [] \<Rightarrow> 0 | t # _ \<Rightarrow> t);
          final = (if totals = [] then 0 else last totals)
      in \<lparr>tc_ratchet = ts_id series, tc_status = (if ts_id series \<in> set activeRatchetIds then ''active'' else ''retired''),
          tc_rule = ts_ruleId series, tc_metric = ts_metric series, tc_first = show_int first, tc_last = show_int final,
          tc_delta = signedDelta (final - first),
          tc_min = (case totals of [] \<Rightarrow> ''Infinity'' | t # ts \<Rightarrow> show_int (fold min ts t)),
          tc_max = (case totals of [] \<Rightarrow> ''-Infinity'' | t # ts \<Rightarrow> show_int (fold max ts t)),
          tc_points = show_nat (length (ts_points series)),
          tc_latest = (if ts_points series = [] then []
            else let p = last (ts_points series) in take 10 (bc_committedAt p) @ '' '' @ take 12 (bc_sha p))\<rparr>)"

definition trend_columns :: "trend_cells \<Rightarrow> string list" where
  "trend_columns c = [tc_ratchet c, tc_status c, tc_rule c, tc_metric c, tc_first c, tc_last c, tc_delta c, tc_min c,
     tc_max c, tc_points c, tc_latest c]"

definition trend_header :: trend_cells where
  "trend_header = \<lparr>tc_ratchet = ''ratchet'', tc_status = ''status'', tc_rule = ''rule'', tc_metric = ''metric'',
     tc_first = ''first'', tc_last = ''last'', tc_delta = ''delta'', tc_min = ''min'', tc_max = ''max'',
     tc_points = ''points'', tc_latest = ''latest''\<rparr>"

text \<open>Per column, the widest of the header and the rows.\<close>

definition trendWidths :: "trend_cells list \<Rightarrow> nat list" where
  "trendWidths rows =
     map (\<lambda>i. maxLength (trend_columns trend_header ! i # map (\<lambda>row. trend_columns row ! i) rows)) [0..<11]"

definition formatTrendRow :: "trend_cells \<Rightarrow> nat list \<Rightarrow> string" where
  "formatTrendRow row widths =
     js_join ''  '' (map (\<lambda>i. (if i < 4 \<or> i = 10 then padEnd else padStart) (widths ! i) (trend_columns row ! i)) [0..<11])"

definition formatLintRatchetTrend :: "trend_series list \<Rightarrow> string list \<Rightarrow> string" where
  "formatLintRatchetTrend series activeRatchetIds =
     (let rows = map (trendCells activeRatchetIds) series; widths = trendWidths rows
      in js_join [CHR 0x0A]
           ([''per-commit totals from committed baselines (working tree not included)'', formatTrendRow trend_header widths]
            @ (if rows = [] then [''(no ratchet trend points)''] else map (\<lambda>row. formatTrendRow row widths) rows))
         @ [CHR 0x0A])"

record trend_options =
  to_baselineRelPath :: string
  to_workflowVocabulary :: workflow_vocabulary
  to_ratchetIds :: "string list"
  to_since :: "string option"
  to_max :: "nat option"
  to_includeRetired :: bool

datatype trend_error = TrendGit | TrendThrown baseline_error

text \<open>The report and the warnings.\<close>

definition runLintRatchetTrend ::
    "json_parser \<Rightarrow> string cmp \<Rightarrow> git_runner \<Rightarrow> trend_options \<Rightarrow> trend_error + (string \<times> string list)" where
  "runLintRatchetTrend jp lc git opts =
     (case git (logArgs (to_max opts) (to_since opts) (to_baselineRelPath opts)) of
        None \<Rightarrow> Inl TrendGit
      | Some output \<Rightarrow>
          (case collectSeries jp lc git (to_workflowVocabulary opts) (to_baselineRelPath opts) (parseBaselineLog output) of
             Inl e \<Rightarrow> Inl (TrendThrown e)
           | Inr (series, warnings) \<Rightarrow>
               (let active = (\<lambda>s. ts_id s \<in> set (to_ratchetIds opts));
                    retired = filter (\<lambda>s. \<not> active s) series;
                    visible = (if to_includeRetired opts then series else filter active series);
                    note' = (if to_includeRetired opts \<or> retired = [] then []
                      else ''Omitted '' @ show_nat (length retired) @ '' retired series; run '' @ [CHR 0x60]
                        @ wv_trendAllCommand (to_workflowVocabulary opts) @ [CHR 0x60] @ '' for complete history.'' @ [CHR 0x0A])
                in Inr (formatLintRatchetTrend visible (to_ratchetIds opts) @ note', warnings))))"

section \<open>The debt log report\<close>

definition ellipsis :: string where
  "ellipsis = [CHR 0xE2, CHR 0x80, CHR 0xA6]"

definition capText :: "string \<Rightarrow> nat \<Rightarrow> string" where
  "capText v n = (if length v \<le> n then v else take (n - 1) v @ ellipsis)"

definition debt_cell :: "string \<Rightarrow> string" where
  "debt_cell v = escapeMarkdownTableCell (capText v 200)"

definition arrow :: "string \<Rightarrow> string \<Rightarrow> string" where
  "arrow a b = a @ '' '' @ right_arrow @ '' '' @ b"

definition regressionDelta :: "regression \<Rightarrow> string" where
  "regressionDelta r =
     (case (dl_baselineLines r, dl_currentLines r) of
        (Some a, Some b) \<Rightarrow> arrow (show_int a) (show_int b) @ '' lines''
      | _ \<Rightarrow>
        (case (dl_baselineComplexity r, dl_currentComplexity r) of
           (Some a, Some b) \<Rightarrow> ''complexity '' @ arrow (show_int a) (show_int b)
         | _ \<Rightarrow> arrow (show_int (dl_baselineCount r)) (show_int (dl_currentCount r))))"

definition regression_cells :: "regression \<Rightarrow> string list" where
  "regression_cells r = map debt_cell [dl_testId r, dl_ruleId r, dl_path r, reason_name (dl_reason r), regressionDelta r]"

definition formatRegressionTable :: "regression list \<Rightarrow> string list" where
  "formatRegressionTable regressions =
     (if regressions = [] then []
      else [''| Ratchet | Rule | Path | Reason | Delta |'', ''| --- | --- | --- | --- | --- |'']
           @ map (table_row \<circ> regression_cells) regressions)"

definition orphanItemDetail :: "metric_item \<Rightarrow> string" where
  "orphanItemDetail item =
     (case mi_lines item of
        Some l \<Rightarrow> show_int l @ '' lines''
      | None \<Rightarrow>
          (case mi_maxComplexity item of
             Some m \<Rightarrow> ''max complexity '' @ show_int m
               @ (case mi_perFunction item of
                    Some (worst # _) \<Rightarrow> '' ('' @ capText (cf_label worst) 80 @ '')''
                  | _ \<Rightarrow> [])
           | None \<Rightarrow> em_dash))"

definition orphan_cells :: "orphan_removal \<Rightarrow> (string \<times> metric_item) option \<Rightarrow> string list" where
  "orphan_cells orphan entry =
     map debt_cell [or_testId orphan, or_ruleId orphan, metric_name (or_metric orphan)]
     @ (case entry of
          None \<Rightarrow> [em_dash, ''0'', em_dash]
        | Some (path, item) \<Rightarrow> [debt_cell path, show_int (mi_count item), debt_cell (orphanItemDetail item)])"

definition orphanRows :: "orphan_removal \<Rightarrow> string list" where
  "orphanRows orphan =
     (if or_baselineItems orphan = [] then [table_row (orphan_cells orphan None)]
      else map (\<lambda>entry. table_row (orphan_cells orphan (Some entry))) (or_baselineItems orphan))"

definition formatOrphanTable :: "orphan_removal list \<Rightarrow> string list" where
  "formatOrphanTable orphansRemoved =
     (if orphansRemoved = [] then []
      else [''| Removed ratchet | Rule | Metric | Path | Count | Detail |'', ''| --- | --- | --- | --- | ---: | --- |'']
           @ concat (map orphanRows orphansRemoved))"

fun isLegacyRemovalOnlyEntry :: "debt_entry \<Rightarrow> bool" where
  "isLegacyRemovalOnlyEntry (AcceptedDebt _ regressions orphans) \<longleftrightarrow> regressions = [] \<and> orphans \<noteq> []"
| "isLegacyRemovalOnlyEntry _ \<longleftrightarrow> False"

fun isAcceptedDebtRecord :: "debt_entry \<Rightarrow> bool" where
  "isAcceptedDebtRecord (AcceptedDebt r regressions orphans) \<longleftrightarrow> \<not> isLegacyRemovalOnlyEntry (AcceptedDebt r regressions orphans)"
| "isAcceptedDebtRecord (CoverageShrink _) \<longleftrightarrow> True"
| "isAcceptedDebtRecord (MetricMigration _ _ _ _) \<longleftrightarrow> False"
| "isAcceptedDebtRecord (Retirement _ _) \<longleftrightarrow> False"

fun isRetirementRecord :: "debt_entry \<Rightarrow> bool" where
  "isRetirementRecord (AcceptedDebt r regressions orphans) \<longleftrightarrow> isLegacyRemovalOnlyEntry (AcceptedDebt r regressions orphans)"
| "isRetirementRecord (Retirement _ _) \<longleftrightarrow> True"
| "isRetirementRecord (CoverageShrink _) \<longleftrightarrow> False"
| "isRetirementRecord (MetricMigration _ _ _ _) \<longleftrightarrow> False"

fun formatEntrySection :: "debt_entry \<Rightarrow> nat \<Rightarrow> string list" where
  "formatEntrySection (Retirement ratchetId attestation) i =
     [''#### Retirement '' @ show_nat (i + 1), [], ''Ratchet: '' @ debt_cell ratchetId, [],
      ''Promotion proof: normal lint error coverage.'', []]
     @ (case attestation of
          None \<Rightarrow> []
        | Some a \<Rightarrow>
            [''Options attestation: '' @ debt_cell (at_reason a), [],
             ''Ratchet options: '' @ debt_cell (stringify (JArr (at_ratchetOptions a))), [],
             ''Normal lint options: '' @ debt_cell (stringify (JArr (map JArr (at_normalLintOptions a)))), []])"
| "formatEntrySection (MetricMigration ratchetId f t reason) i =
     [''#### Metric migration '' @ show_nat (i + 1), [], ''Ratchet: '' @ debt_cell ratchetId, [],
      ''Metric: '' @ arrow (metric_name f) (metric_name t), [], ''Reason: '' @ debt_cell reason, []]"
| "formatEntrySection (CoverageShrink s) i =
     [''#### Coverage shrink '' @ show_nat (i + 1), [], ''Ratchet: '' @ debt_cell (se_ratchetId s), [],
      ''Removed paths: '' @ debt_cell (js_join '', '' (se_removedPaths s)), [],
      ''Files: '' @ arrow (debt_cell (stringify (strings_json (se_previousFiles s))))
        (debt_cell (stringify (strings_json (se_currentFiles s)))), [],
      ''Ignores: '' @ arrow (debt_cell (stringify (strings_json (se_previousIgnores s))))
        (debt_cell (stringify (strings_json (se_currentIgnores s)))), [],
      ''Reason: '' @ debt_cell (se_reason s), []]"
| "formatEntrySection (AcceptedDebt reason regressions orphans) i =
     (let heading = (if isLegacyRemovalOnlyEntry (AcceptedDebt reason regressions orphans)
            then ''Legacy retirement/removal'' else ''Acceptance'');
          blank = (\<lambda>t. if t = [] then [] else t @ [[]])
      in [''#### '' @ heading @ '' '' @ show_nat (i + 1), [], ''Reason: '' @ debt_cell reason, []]
         @ blank (formatRegressionTable regressions) @ blank (formatOrphanTable orphans))"

definition js_trim_end :: "string \<Rightarrow> string" where
  "js_trim_end s = rev (dropWhile is_js_space (rev s))"

definition formatLintRatchetDebtLogReport :: "debt_entry list \<Rightarrow> string" where
  "formatLintRatchetDebtLogReport entries =
     js_trim_end (js_join [CHR 0x0A]
       ([''<!-- lint-ratchet-debt-log -->'', ''### Lint ratchet debt log'', [],
         ''Accepted-debt records: '' @ show_nat (length (filter isAcceptedDebtRecord entries)),
         ''Retirement/removal records: '' @ show_nat (length (filter isRetirementRecord entries)), []]
        @ (if entries = [] then [''No debt acceptances recorded yet. (clean)'', []]
           else concat (map (\<lambda>(i, entry). formatEntrySection entry i) (enumerate 0 entries))))) @ [CHR 0x0A]"

definition runLintRatchetDebtLogReport ::
    "json_parser \<Rightarrow> (jsval \<Rightarrow> string list) \<Rightarrow> string \<Rightarrow> string option \<Rightarrow> string + string" where
  "runLintRatchetDebtLogReport jp issues debtLogName contents =
     (case contents of
        None \<Rightarrow> Inr (formatLintRatchetDebtLogReport [])
      | Some txt \<Rightarrow>
          (case parseDebtLogJsonl jp issues txt debtLogName of
             Inl e \<Rightarrow> Inl e
           | Inr entries \<Rightarrow> Inr (formatLintRatchetDebtLogReport entries)))"

end
