(* ===== verification/ZeroBaseline.thy ===== *)
theory ZeroBaseline
  imports BaselineValidation BaselineUpdate Registry TextEscape
begin

text \<open>
  \<open>governance/zero-baseline.ts\<close>, \<open>retire-promotion-proof.ts\<close> and \<open>retire-update.ts\<close>: what normal lint
  does with the files of a ratchet, the audit of the ratchets without findings, and the proof that a
  removed ratchet's guard was taken over by normal lint. ESLint's resolved configuration is a value
  of unknown shape; a resolver gives it for a path. The caches of promises are invisible here,
  because a path's answer does not change within a run.
\<close>

section \<open>Values of unknown shape\<close>

text \<open>\<open>UOpaque\<close> is everything that is not JSON at all: \<open>undefined\<close>, functions, symbols.\<close>

datatype js_unknown =
    UNull | UBool bool | UInt int | UDec string | UInf | UStr string
  | UArr "js_unknown list" | URec "(string \<times> js_unknown) list" | UOpaque

fun isJsonUnknown :: "js_unknown \<Rightarrow> bool" where
  "isJsonUnknown UInf = False"
| "isJsonUnknown UOpaque = False"
| "isJsonUnknown (UArr us) = list_all isJsonUnknown us"
| "isJsonUnknown (URec ms) = list_all (\<lambda>m. isJsonUnknown (snd m)) ms"
| "isJsonUnknown u = True"

fun json_of_unknown :: "js_unknown \<Rightarrow> jsval" where
  "json_of_unknown UNull = JNull"
| "json_of_unknown (UBool b) = JBool b"
| "json_of_unknown (UInt i) = JInt i"
| "json_of_unknown (UDec d) = JDec d"
| "json_of_unknown UInf = JInf"
| "json_of_unknown (UStr s) = JStr s"
| "json_of_unknown (UArr us) = JArr (map json_of_unknown us)"
| "json_of_unknown (URec ms) = JObj (map (\<lambda>m. (fst m, json_of_unknown (snd m))) ms)"
| "json_of_unknown UOpaque = JNull"

definition unknown_member :: "js_unknown \<Rightarrow> string \<Rightarrow> js_unknown" where
  "unknown_member u k = (case u of URec ms \<Rightarrow> (case map_of ms k of None \<Rightarrow> UOpaque | Some v \<Rightarrow> v) | _ \<Rightarrow> UOpaque)"

section \<open>The floor of normal lint\<close>

datatype normal_file_status = FileError | FileErrorDifferentOptions | FileIgnored | FileOff | FileWarn | FileWarnDifferentOptions

datatype floor_status =
    EmptyScope | Mixed | NormalError | NormalErrorDifferentOptions | NormalIgnored | NormalOff | NormalWarn
  | NormalWarnDifferentOptions

datatype normal_severity = SevError | SevOff | SevWarn

record normal_rule_config =
  nr_severity :: normal_severity
  nr_options :: "jsval list option"

definition parseSeverity :: "js_unknown \<Rightarrow> normal_severity" where
  "parseSeverity v = (if v = UStr ''error'' \<or> v = UInt 2 then SevError else if v = UStr ''warn'' \<or> v = UInt 1 then SevWarn else SevOff)"

definition json_options :: "js_unknown list \<Rightarrow> jsval list option" where
  "json_options us = (if list_all isJsonUnknown us then Some (map json_of_unknown us) else None)"

definition parseNormalRuleConfig :: "js_unknown \<Rightarrow> normal_rule_config" where
  "parseNormalRuleConfig v =
     (case v of
        UArr us \<Rightarrow> \<lparr>nr_severity = parseSeverity (case us of [] \<Rightarrow> UOpaque | u # _ \<Rightarrow> u), nr_options = json_options (drop 1 us)\<rparr>
      | _ \<Rightarrow> \<lparr>nr_severity = parseSeverity v, nr_options = Some []\<rparr>)"

definition hasMatchingOptions :: "ratchet_config \<Rightarrow> jsval list option \<Rightarrow> bool" where
  "hasMatchingOptions ratchet normalOptions =
     (case normalOptions of None \<Rightarrow> False
      | Some os \<Rightarrow> stringify (JArr (normalizeRuleOptions os)) = stringify (JArr (normalizeRuleOptions (rc_ruleOptions ratchet))))"

definition statusForNormalRuleConfig :: "ratchet_config \<Rightarrow> js_unknown \<Rightarrow> normal_file_status" where
  "statusForNormalRuleConfig ratchet v =
     (let normalRule = parseNormalRuleConfig v; optionsMatch = hasMatchingOptions ratchet (nr_options normalRule)
      in case nr_severity normalRule of
           SevOff \<Rightarrow> FileOff
         | SevWarn \<Rightarrow> if optionsMatch then FileWarn else FileWarnDifferentOptions
         | SevError \<Rightarrow> if optionsMatch then FileError else FileErrorDifferentOptions)"

definition ruleConfigValue :: "js_unknown \<Rightarrow> string \<Rightarrow> js_unknown" where
  "ruleConfigValue config ruleId = unknown_member (unknown_member config ''rules'') ruleId"

fun floor_of :: "normal_file_status \<Rightarrow> floor_status" where
  "floor_of FileError = NormalError"
| "floor_of FileErrorDifferentOptions = NormalErrorDifferentOptions"
| "floor_of FileWarn = NormalWarn"
| "floor_of FileWarnDifferentOptions = NormalWarnDifferentOptions"
| "floor_of FileIgnored = NormalIgnored"
| "floor_of FileOff = NormalOff"

definition aggregateNormalLintStatus :: "normal_file_status list \<Rightarrow> floor_status" where
  "aggregateNormalLintStatus fileStatuses =
     (case fileStatuses of
        [] \<Rightarrow> EmptyScope
      | s # _ \<Rightarrow> if length (js_set fileStatuses) \<noteq> 1 then Mixed else floor_of s)"

text \<open>ESLint: which paths it ignores, and the configuration it resolves for a path.\<close>

record lint_resolver =
  lr_isPathIgnored :: "string \<Rightarrow> bool"
  lr_calculateConfigForFile :: "string \<Rightarrow> js_unknown"

definition normalLintStatusForFile :: "lint_resolver \<Rightarrow> ratchet_config \<Rightarrow> string \<Rightarrow> normal_file_status" where
  "normalLintStatusForFile eslint ratchet path =
     (if lr_isPathIgnored eslint path then FileIgnored
      else statusForNormalRuleConfig ratchet (ruleConfigValue (lr_calculateConfigForFile eslint path) (rc_ruleId ratchet)))"

section \<open>The audit\<close>

record audit_row =
  za_id :: string
  za_ruleId :: string
  za_matchedFileCount :: nat
  za_normalLintStatus :: floor_status
  za_disposition :: "zero_disposition option"

definition totalBaselineFindings :: "baseline_test \<Rightarrow> int" where
  "totalBaselineFindings test = foldl (\<lambda>total (_, item). total + mi_count item) 0 (bt_items test)"

definition zeroBaselineRatchets :: "ratchet_baseline \<Rightarrow> ratchet_config list \<Rightarrow> ratchet_config list" where
  "zeroBaselineRatchets b registry =
     filter (\<lambda>r. case map_of (bl_tests b) (rc_id r) of None \<Rightarrow> False | Some t \<Rightarrow> totalBaselineFindings t = 0) registry"

definition auditRatchet ::
    "globber \<Rightarrow> (ratchet_config \<Rightarrow> string \<Rightarrow> normal_file_status) \<Rightarrow> string list \<Rightarrow> ratchet_config \<Rightarrow> audit_row" where
  "auditRatchet glob statusForFile trackedFiles ratchet =
     (let matchedFiles = matchingTrackedFiles glob (rc_files ratchet) (rc_ignores ratchet) trackedFiles
      in \<lparr>za_id = rc_id ratchet, za_ruleId = rc_ruleId ratchet, za_matchedFileCount = length matchedFiles,
          za_normalLintStatus = aggregateNormalLintStatus (map (statusForFile ratchet) matchedFiles),
          za_disposition = rc_zeroBaselineDisposition ratchet\<rparr>)"

definition auditZeroBaselineRatchets ::
    "globber \<Rightarrow> (ratchet_config \<Rightarrow> string \<Rightarrow> normal_file_status) \<Rightarrow> string list \<Rightarrow> ratchet_baseline \<Rightarrow> ratchet_config list \<Rightarrow>
     audit_row list" where
  "auditZeroBaselineRatchets glob statusForFile trackedFiles b registry =
     map (auditRatchet glob statusForFile trackedFiles) (zeroBaselineRatchets b registry)"

definition undocumentedZeroBaselineRows :: "audit_row list \<Rightarrow> audit_row list" where
  "undocumentedZeroBaselineRows rows = filter (\<lambda>r. za_disposition r = None) rows"

definition lifecycleLabel :: "zero_disposition option \<Rightarrow> string" where
  "lifecycleLabel d = (case d of None \<Rightarrow> ''missing'' | Some z \<Rightarrow> disposition_name (zd_kind z))"

fun floor_name :: "floor_status \<Rightarrow> string" where
  "floor_name EmptyScope = ''empty-scope''"
| "floor_name Mixed = ''mixed''"
| "floor_name NormalError = ''normal-error''"
| "floor_name NormalErrorDifferentOptions = ''normal-error-different-options''"
| "floor_name NormalIgnored = ''normal-ignored''"
| "floor_name NormalOff = ''normal-off''"
| "floor_name NormalWarn = ''normal-warn''"
| "floor_name NormalWarnDifferentOptions = ''normal-warn-different-options''"

definition nextAction :: "audit_row \<Rightarrow> string" where
  "nextAction row =
     (case za_disposition row of
        Some d \<Rightarrow> (case zd_exitPath d of Some p \<Rightarrow> p | None \<Rightarrow> zd_reason d)
      | None \<Rightarrow>
          if za_normalLintStatus row = NormalError
          then ''Remove the ratchet, or document why it remains narrower than normal lint.''
          else if za_normalLintStatus row = NormalWarn \<or> za_normalLintStatus row = NormalWarnDifferentOptions
          then ''Promote normal lint to error, or document a temporary ratchet-only exit path.''
          else ''Promote to normal lint, narrow the ratchet, or add documented ratchet-only lifecycle metadata.'')"

definition formatUndocumentedZeroBaselineFailure :: "audit_row list \<Rightarrow> string" where
  "formatUndocumentedZeroBaselineFailure rows =
     (let n = length rows
      in js_join [CHR 0x0A]
           ([''lint:ratchet:zero-baseline FAIL '' @ em_dash @ '' '' @ show_nat n @ '' zero-baseline ''
               @ (if n = 1 then ''ratchet'' else ''ratchets'') @ '' '' @ (if n = 1 then ''lacks'' else ''lack'')
               @ '' zeroBaselineDisposition.'',
             ''Undocumented ratchets:''] @ map (\<lambda>row. ''- '' @ za_id row) rows))"

definition audit_cells :: "audit_row \<Rightarrow> string list" where
  "audit_cells row =
     [escapeMarkdownTableCell (za_id row), escapeMarkdownTableCell (za_ruleId row), show_nat (za_matchedFileCount row),
      floor_name (za_normalLintStatus row), lifecycleLabel (za_disposition row), escapeMarkdownTableCell (nextAction row)]"

definition formatZeroBaselineAudit :: "audit_row list \<Rightarrow> string" where
  "formatZeroBaselineAudit rows =
     js_join [CHR 0x0A]
       ([''# Lint Ratchet Zero-Baseline Audit'', [],
         ''Zero-baseline ratchets: '' @ show_nat (length rows),
         ''Normal-lint error coverage: '' @ show_nat (length (filter (\<lambda>r. za_normalLintStatus r = NormalError) rows)),
         ''Documented ratchet-only lifecycle: '' @ show_nat (length (filter (\<lambda>r. za_disposition r \<noteq> None) rows)),
         ''Needs lifecycle action: '' @ show_nat (length (undocumentedZeroBaselineRows rows)), [],
         ''| Ratchet | Rule | Files | Normal lint | Lifecycle | Next action |'',
         ''| --- | --- | ---: | --- | --- | --- |'']
        @ map (table_row \<circ> audit_cells) rows) @ [CHR 0x0A]"

section \<open>The retirement proof\<close>

record orphan_scope =
  os_id :: string
  os_ruleId :: string
  os_files :: "string list"
  os_ignores :: "string list"
  os_ruleOptions :: "jsval list"

record promotion_proof =
  pp_normalError :: bool
  pp_matchedFileCount :: nat
  pp_normalLintStatus :: floor_status
  pp_matchedFiles :: "string list"

definition probeConfig :: "orphan_scope \<Rightarrow> ratchet_config" where
  "probeConfig scope =
     \<lparr>rc_id = os_id scope, rc_ruleId = os_ruleId scope, rc_files = os_files scope, rc_ignores = os_ignores scope,
      rc_ruleOptions = os_ruleOptions scope, rc_mode = NoNew, rc_metric = MessageCount,
      rc_principle = ''retire-path probe (principle unused)'', rc_allowEmpty = None, rc_zeroBaselineDisposition = None,
      rc_source = None, rc_parserProfile = None, rc_typeAwareProject = None\<rparr>"

definition proveOrphanPromotedToNormalError ::
    "globber \<Rightarrow> orphan_scope \<Rightarrow> string list \<Rightarrow> (ratchet_config \<Rightarrow> string \<Rightarrow> normal_file_status) \<Rightarrow> bool \<Rightarrow> promotion_proof" where
  "proveOrphanPromotedToNormalError glob scope trackedFiles statusForFile acceptDifferentOptions =
     (let probe = probeConfig scope;
          matchedFiles = matchingTrackedFiles glob (rc_files probe) (rc_ignores probe) trackedFiles;
          st = aggregateNormalLintStatus (map (statusForFile probe) matchedFiles)
      in \<lparr>pp_normalError = (length matchedFiles > 0
            \<and> (st = NormalError \<or> acceptDifferentOptions \<and> st = NormalErrorDifferentOptions)),
          pp_matchedFileCount = length matchedFiles, pp_normalLintStatus = st, pp_matchedFiles = matchedFiles\<rparr>)"

section \<open>The request\<close>

datatype retire_error = RetireConfig string | RetireThrown baseline_error

record retire_context =
  rx_baselineName :: string
  rx_workflowVocabulary :: workflow_vocabulary

definition orphanScope ::
    "json_parser \<Rightarrow> string cmp \<Rightarrow> retire_context \<Rightarrow> string option \<Rightarrow> string \<Rightarrow> ratchet_config list \<Rightarrow>
     retire_error + orphan_scope option" where
  "orphanScope jp lc ctx baselineText retireRatchetId registry =
     (if list_ex (\<lambda>r. rc_id r = retireRatchetId) registry then Inr None
      else case baselineText of
             None \<Rightarrow> Inl (RetireConfig (rx_baselineName ctx @ '' does not exist; run '' @ wv_updateCommand (rx_workflowVocabulary ctx)))
           | Some txt \<Rightarrow>
               (case parseLintRatchetBaselineStructure jp lc txt (rx_workflowVocabulary ctx) default_version_policy
                       (rx_baselineName ctx) of
                  Inl e \<Rightarrow> Inl (RetireThrown e)
                | Inr parsed \<Rightarrow>
                    Inr (map_option (\<lambda>test. \<lparr>os_id = retireRatchetId, os_ruleId = gm_ruleId test, os_files = gm_files test,
                             os_ignores = gm_ignores test, os_ruleOptions = gm_ruleOptions test\<rparr>)
                           (Option.bind (sb_baseline parsed) (\<lambda>b. map_of (bl_tests b) retireRatchetId)))))"

definition optionsFromConfig :: "js_unknown \<Rightarrow> string \<Rightarrow> jsval list option" where
  "optionsFromConfig config ruleId =
     (case config of
        URec _ \<Rightarrow>
          (case unknown_member config ''rules'' of
             URec _ \<Rightarrow> (case ruleConfigValue config ruleId of UArr us \<Rightarrow> json_options (drop 1 us) | _ \<Rightarrow> Some [])
           | _ \<Rightarrow> None)
      | _ \<Rightarrow> None)"

fun collect_options ::
    "lint_resolver \<Rightarrow> string \<Rightarrow> string list \<Rightarrow> (string \<times> jsval list) list \<Rightarrow> retire_error + (string \<times> jsval list) list" where
  "collect_options eslint ruleId [] byIdentity = Inr byIdentity"
| "collect_options eslint ruleId (path # paths) byIdentity =
     (case optionsFromConfig (lr_calculateConfigForFile eslint path) ruleId of
        None \<Rightarrow> Inl (RetireConfig (''could not serialize normal-lint options for '' @ ruleId @ '' on '' @ path))
      | Some os \<Rightarrow> collect_options eslint ruleId paths (AList.update (stringify (JArr os)) os byIdentity))"

definition collectNormalLintOptions ::
    "lint_resolver \<Rightarrow> orphan_scope \<Rightarrow> string list \<Rightarrow> retire_error + jsval list list" where
  "collectNormalLintOptions eslint scope matchedFiles =
     (case collect_options eslint (os_ruleId scope) matchedFiles [] of Inl e \<Rightarrow> Inl e | Inr m \<Rightarrow> Inr (map snd m))"

definition attestation_message :: "string \<Rightarrow> orphan_scope \<Rightarrow> jsval list list \<Rightarrow> string \<Rightarrow> string" where
  "attestation_message retireRatchetId scope normalLintOptions reason =
     ''Retirement options attestation for '' @ retireRatchetId @ '': ratchet='' @ stringify (JArr (os_ruleOptions scope))
     @ ''; normal lint='' @ stringify (JArr (map JArr normalLintOptions)) @ ''; reason='' @ reason"

text \<open>The lines for standard error, and the request.\<close>

definition resolveRetireRequest ::
    "json_parser \<Rightarrow> string cmp \<Rightarrow> globber \<Rightarrow> lint_resolver \<Rightarrow> retire_context \<Rightarrow> string option \<Rightarrow> string list \<Rightarrow> string \<Rightarrow>
     ratchet_config list \<Rightarrow> bool \<Rightarrow> string option \<Rightarrow> retire_error + (string list \<times> retire_request)" where
  "resolveRetireRequest jp lc glob eslint ctx baselineText trackedFiles retireRatchetId registry acceptDifferentOptions reason =
     (let plain = (\<lambda>proven. \<lparr>rr_id = retireRatchetId, rr_normalErrorProven = proven, rr_optionsAttestation = None\<rparr>)
      in case orphanScope jp lc ctx baselineText retireRatchetId registry of
           Inl e \<Rightarrow> Inl e
         | Inr None \<Rightarrow> Inr ([], plain False)
         | Inr (Some scope) \<Rightarrow>
             (let proof' = proveOrphanPromotedToNormalError glob scope trackedFiles (normalLintStatusForFile eslint)
                    acceptDifferentOptions
              in if pp_normalLintStatus proof' \<noteq> NormalErrorDifferentOptions \<or> \<not> acceptDifferentOptions \<or> \<not> pp_normalError proof'
                 then Inr ([], plain (pp_normalError proof'))
                 else (case map_option js_trim reason of
                         None \<Rightarrow> Inl (RetireConfig ''different-options retirement requires a non-empty attestation reason'')
                       | Some r \<Rightarrow>
                           if r = [] then Inl (RetireConfig ''different-options retirement requires a non-empty attestation reason'')
                           else (case collectNormalLintOptions eslint scope (pp_matchedFiles proof') of
                                   Inl e \<Rightarrow> Inl e
                                 | Inr os \<Rightarrow>
                                     Inr ([attestation_message retireRatchetId scope os r],
                                       \<lparr>rr_id = retireRatchetId, rr_normalErrorProven = True,
                                        rr_optionsAttestation = Some \<lparr>at_reason = r, at_ratchetOptions = os_ruleOptions scope,
                                          at_normalLintOptions = os\<rparr>\<rparr>)))))"

end
