(* ===== verification/ZeroBaselineLaws.thy ===== *)
theory ZeroBaselineLaws
  imports ZeroBaseline UpdateLaws
begin

text \<open>
  Properties of the retirement proof: what an accepted retirement says of normal lint, and the shape
  of the audit's table.
\<close>

section \<open>Statuses\<close>

text \<open>Normal lint reports the rule as an error in a file, with these options when they are JSON.\<close>

definition enforces :: "lint_resolver \<Rightarrow> string \<Rightarrow> string \<Rightarrow> jsval list option \<Rightarrow> bool" where
  "enforces eslint ruleId path os \<longleftrightarrow>
     \<not> lr_isPathIgnored eslint path \<and>
     parseNormalRuleConfig (ruleConfigValue (lr_calculateConfigForFile eslint path) ruleId) =
       \<lparr>nr_severity = SevError, nr_options = os\<rparr>"

definition same_options :: "jsval list \<Rightarrow> jsval list \<Rightarrow> bool" where
  "same_options a b \<longleftrightarrow> stringify (JArr (normalizeRuleOptions a)) = stringify (JArr (normalizeRuleOptions b))"

lemma status_error:
  "normalLintStatusForFile eslint r p = FileError \<longleftrightarrow> (\<exists>os. enforces eslint (rc_ruleId r) p (Some os) \<and> same_options os (rc_ruleOptions r))"
  by (cases "parseNormalRuleConfig (ruleConfigValue (lr_calculateConfigForFile eslint p) (rc_ruleId r))")
    (auto simp: normalLintStatusForFile_def statusForNormalRuleConfig_def hasMatchingOptions_def enforces_def same_options_def Let_def
      split: normal_severity.splits if_splits option.splits)

lemma status_error_different:
  "normalLintStatusForFile eslint r p = FileErrorDifferentOptions \<Longrightarrow> \<exists>os. enforces eslint (rc_ruleId r) p os"
  by (cases "parseNormalRuleConfig (ruleConfigValue (lr_calculateConfigForFile eslint p) (rc_ruleId r))")
    (auto simp: normalLintStatusForFile_def statusForNormalRuleConfig_def enforces_def Let_def
      split: normal_severity.splits if_splits)

lemma js_set_one: "length (js_set xs) = 1 \<Longrightarrow> x \<in> set xs \<Longrightarrow> y \<in> set xs \<Longrightarrow> x = y"
  by (metis One_nat_def card_1_singletonE distinct_card distinct_js_set set_js_set singletonD)

lemma aggregate_floor:
  assumes "aggregateNormalLintStatus ss = floor_of s"
  shows "ss \<noteq> [] \<and> (\<forall>x \<in> set ss. x = s)"
proof (cases ss)
  case Nil
  with assms show ?thesis by (cases s) (simp_all add: aggregateNormalLintStatus_def)
next
  case (Cons x xs)
  have "length (js_set ss) = 1 \<and> floor_of x = floor_of s"
    using assms by (cases s) (auto simp: aggregateNormalLintStatus_def Cons split: if_splits)
  moreover from this have "x = s" by (cases x; cases s) simp_all
  ultimately show ?thesis using js_set_one[of ss x] Cons by (metis list.distinct(1) list.set_intros(1))
qed

section \<open>The proof and the request\<close>

lemma unknown_member_other: "\<nexists>ms. u = URec ms \<Longrightarrow> unknown_member u k = UOpaque"
  by (cases u) (auto simp: unknown_member_def)

lemma error_value:
  "enforces eslint ruleId p os \<Longrightarrow> optionsFromConfig (lr_calculateConfigForFile eslint p) ruleId = os"
proof -
  assume e: "enforces eslint ruleId p os"
  let ?c = "lr_calculateConfigForFile eslint p"
  let ?rules = "unknown_member ?c ''rules''"
  have cfg: "parseNormalRuleConfig (unknown_member ?rules ruleId) = \<lparr>nr_severity = SevError, nr_options = os\<rparr>"
    using e by (simp add: enforces_def ruleConfigValue_def)
  have missing: "parseNormalRuleConfig UOpaque \<noteq> \<lparr>nr_severity = SevError, nr_options = os\<rparr>"
    by (simp add: parseNormalRuleConfig_def parseSeverity_def)
  obtain rs where rules: "?rules = URec rs" using cfg missing unknown_member_other[of ?rules ruleId] by metis
  moreover obtain ms where "?c = URec ms" using rules unknown_member_other[of ?c "''rules''"] by force
  ultimately show "optionsFromConfig ?c ruleId = os"
    using cfg by (cases "unknown_member ?rules ruleId")
      (simp_all add: optionsFromConfig_def ruleConfigValue_def parseNormalRuleConfig_def)
qed

lemma update_entry: "e \<in> set (AList.update k v m) \<Longrightarrow> e = (k, v) \<or> e \<in> set m"
  by (induction m) (auto split: if_splits)

lemma collect_options_set:
  assumes "collect_options eslint ruleId ps m = Inr m'"
    and "\<And>k os. (k, os) \<in> set m \<Longrightarrow> k = stringify (JArr os)"
  shows "(\<forall>k os. (k, os) \<in> set m' \<longrightarrow> k = stringify (JArr os)) \<and> fst ` set m \<subseteq> fst ` set m' \<and>
    (\<forall>p \<in> set ps. \<exists>os. optionsFromConfig (lr_calculateConfigForFile eslint p) ruleId = Some os \<and> stringify (JArr os) \<in> fst ` set m')"
  using assms
proof (induction ps arbitrary: m)
  case Nil
  then show ?case by auto
next
  case (Cons p ps)
  obtain os where os: "optionsFromConfig (lr_calculateConfigForFile eslint p) ruleId = Some os"
    and run: "collect_options eslint ruleId ps (AList.update (stringify (JArr os)) os m) = Inr m'"
    using Cons.prems(1) by (auto split: option.splits)
  have keys: "(k, x) \<in> set (AList.update (stringify (JArr os)) os m) \<Longrightarrow> k = stringify (JArr x)" for k x
    using Cons.prems(2) by (auto dest!: update_entry)
  have "stringify (JArr os) \<in> fst ` set (AList.update (stringify (JArr os)) os m)"
    and "fst ` set m \<subseteq> fst ` set (AList.update (stringify (JArr os)) os m)"
    by (auto simp: dom_update)
  moreover note ih = Cons.IH[OF run keys]
  ultimately have "fst ` set m \<subseteq> fst ` set m'" "stringify (JArr os) \<in> fst ` set m'"
    by (meson subset_trans subsetD)+
  with ih os show ?case by (simp only: list.set ball_simps) blast
qed

text \<open>What a request that claims the proof rests on.\<close>

definition taken_over :: "lint_resolver \<Rightarrow> string \<Rightarrow> jsval list \<Rightarrow> string list \<Rightarrow> attestation option \<Rightarrow> bool" where
  "taken_over eslint ruleId ratchetOptions paths att \<longleftrightarrow> paths \<noteq> [] \<and>
     (case att of
        None \<Rightarrow> list_all (\<lambda>p. \<exists>os. enforces eslint ruleId p (Some os) \<and> same_options os ratchetOptions) paths
      | Some a \<Rightarrow> at_reason a \<noteq> [] \<and> at_ratchetOptions a = ratchetOptions \<and>
          list_all (\<lambda>p. \<exists>os os'. enforces eslint ruleId p (Some os) \<and> os' \<in> set (at_normalLintOptions a) \<and>
            stringify (JArr os) = stringify (JArr os')) paths)"

lemma collected_options:
  assumes "collectNormalLintOptions eslint scope paths = Inr oss" and "p \<in> set paths"
    and "enforces eslint (os_ruleId scope) p x"
  shows "\<exists>os os'. x = Some os \<and> os' \<in> set oss \<and> stringify (JArr os) = stringify (JArr os')"
proof -
  obtain m where m: "collect_options eslint (os_ruleId scope) paths [] = Inr m" "oss = map snd m"
    using assms(1) by (auto simp: collectNormalLintOptions_def split: sum.splits)
  have c: "(\<forall>k os. (k, os) \<in> set m \<longrightarrow> k = stringify (JArr os)) \<and>
    (\<forall>p \<in> set paths. \<exists>os. optionsFromConfig (lr_calculateConfigForFile eslint p) (os_ruleId scope) = Some os \<and>
       stringify (JArr os) \<in> fst ` set m)"
    using collect_options_set[OF m(1)] by simp
  then obtain os where os: "x = Some os" "stringify (JArr os) \<in> fst ` set m"
    using assms(2) error_value[OF assms(3)] by blast
  then obtain k os' where "(k, os') \<in> set m" "k = stringify (JArr os)" by (metis imageE prod.collapse)
  with c have "stringify (JArr os) = stringify (JArr os')" by simp
  moreover have "os' \<in> set oss" unfolding m(2) set_map using \<open>(k, os') \<in> set m\<close> by (rule image_eqI[rotated]) simp
  ultimately show ?thesis using os(1) by blast
qed

lemma request_taken_over:
  assumes req: "resolveRetireRequest jp lc glob eslint ctx (Some txt) tracked rid registry accept reason = Inr (msgs, req)"
    and proven: "rr_normalErrorProven req"
    and disk: "parseLintRatchetBaselineStructure jp lc txt (rx_workflowVocabulary ctx) default_version_policy (rx_baselineName ctx) = Inr s"
    and b: "sb_baseline s = Some b"
  shows "rr_id req = rid \<and> (\<exists>t. map_of (bl_tests b) rid = Some t \<and>
    taken_over eslint (gm_ruleId t) (gm_ruleOptions t) (matchingTrackedFiles glob (gm_files t) (gm_ignores t) tracked)
      (rr_optionsAttestation req))"
proof -
  let ?scope = "orphanScope jp lc ctx (Some txt) rid registry"
  obtain scope where scope: "?scope = Inr (Some scope)"
    using req proven by (auto simp: resolveRetireRequest_def Let_def split: sum.splits option.splits)
  then obtain t where t: "map_of (bl_tests b) rid = Some t" and sc: "scope = \<lparr>os_id = rid, os_ruleId = gm_ruleId t,
      os_files = gm_files t, os_ignores = gm_ignores t, os_ruleOptions = gm_ruleOptions t\<rparr>"
    by (auto simp: orphanScope_def disk b split: if_splits)
  let ?probe = "probeConfig scope" and ?paths = "matchingTrackedFiles glob (gm_files t) (gm_ignores t) tracked"
  have probe: "rc_files ?probe = gm_files t" "rc_ignores ?probe = gm_ignores t" "rc_ruleId ?probe = gm_ruleId t"
    "rc_ruleOptions ?probe = gm_ruleOptions t" by (simp_all add: probeConfig_def sc)
  let ?ss = "map (normalLintStatusForFile eslint ?probe) ?paths"
  have strict: "taken_over eslint (gm_ruleId t) (gm_ruleOptions t) ?paths None" if "aggregateNormalLintStatus ?ss = NormalError"
    using aggregate_floor[of ?ss FileError] that status_error[of eslint ?probe]
    by (auto simp: taken_over_def list_all_iff probe)
  have loose: "?paths \<noteq> [] \<and> (\<forall>p \<in> set ?paths. \<exists>x. enforces eslint (gm_ruleId t) p x)"
    if "aggregateNormalLintStatus ?ss = NormalErrorDifferentOptions"
    using aggregate_floor[of ?ss FileErrorDifferentOptions] that status_error_different[of eslint ?probe]
    by (auto simp: probe)
  show ?thesis
  proof (cases "aggregateNormalLintStatus ?ss = NormalErrorDifferentOptions")
    case False
    then have "rr_id req = rid \<and> rr_optionsAttestation req = None \<and> aggregateNormalLintStatus ?ss = NormalError"
      using req proven by (auto simp: resolveRetireRequest_def scope Let_def proveOrphanPromotedToNormalError_def probe)
    then show ?thesis using strict t by simp
  next
    case True
    note ne = loose[OF True, THEN conjunct1]
    let ?proof = "proveOrphanPromotedToNormalError glob scope tracked (normalLintStatusForFile eslint) accept"
    have pr: "?proof = \<lparr>pp_normalError = accept, pp_matchedFileCount = length ?paths,
        pp_normalLintStatus = NormalErrorDifferentOptions, pp_matchedFiles = ?paths\<rparr>"
      using True ne by (simp add: proveOrphanPromotedToNormalError_def probe Let_def)
    have "accept = True"
    proof (rule ccontr)
      assume "accept \<noteq> True"
      then have "rr_normalErrorProven req = pp_normalError ?proof"
        using req by (auto simp: resolveRetireRequest_def scope Let_def)
      then show False using proven \<open>accept \<noteq> True\<close> unfolding pr by simp
    qed
    note pr = pr[unfolded this] and req = req[unfolded this]
    obtain x where x: "reason = Some x" "js_trim x \<noteq> []"
      using req by (auto simp: resolveRetireRequest_def scope pr ne Let_def split: option.splits if_splits)
    obtain oss where r: "collectNormalLintOptions eslint scope ?paths = Inr oss"
      using req by (cases "collectNormalLintOptions eslint scope ?paths")
        (simp_all add: resolveRetireRequest_def scope pr ne Let_def x)
    have out: "req = \<lparr>rr_id = rid, rr_normalErrorProven = True, rr_optionsAttestation =
        Some \<lparr>at_reason = js_trim x, at_ratchetOptions = os_ruleOptions scope, at_normalLintOptions = oss\<rparr>\<rparr>"
      using req by (simp add: resolveRetireRequest_def scope pr ne Let_def x r)
    have "\<exists>os os'. enforces eslint (gm_ruleId t) p (Some os) \<and> os' \<in> set oss \<and> stringify (JArr os) = stringify (JArr os')"
      if pin: "p \<in> set ?paths" for p
    proof -
      obtain y where "enforces eslint (gm_ruleId t) p y"
        using loose[OF True, THEN conjunct2, rule_format, OF pin] by blast
      moreover from this obtain os os' where "y = Some os" "os' \<in> set oss" "stringify (JArr os) = stringify (JArr os')"
        using collected_options[OF r pin, of y] by (simp add: sc) metis
      ultimately show ?thesis by (simp only:) metis
    qed
    then have "taken_over eslint (gm_ruleId t) (gm_ruleOptions t) ?paths (rr_optionsAttestation req)"
      unfolding taken_over_def list_all_iff out using x(2) ne by (simp add: sc)
    then show ?thesis using t out by simp
  qed
qed

text \<open>
  C35: when an accepted update that does not explicitly accept worse counts drops a ratchet, its guard
  was taken over: the ratchet's committed globs match tracked files, and in every one of them normal
  lint reports the rule as an error, with the ratchet's own options, or with other options that the
  request records under a stated reason.
\<close>

theorem retired_guard_is_enforced:
  assumes "decideLintRatchetUpdate lc glob committed generated ratchets opts = Inr d"
    and "ud_allowed d" and "\<not> uo_allowWorse opts"
    and "map_of (bl_tests committed) testId = Some t" and "testId \<notin> set (map rc_id ratchets)"
    and "uo_retire opts = Some req"
    and "resolveRetireRequest jp lc glob eslint ctx (Some txt) tracked rid registry accept reason = Inr (msgs, req)"
    and "parseLintRatchetBaselineStructure jp lc txt (rx_workflowVocabulary ctx) default_version_policy (rx_baselineName ctx) = Inr s"
    and "sb_baseline s = Some committed"
  shows "taken_over eslint (gm_ruleId t) (gm_ruleOptions t)
    (matchingTrackedFiles glob (gm_files t) (gm_ignores t) tracked) (rr_optionsAttestation req)"
proof -
  have "rr_id req = testId \<and> rr_normalErrorProven req"
    using removal_base[OF assms(1-5)] assms(6) by auto
  with request_taken_over[OF assms(7) _ assms(8,9)] assms(4) show ?thesis by auto
qed

text \<open>A retirement: the committed test has no findings, and ESLint reports its rule as an error.\<close>

definition retire_eslint :: lint_resolver where
  "retire_eslint = \<lparr>lr_isPathIgnored = (\<lambda>_. False), lr_calculateConfigForFile =
     (\<lambda>_. URec [(''rules'', URec [(''no-console'', UArr [UStr ''error''])])])\<rparr>"

definition retire_committed :: ratchet_baseline where
  "retire_committed = (let h = ''sha256:'' @ replicate 64 (CHR ''a'') in
     (sample_baseline [])\<lparr>bl_regenerate := Some (JStr ''u''), bl_tests := [(''ratchet/a'', (sample_test [])
        \<lparr>gm_configHash := h, gm_ruleSourceHash := h\<rparr>)]\<rparr>)"

definition retire_context :: retire_context where
  "retire_context = \<lparr>rx_baselineName = ''baseline.json'', rx_workflowVocabulary = sample_vocab\<rparr>"

definition retire_disk :: "string \<Rightarrow> string + jsval" where
  "retire_disk _ = Inr (formatTestsDocument
     (lintRatchetBaselineSpec codeUnitCompare default_version_policy sample_vocab ''baseline.json'')
     (lintRatchetBaselineToGrouped retire_committed))"

lemma retire_run:
  "(case parseLintRatchetBaselineStructure retire_disk codeUnitCompare [] (rx_workflowVocabulary retire_context)
      default_version_policy (rx_baselineName retire_context) of
      Inl _ \<Rightarrow> False | Inr s \<Rightarrow> sb_baseline s = Some retire_committed) \<and>
   resolveRetireRequest retire_disk codeUnitCompare exact_glob retire_eslint retire_context (Some []) [''src/a.ts'']
     ''ratchet/a'' [] False None =
   Inr ([], \<lparr>rr_id = ''ratchet/a'', rr_normalErrorProven = True, rr_optionsAttestation = None\<rparr>) \<and>
   accepted (decideLintRatchetUpdate codeUnitCompare exact_glob retire_committed (retire_committed\<lparr>bl_tests := []\<rparr>) []
     retire_options)"
  by code_simp

theorem retired_guard_is_enforced_witness:
  "taken_over retire_eslint ''no-console'' [] [''src/a.ts''] None"
proof -
  let ?t = "snd (hd (bl_tests retire_committed))"
  obtain d where d: "decideLintRatchetUpdate codeUnitCompare exact_glob retire_committed
      (retire_committed\<lparr>bl_tests := []\<rparr>) [] retire_options = Inr d" "ud_allowed d"
    using retire_run acceptedE by blast
  obtain s where s: "parseLintRatchetBaselineStructure retire_disk codeUnitCompare [] (rx_workflowVocabulary retire_context)
      default_version_policy (rx_baselineName retire_context) = Inr s" "sb_baseline s = Some retire_committed"
    using retire_run by (auto split: sum.splits)
  have o: "\<not> uo_allowWorse retire_options" "uo_retire retire_options =
      Some \<lparr>rr_id = ''ratchet/a'', rr_normalErrorProven = True, rr_optionsAttestation = None\<rparr>" by code_simp+
  have t: "map_of (bl_tests retire_committed) ''ratchet/a'' = Some ?t" by code_simp
  have v: "gm_ruleId ?t = ''no-console''" "gm_ruleOptions ?t = []"
    "matchingTrackedFiles exact_glob (gm_files ?t) (gm_ignores ?t) [''src/a.ts''] = [''src/a.ts'']" by code_simp+
  show ?thesis
    using retired_guard_is_enforced[OF d o(1) t _ o(2) retire_run[THEN conjunct2, THEN conjunct1] s] by (simp add: v)
qed

end
