(* ===== verification/ReportsLaws.thy ===== *)
theory ReportsLaws
  imports Reports ZeroBaselineLaws
begin

text \<open>
  Properties of the reports: the directory rows of a ratchet add up to its summary row, the trend has
  exactly one point per commit that holds a ratchet, in order, git's log is read back, and no text
  can break a table of the debt log report.
\<close>

section \<open>Directories\<close>

definition in_directory :: "nat \<Rightarrow> string \<Rightarrow> (string \<times> metric_item) list \<Rightarrow> (string \<times> metric_item) list" where
  "in_directory depth d items = filter (\<lambda>e. directoryForPath (fst e) depth = d) items"

definition item_total :: "(string \<times> metric_item) list \<Rightarrow> int" where
  "item_total items = (\<Sum>e\<leftarrow>items. mi_count (snd e))"

definition plus_totals :: "(nat \<times> int) option \<Rightarrow> (string \<times> metric_item) list \<Rightarrow> (nat \<times> int) option" where
  "plus_totals v es = (case v of
     None \<Rightarrow> if es = [] then None else Some (length es, item_total es)
   | Some (n, t) \<Rightarrow> Some (n + length es, t + item_total es))"

lemma directory_fold:
  "map_of (fold (directory_step depth) items m) d = plus_totals (map_of m d) (in_directory depth d items)
   \<and> (distinct (map fst m) \<longrightarrow> distinct (map fst (fold (directory_step depth) items m)))"
proof (induction items arbitrary: m)
  case Nil
  then show ?case by (auto simp: plus_totals_def in_directory_def item_total_def split: option.splits)
next
  case (Cons e items)
  let ?m = "directory_step depth e m"
  have "plus_totals (map_of ?m d) (in_directory depth d items) = plus_totals (map_of m d) (in_directory depth d (e # items))"
    by (auto simp: directory_step_def plus_totals_def in_directory_def item_total_def Let_def update_conv' split: option.splits)
  moreover have "distinct (map fst m) \<longrightarrow> distinct (map fst ?m)"
    by (simp add: directory_step_def Let_def distinct_update)
  ultimately show ?case using Cons.IH[of ?m] by simp
qed

lemma directory_totals:
  "map_of (fold (directory_step depth) items []) d =
     (if in_directory depth d items = [] then None
      else Some (length (in_directory depth d items), item_total (in_directory depth d items)))"
  "distinct (map fst (fold (directory_step depth) items []))"
  using directory_fold[of depth items "[]" d] directory_fold[of depth items "[]"] by (simp_all add: plus_totals_def)

lemma sumFindings_total: "sumFindings t = item_total (bt_items t)"
proof -
  have "foldl (\<lambda>total (_, item). total + mi_count item) a es = a + item_total es" for a and es :: "(string \<times> metric_item) list"
    by (induction es arbitrary: a) (auto simp: item_total_def)
  then show ?thesis by (simp add: sumFindings_def)
qed

text \<open>A fold that adds an entry to one cell adds it to the sum over the cells.\<close>

lemma step_sums:
  "(\<Sum>c\<leftarrow>directory_step depth e m. fst (snd c)) = (\<Sum>c\<leftarrow>m. fst (snd c)) + 1
   \<and> (\<Sum>c\<leftarrow>directory_step depth e m. snd (snd c)) = (\<Sum>c\<leftarrow>m. snd (snd c)) + mi_count (snd e)"
  unfolding directory_step_def Let_def
  by (induction m) (auto split: option.splits)

lemma fold_sums:
  "(\<Sum>c\<leftarrow>fold (directory_step depth) items m. fst (snd c)) = (\<Sum>c\<leftarrow>m. fst (snd c)) + length items
   \<and> (\<Sum>c\<leftarrow>fold (directory_step depth) items m. snd (snd c)) = (\<Sum>c\<leftarrow>m. snd (snd c)) + item_total items"
proof (induction items arbitrary: m)
  case (Cons e items)
  then show ?case using step_sums[of depth e m] by (simp add: item_total_def)
qed (simp add: item_total_def)

lemma js_sort_sum: "sum_list (map f (js_sort cmp xs)) = (sum_list (map f xs) :: 'b::comm_monoid_add)"
  by (metis mset_js_sort mset_map sum_mset_sum_list)

lemma rows_sums:
  "(\<Sum>d\<leftarrow>directoryRowsForTest lc k t depth. dr_fileCount d) = sr_fileCount (rowForTest k t)"
  "(\<Sum>d\<leftarrow>directoryRowsForTest lc k t depth. dr_totalFindings d) = sr_totalFindings (rowForTest k t)"
  using fold_sums[of depth "bt_items t" "[]"]
  by (simp_all add: directoryRowsForTest_def js_sort_sum rowForTest_def sumFindings_total comp_def case_prod_beta)

lemma rows_id: "d \<in> set (directoryRowsForTest lc k t depth) \<Longrightarrow> dr_id d = k"
  by (auto simp: directoryRowsForTest_def)

text \<open>A row for every directory that holds a file, with exactly the files and findings below it.\<close>

definition directory_row_of :: "string \<Rightarrow> baseline_test \<Rightarrow> nat \<Rightarrow> string \<Rightarrow> directory_row" where
  "directory_row_of k t depth directory =
     \<lparr>dr_id = k, dr_ruleId = gm_ruleId t, dr_metric = gm_metric t, dr_directory = directory,
      dr_fileCount = length (in_directory depth directory (bt_items t)),
      dr_totalFindings = item_total (in_directory depth directory (bt_items t))\<rparr>"

lemma rows_exact:
  "distinct (map dr_directory (directoryRowsForTest lc k t depth))"
  "set (directoryRowsForTest lc k t depth) =
     directory_row_of k t depth ` {directory. in_directory depth directory (bt_items t) \<noteq> []}"
proof -
  let ?m = "fold (directory_step depth) (bt_items t) []"
  show "distinct (map dr_directory (directoryRowsForTest lc k t depth))"
    using directory_totals(2)[of depth "bt_items t"]
    by (simp add: directoryRowsForTest_def comp_def case_prod_beta)
  have mem: "(x, v) \<in> set ?m \<longleftrightarrow> in_directory depth x (bt_items t) \<noteq> [] \<and>
      v = (length (in_directory depth x (bt_items t)), item_total (in_directory depth x (bt_items t)))" for x v
    using directory_totals[of depth "bt_items t"] map_of_eq_Some_iff[of ?m x v]
    by (auto simp del: map_of_eq_Some_iff split: if_splits)
  have "set (directoryRowsForTest lc k t depth) = (\<lambda>(directory, n, total). \<lparr>dr_id = k, dr_ruleId = gm_ruleId t,
      dr_metric = gm_metric t, dr_directory = directory, dr_fileCount = n, dr_totalFindings = total\<rparr>) ` set ?m"
    by (simp add: directoryRowsForTest_def)
  also have "set ?m = (\<lambda>x. (x, length (in_directory depth x (bt_items t)), item_total (in_directory depth x (bt_items t)))) `
      {directory. in_directory depth directory (bt_items t) \<noteq> []}"
    using mem by (auto simp: image_iff)
  finally show "set (directoryRowsForTest lc k t depth) =
     directory_row_of k t depth ` {directory. in_directory depth directory (bt_items t) \<noteq> []}"
    by (simp add: image_image directory_row_of_def)
qed

section \<open>The two summaries\<close>

lemma filter_keyed_concat:
  assumes "distinct ks" and "\<And>k d. d \<in> set (f k) \<Longrightarrow> key d = k"
  shows "filter (\<lambda>d. key d = k) (concat (map f ks)) = (if k \<in> set ks then f k else [])"
proof -
  have "filter (\<lambda>d. key d = k) (f k') = (if k' = k then f k else [])" for k'
    using assms(2) by (auto simp: filter_id_conv filter_empty_conv)
  then show ?thesis
    using assms(1) by (induction ks) (auto simp: filter_concat)
qed

definition summary_ids :: "string cmp \<Rightarrow> ratchet_baseline \<Rightarrow> ratchet_config list \<Rightarrow> string list" where
  "summary_ids lc b registry = map rc_id registry @ orphan_ids lc b registry"

lemma summary_ids_distinct:
  "distinct (map rc_id registry) \<Longrightarrow> distinct (map fst (bl_tests b)) \<Longrightarrow> distinct (summary_ids lc b registry)"
  by (auto simp: summary_ids_def orphan_ids_def)

lemma directory_summary_rows:
  assumes "distinct (map rc_id registry)" "distinct (map fst (bl_tests b))"
  shows "filter (\<lambda>d. dr_id d = k) (summarizeLintRatchetBaselineByDirectory lc b registry depth) =
    (case map_of (bl_tests b) k of None \<Rightarrow> [] | Some t \<Rightarrow> directoryRowsForTest lc k t depth)"
proof -
  let ?rows = "\<lambda>k. case map_of (bl_tests b) k of None \<Rightarrow> [] | Some t \<Rightarrow> directoryRowsForTest lc k t depth"
  have all: "summarizeLintRatchetBaselineByDirectory lc b registry depth = concat (map ?rows (summary_ids lc b registry))"
    by (simp add: summarizeLintRatchetBaselineByDirectory_def summary_ids_def Let_def comp_def)
  have "k \<in> set (summary_ids lc b registry)" if "map_of (bl_tests b) k = Some t" for t
    using map_of_SomeD[OF that] by (auto simp: summary_ids_def orphan_ids_def image_iff rev_bexI)
  moreover have id: "dr_id d = k'" if "d \<in> set (?rows k')" for d k'
    using that by (cases "map_of (bl_tests b) k'") (auto dest: rows_id)
  have "filter (\<lambda>d. dr_id d = k) (concat (map ?rows (summary_ids lc b registry))) =
      (if k \<in> set (summary_ids lc b registry) then ?rows k else [])"
    by (rule filter_keyed_concat[OF summary_ids_distinct[OF assms] id])
  ultimately show ?thesis unfolding all by (cases "map_of (bl_tests b) k") (simp_all del: map_of_eq_Some_iff)
qed

lemma summary_row_test:
  assumes "row \<in> set (summarizeLintRatchetBaseline lc b registry)"
  shows "case map_of (bl_tests b) (sr_id row) of
      None \<Rightarrow> sr_fileCount row = 0 \<and> sr_totalFindings row = 0
    | Some t \<Rightarrow> row = rowForTest (sr_id row) t"
  using assms
  by (auto simp: summarizeLintRatchetBaseline_def set_map_filter_option rowForRatchet_def rowForTest_def split: option.splits)

text \<open>
  The files of a directory row, read off the path alone: the row is the path's own directory when that
  has at most \<open>depth\<close> segments, its first \<open>depth\<close> segments otherwise, and \<open>.\<close> for a file at the root.
\<close>

definition slashes :: "string \<Rightarrow> nat" where
  "slashes s = length (filter (\<lambda>c. c = CHR ''/'') s)"

definition counted_in :: "nat \<Rightarrow> string \<Rightarrow> string \<Rightarrow> bool" where
  "counted_in depth directory path \<longleftrightarrow>
     (CHR ''/'' \<notin> set path \<and> directory = ''.'') \<or>
     (\<exists>rest. path = directory @ ''/'' @ rest \<and>
        (slashes directory + 1 = depth \<or> (slashes directory + 1 < depth \<and> CHR ''/'' \<notin> set rest)))"

lemma split_segments: "length (js_split (CHR ''/'') s) = slashes s + 1"
  by (induction s) (auto simp: slashes_def split: list.split)

lemma split_take_drop:
  assumes "0 < k" "k < length (js_split d s)"
  shows "s = js_join [d] (take k (js_split d s)) @ [d] @ js_join [d] (drop k (js_split d s))"
proof -
  have join: "xs \<noteq> [] \<Longrightarrow> ys \<noteq> [] \<Longrightarrow> js_join [d] (xs @ ys) = js_join [d] xs @ [d] @ js_join [d] ys" for xs ys
    by (induction xs rule: induct_list012) (auto simp: neq_Nil_conv)
  have "js_join [d] (take k (js_split d s) @ drop k (js_split d s)) =
      js_join [d] (take k (js_split d s)) @ [d] @ js_join [d] (drop k (js_split d s))"
    using assms by (intro join) auto
  then show ?thesis by (simp add: js_join_split)
qed

lemma split_parts_plain: "x \<in> set (js_split d s) \<Longrightarrow> d \<notin> set x"
  by (induction s arbitrary: x) (fastforce split: list.splits if_splits)+

lemma directoryForPath_iff:
  assumes "0 < depth"
  shows "directoryForPath path depth = directory \<longleftrightarrow> counted_in depth directory path"
proof -
  let ?parts = "js_split (CHR ''/'') path"
  have here: "directoryForPath path depth = directory" if "counted_in depth directory path" for directory
    using that unfolding counted_in_def
  proof
    assume "CHR ''/'' \<notin> set path \<and> directory = ''.''"
    then show ?thesis by (simp add: directoryForPath_def split_plain)
  next
    assume "\<exists>rest. path = directory @ ''/'' @ rest \<and>
      (slashes directory + 1 = depth \<or> (slashes directory + 1 < depth \<and> CHR ''/'' \<notin> set rest))"
    then obtain rest where rest: "path = directory @ CHR ''/'' # rest"
      "slashes directory + 1 = depth \<or> (slashes directory + 1 < depth \<and> CHR ''/'' \<notin> set rest)" by auto
    let ?ds = "js_split (CHR ''/'') directory"
    have parts: "?parts = ?ds @ js_split (CHR ''/'') rest" by (simp add: rest(1) split_append)
    have len: "length ?ds = slashes directory + 1" by (rule split_segments)
    have "take (min depth (length ?parts - 1)) ?parts = ?ds"
      using rest(2)
    proof
      assume "slashes directory + 1 = depth"
      moreover have "length ?ds \<le> length ?parts - 1"
        using js_split_not_Nil[of "CHR ''/''" rest] by (cases "js_split (CHR ''/'') rest") (simp_all add: parts)
      ultimately show ?thesis using len by (simp add: parts min_absorb1)
    next
      assume "slashes directory + 1 < depth \<and> CHR ''/'' \<notin> set rest"
      then show ?thesis using len by (simp add: parts split_plain min_absorb2)
    qed
    moreover have "length ?parts > 1" using len js_split_not_Nil[of "CHR ''/''" rest] by (cases "js_split (CHR ''/'') rest") (simp_all add: parts)
    ultimately show ?thesis by (simp add: directoryForPath_def Let_def js_join_split)
  qed
  have "counted_in depth (directoryForPath path depth) path"
  proof (cases "length ?parts \<le> 1")
    case True
    then have "slashes path = 0" using split_segments[of path] by simp
    then show ?thesis by (auto simp: counted_in_def slashes_def directoryForPath_def Let_def split_segments filter_empty_conv)
  next
    case False
    define k where "k = min depth (length ?parts - 1)"
    have k: "0 < k" "k < length ?parts" using False assms by (auto simp: k_def)
    have dir: "directoryForPath path depth = js_join ''/'' (take k ?parts)" using False by (simp add: directoryForPath_def k_def Let_def)
    have "js_split (CHR ''/'') (js_join ''/'' (take k ?parts)) = take k ?parts"
      using k split_parts_plain[of _ "CHR ''/''" path] by (intro split_joined) (auto simp: list_all_iff dest: in_set_takeD)
    then have segments: "slashes (js_join ''/'' (take k ?parts)) + 1 = k"
      using split_segments[of "js_join ''/'' (take k ?parts)"] k by simp
    have "k < depth \<Longrightarrow> CHR ''/'' \<notin> set (js_join ''/'' (drop k ?parts))"
    proof -
      assume "k < depth"
      then have "k = length ?parts - 1" by (simp add: k_def)
      then obtain x where "drop k ?parts = [x]" using k by (metis Cons_nth_drop_Suc Suc_pred' drop_all le_refl length_greater_0_conv list.size(3) not_less_zero)
      moreover from this have "x \<in> set ?parts" by (metis in_set_dropD list.set_intros(1))
      ultimately show ?thesis using split_parts_plain by simp
    qed
    moreover have "k = depth \<or> k < depth" by (auto simp: k_def)
    ultimately show ?thesis
      using split_take_drop[OF k] segments unfolding dir counted_in_def by auto
  qed
  with here show ?thesis by blast
qed

text \<open>The row of a directory, from the files counted in it.\<close>

definition expected_row :: "string \<Rightarrow> baseline_test \<Rightarrow> nat \<Rightarrow> string \<Rightarrow> directory_row" where
  "expected_row k t depth directory =
     (let below = filter (\<lambda>e. counted_in depth directory (fst e)) (bt_items t)
      in \<lparr>dr_id = k, dr_ruleId = gm_ruleId t, dr_metric = gm_metric t, dr_directory = directory,
          dr_fileCount = length below, dr_totalFindings = (\<Sum>e\<leftarrow>below. mi_count (snd e))\<rparr>)"

lemma expected_rows:
  assumes "0 < depth"
  shows "directory_row_of k t depth ` {directory. in_directory depth directory (bt_items t) \<noteq> []} =
    {expected_row k t depth directory | directory. \<exists>e \<in> set (bt_items t). counted_in depth directory (fst e)}"
proof -
  have "in_directory depth directory (bt_items t) = filter (\<lambda>e. counted_in depth directory (fst e)) (bt_items t)" for directory
    by (simp add: in_directory_def directoryForPath_iff[OF assms])
  then show ?thesis
    by (auto simp: directory_row_of_def expected_row_def item_total_def Let_def filter_empty_conv)
qed

text \<open>
  C36: the summary by directory, at a depth of at least one (what the command line accepts), breaks the
  summary down: for every row of the summary, the directory rows of its ratchet name each directory once,
  add up to the row's files and findings, and are exactly one row for every directory that a file of the
  ratchet is counted in, with the number of those files and the sum of their findings. A file is counted
  in its own directory when that has at most \<open>depth\<close> segments, and otherwise in the first \<open>depth\<close>
  segments of its path; a file at the root in the row of the dot.
\<close>

theorem directory_summary_adds_up:
  assumes "distinct (map rc_id registry)" and "distinct (map fst (bl_tests b))" and "0 < depth"
    and "row \<in> set (summarizeLintRatchetBaseline lc b registry)"
    and "ds = filter (\<lambda>d. dr_id d = sr_id row) (summarizeLintRatchetBaselineByDirectory lc b registry depth)"
  shows "(\<Sum>d\<leftarrow>ds. dr_fileCount d) = sr_fileCount row \<and> (\<Sum>d\<leftarrow>ds. dr_totalFindings d) = sr_totalFindings row
    \<and> distinct (map dr_directory ds)
    \<and> set ds = (case map_of (bl_tests b) (sr_id row) of None \<Rightarrow> {}
        | Some t \<Rightarrow> {expected_row (sr_id row) t depth directory | directory.
            \<exists>e \<in> set (bt_items t). counted_in depth directory (fst e)})"
  unfolding assms(5) directory_summary_rows[OF assms(1,2)] expected_rows[OF assms(3), symmetric]
  using summary_row_test[OF assms(4)] rows_sums rows_exact by (auto split: option.splits)

theorem directory_summary_adds_up_witness:
  "(\<Sum>d\<leftarrow>filter (\<lambda>d. dr_id d = ''ratchet/a'') (summarizeLintRatchetBaselineByDirectory codeUnitCompare
       (sample_baseline [(''src/a.ts'', 2), (''src/b.ts'', 1), (''c.ts'', 3)]) (one_ratchet MessageCount) 1). dr_totalFindings d) = 6"
proof -
  let ?b = "sample_baseline [(''src/a.ts'', 2), (''src/b.ts'', 1), (''c.ts'', 3)]"
  let ?row = "rowForTest ''ratchet/a'' (sample_test [(''src/a.ts'', 2), (''src/b.ts'', 1), (''c.ts'', 3)])"
  have row: "?row \<in> set (summarizeLintRatchetBaseline codeUnitCompare ?b (one_ratchet MessageCount))"
    by (simp add: summarizeLintRatchetBaseline_def one_ratchet_def sample_ratchet_def rowForRatchet_def sample_baseline_def)
  have v: "sr_id ?row = ''ratchet/a''" "sr_totalFindings ?row = 6"
    by (simp_all add: rowForTest_def sumFindings_def sample_test_def count_item_def baseline_test.fields_def group_meta.extend_def sample_meta_def)
  show ?thesis
    using directory_summary_adds_up[OF _ _ _ row refl, of 1] unfolding v
    by (simp add: one_ratchet_def sample_baseline_def)
qed

section \<open>The trend\<close>

text \<open>What a commit of the log did to the file; the score of a rename or a copy is a row of digits.\<close>

datatype log_change = Added | Modified | Renamed string string | Copied string string | Deleted | Unlisted

definition sample_log :: "(baseline_commit \<times> log_change) list" where
  "sample_log = [(\<lparr>bc_sha = ''ab12'', bc_committedAt = ''2026-01-02'', bc_path = ''b.json''\<rparr>, Renamed ''087'' ''a.json''),
     (\<lparr>bc_sha = ''cd34'', bc_committedAt = ''2026-01-01'', bc_path = ''a.json''\<rparr>, Added)]"

text \<open>The baseline in a commit, when git has it and it parses, and the points of a ratchet.\<close>

definition baseline_at ::
    "json_parser \<Rightarrow> string cmp \<Rightarrow> git_runner \<Rightarrow> workflow_vocabulary \<Rightarrow> string \<Rightarrow> baseline_commit \<Rightarrow> ratchet_baseline option" where
  "baseline_at jp lc git vocab baselineFile commit =
     Option.bind (git [''show'', bc_sha commit @ '':'' @ bc_path commit]) (\<lambda>txt.
       case parseLintRatchetBaselineStructure jp lc txt vocab default_version_policy baselineFile of
         Inl _ \<Rightarrow> None | Inr parsed \<Rightarrow> sb_baseline parsed)"

definition point_at :: "(baseline_commit \<Rightarrow> ratchet_baseline option) \<Rightarrow> string \<Rightarrow> baseline_commit \<Rightarrow> trend_point option" where
  "point_at at k commit =
     Option.bind (at commit) (\<lambda>b. map_option (\<lambda>t.
       \<lparr>bc_sha = bc_sha commit, bc_committedAt = bc_committedAt commit, bc_path = bc_path commit,
        tp_totalFindings = (\<Sum>e\<leftarrow>bt_items t. mi_count (snd e))\<rparr>) (map_of (bl_tests b) k))"

lemma point_at_row:
  "point_at at k commit = Option.bind (at commit) (\<lambda>b. map_option (\<lambda>t. point_of commit (rowForTest k t)) (map_of (bl_tests b) k))"
  by (simp add: point_at_def point_of_def rowForTest_def sumFindings_total item_total_def)

text \<open>The warning of a commit without a usable baseline: its sha, and why it has none.\<close>

definition warning_at ::
    "json_parser \<Rightarrow> string cmp \<Rightarrow> git_runner \<Rightarrow> workflow_vocabulary \<Rightarrow> string \<Rightarrow> baseline_commit \<Rightarrow> string option" where
  "warning_at jp lc git vocab baselineFile commit =
     (if baseline_at jp lc git vocab baselineFile commit \<noteq> None then None
      else Some (bc_sha commit @ '': '' @
        (case git [''show'', bc_sha commit @ '':'' @ bc_path commit] of
           None \<Rightarrow> bc_path commit @ '' could not be read''
         | Some txt \<Rightarrow> js_join ''; '' (case parseLintRatchetBaselineStructure jp lc txt vocab default_version_policy baselineFile of
             Inl _ \<Rightarrow> [] | Inr parsed \<Rightarrow> sb_failures parsed))))"

definition series_ok :: "(string \<times> trend_series) list \<Rightarrow> (string \<Rightarrow> trend_point list) \<Rightarrow> bool" where
  "series_ok m pts \<longleftrightarrow> distinct (map fst m) \<and> (\<forall>k. case map_of m k of
     None \<Rightarrow> pts k = [] | Some s \<Rightarrow> ts_id s = k \<and> ts_points s = pts k \<and> pts k \<noteq> [])"

lemma series_okD:
  "series_ok m pts \<Longrightarrow> case map_of m k of None \<Rightarrow> pts k = [] | Some s \<Rightarrow> ts_id s = k \<and> ts_points s = pts k \<and> pts k \<noteq> []"
  by (simp add: series_ok_def)

lemma series_ok_add:
  "series_ok m pts \<Longrightarrow> series_ok (addPoint row p m) (\<lambda>k. pts k @ (if sr_id row = k then [p] else []))"
proof -
  assume ok: "series_ok m pts"
  have "case map_of (addPoint row p m) k of None \<Rightarrow> pts k @ (if sr_id row = k then [p] else []) = []
    | Some s \<Rightarrow> ts_id s = k \<and> ts_points s = pts k @ (if sr_id row = k then [p] else []) \<and>
        pts k @ (if sr_id row = k then [p] else []) \<noteq> []" for k
    using series_okD[OF ok, of k]
    by (cases "sr_id row = k"; cases "map_of m k") (simp_all add: addPoint_def update_conv' del: map_of_eq_Some_iff)
  then show ?thesis using ok by (simp add: series_ok_def addPoint_def distinct_update)
qed

lemma series_ok_rows:
  "series_ok m pts \<Longrightarrow> series_ok (fold (\<lambda>row. addPoint row (point_of c row)) rows m)
     (\<lambda>k. pts k @ map (point_of c) (filter (\<lambda>row. sr_id row = k) rows))"
proof (induction rows arbitrary: m pts)
  case (Cons row rows)
  have eq: "(\<lambda>k. (pts k @ (if sr_id row = k then [point_of c row] else [])) @ map (point_of c) (filter (\<lambda>r. sr_id r = k) rows)) =
      (\<lambda>k. pts k @ map (point_of c) (filter (\<lambda>r. sr_id r = k) (row # rows)))" by auto
  show ?case
    using Cons.IH[OF series_ok_add[OF Cons.prems], of row "point_of c row"] unfolding eq by simp
qed simp

lemma rows_of_ratchet:
  assumes "distinct (map fst (bl_tests b))"
  shows "filter (\<lambda>row. sr_id row = k) (summarizeLintRatchetBaseline lc b []) =
    (case map_of (bl_tests b) k of None \<Rightarrow> [] | Some t \<Rightarrow> [rowForTest k t])"
proof -
  let ?row = "\<lambda>k. case map_of (bl_tests b) k of None \<Rightarrow> [] | Some t \<Rightarrow> [rowForTest k t]"
  have concat: "List.map_filter (\<lambda>k. map_option (rowForTest k) (map_of (bl_tests b) k)) ks = concat (map ?row ks)" for ks
    by (induction ks) (auto simp: List.map_filter_def split: option.splits)
  have all: "summarizeLintRatchetBaseline lc b [] = concat (map ?row (js_sort lc (map fst (bl_tests b))))"
    by (simp add: summarizeLintRatchetBaseline_def orphan_ids_def concat)
  have "k \<in> set (js_sort lc (map fst (bl_tests b)))" if "map_of (bl_tests b) k = Some t" for t
    using map_of_SomeD[OF that] by (force simp: image_iff)
  moreover have id: "sr_id d = k'" if "d \<in> set (?row k')" for d k'
    using that by (cases "map_of (bl_tests b) k'") (auto simp: rowForTest_def)
  have "filter (\<lambda>row. sr_id row = k) (concat (map ?row (js_sort lc (map fst (bl_tests b))))) =
      (if k \<in> set (js_sort lc (map fst (bl_tests b))) then ?row k else [])"
    by (rule filter_keyed_concat[OF _ id]) (simp_all add: assms)
  ultimately show ?thesis unfolding all by (cases "map_of (bl_tests b) k") (simp_all del: map_of_eq_Some_iff)
qed

lemma commit_step_points:
  assumes "commit_step jp lc git vocab f c st = Inr st'" and "series_ok (tr_seriesById st) pts"
    and "\<And>b. baseline_at jp lc git vocab f c = Some b \<Longrightarrow> distinct (map fst (bl_tests b))"
  shows "series_ok (tr_seriesById st') (\<lambda>k. pts k @ (case point_at (baseline_at jp lc git vocab f) k c of None \<Rightarrow> [] | Some p \<Rightarrow> [p]))
    \<and> tr_warnings st' = tr_warnings st @ (case warning_at jp lc git vocab f c of None \<Rightarrow> [] | Some m \<Rightarrow> [m])"
proof (cases "baseline_at jp lc git vocab f c")
  case None
  then show ?thesis
    using assms(1,2) by (auto simp: commit_step_def historicalBaselineText_def warning_at_def baseline_at_def point_at_def split: option.splits sum.splits)
next
  case (Some b)
  then have st': "st' = st\<lparr>tr_seriesById := fold (\<lambda>row. addPoint row (point_of c row))
      (summarizeLintRatchetBaseline lc b []) (tr_seriesById st)\<rparr>"
    using assms(1) by (auto simp: commit_step_def historicalBaselineText_def baseline_at_def split: option.splits sum.splits)
  have pts: "(\<lambda>k. pts k @ map (point_of c) (filter (\<lambda>row. sr_id row = k) (summarizeLintRatchetBaseline lc b []))) =
      (\<lambda>k. pts k @ (case point_at (baseline_at jp lc git vocab f) k c of None \<Rightarrow> [] | Some p \<Rightarrow> [p]))"
    unfolding rows_of_ratchet[OF assms(3)[OF Some]] by (auto simp: point_at_row Some fun_eq_iff split: option.splits)
  show ?thesis
    using series_ok_rows[OF assms(2), of c "summarizeLintRatchetBaseline lc b []"] unfolding pts by (simp add: st' Some warning_at_def)
qed

lemma commit_loop_points:
  assumes "commit_loop jp lc git vocab f cs st = Inr st'" and "series_ok (tr_seriesById st) pts"
    and "\<And>c b. c \<in> set cs \<Longrightarrow> baseline_at jp lc git vocab f c = Some b \<Longrightarrow> distinct (map fst (bl_tests b))"
  shows "series_ok (tr_seriesById st') (\<lambda>k. pts k @ List.map_filter (point_at (baseline_at jp lc git vocab f) k) cs)
    \<and> tr_warnings st' = tr_warnings st @ List.map_filter (warning_at jp lc git vocab f) cs"
  using assms
proof (induction cs arbitrary: st pts)
  case (Cons c cs)
  then obtain s where s: "commit_step jp lc git vocab f c st = Inr s" "commit_loop jp lc git vocab f cs s = Inr st'"
    by (auto split: sum.splits)
  let ?pts = "\<lambda>k. pts k @ (case point_at (baseline_at jp lc git vocab f) k c of None \<Rightarrow> [] | Some p \<Rightarrow> [p])"
  have step: "series_ok (tr_seriesById s) ?pts \<and> tr_warnings s = tr_warnings st @ (case warning_at jp lc git vocab f c of None \<Rightarrow> [] | Some m \<Rightarrow> [m])"
    by (rule commit_step_points[OF s(1) Cons.prems(2) Cons.prems(3)[OF list.set_intros(1)]])
  have "(\<lambda>k. ?pts k @ List.map_filter (point_at (baseline_at jp lc git vocab f) k) cs) =
      (\<lambda>k. pts k @ List.map_filter (point_at (baseline_at jp lc git vocab f) k) (c # cs))"
    by (auto simp: List.map_filter_def split: option.splits)
  moreover have "List.map_filter (warning_at jp lc git vocab f) (c # cs) =
      (case warning_at jp lc git vocab f c of None \<Rightarrow> [] | Some m \<Rightarrow> [m]) @ List.map_filter (warning_at jp lc git vocab f) cs"
    by (simp add: List.map_filter_def split: option.split)
  ultimately show ?case
    using Cons.IH[OF s(2) step[THEN conjunct1] Cons.prems(3)[OF list.set_intros(2)]] step by simp
qed (simp add: List.map_filter_def)

lemma series_of_id:
  "distinct (map fst m) \<Longrightarrow> map ts_id (map snd m) = map fst m \<Longrightarrow>
   map ts_points (filter (\<lambda>s. ts_id s = k) (map snd m)) = (case map_of m k of None \<Rightarrow> [] | Some s \<Rightarrow> [ts_points s])"
proof (induction m)
  case (Cons e m)
  then have ih: "map ts_points (filter (\<lambda>s. ts_id s = k) (map snd m)) = (case map_of m k of None \<Rightarrow> [] | Some s \<Rightarrow> [ts_points s])"
    by simp
  have "map_of m (fst e) = None" using Cons.prems(1) by (simp add: map_of_eq_None_iff)
  then show ?case using ih Cons.prems(2) by (cases "fst e = k") (auto simp del: filter_map map_map)
qed simp

text \<open>
  C37: the trend has one series for every ratchet that some readable committed baseline holds and for
  no other, and its points are, oldest first, the total of that ratchet in every commit that holds it;
  the warnings are, oldest first, one for every commit whose baseline cannot be read or parsed and for no
  other, each with the sha of its commit and the reason.
\<close>

theorem trend_points_exact:
  assumes "collectSeries jp lc git vocab baselineFile commits = Inr (series, warnings)"
    and "\<And>c b. c \<in> set commits \<Longrightarrow> baseline_at jp lc git vocab baselineFile c = Some b \<Longrightarrow> distinct (map fst (bl_tests b))"
    and "pts = List.map_filter (point_at (baseline_at jp lc git vocab baselineFile) k) (rev commits)"
  shows "map ts_points (filter (\<lambda>s. ts_id s = k) series) = (if pts = [] then [] else [pts])
    \<and> warnings = List.map_filter (warning_at jp lc git vocab baselineFile) (rev commits)"
proof -
  obtain st where st: "commit_loop jp lc git vocab baselineFile (rev commits) \<lparr>tr_seriesById = [], tr_warnings = []\<rparr> = Inr st"
    "series = js_sort (\<lambda>l r. lc (ts_id l) (ts_id r)) (map snd (tr_seriesById st))" "warnings = tr_warnings st"
    using assms(1) by (auto simp: collectSeries_def split: sum.splits)
  have "series_ok [] (\<lambda>_. [])" by (simp add: series_ok_def)
  with commit_loop_points[OF st(1), of "\<lambda>_. []"] assms(2)
  have ok: "series_ok (tr_seriesById st) (\<lambda>k. List.map_filter (point_at (baseline_at jp lc git vocab baselineFile) k) (rev commits))"
    and w: "tr_warnings st = List.map_filter (warning_at jp lc git vocab baselineFile) (rev commits)"
    by auto
  let ?m = "tr_seriesById st"
  have ids: "map ts_id (map snd ?m) = map fst ?m"
    using ok by (auto simp: series_ok_def split: option.splits dest: map_of_is_SomeI)
  have mset: "mset (map ts_points (filter (\<lambda>s. ts_id s = k) series)) = mset (map ts_points (filter (\<lambda>s. ts_id s = k) (map snd ?m)))"
    unfolding st(2) by (simp add: mset_filter)
  have "map ts_points (filter (\<lambda>s. ts_id s = k) (map snd ?m)) = (case map_of ?m k of None \<Rightarrow> [] | Some s \<Rightarrow> [ts_points s])"
    using ok ids by (intro series_of_id) (simp_all add: series_ok_def)
  also have "\<dots> = (if pts = [] then [] else [pts])"
    using series_okD[OF ok, of k] unfolding assms(3)
    by (cases "map_of ?m k") (simp_all del: map_of_eq_Some_iff)
  finally have "mset (map ts_points (filter (\<lambda>s. ts_id s = k) series)) = mset (if pts = [] then [] else [pts])"
    using mset by simp
  then have "map ts_points (filter (\<lambda>s. ts_id s = k) series) = (if pts = [] then [] else [pts])"
    by (cases "pts = []") (simp_all only: if_True if_False mset.simps mset_zero_iff mset_single_iff add_mset_eq_single, simp_all)
  then show ?thesis using w st(3) by simp
qed

theorem trend_points_exact_witness:
  "\<exists>series warnings. collectSeries retire_disk codeUnitCompare (\<lambda>_. Some []) sample_vocab ''baseline.json'' (map fst sample_log)
       = Inr (series, warnings)
     \<and> map (map bc_sha) (map ts_points (filter (\<lambda>s. ts_id s = ''ratchet/a'') series)) = [[''cd34'', ''ab12'']] \<and> warnings = []"
proof -
  let ?at = "baseline_at retire_disk codeUnitCompare (\<lambda>_. Some []) sample_vocab ''baseline.json''"
  obtain s where s: "parseLintRatchetBaselineStructure retire_disk codeUnitCompare [] sample_vocab default_version_policy ''baseline.json'' = Inr s"
    "sb_baseline s = Some retire_committed"
    using retire_run by (auto simp: retire_context_def split: sum.splits)
  have at: "?at c = Some retire_committed" for c
    by (simp add: baseline_at_def s)
  obtain series warnings where run: "collectSeries retire_disk codeUnitCompare (\<lambda>_. Some []) sample_vocab ''baseline.json'' (map fst sample_log)
      = Inr (series, warnings)"
    by (auto simp: collectSeries_def sample_log_def commit_step_def historicalBaselineText_def s)
  have one: "map_of (bl_tests retire_committed) ''ratchet/a'' = Some (snd (hd (bl_tests retire_committed)))"
    by (simp add: retire_committed_def sample_baseline_def Let_def)
  have d: "distinct (map fst (bl_tests retire_committed))" by (simp add: retire_committed_def sample_baseline_def Let_def)
  show ?thesis
    using trend_points_exact[OF run _ refl, of "''ratchet/a''"] run d
    by (simp add: at one point_at_def sample_log_def List.map_filter_def warning_at_def del: map_map)
qed

section \<open>git's log\<close>

text \<open>
  What \<open>git log --follow --name-status --format="commit %H %cI"\<close> prints for a commit: its header and,
  after an empty line, the status of the file, which is left out for a merge. Two paths follow the status
  of a rename or a copy, the old one first. git prints a path as it is when no character of it has to be
  quoted (\<open>core.quotePath\<close>): printable ASCII without the double quote and the backslash.
\<close>

definition name_status :: "log_change \<Rightarrow> string \<Rightarrow> string" where
  "name_status change path = (case change of
     Added \<Rightarrow> ''A'' @ [TAB] @ path
   | Modified \<Rightarrow> ''M'' @ [TAB] @ path
   | Deleted \<Rightarrow> ''D'' @ [TAB] @ path
   | Renamed score old \<Rightarrow> ''R'' @ score @ [TAB] @ old @ [TAB] @ path
   | Copied score old \<Rightarrow> ''C'' @ score @ [TAB] @ old @ [TAB] @ path
   | Unlisted \<Rightarrow> [])"

definition log_lines :: "baseline_commit \<times> log_change \<Rightarrow> string list" where
  "log_lines e = [''commit '' @ bc_sha (fst e) @ '' '' @ bc_committedAt (fst e), [], name_status (snd e) (bc_path (fst e))]"

definition log_output :: "(baseline_commit \<times> log_change) list \<Rightarrow> string" where
  "log_output es = js_join [CHR 0x0A] (concat (map log_lines es) @ [[]])"

definition word :: "string \<Rightarrow> bool" where
  "word s \<longleftrightarrow> s \<noteq> [] \<and> list_all (\<lambda>c. \<not> is_js_space c) s"

definition unquoted_path :: "string \<Rightarrow> bool" where
  "unquoted_path p \<longleftrightarrow> list_all (\<lambda>c. 32 \<le> (of_char c :: nat) \<and> (of_char c :: nat) < 127 \<and> c \<noteq> CHR 0x22 \<and> c \<noteq> CHR 0x5C) p"

definition change_ok :: "log_change \<Rightarrow> bool" where
  "change_ok change = (case change of
     Renamed score old \<Rightarrow> list_all is_digit score \<and> unquoted_path old
   | Copied score old \<Rightarrow> list_all is_digit score \<and> unquoted_path old
   | _ \<Rightarrow> True)"

definition loggable :: "baseline_commit \<times> log_change \<Rightarrow> bool" where
  "loggable e \<longleftrightarrow> word (bc_sha (fst e)) \<and> word (bc_committedAt (fst e)) \<and> unquoted_path (bc_path (fst e)) \<and> change_ok (snd e)"

text \<open>The file is in the tree of the commit, at the path that its row names.\<close>

definition holds_file :: "baseline_commit \<times> log_change \<Rightarrow> bool" where
  "holds_file e \<longleftrightarrow> snd e \<noteq> Deleted \<and> snd e \<noteq> Unlisted"

lemma word_chars: "word s \<Longrightarrow> takeWhile (\<lambda>c. \<not> is_js_space c) (s @ CHR '' '' # t) = s
    \<and> dropWhile (\<lambda>c. \<not> is_js_space c) (s @ CHR '' '' # t) = CHR '' '' # t"
  by (auto simp: word_def list_all_iff takeWhile_append dropWhile_append is_js_space_def)

lemma header_line: "word sha \<Longrightarrow> word at \<Longrightarrow> commit_header (''commit '' @ sha @ '' '' @ at) = Some (sha, at)"
  using word_chars[of sha at] by (simp add: commit_header_def Let_def) (simp add: word_def)

lemma unquoted_chars: "unquoted_path p \<Longrightarrow> TAB \<notin> set p \<and> CHR 0x0A \<notin> set p"
proof -
  assume p: "unquoted_path p"
  have ctl: "(of_char TAB :: nat) = 9" "(of_char (CHR 0x0A) :: nat) = 10" by (simp_all add: TAB_def)
  have "32 \<le> (of_char c :: nat)" if "c \<in> set p" for c
    using p that unfolding unquoted_path_def list_all_iff by blast
  from this[of TAB] this[of "CHR 0x0A"] show ?thesis unfolding ctl by fastforce
qed

lemma digit_chars: "list_all is_digit s \<Longrightarrow> TAB \<notin> set s \<and> CHR 0x0A \<notin> set s"
  by (auto simp: list_all_iff is_digit_def TAB_def)

lemma status_no_header: "commit_header (name_status change path) = None"
  by (cases change) (simp_all add: name_status_def commit_header_def)

lemma status_path:
  assumes "unquoted_path path" "change_ok change"
  shows "pathFromNameStatusLine (name_status change path) =
    (if change = Deleted \<or> change = Unlisted then None else Some path)"
proof -
  have path: "js_split TAB path = [path]" by (rule split_plain) (simp add: unquoted_chars assms(1))
  have two: "js_split TAB (c # score @ TAB # old @ TAB # path) = [c # score, old, path]"
    if "list_all is_digit score" "unquoted_path old" "c \<noteq> TAB" for c score old
  proof -
    have "js_split TAB (c # score) = [c # score]" "js_split TAB old = [old]"
      using that digit_chars[of score] by (simp_all add: split_plain unquoted_chars)
    then show ?thesis
      using split_append[of TAB "c # score" "old @ TAB # path"] split_append[of TAB old path] path by simp
  qed
  have one: "js_split TAB (c # TAB # path) = [[c], path]" if "c \<noteq> TAB" for c
    using split_append[of TAB "[c]" path] that path by (simp add: split_plain)
  show ?thesis
  proof (cases change)
    case (Renamed score old)
    then show ?thesis using two[of score old "CHR ''R''"] assms(2)
      by (simp add: name_status_def pathFromNameStatusLine_def change_ok_def at_index_def TAB_def[symmetric], simp add: TAB_def)
  next
    case (Copied score old)
    then show ?thesis using two[of score old "CHR ''C''"] assms(2)
      by (simp add: name_status_def pathFromNameStatusLine_def change_ok_def at_index_def TAB_def[symmetric], simp add: TAB_def)
  qed (use one[of "CHR ''A''"] one[of "CHR ''M''"] one[of "CHR ''D''"] in
      \<open>simp_all add: name_status_def pathFromNameStatusLine_def at_index_def TAB_def\<close>)
qed

lemma log_lines_step:
  assumes "loggable e"
  shows "ls_commits (fold log_line (log_lines e) st) = ls_commits st @ (if holds_file e then [fst e] else [])"
proof -
  let ?c = "fst e"
  have h: "log_line (''commit '' @ bc_sha ?c @ '' '' @ bc_committedAt ?c) st = st\<lparr>ls_pending := Some (bc_sha ?c, bc_committedAt ?c)\<rparr>"
    using header_line[of "bc_sha ?c" "bc_committedAt ?c"] assms by (simp add: loggable_def log_line_def)
  have "ls_commits (log_line (name_status (snd e) (bc_path ?c)) (st\<lparr>ls_pending := Some (bc_sha ?c, bc_committedAt ?c)\<rparr>)) =
      ls_commits st @ (if holds_file e then [?c] else [])"
  proof (cases "snd e = Unlisted")
    case True
    then show ?thesis by (simp add: name_status_def log_line_def holds_file_def)
  next
    case False
    then have "name_status (snd e) (bc_path ?c) \<noteq> []" by (cases "snd e") (simp_all add: name_status_def)
    then show ?thesis
      using False status_path[of "bc_path ?c" "snd e"] status_no_header[of "snd e" "bc_path ?c"] assms
      by (simp add: log_line_def loggable_def holds_file_def)
  qed
  then show ?thesis using h by (simp add: log_lines_def log_line_def[of "[]"])
qed

text \<open>
  C38: the log of the baseline file is read back as it was printed: exactly the commits that leave the
  file in their tree, whether they added, modified, renamed or copied it (with any similarity score), in
  order and each with the path the file has in it; a commit that deleted it and a merge without a row
  leave nothing behind. The paths are ones that git prints unquoted.
\<close>

theorem baseline_log_roundtrip:
  assumes "list_all loggable es"
  shows "parseBaselineLog (log_output es) = map fst (filter holds_file es)"
proof -
  have nl: "CHR 0x0A \<notin> set s" if "word s" for s
    using that by (auto simp: word_def list_all_iff is_js_space_def)
  have lines: "list_all (\<lambda>l. CHR 0x0A \<notin> set l) (log_lines e)" if "loggable e" for e
    using that nl[of "bc_sha (fst e)"] nl[of "bc_committedAt (fst e)"]
    by (cases "snd e") (simp_all add: log_lines_def loggable_def change_ok_def name_status_def unquoted_chars digit_chars TAB_def)
  have "list_all (\<lambda>l. CHR 0x0A \<notin> set l) (concat (map log_lines es) @ [[]])"
    using assms by (induction es) (simp_all add: lines)
  then have "js_split (CHR 0x0A) (log_output es) = concat (map log_lines es) @ [[]]"
    unfolding log_output_def by (rule split_joined[rotated]) simp
  moreover have "ls_commits (fold log_line (concat (map log_lines es)) st) = ls_commits st @ map fst (filter holds_file es)" for st
    using assms
  proof (induction es arbitrary: st)
    case (Cons e es)
    then show ?case by (simp add: log_lines_step)
  qed simp
  ultimately show ?thesis by (simp add: parseBaselineLog_def log_line_def[of "[]"])
qed

theorem baseline_log_roundtrip_witness:
  "parseBaselineLog (log_output sample_log) = map fst sample_log \<and> length sample_log = 2"
proof -
  have "list_all loggable sample_log" by code_simp
  from baseline_log_roundtrip[OF this] show ?thesis by (simp add: sample_log_def holds_file_def)
qed

section \<open>The debt log report\<close>

lemma bars_escaped_plain: "list_all (\<lambda>c. c \<noteq> CHR 0x5C \<and> c \<noteq> CHR ''|'') s \<Longrightarrow> bars_escaped s"
  by (induction s) auto

lemma show_int_chars: "c \<in> set (show_int i) \<Longrightarrow> c = CHR ''-'' \<or> is_digit c"
  using show_nat_digits[of "nat i"] show_nat_digits[of "nat (- i)"]
  by (auto simp: show_int_def list_all_iff split: if_splits)

lemma bars_escaped_int: "bars_escaped (show_int i)"
  by (rule bars_escaped_plain) (auto simp: list_all_iff is_digit_def dest!: show_int_chars)

lemma cells_escaped:
  "list_all bars_escaped (regression_cells r)" "list_all bars_escaped (orphan_cells orphan e)"
proof -
  have c: "bars_escaped (debt_cell v)" for v by (simp add: debt_cell_def cell_escaped)
  show "list_all bars_escaped (regression_cells r)" by (simp add: regression_cells_def c)
  show "list_all bars_escaped (orphan_cells orphan e)"
    by (cases e) (auto simp: orphan_cells_def c bars_escaped_int em_dash_def)
qed

text \<open>The cells of a row as a reader of the table sees them.\<close>

definition shown_cells :: "string list \<Rightarrow> string list" where
  "shown_cells parts = [] # map (\<lambda>p. '' '' @ p @ '' '') parts @ [[]]"

text \<open>
  Whatever paths, rules and labels the log holds, every row of the two tables of the report has
  its columns: five for a regression, six for an item of a removed ratchet, each with its own text.
\<close>

theorem debt_report_columns:
  "map table_cells (drop 2 (formatRegressionTable regressions)) = map (shown_cells \<circ> regression_cells) regressions
   \<and> map table_cells (drop 2 (formatOrphanTable orphans)) = concat (map (\<lambda>orphan. map (shown_cells \<circ> orphan_cells orphan)
       (if or_baselineItems orphan = [] then [None] else map Some (or_baselineItems orphan))) orphans)
   \<and> length (regression_cells r) = 5 \<and> length (orphan_cells orphan e) = 6"
proof -
  have row: "table_cells (table_row parts) = shown_cells parts" if "parts \<noteq> []" "list_all bars_escaped parts" for parts
    using table_row_cells[OF that] by (simp add: shown_cells_def)
  have n: "length (regression_cells r) = 5" "length (orphan_cells orphan e) = 6" for r orphan e
    by (simp_all add: regression_cells_def orphan_cells_def split: option.split prod.split)
  have ne: "regression_cells r \<noteq> []" "orphan_cells orphan e \<noteq> []" for r orphan e
    by (simp_all add: regression_cells_def orphan_cells_def)
  have "map table_cells (orphanRows orphan) = map (shown_cells \<circ> orphan_cells orphan)
      (if or_baselineItems orphan = [] then [None] else map Some (or_baselineItems orphan))" for orphan
    by (simp add: orphanRows_def row ne cells_escaped)
  then show ?thesis
    by (simp add: formatRegressionTable_def formatOrphanTable_def row ne cells_escaped n map_concat comp_def)
qed

end
