(* ===== verification/InfoAttributes.thy ===== *)
theory InfoAttributes
  imports Prelude
begin

text \<open>
  \<open>git-rail/info-attributes.ts\<close>: one driver's block in \<open>.git/info/attributes\<close>. The mutable fold state
  is a record; \<open>UnterminatedBlockError\<close> is \<open>None\<close>.
\<close>

section \<open>Lines\<close>

definition LEGACY_BLOCK_BEGINS :: "string list" where
  "LEGACY_BLOCK_BEGINS = [''# BEGIN musi baseline merge attributes'', ''# BEGIN musi lint-ratchet merge attributes'']"

definition LEGACY_BLOCK_ENDS :: "string list" where
  "LEGACY_BLOCK_ENDS = [''# END musi baseline merge attributes'', ''# END musi lint-ratchet merge attributes'']"

definition stripCr :: "string \<Rightarrow> string" where
  "stripCr line = (if line \<noteq> [] \<and> last line = CHR 0x0D then butlast line else line)"

definition firstToken :: "string \<Rightarrow> string" where
  "firstToken line = takeWhile (\<lambda>c. \<not> is_js_space c) (dropWhile is_js_space line)"

definition slash_variant :: "string \<Rightarrow> string" where
  "slash_variant path = (if take 1 path = ''/'' then drop 1 path else ''/'' @ path)"

definition managedPathSet :: "string list \<Rightarrow> string list" where
  "managedPathSet attributeRows =
     concat (map (\<lambda>row. let path = firstToken row in if path = [] then [] else [path, slash_variant path]) attributeRows)"

section \<open>The fold\<close>

record managed_block =
  mb_begin :: string
  mb_end :: string
  mb_rows :: "string list"
  mb_paths :: "string list"

record fold_state =
  fo_kept :: "string list"
  fo_legacy :: bool
  fo_skip :: bool
  fo_managedEmitted :: bool

definition block_lines :: "managed_block \<Rightarrow> string list" where
  "block_lines block = mb_begin block # mb_rows block @ [mb_end block]"

definition foldAttributeLine :: "managed_block \<Rightarrow> string \<Rightarrow> fold_state \<Rightarrow> fold_state" where
  "foldAttributeLine block rawLine st =
     (let line = stripCr rawLine
      in if line \<in> set LEGACY_BLOCK_BEGINS then st\<lparr>fo_legacy := True\<rparr>
         else if line \<in> set LEGACY_BLOCK_ENDS then st\<lparr>fo_legacy := False\<rparr>
         else if line = mb_begin block
         then (if fo_managedEmitted st then st
               else st\<lparr>fo_kept := fo_kept st @ block_lines block, fo_managedEmitted := True\<rparr>)\<lparr>fo_skip := True\<rparr>
         else if line = mb_end block then st\<lparr>fo_skip := False\<rparr>
         else if fo_skip st \<or> firstToken line \<in> set (mb_paths block) then st
         else st\<lparr>fo_kept := fo_kept st @ [line]\<rparr>)"

definition drop_blank_end :: "string list \<Rightarrow> string list" where
  "drop_blank_end lines = rev (dropWhile (\<lambda>l. l = []) (rev lines))"

definition attribute_lines :: "string \<Rightarrow> string list" where
  "attribute_lines text = (let lines = js_split (CHR 0x0A) text in if last lines = [] then butlast lines else lines)"

definition foldExistingAttributes :: "string \<Rightarrow> managed_block \<Rightarrow> string list option" where
  "foldExistingAttributes currentAttributes block =
     (let st = fold (foldAttributeLine block) (attribute_lines currentAttributes)
            \<lparr>fo_kept = [], fo_legacy = False, fo_skip = False, fo_managedEmitted = False\<rparr>
      in if fo_skip st \<or> fo_legacy st then None else Some (drop_blank_end (fo_kept st)))"

record attributes_input =
  ai_managedBegin :: string
  ai_managedEnd :: string
  ai_managedAttributes :: string

definition block_of :: "attributes_input \<Rightarrow> managed_block" where
  "block_of ai = (let rows = js_split (CHR 0x0A) (ai_managedAttributes ai)
     in \<lparr>mb_begin = ai_managedBegin ai, mb_end = ai_managedEnd ai, mb_rows = rows, mb_paths = managedPathSet rows\<rparr>)"

definition renderBaselineMergeAttributes :: "attributes_input \<Rightarrow> string option \<Rightarrow> string option" where
  "renderBaselineMergeAttributes ai currentAttributes =
     (let block = block_of ai;
          blockPresent = (case currentAttributes of None \<Rightarrow> False
            | Some t \<Rightarrow> list_ex (\<lambda>line. line = ai_managedBegin ai) (map stripCr (js_split (CHR 0x0A) t)))
      in case (case currentAttributes of None \<Rightarrow> Some [] | Some t \<Rightarrow> foldExistingAttributes t block) of
           None \<Rightarrow> None
         | Some kept \<Rightarrow>
             Some (if blockPresent then (if kept \<noteq> [] then js_join [CHR 0x0A] kept @ [CHR 0x0A] else [])
                   else let trailer = js_join [CHR 0x0A] [ai_managedBegin ai, ai_managedAttributes ai, ai_managedEnd ai]
                        in if kept \<noteq> [] then js_join [CHR 0x0A] kept @ [CHR 0x0A, CHR 0x0A] @ trailer @ [CHR 0x0A]
                           else trailer @ [CHR 0x0A]))"

end
