(* ===== verification/InfoAttributesLaws.thy ===== *)
theory InfoAttributesLaws
  imports InfoAttributes
begin

text \<open>
  Properties of the attributes rewriter: rendering is stable, it keeps every unrelated rule, and two
  drivers that install their blocks one after the other do not disturb each other.
\<close>

abbreviation newline :: char where
  "newline \<equiv> CHR 0x0A"

definition legacy_marker :: "string \<Rightarrow> bool" where
  "legacy_marker l \<longleftrightarrow> l \<in> set LEGACY_BLOCK_BEGINS \<or> l \<in> set LEGACY_BLOCK_ENDS"

text \<open>A line that the driver has no claim on, in the form in which it is kept.\<close>

definition loose :: "managed_block \<Rightarrow> string \<Rightarrow> bool" where
  "loose b l \<longleftrightarrow> \<not> legacy_marker l \<and> l \<noteq> mb_begin b \<and> l \<noteq> mb_end b \<and> firstToken l \<notin> set (mb_paths b)
     \<and> stripCr l = l \<and> newline \<notin> set l"

text \<open>Markers that can be told apart, and rows that are not markers themselves.\<close>

definition block_wf :: "managed_block \<Rightarrow> bool" where
  "block_wf b \<longleftrightarrow> list_all (\<lambda>m. m \<noteq> [] \<and> \<not> legacy_marker m \<and> stripCr m = m \<and> newline \<notin> set m) [mb_begin b, mb_end b]
     \<and> mb_begin b \<noteq> mb_end b \<and> [] \<notin> set (mb_paths b)
     \<and> list_all (\<lambda>r. \<not> legacy_marker (stripCr r) \<and> stripCr r \<noteq> mb_begin b \<and> stripCr r \<noteq> mb_end b \<and> newline \<notin> set r) (mb_rows b)"

definition start_state :: fold_state where
  "start_state = \<lparr>fo_kept = [], fo_legacy = False, fo_skip = False, fo_managedEmitted = False\<rparr>"

lemma legacy_not_Nil: "\<not> legacy_marker []"
  by (simp add: legacy_marker_def LEGACY_BLOCK_BEGINS_def LEGACY_BLOCK_ENDS_def)

lemma loose_Nil: "block_wf b \<Longrightarrow> loose b []"
  by (auto simp: loose_def block_wf_def legacy_not_Nil firstToken_def stripCr_def)

section \<open>Text and lines\<close>

lemma split_parts: "w \<in> set (js_split d s) \<Longrightarrow> d \<notin> set w"
  by (induction s arbitrary: w) (auto split: if_splits list.splits)

lemma join_append:
  "xs \<noteq> [] \<Longrightarrow> ys \<noteq> [] \<Longrightarrow> js_join sep (xs @ ys) = js_join sep xs @ sep @ js_join sep ys"
  by (induction xs rule: induct_list012) (auto simp: neq_Nil_conv)

lemma join_last: "xs \<noteq> [] \<Longrightarrow> js_join sep (xs @ [[]]) = js_join sep xs @ sep"
  by (simp add: join_append)

lemma lines_of_text:
  "ls \<noteq> [] \<Longrightarrow> list_all (\<lambda>l. newline \<notin> set l) ls \<Longrightarrow>
   js_split newline (js_join [newline] ls @ [newline]) = ls @ [[]]"
  using split_joined[of "ls @ [[]]" newline] by (simp add: join_last)

lemma attribute_lines_text:
  "ls \<noteq> [] \<Longrightarrow> list_all (\<lambda>l. newline \<notin> set l) ls \<Longrightarrow> attribute_lines (js_join [newline] ls @ [newline]) = ls"
  unfolding attribute_lines_def Let_def by (simp add: lines_of_text)

lemma drop_blank_end_append: "last ys \<noteq> [] \<Longrightarrow> ys \<noteq> [] \<Longrightarrow> drop_blank_end (xs @ ys @ zs) = xs @ ys @ drop_blank_end zs"
proof -
  assume ys: "last ys \<noteq> []" "ys \<noteq> []"
  then obtain y ys' where "rev ys = y # ys'" "y \<noteq> []" by (metis hd_rev list.collapse rev_is_Nil_conv)
  then show ?thesis by (simp add: drop_blank_end_def dropWhile_append)
qed

lemma drop_blank_end_last: "drop_blank_end xs = [] \<or> last (drop_blank_end xs) \<noteq> []"
proof -
  have "dropWhile (\<lambda>l. l = []) (rev xs) = [] \<or> hd (dropWhile (\<lambda>l. l = []) (rev xs)) \<noteq> []"
    by (metis (mono_tags, lifting) hd_dropWhile)
  then show ?thesis by (auto simp: drop_blank_end_def last_rev)
qed

lemma drop_blank_end_id: "xs = [] \<or> last xs \<noteq> [] \<Longrightarrow> drop_blank_end xs = xs"
  using drop_blank_end_append[of xs "[]" "[]"] by (cases "xs = []") (simp_all add: drop_blank_end_def)

lemma drop_blank_end_prefix: "\<exists>n. xs = drop_blank_end xs @ replicate n []"
proof -
  have "takeWhile (\<lambda>l. l = []) ys = replicate (length (takeWhile (\<lambda>l. l = []) ys)) []" for ys :: "string list"
    by (induction ys) auto
  moreover have "xs = drop_blank_end xs @ rev (takeWhile (\<lambda>l. l = []) (rev xs))"
    unfolding drop_blank_end_def by (metis rev_append rev_rev_ident takeWhile_dropWhile_id)
  ultimately show ?thesis by (metis rev_replicate)
qed

lemma drop_blank_end_loose: "list_all P xs \<Longrightarrow> list_all P (drop_blank_end xs)"
  using drop_blank_end_prefix[of xs] by (metis list_all_append)

lemma drop_blank_end_nonblank: "filter (\<lambda>l. l \<noteq> []) (drop_blank_end xs) = filter (\<lambda>l. l \<noteq> []) xs"
proof -
  obtain n where "xs = drop_blank_end xs @ replicate n []" using drop_blank_end_prefix by blast
  then have "filter (\<lambda>l. l \<noteq> []) xs = filter (\<lambda>l. l \<noteq> []) (drop_blank_end xs) @ filter (\<lambda>l. l \<noteq> []) (replicate n [])"
    by (metis filter_append)
  then show ?thesis by simp
qed

section \<open>What the fold keeps\<close>

text \<open>The lines of a file outside every managed block that are no markers and not managed.\<close>

fun outside :: "managed_block \<Rightarrow> bool \<Rightarrow> string list \<Rightarrow> string list" where
  "outside b inside [] = []"
| "outside b inside (raw # ls) =
     (let l = stripCr raw
      in if legacy_marker l then outside b inside ls
         else if l = mb_begin b then outside b True ls
         else if l = mb_end b then outside b False ls
         else if inside \<or> firstToken l \<in> set (mb_paths b) then outside b inside ls
         else l # outside b inside ls)"

definition shape :: "managed_block \<Rightarrow> fold_state \<Rightarrow> string list \<Rightarrow> bool" where
  "shape b st ls \<longleftrightarrow> (if fo_managedEmitted st then \<exists>p q. fo_kept st = p @ block_lines b @ q \<and> ls = p @ q else fo_kept st = ls)"

lemma shape_add: "shape b st ls \<Longrightarrow> shape b (st\<lparr>fo_kept := fo_kept st @ [l]\<rparr>) (ls @ [l])"
  by (auto simp: shape_def) (metis append.assoc)

lemma fold_shape:
  assumes "block_wf b" and "shape b st kept"
  shows "shape b (fold (foldAttributeLine b) ls st) (kept @ outside b (fo_skip st) ls)
    \<and> (fo_managedEmitted (fold (foldAttributeLine b) ls st) \<longleftrightarrow> fo_managedEmitted st \<or> mb_begin b \<in> stripCr ` set ls)"
  using assms(2)
proof (induction ls arbitrary: st kept)
  case (Cons raw ls)
  have wf: "\<not> legacy_marker (mb_begin b)" "mb_begin b \<noteq> mb_end b" using assms(1) by (auto simp: block_wf_def)
  let ?l = "stripCr raw"
  consider (legacy) "legacy_marker ?l" | (opens) "\<not> legacy_marker ?l" "?l = mb_begin b" | (closes) "\<not> legacy_marker ?l" "?l = mb_end b" "?l \<noteq> mb_begin b"
    | (dropped) "\<not> legacy_marker ?l" "?l \<noteq> mb_begin b" "?l \<noteq> mb_end b" "fo_skip st \<or> firstToken ?l \<in> set (mb_paths b)"
    | (kept) "\<not> legacy_marker ?l" "?l \<noteq> mb_begin b" "?l \<noteq> mb_end b" "\<not> fo_skip st" "firstToken ?l \<notin> set (mb_paths b)"
    by blast
  then show ?case
  proof cases
    case legacy
    then obtain st' where st': "foldAttributeLine b raw st = st'" "fo_kept st' = fo_kept st" "fo_skip st' = fo_skip st"
      "fo_managedEmitted st' = fo_managedEmitted st"
      by (auto simp: foldAttributeLine_def Let_def legacy_marker_def)
    have "shape b st' kept" using Cons.prems st' by (simp add: shape_def)
    from Cons.IH[OF this] legacy wf(1) show ?thesis by (auto simp: st')
  next
    case opens
    let ?st = "(if fo_managedEmitted st then st
      else st\<lparr>fo_kept := fo_kept st @ block_lines b, fo_managedEmitted := True\<rparr>)\<lparr>fo_skip := True\<rparr>"
    have step: "foldAttributeLine b raw st = ?st"
      using opens by (simp add: foldAttributeLine_def Let_def legacy_marker_def)
    have "shape b ?st kept"
    proof (cases "fo_managedEmitted st")
      case False
      then have "fo_kept ?st = kept @ block_lines b @ [] \<and> kept = kept @ []" using Cons.prems by (simp add: shape_def)
      then have "\<exists>p q. fo_kept ?st = p @ block_lines b @ q \<and> kept = p @ q" by blast
      moreover have "fo_managedEmitted ?st" by (simp add: False)
      ultimately show ?thesis by (simp only: shape_def if_True)
    qed (use Cons.prems in \<open>simp add: shape_def\<close>)
    from Cons.IH[OF this] opens show ?thesis unfolding fold.simps comp_apply step by (simp add: Let_def)
  next
    case closes
    have step: "foldAttributeLine b raw st = st\<lparr>fo_skip := False\<rparr>"
      using closes by (simp add: foldAttributeLine_def Let_def legacy_marker_def)
    have "shape b (st\<lparr>fo_skip := False\<rparr>) kept" using Cons.prems by (simp add: shape_def)
    from Cons.IH[OF this] closes wf(2) show ?thesis unfolding fold.simps comp_apply step by (auto simp: Let_def)
  next
    case dropped
    have step: "foldAttributeLine b raw st = st"
      using dropped by (auto simp: foldAttributeLine_def Let_def legacy_marker_def)
    from Cons.IH[OF Cons.prems] dropped show ?thesis unfolding fold.simps comp_apply step by (auto simp: Let_def)
  next
    case kept
    have step: "foldAttributeLine b raw st = st\<lparr>fo_kept := fo_kept st @ [?l]\<rparr>"
      using kept by (simp add: foldAttributeLine_def Let_def legacy_marker_def)
    from Cons.IH[OF shape_add[OF Cons.prems, of ?l]] kept show ?thesis
      unfolding fold.simps comp_apply step by (auto simp: Let_def)
  qed
qed (simp add: shape_def)

lemma outside_loose:
  "list_all (\<lambda>l. stripCr (stripCr l) = stripCr l \<and> newline \<notin> set l) ls \<Longrightarrow> list_all (loose b) (outside b inside ls)"
proof (induction ls arbitrary: inside)
  case (Cons raw ls)
  have "newline \<notin> set (stripCr raw)" using Cons.prems by (auto simp: stripCr_def dest: in_set_butlastD)
  then show ?case using Cons by (auto simp: Let_def loose_def)
qed simp

text \<open>A file in which the block stands once, between lines the driver has no claim on.\<close>

definition settled :: "managed_block \<Rightarrow> string list \<Rightarrow> bool" where
  "settled b ls \<longleftrightarrow> (\<exists>p q. ls = p @ block_lines b @ q \<and> list_all (loose b) (p @ q) \<and> (q = [] \<or> last q \<noteq> []))"

lemma block_lines_clean: "block_wf b \<Longrightarrow> list_all (\<lambda>l. newline \<notin> set l) (block_lines b)"
  by (auto simp: block_wf_def block_lines_def list_all_iff)

lemma settled_clean: "block_wf b \<Longrightarrow> settled b ls \<Longrightarrow> ls \<noteq> [] \<and> list_all (\<lambda>l. newline \<notin> set l) ls"
proof -
  assume b: "block_wf b" and "settled b ls"
  then obtain p q where pq: "ls = p @ block_lines b @ q" "list_all (loose b) p" "list_all (loose b) q" by (auto simp: settled_def)
  have "list_all (\<lambda>l. newline \<notin> set l) x" if "list_all (loose b) x" for x
    using that by (rule list.pred_mono_strong) (simp add: loose_def)
  then show ?thesis using pq block_lines_clean[OF b] by (simp add: block_lines_def)
qed

lemma fold_loose:
  "list_all (loose b) ls \<Longrightarrow> \<not> fo_skip st \<Longrightarrow>
   fold (foldAttributeLine b) ls st = st\<lparr>fo_kept := fo_kept st @ ls\<rparr>"
  by (induction ls arbitrary: st) (auto simp: foldAttributeLine_def Let_def loose_def legacy_marker_def)

lemma fold_rows:
  "list_all (\<lambda>r. \<not> legacy_marker (stripCr r) \<and> stripCr r \<noteq> mb_begin b \<and> stripCr r \<noteq> mb_end b \<and> newline \<notin> set r) rs \<Longrightarrow>
   fo_skip st \<Longrightarrow> fold (foldAttributeLine b) rs st = st"
  by (induction rs) (auto simp: foldAttributeLine_def Let_def legacy_marker_def)

lemma fold_block:
  assumes "block_wf b" "\<not> fo_managedEmitted st" "\<not> fo_skip st"
  shows "fold (foldAttributeLine b) (block_lines b) st = st\<lparr>fo_kept := fo_kept st @ block_lines b, fo_managedEmitted := True\<rparr>"
proof -
  have wf: "\<not> legacy_marker (mb_begin b)" "\<not> legacy_marker (mb_end b)" "stripCr (mb_begin b) = mb_begin b"
    "stripCr (mb_end b) = mb_end b" "mb_begin b \<noteq> mb_end b"
    using assms(1) by (auto simp: block_wf_def)
  let ?st = "st\<lparr>fo_kept := fo_kept st @ block_lines b, fo_managedEmitted := True, fo_skip := True\<rparr>"
  have "foldAttributeLine b (mb_begin b) st = ?st"
    using wf assms(2) by (simp add: foldAttributeLine_def Let_def legacy_marker_def)
  moreover have "fold (foldAttributeLine b) (mb_rows b) ?st = ?st"
    by (rule fold_rows) (use assms(1) in \<open>simp_all add: block_wf_def\<close>)
  moreover have "foldAttributeLine b (mb_end b) ?st = ?st\<lparr>fo_skip := False\<rparr>"
    using wf by (simp add: foldAttributeLine_def Let_def legacy_marker_def)
  ultimately show ?thesis using assms(3) by (cases st) (simp add: block_lines_def)
qed

lemma settled_fold:
  assumes "block_wf b" "settled b ls"
  shows "foldExistingAttributes (js_join [newline] ls @ [newline]) b = Some ls"
proof -
  obtain p q where pq: "ls = p @ block_lines b @ q" "list_all (loose b) p" "list_all (loose b) q" "q = [] \<or> last q \<noteq> []"
    using assms(2) by (auto simp: settled_def)
  have ne: "block_lines b \<noteq> []" "last (block_lines b) \<noteq> []" using assms(1) by (auto simp: block_lines_def block_wf_def)
  have "drop_blank_end ls = ls" using drop_blank_end_append[OF ne(2,1), of p q] drop_blank_end_id[OF pq(4)] pq(1) by simp
  moreover have "fold (foldAttributeLine b) ls \<lparr>fo_kept = [], fo_legacy = False, fo_skip = False, fo_managedEmitted = False\<rparr> =
      \<lparr>fo_kept = ls, fo_legacy = False, fo_skip = False, fo_managedEmitted = True\<rparr>"
    by (simp add: pq(1) fold_loose[OF pq(2)] fold_loose[OF pq(3)] fold_block[OF assms(1)])
  ultimately show ?thesis
    using attribute_lines_text[of ls] settled_clean[OF assms] by (simp add: foldExistingAttributes_def)
qed

lemma settled_stable:
  assumes "block_wf (block_of ai)" "settled (block_of ai) ls"
  shows "renderBaselineMergeAttributes ai (Some (js_join [newline] ls @ [newline])) = Some (js_join [newline] ls @ [newline])"
proof -
  have "mb_begin (block_of ai) \<in> set ls" using assms(2) by (auto simp: settled_def block_lines_def)
  moreover have "stripCr (mb_begin (block_of ai)) = mb_begin (block_of ai)" using assms(1) by (simp add: block_wf_def)
  ultimately have "list_ex (\<lambda>line. line = ai_managedBegin ai) (map stripCr (ls @ [[]]))"
    by (force simp: list_ex_iff block_of_def Let_def image_iff)
  then show ?thesis
    using settled_fold[OF assms] settled_clean[OF assms] lines_of_text[of ls]
    by (simp add: renderBaselineMergeAttributes_def Let_def)
qed

section \<open>What a rendering holds\<close>

text \<open>The inputs of the driver, and the rules of a file that are not its own.\<close>

definition clean_input :: "string option \<Rightarrow> bool" where
  "clean_input cur = opt_all (\<lambda>t. list_all (\<lambda>l. stripCr (stripCr l) = stripCr l) (js_split newline t)) cur"

definition unrelated :: "attributes_input \<Rightarrow> string option \<Rightarrow> string list" where
  "unrelated ai cur = (case cur of None \<Rightarrow> [] | Some t \<Rightarrow> outside (block_of ai) False (attribute_lines t))"

lemma attribute_lines_subset: "set (attribute_lines t) \<subseteq> set (js_split newline t)"
  by (auto simp: attribute_lines_def Let_def dest: in_set_butlastD)

lemma attribute_lines_cover: "l \<in> set (js_split newline t) \<Longrightarrow> l \<noteq> [] \<Longrightarrow> l \<in> set (attribute_lines t)"
proof -
  assume l: "l \<in> set (js_split newline t)" "l \<noteq> []"
  have "set (js_split newline t) = insert (last (js_split newline t)) (set (butlast (js_split newline t)))"
    by (metis append_butlast_last_id js_split_not_Nil list.simps(15) set_append set_ConsD rotate1.simps(2) set_rotate1)
  then show ?thesis using l by (auto simp: attribute_lines_def Let_def)
qed

lemma unrelated_loose: "clean_input cur \<Longrightarrow> list_all (loose (block_of ai)) (unrelated ai cur)"
proof (cases cur)
  case (Some t)
  assume c: "clean_input cur"
  have "list_all (\<lambda>l. stripCr (stripCr l) = stripCr l \<and> newline \<notin> set l) (attribute_lines t)"
    using c attribute_lines_subset[of t] split_parts[of _ newline t] by (auto simp: clean_input_def Some list_all_iff)
  then show ?thesis by (simp add: unrelated_def Some outside_loose)
qed (simp add: unrelated_def)

lemma trailer_lines:
  "js_join [newline] [ai_managedBegin ai, ai_managedAttributes ai, ai_managedEnd ai] = js_join [newline] (block_lines (block_of ai))"
  using js_join_split[of newline "ai_managedAttributes ai"] join_append[of "js_split newline (ai_managedAttributes ai)" "[ai_managedEnd ai]" "[newline]"]
  by (cases "js_split newline (ai_managedAttributes ai)") (simp_all add: block_lines_def block_of_def Let_def)

lemma rendered_lines:
  assumes wf: "block_wf (block_of ai)" and clean: "clean_input cur" and r: "renderBaselineMergeAttributes ai cur = Some y"
  obtains (ok) p q where "y = js_join [newline] (p @ block_lines (block_of ai) @ q) @ [newline]"
    "list_all (loose (block_of ai)) (p @ q)" "q = [] \<or> last q \<noteq> []"
    "filter (\<lambda>l. l \<noteq> []) (p @ q) = filter (\<lambda>l. l \<noteq> []) (unrelated ai cur)"
    "ai_managedBegin ai \<notin> set (unrelated ai cur @ (case cur of None \<Rightarrow> [] | Some t \<Rightarrow> map stripCr (attribute_lines t))) \<longrightarrow>
       q = [] \<and> p = (if drop_blank_end (unrelated ai cur) = [] then [] else drop_blank_end (unrelated ai cur) @ [[]])"
proof -
  let ?b = "block_of ai"
  have names: "mb_begin ?b = ai_managedBegin ai" by (simp add: block_of_def Let_def)
  have bne: "block_lines ?b \<noteq> []" "last (block_lines ?b) \<noteq> []" using wf by (auto simp: block_lines_def block_wf_def)
  have loose: "list_all (loose ?b) (unrelated ai cur)" by (rule unrelated_loose[OF clean])
  let ?L = "drop_blank_end (unrelated ai cur)"
  have fresh: thesis if y: "y = (if ?L \<noteq> [] then js_join [newline] ?L @ [newline, newline] @ js_join [newline] (block_lines ?b) @ [newline]
      else js_join [newline] (block_lines ?b) @ [newline])"
  proof (rule ok)
    let ?p = "if ?L = [] then [] else ?L @ [[]]"
    show "y = js_join [newline] (?p @ block_lines ?b @ []) @ [newline]"
      using y bne join_append[of "[[]]" "block_lines ?b" "[newline]"] by (simp add: join_append)
    show "list_all (loose ?b) (?p @ [])"
      using drop_blank_end_loose[OF loose] loose_Nil[OF wf] by simp
    show "filter (\<lambda>l. l \<noteq> []) (?p @ []) = filter (\<lambda>l. l \<noteq> []) (unrelated ai cur)"
      using drop_blank_end_nonblank[of "unrelated ai cur"] by auto
  qed simp_all
  show thesis
  proof (cases cur)
    case None
    then have "y = js_join [newline] (block_lines ?b) @ [newline]"
      using r by (simp add: renderBaselineMergeAttributes_def Let_def trailer_lines[symmetric])
    then show thesis using None by (intro fresh) (simp add: unrelated_def drop_blank_end_def)
  next
    case (Some t)
    let ?st = "fold (foldAttributeLine ?b) (attribute_lines t) start_state"
    have sh: "shape ?b ?st (unrelated ai cur)" "fo_managedEmitted ?st \<longleftrightarrow> ai_managedBegin ai \<in> stripCr ` set (attribute_lines t)"
      using fold_shape[OF wf, of start_state "[]" "attribute_lines t"] by (simp_all add: shape_def start_state_def unrelated_def Some names)
    have present: "list_ex (\<lambda>line. line = ai_managedBegin ai) (map stripCr (js_split newline t)) \<longleftrightarrow> fo_managedEmitted ?st"
    proof -
      have "stripCr [] \<noteq> ai_managedBegin ai" using wf names by (auto simp: block_wf_def stripCr_def)
      then show ?thesis
        using attribute_lines_subset[of t] attribute_lines_cover[of _ t] unfolding sh(2) by (auto simp: list_ex_iff image_iff) metis
    qed
    obtain kept where kept: "foldExistingAttributes t ?b = Some kept" "kept = drop_blank_end (fo_kept ?st)"
      using r by (auto simp: renderBaselineMergeAttributes_def Let_def Some foldExistingAttributes_def start_state_def split: if_splits option.splits)
    show thesis
    proof (cases "fo_managedEmitted ?st")
      case False
      then have "fo_kept ?st = unrelated ai cur" using sh(1) by (simp add: shape_def)
      then show thesis
        using r kept present False
        by (intro fresh) (auto simp: renderBaselineMergeAttributes_def Let_def Some trailer_lines[symmetric])
    next
      case True
      then obtain p q where pq: "fo_kept ?st = p @ block_lines ?b @ q" "unrelated ai cur = p @ q"
        using sh(1) by (auto simp: shape_def)
      have k: "kept = p @ block_lines ?b @ drop_blank_end q"
        unfolding kept(2) pq(1) by (rule drop_blank_end_append[OF bne(2,1)])
      show thesis
      proof (rule ok)
        show "y = js_join [newline] (p @ block_lines ?b @ drop_blank_end q) @ [newline]"
          using r kept(1) present True bne(1) by (simp add: renderBaselineMergeAttributes_def Let_def Some k)
        show "list_all (loose ?b) (p @ drop_blank_end q)"
          using loose drop_blank_end_loose[of "loose ?b" q] by (simp add: pq(2))
        show "drop_blank_end q = [] \<or> last (drop_blank_end q) \<noteq> []" by (rule drop_blank_end_last)
        show "filter (\<lambda>l. l \<noteq> []) (p @ drop_blank_end q) = filter (\<lambda>l. l \<noteq> []) (unrelated ai cur)"
          by (simp only: pq(2) filter_append drop_blank_end_nonblank)
      qed (use True in \<open>auto simp: sh(2) Some\<close>)
    qed
  qed
qed

lemma outside_loose_id: "list_all (loose b) ls \<Longrightarrow> outside b False (ls @ ys) = ls @ outside b False ys"
  by (induction ls) (auto simp: Let_def loose_def)

lemma outside_rows:
  "list_all (\<lambda>r. \<not> legacy_marker (stripCr r) \<and> stripCr r \<noteq> mb_begin b \<and> stripCr r \<noteq> mb_end b \<and> newline \<notin> set r) rs \<Longrightarrow>
   outside b True (rs @ ys) = outside b True ys"
  by (induction rs) (auto simp: Let_def)

lemma outside_block: "block_wf b \<Longrightarrow> outside b False (block_lines b @ ys) = outside b False ys"
proof -
  assume wf: "block_wf b"
  then have "outside b True (mb_rows b @ mb_end b # ys) = outside b True (mb_end b # ys)"
    by (intro outside_rows) (simp add: block_wf_def)
  then show ?thesis using wf by (auto simp: block_lines_def block_wf_def Let_def)
qed

lemma rendered_settled:
  assumes "block_wf (block_of ai)" and "clean_input cur" and "renderBaselineMergeAttributes ai cur = Some y"
  obtains ls where "y = js_join [newline] ls @ [newline]" "settled (block_of ai) ls"
    "filter (\<lambda>l. l \<noteq> []) (unrelated ai (Some y)) = filter (\<lambda>l. l \<noteq> []) (unrelated ai cur)"
proof -
  let ?b = "block_of ai"
  obtain p q where pq: "y = js_join [newline] (p @ block_lines ?b @ q) @ [newline]" "list_all (loose ?b) (p @ q)"
    "q = [] \<or> last q \<noteq> []" "filter (\<lambda>l. l \<noteq> []) (p @ q) = filter (\<lambda>l. l \<noteq> []) (unrelated ai cur)"
    using rendered_lines[OF assms] by metis
  have s: "settled ?b (p @ block_lines ?b @ q)" using pq(2,3) by (auto simp: settled_def)
  have "unrelated ai (Some y) = outside ?b False (p @ block_lines ?b @ q @ [])"
    using attribute_lines_text[of "p @ block_lines ?b @ q"] settled_clean[OF assms(1) s] by (simp add: unrelated_def pq(1))
  also have "\<dots> = p @ q"
    using pq(2) outside_loose_id[of ?b p "block_lines ?b @ q @ []"] outside_loose_id[of ?b q "[]"]
    by (simp add: outside_block[OF assms(1)] del: append_Nil2)
  finally show thesis using that[OF pq(1) s] pq(4) by simp
qed

lemma attributes_stable_base:
  assumes "block_wf (block_of ai)" and "clean_input cur" and "renderBaselineMergeAttributes ai cur = Some y"
  shows "renderBaselineMergeAttributes ai (Some y) = Some y"
proof -
  obtain ls where "y = js_join [newline] ls @ [newline]" "settled (block_of ai) ls"
    by (rule rendered_settled[OF assms])
  then show ?thesis using settled_stable[OF assms(1)] by simp
qed

text \<open>
  C39: the rewriter is stable and loses nothing: rendering its own output changes nothing, and the
  rules of the file that are not the driver's are the same before and after, in the same order.
\<close>

theorem attributes_stable:
  assumes "block_wf (block_of ai)" and "clean_input cur" and "renderBaselineMergeAttributes ai cur = Some y"
  shows "renderBaselineMergeAttributes ai (Some y) = Some y
    \<and> filter (\<lambda>l. l \<noteq> []) (unrelated ai (Some y)) = filter (\<lambda>l. l \<noteq> []) (unrelated ai cur)"
proof -
  obtain ls where "filter (\<lambda>l. l \<noteq> []) (unrelated ai (Some y)) = filter (\<lambda>l. l \<noteq> []) (unrelated ai cur)"
    by (rule rendered_settled[OF assms])
  then show ?thesis using attributes_stable_base[OF assms] by simp
qed

text \<open>
  C40: two drivers do not disturb each other: when each one's block is no business of the other, and
  the second one's block is new, then after both have rendered, both accept the file as it is.
\<close>

theorem sibling_drivers_settle:
  assumes "block_wf (block_of ai)" "block_wf (block_of bi)"
    and "list_all (loose (block_of bi)) (block_lines (block_of ai))" "list_all (loose (block_of ai)) (block_lines (block_of bi))"
    and "clean_input cur" "renderBaselineMergeAttributes ai cur = Some y" "renderBaselineMergeAttributes bi (Some y) = Some z"
    and "ai_managedBegin bi \<notin> set (attribute_lines y)"
  shows "renderBaselineMergeAttributes ai (Some z) = Some z \<and> renderBaselineMergeAttributes bi (Some z) = Some z"
proof -
  let ?a = "block_of ai" and ?b = "block_of bi"
  obtain ls where ls: "y = js_join [newline] ls @ [newline]" "settled ?a ls"
    by (rule rendered_settled[OF assms(1,5,6)]) 
  obtain p q where pq: "ls = p @ block_lines ?a @ q" "list_all (loose ?a) p" "list_all (loose ?a) q" using ls(2) by (auto simp: settled_def)
  have lines: "attribute_lines y = ls" unfolding ls(1) by (rule attribute_lines_text) (use settled_clean[OF assms(1) ls(2)] in auto)
  have strip: "stripCr l = l \<and> \<not> legacy_marker l" if "l \<in> set ls" for l
    using that pq assms(3) by (auto simp: loose_def list_all_iff)
  have clean: "clean_input (Some y)"
    using lines_of_text[of ls] settled_clean[OF assms(1) ls(2)]
    by (simp add: clean_input_def ls(1) list_all_iff strip) (simp add: stripCr_def)
  let ?ok = "\<lambda>l. l \<noteq> mb_end ?b \<and> firstToken l \<notin> set (mb_paths ?b)"
  have out: "outside ?b False xs = filter ?ok xs" if "set xs \<subseteq> set ls" for xs
    using that
  proof (induction xs)
    case (Cons l xs)
    have "l \<noteq> mb_begin ?b" using Cons.prems assms(8) by (auto simp: lines block_of_def Let_def)
    then show ?case using Cons strip[of l] by (simp add: Let_def)
  qed simp
  have keep: "filter ?ok (block_lines ?a) = block_lines ?a"
    using assms(3) by (auto simp: filter_id_conv loose_def list_all_iff)
  have un: "unrelated bi (Some y) = filter ?ok p @ block_lines ?a @ filter ?ok q"
    using out[of ls] by (simp add: unrelated_def lines) (simp add: pq(1) keep)
  have ane: "block_lines ?a \<noteq> []" "last (block_lines ?a) \<noteq> []" using assms(1) by (auto simp: block_lines_def block_wf_def)
  have drop: "drop_blank_end (unrelated bi (Some y)) = filter ?ok p @ block_lines ?a @ drop_blank_end (filter ?ok q)"
    unfolding un by (rule drop_blank_end_append[OF ane(2,1)])
  obtain p' q' where z: "z = js_join [newline] (p' @ block_lines ?b @ q') @ [newline]"
    and fresh: "ai_managedBegin bi \<notin> set (unrelated bi (Some y) @ (case Some y of None \<Rightarrow> [] | Some t \<Rightarrow> map stripCr (attribute_lines t))) \<longrightarrow>
       q' = [] \<and> p' = (if drop_blank_end (unrelated bi (Some y)) = [] then [] else drop_blank_end (unrelated bi (Some y)) @ [[]])"
    by (rule rendered_lines[OF assms(2) clean assms(7)])
  have "map stripCr (attribute_lines y) = attribute_lines y" unfolding lines by (rule map_idI) (use strip in blast)
  moreover have "set (unrelated bi (Some y)) \<subseteq> set ls" using out[of ls] by (auto simp: unrelated_def lines)
  ultimately have "q' = [] \<and> p' = filter ?ok p @ block_lines ?a @ drop_blank_end (filter ?ok q) @ [[]]"
    using fresh assms(8) ane(1) unfolding drop by (auto simp: lines)
  then have zl: "z = js_join [newline] (filter ?ok p @ block_lines ?a @ (drop_blank_end (filter ?ok q) @ [] # block_lines ?b)) @ [newline]"
    using z by simp
  have "list_all (loose ?a) (filter ?ok p @ (drop_blank_end (filter ?ok q) @ [] # block_lines ?b))"
    using pq(2,3) assms(4) loose_Nil[OF assms(1)] drop_blank_end_loose[of "loose ?a" "filter ?ok q"] by (auto simp: list_all_iff)
  moreover have "last (drop_blank_end (filter ?ok q) @ [] # block_lines ?b) \<noteq> []" using assms(2) by (simp add: block_lines_def block_wf_def)
  ultimately have "settled ?a (filter ?ok p @ block_lines ?a @ (drop_blank_end (filter ?ok q) @ [] # block_lines ?b))"
    unfolding settled_def by blast
  from settled_stable[OF assms(1) this] have "renderBaselineMergeAttributes ai (Some z) = Some z" unfolding zl .
  then show ?thesis using attributes_stable_base[OF assms(2) clean assms(7)] by simp
qed

definition ratchet_input :: attributes_input where
  "ratchet_input = \<lparr>ai_managedBegin = ''# BEGIN ratchet'', ai_managedEnd = ''# END ratchet'',
     ai_managedAttributes = ''/ratchet.json merge=ratchet''\<rparr>"

definition knip_input :: attributes_input where
  "knip_input = \<lparr>ai_managedBegin = ''# BEGIN knip'', ai_managedEnd = ''# END knip'', ai_managedAttributes = ''/knip.json merge=knip''\<rparr>"

definition sample_attributes :: string where
  "sample_attributes = js_join [newline] [''*.png binary'', ''ratchet.json merge=old'', ''# note'', []]"

lemma attribute_samples:
  "block_wf (block_of ratchet_input) \<and> block_wf (block_of knip_input) \<and> clean_input (Some sample_attributes)
   \<and> list_all (loose (block_of knip_input)) (block_lines (block_of ratchet_input))
   \<and> list_all (loose (block_of ratchet_input)) (block_lines (block_of knip_input))
   \<and> (case renderBaselineMergeAttributes ratchet_input (Some sample_attributes) of None \<Rightarrow> False
      | Some y \<Rightarrow> attribute_lines y = [''*.png binary'', ''# note'', [], ''# BEGIN ratchet'', ''/ratchet.json merge=ratchet'', ''# END ratchet'']
          \<and> renderBaselineMergeAttributes knip_input (Some y) \<noteq> None)"
  by code_simp

theorem attributes_stable_witness:
  "\<exists>y. renderBaselineMergeAttributes ratchet_input (Some sample_attributes) = Some y \<and>
     renderBaselineMergeAttributes ratchet_input (Some y) = Some y"
proof -
  obtain y where "renderBaselineMergeAttributes ratchet_input (Some sample_attributes) = Some y"
    using attribute_samples by (auto split: option.splits)
  then show ?thesis using attributes_stable[of ratchet_input "Some sample_attributes" y] attribute_samples by blast
qed

theorem sibling_drivers_settle_witness:
  "\<exists>y z. renderBaselineMergeAttributes ratchet_input (Some sample_attributes) = Some y \<and>
     renderBaselineMergeAttributes knip_input (Some y) = Some z \<and> renderBaselineMergeAttributes ratchet_input (Some z) = Some z"
proof -
  obtain y where y: "renderBaselineMergeAttributes ratchet_input (Some sample_attributes) = Some y"
    "attribute_lines y = [''*.png binary'', ''# note'', [], ''# BEGIN ratchet'', ''/ratchet.json merge=ratchet'', ''# END ratchet'']"
    "renderBaselineMergeAttributes knip_input (Some y) \<noteq> None"
    using attribute_samples by (auto split: option.splits)
  then obtain z where z: "renderBaselineMergeAttributes knip_input (Some y) = Some z" by blast
  have "ai_managedBegin knip_input \<notin> set (attribute_lines y)" by (simp add: y(2) knip_input_def)
  then show ?thesis using sibling_drivers_settle[OF _ _ _ _ _ y(1) z] attribute_samples y(1) z by blast
qed

end
