(* ===== verification/RuleSource.thy ===== *)
theory RuleSource
  imports Collector BaselineValidation Registry
begin

text \<open>
  \<open>kernel/rule-source.ts\<close>: the identity of what a ratchet's rule is made of. The file system is a map
  from paths to entries; the TypeScript parser is a parameter that returns a diagnostic or the parts of
  the syntax tree that the code looks at. \<open>node:path\<close> is modelled for POSIX and absolute paths. Every
  thrown error is \<open>Inl\<close> with its message.
\<close>

section \<open>Files and paths\<close>

datatype fs_entry = FsFile string | FsDirectory

type_synonym file_system = "(string \<times> fs_entry) list"

definition fs_exists :: "file_system \<Rightarrow> string \<Rightarrow> bool" where
  "fs_exists fs p \<longleftrightarrow> map_of fs p \<noteq> None"

definition fs_isDirectory :: "file_system \<Rightarrow> string \<Rightarrow> bool" where
  "fs_isDirectory fs p \<longleftrightarrow> map_of fs p = Some FsDirectory"

definition fs_readFile :: "file_system \<Rightarrow> string \<Rightarrow> string + string" where
  "fs_readFile fs p = (case map_of fs p of
       None \<Rightarrow> Inl (''ENOENT: no such file or directory, open '' @ p)
     | Some FsDirectory \<Rightarrow> Inl ''EISDIR: illegal operation on a directory, read''
     | Some (FsFile s) \<Rightarrow> Inr s)"

definition posix_resolve :: "string \<Rightarrow> string \<Rightarrow> string" where
  "posix_resolve dir p = ''/'' @ js_join ''/'' (path_segments (if is_absolute p then p else dir @ ''/'' @ p))"

definition posix_join :: "string list \<Rightarrow> string" where
  "posix_join parts = ''/'' @ js_join ''/'' (path_segments (js_join ''/'' parts))"

definition posix_dirname :: "string \<Rightarrow> string" where
  "posix_dirname p = ''/'' @ js_join ''/'' (butlast (path_segments p))"

text \<open>The extension of the last segment, with its dot.\<close>

definition posix_extname :: "string \<Rightarrow> string" where
  "posix_extname p =
     (let base = last (js_split (CHR ''/'') p);
          ext = rev (takeWhile (\<lambda>c. c \<noteq> CHR ''.'') (rev base));
          stem = take (length base - length ext) base
      in if stem = [] \<or> stem = ''.'' \<or> base = ''..'' then [] else CHR ''.'' # ext)"

section \<open>The syntax the code looks at\<close>

datatype ts_node =
    TsCall ts_node "ts_node list"
  | TsImportKeyword
  | TsIdentifier string
  | TsOther "ts_node list"

datatype ts_specifier = TsStringLiteral string | TsExpression

datatype ts_statement =
    TsImportDeclaration ts_specifier
  | TsExportDeclaration "ts_specifier option"
  | TsOtherStatement

record ts_source_file =
  tf_statements :: "ts_statement list"
  tf_nodes :: "ts_node list"

record ts_diagnostic =
  td_location :: string
  td_message :: string

datatype script_kind = ScriptJS | ScriptJSX

type_synonym ts_parser = "string \<Rightarrow> string \<Rightarrow> script_kind \<Rightarrow> ts_diagnostic + ts_source_file"

definition javaScriptKindForPath :: "string \<Rightarrow> script_kind option" where
  "javaScriptKindForPath path =
     (let ext = posix_extname path
      in if ext \<in> {'''', ''.js'', ''.mjs'', ''.cjs''} then Some ScriptJS
         else if ext = ''.jsx'' then Some ScriptJSX else None)"

definition parseJavaScriptSource :: "ts_parser \<Rightarrow> string \<Rightarrow> string \<Rightarrow> script_kind \<Rightarrow> string + ts_source_file" where
  "parseJavaScriptSource parse path source kind = (case parse path source kind of
       Inl d \<Rightarrow> Inl (''local rule source '' @ path @ td_location d @ '' contains malformed JavaScript: '' @ td_message d)
     | Inr f \<Rightarrow> Inr f)"

fun specifier_text :: "ts_statement \<Rightarrow> string list" where
  "specifier_text (TsImportDeclaration (TsStringLiteral s)) = [s]"
| "specifier_text (TsExportDeclaration (Some (TsStringLiteral s))) = [s]"
| "specifier_text _ = []"

definition staticModuleSpecifiers :: "ts_source_file \<Rightarrow> string list" where
  "staticModuleSpecifiers sourceFile = concat (map specifier_text (tf_statements sourceFile))"

fun loads_modules :: "ts_node \<Rightarrow> bool" where
  "loads_modules (TsCall f args) \<longleftrightarrow>
     f = TsImportKeyword \<or> f = TsIdentifier ''require'' \<or> loads_modules f \<or> list_ex loads_modules args"
| "loads_modules (TsOther ns) \<longleftrightarrow> list_ex loads_modules ns"
| "loads_modules _ \<longleftrightarrow> False"

definition assertStaticModuleLoading :: "string \<Rightarrow> ts_source_file \<Rightarrow> string option" where
  "assertStaticModuleLoading path sourceFile =
     (if list_ex loads_modules (tf_nodes sourceFile)
      then Some (''local rule source '' @ path @ '' uses dynamic import()/require(); rule-source closures must be static ES modules so every dependency is captured in the identity hash'')
      else None)"

section \<open>The closure\<close>

definition bareSpecifierPackageRoot :: "string \<Rightarrow> string option" where
  "bareSpecifierPackageRoot specifier =
     (if length specifier = 0 \<or> CHR '':'' \<in> set specifier then None
      else let segments = js_split (CHR ''/'') specifier
           in if take 1 specifier = ''@''
              then (if length segments \<ge> 2 \<and> segments ! 1 \<noteq> [] then Some (hd segments @ ''/'' @ segments ! 1) else None)
              else Some (hd segments))"

definition resolveLocalRuleImport :: "string \<Rightarrow> string \<Rightarrow> file_system \<Rightarrow> string + string" where
  "resolveLocalRuleImport importerPath specifier fs =
     (let resolved = posix_resolve (posix_dirname importerPath) specifier
      in if posix_extname resolved \<noteq> [] then Inr resolved
         else if \<not> fs_exists fs resolved then Inr (resolved @ ''.js'')
         else if \<not> fs_isDirectory fs resolved then Inr resolved
         else let indexPath = posix_join [resolved, ''index.js'']
              in if fs_exists fs indexPath then Inr indexPath
                 else Inl (''local rule import \"'' @ specifier @ ''\" from '' @ importerPath
                   @ '' resolves to a directory with no index.js''))"

text \<open>
  The recursive walk, with the work that the active calls still have to do as a list: a call for a
  path, or the rest of a loop over the specifiers of a file. \<open>filesByPath\<close> is in insertion order.
\<close>

datatype closure_work = Enter string | Specifier string string

fun work_weight :: "closure_work \<Rightarrow> nat" where
  "work_weight (Enter _) = 1"
| "work_weight (Specifier _ _) = 2"

lemma unread_shrinks:
  assumes "map_of files p = None" and "fs_exists fs p"
  shows "card (set (map fst fs) - set (map fst (files @ [(p, s)]))) < card (set (map fst fs) - set (map fst files))"
  by (rule psubset_card_mono) (use assms in \<open>auto simp: fs_exists_def map_of_eq_None_iff\<close>)

function closure_loop ::
    "ts_parser \<Rightarrow> file_system \<Rightarrow> closure_work list \<Rightarrow> (string \<times> string) list \<Rightarrow> string list \<Rightarrow>
     string + (string \<times> string) list \<times> string list" where
  "closure_loop parse fs [] files roots = Inr (files, roots)"
| "closure_loop parse fs (Enter path # rest) files roots =
     (if map_of files path \<noteq> None then closure_loop parse fs rest files roots
      else if \<not> fs_exists fs path then Inl (''local rule source not found at '' @ path)
      else case fs_readFile fs path of
             Inl e \<Rightarrow> Inl e
           | Inr source \<Rightarrow>
               (case javaScriptKindForPath path of
                  None \<Rightarrow> closure_loop parse fs rest (files @ [(path, source)]) roots
                | Some kind \<Rightarrow>
                    (case parseJavaScriptSource parse path source kind of
                       Inl e \<Rightarrow> Inl e
                     | Inr sourceFile \<Rightarrow>
                         (case assertStaticModuleLoading path sourceFile of
                            Some e \<Rightarrow> Inl e
                          | None \<Rightarrow> closure_loop parse fs (map (Specifier path) (staticModuleSpecifiers sourceFile) @ rest)
                                      (files @ [(path, source)]) roots))))"
| "closure_loop parse fs (Specifier importer specifier # rest) files roots =
     (if take 1 specifier \<noteq> ''.''
      then closure_loop parse fs rest files
             (case bareSpecifierPackageRoot specifier of None \<Rightarrow> roots | Some root \<Rightarrow> List.insert root roots)
      else case resolveLocalRuleImport importer specifier fs of
             Inl e \<Rightarrow> Inl e
           | Inr p \<Rightarrow> closure_loop parse fs (Enter p # rest) files roots)"
  by pat_completeness auto
termination
proof (relation "inv_image ({(a, b). a < b} <*lex*> {(a, b). a < (b :: nat)})
    (\<lambda>(_, fs, work, files, _). (card (set (map fst fs) - set (map fst files)), \<Sum>w\<leftarrow>work. work_weight w))", goal_cases)
  case 1
  then show ?case by (intro wf_inv_image wf_lex_prod) (simp_all add: wf_less)
qed (auto dest: unread_shrinks)

declare closure_loop.simps [simp del]

definition collectLocalRuleSourceClosure ::
    "ts_parser \<Rightarrow> file_system \<Rightarrow> string \<Rightarrow> string + (string \<times> string) list \<times> string list" where
  "collectLocalRuleSourceClosure parse fs entryPath = closure_loop parse fs [Enter entryPath] [] []"

record rule_closure =
  rl_sortedFiles :: "(string \<times> string) list"
  rl_bareSpecifierRoots :: "string list"

definition collectLocalRuleClosure :: "ts_parser \<Rightarrow> file_system \<Rightarrow> string \<Rightarrow> string + rule_closure" where
  "collectLocalRuleClosure parse fs entryPath =
     and_then (collectLocalRuleSourceClosure parse fs entryPath) (\<lambda>(files, roots).
       Inr \<lparr>rl_sortedFiles = key_sort codeUnitCompare files, rl_bareSpecifierRoots = js_sort codeUnitCompare roots\<rparr>)"

definition hashed_file :: "string \<Rightarrow> string \<times> string \<Rightarrow> string" where
  "hashed_file repoRootPath f = slashes (posix_relative repoRootPath (fst f)) @ [CHR 0x00] @ snd f @ [CHR 0x00]"

definition hashLocalRuleClosureFiles :: "hasher \<Rightarrow> (string \<times> string) list \<Rightarrow> string \<Rightarrow> string" where
  "hashLocalRuleClosureFiles sha sortedFiles repoRootPath =
     ''sha256:'' @ sha (case sortedFiles of [f] \<Rightarrow> snd f | _ \<Rightarrow> concat (map (hashed_file repoRootPath) sortedFiles))"

definition computeLocalRuleSourceClosureHash ::
    "ts_parser \<Rightarrow> hasher \<Rightarrow> file_system \<Rightarrow> string \<Rightarrow> string \<Rightarrow> string + string" where
  "computeLocalRuleSourceClosureHash parse sha fs entryPath repoRootPath =
     and_then (collectLocalRuleClosure parse fs entryPath) (\<lambda>closure.
       Inr (hashLocalRuleClosureFiles sha (rl_sortedFiles closure) repoRootPath))"

section \<open>Versions of packages\<close>

definition packageJsonPath :: "string \<Rightarrow> string \<Rightarrow> string" where
  "packageJsonPath packageName repoRoot =
     posix_join ([repoRoot, ''node_modules''] @ js_split (CHR ''/'') packageName @ [''package.json''])"

definition readPackageVersion :: "json_parser \<Rightarrow> file_system \<Rightarrow> string \<Rightarrow> string \<Rightarrow> string \<Rightarrow> string + string" where
  "readPackageVersion jp fs packageName packageLabel repoRoot =
     (let packageJsonFile = packageJsonPath packageName repoRoot;
          displayName = packageLabel @ '' '' @ packageName
      in if \<not> fs_exists fs packageJsonFile then Inl (displayName @ '' was not found at '' @ packageJsonFile)
         else and_then (fs_readFile fs packageJsonFile) (\<lambda>source. and_then (jp source) (\<lambda>parsed.
           case parsed of
             JObj members \<Rightarrow> (case map_of members ''version'' of
                 Some (JStr v) \<Rightarrow> Inr v | _ \<Rightarrow> Inl (displayName @ '' has no version''))
           | _ \<Rightarrow> Inl (displayName @ '' has no version''))))"

definition readThirdPartyPluginVersion :: "json_parser \<Rightarrow> file_system \<Rightarrow> string \<Rightarrow> string \<Rightarrow> string + string" where
  "readThirdPartyPluginVersion jp fs plugin repoRoot =
     readPackageVersion jp fs plugin ''third-party plugin package'' repoRoot"

definition readEslintPackageVersion :: "json_parser \<Rightarrow> file_system \<Rightarrow> string \<Rightarrow> string + string" where
  "readEslintPackageVersion jp fs repoRoot = readPackageVersion jp fs ''eslint'' ''ESLint package'' repoRoot"

definition readTypescriptEslintPackageVersion :: "json_parser \<Rightarrow> file_system \<Rightarrow> string \<Rightarrow> string + string" where
  "readTypescriptEslintPackageVersion jp fs repoRoot =
     readPackageVersion jp fs ''typescript-eslint'' ''typescript-eslint package'' repoRoot"

definition readTypescriptPackageVersion :: "json_parser \<Rightarrow> file_system \<Rightarrow> string \<Rightarrow> string + string" where
  "readTypescriptPackageVersion jp fs repoRoot = readPackageVersion jp fs ''typescript'' ''TypeScript package'' repoRoot"

section \<open>The hash of a ratchet's rule\<close>

record engine_binding =
  bi_repoRoot :: string
  bi_thirdPartyPluginAllowlist :: "allowlist_entry list"
  bi_localRulesDirectory :: "string option"

record rule_world =
  rw_parse :: ts_parser
  rw_json :: json_parser
  rw_files :: file_system

definition localRulesRootFor :: "engine_binding \<Rightarrow> string" where
  "localRulesRootFor b = posix_join [bi_repoRoot b, case bi_localRulesDirectory b of None \<Rightarrow> ''eslint-rules'' | Some d \<Rightarrow> d]"

definition localRuleName :: "string \<Rightarrow> string + string" where
  "localRuleName ruleId = (case strip_prefix ''local/'' ruleId of
       None \<Rightarrow> Inl (''local ratchet ruleId must start with local/: '' @ ruleId)
     | Some name \<Rightarrow> Inr name)"

definition localRulePath :: "ratchet_config \<Rightarrow> engine_binding \<Rightarrow> string + string" where
  "localRulePath r b = and_then (localRuleName (rc_ruleId r)) (\<lambda>name. Inr (posix_join [localRulesRootFor b, name @ ''.js'']))"

definition thirdPartySupportFor :: "ratchet_config \<Rightarrow> allowlist_entry list \<Rightarrow> string + allowlist_entry" where
  "thirdPartySupportFor r allowlist = (case ratchetSource r of
       ThirdPartySource m \<Rightarrow>
         (case find (\<lambda>a. al_pluginModule a = m \<and> Some (al_ruleNamespace a) = ruleNamespace (rc_ruleId r)) allowlist of
            Some a \<Rightarrow> Inr a
          | None \<Rightarrow> Inl (''ratchet '' @ rc_id r @ '': third-party plugin '' @ m @ '' for namespace ''
              @ (case ruleNamespace (rc_ruleId r) of None \<Rightarrow> ''(unknown)'' | Some n \<Rightarrow> n) @ '' is not allowlisted''))
     | _ \<Rightarrow> Inl (''ratchet '' @ rc_id r @ '': expected third-party source''))"

fun bare_versions :: "json_parser \<Rightarrow> file_system \<Rightarrow> string \<Rightarrow> string list \<Rightarrow> string + (string \<times> string) list" where
  "bare_versions jp fs repoRoot [] = Inr []"
| "bare_versions jp fs repoRoot (p # ps) =
     and_then (readPackageVersion jp fs p ''local rule dependency package'' repoRoot) (\<lambda>v.
     and_then (bare_versions jp fs repoRoot ps) (\<lambda>vs. Inr ((p, v) # vs)))"

text \<open>What the hash of a local rule is taken of.\<close>

record local_identity =
  li_closureHash :: string
  li_eslintVersion :: string
  li_typescriptEslintVersion :: string
  li_bareSpecifierVersions :: "(string \<times> string) list"

definition local_identity_json :: "local_identity \<Rightarrow> jsval" where
  "local_identity_json i = JObj [(''kind'', JStr ''local''), (''closureHash'', JStr (li_closureHash i)),
     (''eslintVersion'', JStr (li_eslintVersion i)), (''typescriptEslintVersion'', JStr (li_typescriptEslintVersion i)),
     (''bareSpecifierVersions'', JArr (map (\<lambda>(p, v). JObj [(''package'', JStr p), (''version'', JStr v)])
        (li_bareSpecifierVersions i)))]"

definition local_identity_of :: "hasher \<Rightarrow> rule_world \<Rightarrow> string \<Rightarrow> string \<Rightarrow> string + local_identity" where
  "local_identity_of sha w path repoRoot =
     and_then (collectLocalRuleClosure (rw_parse w) (rw_files w) path) (\<lambda>closure.
     and_then (readEslintPackageVersion (rw_json w) (rw_files w) repoRoot) (\<lambda>ev.
     and_then (readTypescriptEslintPackageVersion (rw_json w) (rw_files w) repoRoot) (\<lambda>tv.
     and_then (bare_versions (rw_json w) (rw_files w) repoRoot (rl_bareSpecifierRoots closure)) (\<lambda>bs.
       Inr \<lparr>li_closureHash = hashLocalRuleClosureFiles sha (rl_sortedFiles closure) repoRoot, li_eslintVersion = ev,
         li_typescriptEslintVersion = tv, li_bareSpecifierVersions = bs\<rparr>))))"

definition computeLocalLintRatchetRuleSourceHash ::
    "hasher \<Rightarrow> rule_world \<Rightarrow> ratchet_config \<Rightarrow> engine_binding \<Rightarrow> string + string" where
  "computeLocalLintRatchetRuleSourceHash sha w r b =
     and_then (localRulePath r b) (\<lambda>path.
       case local_identity_of sha w path (bi_repoRoot b) of
         Inl message \<Rightarrow> Inl (''ratchet '' @ rc_id r @ '': could not compute local rule source hash: '' @ message)
       | Inr i \<Rightarrow> Inr (''sha256:'' @ sha (stringify (local_identity_json i))))"

definition plugin_export_json :: "plugin_export option \<Rightarrow> jsval" where
  "plugin_export_json e = (case e of
     None \<Rightarrow> JStr ''default'' | Some ExportDefault \<Rightarrow> JStr ''default'' | Some ExportPlugin \<Rightarrow> JStr ''plugin''
   | Some (ExportOther v) \<Rightarrow> v)"

definition third_party_identity_json ::
    "allowlist_entry \<Rightarrow> string \<Rightarrow> string \<Rightarrow> string \<Rightarrow> string \<Rightarrow> string option \<Rightarrow> jsval" where
  "third_party_identity_json support plugin pluginVersion eslintVersion parserVersion typescriptVersion =
     JObj ([(''kind'', JStr ''third-party''),
       (''pluginExport'', plugin_export_json (al_pluginExport support)),
       (''pluginModule'', JStr plugin), (''pluginVersion'', JStr pluginVersion),
       (''ruleNamespace'', JStr (al_ruleNamespace support)), (''eslintVersion'', JStr eslintVersion),
       (''parserTypescriptEslintVersion'', JStr parserVersion)]
      @ opt_field ''typescriptVersion'' JStr typescriptVersion)"

definition third_party_hash :: "hasher \<Rightarrow> rule_world \<Rightarrow> ratchet_config \<Rightarrow> string \<Rightarrow> engine_binding \<Rightarrow> string + string" where
  "third_party_hash sha w r plugin b =
     and_then (thirdPartySupportFor r (bi_thirdPartyPluginAllowlist b)) (\<lambda>support.
     and_then (readThirdPartyPluginVersion (rw_json w) (rw_files w) plugin (bi_repoRoot b)) (\<lambda>pv.
     and_then (readEslintPackageVersion (rw_json w) (rw_files w) (bi_repoRoot b)) (\<lambda>ev.
     and_then (readTypescriptEslintPackageVersion (rw_json w) (rw_files w) (bi_repoRoot b)) (\<lambda>tv.
     and_then (if ratchetParserProfile r = TypeAwareTs
         then and_then (readTypescriptPackageVersion (rw_json w) (rw_files w) (bi_repoRoot b)) (\<lambda>v. Inr (Some v))
         else Inr None) (\<lambda>tsv.
       Inr (''sha256:'' @ sha (stringify (third_party_identity_json support plugin pv ev tv tsv))))))))"

text \<open>The cache of local hashes maps paths of rules to hashes.\<close>

definition computeLintRatchetRuleSourceHash ::
    "hasher \<Rightarrow> rule_world \<Rightarrow> ratchet_config \<Rightarrow> engine_binding \<Rightarrow> (string \<times> string) list \<Rightarrow>
     string + string \<times> (string \<times> string) list" where
  "computeLintRatchetRuleSourceHash sha w r b localHashesByPath =
     (case ratchetSource r of
        LocalSource \<Rightarrow>
          and_then (localRulePath r b) (\<lambda>path.
            case map_of localHashesByPath path of
              Some cached \<Rightarrow> Inr (cached, localHashesByPath)
            | None \<Rightarrow> and_then (computeLocalLintRatchetRuleSourceHash sha w r b) (\<lambda>h.
                Inr (h, AList.update path h localHashesByPath)))
      | ThirdPartySource m \<Rightarrow> and_then (third_party_hash sha w r m b) (\<lambda>h. Inr (h, localHashesByPath))
      | CoreSource \<Rightarrow>
          and_then (readEslintPackageVersion (rw_json w) (rw_files w) (bi_repoRoot b)) (\<lambda>ev.
          and_then (readTypescriptEslintPackageVersion (rw_json w) (rw_files w) (bi_repoRoot b)) (\<lambda>tv.
            case computeCoreLintRatchetRuleSourceHash sha r ev tv of
              None \<Rightarrow> Inl (''ratchet '' @ rc_id r @ '': expected core source'')
            | Some h \<Rightarrow> Inr (h, localHashesByPath))))"

fun rule_hashes_loop ::
    "hasher \<Rightarrow> rule_world \<Rightarrow> engine_binding \<Rightarrow> ratchet_config list \<Rightarrow> (string \<times> string) list \<Rightarrow>
     (string \<times> string) list \<Rightarrow> string + (string \<times> string) list" where
  "rule_hashes_loop sha w b [] localHashes hashes = Inr hashes"
| "rule_hashes_loop sha w b (r # rs) localHashes hashes =
     and_then (computeLintRatchetRuleSourceHash sha w r b localHashes) (\<lambda>(h, localHashes').
       rule_hashes_loop sha w b rs localHashes' (AList.update (rc_id r) h hashes))"

definition buildRuleSourceHashesById ::
    "hasher \<Rightarrow> rule_world \<Rightarrow> ratchet_config list \<Rightarrow> engine_binding \<Rightarrow> string + (string \<times> string) list" where
  "buildRuleSourceHashesById sha w ratchets b = rule_hashes_loop sha w b ratchets [] []"

end
