(* ===== verification/Operations.thy ===== *)
theory Operations
  imports RuleSource Scheduler UpdateApply BaselineCompare
begin

text \<open>
  \<open>governance/operations.ts\<close>: the gate and the update, from the rule sources and the collections of
  ESLint to the comparison and the two writes. The world that an operation runs in is data: the rule
  sources, the outcome of \<open>git ls-files\<close>, and the collections in the order in which they settle. A
  promise that has not settled when the collections end is \<open>None\<close>.
\<close>

section \<open>The world and the engine\<close>

datatype operation_error =
    OpMissingBaseline string
  | OpBaselineParse "string list" "string list"
  | OpConfig string
  | OpMissingHash string
  | OpCollect config_error
  | OpKernel kernel_error
  | OpCompare compare_error
  | OpUpdate update_error

record operation_engine =
  oe_context :: engine_context
  oe_binding :: engine_binding
  oe_registry :: "ratchet_config list"
  oe_collectConcurrency :: "int option"

record operation_world =
  ow_rules :: rule_world
  ow_trackedFailure :: "string option"
  ow_settlements :: "(nat \<times> (string + eslint_file_result list)) list"

section \<open>Collecting\<close>

definition collectRatchet :: "ratchet_config list \<Rightarrow> nat \<times> (string + eslint_file_result list) \<Rightarrow> sched_event" where
  "collectRatchet ratchets s = (case s of
       (i, Inl e) \<Rightarrow> Failed i e
     | (i, Inr results) \<Rightarrow>
         Fulfilled i \<lparr>cl_id = rc_id (ratchets ! i), cl_ratchet = ratchets ! i, cl_results = results\<rparr>)"

text \<open>A collection that is not in flight does not settle.\<close>

fun deliver :: "ratchet_config list \<Rightarrow> (string \<times> string) list \<Rightarrow> int \<Rightarrow> sched_event list \<Rightarrow> sched \<Rightarrow> sched" where
  "deliver ratchets hashes limit [] st = st"
| "deliver ratchets hashes limit (e # es) st =
     deliver ratchets hashes limit es
       (if event_index e \<in> set (sc_inflight st) then on_event ratchets hashes limit e st else st)"

definition collectRatchets ::
    "ratchet_config list \<Rightarrow> (string \<times> string) list \<Rightarrow> int \<Rightarrow> (nat \<times> (string + eslint_file_result list)) list \<Rightarrow>
     (operation_error + collection_result option list) option" where
  "collectRatchets ratchets hashes limit settlements =
     (case sc_outcome (deliver ratchets hashes limit (map (collectRatchet ratchets) settlements)
         (collect_start ratchets hashes limit)) of
        Pending \<Rightarrow> None
      | Resolved results \<Rightarrow> Some (Inr results)
      | RejectedMissingHash i \<Rightarrow> Some (Inl (OpMissingHash i))
      | RejectedBy e \<Rightarrow> Some (Inl (OpConfig e)))"

text \<open>\<open>await\<close> followed by the rest of the function.\<close>

definition await :: "('e + 'a) option \<Rightarrow> ('a \<Rightarrow> ('e + 'b) option) \<Rightarrow> ('e + 'b) option" where
  "await r k = (case r of None \<Rightarrow> None | Some (Inl e) \<Rightarrow> Some (Inl e) | Some (Inr v) \<Rightarrow> k v)"

definition collectCurrentById ::
    "hasher \<Rightarrow> operation_engine \<Rightarrow> operation_world \<Rightarrow> (string \<times> string) list \<Rightarrow> (operation_error + current_by_id) option" where
  "collectCurrentById sha engine w hashes =
     (case ow_trackedFailure w of
        Some e \<Rightarrow> Some (Inl (OpConfig e))
      | None \<Rightarrow>
          (let limit = collect_limit (oe_collectConcurrency engine) (length (oe_registry engine))
           in await (collectRatchets (oe_registry engine) hashes limit (ow_settlements w)) (\<lambda>results.
                Some (lift_error OpCollect (current_by_id_loop sha (bi_repoRoot (oe_binding engine)) results [])))))"

section \<open>The gate\<close>

record operation_gate =
  gr_comparison :: comparison
  gr_currentFindingCount :: int
  gr_baselineWarnings :: "string list"

definition parseCommittedBaseline ::
    "json_parser \<Rightarrow> string cmp \<Rightarrow> hasher \<Rightarrow> operation_engine \<Rightarrow> (string \<times> string) list \<Rightarrow> files \<Rightarrow>
     operation_error + ratchet_baseline \<times> string list" where
  "parseCommittedBaseline jp lc sha engine hashes fs =
     (let ctx = oe_context engine
      in case fs_baseline fs of
           None \<Rightarrow> Inl (OpMissingBaseline (ec_baselineName ctx))
         | Some txt \<Rightarrow>
             and_then (lift_error OpKernel (parseLintRatchetBaseline jp lc sha txt (oe_registry engine) hashes
                 (ec_workflowVocabulary ctx) default_version_policy (ec_baselineName ctx))) (\<lambda>parsed.
               case pb_baseline parsed of
                 None \<Rightarrow> Inl (OpBaselineParse (pb_failures parsed) (pb_warnings parsed))
               | Some b \<Rightarrow> Inr (b, pb_warnings parsed)))"

definition runLintRatchetGate ::
    "json_parser \<Rightarrow> string cmp \<Rightarrow> hasher \<Rightarrow> operation_engine \<Rightarrow> operation_world \<Rightarrow> files \<Rightarrow>
     (operation_error + operation_gate) option" where
  "runLintRatchetGate jp lc sha engine w fs =
     await (Some (lift_error OpConfig (buildRuleSourceHashesById sha (ow_rules w) (oe_registry engine) (oe_binding engine)))) (\<lambda>hashes.
     await (Some (parseCommittedBaseline jp lc sha engine hashes fs)) (\<lambda>(b, warnings).
     await (collectCurrentById sha engine w hashes) (\<lambda>currentById.
     Some (and_then (lift_error OpCompare (compareCurrentToBaseline lc b (oe_registry engine) currentById
         (ec_workflowVocabulary (oe_context engine)))) (\<lambda>cmp.
       Inr \<lparr>gr_comparison = cmp, gr_currentFindingCount = totalCurrentCount currentById, gr_baselineWarnings = warnings\<rparr>)))))"

section \<open>The update\<close>

record update_operation =
  op_result :: "operation_error + int \<times> bool"
  op_trace :: "files list"
  op_messages :: "string list"

definition generate_baseline ::
    "json_parser \<Rightarrow> string cmp \<Rightarrow> hasher \<Rightarrow> operation_engine \<Rightarrow> (string \<times> string) list \<Rightarrow> current_by_id \<Rightarrow>
     operation_error + ratchet_baseline \<times> string" where
  "generate_baseline jp lc sha engine hashes currentById =
     (let vocab = ec_workflowVocabulary (oe_context engine); ratchets = oe_registry engine
      in and_then (lift_error (OpKernel \<circ> BaselineFailure)
           (buildLintRatchetBaseline lc sha ratchets currentById hashes vocab default_version_policy)) (\<lambda>generated.
         and_then (lift_error (OpKernel \<circ> FormatFailure) (formatLintRatchetBaseline lc generated vocab)) (\<lambda>rendered.
         and_then (lift_error OpKernel (parseLintRatchetBaseline jp lc sha rendered ratchets hashes vocab
             default_version_policy (ec_baselineName (oe_context engine)))) (\<lambda>parsedGenerated.
           if pb_baseline parsedGenerated = None
           then Inl (OpConfig (''generated baseline failed validation:'' @ [CHR 0x0A]
                  @ js_join [CHR 0x0A] (pb_failures parsedGenerated)))
           else Inr (generated, rendered)))))"

definition apply_generated ::
    "write_deps \<Rightarrow> json_parser \<Rightarrow> string cmp \<Rightarrow> globber \<Rightarrow> (jsval \<Rightarrow> string list) \<Rightarrow> operation_engine \<Rightarrow> update_options \<Rightarrow>
     current_by_id \<Rightarrow> ratchet_baseline \<times> string \<Rightarrow> files \<Rightarrow> update_operation" where
  "apply_generated io jp lc glob issues engine opts currentById g fs =
     (let n = totalCurrentCount currentById;
          run = applyLintRatchetUpdate io jp lc glob issues \<lparr>ap_context = oe_context engine, ap_generated = fst g,
            ap_rendered = snd g, ap_registry = oe_registry engine, ap_options = opts, ap_currentFindingCount = n\<rparr> fs
      in \<lparr>op_result = (case ur_result run of Inl e \<Rightarrow> Inl (OpUpdate e) | Inr recordedDebt \<Rightarrow> Inr (n, recordedDebt)),
          op_trace = ur_trace run, op_messages = ur_messages run\<rparr>)"

definition runLintRatchetUpdate ::
    "write_deps \<Rightarrow> json_parser \<Rightarrow> string cmp \<Rightarrow> hasher \<Rightarrow> globber \<Rightarrow> (jsval \<Rightarrow> string list) \<Rightarrow> operation_engine \<Rightarrow> update_options \<Rightarrow>
     operation_world \<Rightarrow> files \<Rightarrow> update_operation option" where
  "runLintRatchetUpdate io jp lc sha glob issues engine opts w fs =
     map_option (\<lambda>r. case r of
         Inl e \<Rightarrow> \<lparr>op_result = Inl e, op_trace = [], op_messages = []\<rparr>
       | Inr run \<Rightarrow> run)
     (await (Some (lift_error OpConfig (buildRuleSourceHashesById sha (ow_rules w) (oe_registry engine) (oe_binding engine)))) (\<lambda>hashes.
      await (collectCurrentById sha engine w hashes) (\<lambda>currentById.
      Some (and_then (generate_baseline jp lc sha engine hashes currentById) (\<lambda>g.
        Inr (apply_generated io jp lc glob issues engine opts currentById g fs))))))"

text \<open>The files when the operation is over.\<close>

definition files_after :: "files \<Rightarrow> update_operation \<Rightarrow> files" where
  "files_after fs r = last (fs # op_trace r)"

end
