(* ===== verification/RuleSourceLaws.thy ===== *)
theory RuleSourceLaws
  imports RuleSource
begin

text \<open>
  The walk over a rule's sources returns exactly the files that are reachable from the rule, or fails
  because one of them cannot be used; and two worlds in which a rule has the same hash agree on
  everything the hash is meant to identify.
\<close>

section \<open>What can be reached\<close>

text \<open>The module specifiers of a file of the closure; \<open>None\<close> when it stops the walk.\<close>

definition specifiers_at :: "ts_parser \<Rightarrow> file_system \<Rightarrow> string \<Rightarrow> string list option" where
  "specifiers_at parse fs p = (case map_of fs p of
       Some (FsFile source) \<Rightarrow>
         (case javaScriptKindForPath p of
            None \<Rightarrow> Some []
          | Some kind \<Rightarrow> (case parse p source kind of
              Inl _ \<Rightarrow> None
            | Inr f \<Rightarrow> if list_ex loads_modules (tf_nodes f) then None else Some (staticModuleSpecifiers f)))
     | _ \<Rightarrow> None)"

definition has_specifier :: "ts_parser \<Rightarrow> file_system \<Rightarrow> string \<Rightarrow> string \<Rightarrow> bool" where
  "has_specifier parse fs p s \<longleftrightarrow> (case specifiers_at parse fs p of None \<Rightarrow> False | Some ss \<Rightarrow> s \<in> set ss)"

definition is_relative :: "string \<Rightarrow> bool" where
  "is_relative s \<longleftrightarrow> take 1 s = ''.''"

text \<open>The files of the rule: the entry, and what a file of the rule imports by a relative path.\<close>

inductive closure_reach :: "ts_parser \<Rightarrow> file_system \<Rightarrow> string \<Rightarrow> string \<Rightarrow> bool" for parse fs entry where
  entry: "closure_reach parse fs entry entry"
| imported: "closure_reach parse fs entry p \<Longrightarrow> has_specifier parse fs p s \<Longrightarrow> is_relative s \<Longrightarrow>
    resolveLocalRuleImport p s fs = Inr q \<Longrightarrow> closure_reach parse fs entry q"

text \<open>A file that stops the walk: missing, a directory, malformed, loading modules at run time, or
  importing a directory without an index.\<close>

definition unusable :: "ts_parser \<Rightarrow> file_system \<Rightarrow> string \<Rightarrow> bool" where
  "unusable parse fs p \<longleftrightarrow> specifiers_at parse fs p = None \<or>
     (\<exists>s e. has_specifier parse fs p s \<and> is_relative s \<and> resolveLocalRuleImport p s fs = Inl e)"

text \<open>The packages a file of the rule imports.\<close>

definition bare_root :: "ts_parser \<Rightarrow> file_system \<Rightarrow> string \<Rightarrow> string \<Rightarrow> bool" where
  "bare_root parse fs p r \<longleftrightarrow>
     (\<exists>s. has_specifier parse fs p s \<and> \<not> is_relative s \<and> bareSpecifierPackageRoot s = Some r)"

lemma enter_step:
  "closure_loop parse fs (Enter p # rest) files roots =
     (if map_of files p \<noteq> None then closure_loop parse fs rest files roots
      else case specifiers_at parse fs p of
             Some ss \<Rightarrow> (case map_of fs p of
                 Some (FsFile source) \<Rightarrow> closure_loop parse fs (map (Specifier p) ss @ rest) (files @ [(p, source)]) roots
               | _ \<Rightarrow> closure_loop parse fs (Enter p # rest) files roots)
           | None \<Rightarrow> closure_loop parse fs (Enter p # rest) files roots)"
  by (auto simp: closure_loop.simps specifiers_at_def fs_exists_def fs_readFile_def parseJavaScriptSource_def
      assertStaticModuleLoading_def split: option.splits fs_entry.splits sum.splits)

lemma enter_stops:
  "map_of files p = None \<Longrightarrow> specifiers_at parse fs p = None \<Longrightarrow> \<exists>e. closure_loop parse fs (Enter p # rest) files roots = Inl e"
  by (auto simp: closure_loop.simps specifiers_at_def fs_exists_def fs_readFile_def parseJavaScriptSource_def
      assertStaticModuleLoading_def split: option.splits fs_entry.splits sum.splits)

section \<open>The invariant of the walk\<close>

definition files_ok :: "ts_parser \<Rightarrow> file_system \<Rightarrow> string \<Rightarrow> (string \<times> string) list \<Rightarrow> bool" where
  "files_ok parse fs entry files \<longleftrightarrow> distinct (map fst files) \<and>
     (\<forall>(p, source) \<in> set files. map_of fs p = Some (FsFile source) \<and> closure_reach parse fs entry p \<and>
        specifiers_at parse fs p \<noteq> None)"

fun work_ok :: "ts_parser \<Rightarrow> file_system \<Rightarrow> string \<Rightarrow> closure_work \<Rightarrow> bool" where
  "work_ok parse fs entry (Enter p) \<longleftrightarrow> closure_reach parse fs entry p"
| "work_ok parse fs entry (Specifier p s) \<longleftrightarrow> closure_reach parse fs entry p \<and> has_specifier parse fs p s"

definition roots_ok :: "ts_parser \<Rightarrow> file_system \<Rightarrow> string \<Rightarrow> string list \<Rightarrow> bool" where
  "roots_ok parse fs entry roots \<longleftrightarrow> distinct roots \<and>
     (\<forall>r \<in> set roots. \<exists>p. closure_reach parse fs entry p \<and> bare_root parse fs p r)"

text \<open>A specifier of a file that was read is done, or still to be done.\<close>

definition covered :: "file_system \<Rightarrow> closure_work set \<Rightarrow> string set \<Rightarrow> string set \<Rightarrow> string \<Rightarrow> string \<Rightarrow> bool" where
  "covered fs work files roots p s \<longleftrightarrow> Specifier p s \<in> work \<or>
     (if is_relative s
      then \<exists>q. resolveLocalRuleImport p s fs = Inr q \<and> (q \<in> files \<or> Enter q \<in> work)
      else case bareSpecifierPackageRoot s of None \<Rightarrow> True | Some r \<Rightarrow> r \<in> roots)"

definition walk_inv ::
    "ts_parser \<Rightarrow> file_system \<Rightarrow> string \<Rightarrow> closure_work list \<Rightarrow> (string \<times> string) list \<Rightarrow> string list \<Rightarrow> bool" where
  "walk_inv parse fs entry work files roots \<longleftrightarrow>
     files_ok parse fs entry files \<and> list_all (work_ok parse fs entry) work \<and> roots_ok parse fs entry roots \<and>
     (entry \<in> fst ` set files \<or> Enter entry \<in> set work) \<and>
     (\<forall>p s. p \<in> fst ` set files \<longrightarrow> has_specifier parse fs p s \<longrightarrow>
        covered fs (set work) (fst ` set files) (set roots) p s)"

lemma inv_skip:
  assumes "walk_inv parse fs entry (Enter p # rest) files roots" and "map_of files p \<noteq> None"
  shows "walk_inv parse fs entry rest files roots"
proof -
  have "p \<in> fst ` set files" using assms(2) by (simp add: map_of_eq_None_iff)
  then have "covered fs (set rest) (fst ` set files) (set roots) x s"
    if "covered fs (set (Enter p # rest)) (fst ` set files) (set roots) x s" for x s
    using that by (auto simp: covered_def split: if_splits)
  with assms(1) \<open>p \<in> fst ` set files\<close> show ?thesis unfolding walk_inv_def by auto
qed

lemma inv_read:
  assumes "walk_inv parse fs entry (Enter p # rest) files roots" and "map_of files p = None"
    and "specifiers_at parse fs p = Some ss" and "map_of fs p = Some (FsFile source)"
  shows "walk_inv parse fs entry (map (Specifier p) ss @ rest) (files @ [(p, source)]) roots"
proof -
  have r: "closure_reach parse fs entry p" using assms(1) by (simp add: walk_inv_def)
  have "covered fs (set (map (Specifier p) ss @ rest)) (fst ` set (files @ [(p, source)])) (set roots) x s"
    if "x \<in> fst ` set (files @ [(p, source)])" "has_specifier parse fs x s" for x s
  proof (cases "x = p")
    case True
    then show ?thesis using that(2) assms(3) by (auto simp: covered_def has_specifier_def)
  next
    case False
    with that have "covered fs (set (Enter p # rest)) (fst ` set files) (set roots) x s"
      using assms(1) by (auto simp: walk_inv_def)
    with False show ?thesis by (auto simp: covered_def split: if_splits)
  qed
  moreover have "files_ok parse fs entry (files @ [(p, source)])"
    using assms r by (auto simp: walk_inv_def files_ok_def map_of_eq_None_iff)
  moreover have "list_all (work_ok parse fs entry) (map (Specifier p) ss @ rest)"
    using assms(1,3) r by (auto simp: walk_inv_def list_all_iff has_specifier_def)
  ultimately show ?thesis using assms(1) by (auto simp: walk_inv_def)
qed

lemma inv_bare:
  assumes "walk_inv parse fs entry (Specifier p s # rest) files roots" and "\<not> is_relative s"
  shows "walk_inv parse fs entry rest files
    (case bareSpecifierPackageRoot s of None \<Rightarrow> roots | Some r \<Rightarrow> List.insert r roots)"
proof -
  let ?roots = "case bareSpecifierPackageRoot s of None \<Rightarrow> roots | Some r \<Rightarrow> List.insert r roots"
  have w: "closure_reach parse fs entry p" "has_specifier parse fs p s" using assms(1) by (auto simp: walk_inv_def)
  have "roots_ok parse fs entry ?roots"
    using assms w by (auto simp: walk_inv_def roots_ok_def bare_root_def split: option.splits)
  moreover have "covered fs (set rest) (fst ` set files) (set ?roots) x t"
    if "covered fs (set (Specifier p s # rest)) (fst ` set files) (set roots) x t" for x t
    using that assms(2) by (auto simp: covered_def split: option.splits if_splits)
  ultimately show ?thesis using assms(1) by (simp add: walk_inv_def)
qed

lemma inv_relative:
  assumes "walk_inv parse fs entry (Specifier p s # rest) files roots" and "is_relative s"
    and "resolveLocalRuleImport p s fs = Inr q"
  shows "walk_inv parse fs entry (Enter q # rest) files roots"
proof -
  have w: "closure_reach parse fs entry p" "has_specifier parse fs p s" using assms(1) by (auto simp: walk_inv_def)
  have "covered fs (set (Enter q # rest)) (fst ` set files) (set roots) x t"
    if "covered fs (set (Specifier p s # rest)) (fst ` set files) (set roots) x t" for x t
    using that assms(2,3) by (auto simp: covered_def split: option.splits if_splits)
  moreover have "closure_reach parse fs entry q" by (rule closure_reach.imported[OF w assms(2,3)])
  ultimately show ?thesis using assms(1) by (auto simp: walk_inv_def)
qed

lemma closure_loop_inv:
  "walk_inv parse fs entry work files roots \<Longrightarrow>
     (case closure_loop parse fs work files roots of
        Inl _ \<Rightarrow> \<exists>p. closure_reach parse fs entry p \<and> unusable parse fs p
      | Inr (files', roots') \<Rightarrow> walk_inv parse fs entry [] files' roots')"
proof (induction parse fs work files roots rule: closure_loop.induct)
  case (1 parse fs files roots)
  then show ?case by (simp add: closure_loop.simps)
next
  case (2 parse fs path rest files roots)
  show ?case
  proof (cases "map_of files path = None")
    case False
    with 2 show ?thesis by (simp add: enter_step inv_skip)
  next
    case new: True
    show ?thesis
    proof (cases "specifiers_at parse fs path")
      case None
      then have "unusable parse fs path" by (simp add: unusable_def)
      moreover have "closure_reach parse fs entry path" using "2.prems" by (simp add: walk_inv_def)
      ultimately show ?thesis using enter_stops[OF new None, of rest roots] by auto
    next
      case (Some ss)
      then obtain source where source: "map_of fs path = Some (FsFile source)"
        by (auto simp: specifiers_at_def split: option.splits fs_entry.splits)
      have inv: "walk_inv parse fs entry (map (Specifier path) ss @ rest) (files @ [(path, source)]) roots"
        by (rule inv_read[OF "2.prems" new Some source])
      have ex: "fs_exists fs path" "fs_readFile fs path = Inr source" using source by (auto simp: fs_exists_def fs_readFile_def)
      show ?thesis
      proof (cases "javaScriptKindForPath path")
        case None
        then have "ss = []" using Some source by (simp add: specifiers_at_def)
        with "2.IH"(2)[OF _ _ ex(2) None] inv new ex Some source show ?thesis by (simp add: enter_step)
      next
        case (Some kind)
        then obtain f where f: "parseJavaScriptSource parse path source kind = Inr f"
            "assertStaticModuleLoading path f = None" "ss = staticModuleSpecifiers f"
          using \<open>specifiers_at parse fs path = Some ss\<close> source
          by (auto simp: specifiers_at_def parseJavaScriptSource_def assertStaticModuleLoading_def split: sum.splits if_splits)
        with "2.IH"(3)[OF _ _ ex(2) Some f(1,2)] inv new ex \<open>specifiers_at parse fs path = Some ss\<close> source
        show ?thesis by (simp add: enter_step)
      qed
    qed
  qed
next
  case (3 parse fs p s rest files roots)
  show ?case
  proof (cases "is_relative s")
    case False
    then show ?thesis using "3.IH"(1) inv_bare[OF "3.prems" False] by (simp add: closure_loop.simps is_relative_def)
  next
    case rel: True
    show ?thesis
    proof (cases "resolveLocalRuleImport p s fs")
      case (Inl e)
      have "closure_reach parse fs entry p \<and> unusable parse fs p"
        using "3.prems" rel Inl by (auto simp: walk_inv_def unusable_def)
      then show ?thesis using rel Inl by (auto simp: closure_loop.simps is_relative_def)
    next
      case (Inr q)
      then show ?thesis using "3.IH"(2)[OF _ Inr inv_relative[OF "3.prems" rel Inr]] rel by (simp add: closure_loop.simps is_relative_def)
    qed
  qed
qed

lemma walk_start: "walk_inv parse fs entry [Enter entry] [] []"
  by (simp add: walk_inv_def files_ok_def roots_ok_def closure_reach.entry)

lemma walk_end:
  assumes "walk_inv parse fs entry [] files roots"
  shows "set (map fst files) = {p. closure_reach parse fs entry p}"
    and "{p. closure_reach parse fs entry p \<and> unusable parse fs p} = {}"
    and "set roots = {r. \<exists>p. closure_reach parse fs entry p \<and> bare_root parse fs p r}"
proof -
  have all: "closure_reach parse fs entry p \<Longrightarrow> p \<in> fst ` set files" for p
  proof (induction rule: closure_reach.induct)
    case entry
    then show ?case using assms by (simp add: walk_inv_def)
  next
    case (imported p s q)
    then show ?case using assms by (fastforce simp: walk_inv_def covered_def)
  qed
  then show files: "set (map fst files) = {p. closure_reach parse fs entry p}"
    using assms by (auto simp: walk_inv_def files_ok_def)
  have cov: "covered fs {} (fst ` set files) (set roots) p s"
    if "closure_reach parse fs entry p" "has_specifier parse fs p s" for p s
    using all that assms by (simp add: walk_inv_def)
  have "specifiers_at parse fs p \<noteq> None" if "closure_reach parse fs entry p" for p
    using all[OF that] assms by (auto simp: walk_inv_def files_ok_def)
  with cov show "{p. closure_reach parse fs entry p \<and> unusable parse fs p} = {}"
    by (fastforce simp: unusable_def covered_def)
  show "set roots = {r. \<exists>p. closure_reach parse fs entry p \<and> bare_root parse fs p r}"
    using cov assms by (fastforce simp: walk_inv_def roots_ok_def bare_root_def covered_def)
qed

text \<open>
  A closure that was found holds its entry.
\<close>

lemma walk_found:
  assumes "collectLocalRuleSourceClosure parse fs entry = Inr (files, roots)"
  shows "walk_inv parse fs entry [] files roots"
  using closure_loop_inv[OF walk_start, of parse fs entry] assms by (simp add: collectLocalRuleSourceClosure_def)

lemma closure_nonempty:
  assumes "collectLocalRuleClosure parse fs entry = Inr c"
  shows "rl_sortedFiles c \<noteq> []"
proof -
  obtain files roots where f: "collectLocalRuleSourceClosure parse fs entry = Inr (files, roots)"
      "rl_sortedFiles c = key_sort codeUnitCompare files"
    using assms by (auto simp: collectLocalRuleClosure_def and_then_Inr)
  have "files \<noteq> []" using walk_found[OF f(1)] by (auto simp: walk_inv_def)
  then show ?thesis by (simp add: f(2))
qed

text \<open>
  The walk over a rule's sources ends on every file system, import cycles included. It fails exactly
  when a file of the rule cannot be used, and otherwise returns each file of the rule once, with the
  contents it has on disk, and each package the rule imports once.
\<close>

theorem rule_closure_exact:
  "case collectLocalRuleSourceClosure parse fs entry of
     Inl _ \<Rightarrow> \<exists>p. closure_reach parse fs entry p \<and> unusable parse fs p
   | Inr (files, roots) \<Rightarrow> {p. closure_reach parse fs entry p \<and> unusable parse fs p} = {} \<and>
       distinct (map fst files) \<and> set files = {(p, source). closure_reach parse fs entry p \<and> map_of fs p = Some (FsFile source)} \<and>
       distinct roots \<and> set roots = {r. \<exists>p. closure_reach parse fs entry p \<and> bare_root parse fs p r}"
proof -
  note run = closure_loop_inv[OF walk_start, of parse fs entry]
  show ?thesis
  proof (cases "collectLocalRuleSourceClosure parse fs entry")
    case (Inl e)
    with run show ?thesis by (simp add: collectLocalRuleSourceClosure_def)
  next
    case (Inr fr)
    obtain files roots where fr: "fr = (files, roots)" by (cases fr)
    have inv: "walk_inv parse fs entry [] files roots" using run Inr fr by (simp add: collectLocalRuleSourceClosure_def)
    have ok: "files_ok parse fs entry files" "roots_ok parse fs entry roots" using inv by (simp_all add: walk_inv_def)
    have "set files = {(p, source). closure_reach parse fs entry p \<and> map_of fs p = Some (FsFile source)}"
    proof (intro set_eqI iffI)
      fix x assume "x \<in> {(p, source). closure_reach parse fs entry p \<and> map_of fs p = Some (FsFile source)}"
      then obtain p source where x: "x = (p, source)" "closure_reach parse fs entry p" "map_of fs p = Some (FsFile source)" by auto
      then obtain s where "(p, s) \<in> set files" using walk_end(1)[OF inv] by force
      moreover from this ok(1) have "map_of fs p = Some (FsFile s)" by (auto simp: files_ok_def)
      ultimately show "x \<in> set files" using x by simp
    qed (use ok(1) in \<open>auto simp: files_ok_def\<close>)
    then show ?thesis using walk_end[OF inv] ok Inr fr by (simp add: files_ok_def roots_ok_def)
  qed
qed

section \<open>What a hash identifies\<close>

text \<open>What the closure hash is taken of: the only file, or every file under its relative path.\<close>

definition identified_files :: "string \<Rightarrow> (string \<times> string) list \<Rightarrow> (string \<times> string) list" where
  "identified_files root files = (case files of
       [f] \<Rightarrow> [([], snd f)]
     | _ \<Rightarrow> map (\<lambda>f. (slashes (posix_relative root (fst f)), snd f)) files)"

text \<open>Source text holds no NUL, which separates the parts of the hashed text.\<close>

definition nul_free :: "string \<Rightarrow> (string \<times> string) list \<Rightarrow> bool" where
  "nul_free root files \<longleftrightarrow>
     list_all (\<lambda>f. CHR 0x00 \<notin> set (slashes (posix_relative root (fst f))) \<and> CHR 0x00 \<notin> set (snd f)) files"

definition text_closure :: "rule_world \<Rightarrow> string \<Rightarrow> string \<Rightarrow> bool" where
  "text_closure w path root = (case collectLocalRuleClosure (rw_parse w) (rw_files w) path of
       Inl _ \<Rightarrow> True | Inr c \<Rightarrow> nul_free root (rl_sortedFiles c))"

lemma nul_cut: "d \<notin> set a \<Longrightarrow> d \<notin> set b \<Longrightarrow> a @ d # r = b @ d # s \<Longrightarrow> a = b \<and> r = s"
  by (induction a arbitrary: b) (auto simp: append_eq_Cons_conv Cons_eq_append_conv)

lemma hashed_files_inject:
  "nul_free root xs \<Longrightarrow> nul_free root ys \<Longrightarrow>
     concat (map (hashed_file root) xs) = concat (map (hashed_file root) ys) \<Longrightarrow>
     map (\<lambda>f. (slashes (posix_relative root (fst f)), snd f)) xs = map (\<lambda>f. (slashes (posix_relative root (fst f)), snd f)) ys"
proof (induction xs arbitrary: ys)
  case Nil
  then show ?case by (cases ys) (simp_all add: hashed_file_def)
next
  case (Cons x xs)
  then obtain y zs where ys: "ys = y # zs" by (cases ys) (simp_all add: hashed_file_def)
  let ?n = "\<lambda>f. slashes (posix_relative root (fst f))"
  have cut: "hashed_file root f @ r = ?n f @ CHR 0x00 # snd f @ CHR 0x00 # r" for f r by (simp add: hashed_file_def)
  have "?n x @ CHR 0x00 # snd x @ CHR 0x00 # concat (map (hashed_file root) xs) =
      ?n y @ CHR 0x00 # snd y @ CHR 0x00 # concat (map (hashed_file root) zs)"
    using Cons.prems(3) by (simp add: ys cut)
  moreover have "CHR 0x00 \<notin> set (?n x)" "CHR 0x00 \<notin> set (?n y)" "CHR 0x00 \<notin> set (snd x)" "CHR 0x00 \<notin> set (snd y)"
    using Cons.prems(1,2) by (simp_all add: ys nul_free_def)
  ultimately have "?n x = ?n y \<and> snd x = snd y \<and> concat (map (hashed_file root) xs) = concat (map (hashed_file root) zs)"
    using nul_cut by metis
  with Cons ys show ?case by (simp add: nul_free_def)
qed

lemma closure_hash_inject:
  assumes "inj sha" and "xs \<noteq> []" and "ys \<noteq> []" and "nul_free root xs" and "nul_free root ys"
    and "hashLocalRuleClosureFiles sha xs root = hashLocalRuleClosureFiles sha ys root"
  shows "identified_files root xs = identified_files root ys"
proof -
  let ?pre = "\<lambda>fs. case fs of [f] \<Rightarrow> snd f | _ \<Rightarrow> concat (map (hashed_file root) fs)"
  have eq: "?pre xs = ?pre ys" using assms(1,6) by (simp add: hashLocalRuleClosureFiles_def inj_eq)
  have nul: "CHR 0x00 \<in> set (?pre fs)" if "length fs \<ge> 2" for fs
    using that by (auto simp: hashed_file_def split: list.splits)
  have one: "CHR 0x00 \<notin> set (?pre fs)" if "length fs < 2" "nul_free root fs" for fs
    using that by (cases fs rule: remdups_adj.cases) (auto simp: nul_free_def)
  show ?thesis
  proof (cases "length xs < 2")
    case True
    then have "length ys < 2" using one[OF True assms(4)] nul[of ys] eq by fastforce
    with True assms(2,3) obtain f g where "xs = [f]" "ys = [g]"
      by (cases xs rule: remdups_adj.cases; cases ys rule: remdups_adj.cases) auto
    with eq show ?thesis by (simp add: identified_files_def)
  next
    case False
    then have "\<not> length ys < 2" using one[OF _ assms(5)] nul[of xs] eq by fastforce
    with False obtain a b c d e f where l: "xs = a # b # c" "ys = d # e # f"
      by (cases xs rule: remdups_adj.cases; cases ys rule: remdups_adj.cases) auto
    show ?thesis using hashed_files_inject[OF assms(4,5)] eq by (simp add: l identified_files_def)
  qed
qed

lemma identity_inject:
  assumes "stringify (local_identity_json i) = stringify (local_identity_json j)"
  shows "i = j"
proof -
  have "printable (local_identity_json k)" for k by (auto simp: local_identity_json_def list_all_iff)
  then have "local_identity_json i = local_identity_json j" using assms by (simp add: stringify_inject)
  moreover have "map (\<lambda>(p, v). JObj [(''package'', JStr p), (''version'', JStr v)]) xs = map (\<lambda>(p, v). JObj [(''package'', JStr p), (''version'', JStr v)]) ys
      \<Longrightarrow> xs = ys" for xs ys :: "(string \<times> string) list"
    by (induction xs arbitrary: ys) (auto simp: Cons_eq_map_conv)
  ultimately show ?thesis by (auto simp: local_identity_json_def)
qed

section \<open>The hashes of a registry\<close>

text \<open>The hash of one ratchet, without the cache.\<close>

definition rule_hash :: "hasher \<Rightarrow> rule_world \<Rightarrow> engine_binding \<Rightarrow> ratchet_config \<Rightarrow> string + string" where
  "rule_hash sha w b r = and_then (computeLintRatchetRuleSourceHash sha w r b []) (\<lambda>(h, _). Inr h)"

definition cache_ok :: "hasher \<Rightarrow> rule_world \<Rightarrow> engine_binding \<Rightarrow> (string \<times> string) list \<Rightarrow> bool" where
  "cache_ok sha w b cache \<longleftrightarrow> (\<forall>path h. map_of cache path = Some h \<longrightarrow>
     (\<exists>i. local_identity_of sha w path (bi_repoRoot b) = Inr i \<and> h = ''sha256:'' @ sha (stringify (local_identity_json i))))"

lemma cached_hash:
  assumes "cache_ok sha w b cache" and "computeLintRatchetRuleSourceHash sha w r b cache = Inr (h, cache')"
  shows "rule_hash sha w b r = Inr h \<and> cache_ok sha w b cache'"
proof (cases "ratchetSource r")
  case LocalSource
  then obtain path where path: "localRulePath r b = Inr path"
    using assms(2) by (auto simp: computeLintRatchetRuleSourceHash_def and_then_Inr)
  show ?thesis
  proof (cases "map_of cache path")
    case None
    then obtain h' where h: "computeLocalLintRatchetRuleSourceHash sha w r b = Inr h'" "h = h'" "cache' = AList.update path h' cache"
      using assms(2) LocalSource path by (auto simp: computeLintRatchetRuleSourceHash_def and_then_Inr)
    then have "\<exists>i. local_identity_of sha w path (bi_repoRoot b) = Inr i \<and> h = ''sha256:'' @ sha (stringify (local_identity_json i))"
      using path by (auto simp: computeLocalLintRatchetRuleSourceHash_def split: sum.splits)
    with assms(1) h LocalSource path show ?thesis
      by (auto simp: rule_hash_def computeLintRatchetRuleSourceHash_def cache_ok_def update_conv')
  next
    case (Some c)
    then obtain i where "local_identity_of sha w path (bi_repoRoot b) = Inr i" "c = ''sha256:'' @ sha (stringify (local_identity_json i))"
      using assms(1) by (auto simp: cache_ok_def simp del: map_of_eq_Some_iff)
    with assms Some LocalSource path show ?thesis
      by (simp add: rule_hash_def computeLintRatchetRuleSourceHash_def computeLocalLintRatchetRuleSourceHash_def del: map_of_eq_Some_iff)
  qed
next
  case (ThirdPartySource m)
  with assms show ?thesis by (auto simp: rule_hash_def computeLintRatchetRuleSourceHash_def and_then_Inr)
next
  case CoreSource
  with assms show ?thesis by (auto simp: rule_hash_def computeLintRatchetRuleSourceHash_def and_then_Inr split: option.splits)
qed

lemma hashes_loop:
  "rule_hashes_loop sha w b rs cache acc = Inr hashes \<Longrightarrow> cache_ok sha w b cache \<Longrightarrow> distinct (map rc_id rs) \<Longrightarrow>
     (\<forall>r \<in> set rs. \<exists>h. map_of hashes (rc_id r) = Some h \<and> rule_hash sha w b r = Inr h) \<and>
     (\<forall>k. k \<notin> rc_id ` set rs \<longrightarrow> map_of hashes k = map_of acc k)"
proof (induction rs arbitrary: cache acc)
  case (Cons r rs)
  then obtain h cache' where h: "computeLintRatchetRuleSourceHash sha w r b cache = Inr (h, cache')"
      "rule_hashes_loop sha w b rs cache' (AList.update (rc_id r) h acc) = Inr hashes"
    by (auto simp: and_then_Inr)
  note c = cached_hash[OF Cons.prems(2) h(1)]
  from Cons.IH[OF h(2)] c Cons.prems(3) show ?case by (auto simp: update_conv' simp del: map_of_eq_Some_iff)
qed simp

lemma hashes_exact:
  assumes "buildRuleSourceHashesById sha w rs b = Inr hashes" and "distinct (map rc_id rs)" and "r \<in> set rs"
  shows "\<exists>h. map_of hashes (rc_id r) = Some h \<and> rule_hash sha w b r = Inr h"
  using hashes_loop[OF assms(1)[unfolded buildRuleSourceHashesById_def] _ assms(2)] assms(3) by (simp add: cache_ok_def)

lemma local_hash_prefix:
  assumes "computeLocalLintRatchetRuleSourceHash sha w r b = Inr h"
  shows "\<exists>x. ''sha256:'' @ sha x = h"
proof -
  obtain path where "(case local_identity_of sha w path (bi_repoRoot b) of Inl m \<Rightarrow> Inl (''ratchet '' @ rc_id r @
        '': could not compute local rule source hash: '' @ m)
      | Inr i \<Rightarrow> Inr (''sha256:'' @ sha (stringify (local_identity_json i)))) = Inr h"
    using assms unfolding computeLocalLintRatchetRuleSourceHash_def and_then_Inr by blast
  then show ?thesis by (cases "local_identity_of sha w path (bi_repoRoot b)") auto
qed

lemma rule_hash_prefix: "rule_hash sha w b r = Inr h \<Longrightarrow> \<exists>x. ''sha256:'' @ sha x = h"
  by (cases "ratchetSource r")
    (auto simp: rule_hash_def computeLintRatchetRuleSourceHash_def third_party_hash_def
      computeCoreLintRatchetRuleSourceHash_def and_then_Inr dest: local_hash_prefix[simplified])

text \<open>
  When the hash of a ratchet's local rule is the same in two states of the repository, both have the
  same files of the rule under the same relative paths with the same contents, the same versions of
  ESLint and of its TypeScript parser, and the same packages in the same versions. So a change of any
  of these makes the committed hash stale. The digest is assumed to have no collisions.
\<close>

theorem rule_hash_detects_change:
  assumes "inj sha" and "ratchetSource r = LocalSource" and "r \<in> set rs" and "distinct (map rc_id rs)"
    and "buildRuleSourceHashesById sha w rs b = Inr hashes" and "buildRuleSourceHashesById sha w' rs b = Inr hashes'"
    and "map_of hashes (rc_id r) = map_of hashes' (rc_id r)"
    and "localRulePath r b = Inr path" and "text_closure w path (bi_repoRoot b)" and "text_closure w' path (bi_repoRoot b)"
  shows "\<exists>c c'. collectLocalRuleClosure (rw_parse w) (rw_files w) path = Inr c \<and>
    collectLocalRuleClosure (rw_parse w') (rw_files w') path = Inr c' \<and>
    identified_files (bi_repoRoot b) (rl_sortedFiles c) = identified_files (bi_repoRoot b) (rl_sortedFiles c') \<and>
    bare_versions (rw_json w) (rw_files w) (bi_repoRoot b) (rl_bareSpecifierRoots c) =
      bare_versions (rw_json w') (rw_files w') (bi_repoRoot b) (rl_bareSpecifierRoots c') \<and>
    readEslintPackageVersion (rw_json w) (rw_files w) (bi_repoRoot b) = readEslintPackageVersion (rw_json w') (rw_files w') (bi_repoRoot b) \<and>
    readTypescriptEslintPackageVersion (rw_json w) (rw_files w) (bi_repoRoot b) =
      readTypescriptEslintPackageVersion (rw_json w') (rw_files w') (bi_repoRoot b)"
proof -
  let ?root = "bi_repoRoot b"
  have ident: "\<exists>i. local_identity_of sha v path ?root = Inr i \<and> h = ''sha256:'' @ sha (stringify (local_identity_json i))"
    if "rule_hash sha v b r = Inr h" for v h
    using that assms(2,8)
    by (auto simp: rule_hash_def computeLintRatchetRuleSourceHash_def computeLocalLintRatchetRuleSourceHash_def and_then_Inr
        split: sum.splits)
  obtain h where h: "rule_hash sha w b r = Inr h" "rule_hash sha w' b r = Inr h"
    using hashes_exact[OF assms(5,4,3)] hashes_exact[OF assms(6,4,3)] assms(7) by auto
  obtain i j where ij: "local_identity_of sha w path ?root = Inr i" "h = ''sha256:'' @ sha (stringify (local_identity_json i))"
      "local_identity_of sha w' path ?root = Inr j" "h = ''sha256:'' @ sha (stringify (local_identity_json j))"
    using ident[OF h(1)] ident[OF h(2)] by blast
  then have "sha (stringify (local_identity_json i)) = sha (stringify (local_identity_json j))" by simp
  with assms(1) have "i = j" by (intro identity_inject) (simp add: inj_eq)
  with ij have i: "local_identity_of sha w path ?root = Inr i" "local_identity_of sha w' path ?root = Inr i" by simp_all
  obtain c c' where c: "collectLocalRuleClosure (rw_parse w) (rw_files w) path = Inr c"
      "collectLocalRuleClosure (rw_parse w') (rw_files w') path = Inr c'"
    using i by (auto simp: local_identity_of_def and_then_Inr)
  have "hashLocalRuleClosureFiles sha (rl_sortedFiles c) ?root = hashLocalRuleClosureFiles sha (rl_sortedFiles c') ?root"
    using i c by (auto simp: local_identity_of_def and_then_Inr)
  then have "identified_files ?root (rl_sortedFiles c) = identified_files ?root (rl_sortedFiles c')"
    using closure_hash_inject[OF assms(1) closure_nonempty[OF c(1)] closure_nonempty[OF c(2)]] assms(9,10) c
    by (simp add: text_closure_def)
  moreover obtain ev tv bs where v: "readEslintPackageVersion (rw_json w) (rw_files w) ?root = Inr ev"
      "readTypescriptEslintPackageVersion (rw_json w) (rw_files w) ?root = Inr tv"
      "bare_versions (rw_json w) (rw_files w) ?root (rl_bareSpecifierRoots c) = Inr bs"
      "i = \<lparr>li_closureHash = hashLocalRuleClosureFiles sha (rl_sortedFiles c) ?root, li_eslintVersion = ev,
         li_typescriptEslintVersion = tv, li_bareSpecifierVersions = bs\<rparr>"
    using i(1) c(1) by (auto simp: local_identity_of_def and_then_Inr)
  moreover have "readEslintPackageVersion (rw_json w') (rw_files w') ?root = Inr ev"
      "readTypescriptEslintPackageVersion (rw_json w') (rw_files w') ?root = Inr tv"
      "bare_versions (rw_json w') (rw_files w') ?root (rl_bareSpecifierRoots c') = Inr bs"
    using i(2) c(2) v(4) by (auto simp: local_identity_of_def and_then_Inr)
  ultimately show ?thesis using c by auto
qed

definition sample_parse :: ts_parser where
  "sample_parse path source kind = Inr \<lparr>tf_statements = (if path = ''/r/eslint-rules/a.js''
       then [TsImportDeclaration (TsStringLiteral ''./b.js''), TsImportDeclaration (TsStringLiteral ''esquery'')]
       else [TsExportDeclaration (Some (TsStringLiteral ''./a.js''))]), tf_nodes = []\<rparr>"

definition sample_world :: "file_system \<Rightarrow> rule_world" where
  "sample_world extra = \<lparr>rw_parse = sample_parse, rw_json = (\<lambda>s. Inr (JObj [(''version'', JStr s)])),
     rw_files = [(''/r/eslint-rules/a.js'', FsFile ''A''), (''/r/eslint-rules/b.js'', FsFile ''B''),
       (''/r/node_modules/eslint/package.json'', FsFile ''9''),
       (''/r/node_modules/typescript-eslint/package.json'', FsFile ''8''),
       (''/r/node_modules/esquery/package.json'', FsFile ''1'')] @ extra\<rparr>"

definition sample_binding :: engine_binding where
  "sample_binding = \<lparr>bi_repoRoot = ''/r'', bi_thirdPartyPluginAllowlist = [], bi_localRulesDirectory = None\<rparr>"

definition sample_local :: ratchet_config where
  "sample_local = sample_ratchet ''ratchet/a'' ''local/a'' MessageCount LocalSource"

lemma sample_rule_hashes:
  "buildRuleSourceHashesById id (sample_world []) [sample_local] sample_binding =
     buildRuleSourceHashesById id (sample_world [(''/r/z.js'', FsFile ''Z'')]) [sample_local] sample_binding \<and>
   (case buildRuleSourceHashesById id (sample_world []) [sample_local] sample_binding of Inl _ \<Rightarrow> False | Inr _ \<Rightarrow> True) \<and>
   localRulePath sample_local sample_binding = Inr ''/r/eslint-rules/a.js'' \<and> ratchetSource sample_local = LocalSource \<and>
   list_all (\<lambda>m. text_closure (sample_world m) ''/r/eslint-rules/a.js'' ''/r'' \<and>
     (case collectLocalRuleClosure sample_parse (rw_files (sample_world m)) ''/r/eslint-rules/a.js'' of Inl _ \<Rightarrow> False
      | Inr c \<Rightarrow> identified_files ''/r'' (rl_sortedFiles c) = [(''eslint-rules/a.js'', ''A''), (''eslint-rules/b.js'', ''B'')] \<and>
          rl_bareSpecifierRoots c = [''esquery''])) [[], [(''/r/z.js'', FsFile ''Z'')]]"
  by code_simp

theorem rule_hash_detects_change_witness:
  "\<exists>c. collectLocalRuleClosure sample_parse (rw_files (sample_world [(''/r/z.js'', FsFile ''Z'')])) ''/r/eslint-rules/a.js'' = Inr c \<and>
     identified_files ''/r'' (rl_sortedFiles c) = [(''eslint-rules/a.js'', ''A''), (''eslint-rules/b.js'', ''B'')]"
proof -
  let ?w = "sample_world []" and ?w' = "sample_world [(''/r/z.js'', FsFile ''Z'')]"
  note facts = sample_rule_hashes
  obtain hashes where h: "buildRuleSourceHashesById id ?w [sample_local] sample_binding = Inr hashes"
      "buildRuleSourceHashesById id ?w' [sample_local] sample_binding = Inr hashes"
    using facts by (auto split: sum.splits)
  have root: "bi_repoRoot sample_binding = ''/r''" by (simp add: sample_binding_def)
  have p: "rw_parse (sample_world m) = sample_parse" for m by (simp add: sample_world_def)
  obtain c c' where c: "collectLocalRuleClosure sample_parse (rw_files ?w) ''/r/eslint-rules/a.js'' = Inr c"
      "collectLocalRuleClosure sample_parse (rw_files ?w') ''/r/eslint-rules/a.js'' = Inr c'"
      "identified_files ''/r'' (rl_sortedFiles c) = identified_files ''/r'' (rl_sortedFiles c')"
    using rule_hash_detects_change[of id sample_local "[sample_local]" ?w sample_binding hashes ?w' hashes "''/r/eslint-rules/a.js''"]
      facts h by (auto simp: root p)
  with facts show ?thesis by (auto split: sum.splits)
qed

end
