(* ===== verification/OperationsLaws.thy ===== *)
theory OperationsLaws
  imports Operations SchedulerLaws CollectorLaws CompareLaws RoundTrip RuleSourceLaws UpdateAccounting
begin

text \<open>
  The operations end to end: what an update writes is read back as it was generated, the gate is
  silent on the findings the update was made from, and the accounting check accepts the change.
\<close>

section \<open>What is collected\<close>

lemma deliver_run:
  "sched_run ratchets hashes limit es st \<Longrightarrow>
     \<exists>es'. set es' \<subseteq> set es \<union> set fs \<and> sched_run ratchets hashes limit es' (deliver ratchets hashes limit fs st)"
proof (induction fs arbitrary: es st)
  case Nil
  then show ?case by auto
next
  case (Cons f fs)
  show ?case
  proof (cases "event_index f \<in> set (sc_inflight st)")
    case True
    then have "sched_run ratchets hashes limit (es @ [f]) (on_event ratchets hashes limit f st)"
      using Cons.prems by (blast intro: sched_run.next_event sched_step.settles)
    from Cons.IH[OF this] True show ?thesis by auto
  next
    case False
    with Cons.IH[OF Cons.prems] show ?thesis by auto
  qed
qed

lemma collected_results:
  assumes "collectRatchets ratchets hashes limit settlements = Some (Inr results)"
  shows "results_of ratchets results"
proof -
  let ?st = "deliver ratchets hashes limit (map (collectRatchet ratchets) settlements) (collect_start ratchets hashes limit)"
  have out: "sc_outcome ?st = Resolved results"
    using assms by (auto simp: collectRatchets_def split: settlement.splits)
  obtain es where es: "set es \<subseteq> set (map (collectRatchet ratchets) settlements)" "sched_run ratchets hashes limit es ?st"
    using deliver_run[OF sched_run.begin_run] by (metis empty_set sup_bot_left)
  note r = resolved_results[OF es(2) out]
  have "case c of None \<Rightarrow> True | Some r \<Rightarrow> cl_ratchet r \<in> set ratchets \<and> cl_id r = rc_id (cl_ratchet r)"
    if c: "c \<in> set results" for c
  proof -
    obtain i where i: "i < length ratchets" "c = results ! i" using c r by (auto simp: in_set_conv_nth)
    then obtain x where x: "c = Some x" "Fulfilled i x \<in> set es" using r by auto
    then have "Fulfilled i x \<in> collectRatchet ratchets ` set settlements" using es(1) by auto
    then have "cl_ratchet x = ratchets ! i \<and> cl_id x = rc_id (ratchets ! i)"
      by (auto simp: collectRatchet_def split: prod.splits sum.splits)
    with i(1) x(1) show ?thesis by simp
  qed
  then show ?thesis by (simp add: results_of_def list_all_iff)
qed

lemma collected_current:
  assumes "collectCurrentById sha engine w hashes = Some (Inr cur)" and "distinct (map rc_id (oe_registry engine))"
  shows "collected_for (oe_registry engine) cur"
proof -
  obtain results where r: "collectRatchets (oe_registry engine) hashes
      (collect_limit (oe_collectConcurrency engine) (length (oe_registry engine))) (ow_settlements w) = Some (Inr results)"
    "current_by_id_loop sha (bi_repoRoot (oe_binding engine)) results [] = Inr cur"
    using assms(1) by (auto simp: collectCurrentById_def await_def Let_def lift_error_def split: option.splits sum.splits)
  show ?thesis
    by (rule current_collected[OF assms(2) collected_results[OF r(1)] r(2)]) (simp add: collected_for_def)
qed

section \<open>Formatting changes no verdict\<close>

lemma complexities_descend:
  "sorted (map (\<lambda>f. - cf_complexity f) (js_sort (compareComplexityFunction lc) fs))"
proof (induction fs)
  case (Cons f fs)
  have "sorted (map (\<lambda>f. - cf_complexity f) (js_insert (compareComplexityFunction lc) f xs))"
    if "sorted (map (\<lambda>f. - cf_complexity f) xs)" for xs
    using that
  proof (induction xs)
    case (Cons x xs)
    have "set (js_insert (compareComplexityFunction lc) f xs) = insert f (set xs)"
      by (metis mset_js_insert set_mset_add_mset_insert set_mset_mset)
    moreover have "compareComplexityFunction lc f x \<le> 0 \<Longrightarrow> cf_complexity x \<le> cf_complexity f"
      and "\<not> compareComplexityFunction lc f x \<le> 0 \<Longrightarrow> cf_complexity f \<le> cf_complexity x"
      by (auto simp: compareComplexityFunction_def Let_def split: if_splits)
    ultimately show ?case using Cons by auto
  qed simp
  with Cons show ?case by simp
qed simp

lemma sorted_complexities_eq:
  assumes "mset xs = mset ys"
  shows "map cf_complexity (js_sort (compareComplexityFunction lc) xs) = map cf_complexity (js_sort (compareComplexityFunction lc) ys)"
proof -
  let ?neg = "\<lambda>f. - cf_complexity f"
  have "mset (map ?neg (js_sort (compareComplexityFunction lc) xs)) = mset (map ?neg (js_sort (compareComplexityFunction lc) ys))"
    using assms by (simp only: mset_map mset_js_sort)
  then have "map ?neg (js_sort (compareComplexityFunction lc) xs) = map ?neg (js_sort (compareComplexityFunction lc) ys)"
    using complexities_descend by (metis properties_for_sort sorted_sort_id)
  then have "map (uminus \<circ> ?neg) (js_sort (compareComplexityFunction lc) xs) = map (uminus \<circ> ?neg) (js_sort (compareComplexityFunction lc) ys)"
    by (metis map_map)
  then show ?thesis by (simp add: comp_def)
qed

lemma vector_loop_same: "map cf_complexity ps = map cf_complexity es \<Longrightarrow> vector_loop ps es r = None"
  by (induction ps es r rule: vector_loop.induct) (auto simp: moved_def)

lemma complexityDelta_permuted:
  assumes "mset fs = mset gs" and "distinct (map complexityIdentity gs)"
    and "mi_perFunction b = Some fs" and "mi_perFunction c = Some gs"
  shows "complexityDelta lc (Some b) c = None"
proof -
  have "distinct (map complexityIdentity fs)"
    using assms(1,2) by (metis mset_map mset_eq_imp_distinct_iff)
  moreover have "set fs = set gs" using assms(1) by (metis set_mset_mset)
  ultimately have "exactComplexityDelta fs gs r = None" for r
    by (auto simp: exactComplexityDelta_def exact_loop_None unique_lookup moved_def)
  moreover have "vectorComplexityDelta lc fs gs r = None" for r
    using sorted_complexities_eq[OF assms(1)] by (simp add: vectorComplexityDelta_def vector_loop_same)
  ultimately show ?thesis using assms(3,4) by (simp add: complexityDelta_def or_else_def)
qed

text \<open>An item against its own committed form.\<close>

lemma formatted_item_silent:
  assumes "ic_baselineItem c = Some (formatItem lc m (ic_current c))" and "rc_metric (ic_ratchet c) = m"
    and "collected_shape m (ic_current c)" and "distinct_functions (ic_current c)"
  shows "compareItem lc m c = no_change"
proof -
  let ?i = "ic_current c"
  have b: "baseline_count c = mi_count ?i"
    using assms(1) by (cases m) (simp_all add: baseline_count_def formatItem.simps count_item_def Let_def split: option.splits)
  then have n: "countComparison c p q = None" for p q
    by (simp add: countComparison_None)
  show ?thesis
  proof (cases m)
    case MessageCount
    then have "equalCountMessageSwapInfo c = None"
      using assms(1) by (auto simp: equalCountMessageSwapInfo_def formatItem.simps count_item_def split: option.splits)
    with MessageCount n show ?thesis by (simp add: compareMessageCountItem_def no_change_def)
  next
    case EffectiveLineCount
    with n assms(1) show ?thesis
      by (auto simp: compareEffectiveLineCountItem_def increasedLinesComparison_def lowerLinesComparison_def formatItem.simps
          count_item_def Let_def split: option.splits)
  next
    case ComplexitySeverity
    then obtain fs where "mi_perFunction ?i = Some fs" "int (length fs) = mi_count ?i" "0 < mi_count ?i"
      using assms(3) by (auto split: option.splits)
    then have fs: "mi_perFunction ?i = Some fs" "fs \<noteq> []" by auto
    then have "mi_perFunction (formatItem lc m ?i) = Some (js_sort (compareComplexityFunction lc) fs)"
      using ComplexitySeverity by (simp add: formatItem.simps sortedComplexityFunctions_def Let_def maxComplexityFor_Max)
    then have "complexityDelta lc (ic_baselineItem c) ?i = None"
      using complexityDelta_permuted[OF mset_js_sort _ _ fs(1)] assms(1,4) fs by (simp add: distinct_functions_def)
    with ComplexitySeverity n show ?thesis
      by (simp add: compareComplexitySeverityItem_def increasedComplexityComparison_def lowerComplexityComparison_def Let_def)
  qed
qed

lemma silent_comparison:
  assumes "\<And>k p. verdict_at lc b ratchets cur k p = no_change"
  shows "compareCurrentToBaseline lc b ratchets cur vocab = Inr no_deltas"
proof -
  define inp where "inp = comparisonInput b ratchets cur"
  define spec where "spec = lintRatchetBaselineSpec lc default_version_policy vocab DEFAULT_BASELINE_FILENAME"
  define ms where "ms = all_movements spec (ki_baseline inp) (ki_current inp)"
  have "visit_item lc (registered ratchets) cur m = Inr no_change" if m: "m \<in> set ms" for m
  proof -
    obtain k p where "m = movement k (map_of (gb_groups (ki_baseline inp)) k) (map_of (gb_groups (ki_current inp)) k) p"
        "compared_ratchet b ratchets k \<noteq> None"
      using m unfolding ms_def inp_def visited_iff by blast
    then show ?thesis using visit_item_verdict[of b ratchets k lc cur p] assms by (simp add: inp_def)
  qed
  then have "visit_all lc (registered ratchets) cur ms no_deltas = Inr (fold (\<lambda>m. recordComparedItem no_change) ms no_deltas)"
    by (rule visit_all_Inr)
  moreover have "fold (\<lambda>m. recordComparedItem no_change) ms no_deltas = no_deltas"
    by (rule fold_invariant[where P = "\<lambda>d. d = no_deltas" and Q = "\<lambda>_. True"])
       (auto simp: recordComparedItem_def no_change_def no_deltas_def)
  ultimately show ?thesis
    by (simp add: compareCurrentToBaseline_def Let_def flip: inp_def spec_def ms_def)
       (simp add: inp_def no_deltas_def sort_deltas_def)
qed

section \<open>What is generated is what is read back\<close>

text \<open>Numbers within the exact range of doubles, paths as git prints them, fingerprints of the digest.\<close>

definition storable_current :: "current_by_id \<Rightarrow> bool" where
  "storable_current cur \<longleftrightarrow>
     list_all (\<lambda>(_, items). list_all (\<lambda>(p, i). isNormalizedLintRatchetPath p \<and> storable_item (item_of_current i)) items) cur"

definition storable_registry :: "(string \<Rightarrow> jsval) \<Rightarrow> ratchet_config list \<Rightarrow> bool" where
  "storable_registry dc ratchets \<longleftrightarrow>
     list_all (\<lambda>r. is_baseline_rule_id (rc_ruleId r) \<and> list_all (parseable dc) (rc_ruleOptions r)) ratchets"

definition hex_digest :: "hasher \<Rightarrow> bool" where
  "hex_digest sha \<longleftrightarrow> (\<forall>x. length (sha x) = 64 \<and> list_all is_hex (sha x))"

lemma digest_sha256: "hex_digest sha \<Longrightarrow> is_sha256 (''sha256:'' @ sha x)"
  by (simp add: hex_digest_def is_sha256_def strip_prefix_def)

definition generated_test :: "string cmp \<Rightarrow> hasher \<Rightarrow> current_by_id \<Rightarrow> (string \<times> string) list \<Rightarrow> ratchet_config \<Rightarrow> baseline_test" where
  "generated_test lc sha cur hashes r =
     baselineTestFromConfig lc sha r (map_of cur (rc_id r)) (the (map_of hashes (rc_id r)))"

lemma build_tests_list:
  "build_tests lc sha rs cur hashes acc = Inr tests \<Longrightarrow> distinct (map fst acc @ map rc_id rs) \<Longrightarrow>
     tests = acc @ map (\<lambda>r. (rc_id r, generated_test lc sha cur hashes r)) rs"
proof (induction rs arbitrary: acc)
  case (Cons r rs)
  then obtain h where h: "map_of hashes (rc_id r) = Some h" "build_tests lc sha rs cur hashes
      (AList.update (rc_id r) (baselineTestFromConfig lc sha r (map_of cur (rc_id r)) h) acc) = Inr tests"
    by (auto split: option.splits)
  have new: "rc_id r \<notin> fst ` set acc" using Cons.prems(2) by simp
  show ?case
    using Cons.IH[OF h(2)] Cons.prems(2) h(1) by (simp add: update_new_key[OF new] generated_test_def)
qed simp

lemma built_tests:
  assumes "buildLintRatchetBaseline lc sha ratchets cur hashes vocab default_version_policy = Inr g" and "distinct (map rc_id ratchets)"
  shows "g = \<lparr>bl_version = 2, bl_regenerate = Some (JStr (wv_updateCommand vocab)),
    bl_tests = map (\<lambda>r. (rc_id r, generated_test lc sha cur hashes r)) ratchets\<rparr>"
proof -
  obtain tests where t: "build_tests lc sha ratchets cur hashes [] = Inr tests"
    using assms(1) by (auto simp: buildLintRatchetBaseline_def split: sum.splits)
  show ?thesis
    using assms build_tests_list[OF t] t
    by (simp add: buildLintRatchetBaseline_def default_version_policy_def createLintRatchetBaselineVersionPolicy_def
        lintRatchetBaselineRegenerateForVersion_def)
qed

lemma item_of_current_sel [simp]:
  "mi_count (item_of_current i) = mi_count i" "mi_lines (item_of_current i) = mi_lines i"
  "mi_maxComplexity (item_of_current i) = mi_maxComplexity i" "mi_perFunction (item_of_current i) = mi_perFunction i"
  "mi_messagesFingerprint (item_of_current i) = mi_messagesFingerprint i"
  by (simp_all add: item_of_current_def metric_item.defs)

lemma formatItem_of_current: "formatItem lc m (item_of_current i) = formatItem lc m i"
  by (cases m) (simp_all add: formatItem.simps sortedComplexityFunctions_def Let_def split: option.split)

lemma formatItem_idem:
  assumes "comparator lc" and "collected_shape m i"
  shows "formatItem lc m (formatItem lc m i) = formatItem lc m i"
proof (cases m)
  case ComplexitySeverity
  have "js_sort (compareComplexityFunction lc) (js_sort (compareComplexityFunction lc) fs) = js_sort (compareComplexityFunction lc) fs" for fs
    by (rule comparator.js_sort_idem[OF complexity_comparator[OF assms(1)]])
  then show ?thesis
    using ComplexitySeverity by (auto simp: formatItem.simps sortedComplexityFunctions_def count_item_def Let_def split: option.splits)
qed (simp_all add: formatItem.simps count_item_def split: option.splits)

text \<open>The items of a generated test.\<close>

lemma generated_items:
  assumes "collected_for ratchets cur" and "r \<in> set ratchets"
    and "(p, i) \<in> set (bt_items (generated_test lc sha cur hashes r))"
  obtains j where "collected_item cur (rc_id r) p = Some j" "i = formatItem lc (rc_metric r) j" "collected_shape (rc_metric r) j"
proof -
  obtain items where items: "map_of cur (rc_id r) = Some items" "(p, i) \<in> set (positiveMetricItems lc (rc_metric r) (Some items))"
    using assms(3) by (cases "map_of cur (rc_id r)") (auto simp: generated_test_def baselineTestFromConfig_def positiveMetricItems_def)
  then have c: "collected_items (rc_metric r) items" using assms(1,2) by (auto simp: collected_for_def)
  obtain j where j: "i = formatItem lc (rc_metric r) j" "(p, j) \<in> set items"
    using items(2) by (auto simp: positiveMetricItems_def)
  have "map_of items p = Some j" using c j(2) by (simp add: collected_items_def)
  then show thesis using that c j(1) items(1) by (auto simp: collected_item_def collected_items_def)
qed

lemma generated_lookup:
  assumes "collected_for ratchets cur" and "r \<in> set ratchets"
  shows "map_of (bt_items (generated_test lc sha cur hashes r)) p = map_option (formatItem lc (rc_metric r)) (collected_item cur (rc_id r) p)"
proof (cases "map_of cur (rc_id r)")
  case None
  then show ?thesis by (simp add: generated_test_def baselineTestFromConfig_def positiveMetricItems_def collected_item_def)
next
  case (Some items)
  then have c: "collected_items (rc_metric r) items" using assms by (auto simp: collected_for_def)
  have d: "distinct (map fst items)" using c by (simp add: collected_items_def)
  have pos: "filter (\<lambda>(_, i). mi_count i > 0) (key_sort compareByCodepoint items) = key_sort compareByCodepoint items"
  proof (rule filter_True, clarsimp)
    fix q j assume "(q, j) \<in> set items"
    then have "collected_shape (rc_metric r) j" using c d by (auto simp: collected_items_def)
    then show "mi_count j > 0" by (cases "rc_metric r") auto
  qed
  show ?thesis
    using Some d by (simp add: generated_test_def baselineTestFromConfig_def positiveMetricItems_def collected_item_def pos map_of_map_values)
qed

lemma format_any_file:
  "formatGroupedBaseline (lintRatchetBaselineSpec lc policy vocab bf) b = formatGroupedBaseline (lintRatchetBaselineSpec lc policy vocab bf') b"
proof -
  have "formattedGroupedTest (lintRatchetBaselineSpec lc policy vocab bf) k g =
      formattedGroupedTest (lintRatchetBaselineSpec lc policy vocab bf') k g" for k g
    by (simp add: formattedGroupedTest_def sortedGroupedItems_def lintRatchetBaselineSpec_def)
  then have "formatTestsDocument (lintRatchetBaselineSpec lc policy vocab bf) b = formatTestsDocument (lintRatchetBaselineSpec lc policy vocab bf') b"
    unfolding formatTestsDocument_def by (simp add: lintRatchetBaselineSpec_def)
  then show ?thesis by (simp add: formatGroupedBaseline_def)
qed

text \<open>A generated baseline, and what it was generated from.\<close>

definition generation ::
    "string cmp \<Rightarrow> hasher \<Rightarrow> (string \<Rightarrow> jsval) \<Rightarrow> ratchet_config list \<Rightarrow> registry_options \<Rightarrow> current_by_id \<Rightarrow>
     (string \<times> string) list \<Rightarrow> workflow_vocabulary \<Rightarrow> ratchet_baseline \<Rightarrow> bool" where
  "generation lc sha dc ratchets opts cur hashes vocab g \<longleftrightarrow>
     comparator lc \<and> hex_digest sha \<and> validateLintRatchetRegistry ratchets opts = [] \<and> storable_registry dc ratchets \<and>
     collected_for ratchets cur \<and> storable_current cur \<and>
     (\<forall>r \<in> set ratchets. is_sha256 (the (map_of hashes (rc_id r)))) \<and>
     buildLintRatchetBaseline lc sha ratchets cur hashes vocab default_version_policy = Inr g"

lemma generationD:
  assumes "generation lc sha dc ratchets opts cur hashes vocab g"
  shows gen_order: "comparator lc" and gen_digest: "hex_digest sha" and gen_registry: "validateLintRatchetRegistry ratchets opts = []"
    and gen_registered_data: "storable_registry dc ratchets" and gen_collected: "collected_for ratchets cur"
    and gen_collected_data: "storable_current cur" and gen_built: "buildLintRatchetBaseline lc sha ratchets cur hashes vocab default_version_policy = Inr g"
    and gen_hashed: "\<And>r. r \<in> set ratchets \<Longrightarrow> is_sha256 (the (map_of hashes (rc_id r)))"
  using assms by (simp_all add: generation_def)

lemma gen_ids:
  assumes gen: "generation lc sha dc ratchets opts cur hashes vocab g"
  shows "isSortedUnique (map rc_id ratchets)" "distinct (map rc_id ratchets)"
    and gen_entry: "\<And>r. r \<in> set ratchets \<Longrightarrow> wellformed_ratchet r"
  using accepted_parts[OF gen_registry[OF gen]] accepted_entry isSortedUnique_distinct by metis+

lemma gen_g_eq:
  assumes gen: "generation lc sha dc ratchets opts cur hashes vocab g"
  shows "g = \<lparr>bl_version = 2, bl_regenerate = Some (JStr (wv_updateCommand vocab)),
    bl_tests = map (\<lambda>r. (rc_id r, generated_test lc sha cur hashes r)) ratchets\<rparr>"
  by (rule built_tests[OF gen_built[OF gen] gen_ids(2)[OF gen]])

lemma item_stored:
  assumes gen: "generation lc sha dc ratchets opts cur hashes vocab g" and asm: "r \<in> set ratchets" "(p, i) \<in> set (bt_items (generated_test lc sha cur hashes r))"
  shows "mi_count i > 0 \<and> isNormalizedLintRatchetPath p \<and> storable_item i \<and> formatItem lc (rc_metric r) i = i"
proof -
  obtain j where j: "collected_item cur (rc_id r) p = Some j" "i = formatItem lc (rc_metric r) j" "collected_shape (rc_metric r) j"
    by (rule generated_items[OF gen_collected[OF gen] asm])
  then obtain items where "(rc_id r, items) \<in> set cur" "(p, j) \<in> set items"
    by (auto simp: collected_item_def split: bind_splits dest!: map_of_SomeD)
  then have "isNormalizedLintRatchetPath p \<and> storable_item (item_of_current j)"
    using gen_collected_data[OF gen] by (fastforce simp: storable_current_def list_all_iff)
  moreover have "mi_count i = mi_count j"
    unfolding j(2) by (cases "rc_metric r") (simp_all add: formatItem.simps count_item_def Let_def split: option.split)
  moreover have "mi_count j > 0" using j(3) by (cases "rc_metric r") auto
  ultimately show ?thesis
    using format_storable[of "item_of_current j" lc "rc_metric r"] formatItem_idem[OF gen_order[OF gen] j(3)] by (simp add: j(2) formatItem_of_current)
qed

lemma test_meta_normal:
  "normal_meta (test_meta (generated_test lc sha cur hashes r)) = test_meta (generated_test lc sha cur hashes r)"
  by (simp add: normal_meta_def test_meta_def generated_test_def baselineTestFromConfig_def group_meta.defs normalizeStringList_idem
      normalizeRuleOptions_def normalize_eq_canonical canonical_idem)

lemma meta_stored:
  assumes gen: "generation lc sha dc ratchets opts cur hashes vocab g" and asm: "r \<in> set ratchets"
  shows "storable_meta dc (test_meta (generated_test lc sha cur hashes r))"
proof -
  have "list_all (parseable dc) (rc_ruleOptions r) \<and> is_baseline_rule_id (rc_ruleId r)"
    using gen_registered_data[OF gen] asm by (simp add: storable_registry_def list_all_iff)
  then show ?thesis
    using gen_hashed[OF gen asm] digest_sha256[OF gen_digest[OF gen]]
    by (auto simp: storable_meta_def test_meta_def generated_test_def baselineTestFromConfig_def group_meta.defs
        computeLintRatchetConfigHash_def normalizeRuleOptions_def normalize_eq_canonical list_all_iff intro: parseable_canonical)
qed

lemma gen_positive:
  assumes gen: "generation lc sha dc ratchets opts cur hashes vocab g" and asm: "r \<in> set ratchets"
  shows "positiveItemMap (bt_items (generated_test lc sha cur hashes r)) = bt_items (generated_test lc sha cur hashes r)"
  unfolding positiveItemMap_def by (rule filter_True) (use item_stored[OF gen asm] in auto)

lemma test_distinct:
  assumes gen: "generation lc sha dc ratchets opts cur hashes vocab g" and asm: "r \<in> set ratchets"
  shows "distinct (map fst (bt_items (generated_test lc sha cur hashes r)))"
  using asm test_stored[OF gen_collected[OF gen], of r lc sha "the (map_of hashes (rc_id r))"]
  by (auto simp: stored_test_def generated_test_def)

lemma gen_grouped:
  assumes gen: "generation lc sha dc ratchets opts cur hashes vocab g"
  shows "gb_groups (lintRatchetBaselineToGrouped g) =
    map (\<lambda>r. (rc_id r, \<lparr>grp_meta = test_meta (generated_test lc sha cur hashes r), grp_items = bt_items (generated_test lc sha cur hashes r)\<rparr>)) ratchets"
  by (simp add: lintRatchetBaselineToGrouped_def gen_g_eq[OF gen] gen_positive[OF gen])

lemma storable_generated:
  assumes gen: "generation lc sha dc ratchets opts cur hashes vocab g"
  shows "storable dc default_version_policy (lintRatchetBaselineToGrouped g)"
proof -
  have "storable_group dc (rc_id r, \<lparr>grp_meta = test_meta (generated_test lc sha cur hashes r), grp_items = bt_items (generated_test lc sha cur hashes r)\<rparr>)"
    if "r \<in> set ratchets" for r
    using gen_entry[OF gen that] meta_stored[OF gen that] test_distinct[OF gen that] item_stored[OF gen that]
    by (auto simp: storable_group_def wellformed_ratchet_def list_all_iff)
  then show ?thesis
    using gen_ids(2)[OF gen]
    by (simp add: storable_def gen_grouped[OF gen] list_all_iff comp_def)
       (simp add: lintRatchetBaselineToGrouped_def gen_g_eq[OF gen] default_version_policy_def createLintRatchetBaselineVersionPolicy_def)
qed

lemma normal_generated:
  assumes gen: "generation lc sha dc ratchets opts cur hashes vocab g"
  shows "normal_baseline lc (lintRatchetBaselineToGrouped g) = lintRatchetBaselineToGrouped g"
proof -
  have items: "key_sort compareByCodepoint (bt_items (generated_test lc sha cur hashes r)) = bt_items (generated_test lc sha cur hashes r)"
    if "r \<in> set ratchets" for r
  proof (cases "map_of cur (rc_id r)")
    case None
    then show ?thesis by (simp add: generated_test_def baselineTestFromConfig_def positiveMetricItems_def)
  next
    case (Some items)
    have "sorted_wrt (\<lambda>a b. key_cmp compareByCodepoint a b \<le> 0) (filter (\<lambda>(_, i). mi_count i > 0) (key_sort compareByCodepoint items))"
      by (rule sorted_wrt_filter[OF comparator.sorted_js_sort[OF cp.key_comparator]])
    with Some show ?thesis
      unfolding generated_test_def baselineTestFromConfig_def positiveMetricItems_def
      by (intro comparator.js_sort_sorted[OF cp.key_comparator]) (simp add: sorted_wrt_map key_cmp_def case_prod_unfold)
  qed
  have "map (\<lambda>(p, i). (p, formatItem lc (rc_metric r) i)) (bt_items (generated_test lc sha cur hashes r)) = bt_items (generated_test lc sha cur hashes r)"
    if "r \<in> set ratchets" for r
    by (rule map_idI) (use item_stored[OF gen that] in auto)
  moreover have "gm_metric (test_meta (generated_test lc sha cur hashes r)) = rc_metric r" for r
    by (simp add: test_meta_def generated_test_def baselineTestFromConfig_def group_meta.defs)
  ultimately have grp: "normal_group lc \<lparr>grp_meta = test_meta (generated_test lc sha cur hashes r), grp_items = bt_items (generated_test lc sha cur hashes r)\<rparr>
      = \<lparr>grp_meta = test_meta (generated_test lc sha cur hashes r), grp_items = bt_items (generated_test lc sha cur hashes r)\<rparr>"
    if "r \<in> set ratchets" for r
    using items[OF that] that by (simp add: normal_group_def test_meta_normal)
  have "map rc_id ratchets = js_sort compareByCodepoint (map rc_id ratchets)"
    using isSortedUnique_normal[OF gen_ids(1)[OF gen]] by (simp add: codeUnitCompare_eq[abs_def])
  then have "sorted_wrt (\<lambda>a b. compareByCodepoint a b \<le> 0) (map rc_id ratchets)" by (metis cp.sorted_js_sort)
  then have "key_sort compareByCodepoint (gb_groups (lintRatchetBaselineToGrouped g)) = gb_groups (lintRatchetBaselineToGrouped g)"
    unfolding gen_grouped[OF gen] by (intro comparator.js_sort_sorted[OF cp.key_comparator]) (simp add: sorted_wrt_map key_cmp_def)
  then show ?thesis
    by (simp add: normal_baseline_def gen_grouped[OF gen] grp)
qed

lemma gen_ungrouped:
  assumes gen: "generation lc sha dc ratchets opts cur hashes vocab g"
  shows "lintRatchetBaselineFromGrouped (lintRatchetBaselineToGrouped g) default_version_policy = Inr g"
proof -
  have t: "baselineTestFromGroup (test_meta t) (bt_items t) = t" if "positiveItemMap (bt_items t) = bt_items t" for t
    using that by (cases t) (simp add: baselineTestFromGroup_def test_meta_def group_meta.defs baseline_test.defs)
  have "map_from (map (\<lambda>r. (rc_id r, generated_test lc sha cur hashes r)) ratchets) = map (\<lambda>r. (rc_id r, generated_test lc sha cur hashes r)) ratchets"
    by (rule map_from_distinct) (simp add: comp_def gen_ids(2)[OF gen])
  moreover have "map (\<lambda>(testId, gr). (testId, baselineTestFromGroup (grp_meta gr) (grp_items gr))) (gb_groups (lintRatchetBaselineToGrouped g))
      = map (\<lambda>r. (rc_id r, generated_test lc sha cur hashes r)) ratchets"
    unfolding gen_grouped[OF gen] by (simp add: t gen_positive[OF gen])
  ultimately show ?thesis
    by (simp add: lintRatchetBaselineFromGrouped_def)
       (simp add: lintRatchetBaselineToGrouped_def gen_g_eq[OF gen] default_version_policy_def createLintRatchetBaselineVersionPolicy_def)
qed

lemma reads_back:
  assumes gen: "generation lc sha dc ratchets opts cur hashes vocab g" and asm: "formatLintRatchetBaseline lc g vocab = Inr rendered"
  shows "parseLintRatchetBaselineStructure (JSON_parse dc msg) lc rendered vocab default_version_policy bf =
    Inr \<lparr>sb_baseline = Some g, sb_failures = []\<rparr>"
proof -
  have "formatGroupedBaseline (lintRatchetBaselineSpec lc default_version_policy vocab bf) (lintRatchetBaselineToGrouped g) = Inr rendered"
    using asm unfolding formatLintRatchetBaseline_def by (subst format_any_file[of _ _ _ _ _ DEFAULT_BASELINE_FILENAME])
  moreover have "gb_regenerate (lintRatchetBaselineToGrouped g) = map_option JStr (gs_regenerate (lintRatchetBaselineSpec lc default_version_policy vocab bf))"
    by (simp add: lintRatchetBaselineToGrouped_def gen_g_eq[OF gen] lintRatchetBaselineSpec_def default_version_policy_def
        createLintRatchetBaselineVersionPolicy_def lintRatchetBaselineRegenerateForVersion_def)
  from roundtrip_base[OF storable_generated[OF gen] this, of msg]
  obtain new_text where "formatGroupedBaseline (lintRatchetBaselineSpec lc default_version_policy vocab bf) (lintRatchetBaselineToGrouped g) = Inr new_text"
    "parseGroupedBaseline (JSON_parse dc msg) (lintRatchetBaselineSpec lc default_version_policy vocab bf) new_text =
       ParseOk (normal_baseline lc (lintRatchetBaselineToGrouped g)) []" by blast
  ultimately show ?thesis
    by (simp add: parseLintRatchetBaselineStructure_def normal_generated[OF gen] gen_ungrouped[OF gen])
qed

section \<open>The gate after an update\<close>

definition distinct_current :: "current_by_id \<Rightarrow> bool" where
  "distinct_current cur \<longleftrightarrow> list_all (\<lambda>(_, items). list_all (\<lambda>(_, i). distinct_functions i) items) cur"

lemma generated_silent:
  assumes gen: "generation lc sha dc ratchets opts cur hashes vocab g" and "distinct_current cur"
  shows "compareCurrentToBaseline lc g ratchets cur vocab' = Inr no_deltas"
proof (rule silent_comparison)
  fix k p
  show "verdict_at lc g ratchets cur k p = no_change"
  proof (cases "compared_ratchet g ratchets k")
    case None
    then show ?thesis by (simp add: unvisited)
  next
    case (Some r)
    then have reg: "map_of (registered ratchets) k = Some r" by (auto simp: compared_ratchet_def split: if_splits)
    then have r: "r \<in> set ratchets" "k = rc_id r"
      by (auto simp: registered_def map_of_map_from dest!: map_of_SomeD)
    have d: "distinct (map fst (bl_tests g))" by (simp add: gen_g_eq[OF gen] comp_def gen_ids(2)[OF gen])
    have "map_of (bl_tests g) k = Some (generated_test lc sha cur hashes r)"
      by (rule map_of_is_SomeI[OF d]) (use r in \<open>auto simp: gen_g_eq[OF gen]\<close>)
    then have committed: "committed_item g k p = map_option (formatItem lc (rc_metric r)) (collected_item cur k p)"
      using generated_lookup[OF gen_collected[OF gen] r(1), of lc sha hashes p] gen_positive[OF gen r(1)]
      by (simp add: committed_item_def r(2))
    show ?thesis
    proof (cases "collected_item cur k p")
      case None
      with committed show ?thesis by (simp add: unvisited)
    next
      case coll: (Some j)
      then obtain items where items: "map_of cur k = Some items" "map_of items p = Some j"
        by (auto simp: collected_item_def split: bind_splits)
      then have "collected_shape (rc_metric r) j"
        using gen_collected[OF gen] r by (auto simp: collected_for_def collected_items_def simp del: map_of_eq_Some_iff)
      moreover have "distinct_functions j"
        using assms(2) items by (fastforce simp: distinct_current_def list_all_iff dest!: map_of_SomeD)
      ultimately show ?thesis
        using formatted_item_silent[of "\<lparr>ic_ratchet = r, ic_path = p, ic_baselineItem = committed_item g k p, ic_current = j\<rparr>" lc "rc_metric r"]
          committed coll Some by (simp add: verdict_at_def compared_context_def)
    qed
  qed
qed

lemma await_Some: "await r k = Some (Inr v) \<longleftrightarrow> (\<exists>x. r = Some (Inr x) \<and> k x = Some (Inr v))"
  by (auto simp: await_def split: option.splits sum.splits)

lemma await_simps [simp]: "await (Some (Inr x)) k = k x" "await (Some (Inl e)) k = Some (Inl e)" "await None k = None"
  by (simp_all add: await_def)

text \<open>What an update that succeeded went through.\<close>

lemma update_ran:
  assumes "runLintRatchetUpdate io jp lc sha glob issues engine opts w fs = Some r" and "op_result r = Inr (n, recorded)"
  obtains hashes cur g rendered parsed where
    "buildRuleSourceHashesById sha (ow_rules w) (oe_registry engine) (oe_binding engine) = Inr hashes"
    "collectCurrentById sha engine w hashes = Some (Inr cur)" "n = totalCurrentCount cur"
    "buildLintRatchetBaseline lc sha (oe_registry engine) cur hashes (ec_workflowVocabulary (oe_context engine)) default_version_policy = Inr g"
    "formatLintRatchetBaseline lc g (ec_workflowVocabulary (oe_context engine)) = Inr rendered"
    "parseLintRatchetBaseline jp lc sha rendered (oe_registry engine) hashes (ec_workflowVocabulary (oe_context engine))
       default_version_policy (ec_baselineName (oe_context engine)) = Inr parsed" "pb_baseline parsed \<noteq> None"
    "r = apply_generated io jp lc glob issues engine opts cur (g, rendered) fs"
proof -
  have h: "\<exists>hashes. buildRuleSourceHashesById sha (ow_rules w) (oe_registry engine) (oe_binding engine) = Inr hashes"
    using assms by (cases "buildRuleSourceHashesById sha (ow_rules w) (oe_registry engine) (oe_binding engine)")
      (auto simp: runLintRatchetUpdate_def)
  then obtain hashes where h: "buildRuleSourceHashesById sha (ow_rules w) (oe_registry engine) (oe_binding engine) = Inr hashes" ..
  obtain cur where c: "collectCurrentById sha engine w hashes = Some (Inr cur)"
    using assms h by (cases "collectCurrentById sha engine w hashes"; cases "the (collectCurrentById sha engine w hashes)")
      (auto simp: runLintRatchetUpdate_def)
  obtain g rendered where g: "generate_baseline jp lc sha engine hashes cur = Inr (g, rendered)"
    using assms h c by (cases "generate_baseline jp lc sha engine hashes cur") (auto simp: runLintRatchetUpdate_def)
  have r: "r = apply_generated io jp lc glob issues engine opts cur (g, rendered) fs"
    using assms(1) h c g by (simp add: runLintRatchetUpdate_def)
  have "n = totalCurrentCount cur"
    using assms(2) r by (auto simp: apply_generated_def Let_def split: sum.splits)
  then show thesis
    using that h c r g by (auto simp: generate_baseline_def Let_def and_then_Inr lift_error_Inr split: if_splits)
qed

lemma written_baseline:
  assumes "r = apply_generated io jp lc glob issues engine opts cur (g, rendered) fs" and "op_result r = Inr res" and "rendered \<noteq> []"
  shows "fs_baseline (files_after fs r) = Some rendered"
proof -
  let ?p = "\<lparr>ap_context = oe_context engine, ap_generated = g, ap_rendered = rendered, ap_registry = oe_registry engine,
      ap_options = opts, ap_currentFindingCount = totalCurrentCount cur\<rparr>"
  let ?run = "applyLintRatchetUpdate io_ok jp lc glob issues ?p fs"
  have "\<exists>b. ur_result (applyLintRatchetUpdate io jp lc glob issues ?p fs) = Inr b"
    using assms(1,2) by (auto simp: apply_generated_def Let_def split: sum.splits)
  then obtain b where b: "ur_result (applyLintRatchetUpdate io jp lc glob issues ?p fs) = Inr b" ..
  note same = io_success[OF b]
  have r: "op_trace r = ur_trace ?run" and ok: "\<exists>b. ur_result ?run = Inr b"
    using assms(1) b by (simp_all add: apply_generated_def Let_def same)
  obtain decision warnings where gate: "gateCommittedBaseline jp lc glob ?p fs = Inr (decision, warnings)"
    using ok by (cases "gateCommittedBaseline jp lc glob ?p fs") (auto simp: apply_unfold failed_def)
  show ?thesis
  proof (cases "(case fs_baseline fs of None \<Rightarrow> [] | Some s \<Rightarrow> s) = rendered")
    case True
    then have "fs_baseline fs = Some rendered" using assms(3) by (auto split: option.splits)
    with True gate show ?thesis by (simp add: files_after_def r apply_unfold Let_def)
  next
    case False
    with gate ok show ?thesis
      by (auto simp: files_after_def r apply_unfold failed_def Let_def split: sum.splits)
  qed
qed

section \<open>A generated baseline passes its own validation\<close>

lemma validateItem_anywhere: "validateItem path m i = [] \<longleftrightarrow> validateItem [] m i = []"
  by (cases m) (auto simp: fail_if_def split: option.splits)

lemma generated_validates:
  assumes gen: "generation lc sha dc ratchets opts cur hashes vocab g" and "\<forall>r \<in> set ratchets. map_of hashes (rc_id r) \<noteq> None"
  shows "validateBaselineAgainstRegistry lc sha g ratchets hashes vocab = []"
proof -
  have test: "validateBaselineTestAgainstRatchet lc sha (rc_id r) (generated_test lc sha cur hashes r) r
      (case map_of hashes (rc_id r) of None \<Rightarrow> [] | Some h \<Rightarrow> h) vocab = []" if r: "r \<in> set ratchets" for r
  proof -
    obtain h where h: "map_of hashes (rc_id r) = Some h" using assms(2) r by auto
    then have "is_sha256 h" using gen_hashed[OF gen r] by simp
    then have "h \<noteq> []" by (auto simp: is_sha256_def strip_prefix_def)
    moreover have "validateItem (rc_id r @ ''.items.'' @ p) (gm_metric (generated_test lc sha cur hashes r)) i = []"
      if pi: "(p, i) \<in> set (bt_items (generated_test lc sha cur hashes r))" for p i
    proof -
      obtain j where j: "i = formatItem lc (rc_metric r) j" "collected_shape (rc_metric r) j"
        by (rule generated_items[OF gen_collected[OF gen] r pi])
      have "gm_metric (generated_test lc sha cur hashes r) = rc_metric r" by (simp add: generated_test_def baselineTestFromConfig_def)
      then show ?thesis unfolding validateItem_anywhere[of "rc_id r @ ''.items.'' @ p"] using formatted_valid[OF j(2), of lc] j(1) by simp
    qed
    ultimately show ?thesis
      by (auto simp: validateBaselineTestAgainstRatchet_def validateBaselineTestMetadata_def validateBaselineRuleSourceHash_def
          validateBaselineMetricItems_def generated_test_def baselineTestFromConfig_def h)
  qed
  have reg: "registry_map ratchets = registered ratchets" by (simp add: registry_map_def registered_def)
  have d: "distinct (map fst (bl_tests g))" by (simp add: gen_g_eq[OF gen] comp_def gen_ids(2)[OF gen])
  have "map_of (bl_tests g) (rc_id r) = Some (generated_test lc sha cur hashes r)" if "r \<in> set ratchets" for r
    by (rule map_of_is_SomeI[OF d]) (use that in \<open>auto simp: gen_g_eq[OF gen]\<close>)
  then show ?thesis
    using test registered_distinct[OF gen_ids(2)[OF gen]]
    by (auto simp: validateBaselineAgainstRegistry_def reg fail_if_def gen_g_eq[OF gen])
qed

lemma generated_parses:
  assumes gen: "generation lc sha dc ratchets opts cur hashes vocab g" and "\<forall>r \<in> set ratchets. map_of hashes (rc_id r) \<noteq> None"
    and "formatLintRatchetBaseline lc g vocab = Inr rendered"
  shows "parseLintRatchetBaseline (JSON_parse dc msg) lc sha rendered ratchets hashes vocab default_version_policy bf =
    Inr \<lparr>pb_baseline = Some g, pb_failures = [], pb_validationFailures = [], pb_warnings = []\<rparr>"
proof -
  have "regenerateWarning g vocab = None" by (simp add: regenerateWarning_def gen_g_eq[OF gen])
  then show ?thesis
    using reads_back[OF gen assms(3), of msg bf] generated_validates[OF gen assms(2)] assms(3)
    by (simp add: parseLintRatchetBaseline_def)
qed

section \<open>The operations\<close>

text \<open>
  What the engine is set up with: a comparator, a digest of 64 hexadecimal characters, an accepted
  registry, and rule options that JSON can represent.
\<close>

definition engine_ready :: "(string \<Rightarrow> jsval) \<Rightarrow> string cmp \<Rightarrow> hasher \<Rightarrow> registry_options \<Rightarrow> operation_engine \<Rightarrow> bool" where
  "engine_ready dc lc sha opts engine \<longleftrightarrow> comparator lc \<and> hex_digest sha \<and>
     validateLintRatchetRegistry (oe_registry engine) opts = [] \<and> storable_registry dc (oe_registry engine)"

text \<open>What the world delivers: hashes, and collections that end with these items.\<close>

definition world_delivers ::
    "hasher \<Rightarrow> operation_engine \<Rightarrow> operation_world \<Rightarrow> (string \<times> string) list \<Rightarrow> current_by_id \<Rightarrow> bool" where
  "world_delivers sha engine w hashes cur \<longleftrightarrow>
     buildRuleSourceHashesById sha (ow_rules w) (oe_registry engine) (oe_binding engine) = Inr hashes \<and>
     collectCurrentById sha engine w hashes = Some (Inr cur) \<and> storable_current cur"

lemma build_defined:
  "(\<And>r. r \<in> set rs \<Longrightarrow> map_of hashes (rc_id r) \<noteq> None) \<Longrightarrow> \<exists>tests. build_tests lc sha rs cur hashes acc = Inr tests"
  by (induction rs arbitrary: acc) (auto split: option.splits)

lemma delivered_generation:
  assumes "engine_ready dc lc sha ropts engine" and "world_delivers sha engine w hashes cur"
  obtains g rendered where
    "buildLintRatchetBaseline lc sha (oe_registry engine) cur hashes (ec_workflowVocabulary (oe_context engine)) default_version_policy = Inr g"
    "formatLintRatchetBaseline lc g (ec_workflowVocabulary (oe_context engine)) = Inr rendered" "rendered \<noteq> []"
    "generation lc sha dc (oe_registry engine) ropts cur hashes (ec_workflowVocabulary (oe_context engine)) g"
    "\<forall>r \<in> set (oe_registry engine). map_of hashes (rc_id r) \<noteq> None"
proof -
  have ids: "distinct (map rc_id (oe_registry engine))"
    using assms(1) accepted_parts isSortedUnique_distinct by (metis engine_ready_def)
  have b: "buildRuleSourceHashesById sha (ow_rules w) (oe_registry engine) (oe_binding engine) = Inr hashes"
    using assms(2) by (simp add: world_delivers_def)
  have h: "\<exists>h. map_of hashes (rc_id r) = Some h \<and> is_sha256 h" if rr: "r \<in> set (oe_registry engine)" for r
  proof -
    obtain h where "map_of hashes (rc_id r) = Some h" "rule_hash sha (ow_rules w) (oe_binding engine) r = Inr h"
      using hashes_exact[OF b ids rr] by blast
    moreover from this(2) obtain x where "''sha256:'' @ sha x = h" using rule_hash_prefix by blast
    ultimately show ?thesis using digest_sha256[of sha x] assms(1) by (auto simp: engine_ready_def)
  qed
  then have defined: "\<forall>r \<in> set (oe_registry engine). map_of hashes (rc_id r) \<noteq> None" by fastforce
  obtain tests where "build_tests lc sha (oe_registry engine) cur hashes [] = Inr tests"
    using build_defined[of "oe_registry engine" hashes] defined by blast
  then obtain g where g: "buildLintRatchetBaseline lc sha (oe_registry engine) cur hashes
      (ec_workflowVocabulary (oe_context engine)) default_version_policy = Inr g"
    by (simp add: buildLintRatchetBaseline_def)
  have "collected_for (oe_registry engine) cur"
    using collected_current[OF _ ids] assms(2) by (auto simp: world_delivers_def)
  then have gen: "generation lc sha dc (oe_registry engine) ropts cur hashes (ec_workflowVocabulary (oe_context engine)) g"
    using assms h g by (fastforce simp: generation_def engine_ready_def world_delivers_def)
  have "\<exists>txt. formatLintRatchetBaseline lc g v = Inr (txt @ [CHR 0x0A])" for v
    by (simp add: formatLintRatchetBaseline_def formatGroupedBaseline_def lintRatchetBaselineSpec_def)
  then show thesis using that[OF g _ _ gen defined] by blast
qed

lemma reaches_gate:
  assumes "engine_ready dc lc sha ropts engine" and "world_delivers sha engine w hashes cur"
  shows "\<exists>g rendered.
    buildLintRatchetBaseline lc sha (oe_registry engine) cur hashes (ec_workflowVocabulary (oe_context engine)) default_version_policy = Inr g \<and>
    formatLintRatchetBaseline lc g (ec_workflowVocabulary (oe_context engine)) = Inr rendered \<and>
    runLintRatchetUpdate io (JSON_parse dc msg) lc sha glob issues engine opts w fs =
      Some (apply_generated io (JSON_parse dc msg) lc glob issues engine opts cur (g, rendered) fs)"
proof -
  obtain g rendered where g:
    "buildLintRatchetBaseline lc sha (oe_registry engine) cur hashes (ec_workflowVocabulary (oe_context engine)) default_version_policy = Inr g"
    "formatLintRatchetBaseline lc g (ec_workflowVocabulary (oe_context engine)) = Inr rendered"
    "generation lc sha dc (oe_registry engine) ropts cur hashes (ec_workflowVocabulary (oe_context engine)) g"
    "\<forall>r \<in> set (oe_registry engine). map_of hashes (rc_id r) \<noteq> None"
    by (rule delivered_generation[OF assms])
  have "generate_baseline (JSON_parse dc msg) lc sha engine hashes cur = Inr (g, rendered)"
    using generated_parses[OF g(3,4,2)] g(1,2) by (simp add: generate_baseline_def Let_def)
  with assms(2) g show ?thesis by (simp add: runLintRatchetUpdate_def world_delivers_def)
qed

text \<open>
  An update whose hashes and collections succeed always reaches the gate: the baseline it builds can
  be built and rendered, and the validation of the rendered text against the registry never rejects it.
\<close>

theorem update_reaches_gate:
  assumes "engine_ready dc lc sha ropts engine" and "world_delivers sha engine w hashes cur"
  shows "\<exists>g rendered.
    buildLintRatchetBaseline lc sha (oe_registry engine) cur hashes (ec_workflowVocabulary (oe_context engine)) default_version_policy = Inr g \<and>
    formatLintRatchetBaseline lc g (ec_workflowVocabulary (oe_context engine)) = Inr rendered \<and>
    runLintRatchetUpdate io (JSON_parse dc msg) lc sha glob issues engine opts w fs =
      Some (apply_generated io (JSON_parse dc msg) lc glob issues engine opts cur (g, rendered) fs)"
  by (rule reaches_gate[OF assms])

lemma settled_gate:
  assumes "engine_ready dc lc sha ropts engine" and "world_delivers sha engine w hashes cur" and "distinct_current cur"
    and "runLintRatchetUpdate io (JSON_parse dc msg) lc sha glob issues engine opts w fs = Some r" and "op_result r = Inr (n, recorded)"
  shows "runLintRatchetGate (JSON_parse dc msg) lc sha engine w (files_after fs r) =
    Some (Inr \<lparr>gr_comparison = no_deltas, gr_currentFindingCount = n, gr_baselineWarnings = []\<rparr>)"
proof -
  obtain g rendered where g:
    "buildLintRatchetBaseline lc sha (oe_registry engine) cur hashes (ec_workflowVocabulary (oe_context engine)) default_version_policy = Inr g"
    "formatLintRatchetBaseline lc g (ec_workflowVocabulary (oe_context engine)) = Inr rendered" "rendered \<noteq> []"
    "generation lc sha dc (oe_registry engine) ropts cur hashes (ec_workflowVocabulary (oe_context engine)) g"
    "\<forall>r \<in> set (oe_registry engine). map_of hashes (rc_id r) \<noteq> None"
    by (rule delivered_generation[OF assms(1,2)])
  note parsed = generated_parses[OF g(4,5,2), of msg "ec_baselineName (oe_context engine)"]
  obtain hashes' cur' g' rendered' where u:
    "buildRuleSourceHashesById sha (ow_rules w) (oe_registry engine) (oe_binding engine) = Inr hashes'"
    "collectCurrentById sha engine w hashes' = Some (Inr cur')" "n = totalCurrentCount cur'"
    "buildLintRatchetBaseline lc sha (oe_registry engine) cur' hashes' (ec_workflowVocabulary (oe_context engine)) default_version_policy = Inr g'"
    "formatLintRatchetBaseline lc g' (ec_workflowVocabulary (oe_context engine)) = Inr rendered'"
    "r = apply_generated io (JSON_parse dc msg) lc glob issues engine opts cur' (g', rendered') fs"
    by (rule update_ran[OF assms(4,5)])
  have "hashes' = hashes" using u(1) assms(2) by (simp add: world_delivers_def)
  moreover from this have "cur' = cur" using u(2) assms(2) by (simp add: world_delivers_def)
  moreover from calculation have "g' = g" using u(4) g(1) by simp
  moreover from this have "rendered' = rendered" using u(5) g(2) by simp
  ultimately have r: "r = apply_generated io (JSON_parse dc msg) lc glob issues engine opts cur (g, rendered) fs" and n: "n = totalCurrentCount cur"
    using u(3,6) by simp_all
  have "fs_baseline (files_after fs r) = Some rendered" by (rule written_baseline[OF r assms(5) g(3)])
  then show ?thesis
    using assms(2) parsed generated_silent[OF g(4) assms(3)] n
    by (simp add: runLintRatchetGate_def parseCommittedBaseline_def world_delivers_def Let_def)
qed

text \<open>
  C23: after an update has succeeded the gate is green: run on the files the update left behind, over the
  same rule sources and findings, it parses the baseline without a warning, counts the same findings and
  reports no regression, no improvement and no informational change. The engine has a lawful collation, a
  digest of 64 hexadecimal characters and an accepted registry whose rule ids a baseline may hold and whose
  options JSON can represent (\<open>engine_ready\<close>); the hashes and the collections succeed, with normalised
  paths and numbers that doubles represent exactly (\<open>world_delivers\<close>); and no two functions of a
  complexity item share a line and a label (\<open>distinct_current\<close>, without which the comparison of an
  unchanged item is not silent).
\<close>

theorem update_settles_gate:
  assumes "engine_ready dc lc sha ropts engine" and "world_delivers sha engine w hashes cur" and "distinct_current cur"
    and "runLintRatchetUpdate io (JSON_parse dc msg) lc sha glob issues engine opts w fs = Some r" and "op_result r = Inr (n, recorded)"
  shows "runLintRatchetGate (JSON_parse dc msg) lc sha engine w (files_after fs r) =
    Some (Inr \<lparr>gr_comparison = no_deltas, gr_currentFindingCount = n, gr_baselineWarnings = []\<rparr>)"
  by (rule settled_gate[OF assms])

section \<open>The accounting of an operation\<close>

lemma gen_stored:
  assumes gen: "generation lc sha dc ratchets opts cur hashes vocab g"
  shows "stored_items g \<and> generated_from ratchets g"
proof -
  have t: "stored_test ratchets (rc_id r) (generated_test lc sha cur hashes r)" if "r \<in> set ratchets" for r
    unfolding generated_test_def by (rule test_stored[OF gen_collected[OF gen] that])
  have "stored_items g"
    using t gen_ids(2)[OF gen] by (auto simp: stored_items_def gen_g_eq[OF gen] comp_def stored_test_def)
  moreover have "generated_from ratchets g"
    using registered_distinct[OF gen_ids(2)[OF gen]]
    by (auto simp: generated_from_def gen_g_eq[OF gen] generated_test_def baselineTestFromConfig_def)
  ultimately show ?thesis ..
qed

lemma accounted_operation:
  fixes engine g rendered opts cur
  defines "p \<equiv> \<lparr>ap_context = oe_context engine, ap_generated = g, ap_rendered = rendered, ap_registry = oe_registry engine,
      ap_options = opts, ap_currentFindingCount = totalCurrentCount cur\<rparr>"
  assumes ready: "engine_ready dc lc sha ropts engine" "world_delivers sha engine w hashes cur"
    and g: "buildLintRatchetBaseline lc sha (oe_registry engine) cur hashes (ec_workflowVocabulary (oe_context engine)) default_version_policy = Inr g"
      "formatLintRatchetBaseline lc g (ec_workflowVocabulary (oe_context engine)) = Inr rendered"
    and base: "fs_baseline fs = Some oldText" "parseCommittedStructure (JSON_parse dc msg) lc (oe_context engine) oldText = Inr committed"
      "stored_items committed" "no_kept_complexity committed g"
    and log: "parseDebtLogJsonl (JSON_parse dc msg) issues (text_of (fs_debtLog fs)) (ec_debtLogName (oe_context engine) @ '' at base'') = Inr earlier"
    and entries: "list_all (entry_ok dc) (owed_entries (JSON_parse dc msg) lc glob p fs)"
      "owed_entries (JSON_parse dc msg) lc glob p fs = [] \<or>
         \<not> suffix (log_batch (owed_entries (JSON_parse dc msg) lc glob p fs)) (text_of (fs_debtLog fs))"
    and ran: "runLintRatchetUpdate io (JSON_parse dc msg) lc sha glob issues engine opts w fs = Some r"
      "op_result r = Inr (n, recorded)" "op_trace r \<noteq> []"
  shows "checkBaselineDebtAccounting (JSON_parse dc msg) lc glob issues (accounting_of (oe_context engine) fs (files_after fs r)) =
    Inr \<lparr>ar_increases = collectBaselineIncreases committed g, ar_failures = []\<rparr>"
proof -
  obtain g' rendered' where gen:
    "buildLintRatchetBaseline lc sha (oe_registry engine) cur hashes (ec_workflowVocabulary (oe_context engine)) default_version_policy = Inr g'"
    "formatLintRatchetBaseline lc g' (ec_workflowVocabulary (oe_context engine)) = Inr rendered'" "rendered' \<noteq> []"
    "generation lc sha dc (oe_registry engine) ropts cur hashes (ec_workflowVocabulary (oe_context engine)) g'"
    "\<forall>r \<in> set (oe_registry engine). map_of hashes (rc_id r) \<noteq> None"
    by (rule delivered_generation[OF ready])
  have same: "g' = g" "rendered' = rendered" using gen(1,2) g by auto
  have "generate_baseline (JSON_parse dc msg) lc sha engine hashes cur = Inr (g, rendered)"
    using generated_parses[OF gen(4,5,2)] g by (simp add: generate_baseline_def Let_def same)
  then have r: "r = apply_generated io (JSON_parse dc msg) lc glob issues engine opts cur (g, rendered) fs"
    using ran(1) ready(2) by (simp add: runLintRatchetUpdate_def world_delivers_def)
  have p: "ap_context p = oe_context engine" "ap_generated p = g" "ap_rendered p = rendered" "ap_registry p = oe_registry engine"
    by (simp_all add: p_def)
  have trace: "op_trace r = ur_trace (applyLintRatchetUpdate io_ok (JSON_parse dc msg) lc glob issues p fs)"
  proof -
    have "\<exists>b. ur_result (applyLintRatchetUpdate io (JSON_parse dc msg) lc glob issues p fs) = Inr b"
      using ran(2) by (auto simp: r apply_generated_def p_def Let_def split: sum.splits)
    then obtain b where b: "ur_result (applyLintRatchetUpdate io (JSON_parse dc msg) lc glob issues p fs) = Inr b" ..
    have "op_trace r = ur_trace (applyLintRatchetUpdate io (JSON_parse dc msg) lc glob issues p fs)"
      by (simp add: r apply_generated_def p_def Let_def)
    then show ?thesis by (simp only: io_success[OF b])
  qed
  have new: "parseCommittedStructure (JSON_parse dc msg) lc (ap_context p) (ap_rendered p) = Inr (ap_generated p)"
    using reads_back[OF gen(4,2), of msg "ec_baselineName (oe_context engine)"] by (simp add: parseCommittedStructure_def p same)
  have "checkBaselineDebtAccounting (JSON_parse dc msg) lc glob issues (accounting_of (ap_context p) fs
      (final_files fs (applyLintRatchetUpdate io_ok (JSON_parse dc msg) lc glob issues p fs))) =
    Inr \<lparr>ar_increases = collectBaselineIncreases committed (ap_generated p), ar_failures = []\<rparr>"
    by (rule update_passes_base[OF base(1) _ _ new base(3)]) (use base log entries ran(3) gen_stored[OF gen(4)] same in \<open>simp_all add: p trace\<close>)
  then show ?thesis by (simp add: files_after_def final_files_def trace p)
qed

text \<open>
  End to end, from the findings to the check in another process: an update that wrote its files is
  accounted for. Between the files before and after it, the accounting check parses both baselines and
  both logs, finds every increase the update made and has no failure. No ratchet on complexity may keep
  its metric, and the log must not end with the very same entries already.
\<close>

theorem update_operation_accounted:
  fixes engine g rendered opts cur
  defines "p \<equiv> \<lparr>ap_context = oe_context engine, ap_generated = g, ap_rendered = rendered, ap_registry = oe_registry engine,
      ap_options = opts, ap_currentFindingCount = totalCurrentCount cur\<rparr>"
  assumes ready: "engine_ready dc lc sha ropts engine" "world_delivers sha engine w hashes cur"
    and g: "buildLintRatchetBaseline lc sha (oe_registry engine) cur hashes (ec_workflowVocabulary (oe_context engine)) default_version_policy = Inr g"
      "formatLintRatchetBaseline lc g (ec_workflowVocabulary (oe_context engine)) = Inr rendered"
    and base: "fs_baseline fs = Some oldText" "parseCommittedStructure (JSON_parse dc msg) lc (oe_context engine) oldText = Inr committed"
      "stored_items committed" "no_kept_complexity committed g"
    and log: "parseDebtLogJsonl (JSON_parse dc msg) issues (text_of (fs_debtLog fs)) (ec_debtLogName (oe_context engine) @ '' at base'') = Inr earlier"
    and entries: "list_all (entry_ok dc) (owed_entries (JSON_parse dc msg) lc glob p fs)"
      "owed_entries (JSON_parse dc msg) lc glob p fs = [] \<or>
         \<not> suffix (log_batch (owed_entries (JSON_parse dc msg) lc glob p fs)) (text_of (fs_debtLog fs))"
    and ran: "runLintRatchetUpdate io (JSON_parse dc msg) lc sha glob issues engine opts w fs = Some r"
      "op_result r = Inr (n, recorded)" "op_trace r \<noteq> []"
  shows "checkBaselineDebtAccounting (JSON_parse dc msg) lc glob issues (accounting_of (oe_context engine) fs (files_after fs r)) =
    Inr \<lparr>ar_increases = collectBaselineIncreases committed g, ar_failures = []\<rparr>"
  unfolding p_def by (rule accounted_operation[OF assms(2-)[unfolded p_def]])

section \<open>Operations for the witnesses\<close>

text \<open>One rule of ESLint, with one and with two findings in a file.\<close>

definition op_sha :: hasher where
  "op_sha text = replicate 64 (CHR ''a'')"

definition op_engine :: operation_engine where
  "op_engine = \<lparr>oe_context = disk_context,
     oe_binding = \<lparr>bi_repoRoot = ''/r'', bi_thirdPartyPluginAllowlist = [], bi_localRulesDirectory = None\<rparr>,
     oe_registry = one_ratchet MessageCount, oe_collectConcurrency = None\<rparr>"

definition op_world :: "nat \<Rightarrow> operation_world" where
  "op_world n = \<lparr>ow_rules = sample_world [], ow_trackedFailure = None,
     ow_settlements = [(0, Inr [\<lparr>ef_filePath = ''/r/src/a.ts'', ef_messages = replicate n (sample_message ''no-console'')\<rparr>])]\<rparr>"

definition op_hashes :: "(string \<times> string) list" where
  "op_hashes = [(''ratchet/a'', ''sha256:'' @ replicate 64 (CHR ''a''))]"

definition op_current :: "nat \<Rightarrow> current_by_id" where
  "op_current n = (case collectCurrentById op_sha op_engine (op_world n) op_hashes of Some (Inr c) \<Rightarrow> c | _ \<Rightarrow> [])"

definition op_baseline :: "nat \<Rightarrow> ratchet_baseline" where
  "op_baseline n = (case buildLintRatchetBaseline codeUnitCompare op_sha (one_ratchet MessageCount) (op_current n) op_hashes sample_vocab
     default_version_policy of Inr g \<Rightarrow> g | Inl _ \<Rightarrow> sample_baseline [])"

lemma op_facts:
  "validateLintRatchetRegistry (one_ratchet MessageCount) sample_registry_options = [] \<and> storable_registry JDec (one_ratchet MessageCount) \<and>
   (case buildRuleSourceHashesById op_sha (sample_world []) (one_ratchet MessageCount) (oe_binding op_engine) of Inl _ \<Rightarrow> False
      | Inr h \<Rightarrow> h = op_hashes) \<and>
   list_all (\<lambda>n. (case collectCurrentById op_sha op_engine (op_world n) op_hashes of Some (Inr c) \<Rightarrow> storable_current c \<and> distinct_current c
        \<and> totalCurrentCount c = int n | _ \<Rightarrow> False)) [1, 2]"
  by code_simp

lemma op_ready: "engine_ready JDec codeUnitCompare op_sha sample_registry_options op_engine"
  using op_facts cu.comparator_axioms by (simp add: engine_ready_def hex_digest_def op_sha_def op_engine_def is_hex_def list_all_iff)

lemma op_delivers:
  assumes "n = 1 \<or> n = 2"
  shows "world_delivers op_sha op_engine (op_world n) op_hashes (op_current n)"
    and "distinct_current (op_current n)" "totalCurrentCount (op_current n) = int n"
proof -
  have "case collectCurrentById op_sha op_engine (op_world n) op_hashes of Some (Inr c) \<Rightarrow> storable_current c \<and> distinct_current c
        \<and> totalCurrentCount c = int n | _ \<Rightarrow> False"
    using op_facts assms by auto
  then obtain c where c: "collectCurrentById op_sha op_engine (op_world n) op_hashes = Some (Inr c)" "storable_current c" "distinct_current c"
      "totalCurrentCount c = int n"
    by (auto split: option.splits sum.splits)
  then have "op_current n = c" by (simp add: op_current_def)
  moreover have "buildRuleSourceHashesById op_sha (ow_rules (op_world n)) (oe_registry op_engine) (oe_binding op_engine) = Inr op_hashes"
    using op_facts by (simp add: op_world_def op_engine_def split: sum.splits)
  ultimately show "world_delivers op_sha op_engine (op_world n) op_hashes (op_current n)"
    "distinct_current (op_current n)" "totalCurrentCount (op_current n) = int n"
    using c by (simp_all add: world_delivers_def)
qed

text \<open>The first update of a repository without a baseline.\<close>

lemma first_update:
  assumes "rendered \<noteq> []"
  shows "op_result (apply_generated io_ok jp codeUnitCompare exact_glob issues op_engine plain_options (op_current 1) (g, rendered)
    \<lparr>fs_baseline = None, fs_debtLog = None\<rparr>) = Inr (1, False)"
  using assms op_delivers(3)[of 1]
  by (simp add: apply_generated_def apply_unfold gateCommittedBaseline_def debtLogEntriesForUpdate_def
      appendValidatedDebtLogEntries_def reportUpdateClassification_def updateIncludesAcceptedDebt_def Let_def)

theorem update_reaches_gate_witness:
  "\<exists>g rendered. runLintRatchetUpdate io_ok (JSON_parse JDec id) codeUnitCompare op_sha exact_glob (\<lambda>_. []) op_engine plain_options (op_world 1)
       \<lparr>fs_baseline = None, fs_debtLog = None\<rparr> =
     Some (apply_generated io_ok (JSON_parse JDec id) codeUnitCompare exact_glob (\<lambda>_. []) op_engine plain_options (op_current 1) (g, rendered)
       \<lparr>fs_baseline = None, fs_debtLog = None\<rparr>)"
  using update_reaches_gate[OF op_ready op_delivers(1)[of 1], of io_ok id exact_glob "\<lambda>_. []" plain_options "\<lparr>fs_baseline = None, fs_debtLog = None\<rparr>"]
  by auto

theorem update_settles_gate_witness:
  "\<exists>r. runLintRatchetUpdate io_ok (JSON_parse JDec id) codeUnitCompare op_sha exact_glob (\<lambda>_. []) op_engine plain_options (op_world 1)
       \<lparr>fs_baseline = None, fs_debtLog = None\<rparr> = Some r \<and>
     runLintRatchetGate (JSON_parse JDec id) codeUnitCompare op_sha op_engine (op_world 1)
       (files_after \<lparr>fs_baseline = None, fs_debtLog = None\<rparr> r) =
     Some (Inr \<lparr>gr_comparison = no_deltas, gr_currentFindingCount = 1, gr_baselineWarnings = []\<rparr>)"
proof -
  let ?fs = "\<lparr>fs_baseline = None, fs_debtLog = None\<rparr>"
  have d: "world_delivers op_sha op_engine (op_world 1) op_hashes (op_current 1)" "distinct_current (op_current 1)"
    using op_delivers[of 1] by simp_all
  obtain g rendered where g:
    "formatLintRatchetBaseline codeUnitCompare g (ec_workflowVocabulary (oe_context op_engine)) = Inr rendered"
    "runLintRatchetUpdate io_ok (JSON_parse JDec id) codeUnitCompare op_sha exact_glob (\<lambda>_. []) op_engine plain_options (op_world 1) ?fs =
     Some (apply_generated io_ok (JSON_parse JDec id) codeUnitCompare exact_glob (\<lambda>_. []) op_engine plain_options (op_current 1) (g, rendered) ?fs)"
    using reaches_gate[OF op_ready d(1)] by blast
  have "rendered \<noteq> []"
    using g(1) by (auto simp: formatLintRatchetBaseline_def formatGroupedBaseline_def lintRatchetBaselineSpec_def)
  from update_settles_gate[OF op_ready d g(2) first_update[OF this]] g(2) show ?thesis by blast
qed

text \<open>The update that accepts the second finding, from the files of \<^const>\<open>disk_files\<close>.\<close>

lemma op_second_facts:
  "(let u = decideLintRatchetUpdate codeUnitCompare exact_glob (disk_baseline 1) (op_baseline 2) (one_ratchet MessageCount)
        (allow_options\<lparr>uo_workflowVocabulary := sample_vocab\<rparr>)
    in accepted u \<and> (case u of Inl _ \<Rightarrow> False | Inr d \<Rightarrow> debtLogEntriesForUpdate (Some d) allow_options =
       [AcceptedDebt ''the new check finds more'' [sample_regression ''src/a.ts'' 1 2] []])) \<and>
   no_kept_complexity (disk_baseline 1) (op_baseline 2) \<and> bl_tests (disk_baseline 1) \<noteq> bl_tests (op_baseline 2)"
  by code_simp

lemma op_second_update:
  obtains rendered r where
    "buildLintRatchetBaseline codeUnitCompare op_sha (oe_registry op_engine) (op_current 2) op_hashes
       (ec_workflowVocabulary (oe_context op_engine)) default_version_policy = Inr (op_baseline 2)"
    "formatLintRatchetBaseline codeUnitCompare (op_baseline 2) (ec_workflowVocabulary (oe_context op_engine)) = Inr rendered"
    "runLintRatchetUpdate io_ok (JSON_parse JDec id) codeUnitCompare op_sha exact_glob (\<lambda>_. []) op_engine allow_options (op_world 2)
       disk_files = Some r"
    "op_result r = Inr (2, True)" "op_trace r \<noteq> []"
    "owed_entries (JSON_parse JDec id) codeUnitCompare exact_glob \<lparr>ap_context = oe_context op_engine, ap_generated = op_baseline 2,
        ap_rendered = rendered, ap_registry = oe_registry op_engine, ap_options = allow_options,
        ap_currentFindingCount = totalCurrentCount (op_current 2)\<rparr> disk_files =
      [AcceptedDebt ''the new check finds more'' [sample_regression ''src/a.ts'' 1 2] []]"
proof -
  let ?jp = "JSON_parse JDec id"
  have d: "world_delivers op_sha op_engine (op_world 2) op_hashes (op_current 2)" and n: "totalCurrentCount (op_current 2) = 2"
    using op_delivers[of 2] by simp_all
  obtain g rendered where g:
    "buildLintRatchetBaseline codeUnitCompare op_sha (oe_registry op_engine) (op_current 2) op_hashes
       (ec_workflowVocabulary (oe_context op_engine)) default_version_policy = Inr g"
    "formatLintRatchetBaseline codeUnitCompare g (ec_workflowVocabulary (oe_context op_engine)) = Inr rendered" "rendered \<noteq> []"
    "generation codeUnitCompare op_sha JDec (oe_registry op_engine) sample_registry_options (op_current 2) op_hashes
       (ec_workflowVocabulary (oe_context op_engine)) g"
    "\<forall>r \<in> set (oe_registry op_engine). map_of op_hashes (rc_id r) \<noteq> None"
    by (rule delivered_generation[OF op_ready d])
  have gb: "g = op_baseline 2" using g(1) by (simp add: op_baseline_def op_engine_def disk_context_def)
  define p where "p = \<lparr>ap_context = oe_context op_engine, ap_generated = g, ap_rendered = rendered,
    ap_registry = oe_registry op_engine, ap_options = allow_options, ap_currentFindingCount = totalCurrentCount (op_current 2)\<rparr>"
  obtain u where u: "decideLintRatchetUpdate codeUnitCompare exact_glob (disk_baseline 1) (op_baseline 2) (one_ratchet MessageCount)
        (allow_options\<lparr>uo_workflowVocabulary := sample_vocab\<rparr>) = Inr u" "ud_allowed u"
      "debtLogEntriesForUpdate (Some u) allow_options = [AcceptedDebt ''the new check finds more'' [sample_regression ''src/a.ts'' 1 2] []]"
    using op_second_facts by (auto simp: accepted_def Let_def split: sum.splits)
  obtain ws where gate: "gateCommittedBaseline ?jp codeUnitCompare exact_glob p disk_files = Inr (Some u, ws)"
    using u(1,2) disk_reads_back[of 1]
    by (simp add: gateCommittedBaseline_def disk_files_def p_def op_engine_def gb disk_context_def)
  have owed: "owed_entries ?jp codeUnitCompare exact_glob p disk_files =
      [AcceptedDebt ''the new check finds more'' [sample_regression ''src/a.ts'' 1 2] []]"
  proof -
    have "ap_options p = allow_options" by (simp add: p_def)
    then show ?thesis using u(3) by (simp add: owed_entries_def gate)
  qed
  have changed: "disk_text 1 \<noteq> rendered"
  proof
    assume "disk_text 1 = rendered"
    then have "disk_baseline 1 = op_baseline 2"
      using disk_reads_back[of 1] reads_back[OF g(4,2), of id "ec_baselineName (oe_context op_engine)"]
      by (simp add: parseCommittedStructure_def op_engine_def gb)
    then show False using op_second_facts by auto
  qed
  have "case appendValidatedDebtLogEntries (\<lambda>_. []) [AcceptedDebt ''the new check finds more'' [sample_regression ''src/a.ts'' 1 2] []] None
      of Inl _ \<Rightarrow> False | Inr (w, _) \<Rightarrow> w"
    by code_simp
  then obtain log where log: "appendValidatedDebtLogEntries (\<lambda>_. []) (debtLogEntriesForUpdate (Some u) allow_options) None = Inr (True, log)"
    by (auto simp: u(3) split: sum.splits)
  define r where "r = apply_generated io_ok ?jp codeUnitCompare exact_glob (\<lambda>_. []) op_engine allow_options (op_current 2) (g, rendered) disk_files"
  have debt: "updateIncludesAcceptedDebt (Some u) allow_options"
    using u(3) by (auto simp: updateIncludesAcceptedDebt_def debtLogEntriesForUpdate_def allow_options_def Let_def
        buildLintRatchetMetricMigrationLogEntry_def buildLintRatchetRetirementLogEntry_def split: if_splits option.splits)
  obtain lines where lines: "reportUpdateClassification ?jp codeUnitCompare (ap_context p) (disk_text 1) (ap_generated p) = Inr lines"
    using report_total[OF gate refl, of "ap_generated p"] by (auto simp: disk_files_def)
  have run: "op_result r = Inr (2, True)" "op_trace r \<noteq> []"
    using gate log changed debt lines n
    by (simp_all add: r_def apply_generated_def apply_unfold Let_def p_def disk_files_def)
  have "runLintRatchetUpdate io_ok ?jp codeUnitCompare op_sha exact_glob (\<lambda>_. []) op_engine allow_options (op_world 2) disk_files = Some r"
    using reaches_gate[OF op_ready d, of io_ok id exact_glob "\<lambda>_. []" allow_options disk_files] g(1,2) by (auto simp: r_def)
  then show thesis
    using that[OF _ _ _ run] g(1,2) owed by (simp add: gb p_def)
qed

theorem update_operation_accounted_witness:
  "\<exists>r. runLintRatchetUpdate io_ok (JSON_parse JDec id) codeUnitCompare op_sha exact_glob (\<lambda>_. []) op_engine allow_options (op_world 2)
       disk_files = Some r \<and>
     checkBaselineDebtAccounting (JSON_parse JDec id) codeUnitCompare exact_glob (\<lambda>_. [])
       (accounting_of (oe_context op_engine) disk_files (files_after disk_files r)) =
     Inr \<lparr>ar_increases = collectBaselineIncreases (disk_baseline 1) (op_baseline 2), ar_failures = []\<rparr>"
proof -
  obtain rendered r where u:
    "buildLintRatchetBaseline codeUnitCompare op_sha (oe_registry op_engine) (op_current 2) op_hashes
       (ec_workflowVocabulary (oe_context op_engine)) default_version_policy = Inr (op_baseline 2)"
    "formatLintRatchetBaseline codeUnitCompare (op_baseline 2) (ec_workflowVocabulary (oe_context op_engine)) = Inr rendered"
    "runLintRatchetUpdate io_ok (JSON_parse JDec id) codeUnitCompare op_sha exact_glob (\<lambda>_. []) op_engine allow_options (op_world 2)
       disk_files = Some r"
    "op_result r = Inr (2, True)" "op_trace r \<noteq> []"
    "owed_entries (JSON_parse JDec id) codeUnitCompare exact_glob \<lparr>ap_context = oe_context op_engine, ap_generated = op_baseline 2,
        ap_rendered = rendered, ap_registry = oe_registry op_engine, ap_options = allow_options,
        ap_currentFindingCount = totalCurrentCount (op_current 2)\<rparr> disk_files =
      [AcceptedDebt ''the new check finds more'' [sample_regression ''src/a.ts'' 1 2] []]"
    by (rule op_second_update)
  have engine: "ap_context disk_params = oe_context op_engine" by (simp add: disk_params_def op_engine_def)
  note disk = disk_hypotheses(1-3,5)[unfolded engine]
  have "list_all (entry_ok JDec) [AcceptedDebt ''the new check finds more'' [sample_regression ''src/a.ts'' 1 2] []]"
    using disk_hypotheses(9) by (simp only: disk_owed)
  moreover have "text_of (fs_debtLog disk_files) = []" by (simp add: disk_files_def text_of_def)
  moreover have "no_kept_complexity (disk_baseline 1) (op_baseline 2)" using op_second_facts by simp
  ultimately show ?thesis
    using update_operation_accounted[OF op_ready op_delivers(1)[of 2] u(1,2) disk(1,2,4) _ disk(3) _ _ u(3,4,5)] u(3)
    by (simp add: u(6) log_batch_def)
qed

end
