(* ===== verification/Spec2Isabelle.thy ===== *)
theory Spec2Isabelle
  imports BaselineMerge SchedulerLaws EntryBaseline UpdateAccounting CollectorLaws JsonLaws
    SccLaws LayerDirection MinHashLaws MigrationLaws EditCheckLaws ReportsLaws InfoAttributesLaws
    OperationsLaws
begin

text \<open>
  A model of the decision core of this repository's development harness: \<open>src/tools/lint-ratchet\<close>, a
  ratchet over ESLint findings, and the algorithms of \<open>src/scripts\<close> that decide rather than drive
  other programs. Paths below are relative to \<open>src/\<close>; \<open>kernel/\<close> and \<open>governance/\<close> are the directories
  of \<open>tools/lint-ratchet/src/\<close>. Every function of the source that is modelled has a definition of the
  same name; its header text names the file.

  \<^bold>\<open>The ratchet.\<close> A registry lists ratchets: a rule, options, globs and one of three metrics. The
  committed baseline holds, per ratchet and path, an item (a count, with the lines or the function
  complexities of its metric). ESLint's messages are collected into current items and compared with
  the committed ones: worse is a regression, better an improvement. A regenerated baseline replaces
  the committed one only through a gate; what the gate is told to accept is written to an append-only
  debt log, and an accounting check compares two revisions of baseline and log.

  \<^item> \<open>Prelude\<close>, \<open>Codepoint\<close>, \<open>Json\<close>, \<open>JsonParse\<close>, \<open>TextEscape\<close>: JavaScript's sort, maps and strings, the
    code point order of every committed list (\<open>kernel/codepoint-compare.ts\<close>), \<open>JSON.stringify\<close>,
    \<open>JSON.parse\<close> and the canonical forms (\<open>kernel/baseline-hash.ts\<close>, \<open>baseline-merge-values.ts\<close>),
    Markdown escaping. Shown: the comparator decides the order of code points; printing is injective
    and parsing inverts it; table cells cannot be broken, code fences are longer than what they fence.
  \<^item> \<open>Config\<close>, \<open>Metrics\<close>, \<open>MetricLaws\<close>: the types of \<open>kernel/config-types.ts\<close>, \<open>metrics-types.ts\<close> and
    \<open>baseline.ts\<close>; the metric strategies. Shown: no reported regression means the item is at or below
    the floor on every axis; an unchanged complexity item is reported as improved exactly when two of
    its functions share a line and a label and differ in complexity.
  \<^item> \<open>ItemMerge\<close>, \<open>GroupBaseline\<close>, \<open>GroupParse\<close>, \<open>GroupMerge\<close>, \<open>GroupCompare\<close>: baselines of any family as
    groups of keyed items, over a record of functions that the family supplies. The locales
    \<open>merge_policy\<close>, \<open>symmetric_policy\<close> and \<open>mergeable_spec\<close> state what a family must promise; their
    lemmas say that a merge keeps the floor of both sides and does not depend on which side is
    called current. \<open>GroupCompare\<close> gives the status of a comparison in terms of the documents.
  \<^item> \<open>BaselineSpec\<close>, \<open>BaselineLaws\<close>, \<open>BaselineValidation\<close>, \<open>BaselineMerge\<close>, \<open>RoundTrip\<close>: the ratchet
    baseline as such a family (the interpretations of the locales), its validation against the
    registry, the three-way merge driver, which does not depend on which side is called current when
    both parse and are valid, and the round trip of its text.
  \<^item> \<open>EntryBaseline\<close>: the flat baselines of \<open>kernel/entry-baseline.ts\<close>, as documents with one group.
  \<^item> \<open>Registry\<close>, \<open>RegistryLaws\<close>, \<open>Collector\<close>, \<open>CollectorLaws\<close>, \<open>Scheduler\<close>, \<open>SchedulerLaws\<close>: validation
    of the registry and what an accepted one guarantees; ESLint's messages to items, each counted
    once at its path, and the baseline built from them; the bounded concurrent scheduler as a step
    relation, with its bounds, its progress and its result on every order of settlements.
  \<^item> \<open>BaselineCompare\<close>, \<open>CompareLaws\<close>, \<open>BaselineUpdate\<close>, \<open>UpdateLaws\<close>: the comparison of current with
    committed items is total and exact; the gate accepts exactly under its conditions, and an
    accepted update worsens no item, keeps covered paths covered and drops no ratchet that is not
    proven retired, unless it was told to accept worse.
  \<^item> \<open>DebtLogSchema\<close>, \<open>DebtLog\<close>, \<open>DebtLogLaws\<close>, \<open>UpdateApply\<close>, \<open>UpdateApplyLaws\<close>, \<open>DebtAccounting\<close>,
    \<open>AccountingLaws\<close>, \<open>UpdateAccounting\<close>: the log as text, the two writes of an update with every file
    state in between, and the accounting check. What the two writes throw (\<open>governance/debt-log-write.ts\<close>,
    \<open>kernel/atomic-write.ts\<close>) is the argument \<open>io\<close>. Shown: appended entries are read back, the log is
    written first, what a run that fails leaves behind, an update that crashed or whose write was refused
    is completed by running it again, an update that ran through passes the check, and a check that
    passes means that every increase has a gap-free chain of accepted regressions; and two cases in
    which the check and the log disagree.
  \<^item> \<open>RuleSource\<close>, \<open>RuleSourceLaws\<close>: \<open>kernel/rule-source.ts\<close>, the hash of what a ratchet's rule is made of.
    The file system is a map, the TypeScript parser returns the parts of the tree the code looks at.
    Shown: the walk over a rule's imports ends and finds exactly the files and packages of the rule; for
    a digest without collisions equal hashes mean equal files and versions.
  \<^item> \<open>Operations\<close>, \<open>OperationsLaws\<close>: \<open>governance/operations.ts\<close>, the gate and the update end to end. The
    world of an operation holds the rule sources and the collections in the order in which they settle.
    Shown: an update reaches its gate, the gate is silent on the files and findings of an update that
    succeeded, and the accounting check accepts the change.
  \<^item> \<open>EditCheck\<close>, \<open>EditCheckLaws\<close>, \<open>ZeroBaseline\<close>, \<open>ZeroBaselineLaws\<close>: the check of single edited files
    agrees with the full gate on what it lints, for every order in which its workers finish; a
    ratchet that an update without --allow-worse drops is enforced by normal lint on its whole committed
    scope.
  \<^item> \<open>Reports\<close>, \<open>ReportsLaws\<close>: summary, trend and debt log report (\<open>governance/summary.ts\<close>, \<open>trend.ts\<close>,
    \<open>debt-log.ts\<close>). The directory rows partition the files and findings, the trend has the exact points
    and warnings, git's log is read back, no text breaks a table.
  \<^item> \<open>InfoAttributes\<close>, \<open>InfoAttributesLaws\<close>: the block a merge driver owns in the git attributes file
    (\<open>git-rail/info-attributes.ts\<close>). Rendering is stable, loses no other rule, and two drivers settle.

  \<^bold>\<open>The scripts.\<close>

  \<^item> \<open>DriftPrelude\<close>, \<open>DriftGraph\<close>, \<open>ImportCycles\<close>, \<open>SccLaws\<close>, \<open>LayerDirection\<close>: the module graph of
    \<open>scripts/drift-ai\<close> and its two clients. Kosaraju's two passes compute the strongly connected
    components; what a reported runtime or type-only cycle is; the exact layer findings in both scopes.
  \<^item> \<open>MinHash\<close>, \<open>MinHashLaws\<close>: \<open>drift-ai/minhash-lsh.ts\<close> on 32-bit words. A signature is the least hash
    over the set of shingles; a run that was not truncated proposes exactly the pairs that agree on
    a band.
  \<^item> \<open>MigrationSafety\<close>, \<open>MigrationLaws\<close>: the scanner of \<open>scripts/lib/migration-safety-core.ts\<close>, which
    reports plain lines exactly by the rules they match and never a block comment.

  \<^bold>\<open>Conventions.\<close> A record of the source is a \<open>record\<close> with prefixed fields, a union a \<open>datatype\<close>, an
  optional field an \<open>option\<close>. A \<open>Map\<close>, or an object used as one, is an association list in insertion
  order; keys that look like array indices, and keys that every object inherits, are not treated
  separately. A thrown error is \<open>Inl\<close>; pushes on a caller's array and lines on standard error are
  returned as lists. Numbers that the program counts are \<open>int\<close> or \<open>nat\<close>, far below the exact range
  of doubles. Names and paths are lists of 8-bit characters, so non-ASCII literals are their UTF-8
  bytes and lengths of non-ASCII text differ from JavaScript's; where the difference between code
  units and code points matters (\<open>Codepoint\<close>, \<open>MigrationSafety\<close>) text is a list of 16-bit units.

  \<^bold>\<open>Parameters.\<close> What is not under \<open>src/\<close> is an argument: \<open>lc\<close> is \<open>localeCompare\<close>, \<open>glob\<close> minimatch,
  \<open>sha\<close> the digest, \<open>jp\<close> a JSON parser (with \<open>JSON_parse\<close> as the instance), \<open>issues\<close> zod's messages,
  \<open>lint\<close> and \<open>eslint\<close> ESLint's runs and its resolved configuration, \<open>hashesOf\<close> the hashes of rule
  sources in the edit check, \<open>parse\<close> the TypeScript parser, \<open>io\<close> what the writes throw, \<open>git\<close> git, \<open>graph_env\<close> the TypeScript compiler's references and resolution, \<open>rnd\<close> and \<open>pct\<close>
  rounding of quotients.

  \<^bold>\<open>Recursion.\<close> The JSON parser has fuel; twice the length of the text and one is enough and more
  never changes a parse. The scheduler's steps and the search stacks of Kosaraju's passes terminate
  by measures; every other loop is structural or has a \<open>termination\<close> proof.

  \<^bold>\<open>Not modelled.\<close> Process and file glue (the command lines, hooks, generators and hash caches),
  declarative tables and schemas, walks over the TypeScript and ESLint syntax trees, whose node types
  are third-party, and formatting of other tools' output. Their inputs are either data or the
  behaviour of programs that are not in the repository, so a model of them would have to invent it.
\<close>

end
